(* ===== verification/Prelude.thy ===== *)
theory Prelude
  imports Complex_Main "HOL-Library.AList"
begin

text \<open>
  Vocabulary shared by every component of the development: the exceptions of the program as one
  datatype, programs that may raise and that change a state, insertion-ordered dictionaries,
  suspension points of the event loop, and the character classes behind the program's
  regular expressions.

  Conventions.  A Python \<^verbatim>\<open>str\<close> is a \<^typ>\<open>string\<close>, so code points above 255 are out of scope; a
  \<^verbatim>\<open>dict\<close> is an association list with distinct keys whose order is the insertion order; an
  aware \<^verbatim>\<open>datetime\<close> is the number of microseconds since the epoch; a finite \<^verbatim>\<open>float\<close> is a rational.
  An \<^verbatim>\<open>isinstance\<close> test that the type of the model already decides is not repeated.
\<close>

named_theorems run_simps \<open>unfolding rules of the program combinators\<close>
named_theorems guard_simps \<open>definitions of the guards that only inspect their arguments\<close>

subsection \<open>Exceptions\<close>

datatype exn =
    ValueError string
  | TypeError string
  | RuntimeError string
  | BudgetExceeded string
  | RetryReservation
  | ReceiptStoreError string
  | DelegationRejected string bool
  | DelegationEndpointError string
  | DelegationFailure string string
  | AgentNotFoundError
  | AgentDefinitionNotRunnableError
  | AgentDefinitionConflictError
  | CapacityError string
  | CancelledError
  | OtherException string
  | DetailedException string string "int list"
  | FuelOut

text \<open>
  \<^verbatim>\<open>except Exception\<close> catches everything but \<^verbatim>\<open>asyncio.CancelledError\<close>, which derives from
  \<^verbatim>\<open>BaseException\<close>.  The other classes of the program are given by their name, with the message and the
  numbers they carry where the model reads them.  \<^term>\<open>FuelOut\<close> is not an exception of the program: it says that a loop given a
  bounded number of rounds has not finished.
\<close>

fun is_exception :: "exn \<Rightarrow> bool" where
  "is_exception CancelledError = False"
| "is_exception FuelOut = False"
| "is_exception _ = True"

text \<open>\<^verbatim>\<open>type(exc).__name__\<close>\<close>

fun exn_class :: "exn \<Rightarrow> string" where
  "exn_class (ValueError _) = ''ValueError''"
| "exn_class (TypeError _) = ''TypeError''"
| "exn_class (RuntimeError _) = ''RuntimeError''"
| "exn_class (OtherException n) = n"
| "exn_class (DetailedException n _ _) = n"
| "exn_class _ = ''Exception''"

type_synonym 'a res = "exn + 'a"

definition bindR :: "'a res \<Rightarrow> ('a \<Rightarrow> 'b res) \<Rightarrow> 'b res" where
  "bindR r f = (case r of Inl e \<Rightarrow> Inl e | Inr x \<Rightarrow> f x)"

definition require :: "bool \<Rightarrow> exn \<Rightarrow> unit res" where
  "require b e = (if b then Inr () else Inl e)"

lemma bindR_simps [simp]: "bindR (Inl e) f = Inl e" "bindR (Inr x) f = f x"
  by (simp_all add: bindR_def)

lemma bindR_Inr_iff: "bindR r f = Inr y \<longleftrightarrow> (\<exists>x. r = Inr x \<and> f x = Inr y)"
  by (cases r) auto

lemma bindR_Inl_iff: "bindR r f = Inl e \<longleftrightarrow> r = Inl e \<or> (\<exists>x. r = Inr x \<and> f x = Inl e)"
  by (cases r) auto

lemma require_simps [simp]:
  "require b e = Inr u \<longleftrightarrow> b" "require b e = Inl e' \<longleftrightarrow> \<not> b \<and> e' = e"
  "require True e = Inr ()" "require False e = Inl e"
  "Inl e' = require b e \<longleftrightarrow> \<not> b \<and> e' = e" "Inr u = require b e \<longleftrightarrow> b"
  by (auto simp: require_def)

text \<open>The checks of a constructor, in order: the first failing one decides.\<close>

fun all_ok :: "unit res list \<Rightarrow> unit res" where
  "all_ok [] = Inr ()"
| "all_ok (r # rs) = (case r of Inl e \<Rightarrow> Inl e | Inr _ \<Rightarrow> all_ok rs)"

fun mapR :: "('a \<Rightarrow> 'b res) \<Rightarrow> 'a list \<Rightarrow> 'b list res" where
  "mapR f [] = Inr []"
| "mapR f (x # xs) = (case f x of Inl e \<Rightarrow> Inl e
     | Inr y \<Rightarrow> (case mapR f xs of Inl e \<Rightarrow> Inl e | Inr ys \<Rightarrow> Inr (y # ys)))"

lemma all_ok_Inr [simp]: "all_ok rs = Inr u \<longleftrightarrow> (\<forall>r \<in> set rs. r = Inr ())"
  by (induction rs) (auto split: sum.splits)

lemma mapR_append:
  "mapR f (xs @ ys) = bindR (mapR f xs) (\<lambda>us. bindR (mapR f ys) (\<lambda>vs. Inr (us @ vs)))"
  by (induction xs) (auto simp: bindR_def split: sum.splits)

declare all_ok.simps [simp del]

lemma all_ok_Inl: "all_ok rs = Inl e \<Longrightarrow> Inl e \<in> set rs"
  by (induction rs) (auto simp: all_ok.simps split: sum.splits)

lemma mapR_Inr: "mapR f xs = Inr ys \<longleftrightarrow> list_all2 (\<lambda>x y. f x = Inr y) xs ys"
proof (induction xs arbitrary: ys)
  case Nil
  then show ?case by auto
next
  case (Cons x xs)
  show ?case by (auto simp: list_all2_Cons1 simp flip: Cons.IH split: sum.splits)
qed

lemma mapR_all:
  assumes "mapR f xs = Inr ys" and "\<And>x y. f x = Inr y \<Longrightarrow> P y"
  shows "\<forall>y \<in> set ys. P y"
proof -
  have "list_all2 (\<lambda>x y. f x = Inr y) xs ys" using assms(1) by (simp add: mapR_Inr)
  then show ?thesis by (induction rule: list_all2_induct) (auto intro: assms(2))
qed

subsection \<open>Dynamic values\<close>

text \<open>
  The values of \<^verbatim>\<open>Any\<close>-typed arguments and of JSON-like payloads.  \<^term>\<open>PNonFinite\<close> is a float
  that is infinite or not a number.
\<close>

datatype pyval =
    PNone
  | PBool bool
  | PInt int
  | PFloat rat
  | PNonFinite
  | PStr string
  | PList "pyval list"
  | PDict "(string \<times> pyval) list"

subsection \<open>Programs over a state\<close>

type_synonym ('s, 'a) prog = "'s \<Rightarrow> 'a res \<times> 's"

definition ret :: "'a \<Rightarrow> ('s, 'a) prog" where
  "ret x = (\<lambda>s. (Inr x, s))"

definition raise :: "exn \<Rightarrow> ('s, 'a) prog" where
  "raise e = (\<lambda>s. (Inl e, s))"

definition ofR :: "'a res \<Rightarrow> ('s, 'a) prog" where
  "ofR r = (\<lambda>s. (r, s))"

definition readP :: "('s \<Rightarrow> 'a) \<Rightarrow> ('s, 'a) prog" where
  "readP f = (\<lambda>s. (Inr (f s), s))"

definition modifyP :: "('s \<Rightarrow> 's) \<Rightarrow> ('s, unit) prog" where
  "modifyP f = (\<lambda>s. (Inr (), f s))"

definition bindP :: "('s, 'a) prog \<Rightarrow> ('a \<Rightarrow> ('s, 'b) prog) \<Rightarrow> ('s, 'b) prog" where
  "bindP m f = (\<lambda>s. case m s of (Inl e, s') \<Rightarrow> (Inl e, s') | (Inr x, s') \<Rightarrow> f x s')"

definition catchP :: "('s, 'a) prog \<Rightarrow> (exn \<Rightarrow> ('s, 'a) prog) \<Rightarrow> ('s, 'a) prog" where
  "catchP m h = (\<lambda>s. case m s of (Inl e, s') \<Rightarrow> h e s' | (Inr x, s') \<Rightarrow> (Inr x, s'))"

text \<open>\<^verbatim>\<open>finally\<close>: the handler runs on both exits and its own result is dropped.\<close>

definition finallyP :: "('s, 'a) prog \<Rightarrow> ('s \<Rightarrow> 's) \<Rightarrow> ('s, 'a) prog" where
  "finallyP m f = (\<lambda>s. case m s of (r, s') \<Rightarrow> (r, f s'))"

lemmas prog_defs [run_simps] =
  ret_def raise_def ofR_def readP_def modifyP_def bindP_def catchP_def finallyP_def

lemma bindP_ret [simp]: "bindP (ret x) f = f x"
  by (simp add: prog_defs)

lemma bindP_raise [simp]: "bindP (raise e) f = raise e"
  by (simp add: prog_defs)

lemma bindP_assoc: "bindP (bindP m f) g = bindP m (\<lambda>x. bindP (f x) g)"
  by (rule ext) (simp add: bindP_def split: prod.splits sum.splits)

lemma bindP_run: "bindP m f s = (case m s of (Inl e, s') \<Rightarrow> (Inl e, s') | (Inr x, s') \<Rightarrow> f x s')"
  by (simp add: bindP_def)

text \<open>
  A relation between the states before and after that is transitive is kept by a program when
  it is kept by its parts.  The relies and guarantees of the stores are proved with these.
\<close>

definition preserves :: "('s \<Rightarrow> 's \<Rightarrow> bool) \<Rightarrow> ('s, 'a) prog \<Rightarrow> bool" where
  "preserves R m \<longleftrightarrow> (\<forall>s. R s (snd (m s)))"

lemma preserves_ret [intro]: "reflp R \<Longrightarrow> preserves R (ret x)"
  and preserves_raise [intro]: "reflp R \<Longrightarrow> preserves R (raise e)"
  and preserves_ofR [intro]: "reflp R \<Longrightarrow> preserves R (ofR r)"
  and preserves_readP [intro]: "reflp R \<Longrightarrow> preserves R (readP f)"
  by (auto simp: preserves_def prog_defs reflp_def)

lemma preserves_modifyP: "(\<And>s. R s (f s)) \<Longrightarrow> preserves R (modifyP f)"
  by (simp add: preserves_def prog_defs)

lemma preserves_bindP:
  assumes "transp R" and "preserves R m" and "\<And>x. preserves R (f x)"
  shows "preserves R (bindP m f)"
  unfolding preserves_def
proof
  fix s
  obtain r s' where ms: "m s = (r, s')" by (cases "m s") auto
  have "R s s'" using assms(2) ms by (metis preserves_def snd_conv)
  then show "R s (snd (bindP m f s))"
    using assms(1,3) ms by (cases r) (auto simp: bindP_def preserves_def dest: transpD)
qed

lemma preserves_bind_ofR:
  "reflp R \<Longrightarrow> (\<And>x. r = Inr x \<Longrightarrow> preserves R (f x)) \<Longrightarrow> preserves R (bindP (ofR r) f)"
  by (cases r) (auto simp: preserves_def bindP_def ofR_def reflp_def)

lemma preserves_catchP:
  assumes "transp R" and "preserves R m" and "\<And>e. preserves R (h e)"
  shows "preserves R (catchP m h)"
  unfolding preserves_def
proof
  fix s
  obtain r s' where ms: "m s = (r, s')" by (cases "m s") auto
  have "R s s'" using assms(2) ms by (metis preserves_def snd_conv)
  then show "R s (snd (catchP m h s))"
    using assms(1,3) ms by (cases r) (auto simp: catchP_def preserves_def dest: transpD)
qed

lemma preserves_finallyP:
  assumes "transp R" and "preserves R m" and "\<And>s. R s (f s)"
  shows "preserves R (finallyP m f)"
  using assms by (auto simp: preserves_def finallyP_def split: prod.split dest: transpD)
    (metis snd_conv transpD)

lemma preserves_option:
  "preserves R a \<Longrightarrow> (\<And>x. preserves R (f x)) \<Longrightarrow>
     preserves R (case v of None \<Rightarrow> a | Some x \<Rightarrow> f x)"
  by (simp split: option.split)

lemma preserves_if:
  "preserves R m \<Longrightarrow> preserves R n \<Longrightarrow> preserves R (if b then m else n)"
  by simp

subsection \<open>Suspension points\<close>

text \<open>
  The program is asynchronous: at an \<^verbatim>\<open>await\<close> any other task may run.  The state carries the
  number of suspension points passed so far and the time; the interference parameter says what
  the other tasks (and the clock) do to the state at each of them.
\<close>

record sched =
  tick :: nat
  now :: int

type_synonym 's env = "nat \<Rightarrow> 's \<Rightarrow> 's"

definition await :: "'a sched_scheme env \<Rightarrow> 'a sched_scheme \<Rightarrow> 'a sched_scheme" where
  "await E w = (E (tick w) w)\<lparr>tick := Suc (tick w)\<rparr>"

definition quiet :: "'s env" where
  "quiet = (\<lambda>n w. w)"

lemma tick_await [simp]: "tick (await E w) = Suc (tick w)"
  by (simp add: await_def)

lemma await_quiet [simp]: "await quiet w = w\<lparr>tick := Suc (tick w)\<rparr>"
  by (simp add: await_def quiet_def)

text \<open>The state after \<open>k\<close> suspensions in a row: only other tasks have acted.\<close>

abbreviation after :: "'a sched_scheme env \<Rightarrow> nat \<Rightarrow> 'a sched_scheme \<Rightarrow> 'a sched_scheme" where
  "after E k w \<equiv> (await E ^^ k) w"

subsection \<open>Dictionaries\<close>

type_synonym ('k, 'v) dict = "('k \<times> 'v) list"

abbreviation dget :: "('k, 'v) dict \<Rightarrow> 'k \<Rightarrow> 'v option" where
  "dget \<equiv> map_of"

abbreviation dset :: "'k \<Rightarrow> 'v \<Rightarrow> ('k, 'v) dict \<Rightarrow> ('k, 'v) dict" where
  "dset \<equiv> AList.update"

abbreviation dwf :: "('k, 'v) dict \<Rightarrow> bool" where
  "dwf d \<equiv> distinct (map fst d)"

abbreviation dget_or :: "('k, 'v) dict \<Rightarrow> 'k \<Rightarrow> 'v \<Rightarrow> 'v" where
  "dget_or d k v \<equiv> (case map_of d k of None \<Rightarrow> v | Some x \<Rightarrow> x)"

lemma dset_fresh: "map_of d k = None \<Longrightarrow> dset k v d = d @ [(k, v)]"
  by (induction d) (auto split: if_splits)

lemma dget_dset: "map_of (dset k v d) k' = (if k' = k then Some v else map_of d k')"
  by (simp add: update_conv')

lemma dwf_dset [simp]: "dwf d \<Longrightarrow> dwf (dset k v d)"
  by (rule distinct_update)

lemma length_dset:
  "length (dset k v d) = (if map_of d k = None then Suc (length d) else length d)"
  by (induction d) auto

lemma set_dset_subset: "set (dset k v d) \<subseteq> insert (k, v) (set d)"
  by (induction d) auto

lemma sum_dset:
  fixes d :: "('k \<times> int) list"
  shows "sum_list (map snd (dset k v d)) =
    sum_list (map snd d) + v - (case map_of d k of None \<Rightarrow> 0 | Some x \<Rightarrow> x)"
  by (induction d) auto

lemma filter_length_dset:
  "dwf d \<Longrightarrow> map_of d k = Some x \<Longrightarrow>
   int (length (filter (\<lambda>p. P (snd p)) (dset k v d))) =
   int (length (filter (\<lambda>p. P (snd p)) d)) + of_bool (P v) - of_bool (P x)"
  by (induction d) (auto split: if_splits)

subsection \<open>Character classes\<close>

definition digits :: string where "digits = ''0123456789''"

definition is_digit :: "char \<Rightarrow> bool" where
  "is_digit c \<longleftrightarrow> c \<in> set digits"

text \<open>\<^verbatim>\<open>str\<close> of a natural number.\<close>

fun decimal :: "nat \<Rightarrow> string" where
  "decimal n = (if n < 10 then [digits ! n] else decimal (n div 10) @ [digits ! (n mod 10)])"

declare decimal.simps [simp del]

definition is_alnum :: "char \<Rightarrow> bool" where
  "is_alnum c \<longleftrightarrow> is_digit c \<or>
     c \<in> set ''abcdefghijklmnopqrstuvwxyz'' \<or> c \<in> set ''ABCDEFGHIJKLMNOPQRSTUVWXYZ''"

text \<open>\<^verbatim>\<open>str.lower\<close>, as far as the comparison with ASCII words goes.\<close>

definition lower_char :: "char \<Rightarrow> char" where
  "lower_char c = (if 65 \<le> (of_char c :: nat) \<and> (of_char c :: nat) \<le> 90 then char_of (of_char c + 32 :: nat) else c)"

definition lower :: "string \<Rightarrow> string" where
  "lower s = map lower_char s"

text \<open>The shape \<^verbatim>\<open>[A-Za-z0-9][A-Za-z0-9<extra>]{0,n}\<close> shared by the program's identifier patterns.\<close>

definition token :: "string \<Rightarrow> nat \<Rightarrow> string \<Rightarrow> bool" where
  "token extra n s \<longleftrightarrow>
     (case s of [] \<Rightarrow> False
      | c # cs \<Rightarrow> is_alnum c \<and> length cs \<le> n \<and> list_all (\<lambda>x. is_alnum x \<or> x \<in> set extra) cs)"

lemma token_nonempty: "token extra n s \<Longrightarrow> s \<noteq> []"
  by (auto simp: token_def)

lemma token_chars: "token extra n s \<Longrightarrow> x \<in> set s \<Longrightarrow> is_alnum x \<or> x \<in> set extra"
  by (auto simp: token_def list_all_iff split: list.splits)

lemma at_not_alnum [simp]: "\<not> is_alnum CHR ''@''"
  by (simp add: is_alnum_def is_digit_def digits_def)

lemma dropWhile_Cons_hd: "dropWhile P xs = y # ys \<Longrightarrow> \<not> P y"
  using hd_dropWhile [of P xs] by simp

lemma in_dropWhile: "x \<in> set xs \<Longrightarrow> x \<notin> set (takeWhile P xs) \<Longrightarrow> x \<in> set (dropWhile P xs)"
  by (induction xs) (auto split: if_splits)

fun split_on :: "char \<Rightarrow> string \<Rightarrow> string list" where
  "split_on c [] = [[]]"
| "split_on c (x # xs) =
     (if x = c then [] # split_on c xs
      else (case split_on c xs of [] \<Rightarrow> [[x]] | y # ys \<Rightarrow> (x # y) # ys))"

text \<open>\<^verbatim>\<open>str.strip()\<close> on the characters of the model (the Latin-1 white space of Python).\<close>

definition is_space :: "char \<Rightarrow> bool" where
  "is_space c \<longleftrightarrow> (let n = of_char c :: nat in
     (9 \<le> n \<and> n \<le> 13) \<or> (28 \<le> n \<and> n \<le> 32) \<or> n = 133 \<or> n = 160)"

definition lstrip :: "string \<Rightarrow> string" where
  "lstrip s = dropWhile is_space s"

definition strip :: "string \<Rightarrow> string" where
  "strip s = rev (lstrip (rev (lstrip s)))"

lemma hd_lstrip: "lstrip s \<noteq> [] \<Longrightarrow> \<not> is_space (hd (lstrip s))"
  unfolding lstrip_def by (rule hd_dropWhile)

lemma lstrip_id: "s = [] \<or> \<not> is_space (hd s) \<Longrightarrow> lstrip s = s"
  by (cases s) (auto simp: lstrip_def)

lemma strip_id:
  assumes "s \<noteq> [] \<Longrightarrow> \<not> is_space (hd s) \<and> \<not> is_space (last s)"
  shows "strip s = s"
proof -
  have "lstrip s = s" and "lstrip (rev s) = rev s"
    using assms by (auto intro!: lstrip_id simp: hd_rev)
  then show ?thesis by (simp add: strip_def)
qed

lemma lstrip_rev_hd: "lstrip s = s \<Longrightarrow> lstrip (rev (lstrip (rev s))) = rev (lstrip (rev s))"
proof (rule lstrip_id)
  assume fix0: "lstrip s = s"
  define t where "t = rev (lstrip (rev s))"
  obtain u where u: "rev s = u @ lstrip (rev s)"
    unfolding lstrip_def by (metis takeWhile_dropWhile_id)
  then have s: "s = t @ rev u"
    unfolding t_def by (metis rev_append rev_rev_ident)
  show "rev (lstrip (rev s)) = [] \<or> \<not> is_space (hd (rev (lstrip (rev s))))"
  proof (cases t)
    case Nil
    then show ?thesis by (simp add: t_def)
  next
    case (Cons c cs)
    then have "hd s = c" and "s \<noteq> []" using s by auto
    then have "\<not> is_space c" using fix0 hd_lstrip [of s] by simp
    then show ?thesis using Cons by (simp add: t_def)
  qed
qed

lemma strip_idem [simp]: "strip (strip s) = strip s"
proof -
  have "lstrip (lstrip s) = lstrip s"
    by (rule lstrip_id) (auto dest: hd_lstrip)
  then have a: "lstrip (strip s) = strip s"
    unfolding strip_def by (rule lstrip_rev_hd)
  have "lstrip (rev (strip s)) = rev (strip s)"
    unfolding strip_def by (simp, rule lstrip_id) (auto dest: hd_lstrip)
  then show ?thesis using a by (simp add: strip_def [of "strip s"])
qed

end
