(* ===== verification/Agent_Refs.thy ===== *)
theory Agent_Refs
  imports Prelude
begin

text \<open>
  Exact, version-pinned Agent identities and the definition lifecycle
  (\<^verbatim>\<open>moduagent/definitions/models.py\<close>): the accepted Agent IDs and Semantic Versions, the textual
  form \<^verbatim>\<open><agent_id>@<version>\<close> with its parser, and the lifecycle of a definition.
\<close>

subsection \<open>Accepted Agent IDs and versions\<close>

definition valid_agent_id :: "string \<Rightarrow> bool" where
  "valid_agent_id s \<longleftrightarrow> token ''._-'' 127 s"

text \<open>\<^verbatim>\<open>(0|[1-9][0-9]*)\<close>: a number without leading zeros.\<close>

definition numeric_id :: "string \<Rightarrow> bool" where
  "numeric_id s \<longleftrightarrow> s \<noteq> [] \<and> list_all is_digit s \<and> (s = ''0'' \<or> hd s \<noteq> CHR ''0'')"

text \<open>\<^verbatim>\<open>[0-9A-Za-z-]+(\.[0-9A-Za-z-]+)*\<close>: dot-separated nonempty identifiers.\<close>

definition dotted_ids :: "string \<Rightarrow> bool" where
  "dotted_ids s \<longleftrightarrow>
     list_all (\<lambda>p. p \<noteq> [] \<and> list_all (\<lambda>c. is_alnum c \<or> c = CHR ''-'') p) (split_on CHR ''.'' s)"

text \<open>\<^verbatim>\<open>_validate_version\<close>: a numeric prerelease identifier has no leading zero either.\<close>

definition prerelease_ok :: "string \<Rightarrow> bool" where
  "prerelease_ok s \<longleftrightarrow> dotted_ids s \<and>
     \<not> list_ex (\<lambda>p. list_all is_digit p \<and> length p > 1 \<and> hd p = CHR ''0'') (split_on CHR ''.'' s)"

definition valid_version :: "string \<Rightarrow> bool" where
  "valid_version s \<longleftrightarrow> length s \<le> 128 \<and>
     (let core = takeWhile (\<lambda>c. c \<noteq> CHR ''-'' \<and> c \<noteq> CHR ''+'') s;
          rest = dropWhile (\<lambda>c. c \<noteq> CHR ''-'' \<and> c \<noteq> CHR ''+'') s;
          nums = split_on CHR ''.'' core
      in length nums = 3 \<and> list_all numeric_id nums \<and>
         (case rest of [] \<Rightarrow> True
          | c # r \<Rightarrow>
              if c = CHR ''+'' then dotted_ids r
              else (let pre = takeWhile (\<lambda>x. x \<noteq> CHR ''+'') r;
                        build = dropWhile (\<lambda>x. x \<noteq> CHR ''+'') r
                    in prerelease_ok pre \<and>
                       (case build of [] \<Rightarrow> True | _ # b \<Rightarrow> dotted_ids b))))"

subsection \<open>\<^verbatim>\<open>AgentRef\<close>\<close>

record agent_ref =
  agent_id :: string
  version :: string

definition AgentRef :: "string \<Rightarrow> string \<Rightarrow> agent_ref res" where
  "AgentRef i v =
     (if \<not> valid_agent_id i then Inl (ValueError ''agent_id'')
      else if \<not> valid_version v then Inl (ValueError ''version'')
      else Inr \<lparr>agent_id = i, version = v\<rparr>)"

definition ref_str :: "agent_ref \<Rightarrow> string" where
  "ref_str r = agent_id r @ ''@'' @ version r"

definition valid_ref :: "agent_ref \<Rightarrow> bool" where
  "valid_ref r \<longleftrightarrow> valid_agent_id (agent_id r) \<and> valid_version (version r)"

text \<open>\<^verbatim>\<open>str.rpartition(sep)\<close>: split at the last occurrence, empty head and separator when there is none.\<close>

definition rpartition :: "char \<Rightarrow> string \<Rightarrow> string \<times> string \<times> string" where
  "rpartition c s =
     (let t = rev (takeWhile (\<lambda>x. x \<noteq> c) (rev s)); h = rev (dropWhile (\<lambda>x. x \<noteq> c) (rev s))
      in if h = [] then ([], [], s) else (butlast h, [c], t))"

definition parse_ref :: "string \<Rightarrow> agent_ref res" where
  "parse_ref s =
     (case rpartition CHR ''@'' s of (i, separator, v) \<Rightarrow>
        if separator = [] \<or> i = [] \<or> v = []
        then Inl (ValueError ''AgentRef text must use <agent_id>@<version>'')
        else AgentRef i v)"

subsection \<open>Definition lifecycle\<close>

datatype definition_status =
  DRAFT | REVIEWED | APPROVED | STAGED | ACTIVE | DEPRECATED | RETIRED

fun runnable_in_production :: "definition_status \<Rightarrow> bool" where
  "runnable_in_production APPROVED = True"
| "runnable_in_production ACTIVE = True"
| "runnable_in_production _ = False"

fun lifecycle_next :: "definition_status \<Rightarrow> definition_status option" where
  "lifecycle_next DRAFT = Some REVIEWED"
| "lifecycle_next REVIEWED = Some APPROVED"
| "lifecycle_next APPROVED = Some STAGED"
| "lifecycle_next STAGED = Some ACTIVE"
| "lifecycle_next ACTIVE = Some DEPRECATED"
| "lifecycle_next DEPRECATED = Some RETIRED"
| "lifecycle_next RETIRED = None"

definition validate_lifecycle_transition ::
  "definition_status \<Rightarrow> definition_status \<Rightarrow> unit res" where
  "validate_lifecycle_transition current target =
     require (lifecycle_next current = Some target)
       (ValueError ''invalid definition lifecycle transition'')"

subsection \<open>Lemmas\<close>

lemma agent_id_no_at: "valid_agent_id i \<Longrightarrow> CHR ''@'' \<notin> set i"
  using at_not_alnum by (auto simp: valid_agent_id_def dest: token_chars)

lemma split_on_covers: "x \<in> set s \<Longrightarrow> x = c \<or> (\<exists>p \<in> set (split_on c s). x \<in> set p)"
  by (induction s) (auto split: list.splits)

lemma split_on_all:
  assumes "list_all (\<lambda>p. list_all P p) (split_on c s)" and "x \<in> set s"
  shows "x = c \<or> P x"
  using assms split_on_covers [of x s c] by (auto simp: list_all_iff)

lemma dotted_ids_chars: "dotted_ids s \<Longrightarrow> x \<in> set s \<Longrightarrow> x = CHR ''.'' \<or> is_alnum x \<or> x = CHR ''-''"
  using split_on_all [of "\<lambda>c. is_alnum c \<or> c = CHR ''-''" "CHR ''.''" s x]
  by (auto simp: dotted_ids_def list_all_iff)

lemma numeric_ids_chars:
  "list_all numeric_id (split_on CHR ''.'' s) \<Longrightarrow> x \<in> set s \<Longrightarrow> x = CHR ''.'' \<or> is_digit x"
  using split_on_all [of is_digit "CHR ''.''" s x] by (auto simp: numeric_id_def list_all_iff)

lemma at_not_digit [simp]: "\<not> is_digit CHR ''@''"
  by (simp add: is_digit_def digits_def)

lemma dotted_no_at: "dotted_ids s \<Longrightarrow> CHR ''@'' \<notin> set s"
  using dotted_ids_chars [of s "CHR ''@''"] by auto

lemma version_no_at:
  assumes "valid_version v"
  shows "CHR ''@'' \<notin> set v"
proof
  assume at: "CHR ''@'' \<in> set v"
  let ?P = "\<lambda>c. c \<noteq> CHR ''-'' \<and> c \<noteq> CHR ''+''"
  have "CHR ''@'' \<notin> set (takeWhile ?P v)"
    using assms numeric_ids_chars [of "takeWhile ?P v" "CHR ''@''"]
    by (auto simp: valid_version_def Let_def)
  then have rest: "CHR ''@'' \<in> set (dropWhile ?P v)" by (rule in_dropWhile [OF at])
  then obtain c r where cr: "dropWhile ?P v = c # r" by (cases "dropWhile ?P v") auto
  show False
  proof (cases "c = CHR ''+''")
    case True
    then have "dotted_ids r" using assms cr by (simp add: valid_version_def Let_def)
    then show False using dotted_no_at rest cr True by auto
  next
    case False
    let ?Q = "\<lambda>x. x \<noteq> CHR ''+''"
    have c: "c = CHR ''-''" using False dropWhile_Cons_hd [OF cr] by simp
    have pre: "dotted_ids (takeWhile ?Q r)"
      and build: "\<And>y b. dropWhile ?Q r = y # b \<Longrightarrow> dotted_ids b"
      using assms cr False by (auto simp: valid_version_def Let_def prerelease_ok_def)
    have "CHR ''@'' \<in> set r" using rest cr c by simp
    then have "CHR ''@'' \<in> set (dropWhile ?Q r)" using dotted_no_at [OF pre] by (rule in_dropWhile)
    then obtain y b where yb: "dropWhile ?Q r = y # b" by (cases "dropWhile ?Q r") auto
    then have "y = CHR ''+''" using dropWhile_Cons_hd [OF yb] by simp
    then show False
      using build [OF yb] dotted_no_at yb \<open>CHR ''@'' \<in> set (dropWhile ?Q r)\<close> by auto
  qed
qed

lemma valid_version_nonempty: "valid_version v \<Longrightarrow> v \<noteq> []"
  by (auto simp: valid_version_def)

lemma rpartition_join:
  assumes "c \<notin> set v"
  shows "rpartition c (i @ c # v) = (i, [c], v)"
proof -
  have v: "\<And>x. x \<in> set (rev v) \<Longrightarrow> x \<noteq> c" using assms by auto
  have "takeWhile (\<lambda>x. x \<noteq> c) (rev v @ c # rev i) = rev v"
    using takeWhile_append2 [of "rev v" "\<lambda>x. x \<noteq> c" "c # rev i"] v by auto
  moreover have "dropWhile (\<lambda>x. x \<noteq> c) (rev v @ c # rev i) = c # rev i"
    using dropWhile_append2 [of "rev v" "\<lambda>x. x \<noteq> c" "c # rev i"] v by auto
  ultimately show ?thesis by (simp add: rpartition_def Let_def)
qed

lemma AgentRef_valid: "AgentRef i v = Inr r \<longleftrightarrow> r = \<lparr>agent_id = i, version = v\<rparr> \<and> valid_ref r"
  by (auto simp: AgentRef_def valid_ref_def)

lemma parse_ref_str: "valid_ref r \<Longrightarrow> parse_ref (ref_str r) = Inr r"
  using rpartition_join [OF version_no_at, of "version r" "agent_id r"]
  by (auto simp: parse_ref_def ref_str_def valid_ref_def AgentRef_def valid_version_nonempty
      valid_agent_id_def dest: token_nonempty)

lemma ref_str_inject:
  assumes "valid_ref r" and "valid_ref r'" and "ref_str r = ref_str r'"
  shows "r = r'"
proof -
  have "parse_ref (ref_str r') = Inr r"
    using parse_ref_str [OF assms(1)] unfolding assms(3) .
  from trans [OF this [symmetric] parse_ref_str [OF assms(2)]] show ?thesis
    by (simp only: sum.inject)
qed

lemma rpartition_split: "rpartition c s = (i, [c], v) \<Longrightarrow> s = i @ c # v"
proof -
  assume r: "rpartition c s = (i, [c], v)"
  let ?h = "dropWhile (\<lambda>x. x \<noteq> c) (rev s)"
  have h: "rev ?h \<noteq> []" "i = butlast (rev ?h)" "v = rev (takeWhile (\<lambda>x. x \<noteq> c) (rev s))"
    using r by (auto simp: rpartition_def Let_def split: if_splits)
  then have "hd ?h = c" using hd_dropWhile [of "\<lambda>x. x \<noteq> c" "rev s"] by auto
  then have "last (rev ?h) = c" using h(1) by (simp add: last_rev)
  then have "rev ?h = i @ [c]" using append_butlast_last_id [OF h(1)] h(2) by simp
  moreover have "s = rev ?h @ v"
    unfolding h(3) rev_append [symmetric] takeWhile_dropWhile_id by simp
  ultimately show ?thesis by simp
qed

lemma parse_ref_Inr: "parse_ref s = Inr r \<Longrightarrow> valid_ref r \<and> ref_str r = s"
proof -
  assume p: "parse_ref s = Inr r"
  obtain i m v where iv: "rpartition CHR ''@'' s = (i, m, v)" by (metis prod_cases3)
  then have "m \<noteq> []" and a: "AgentRef i v = Inr r"
    using p by (auto simp: parse_ref_def split: if_splits)
  then have "m = ''@''" using iv by (auto simp: rpartition_def Let_def split: if_splits)
  then have "s = i @ CHR ''@'' # v" using iv by (auto dest: rpartition_split)
  then show ?thesis using a by (auto simp: AgentRef_valid ref_str_def)
qed

text \<open>
  Agent identities round-trip through their textual form: printing an accepted identity and
  parsing it gives it back, and every text the parser accepts is the printed form of the accepted
  identity it returns.
\<close>

theorem agent_ref_roundtrip:
  "parse_ref s = Inr r \<longleftrightarrow> valid_ref r \<and> s = ref_str r"
  using parse_ref_str parse_ref_Inr by blast

end
