(* ===== verification/Delegation_Models.thy ===== *)
theory Delegation_Models
  imports Agent_Refs
begin

text \<open>
  The value types of delegation (\<^verbatim>\<open>moduagent/delegation/models.py\<close>): stable identifiers and
  check_classification codes, the lineage of a run with its constructor checks, the limits of an
  execution group, the lease, context and outcome of a delegation.  A constructor
  \<^verbatim>\<open>__post_init__\<close> is a function \<open>check_<type>\<close> from the record to the record or to the error raised.
\<close>

subsection \<open>Identifiers and check_classification codes\<close>

definition is_identifier :: "string \<Rightarrow> bool" where
  "is_identifier s \<longleftrightarrow> token ''_.:@/-'' 255 s"

definition is_classification :: "string \<Rightarrow> bool" where
  "is_classification s \<longleftrightarrow> token ''_.:-'' 127 s"

definition check_identifier :: "string \<Rightarrow> string \<Rightarrow> unit res" where
  "check_identifier s name =
     require (is_identifier s) (ValueError (name @ '' must be a non-empty stable identifier''))"

definition check_classification :: "string \<Rightarrow> string \<Rightarrow> unit res" where
  "check_classification s name =
     require (is_classification s) (ValueError (name @ '' must be a stable classification code''))"

definition opt_check :: "('a \<Rightarrow> string \<Rightarrow> unit res) \<Rightarrow> 'a option \<Rightarrow> string \<Rightarrow> unit res" where
  "opt_check f v name = (case v of None \<Rightarrow> Inr () | Some s \<Rightarrow> f s name)"

lemma identifier_Inr [simp]: "check_identifier s n = Inr u \<longleftrightarrow> is_identifier s"
  and classification_Inr [simp]: "check_classification s n = Inr u \<longleftrightarrow> is_classification s"
  by (simp_all add: check_identifier_def check_classification_def)

lemma opt_check_None [simp]: "opt_check f None n = Inr ()"
  and opt_check_Some [simp]: "opt_check f (Some s) n = f s n"
  by (simp_all add: opt_check_def)

lemma is_classification_identifier: "is_classification s \<Longrightarrow> is_identifier s"
  by (auto simp: is_classification_def is_identifier_def token_def list_all_iff split: list.splits)

subsection \<open>Run lineage\<close>

record run_lineage =
  ln_root_run_id :: string
  ln_parent_run_id :: "string option"
  ln_delegation_id :: "string option"
  ln_parent_tool_call_id :: "string option"
  ln_caller_agent_id :: "string option"
  ln_agent_id :: string
  ln_agent_version :: string
  ln_agent_path :: "string list"
  ln_depth :: int

definition check_lineage :: "run_lineage \<Rightarrow> run_lineage res" where
  "check_lineage l =
     bindR (all_ok
       [check_identifier (ln_root_run_id l) ''root_run_id'',
        opt_check check_identifier (ln_parent_run_id l) ''parent_run_id'',
        opt_check check_identifier (ln_delegation_id l) ''delegation_id'',
        opt_check check_identifier (ln_parent_tool_call_id l) ''parent_tool_call_id'',
        opt_check check_identifier (ln_caller_agent_id l) ''caller_agent_id'',
        check_identifier (ln_agent_id l) ''agent_id'']) (\<lambda>_.
     bindR (AgentRef (ln_agent_id l) (ln_agent_version l)) (\<lambda>current.
     bindR (all_ok
       [require (0 \<le> ln_depth l) (ValueError ''depth must be a non-negative integer''),
        require (ln_agent_path l \<noteq> []) (ValueError ''agent_path cannot be empty'')]) (\<lambda>_.
     bindR (mapR parse_ref (ln_agent_path l)) (\<lambda>parsed.
     bindR (all_ok
       [require (distinct (ln_agent_path l)) (ValueError ''agent_path cannot contain a cycle''),
        require (int (length (ln_agent_path l)) = ln_depth l + 1)
          (ValueError ''agent_path length must equal depth + 1''),
        require (last (ln_agent_path l) = ref_str current)
          (ValueError ''agent_path must end with the current Agent ref'')]) (\<lambda>_.
     bindR (
       if ln_depth l = 0 then
         require (ln_parent_run_id l = None \<and> ln_delegation_id l = None \<and>
                  ln_parent_tool_call_id l = None \<and> ln_caller_agent_id l = None)
           (ValueError ''root lineage cannot contain parent fields'')
       else all_ok
         [require (ln_parent_run_id l \<noteq> None) (ValueError ''child lineage requires parent_run_id''),
          require (ln_delegation_id l \<noteq> None) (ValueError ''child lineage requires delegation_id''),
          require (ln_parent_tool_call_id l \<noteq> None)
            (ValueError ''child lineage requires parent_tool_call_id''),
          require (ln_caller_agent_id l \<noteq> None)
            (ValueError ''child lineage requires caller_agent_id''),
          require (Some (agent_id (parsed ! (length parsed - 2))) = ln_caller_agent_id l)
            (ValueError ''caller_agent_id must match the prior Agent path'')])
     (\<lambda>_. Inr l))))))"

definition lineage_root :: "string \<Rightarrow> agent_ref \<Rightarrow> run_lineage res" where
  "lineage_root run_id agent = check_lineage
     \<lparr>ln_root_run_id = run_id, ln_parent_run_id = None, ln_delegation_id = None,
      ln_parent_tool_call_id = None, ln_caller_agent_id = None, ln_agent_id = agent_id agent,
      ln_agent_version = version agent, ln_agent_path = [ref_str agent], ln_depth = 0\<rparr>"

definition lineage_ref :: "run_lineage \<Rightarrow> agent_ref" where
  "lineage_ref l = \<lparr>agent_id = ln_agent_id l, version = ln_agent_version l\<rparr>"

definition lineage_child ::
  "run_lineage \<Rightarrow> agent_ref \<Rightarrow> string \<Rightarrow> string \<Rightarrow> string \<Rightarrow> run_lineage res" where
  "lineage_child l child parent_run_id delegation_id parent_tool_call_id = check_lineage
     \<lparr>ln_root_run_id = ln_root_run_id l, ln_parent_run_id = Some parent_run_id,
      ln_delegation_id = Some delegation_id, ln_parent_tool_call_id = Some parent_tool_call_id,
      ln_caller_agent_id = Some (ln_agent_id l), ln_agent_id = agent_id child,
      ln_agent_version = version child, ln_agent_path = ln_agent_path l @ [ref_str child],
      ln_depth = ln_depth l + 1\<rparr>"

definition opt_pystr :: "string option \<Rightarrow> pyval" where
  "opt_pystr v = (case v of None \<Rightarrow> PNone | Some s \<Rightarrow> PStr s)"

definition lineage_to_dict :: "run_lineage \<Rightarrow> (string, pyval) dict" where
  "lineage_to_dict l =
     [(''root_run_id'', PStr (ln_root_run_id l)),
      (''parent_run_id'', opt_pystr (ln_parent_run_id l)),
      (''delegation_id'', opt_pystr (ln_delegation_id l)),
      (''parent_tool_call_id'', opt_pystr (ln_parent_tool_call_id l)),
      (''caller_agent_id'', opt_pystr (ln_caller_agent_id l)),
      (''agent_id'', PStr (ln_agent_id l)),
      (''agent_version'', PStr (ln_agent_version l)),
      (''agent_path'', PList (map PStr (ln_agent_path l))),
      (''depth'', PInt (ln_depth l))]"

definition required_text :: "(string, pyval) dict \<Rightarrow> string \<Rightarrow> string res" where
  "required_text d name = (case dget d name of Some (PStr s) \<Rightarrow> Inr s
     | _ \<Rightarrow> Inl (TypeError (name @ '' must be a string'')))"

definition optional_text :: "(string, pyval) dict \<Rightarrow> string \<Rightarrow> string option res" where
  "optional_text d name = (case dget d name of None \<Rightarrow> Inr None | Some PNone \<Rightarrow> Inr None
     | Some (PStr s) \<Rightarrow> Inr (Some s) | _ \<Rightarrow> Inl (TypeError (name @ '' must be a string or null'')))"

definition required_int :: "(string, pyval) dict \<Rightarrow> string \<Rightarrow> int res" where
  "required_int d name = (case dget d name of Some (PInt i) \<Rightarrow> Inr i
     | _ \<Rightarrow> Inl (TypeError (name @ '' must be an integer'')))"

definition pystr_item :: "pyval \<Rightarrow> string res" where
  "pystr_item v = (case v of PStr s \<Rightarrow> Inr s | _ \<Rightarrow> Inl (TypeError ''AgentRef text must be a string''))"

text \<open>
  An entry of \<^verbatim>\<open>agent_path\<close> that is no string is reported by \<open>AgentRef.parse\<close> inside the
  constructor; here it is reported when the path is read.
\<close>

definition lineage_from_dict :: "pyval \<Rightarrow> run_lineage res" where
  "lineage_from_dict value = (case value of PDict d \<Rightarrow>
     (case dget d ''agent_path'' of Some (PList raw_path) \<Rightarrow>
        bindR (required_text d ''root_run_id'') (\<lambda>root.
        bindR (optional_text d ''parent_run_id'') (\<lambda>parent.
        bindR (optional_text d ''delegation_id'') (\<lambda>delegation.
        bindR (optional_text d ''parent_tool_call_id'') (\<lambda>tool_call.
        bindR (optional_text d ''caller_agent_id'') (\<lambda>caller.
        bindR (required_text d ''agent_id'') (\<lambda>agent.
        bindR (required_text d ''agent_version'') (\<lambda>ver.
        bindR (mapR pystr_item raw_path) (\<lambda>path.
        bindR (required_int d ''depth'') (\<lambda>depth.
          check_lineage
            \<lparr>ln_root_run_id = root, ln_parent_run_id = parent, ln_delegation_id = delegation,
             ln_parent_tool_call_id = tool_call, ln_caller_agent_id = caller,
             ln_agent_id = agent, ln_agent_version = ver, ln_agent_path = path,
             ln_depth = depth\<rparr>)))))))))
      | _ \<Rightarrow> Inl (ValueError ''agent_path must be an array''))
     | _ \<Rightarrow> Inl (TypeError ''lineage must be an object''))"

subsection \<open>Limits of an execution group\<close>

record execution_group_limits =
  max_depth :: int
  max_delegations :: int
  max_parallel_delegations :: int
  max_delegations_per_agent :: int
  max_total_model_turns :: int
  max_total_tool_calls :: int
  timeout_seconds :: rat

definition check_limits :: "execution_group_limits \<Rightarrow> execution_group_limits res" where
  "check_limits m =
     bindR (all_ok
       [require (1 \<le> max_depth m) (ValueError ''max_depth must be at least 1''),
        require (1 \<le> max_delegations m) (ValueError ''max_delegations must be at least 1''),
        require (1 \<le> max_parallel_delegations m)
          (ValueError ''max_parallel_delegations must be at least 1''),
        require (1 \<le> max_delegations_per_agent m)
          (ValueError ''max_delegations_per_agent must be at least 1''),
        require (1 \<le> max_total_model_turns m)
          (ValueError ''max_total_model_turns must be at least 1''),
        require (1 \<le> max_total_tool_calls m)
          (ValueError ''max_total_tool_calls must be at least 1''),
        require (0 < timeout_seconds m) (ValueError ''timeout_seconds must be positive'')])
     (\<lambda>_. Inr m)"

text \<open>\<^verbatim>\<open>timedelta(seconds=s)\<close> in microseconds, rounded half to even.\<close>

definition timedelta_us :: "rat \<Rightarrow> int" where
  "timedelta_us s =
     (let x = s * 1000000; f = \<lfloor>x\<rfloor>; d = x - of_int f
      in if d < 1 / 2 then f else if d > 1 / 2 then f + 1 else if even f then f else f + 1)"

subsection \<open>Leases, contexts and outcomes\<close>

record budget_lease =
  bl_lease_id :: string
  bl_execution_group_id :: string
  bl_callee :: agent_ref
  bl_absolute_deadline :: int

definition BudgetLease :: "string \<Rightarrow> string \<Rightarrow> agent_ref \<Rightarrow> int \<Rightarrow> budget_lease res" where
  "BudgetLease lease_id execution_group_id callee deadline =
     bindR (all_ok [check_identifier lease_id ''lease_id'',
                    check_identifier execution_group_id ''execution_group_id''])
     (\<lambda>_. Inr \<lparr>bl_lease_id = lease_id, bl_execution_group_id = execution_group_id,
               bl_callee = callee, bl_absolute_deadline = deadline\<rparr>)"

record delegation_context =
  dc_lineage :: run_lineage
  dc_execution_group_id :: string
  dc_principal :: string
  dc_tenant :: string
  dc_absolute_deadline :: int
  dc_child_session_id :: string
  dc_request_classification :: string

definition check_context :: "delegation_context \<Rightarrow> delegation_context res" where
  "check_context c =
     bindR (all_ok
       [check_identifier (dc_execution_group_id c) ''execution_group_id'',
        check_identifier (dc_principal c) ''principal'',
        check_identifier (dc_tenant c) ''tenant'',
        check_identifier (dc_child_session_id c) ''child_session_id'',
        check_classification (dc_request_classification c) ''request_classification''])
     (\<lambda>_. Inr c)"

record parent_delegation_context =
  pc_lineage :: run_lineage
  pc_execution_group_id :: string
  pc_principal :: string
  pc_tenant :: string
  pc_parent_session_id :: string
  pc_absolute_deadline :: int
  pc_limits :: execution_group_limits
  pc_current_run_id :: "string option"

definition check_parent_context :: "parent_delegation_context \<Rightarrow> parent_delegation_context res" where
  "check_parent_context c =
     bindR (all_ok
       [check_identifier (pc_execution_group_id c) ''execution_group_id'',
        check_identifier (pc_principal c) ''principal'',
        check_identifier (pc_tenant c) ''tenant'',
        check_identifier (pc_parent_session_id c) ''parent_session_id'',
        opt_check check_identifier (pc_current_run_id c) ''current_run_id''])
     (\<lambda>_. Inr c)"

datatype delegation_outcome_status = OCompleted | OFailed | OCancelled | OManualRequired

record delegation_outcome =
  oc_status :: delegation_outcome_status
  oc_child_run_id :: string
  oc_finish_reason :: "string option"
  oc_output :: "pyval option"
  oc_error_code :: "string option"
  oc_retryable :: bool
  oc_resumable :: bool
  oc_usage :: "(string, rat) dict"

text \<open>One usage entry: a number that is no bool, finite and not negative.\<close>

definition usage_value :: "pyval \<Rightarrow> rat res" where
  "usage_value v = (case v of
       PInt i \<Rightarrow> (if i < 0 then Inl (ValueError ''usage values must be finite and non-negative'')
                  else Inr (of_int i))
     | PFloat x \<Rightarrow> (if x < 0 then Inl (ValueError ''usage values must be finite and non-negative'')
                  else Inr x)
     | PNonFinite \<Rightarrow> Inl (ValueError ''usage values must be finite and non-negative'')
     | _ \<Rightarrow> Inl (TypeError ''usage values must be numbers''))"

definition check_outcome ::
  "delegation_outcome \<Rightarrow> (string, pyval) dict \<Rightarrow> delegation_outcome res" where
  "check_outcome c raw_usage =
     bindR (all_ok
       [check_identifier (oc_child_run_id c) ''child_run_id'',
        opt_check check_classification (oc_finish_reason c) ''finish_reason'',
        opt_check check_classification (oc_error_code c) ''error_code'']) (\<lambda>_.
     bindR (mapR (\<lambda>(k, v). bindR (check_classification k ''usage key'') (\<lambda>_.
                             bindR (usage_value v) (\<lambda>x. Inr (k, x)))) raw_usage) (\<lambda>usage.
     bindR (
       if oc_status c = OCompleted then all_ok
         [require (oc_output c \<noteq> None) (ValueError ''completed outcome requires output''),
          require (oc_error_code c = None)
            (ValueError ''completed outcome cannot contain error_code'')]
       else require (oc_output c = None) (ValueError ''non-completed outcome cannot contain output''))
     (\<lambda>_. bindR (require (\<not> (oc_status c = OManualRequired \<and> oc_retryable c))
            (ValueError ''manual_required outcome cannot be automatically retryable''))
     (\<lambda>_. Inr (c\<lparr>oc_usage := usage\<rparr>)))))"

subsection \<open>Facts about the constructors\<close>

definition valid_lineage :: "run_lineage \<Rightarrow> bool" where
  "valid_lineage l \<longleftrightarrow> check_lineage l = Inr l"

lemma check_lineage_Inr: "check_lineage l = Inr l' \<Longrightarrow> l' = l \<and> valid_lineage l"
proof -
  assume c: "check_lineage l = Inr l'"
  then have "l' = l" unfolding check_lineage_def bindR_Inr_iff by blast
  then show ?thesis using c by (simp add: valid_lineage_def)
qed

lemma valid_lineage_facts:
  assumes "valid_lineage l"
  shows "distinct (ln_agent_path l)" "int (length (ln_agent_path l)) = ln_depth l + 1"
    "last (ln_agent_path l) = ref_str (lineage_ref l)" "valid_ref (lineage_ref l)"
    "list_all (\<lambda>s. \<exists>r. parse_ref s = Inr r) (ln_agent_path l)" "ln_agent_path l \<noteq> []"
    "is_identifier (ln_root_run_id l)" "is_identifier (ln_agent_id l)" "0 \<le> ln_depth l"
    "ln_depth l \<noteq> 0 \<Longrightarrow> ln_delegation_id l \<noteq> None"
  using assms
  by (auto simp: valid_lineage_def check_lineage_def bindR_Inr_iff AgentRef_valid lineage_ref_def
      mapR_Inr list_all_length list_all2_conv_all_nth split: if_splits)

lemma check_limits_Inr:
  "check_limits m = Inr m' \<longleftrightarrow> m' = m \<and> 1 \<le> max_depth m \<and> 1 \<le> max_delegations m \<and>
     1 \<le> max_parallel_delegations m \<and> 1 \<le> max_delegations_per_agent m \<and>
     1 \<le> max_total_model_turns m \<and> 1 \<le> max_total_tool_calls m \<and> 0 < timeout_seconds m"
  by (auto simp: check_limits_def bindR_Inr_iff)

lemma BudgetLease_Inr:
  "BudgetLease i g c d = Inr l \<longleftrightarrow> is_identifier i \<and> is_identifier g \<and>
     l = \<lparr>bl_lease_id = i, bl_execution_group_id = g, bl_callee = c, bl_absolute_deadline = d\<rparr>"
  by (auto simp: BudgetLease_def bindR_Inr_iff)

lemma optional_text_opt_pystr:
  "dget d n = Some (opt_pystr v) \<Longrightarrow> optional_text d n = Inr v"
  by (cases v) (simp_all add: optional_text_def opt_pystr_def)

lemma mapR_pystr_item: "mapR pystr_item (map PStr xs) = Inr xs"
  by (induction xs) (simp_all add: pystr_item_def)

lemma timedelta_us_int: "timedelta_us (of_int k) = k * 1000000"
proof -
  have "(of_int k * 1000000 :: rat) = of_int (k * 1000000)" by simp
  then show ?thesis unfolding timedelta_us_def Let_def by (simp only: floor_of_int) simp
qed

lemma parsed_last:
  assumes "mapR parse_ref xs = Inr parsed" and "xs \<noteq> []" and "last xs = ref_str r"
    and "valid_ref r"
  shows "parsed ! (length parsed - 1) = r"
proof -
  have len: "length parsed = length xs"
    using assms(1) by (auto simp: mapR_Inr dest: list_all2_lengthD)
  then have "parse_ref (xs ! (length xs - 1)) = Inr (parsed ! (length xs - 1))"
    using assms(1,2) by (auto simp: mapR_Inr list_all2_conv_all_nth)
  then show ?thesis using assms(2,3) parse_ref_str [OF assms(4)] len by (simp add: last_conv_nth)
qed

lemma lineage_child_accepted:
  assumes l: "valid_lineage l" and c: "valid_ref child" "is_identifier (agent_id child)"
    and ids: "is_identifier run_id" "is_identifier delegation_id" "is_identifier call_id"
    and fresh: "ref_str child \<notin> set (ln_agent_path l)"
  shows "\<exists>l'. lineage_child l child run_id delegation_id call_id = Inr l'"
proof -
  note facts = valid_lineage_facts [OF l]
  obtain parsed where parsed: "mapR parse_ref (ln_agent_path l) = Inr parsed"
    using l by (auto simp: valid_lineage_def check_lineage_def bindR_Inr_iff)
  then have len: "length parsed = length (ln_agent_path l)"
    by (auto simp: mapR_Inr dest: list_all2_lengthD)
  have all: "mapR parse_ref (ln_agent_path l @ [ref_str child]) = Inr (parsed @ [child])"
    by (simp add: mapR_append parsed parse_ref_str [OF c(1)])
  have "parsed ! (length parsed - 1) = lineage_ref l"
    using parsed_last [OF parsed facts(6,3,4)] .
  then have pen: "agent_id ((parsed @ [child]) ! (length (parsed @ [child]) - 2)) = ln_agent_id l"
    using len facts(6) by (simp add: nth_append lineage_ref_def)
  have "AgentRef (agent_id child) (version child) = Inr child"
    using c(1) by (simp add: AgentRef_valid)
  then show ?thesis
    using facts ids c fresh pen all
    by (simp add: lineage_child_def check_lineage_def bindR_Inr_iff)
qed

text \<open>
  Extending a lineage for a child agent is accepted exactly when the three identifiers are
  accepted and the child does not already occur in the agent path; so every lineage built by
  \<open>child\<close> stays acyclic, is one level deeper, ends in the child and keeps the root run.
\<close>

theorem lineage_child_spec:
  assumes "valid_lineage l" and "valid_ref child" and "is_identifier (agent_id child)"
  shows "case lineage_child l child run_id delegation_id call_id of
      Inl e \<Rightarrow> \<not> (is_identifier run_id \<and> is_identifier delegation_id \<and> is_identifier call_id \<and>
                 ref_str child \<notin> set (ln_agent_path l))
    | Inr l' \<Rightarrow> is_identifier run_id \<and> is_identifier delegation_id \<and> is_identifier call_id \<and>
                valid_lineage l' \<and> distinct (ln_agent_path l') \<and>
                ln_agent_path l' = ln_agent_path l @ [ref_str child] \<and>
                ln_depth l' = ln_depth l + 1 \<and> ln_root_run_id l' = ln_root_run_id l \<and>
                lineage_ref l' = child"
proof (cases "lineage_child l child run_id delegation_id call_id")
  case (Inl e)
  then show ?thesis using lineage_child_accepted [OF assms] by fastforce
next
  case (Inr l')
  then have l': "valid_lineage l'" and "ln_agent_path l' = ln_agent_path l @ [ref_str child]"
    "ln_depth l' = ln_depth l + 1" "ln_root_run_id l' = ln_root_run_id l" "lineage_ref l' = child"
    unfolding lineage_child_def by (auto dest!: check_lineage_Inr simp: lineage_ref_def)
  moreover have "is_identifier run_id \<and> is_identifier delegation_id \<and> is_identifier call_id"
    using Inr by (auto simp: lineage_child_def check_lineage_def bindR_Inr_iff)
  ultimately show ?thesis using Inr valid_lineage_facts(1) [OF l'] by simp
qed

text \<open>
  The durable form of a lineage loses nothing: decoding what an accepted lineage encodes gives
  the lineage back.
\<close>

theorem lineage_dict_roundtrip:
  assumes "valid_lineage l"
  shows "lineage_from_dict (PDict (lineage_to_dict l)) = Inr l"
proof -
  have "mapR pystr_item (map PStr (ln_agent_path l)) = Inr (ln_agent_path l)"
    by (rule mapR_pystr_item)
  moreover have "check_lineage l = Inr l" using assms by (simp add: valid_lineage_def)
  ultimately show ?thesis
    by (cases l) (simp add: lineage_from_dict_def lineage_to_dict_def required_text_def
        required_int_def optional_text_opt_pystr)
qed

subsection \<open>Concrete values\<close>

definition sample_parent :: agent_ref where
  "sample_parent = \<lparr>agent_id = ''planner'', version = ''1.0.0''\<rparr>"

definition sample_child :: agent_ref where
  "sample_child = \<lparr>agent_id = ''worker'', version = ''2.1.0-rc.1''\<rparr>"

definition sample_lineage :: run_lineage where
  "sample_lineage =
     \<lparr>ln_root_run_id = ''run:1'', ln_parent_run_id = None, ln_delegation_id = None,
      ln_parent_tool_call_id = None, ln_caller_agent_id = None, ln_agent_id = ''planner'',
      ln_agent_version = ''1.0.0'', ln_agent_path = [''planner@1.0.0''], ln_depth = 0\<rparr>"

lemma sample_lineage_valid: "valid_lineage sample_lineage"
  by code_simp

lemma sample_child_valid: "valid_ref sample_child" "is_identifier (agent_id sample_child)"
  by code_simp+

theorem lineage_child_spec_witness:
  "valid_lineage sample_lineage \<and> valid_ref sample_child \<and>
   (case lineage_child sample_lineage sample_child ''run:1'' ''dlg:1'' ''call-1'' of
      Inl e \<Rightarrow> False | Inr l' \<Rightarrow> ln_depth l' = 1 \<and> lineage_ref l' = sample_child)"
proof -
  have "is_identifier ''run:1'' \<and> is_identifier ''dlg:1'' \<and> is_identifier ''call-1'' \<and>
    ref_str sample_child \<notin> set (ln_agent_path sample_lineage)" by code_simp
  moreover have "ln_depth sample_lineage = 0" by (simp add: sample_lineage_def)
  ultimately show ?thesis
    using lineage_child_spec [OF sample_lineage_valid sample_child_valid,
        of "''run:1''" "''dlg:1''" "''call-1''"] sample_lineage_valid sample_child_valid
    by (auto split: sum.splits)
qed

theorem lineage_dict_roundtrip_witness:
  "valid_lineage sample_lineage \<and>
   lineage_from_dict (PDict (lineage_to_dict sample_lineage)) = Inr sample_lineage"
  using lineage_dict_roundtrip [OF sample_lineage_valid] sample_lineage_valid by simp

end
