(* ===== verification/Budget_State.thy ===== *)
theory Budget_State
  imports Delegation_Models
begin

text \<open>
  The accounting state of an execution group and the pure updates the ledger applies to it
  (\<^verbatim>\<open>moduagent/delegation/budget.py\<close>).  Each update is the nested function the source passes to
  \<^verbatim>\<open>_mutate\<close>: it returns the replacement state, or \<^term>\<open>None\<close> where the source returns the very
  state it was given, together with the result.
\<close>

subsection \<open>State and constructor\<close>

datatype lease_status = L_ACTIVE | L_COMPLETED | L_RELEASED | L_CANCELLED

record stored_budget_lease =
  sl_lease_id :: string
  sl_callee_key :: string
  sl_status :: lease_status

definition StoredBudgetLease ::
  "string \<Rightarrow> string \<Rightarrow> lease_status \<Rightarrow> stored_budget_lease res" where
  "StoredBudgetLease lease_id callee_key status =
     bindR (all_ok [require (lease_id \<noteq> []) (ValueError ''lease_id cannot be empty''),
                    require (callee_key \<noteq> []) (ValueError ''callee_key cannot be empty'')])
     (\<lambda>_. Inr \<lparr>sl_lease_id = lease_id, sl_callee_key = callee_key, sl_status = status\<rparr>)"

record budget_state =
  bs_execution_group_id :: string
  bs_limits :: execution_group_limits
  bs_absolute_deadline :: int
  bs_revision :: int
  bs_delegation_count :: int
  bs_model_turns :: int
  bs_tool_calls :: int
  bs_per_agent_delegations :: "(string, int) dict"
  bs_leases :: "(string, stored_budget_lease) dict"
  bs_usage :: "(string, rat) dict"
  bs_cancelled :: bool

definition count_leases :: "(stored_budget_lease \<Rightarrow> bool) \<Rightarrow> (string, stored_budget_lease) dict \<Rightarrow> int"
  where "count_leases P d = int (length (filter (\<lambda>p. P (snd p)) d))"

definition active_delegations :: "budget_state \<Rightarrow> int" where
  "active_delegations s = count_leases (\<lambda>l. sl_status l = L_ACTIVE) (bs_leases s)"

definition check_budget_state :: "budget_state \<Rightarrow> budget_state res" where
  "check_budget_state s =
     bindR (all_ok
       ([require (bs_execution_group_id s \<noteq> []) (ValueError ''execution_group_id cannot be empty''),
         require (1 \<le> bs_revision s) (ValueError ''revision is invalid''),
         require (0 \<le> bs_delegation_count s) (ValueError ''delegation_count is invalid''),
         require (0 \<le> bs_model_turns s) (ValueError ''model_turns is invalid''),
         require (0 \<le> bs_tool_calls s) (ValueError ''tool_calls is invalid'')] @
        map (\<lambda>(k, v). all_ok
          [require (k \<noteq> []) (ValueError ''per-Agent budget keys cannot be empty''),
           require (0 \<le> v) (ValueError ''per-Agent delegation counts cannot be negative'')])
          (bs_per_agent_delegations s) @
        map (\<lambda>(k, l). require (k = sl_lease_id l) (ValueError ''stored budget leases are invalid''))
          (bs_leases s) @
        [require (sum_list (map snd (bs_per_agent_delegations s)) = bs_delegation_count s)
           (ValueError ''per-Agent counts must equal delegation_count''),
         require (int (length (bs_leases s)) = bs_delegation_count s)
           (ValueError ''lease count must equal delegation_count''),
         require (bs_model_turns s \<le> max_total_model_turns (bs_limits s))
           (ValueError ''model_turns exceed execution-group limits''),
         require (bs_tool_calls s \<le> max_total_tool_calls (bs_limits s))
           (ValueError ''tool_calls exceed execution-group limits''),
         require (active_delegations s \<le> max_parallel_delegations (bs_limits s))
           (ValueError ''active leases exceed execution-group limits'')] @
        map (\<lambda>(k, v). all_ok
          [require (k \<noteq> []) (ValueError ''usage keys cannot be empty''),
           require (0 \<le> v) (ValueError ''usage values must be finite and non-negative'')])
          (bs_usage s)))
     (\<lambda>_. Inr s)"

definition initial_state :: "string \<Rightarrow> execution_group_limits \<Rightarrow> int \<Rightarrow> budget_state" where
  "initial_state gid limits deadline =
     \<lparr>bs_execution_group_id = gid, bs_limits = limits, bs_absolute_deadline = deadline,
      bs_revision = 1, bs_delegation_count = 0, bs_model_turns = 0, bs_tool_calls = 0,
      bs_per_agent_delegations = [], bs_leases = [], bs_usage = [], bs_cancelled = False\<rparr>"

subsection \<open>Guards\<close>

definition assert_live :: "int \<Rightarrow> budget_state \<Rightarrow> unit res" where
  "assert_live t s =
     (if bs_cancelled s then Inl (BudgetExceeded ''execution_group_cancelled'')
      else if bs_absolute_deadline s \<le> t then Inl (BudgetExceeded ''execution_group_timeout'')
      else Inr ())"

definition adopt_active_lease ::
  "budget_state \<Rightarrow> string \<Rightarrow> agent_ref \<Rightarrow> budget_lease option res" where
  "adopt_active_lease s lease_id callee =
     (case dget (bs_leases s) lease_id of
        None \<Rightarrow> Inr None
      | Some record_ \<Rightarrow>
          if sl_callee_key record_ \<noteq> ref_str callee
          then Inl (BudgetExceeded ''budget_lease_identity_mismatch'')
          else if sl_status record_ \<noteq> L_ACTIVE
          then Inl (BudgetExceeded ''budget_lease_not_active'')
          else bindR (BudgetLease lease_id (bs_execution_group_id s) callee (bs_absolute_deadline s))
                 (\<lambda>l. Inr (Some l)))"

definition validate_count :: "int \<Rightarrow> unit res" where
  "validate_count n = require (1 \<le> n) (ValueError ''reservation count must be a positive integer'')"

definition normalize_usage :: "(string, pyval) dict \<Rightarrow> (string, rat) dict res" where
  "normalize_usage d = mapR (\<lambda>(k, v).
     bindR (require (k \<noteq> []) (ValueError ''usage keys cannot be empty'')) (\<lambda>_.
     bindR (usage_value v) (\<lambda>x. Inr (k, x)))) d"

definition lease_record :: "budget_state \<Rightarrow> budget_lease \<Rightarrow> stored_budget_lease res" where
  "lease_record s l =
     (if bl_execution_group_id l \<noteq> bs_execution_group_id s
      then Inl (BudgetExceeded ''budget_lease_group_mismatch'')
      else case dget (bs_leases s) (bl_lease_id l) of
        None \<Rightarrow> Inl (BudgetExceeded ''budget_lease_not_found'')
      | Some r \<Rightarrow> if sl_callee_key r \<noteq> ref_str (bl_callee l)
                  then Inl (BudgetExceeded ''budget_lease_not_found'') else Inr r)"

subsection \<open>Updates\<close>

definition delegation_room :: "budget_state \<Rightarrow> agent_ref \<Rightarrow> unit res" where
  "delegation_room s callee =
     (if max_delegations (bs_limits s) \<le> bs_delegation_count s
      then Inl (BudgetExceeded ''delegation_count_exceeded'')
      else if max_delegations_per_agent (bs_limits s)
                \<le> dget_or (bs_per_agent_delegations s) (ref_str callee) 0
      then Inl (BudgetExceeded ''delegation_per_agent_exceeded'')
      else Inr ())"

definition reserve_update ::
  "string \<Rightarrow> string \<Rightarrow> agent_ref \<Rightarrow> int \<Rightarrow> budget_state \<Rightarrow> (budget_state option \<times> budget_lease) res"
  where
  "reserve_update gid lease_id callee t current =
     bindR (assert_live t current) (\<lambda>_.
     bindR (adopt_active_lease current lease_id callee) (\<lambda>existing.
     case existing of
       Some lease \<Rightarrow> Inr (None, lease)
     | None \<Rightarrow>
       bindR (delegation_room current callee) (\<lambda>_.
       if max_parallel_delegations (bs_limits current) \<le> active_delegations current
       then Inl RetryReservation
       else
         bindR (StoredBudgetLease lease_id (ref_str callee) L_ACTIVE) (\<lambda>stored.
         bindR (check_budget_state (current
           \<lparr>bs_revision := bs_revision current + 1,
            bs_delegation_count := bs_delegation_count current + 1,
            bs_per_agent_delegations := dset (ref_str callee)
              (dget_or (bs_per_agent_delegations current) (ref_str callee) 0 + 1)
              (bs_per_agent_delegations current),
            bs_leases := dset lease_id stored (bs_leases current)\<rparr>)) (\<lambda>updated.
         bindR (BudgetLease lease_id gid callee (bs_absolute_deadline current)) (\<lambda>lease.
           Inr (Some updated, lease)))))))"

definition model_turn_update :: "int \<Rightarrow> int \<Rightarrow> budget_state \<Rightarrow> (budget_state option \<times> unit) res" where
  "model_turn_update n t current =
     bindR (assert_live t current) (\<lambda>_.
     if max_total_model_turns (bs_limits current) < bs_model_turns current + n
     then Inl (BudgetExceeded ''execution_group_model_turns_exceeded'')
     else bindR (check_budget_state (current
            \<lparr>bs_revision := bs_revision current + 1,
             bs_model_turns := bs_model_turns current + n\<rparr>)) (\<lambda>u. Inr (Some u, ())))"

definition tool_call_update :: "int \<Rightarrow> int \<Rightarrow> budget_state \<Rightarrow> (budget_state option \<times> unit) res" where
  "tool_call_update n t current =
     bindR (assert_live t current) (\<lambda>_.
     if max_total_tool_calls (bs_limits current) < bs_tool_calls current + n
     then Inl (BudgetExceeded ''execution_group_tool_calls_exceeded'')
     else bindR (check_budget_state (current
            \<lparr>bs_revision := bs_revision current + 1,
             bs_tool_calls := bs_tool_calls current + n\<rparr>)) (\<lambda>u. Inr (Some u, ())))"

text \<open>\<^verbatim>\<open>for key, value in usage.items(): aggregate[key] = aggregate.get(key, 0) + value\<close>\<close>

fun add_usage :: "(string, rat) dict \<Rightarrow> (string, rat) dict \<Rightarrow> (string, rat) dict" where
  "add_usage aggregate [] = aggregate"
| "add_usage aggregate ((k, v) # us) = add_usage (dset k (dget_or aggregate k 0 + v) aggregate) us"

definition complete_update ::
  "budget_lease \<Rightarrow> (string, rat) dict \<Rightarrow> int \<Rightarrow> budget_state \<Rightarrow> (budget_state option \<times> bool) res" where
  "complete_update lease usage t current =
     bindR (lease_record current lease) (\<lambda>r.
     if sl_status r = L_COMPLETED then Inr (None, False)
     else if sl_status r \<noteq> L_ACTIVE then Inl (BudgetExceeded ''budget_lease_not_active'')
     else bindR (check_budget_state (current
            \<lparr>bs_revision := bs_revision current + 1,
             bs_leases := dset (bl_lease_id lease) (r\<lparr>sl_status := L_COMPLETED\<rparr>) (bs_leases current),
             bs_usage := add_usage (bs_usage current) usage\<rparr>)) (\<lambda>u. Inr (Some u, True)))"

definition release_update ::
  "budget_lease \<Rightarrow> int \<Rightarrow> budget_state \<Rightarrow> (budget_state option \<times> unit) res" where
  "release_update lease t current =
     bindR (lease_record current lease) (\<lambda>r.
     if sl_status r \<in> {L_RELEASED, L_CANCELLED, L_COMPLETED} then Inr (None, ())
     else bindR (check_budget_state (current
            \<lparr>bs_revision := bs_revision current + 1,
             bs_leases := dset (bl_lease_id lease) (r\<lparr>sl_status := L_RELEASED\<rparr>) (bs_leases current)\<rparr>))
          (\<lambda>u. Inr (Some u, ())))"

definition cancel_lease :: "stored_budget_lease \<Rightarrow> stored_budget_lease" where
  "cancel_lease l = (if sl_status l = L_ACTIVE then l\<lparr>sl_status := L_CANCELLED\<rparr> else l)"

definition cancel_update :: "int \<Rightarrow> budget_state \<Rightarrow> (budget_state option \<times> unit) res" where
  "cancel_update t current =
     bindR (check_budget_state (current
       \<lparr>bs_revision := bs_revision current + 1, bs_cancelled := True,
        bs_leases := map (\<lambda>(k, l). (k, cancel_lease l)) (bs_leases current)\<rparr>))
     (\<lambda>u. Inr (Some u, ()))"

subsection \<open>Well-formed states\<close>

lemma check_budget_state_Inr:
  "check_budget_state s = Inr s' \<longleftrightarrow>
     s' = s \<and> bs_execution_group_id s \<noteq> [] \<and> 1 \<le> bs_revision s \<and> 0 \<le> bs_delegation_count s \<and>
     0 \<le> bs_model_turns s \<and> 0 \<le> bs_tool_calls s \<and>
     (\<forall>(k, v) \<in> set (bs_per_agent_delegations s). k \<noteq> [] \<and> 0 \<le> v) \<and>
     (\<forall>(k, l) \<in> set (bs_leases s). k = sl_lease_id l) \<and>
     sum_list (map snd (bs_per_agent_delegations s)) = bs_delegation_count s \<and>
     int (length (bs_leases s)) = bs_delegation_count s \<and>
     bs_model_turns s \<le> max_total_model_turns (bs_limits s) \<and>
     bs_tool_calls s \<le> max_total_tool_calls (bs_limits s) \<and>
     active_delegations s \<le> max_parallel_delegations (bs_limits s) \<and>
     (\<forall>(k, v) \<in> set (bs_usage s). k \<noteq> [] \<and> 0 \<le> v)"
  unfolding check_budget_state_def bindR_Inr_iff all_ok_Inr set_append ball_Un set_map
  by (auto simp: split_beta)

text \<open>
  Beyond the constructor's checks: the dictionaries have distinct keys, the numbers of delegations
  respect the limits, and the count kept for an Agent is the number of leases issued to it.
\<close>

definition budget_ok :: "budget_state \<Rightarrow> bool" where
  "budget_ok s \<longleftrightarrow>
     check_budget_state s = Inr s \<and> check_limits (bs_limits s) = Inr (bs_limits s) \<and>
     dwf (bs_per_agent_delegations s) \<and> dwf (bs_leases s) \<and> dwf (bs_usage s) \<and>
     bs_delegation_count s \<le> max_delegations (bs_limits s) \<and>
     (\<forall>(k, v) \<in> set (bs_per_agent_delegations s). v \<le> max_delegations_per_agent (bs_limits s)) \<and>
     (\<forall>k. dget_or (bs_per_agent_delegations s) k 0 =
          count_leases (\<lambda>l. sl_callee_key l = k) (bs_leases s))"

lemma count_leases_append:
  "count_leases P (d @ [(k, l)]) = count_leases P d + of_bool (P l)"
  by (simp add: count_leases_def)

lemma count_leases_dset:
  "dwf d \<Longrightarrow> map_of d k = Some x \<Longrightarrow>
   count_leases P (dset k v d) = count_leases P d + of_bool (P v) - of_bool (P x)"
  unfolding count_leases_def by (rule filter_length_dset)

lemma count_leases_nonneg: "0 \<le> count_leases P d"
  by (simp add: count_leases_def)

lemma add_usage_ok:
  assumes "\<forall>(k, v) \<in> set us. k \<noteq> [] \<and> 0 \<le> v" and "\<forall>(k, v) \<in> set d. k \<noteq> [] \<and> 0 \<le> v"
  shows "\<forall>(k, v) \<in> set (add_usage d us). k \<noteq> [] \<and> 0 \<le> v"
  using assms
proof (induction d us rule: add_usage.induct)
  case (1 aggregate)
  then show ?case by simp
next
  case (2 aggregate k v us)
  have "0 \<le> dget_or aggregate k 0"
    using 2(3) by (auto dest!: map_of_SomeD split: option.split)
  then have "\<forall>(k', v') \<in> set (dset k (dget_or aggregate k 0 + v) aggregate). k' \<noteq> [] \<and> 0 \<le> v'"
    using 2(2,3) set_dset_subset [of k "dget_or aggregate k 0 + v" aggregate] by fastforce
  then show ?case using 2 by simp
qed

lemma add_usage_dwf: "dwf d \<Longrightarrow> dwf (add_usage d us)"
  by (induction d us rule: add_usage.induct) auto

lemma dget_add_usage:
  "dget_or (add_usage d us) k 0 = dget_or d k 0 + sum_list (map snd (filter (\<lambda>p. fst p = k) us))"
  by (induction d us rule: add_usage.induct) (auto simp: dget_dset)

lemma initial_state_ok:
  assumes "gid \<noteq> []" and "check_limits limits = Inr limits"
  shows "budget_ok (initial_state gid limits deadline)"
  using assms
  by (simp add: budget_ok_def check_budget_state_Inr initial_state_def check_limits_Inr
      active_delegations_def count_leases_def)

subsection \<open>Reserving\<close>

lemma adopt_None: "adopt_active_lease s i c = Inr None \<Longrightarrow> dget (bs_leases s) i = None"
  by (auto simp: adopt_active_lease_def bindR_Inr_iff split: option.splits if_splits)

definition reserved :: "string \<Rightarrow> agent_ref \<Rightarrow> budget_state \<Rightarrow> budget_state" where
  "reserved lease_id callee s = s
     \<lparr>bs_revision := bs_revision s + 1, bs_delegation_count := bs_delegation_count s + 1,
      bs_per_agent_delegations := dset (ref_str callee)
        (dget_or (bs_per_agent_delegations s) (ref_str callee) 0 + 1) (bs_per_agent_delegations s),
      bs_leases := bs_leases s @ [(lease_id,
        \<lparr>sl_lease_id = lease_id, sl_callee_key = ref_str callee, sl_status = L_ACTIVE\<rparr>)]\<rparr>"

lemma reserve_update_Some:
  "reserve_update gid i c t s = Inr (Some s', l) \<Longrightarrow>
     assert_live t s = Inr () \<and> dget (bs_leases s) i = None \<and>
     bs_delegation_count s < max_delegations (bs_limits s) \<and>
     dget_or (bs_per_agent_delegations s) (ref_str c) 0 < max_delegations_per_agent (bs_limits s) \<and>
     active_delegations s < max_parallel_delegations (bs_limits s) \<and>
     s' = reserved i c s \<and> check_budget_state s' = Inr s' \<and>
     BudgetLease i gid c (bs_absolute_deadline s) = Inr l"
  by (auto simp: reserve_update_def bindR_Inr_iff delegation_room_def StoredBudgetLease_def
      check_budget_state_Inr reserved_def dset_fresh dest!: adopt_None split: option.splits if_splits)

lemma reserved_ok:
  assumes ok: "budget_ok s" and new: "dget (bs_leases s) i = None"
    and room: "bs_delegation_count s < max_delegations (bs_limits s)"
      "dget_or (bs_per_agent_delegations s) (ref_str c) 0 < max_delegations_per_agent (bs_limits s)"
      "active_delegations s < max_parallel_delegations (bs_limits s)"
    and i: "i \<noteq> []"
  shows "budget_ok (reserved i c s)"
proof -
  let ?n = "dget_or (bs_per_agent_delegations s) (ref_str c) 0 + 1"
  let ?d = "dset (ref_str c) ?n (bs_per_agent_delegations s)"
  have s: "check_budget_state s = Inr s" and dw: "dwf (bs_per_agent_delegations s)"
    using ok by (simp_all add: budget_ok_def)
  note base = s [unfolded check_budget_state_Inr]
  have n: "0 \<le> ?n" using base by (auto dest!: map_of_SomeD split: option.split)
  have ne: "ref_str c \<noteq> []" by (simp add: ref_str_def)
  have d: "\<forall>(k, v) \<in> set ?d. k \<noteq> [] \<and> 0 \<le> v"
    using base n ne set_dset_subset [of "ref_str c" ?n "bs_per_agent_delegations s"] by fastforce
  have sum: "sum_list (map snd ?d) = bs_delegation_count s + 1"
    using base by (simp add: sum_dset split: option.splits)
  have upper: "\<forall>(k, v) \<in> set ?d. v \<le> max_delegations_per_agent (bs_limits s)"
    using ok room(2) set_dset_subset [of "ref_str c" ?n "bs_per_agent_delegations s"]
    unfolding budget_ok_def by fastforce
  have "check_budget_state (reserved i c s) = Inr (reserved i c s)"
    using base d sum room(3)
    by (auto simp: check_budget_state_Inr reserved_def active_delegations_def count_leases_append)
  moreover have "i \<notin> fst ` set (bs_leases s)" using new by (simp add: map_of_eq_None_iff)
  moreover have "dget_or ?d k 0 = count_leases (\<lambda>l. sl_callee_key l = k) (bs_leases (reserved i c s))"
    for k
    using ok by (simp add: budget_ok_def reserved_def count_leases_append dget_dset)
  ultimately show ?thesis
    using ok room dw upper unfolding budget_ok_def by (simp add: reserved_def)
qed

subsection \<open>Steps\<close>

text \<open>What a ledger operation may do to the state of a group.\<close>

inductive ledger_step :: "budget_state \<Rightarrow> budget_state \<Rightarrow> bool" where
  reserve: "reserve_update gid i c t s = Inr (Some s', l) \<Longrightarrow> i \<noteq> [] \<Longrightarrow> ledger_step s s'"
| model_turn: "model_turn_update n t s = Inr (Some s', u) \<Longrightarrow> 1 \<le> n \<Longrightarrow> ledger_step s s'"
| tool_call: "tool_call_update n t s = Inr (Some s', u) \<Longrightarrow> 1 \<le> n \<Longrightarrow> ledger_step s s'"
| complete: "complete_update l us t s = Inr (Some s', b) \<Longrightarrow>
     \<forall>(k, v) \<in> set us. k \<noteq> [] \<and> 0 \<le> v \<Longrightarrow> ledger_step s s'"
| release: "release_update l t s = Inr (Some s', u) \<Longrightarrow> ledger_step s s'"
| cancel: "cancel_update t s = Inr (Some s', u) \<Longrightarrow> ledger_step s s'"

inductive_cases ledger_stepE: "ledger_step s s'"

lemma lease_record_Inr:
  "lease_record s l = Inr r \<Longrightarrow> bl_execution_group_id l = bs_execution_group_id s \<and>
     dget (bs_leases s) (bl_lease_id l) = Some r \<and> sl_callee_key r = ref_str (bl_callee l)"
  by (auto simp: lease_record_def split: if_splits option.splits)

text \<open>Closing a lease: what completing and releasing have in common.\<close>

lemma close_lease_ok:
  assumes ok: "budget_ok s" and r: "dget (bs_leases s) i = Some r" and st: "st \<noteq> L_ACTIVE"
    and us: "dwf us" "\<forall>(k, v) \<in> set us. k \<noteq> [] \<and> 0 \<le> v"
  shows "budget_ok (s\<lparr>bs_revision := bs_revision s + 1,
           bs_leases := dset i (r\<lparr>sl_status := st\<rparr>) (bs_leases s), bs_usage := us\<rparr>)"
    (is "budget_ok ?s'")
proof -
  have s: "check_budget_state s = Inr s" and dw: "dwf (bs_leases s)"
    using ok by (simp_all add: budget_ok_def)
  note base = s [unfolded check_budget_state_Inr]
  have mem: "(i, r) \<in> set (bs_leases s)" using r by (rule map_of_SomeD)
  then have "i = sl_lease_id r" using base by auto
  then have keys: "\<forall>(k, l) \<in> set (dset i (r\<lparr>sl_status := st\<rparr>) (bs_leases s)). k = sl_lease_id l"
    using base set_dset_subset [of i "r\<lparr>sl_status := st\<rparr>" "bs_leases s"] by fastforce
  have "active_delegations ?s' \<le> active_delegations s"
    using count_leases_dset [OF dw r, of "\<lambda>l. sl_status l = L_ACTIVE" "r\<lparr>sl_status := st\<rparr>"] st
    by (simp add: active_delegations_def)
  then have "check_budget_state ?s' = Inr ?s'"
    using base keys us r by (auto simp: check_budget_state_Inr length_dset)
  moreover have "count_leases (\<lambda>l. sl_callee_key l = k) (bs_leases ?s') =
      count_leases (\<lambda>l. sl_callee_key l = k) (bs_leases s)" for k
    using count_leases_dset [OF dw r, of "\<lambda>l. sl_callee_key l = k" "r\<lparr>sl_status := st\<rparr>"] by simp
  ultimately show ?thesis
    using ok us dw unfolding budget_ok_def by simp
qed

lemma cancelled_ok:
  assumes ok: "budget_ok s"
  shows "budget_ok (s\<lparr>bs_revision := bs_revision s + 1, bs_cancelled := True,
           bs_leases := map (\<lambda>(k, l). (k, cancel_lease l)) (bs_leases s)\<rparr>)" (is "budget_ok ?s'")
proof -
  have s: "check_budget_state s = Inr s" using ok by (simp add: budget_ok_def)
  note base = s [unfolded check_budget_state_Inr]
  have same: "sl_lease_id (cancel_lease l) = sl_lease_id l"
    "sl_callee_key (cancel_lease l) = sl_callee_key l" for l
    by (simp_all add: cancel_lease_def)
  have "active_delegations ?s' = 0"
    by (auto simp: active_delegations_def count_leases_def filter_empty_conv cancel_lease_def
        split: if_splits)
  then have "check_budget_state ?s' = Inr ?s'"
    using ok base by (auto simp: check_budget_state_Inr same budget_ok_def check_limits_Inr)
  moreover have "count_leases (\<lambda>l. sl_callee_key l = k) (bs_leases ?s') =
      count_leases (\<lambda>l. sl_callee_key l = k) (bs_leases s)" for k
    by (simp add: count_leases_def filter_map o_def split_beta same)
  moreover have "dwf (bs_leases ?s')"
    using ok by (simp add: budget_ok_def o_def split_beta)
  ultimately show ?thesis using ok unfolding budget_ok_def by simp
qed

end
