(* ===== verification/Cas_Store.thy ===== *)
theory Cas_Store
  imports Prelude
begin

text \<open>
  The contract shared by the program's revisioned stores: a value is replaced only by
  \<^verbatim>\<open>compare_and_swap\<close>, which demands the revision the writer has read and a replacement whose
  revision is one higher.  The locale collects what such a protocol guarantees to a client whose
  operations run between those of other tasks; the execution-group budgets and the delegation
  receipts both interpret it.
\<close>

text \<open>
  What may happen to a store between two points of time: an existing value has moved on by steps
  of the protocol, a value that has appeared started as an initial one.
\<close>

definition evolves ::
  "('w \<Rightarrow> 'k \<Rightarrow> 'v option) \<Rightarrow> ('v \<Rightarrow> 'v \<Rightarrow> bool) \<Rightarrow> ('k \<Rightarrow> 'v \<Rightarrow> bool) \<Rightarrow> 'w \<Rightarrow> 'w \<Rightarrow> bool" where
  "evolves get step fresh w w' \<longleftrightarrow>
     (\<forall>k. case get w k of
        Some v \<Rightarrow> (\<exists>v'. get w' k = Some v' \<and> step\<^sup>*\<^sup>* v v')
      | None \<Rightarrow> (case get w' k of None \<Rightarrow> True | Some v' \<Rightarrow> (\<exists>v. fresh k v \<and> step\<^sup>*\<^sup>* v v')))"

definition all_values :: "('w \<Rightarrow> 'k \<Rightarrow> 'v option) \<Rightarrow> ('k \<Rightarrow> 'v \<Rightarrow> bool) \<Rightarrow> 'w \<Rightarrow> bool" where
  "all_values get ok w \<longleftrightarrow> (\<forall>k v. get w k = Some v \<longrightarrow> ok k v)"

text \<open>The same as a rely or guarantee: it is only asked of a store that is well-formed before.\<close>

definition store_rely ::
  "('w \<Rightarrow> 'k \<Rightarrow> 'v option) \<Rightarrow> ('v \<Rightarrow> 'v \<Rightarrow> bool) \<Rightarrow> ('k \<Rightarrow> 'v \<Rightarrow> bool) \<Rightarrow> ('k \<Rightarrow> 'v \<Rightarrow> bool) \<Rightarrow>
     'w \<Rightarrow> 'w \<Rightarrow> bool"
  where
  "store_rely get step fresh ok w w' \<longleftrightarrow> (all_values get ok w \<longrightarrow> evolves get step fresh w w')"

locale versioned_store =
  fixes get :: "'w \<Rightarrow> 'k \<Rightarrow> 'v option"
    and step :: "'v \<Rightarrow> 'v \<Rightarrow> bool"
    and fresh :: "'k \<Rightarrow> 'v \<Rightarrow> bool"
    and ok :: "'k \<Rightarrow> 'v \<Rightarrow> bool"
    and rev :: "'v \<Rightarrow> int"
  assumes step_ok: "ok k v \<Longrightarrow> step v v' \<Longrightarrow> ok k v'"
    and step_rev: "ok k v \<Longrightarrow> step v v' \<Longrightarrow> rev v' = rev v + 1"
    and fresh_ok: "fresh k v \<Longrightarrow> ok k v"
begin

lemma steps_ok: "step\<^sup>*\<^sup>* v v' \<Longrightarrow> ok k v \<Longrightarrow> ok k v'"
  by (induction rule: rtranclp_induct) (auto intro: step_ok)

lemma steps_rev: "step\<^sup>*\<^sup>* v v' \<Longrightarrow> ok k v \<Longrightarrow> v' = v \<or> rev v < rev v'"
proof (induction rule: rtranclp_induct)
  case base
  then show ?case by simp
next
  case (step y z)
  then have "rev z = rev y + 1" using step_rev steps_ok by blast
  then show ?case using step by auto
qed

lemma steps_rev_le: "step\<^sup>*\<^sup>* v v' \<Longrightarrow> ok k v \<Longrightarrow> rev v \<le> rev v'"
  using steps_rev by fastforce

lemma evolves_refl: "evolves get step fresh w w"
  by (auto simp: evolves_def split: option.split)

lemma evolves_frame: "get w' = get w \<Longrightarrow> evolves get step fresh w w'"
  by (auto simp: evolves_def split: option.split)

lemma evolves_trans:
  assumes "evolves get step fresh w w'" and "evolves get step fresh w' w''"
  shows "evolves get step fresh w w''"
  unfolding evolves_def
proof
  fix k
  have a: "case get w k of Some v \<Rightarrow> (\<exists>v'. get w' k = Some v' \<and> step\<^sup>*\<^sup>* v v')
      | None \<Rightarrow> (case get w' k of None \<Rightarrow> True | Some v' \<Rightarrow> (\<exists>v. fresh k v \<and> step\<^sup>*\<^sup>* v v'))"
    and b: "case get w' k of Some v \<Rightarrow> (\<exists>v'. get w'' k = Some v' \<and> step\<^sup>*\<^sup>* v v')
      | None \<Rightarrow> (case get w'' k of None \<Rightarrow> True | Some v' \<Rightarrow> (\<exists>v. fresh k v \<and> step\<^sup>*\<^sup>* v v'))"
    using assms by (simp_all add: evolves_def)
  show "case get w k of Some v \<Rightarrow> (\<exists>v'. get w'' k = Some v' \<and> step\<^sup>*\<^sup>* v v')
      | None \<Rightarrow> (case get w'' k of None \<Rightarrow> True | Some v' \<Rightarrow> (\<exists>v. fresh k v \<and> step\<^sup>*\<^sup>* v v'))"
    using a b
    by (cases "get w k"; cases "get w' k") (auto 4 4 intro: rtranclp_trans split: option.splits)
qed

lemma evolves_Some:
  "evolves get step fresh w w' \<Longrightarrow> get w k = Some v \<Longrightarrow> \<exists>v'. get w' k = Some v' \<and> step\<^sup>*\<^sup>* v v'"
  unfolding evolves_def by (drule spec [of _ k]) simp

lemma evolves_all_values:
  assumes "evolves get step fresh w w'" and "all_values get ok w"
  shows "all_values get ok w'"
  unfolding all_values_def
proof (intro allI impI)
  fix k v'
  assume v': "get w' k = Some v'"
  show "ok k v'"
  proof (cases "get w k")
    case None
    then have "case get w' k of None \<Rightarrow> True | Some v' \<Rightarrow> (\<exists>v. fresh k v \<and> step\<^sup>*\<^sup>* v v')"
      using assms(1) unfolding evolves_def by (auto dest: spec [of _ k])
    then show ?thesis using v' fresh_ok steps_ok by auto
  next
    case (Some v)
    then show ?thesis
      using evolves_Some [OF assms(1) Some] v' assms(2) steps_ok by (auto simp: all_values_def)
  qed
qed

text \<open>The optimistic check: a value met again under the revision it was read with is unchanged.\<close>

lemma same_revision:
  assumes "evolves get step fresh w w'" and "all_values get ok w"
    and "get w k = Some v" and "get w' k = Some v'" and "rev v' = rev v"
  shows "v' = v"
proof -
  have "step\<^sup>*\<^sup>* v v'" using evolves_Some [OF assms(1,3)] assms(4) by simp
  moreover have "ok k v" using assms(2,3) by (simp add: all_values_def)
  ultimately show ?thesis using steps_rev [of v v'] assms(5) by auto
qed

lemma evolves_put:
  assumes "get w k = Some v" and "step v v'" and "get w' = (get w)(k \<mapsto> v')"
  shows "evolves get step fresh w w'"
  using assms by (auto simp: evolves_def split: option.split)

lemma evolves_create:
  assumes "get w k = None" and "fresh k v" and "get w' = (get w)(k \<mapsto> v)"
  shows "evolves get step fresh w w'"
  using assms by (auto simp: evolves_def split: option.split)

lemma keeps_refl: "reflp (store_rely get step fresh ok)"
  by (auto simp: reflp_def store_rely_def evolves_refl)

lemma keeps_trans: "transp (store_rely get step fresh ok)"
  unfolding transp_def store_rely_def by (blast intro: evolves_trans evolves_all_values)

lemma keeps_frame: "get w' = get w \<Longrightarrow> store_rely get step fresh ok w w'"
  by (simp add: store_rely_def evolves_frame)

text \<open>A fact that every step keeps is kept by whatever the other tasks do.\<close>

lemma stable_steps:
  assumes "\<And>v v'. ok k v \<Longrightarrow> step v v' \<Longrightarrow> P v \<Longrightarrow> P v'"
  shows "step\<^sup>*\<^sup>* v v' \<Longrightarrow> ok k v \<Longrightarrow> P v \<Longrightarrow> P v'"
  by (induction rule: rtranclp_induct) (auto intro: assms steps_ok)

lemma evolves_stable:
  assumes "\<And>v v'. ok k v \<Longrightarrow> step v v' \<Longrightarrow> P v \<Longrightarrow> P v'"
    and "evolves get step fresh w w'" and "all_values get ok w"
    and "get w k = Some v" and "P v"
  shows "\<exists>v'. get w' k = Some v' \<and> P v'"
proof -
  obtain v' where "get w' k = Some v'" and st: "step\<^sup>*\<^sup>* v v'"
    using evolves_Some [OF assms(2,4)] by blast
  moreover have "P v'"
    by (rule stable_steps [where P = P and k = k, OF assms(1) st])
      (use assms(3,4,5) in \<open>auto simp: all_values_def\<close>)
  ultimately show ?thesis by blast
qed

end

subsection \<open>The optimistic loop\<close>

text \<open>
  The loop the clients of such a store share: read the value, compute a replacement from it (or
  none), swap it in if the revision has not moved, otherwise pause and start again, for a bounded
  number of rounds.
\<close>

primrec cas_loop ::
  "('k \<Rightarrow> ('w, 'v option) prog) \<Rightarrow> ('k \<Rightarrow> int \<Rightarrow> 'v \<Rightarrow> ('w, bool) prog) \<Rightarrow> ('w, unit) prog \<Rightarrow>
   ('v \<Rightarrow> int) \<Rightarrow> exn \<Rightarrow> exn \<Rightarrow> nat \<Rightarrow> 'k \<Rightarrow> ('w \<Rightarrow> 'v \<Rightarrow> ('v option \<times> 'r) res) \<Rightarrow> ('w, 'r) prog" where
  "cas_loop load cas pause rv missing contention 0 k operation = raise contention"
| "cas_loop load cas pause rv missing contention (Suc n) k operation =
     bindP (load k) (\<lambda>found. case found of
       None \<Rightarrow> raise missing
     | Some current \<Rightarrow>
         bindP (\<lambda>w. (operation w current, w)) (\<lambda>(updated, result). case updated of
           None \<Rightarrow> ret result
         | Some v \<Rightarrow>
             bindP (cas k (rv current) v) (\<lambda>swapped.
             if swapped then ret result
             else bindP pause (\<lambda>_. cas_loop load cas pause rv missing contention n k operation))))"

declare cas_loop.simps(2) [simp del]

text \<open>
  What a store promises to its clients: \<open>wait\<close> is the effect of one suspension, on which every call
  begins; a swap against a moved revision fails, one that is a step of the protocol succeeds.
\<close>

locale cas_store = versioned_store get step fresh ok rev
  for get :: "'w \<Rightarrow> 'k \<Rightarrow> 'v option" and step :: "'v \<Rightarrow> 'v \<Rightarrow> bool"
    and fresh :: "'k \<Rightarrow> 'v \<Rightarrow> bool" and ok :: "'k \<Rightarrow> 'v \<Rightarrow> bool" and rev :: "'v \<Rightarrow> int" +
  fixes wait :: "'w \<Rightarrow> 'w"
    and put :: "'k \<Rightarrow> 'v \<Rightarrow> 'w \<Rightarrow> 'w"
    and load :: "'k \<Rightarrow> ('w, 'v option) prog"
    and cas :: "'k \<Rightarrow> int \<Rightarrow> 'v \<Rightarrow> ('w, bool) prog"
    and pause :: "('w, unit) prog"
  assumes load_law: "load k w = (Inr (get (wait w) k), wait w)"
    and pause_law: "pause w = (Inr (), wait w)"
    and cas_stale: "(\<And>c. get (wait w) k = Some c \<Longrightarrow> rev c \<noteq> n) \<Longrightarrow> cas k n v w = (Inr False, wait w)"
    and cas_swaps: "get (wait w) k = Some c \<Longrightarrow> rev c = n \<Longrightarrow> ok k c \<Longrightarrow> step c v \<Longrightarrow>
      cas k n v w = (Inr True, put k v (wait w))"
    and get_put: "get (put k v w) = (get w)(k \<mapsto> v)"
begin

lemma wait_pow_rely:
  assumes "\<And>w. store_rely get step fresh ok w (wait w)"
  shows "store_rely get step fresh ok w ((wait ^^ i) w)"
  by (induction i) (use keeps_refl keeps_trans assms in \<open>auto dest: reflpD transpD\<close>)

lemma rely_all_values:
  "store_rely get step fresh ok w w' \<Longrightarrow> all_values get ok w \<Longrightarrow> all_values get ok w'"
  unfolding store_rely_def using evolves_all_values by blast

text \<open>
  The effect of a loop: a result took effect on the value current when it was written (or read,
  when nothing is written); a failure wrote nothing and is one of the two of the loop or a refusal
  of the operation on a well-formed value.
\<close>

definition loop_effect ::
  "exn \<Rightarrow> exn \<Rightarrow> 'k \<Rightarrow> ('w \<Rightarrow> 'v \<Rightarrow> ('v option \<times> 'r) res) \<Rightarrow> 'w \<Rightarrow> 'r res \<Rightarrow> 'w \<Rightarrow> bool" where
  "loop_effect missing contention k operation w r w' \<longleftrightarrow>
     (case r of
        Inl e \<Rightarrow> (\<exists>i. w' = (wait ^^ i) w) \<and>
          (e = missing \<or> e = contention \<or> (\<exists>u c. ok k c \<and> operation u c = Inl e))
      | Inr result \<Rightarrow> \<exists>j i c upd. j \<le> i \<and> get ((wait ^^ i) w) k = Some c \<and> ok k c \<and>
          operation ((wait ^^ j) w) c = Inr (upd, result) \<and>
          w' = (case upd of None \<Rightarrow> (wait ^^ i) w | Some v \<Rightarrow> put k v ((wait ^^ i) w)))"

lemma pow_pow: "(wait ^^ i) ((wait ^^ j) w) = (wait ^^ (i + j)) w"
  by (simp add: funpow_add)

lemma loop_effect_later:
  assumes "loop_effect missing contention k operation ((wait ^^ i) w) r w'"
  shows "loop_effect missing contention k operation w r w'"
proof (cases r)
  case (Inl e)
  then show ?thesis using assms unfolding loop_effect_def Inl sum.case pow_pow by blast
next
  case (Inr x)
  then obtain j m c upd where "j \<le> m" "get ((wait ^^ (m + i)) w) k = Some c" "ok k c"
    "operation ((wait ^^ (j + i)) w) c = Inr (upd, x)"
    "w' = (case upd of None \<Rightarrow> (wait ^^ (m + i)) w | Some v \<Rightarrow> put k v ((wait ^^ (m + i)) w))"
    using assms unfolding loop_effect_def Inr sum.case pow_pow by blast
  then show ?thesis
    unfolding loop_effect_def Inr sum.case
    by (intro exI [of _ "j + i"] exI [of _ "m + i"] exI [of _ c] exI [of _ upd]) simp
qed

lemma loop_round:
  "cas_loop load cas pause rev missing contention (Suc n) k operation w =
     (let w1 = wait w in case get w1 k of
        None \<Rightarrow> (Inl missing, w1)
      | Some c \<Rightarrow> (case operation w1 c of
          Inl e \<Rightarrow> (Inl e, w1)
        | Inr (None, result) \<Rightarrow> (Inr result, w1)
        | Inr (Some v, result) \<Rightarrow> (case cas k (rev c) v w1 of
            (Inl e, w3) \<Rightarrow> (Inl e, w3)
          | (Inr swapped, w3) \<Rightarrow>
              if swapped then (Inr result, w3)
              else cas_loop load cas pause rev missing contention n k operation (wait w3))))"
  unfolding cas_loop.simps
  by (simp add: bindP_run load_law pause_law ret_def raise_def Let_def
      split: option.split sum.split prod.split)

lemma cas_loop_effect:
  assumes rely: "\<And>w. store_rely get step fresh ok w (wait w)"
    and op: "\<And>u c v x. operation u c = Inr (Some v, x) \<Longrightarrow> ok k c \<Longrightarrow> step c v"
    and ok: "all_values get ok w"
    and run: "cas_loop load cas pause rev missing contention n k operation w = (r, w')"
  shows "loop_effect missing contention k operation w r w'"
  using ok run
proof (induction n arbitrary: w)
  case 0
  then have r: "r = Inl contention" and w': "w' = (wait ^^ 0) w" by (simp_all add: raise_def)
  show ?case unfolding loop_effect_def r sum.case using w' by blast
next
  case (Suc n)
  define w1 where "w1 = wait w"
  define w2 where "w2 = wait w1"
  define w3 where "w3 = wait w2"
  have w1: "(wait ^^ Suc 0) w = w1" and w2: "(wait ^^ Suc (Suc 0)) w = w2"
    and w3: "(wait ^^ Suc (Suc (Suc 0))) w = w3"
    by (simp_all add: w1_def w2_def w3_def)
  have ok1: "all_values get ok w1" and ok3: "all_values get ok w3"
    unfolding w1 [symmetric] w3 [symmetric]
    by (rule rely_all_values [OF wait_pow_rely [OF rely] Suc.prems(1)])+
  have r2: "store_rely get step fresh ok w1 w2" unfolding w2_def by (rule rely)
  note round = Suc.prems(2) [unfolded loop_round Let_def, folded w1_def]
  have fails: "loop_effect missing contention k operation w (Inl e) w1"
    if "e = missing \<or> e = contention \<or> (\<exists>u c. ok k c \<and> operation u c = Inl e)" for e
    unfolding loop_effect_def sum.case w1 [symmetric] using that by blast
  show ?case
  proof (cases "get w1 k")
    case None
    then show ?thesis using round fails [of missing] by auto
  next
    case cur: (Some cur)
    then have okc: "ok k cur" using ok1 by (simp add: all_values_def)
    show ?thesis
    proof (cases "operation w1 cur")
      case (Inl e)
      then show ?thesis using round cur fails [of e] okc by auto
    next
      case (Inr res)
      obtain upd result where res: "operation w1 cur = Inr (upd, result)"
        using Inr by (cases res) auto
      show ?thesis
      proof (cases upd)
        case None
        then have r: "r = Inr result" and w': "w' = w1"
          using round cur res by auto
        show ?thesis
          unfolding loop_effect_def r sum.case
          by (rule exI [of _ "Suc 0"], rule exI [of _ "Suc 0"], rule exI [of _ cur], rule exI [of _ None])
            (use cur okc res None w1 w' in simp)
      next
        case (Some v)
        have st: "step cur v" using op [OF res [unfolded Some] okc] .
        show ?thesis
        proof (cases "\<exists>c. get w2 k = Some c \<and> rev c = rev cur")
          case False
          then have "cas k (rev cur) v w1 = (Inr False, w2)"
            unfolding w2_def by (intro cas_stale) auto
          then have "cas_loop load cas pause rev missing contention n k operation w3 = (r, w')"
            using round cur res Some by (simp add: w3_def)
          then have "loop_effect missing contention k operation w3 r w'" using Suc.IH ok3 by blast
          then show ?thesis unfolding w3 [symmetric] by (rule loop_effect_later)
        next
          case True
          then obtain c where c: "get w2 k = Some c" "rev c = rev cur" by blast
          then have same: "c = cur"
            using same_revision r2 ok1 cur unfolding store_rely_def by blast
          then have "cas k (rev cur) v w1 = (Inr True, put k v w2)"
            using cas_swaps [of w1 k c "rev cur" v] c okc st by (simp add: w2_def)
          then have r: "r = Inr result" and w': "w' = put k v w2"
            using round cur res Some by auto
          show ?thesis
            unfolding loop_effect_def r sum.case
            by (rule exI [of _ "Suc 0"], rule exI [of _ "Suc (Suc 0)"], rule exI [of _ cur],
                rule exI [of _ "Some v"])
              (use c same okc res Some w1 w2 w' in simp)
        qed
      qed
    qed
  qed
qed

lemma loop_effect_rely:
  assumes rely: "\<And>w. store_rely get step fresh ok w (wait w)"
    and op: "\<And>u c v x. operation u c = Inr (Some v, x) \<Longrightarrow> ok k c \<Longrightarrow> step c v"
    and eff: "loop_effect missing contention k operation w r w'"
  shows "store_rely get step fresh ok w w'"
proof (cases r)
  case (Inl e)
  then show ?thesis using eff wait_pow_rely [OF rely] by (auto simp: loop_effect_def)
next
  case (Inr x)
  then obtain j i c upd where c: "get ((wait ^^ i) w) k = Some c" "ok k c"
    "operation ((wait ^^ j) w) c = Inr (upd, x)"
    and w': "w' = (case upd of None \<Rightarrow> (wait ^^ i) w | Some v \<Rightarrow> put k v ((wait ^^ i) w))"
    using eff unfolding loop_effect_def Inr sum.case by blast
  show ?thesis
  proof (cases upd)
    case None
    then show ?thesis using w' wait_pow_rely [OF rely] by simp
  next
    case (Some v)
    then have "step c v" using op c(2,3) by blast
    then have "evolves get step fresh ((wait ^^ i) w) (put k v ((wait ^^ i) w))"
      using c(1) get_put by (intro evolves_put) auto
    then have "store_rely get step fresh ok ((wait ^^ i) w) w'"
      using w' Some by (simp add: store_rely_def)
    then show ?thesis using wait_pow_rely [OF rely] keeps_trans by (blast dest: transpD)
  qed
qed

text \<open>A loop changes the store by steps of the protocol only, also when the store was not well-formed.\<close>

lemma cas_loop_rely:
  assumes rely: "\<And>w. store_rely get step fresh ok w (wait w)"
    and op: "\<And>u c v x. operation u c = Inr (Some v, x) \<Longrightarrow> ok k c \<Longrightarrow> step c v"
  shows "store_rely get step fresh ok w
    (snd (cas_loop load cas pause rev missing contention n k operation w))"
proof (cases "all_values get ok w")
  case True
  obtain r w' where run: "cas_loop load cas pause rev missing contention n k operation w = (r, w')"
    by fastforce
  then show ?thesis using loop_effect_rely [OF rely op cas_loop_effect [OF rely op True run]] by simp
qed (simp add: store_rely_def)

end

end
