(* ===== verification/Budget_Steps.thy ===== *)
theory Budget_Steps
  imports Budget_State Cas_Store
begin

text \<open>
  Every step of the ledger keeps the state of a group well-formed, raises its revision by one,
  never gives anything back, and moves a lease only out of \<^verbatim>\<open>active\<close>; so the states of a group are
  a versioned store in the sense of \<^theory_text>\<open>Cas_Store\<close>.  The updates of the source refuse only with
  the budget codes, never with one of the constructor's own \<^verbatim>\<open>ValueError\<close>s.
\<close>

subsection \<open>Preservation\<close>

lemma step_limits_ok:
  assumes "budget_ok s" and "check_budget_state s' = Inr s'"
    and "bs_limits s' = bs_limits s" "bs_leases s' = bs_leases s" "bs_usage s' = bs_usage s"
      "bs_per_agent_delegations s' = bs_per_agent_delegations s"
      "bs_delegation_count s' = bs_delegation_count s"
  shows "budget_ok s'"
  using assms by (simp add: budget_ok_def)

lemma model_turn_Some:
  "model_turn_update n t s = Inr (Some s', u) \<Longrightarrow>
     s' = s\<lparr>bs_revision := bs_revision s + 1, bs_model_turns := bs_model_turns s + n\<rparr> \<and>
     check_budget_state s' = Inr s' \<and> assert_live t s = Inr ()"
  by (auto simp: model_turn_update_def bindR_Inr_iff check_budget_state_Inr split: if_splits)

lemma tool_call_Some:
  "tool_call_update n t s = Inr (Some s', u) \<Longrightarrow>
     s' = s\<lparr>bs_revision := bs_revision s + 1, bs_tool_calls := bs_tool_calls s + n\<rparr> \<and>
     check_budget_state s' = Inr s' \<and> assert_live t s = Inr ()"
  by (auto simp: tool_call_update_def bindR_Inr_iff check_budget_state_Inr split: if_splits)

lemma complete_Some:
  "complete_update l us t s = Inr (Some s', b) \<Longrightarrow>
     b \<and> (\<exists>r. lease_record s l = Inr r \<and> sl_status r = L_ACTIVE \<and>
     s' = s\<lparr>bs_revision := bs_revision s + 1,
            bs_leases := dset (bl_lease_id l) (r\<lparr>sl_status := L_COMPLETED\<rparr>) (bs_leases s),
            bs_usage := add_usage (bs_usage s) us\<rparr>)"
  by (auto simp: complete_update_def bindR_Inr_iff check_budget_state_Inr split: if_splits)

lemma release_Some:
  "release_update l t s = Inr (Some s', u) \<Longrightarrow>
     \<exists>r. lease_record s l = Inr r \<and> sl_status r = L_ACTIVE \<and>
     s' = s\<lparr>bs_revision := bs_revision s + 1,
            bs_leases := dset (bl_lease_id l) (r\<lparr>sl_status := L_RELEASED\<rparr>) (bs_leases s)\<rparr>"
  using lease_status.exhaust
  by (auto simp: release_update_def bindR_Inr_iff check_budget_state_Inr split: if_splits)

lemma cancel_Some:
  "cancel_update t s = Inr (Some s', u) \<Longrightarrow>
     s' = s\<lparr>bs_revision := bs_revision s + 1, bs_cancelled := True,
            bs_leases := map (\<lambda>(k, l). (k, cancel_lease l)) (bs_leases s)\<rparr>"
  by (auto simp: cancel_update_def bindR_Inr_iff check_budget_state_Inr)

lemmas update_Some = model_turn_Some tool_call_Some complete_Some release_Some cancel_Some

lemma ledger_step_ok:
  assumes "ledger_step s s'" and "budget_ok s"
  shows "budget_ok s'"
  using assms
proof (induction rule: ledger_step.induct)
  case (reserve gid i c t s s' l)
  then show ?case using reserve_update_Some reserved_ok by metis
next
  case (model_turn n t s s' u)
  then show ?case by (auto dest!: model_turn_Some intro: step_limits_ok)
next
  case (tool_call n t s s' u)
  then show ?case by (auto dest!: tool_call_Some intro: step_limits_ok)
next
  case (complete l us t s s' b)
  then obtain r where r: "lease_record s l = Inr r" and
    s': "s' = s\<lparr>bs_revision := bs_revision s + 1,
       bs_leases := dset (bl_lease_id l) (r\<lparr>sl_status := L_COMPLETED\<rparr>) (bs_leases s),
       bs_usage := add_usage (bs_usage s) us\<rparr>" by (auto dest!: complete_Some)
  have "\<forall>(k, v) \<in> set (bs_usage s). k \<noteq> [] \<and> 0 \<le> v" and "dwf (bs_usage s)"
    using complete.prems by (simp_all add: budget_ok_def check_budget_state_Inr)
  then show ?case
    unfolding s' using lease_record_Inr [OF r] complete
    by (intro close_lease_ok add_usage_ok add_usage_dwf) auto
next
  case (release l t s s' u)
  then obtain r where r: "lease_record s l = Inr r" and
    s': "s' = s\<lparr>bs_revision := bs_revision s + 1,
       bs_leases := dset (bl_lease_id l) (r\<lparr>sl_status := L_RELEASED\<rparr>) (bs_leases s)\<rparr>"
    by (auto dest!: release_Some)
  have "\<forall>(k, v) \<in> set (bs_usage s). k \<noteq> [] \<and> 0 \<le> v" and "dwf (bs_usage s)"
    using release.prems by (simp_all add: budget_ok_def check_budget_state_Inr)
  then have "budget_ok (s\<lparr>bs_revision := bs_revision s + 1,
       bs_leases := dset (bl_lease_id l) (r\<lparr>sl_status := L_RELEASED\<rparr>) (bs_leases s),
       bs_usage := bs_usage s\<rparr>)"
    using lease_record_Inr [OF r] release.prems by (intro close_lease_ok) auto
  then show ?case unfolding s' by (cases s) simp
next
  case (cancel t s s' u)
  then show ?case using cancel_Some cancelled_ok by metis
qed

lemma ledger_step_rev: "ledger_step s s' \<Longrightarrow> bs_revision s' = bs_revision s + 1"
  by (induction rule: ledger_step.induct)
    (auto dest!: reserve_update_Some update_Some simp: reserved_def)

lemma ledger_step_frame:
  "ledger_step s s' \<Longrightarrow> bs_execution_group_id s' = bs_execution_group_id s \<and>
     bs_limits s' = bs_limits s \<and> bs_absolute_deadline s' = bs_absolute_deadline s"
  by (induction rule: ledger_step.induct)
    (auto dest!: reserve_update_Some update_Some simp: reserved_def)

lemma ledger_step_counts:
  "ledger_step s s' \<Longrightarrow> bs_delegation_count s \<le> bs_delegation_count s' \<and>
     bs_model_turns s \<le> bs_model_turns s' \<and> bs_tool_calls s \<le> bs_tool_calls s' \<and>
     (bs_cancelled s \<longrightarrow> bs_cancelled s')"
  by (induction rule: ledger_step.induct)
    (auto dest!: reserve_update_Some update_Some simp: reserved_def)

text \<open>A lease is never dropped, keeps its callee, and once closed keeps its status.\<close>

definition lease_le :: "stored_budget_lease \<Rightarrow> stored_budget_lease \<Rightarrow> bool" where
  "lease_le r r' \<longleftrightarrow> sl_lease_id r' = sl_lease_id r \<and> sl_callee_key r' = sl_callee_key r \<and>
     (sl_status r \<noteq> L_ACTIVE \<longrightarrow> sl_status r' = sl_status r)"

lemma lease_le_refl [simp]: "lease_le r r"
  by (simp add: lease_le_def)

lemma lease_le_trans: "lease_le a b \<Longrightarrow> lease_le b c \<Longrightarrow> lease_le a c"
  by (auto simp: lease_le_def)

lemma ledger_step_lease:
  "ledger_step s s' \<Longrightarrow> dget (bs_leases s) i = Some r \<Longrightarrow>
     \<exists>r'. dget (bs_leases s') i = Some r' \<and> lease_le r r'"
proof (induction rule: ledger_step.induct)
  case (reserve gid j c t s s' l)
  then show ?case by (auto dest!: reserve_update_Some simp: reserved_def map_add_def)
next
  case (complete l us t s s' b)
  then show ?case
    by (auto dest!: complete_Some lease_record_Inr simp: dget_dset lease_le_def)
next
  case (release l t s s' u)
  then show ?case
    by (auto dest!: release_Some lease_record_Inr simp: dget_dset lease_le_def)
next
  case (cancel t s s' u)
  then have "dget (bs_leases s') i = Some (cancel_lease r)"
    by (auto dest!: cancel_Some simp: map_of_map)
  then show ?case by (auto simp: lease_le_def cancel_lease_def)
qed (auto dest!: model_turn_Some tool_call_Some)

subsection \<open>The versioned store of group states\<close>

definition fresh_budget :: "string \<Rightarrow> budget_state \<Rightarrow> bool" where
  "fresh_budget g s \<longleftrightarrow> budget_ok s \<and> bs_execution_group_id s = g \<and> bs_leases s = [] \<and> bs_model_turns s = 0 \<and> bs_tool_calls s = 0"

definition group_ok :: "string \<Rightarrow> budget_state \<Rightarrow> bool" where
  "group_ok g s \<longleftrightarrow> budget_ok s \<and> bs_execution_group_id s = g"

record budget_world = sched +
  groups :: "string \<Rightarrow> budget_state option"

interpretation budgets: versioned_store
  "groups :: 'a budget_world_scheme \<Rightarrow> string \<Rightarrow> budget_state option"
  ledger_step fresh_budget group_ok bs_revision
  by unfold_locales (auto intro: ledger_step_ok ledger_step_rev dest: ledger_step_frame
    simp: fresh_budget_def group_ok_def)

text \<open>What any task may do to the budgets, and what every operation of the ledger does at most.\<close>

abbreviation budget_rely :: "'a budget_world_scheme \<Rightarrow> 'a budget_world_scheme \<Rightarrow> bool" where
  "budget_rely \<equiv> store_rely groups ledger_step fresh_budget group_ok"

abbreviation budgets_ok :: "'a budget_world_scheme \<Rightarrow> bool" where
  "budgets_ok \<equiv> all_values groups group_ok"

lemma ledger_steps_lease:
  "ledger_step\<^sup>*\<^sup>* s s' \<Longrightarrow> dget (bs_leases s) i = Some r \<Longrightarrow>
     \<exists>r'. dget (bs_leases s') i = Some r' \<and> lease_le r r'"
proof (induction rule: rtranclp_induct)
  case base
  then show ?case by simp
next
  case (step y z)
  then show ?case by (meson ledger_step_lease lease_le_trans)
qed

lemma ledger_steps_frame:
  "ledger_step\<^sup>*\<^sup>* s s' \<Longrightarrow> bs_execution_group_id s' = bs_execution_group_id s \<and>
     bs_limits s' = bs_limits s \<and> bs_absolute_deadline s' = bs_absolute_deadline s"
  by (induction rule: rtranclp_induct) (auto dest: ledger_step_frame)

lemma ledger_steps_counts:
  "ledger_step\<^sup>*\<^sup>* s s' \<Longrightarrow> bs_delegation_count s \<le> bs_delegation_count s' \<and>
     bs_model_turns s \<le> bs_model_turns s' \<and> bs_tool_calls s \<le> bs_tool_calls s' \<and>
     (bs_cancelled s \<longrightarrow> bs_cancelled s')"
  by (induction rule: rtranclp_induct) (auto dest: ledger_step_counts)

subsection \<open>The only refusals\<close>

definition budget_code :: "exn \<Rightarrow> bool" where
  "budget_code e \<longleftrightarrow> (\<exists>c. e = BudgetExceeded c)"

lemma budget_code_simps [simp]: "budget_code (BudgetExceeded c)" "\<not> budget_code RetryReservation"
  "\<not> budget_code FuelOut"
  by (simp_all add: budget_code_def)

lemma assert_live_refusal: "assert_live t s = Inl e \<Longrightarrow> budget_code e"
  by (auto simp: assert_live_def split: if_splits)

lemma lease_record_refusal: "lease_record s l = Inl e \<Longrightarrow> budget_code e"
  by (auto simp: lease_record_def split: if_splits option.splits)

lemma room_refusal: "delegation_room s c = Inl e \<Longrightarrow> budget_code e"
  by (auto simp: delegation_room_def split: if_splits)

lemma BudgetLease_accepts:
  "is_identifier i \<Longrightarrow> is_identifier g \<Longrightarrow> BudgetLease i g c d \<noteq> Inl e"
  using BudgetLease_Inr [of i g c d] by force

lemma adopt_refusal:
  assumes "is_identifier i" and "is_identifier (bs_execution_group_id s)"
    and "adopt_active_lease s i c = Inl e"
  shows "budget_code e"
  using assms BudgetLease_accepts
  by (auto simp: adopt_active_lease_def bindR_Inl_iff split: option.splits if_splits)

lemma budget_ok_check: "budget_ok s \<Longrightarrow> check_budget_state s = Inr s"
  by (simp add: budget_ok_def)

lemma identifier_nonempty: "is_identifier i \<Longrightarrow> i \<noteq> []"
  by (auto simp: is_identifier_def dest: token_nonempty)

text \<open>
  The updates never trip over a check of the constructor: on a well-formed state the only refusals
  are the budget codes, and for a reservation the request to try again.
\<close>

lemma reserve_refusal:
  assumes ok: "budget_ok s" and i: "is_identifier i" and g: "is_identifier g"
    and g': "is_identifier (bs_execution_group_id s)" and r: "reserve_update g i c t s = Inl e"
  shows "e = RetryReservation \<or> budget_code e"
proof (rule ccontr)
  assume no: "\<not> ?thesis"
  have live: "assert_live t s = Inr ()"
    using r no assert_live_refusal by (cases "assert_live t s") (auto simp: reserve_update_def)
  have adopt: "adopt_active_lease s i c = Inr None"
    using r no adopt_refusal [OF i g'] live
    by (cases "adopt_active_lease s i c") (auto simp: reserve_update_def split: option.splits)
  have room: "delegation_room s c = Inr ()"
    using r no room_refusal live adopt
    by (cases "delegation_room s c") (auto simp: reserve_update_def)
  have par: "active_delegations s < max_parallel_delegations (bs_limits s)"
    using r no live adopt room by (auto simp: reserve_update_def split: if_splits)
  have "budget_ok (reserved i c s)"
    using reserved_ok [OF ok adopt_None [OF adopt]] par room i
    by (auto simp: delegation_room_def identifier_nonempty split: if_splits)
  then have "check_budget_state (reserved i c s) = Inr (reserved i c s)" by (rule budget_ok_check)
  moreover have "StoredBudgetLease i (ref_str c) L_ACTIVE =
      Inr \<lparr>sl_lease_id = i, sl_callee_key = ref_str c, sl_status = L_ACTIVE\<rparr>"
    using identifier_nonempty [OF i] by (simp add: StoredBudgetLease_def bindR_Inr_iff ref_str_def)
  moreover have "BudgetLease i g c (bs_absolute_deadline s) = Inr \<lparr>bl_lease_id = i,
      bl_execution_group_id = g, bl_callee = c, bl_absolute_deadline = bs_absolute_deadline s\<rparr>"
    using i g by (simp add: BudgetLease_Inr)
  ultimately show False
    using r live adopt room par
    by (simp add: reserve_update_def reserved_def dset_fresh [OF adopt_None [OF adopt]])
qed

lemma close_check:
  assumes "budget_ok s" and "lease_record s l = Inr r" and "st \<noteq> L_ACTIVE"
    and "dwf us" and "\<forall>(k, v) \<in> set us. k \<noteq> [] \<and> 0 \<le> v"
  shows "check_budget_state (s\<lparr>bs_revision := bs_revision s + 1,
     bs_leases := dset (bl_lease_id l) (r\<lparr>sl_status := st\<rparr>) (bs_leases s), bs_usage := us\<rparr>) =
   Inr (s\<lparr>bs_revision := bs_revision s + 1,
     bs_leases := dset (bl_lease_id l) (r\<lparr>sl_status := st\<rparr>) (bs_leases s), bs_usage := us\<rparr>)"
  using assms lease_record_Inr [OF assms(2)] by (intro budget_ok_check close_lease_ok) auto

lemma complete_refusal:
  assumes ok: "budget_ok s" and us: "\<forall>(k, v) \<in> set us. k \<noteq> [] \<and> 0 \<le> v"
    and e: "complete_update l us t s = Inl e"
  shows "budget_code e"
proof (cases "lease_record s l")
  case (Inl e')
  then show ?thesis using e lease_record_refusal by (auto simp: complete_update_def)
next
  case (Inr r)
  have "dwf (add_usage (bs_usage s) us)" "\<forall>(k, v) \<in> set (add_usage (bs_usage s) us). k \<noteq> [] \<and> 0 \<le> v"
    by (rule add_usage_dwf add_usage_ok; use ok us in \<open>simp add: budget_ok_def check_budget_state_Inr\<close>)+
  then show ?thesis
    using e close_check [OF ok Inr, of L_COMPLETED] Inr
    by (auto simp: complete_update_def split: if_splits)
qed

lemma release_refusal:
  assumes ok: "budget_ok s" and e: "release_update l t s = Inl e"
  shows "budget_code e"
proof (cases "lease_record s l")
  case (Inl e')
  then show ?thesis using e lease_record_refusal by (auto simp: release_update_def)
next
  case (Inr r)
  have "dwf (bs_usage s)" "\<forall>(k, v) \<in> set (bs_usage s). k \<noteq> [] \<and> 0 \<le> v"
    using ok by (auto simp: budget_ok_def check_budget_state_Inr)
  then show ?thesis
    using e close_check [OF ok Inr, of L_RELEASED "bs_usage s"] Inr
    by (auto simp: release_update_def split: if_splits)
qed

lemma cancel_accepts: "budget_ok s \<Longrightarrow> \<exists>s'. cancel_update t s = Inr (Some s', ())"
  using budget_ok_check [OF cancelled_ok] by (simp add: cancel_update_def)

lemma turns_refusal:
  assumes ok: "budget_ok s" and n: "1 \<le> n"
    and e: "model_turn_update n t s = Inl e \<or> tool_call_update n t s = Inl e"
  shows "budget_code e"
proof (cases "assert_live t s")
  case (Inl e')
  then show ?thesis
    using e assert_live_refusal by (auto simp: model_turn_update_def tool_call_update_def)
next
  case (Inr u)
  have "bs_model_turns s + n \<le> max_total_model_turns (bs_limits s) \<Longrightarrow>
      check_budget_state (s\<lparr>bs_revision := bs_revision s + 1, bs_model_turns := bs_model_turns s + n\<rparr>) =
      Inr (s\<lparr>bs_revision := bs_revision s + 1, bs_model_turns := bs_model_turns s + n\<rparr>)"
    "bs_tool_calls s + n \<le> max_total_tool_calls (bs_limits s) \<Longrightarrow>
      check_budget_state (s\<lparr>bs_revision := bs_revision s + 1, bs_tool_calls := bs_tool_calls s + n\<rparr>) =
      Inr (s\<lparr>bs_revision := bs_revision s + 1, bs_tool_calls := bs_tool_calls s + n\<rparr>)"
    using n budget_ok_check [OF ok] by (auto simp: check_budget_state_Inr active_delegations_def)
  then show ?thesis
    using e Inr by (auto simp: model_turn_update_def tool_call_update_def split: if_splits)
qed

end
