(* ===== verification/Budget_Ledger.thy ===== *)
theory Budget_Ledger
  imports Budget_Steps
begin

text \<open>
  \<^verbatim>\<open>InMemoryBudgetStateStore\<close> and \<^verbatim>\<open>StoreBackedBudgetLedger\<close> (\<^verbatim>\<open>moduagent/delegation/budget.py\<close>) as
  programs over a world that holds the states of all groups.  Other tasks run at every \<^verbatim>\<open>await\<close>,
  as the parameter \<open>E\<close> says; taking the store's lock is one such point, and what is done under the
  lock is atomic.
\<close>

subsection \<open>The store\<close>

definition store_load ::
  "'a budget_world_scheme env \<Rightarrow> string \<Rightarrow> ('a budget_world_scheme, budget_state option) prog" where
  "store_load E gid = (\<lambda>w. let w' = await E w in (Inr (groups w' gid), w'))"

definition store_create ::
  "'a budget_world_scheme env \<Rightarrow> budget_state \<Rightarrow> ('a budget_world_scheme, bool) prog" where
  "store_create E st = (\<lambda>w. let w' = await E w in
     case groups w' (bs_execution_group_id st) of
       Some _ \<Rightarrow> (Inr False, w')
     | None \<Rightarrow> (Inr True, w'\<lparr>groups := (groups w')(bs_execution_group_id st \<mapsto> st)\<rparr>))"

definition store_cas ::
  "'a budget_world_scheme env \<Rightarrow> string \<Rightarrow> int \<Rightarrow> budget_state \<Rightarrow> ('a budget_world_scheme, bool) prog"
  where
  "store_cas E gid expected st = (\<lambda>w. let w' = await E w in
     case groups w' gid of
       None \<Rightarrow> (Inr False, w')
     | Some current \<Rightarrow>
         if bs_revision current \<noteq> expected then (Inr False, w')
         else if bs_execution_group_id st \<noteq> gid
         then (Inl (ValueError ''replacement state has a different group ID''), w')
         else if bs_revision st \<noteq> expected + 1
         then (Inl (ValueError ''replacement state must increment revision once''), w')
         else (Inr True, w'\<lparr>groups := (groups w')(gid \<mapsto> st)\<rparr>))"

definition suspend :: "'a sched_scheme env \<Rightarrow> ('a sched_scheme, unit) prog" where
  "suspend E = (\<lambda>w. (Inr (), await E w))"

subsection \<open>The ledger\<close>

definition require_state ::
  "'a budget_world_scheme env \<Rightarrow> string \<Rightarrow> ('a budget_world_scheme, budget_state) prog" where
  "require_state E gid = bindP (store_load E gid) (\<lambda>state. case state of
     None \<Rightarrow> raise (BudgetExceeded ''execution_group_not_initialized'') | Some s \<Rightarrow> ret s)"

primrec mutate ::
  "'a budget_world_scheme env \<Rightarrow> nat \<Rightarrow> string \<Rightarrow> (int \<Rightarrow> budget_state \<Rightarrow> (budget_state option \<times> 'r) res) \<Rightarrow>
   ('a budget_world_scheme, 'r) prog" where
  "mutate E 0 gid operation = raise (BudgetExceeded ''budget_store_contention'')"
| "mutate E (Suc n) gid operation =
     bindP (require_state E gid) (\<lambda>current.
     bindP (readP now) (\<lambda>t.
     bindP (ofR (operation t current)) (\<lambda>(updated, result).
     case updated of
       None \<Rightarrow> ret result
     | Some st \<Rightarrow>
         bindP (store_cas E gid (bs_revision current) st) (\<lambda>swapped.
         if swapped then ret result
         else bindP (suspend E) (\<lambda>_. mutate E n gid operation)))))"

definition load_group ::
  "'a budget_world_scheme env \<Rightarrow> string \<Rightarrow> ('a budget_world_scheme, budget_state option) prog" where
  "load_group E gid =
     (if gid = [] then raise (ValueError ''execution_group_id cannot be empty'') else store_load E gid)"

definition ensure_group ::
  "'a budget_world_scheme env \<Rightarrow> string \<Rightarrow> execution_group_limits \<Rightarrow> int option \<Rightarrow>
   ('a budget_world_scheme, budget_state) prog" where
  "ensure_group E gid limits absolute_deadline =
     (if gid = [] then raise (ValueError ''execution_group_id cannot be empty'') else
      bindP (store_load E gid) (\<lambda>existing. case existing of
        Some s \<Rightarrow>
          if bs_limits s \<noteq> limits then raise (BudgetExceeded ''execution_group_contract_mismatch'')
          else (case absolute_deadline of
             Some d \<Rightarrow> if bs_absolute_deadline s \<noteq> d
                       then raise (BudgetExceeded ''execution_group_contract_mismatch'') else ret s
           | None \<Rightarrow> ret s)
      | None \<Rightarrow>
          bindP (readP now) (\<lambda>t.
          let deadline = (case absolute_deadline of
                Some d \<Rightarrow> d | None \<Rightarrow> t + timedelta_us (timeout_seconds limits)) in
          bindP (ofR (check_budget_state (initial_state gid limits deadline))) (\<lambda>candidate.
          bindP (store_create E candidate) (\<lambda>created.
          if created then ret candidate else
          bindP (store_load E gid) (\<lambda>existing2. case existing2 of
            None \<Rightarrow> raise (BudgetExceeded ''budget_store_contention'')
          | Some s \<Rightarrow>
              if bs_limits s \<noteq> limits \<or> (absolute_deadline \<noteq> None \<and> bs_absolute_deadline s \<noteq> deadline)
              then raise (BudgetExceeded ''execution_group_contract_mismatch'')
              else ret s))))))"

text \<open>
  The \<^verbatim>\<open>while True\<close> of \<^verbatim>\<open>reserve_delegation\<close> polls while all parallel slots are taken; the number of
  rounds is bounded here and \<^term>\<open>FuelOut\<close> says that the loop is still polling.
\<close>

primrec reserve_loop ::
  "'a budget_world_scheme env \<Rightarrow> nat \<Rightarrow> string \<Rightarrow> string \<Rightarrow> agent_ref \<Rightarrow> nat \<Rightarrow>
   ('a budget_world_scheme, budget_lease) prog" where
  "reserve_loop E attempts gid lease_id callee 0 = raise FuelOut"
| "reserve_loop E attempts gid lease_id callee (Suc fuel) =
     bindP (require_state E gid) (\<lambda>state.
     bindP (readP now) (\<lambda>t.
     bindP (ofR (assert_live t state)) (\<lambda>_.
     bindP (ofR (adopt_active_lease state lease_id callee)) (\<lambda>adopted. case adopted of
       Some lease \<Rightarrow> ret lease
     | None \<Rightarrow>
         bindP (ofR (delegation_room state callee)) (\<lambda>_.
         if max_parallel_delegations (bs_limits state) \<le> active_delegations state then
           (if bs_absolute_deadline state - t \<le> 0
            then raise (BudgetExceeded ''execution_group_timeout'')
            else bindP (suspend E) (\<lambda>_. reserve_loop E attempts gid lease_id callee fuel))
         else
           catchP (mutate E attempts gid (reserve_update gid lease_id callee))
             (\<lambda>e. if e = RetryReservation then reserve_loop E attempts gid lease_id callee fuel
                  else raise e))))))"

definition reserve_delegation ::
  "'a budget_world_scheme env \<Rightarrow> nat \<Rightarrow> nat \<Rightarrow> string \<Rightarrow> agent_ref \<Rightarrow> string option \<Rightarrow> string \<Rightarrow>
   ('a budget_world_scheme, budget_lease) prog" where
  "reserve_delegation E attempts fuel gid callee lease_id uuid_hex =
     bindP (ofR (case lease_id of None \<Rightarrow> Inr (''lease:'' @ uuid_hex)
                 | Some i \<Rightarrow> bindR (check_identifier i ''lease_id'') (\<lambda>_. Inr i))) (\<lambda>i.
     reserve_loop E attempts gid i callee fuel)"

definition reserve_model_turn ::
  "'a budget_world_scheme env \<Rightarrow> nat \<Rightarrow> string \<Rightarrow> int \<Rightarrow> ('a budget_world_scheme, unit) prog" where
  "reserve_model_turn E attempts gid n =
     bindP (ofR (validate_count n)) (\<lambda>_. mutate E attempts gid (model_turn_update n))"

definition reserve_tool_call ::
  "'a budget_world_scheme env \<Rightarrow> nat \<Rightarrow> string \<Rightarrow> int \<Rightarrow> ('a budget_world_scheme, unit) prog" where
  "reserve_tool_call E attempts gid n =
     bindP (ofR (validate_count n)) (\<lambda>_. mutate E attempts gid (tool_call_update n))"

definition complete_lease_state ::
  "'a budget_world_scheme env \<Rightarrow> nat \<Rightarrow> budget_lease \<Rightarrow> (string, pyval) dict \<Rightarrow>
   ('a budget_world_scheme, bool) prog" where
  "complete_lease_state E attempts lease usage =
     bindP (ofR (normalize_usage usage)) (\<lambda>us.
     mutate E attempts (bl_execution_group_id lease) (complete_update lease us))"

definition complete_lease ::
  "'a budget_world_scheme env \<Rightarrow> nat \<Rightarrow> budget_lease \<Rightarrow> (string, pyval) dict \<Rightarrow>
   ('a budget_world_scheme, unit) prog" where
  "complete_lease E attempts lease usage =
     bindP (complete_lease_state E attempts lease usage) (\<lambda>_. ret ())"

definition reconcile_completed_lease ::
  "'a budget_world_scheme env \<Rightarrow> nat \<Rightarrow> budget_lease \<Rightarrow> (string, pyval) dict \<Rightarrow>
   ('a budget_world_scheme, bool) prog" where
  "reconcile_completed_lease E attempts lease usage = complete_lease_state E attempts lease usage"

definition inspect_lease ::
  "'a budget_world_scheme env \<Rightarrow> budget_lease \<Rightarrow> ('a budget_world_scheme, lease_status) prog" where
  "inspect_lease E lease =
     bindP (require_state E (bl_execution_group_id lease)) (\<lambda>state.
     if bl_absolute_deadline lease \<noteq> bs_absolute_deadline state
     then raise (BudgetExceeded ''budget_lease_deadline_mismatch'')
     else bindP (ofR (lease_record state lease)) (\<lambda>r. ret (sl_status r)))"

definition release_lease ::
  "'a budget_world_scheme env \<Rightarrow> nat \<Rightarrow> budget_lease \<Rightarrow> ('a budget_world_scheme, unit) prog" where
  "release_lease E attempts lease =
     mutate E attempts (bl_execution_group_id lease) (release_update lease)"

definition cancel_group ::
  "'a budget_world_scheme env \<Rightarrow> nat \<Rightarrow> string \<Rightarrow> ('a budget_world_scheme, unit) prog" where
  "cancel_group E attempts gid = mutate E attempts gid cancel_update"

subsection \<open>The compare-and-swap loop\<close>

lemma groups_tick [simp]: "groups (w\<lparr>tick := n\<rparr>) = groups (w :: 'a budget_world_scheme)"
  by (cases w) simp

lemma budgets_frame [simp]:
  fixes w w' :: "'a budget_world_scheme"
  shows
  "store_rely groups ledger_step fresh_budget group_ok w (w'\<lparr>tick := n\<rparr>) \<longleftrightarrow> budget_rely w w'"
  "evolves groups ledger_step fresh_budget w (w'\<lparr>tick := n\<rparr>) \<longleftrightarrow>
     evolves groups ledger_step fresh_budget w w'"
  "budgets_ok (w\<lparr>tick := n\<rparr>) \<longleftrightarrow> budgets_ok w"
  unfolding store_rely_def evolves_def all_values_def groups_tick by (rule refl)+

definition rely_env :: "('s \<Rightarrow> 's \<Rightarrow> bool) \<Rightarrow> 's env \<Rightarrow> bool" where
  "rely_env R E \<longleftrightarrow> (\<forall>n w. R w (E n w))"

lemma rely_await: "rely_env budget_rely E \<Longrightarrow> budget_rely w (await E w)"
  by (simp add: rely_env_def await_def)

lemma rely_refl [simp]: "budget_rely w w"
  using budgets.keeps_refl by (rule reflpD)

lemma rely_trans: "budget_rely w w' \<Longrightarrow> budget_rely w' w'' \<Longrightarrow> budget_rely w w''"
  using budgets.keeps_trans by (rule transpD)

lemma rely_ok: "budget_rely w w' \<Longrightarrow> budgets_ok w \<Longrightarrow> budgets_ok w'"
  unfolding store_rely_def using budgets.evolves_all_values by blast

lemma rely_steps:
  "budget_rely w w' \<Longrightarrow> budgets_ok w \<Longrightarrow> groups w g = Some s \<Longrightarrow>
     \<exists>s'. groups w' g = Some s' \<and> ledger_step\<^sup>*\<^sup>* s s'"
  unfolding store_rely_def by (blast dest: budgets.evolves_Some)

lemma rely_same:
  "budget_rely w w' \<Longrightarrow> budgets_ok w \<Longrightarrow> groups w g = Some s \<Longrightarrow> groups w' g = Some s' \<Longrightarrow>
     bs_revision s' = bs_revision s \<Longrightarrow> s' = s"
  unfolding store_rely_def by (blast intro: budgets.same_revision)

lemma require_state_run:
  "require_state E gid w = (case groups (await E w) gid of
     None \<Rightarrow> (Inl (BudgetExceeded ''execution_group_not_initialized''), await E w)
   | Some s \<Rightarrow> (Inr s, await E w))"
  by (simp add: require_state_def store_load_def run_simps Let_def split: option.split)

text \<open>
  One round of the loop, from the world \<open>w\<close>: \<open>w1\<close> is the world the state is read in and \<open>w2\<close> the
  one the swap is tried in.
\<close>

declare mutate.simps(2) [simp del]

lemma mutate_round:
  "mutate E (Suc n) gid operation w =
     (let w1 = await E w; w2 = await E w1 in
      case groups w1 gid of
        None \<Rightarrow> (Inl (BudgetExceeded ''execution_group_not_initialized''), w1)
      | Some current \<Rightarrow> (case operation (now w1) current of
          Inl e \<Rightarrow> (Inl e, w1)
        | Inr (None, result) \<Rightarrow> (Inr result, w1)
        | Inr (Some st, result) \<Rightarrow> (case store_cas E gid (bs_revision current) st w1 of
            (Inl e, w3) \<Rightarrow> (Inl e, w3)
          | (Inr swapped, w3) \<Rightarrow>
              if swapped then (Inr result, w3) else mutate E n gid operation (await E w3))))"
  by (simp add: mutate.simps(2) require_state_run bindP_run readP_def ofR_def ret_def suspend_def Let_def
      split: option.split sum.split prod.split)

text \<open>An operation of the ledger: what it writes is a step for the group it is run on.\<close>

definition ledger_operation ::
  "string \<Rightarrow> (int \<Rightarrow> budget_state \<Rightarrow> (budget_state option \<times> 'r) res) \<Rightarrow> bool" where
  "ledger_operation gid operation \<longleftrightarrow>
     (\<forall>t s s' r. operation t s = Inr (Some s', r) \<longrightarrow> budget_ok s \<longrightarrow> ledger_step s s')"

text \<open>
  The loop is an instance of the optimistic loop of \<^theory_text>\<open>Cas_Store\<close>, so its atomicity comes from
  there: whatever other tasks do, an operation that succeeds takes effect on one state of the
  group, the current one when it is written (or read, when nothing is written); one that fails
  writes nothing.  The world before the effect is reached by suspensions only.
\<close>

definition put_group ::
  "string \<Rightarrow> budget_state \<Rightarrow> 'a budget_world_scheme \<Rightarrow> 'a budget_world_scheme" where
  "put_group gid st w = w\<lparr>groups := (groups w)(gid \<mapsto> st)\<rparr>"

interpretation budget_cas: cas_store
  "groups :: 'a budget_world_scheme \<Rightarrow> string \<Rightarrow> budget_state option"
  ledger_step fresh_budget group_ok bs_revision "await E" put_group "store_load E" "store_cas E"
  "suspend E" for E :: "'a budget_world_scheme env"
proof
  fix w :: "'a budget_world_scheme" and k n v c
  show "store_load E k w = (Inr (groups (await E w) k), await E w)"
    by (simp add: store_load_def Let_def)
  show "suspend E w = (Inr (), await E w)" by (simp add: suspend_def)
  show "(\<And>c. groups (await E w) k = Some c \<Longrightarrow> bs_revision c \<noteq> n) \<Longrightarrow>
      store_cas E k n v w = (Inr False, await E w)"
    by (auto simp: store_cas_def Let_def split: option.split)
  show "groups (await E w) k = Some c \<Longrightarrow> bs_revision c = n \<Longrightarrow> group_ok k c \<Longrightarrow> ledger_step c v \<Longrightarrow>
      store_cas E k n v w = (Inr True, put_group k v (await E w))"
    using ledger_step_frame [of c v] ledger_step_rev [of c v]
    by (simp add: store_cas_def Let_def group_ok_def put_group_def)
  show "groups (put_group k v w) = (groups w)(k \<mapsto> v)" by (simp add: put_group_def)
qed

lemma mutate_cas_loop:
  "mutate E n gid operation = cas_loop (store_load E) (store_cas E) (suspend E) bs_revision
     (BudgetExceeded ''execution_group_not_initialized'') (BudgetExceeded ''budget_store_contention'')
     n gid (\<lambda>w. operation (now w))"
proof (induction n)
  case 0
  then show ?case by simp
next
  case (Suc n)
  show ?case
    unfolding mutate.simps(2) cas_loop.simps Suc require_state_def bindP_assoc readP_def ofR_def
    by (intro arg_cong [where f = "bindP (store_load E gid)"] ext)
      (simp add: bindP_def raise_def ret_def split: option.split)
qed

lemma rely_after: "rely_env budget_rely E \<Longrightarrow> budget_rely w (after E k w)"
  by (rule budget_cas.wait_pow_rely) (rule rely_await)

definition mutate_effect ::
  "'a budget_world_scheme env \<Rightarrow> string \<Rightarrow> (int \<Rightarrow> budget_state \<Rightarrow> (budget_state option \<times> 'r) res) \<Rightarrow>
   'a budget_world_scheme \<Rightarrow> 'r res \<Rightarrow> 'a budget_world_scheme \<Rightarrow> bool" where
  "mutate_effect E gid operation w r w' \<longleftrightarrow>
     (case r of
        Inl e \<Rightarrow> \<exists>k. w' = after E k w
      | Inr result \<Rightarrow> \<exists>j k s upd. j \<le> k \<and> groups (after E k w) gid = Some s \<and>
          operation (now (after E j w)) s = Inr (upd, result) \<and>
          w' = (case upd of None \<Rightarrow> after E k w
                | Some s' \<Rightarrow> (after E k w)\<lparr>groups := (groups (after E k w))(gid \<mapsto> s')\<rparr>))"

lemma ledger_operation_step:
  "ledger_operation gid operation \<Longrightarrow> operation t c = Inr (Some v, x) \<Longrightarrow> group_ok gid c \<Longrightarrow> ledger_step c v"
  by (auto simp: ledger_operation_def group_ok_def)

lemma mutate_loop_effect:
  assumes E: "rely_env budget_rely E" and op: "ledger_operation gid operation"
    and ok: "budgets_ok w" and run: "mutate E n gid operation w = (r, w')"
  shows "budget_cas.loop_effect E (BudgetExceeded ''execution_group_not_initialized'')
    (BudgetExceeded ''budget_store_contention'') gid (\<lambda>w. operation (now w)) w r w'"
  by (rule budget_cas.cas_loop_effect [OF rely_await [OF E] ledger_operation_step [OF op] ok
        run [unfolded mutate_cas_loop]])

lemma mutate_atomic:
  assumes "rely_env budget_rely E" and "ledger_operation gid operation" and "budgets_ok w"
    and "mutate E n gid operation w = (r, w')"
  shows "mutate_effect E gid operation w r w'"
proof (cases r)
  case (Inl e)
  then show ?thesis
    using mutate_loop_effect [OF assms]
    unfolding budget_cas.loop_effect_def mutate_effect_def Inl sum.case by blast
next
  case (Inr x)
  then show ?thesis
    using mutate_loop_effect [OF assms]
    unfolding budget_cas.loop_effect_def mutate_effect_def Inr sum.case put_group_def by blast
qed

lemma mutate_guarantee:
  assumes E: "rely_env budget_rely E" and op: "ledger_operation gid operation"
  shows "budget_rely w (snd (mutate E n gid operation w))"
  unfolding mutate_cas_loop
  by (rule budget_cas.cas_loop_rely [OF rely_await [OF E] ledger_operation_step [OF op]])

text \<open>A loop that fails ran out of rounds, found no group, or was refused by the operation.\<close>

lemma mutate_error:
  assumes "rely_env budget_rely E" and "ledger_operation gid operation"
    and "budgets_ok w" and "mutate E n gid operation w = (Inl e, w')"
  shows "budget_code e \<or> (\<exists>t s. group_ok gid s \<and> operation t s = Inl e)"
  using mutate_loop_effect [OF assms] unfolding budget_cas.loop_effect_def sum.case by auto

subsection \<open>Every operation only takes steps\<close>

text \<open>
  The calls of the ledger's interface, so that the guarantee is stated once: whatever other tasks
  do, a call changes the groups by steps of the ledger only.
\<close>

datatype ledger_call =
    Ensure string execution_group_limits "int option"
  | Reserve_Delegation string agent_ref "string option" string
  | Reserve_Model_Turn string int
  | Reserve_Tool_Call string int
  | Complete_Lease budget_lease "(string, pyval) dict"
  | Inspect_Lease budget_lease
  | Release_Lease budget_lease
  | Cancel_Group string

fun ledger_call_run ::
  "'a budget_world_scheme env \<Rightarrow> nat \<Rightarrow> nat \<Rightarrow> ledger_call \<Rightarrow> ('a budget_world_scheme, unit) prog" where
  "ledger_call_run E a f (Ensure g m d) = bindP (ensure_group E g m d) (\<lambda>_. ret ())"
| "ledger_call_run E a f (Reserve_Delegation g c i u) =
     bindP (reserve_delegation E a f g c i u) (\<lambda>_. ret ())"
| "ledger_call_run E a f (Reserve_Model_Turn g n) = reserve_model_turn E a g n"
| "ledger_call_run E a f (Reserve_Tool_Call g n) = reserve_tool_call E a g n"
| "ledger_call_run E a f (Complete_Lease l us) = complete_lease E a l us"
| "ledger_call_run E a f (Inspect_Lease l) = bindP (inspect_lease E l) (\<lambda>_. ret ())"
| "ledger_call_run E a f (Release_Lease l) = release_lease E a l"
| "ledger_call_run E a f (Cancel_Group g) = cancel_group E a g"

text \<open>Only a valid \<^verbatim>\<open>ExecutionGroupLimits\<close> object can be passed to \<open>ensure_group\<close>.\<close>

fun ledger_call_ok :: "ledger_call \<Rightarrow> bool" where
  "ledger_call_ok (Ensure g m d) \<longleftrightarrow> check_limits m = Inr m"
| "ledger_call_ok _ \<longleftrightarrow> True"

lemma usage_value_nonneg: "usage_value v = Inr x \<Longrightarrow> 0 \<le> x"
  by (auto simp: usage_value_def split: pyval.splits if_splits)

lemma normalize_usage_ok:
  "normalize_usage d = Inr us \<Longrightarrow> \<forall>(k, v) \<in> set us. k \<noteq> [] \<and> 0 \<le> v"
  unfolding normalize_usage_def
  by (drule mapR_all [where P = "\<lambda>(k, v). k \<noteq> [] \<and> 0 \<le> v"])
    (auto simp: bindR_Inr_iff usage_value_nonneg)

lemma operation_reserve: "i \<noteq> [] \<Longrightarrow> ledger_operation g (reserve_update g' i c)"
  and operation_model_turn: "1 \<le> n \<Longrightarrow> ledger_operation g (model_turn_update n)"
  and operation_tool_call: "1 \<le> n \<Longrightarrow> ledger_operation g (tool_call_update n)"
  and operation_complete:
    "\<forall>(k, v) \<in> set us. k \<noteq> [] \<and> 0 \<le> v \<Longrightarrow> ledger_operation g (complete_update l us)"
  and operation_release: "ledger_operation g (release_update l)"
  and operation_cancel: "ledger_operation g cancel_update"
  unfolding ledger_operation_def
  by (blast intro: ledger_step.reserve ledger_step.model_turn ledger_step.tool_call
      ledger_step.complete ledger_step.release ledger_step.cancel)+

lemma rely_reflp: "reflp budget_rely" and rely_transp: "transp budget_rely"
  by (rule budgets.keeps_refl budgets.keeps_trans)+

lemmas rely_rules = preserves_bindP [OF rely_transp] preserves_catchP [OF rely_transp]
  preserves_ret [OF rely_reflp] preserves_raise [OF rely_reflp] preserves_ofR [OF rely_reflp]
  preserves_readP [OF rely_reflp]

lemma mutate_preserves:
  "rely_env budget_rely E \<Longrightarrow> ledger_operation g op \<Longrightarrow> preserves budget_rely (mutate E n g op)"
  by (simp add: preserves_def mutate_guarantee)

lemma load_preserves: "rely_env budget_rely E \<Longrightarrow> preserves budget_rely (store_load E g)"
  by (simp add: preserves_def store_load_def Let_def rely_await)

lemma suspend_preserves: "rely_env budget_rely E \<Longrightarrow> preserves budget_rely (suspend E)"
  by (simp add: preserves_def suspend_def rely_await)

lemma require_state_preserves: "rely_env budget_rely E \<Longrightarrow> preserves budget_rely (require_state E g)"
  unfolding require_state_def
  by (intro rely_rules load_preserves) (auto intro!: rely_rules split: option.split)

lemma create_preserves:
  assumes E: "rely_env budget_rely E" and st: "fresh_budget (bs_execution_group_id st) st"
  shows "preserves budget_rely (store_create E st)"
  unfolding preserves_def
proof
  fix w
  let ?w1 = "await E w"
  show "budget_rely w (snd (store_create E st w))"
  proof (cases "groups ?w1 (bs_execution_group_id st)")
    case None
    let ?w2 = "?w1\<lparr>groups := (groups ?w1)(bs_execution_group_id st \<mapsto> st)\<rparr>"
    have "evolves groups ledger_step fresh_budget ?w1 ?w2"
      using None st by (intro budgets.evolves_create) auto
    then have "budget_rely ?w1 ?w2" by (simp add: store_rely_def)
    then show ?thesis
      using rely_trans [OF rely_await [OF E]] None by (simp add: store_create_def Let_def)
  next
    case (Some s)
    then show ?thesis using rely_await [OF E] by (simp add: store_create_def Let_def)
  qed
qed

lemma reserve_loop_preserves:
  assumes E: "rely_env budget_rely E" and i: "i \<noteq> []"
  shows "preserves budget_rely (reserve_loop E a g i c fuel)"
proof (induction fuel)
  case 0
  then show ?case by (auto intro: rely_rules)
next
  case (Suc fuel)
  have m: "preserves budget_rely (mutate E a g (reserve_update g i c))"
    by (rule mutate_preserves [OF E operation_reserve [OF i]])
  show ?case
    unfolding reserve_loop.simps
    by (intro rely_rules require_state_preserves [OF E])
      (auto intro!: rely_rules Suc.IH m suspend_preserves [OF E] split: option.split)
qed

end
