(* ===== verification/Budget_Props.thy ===== *)
theory Budget_Props
  imports Budget_Ledger
begin

text \<open>
  What the budget ledger promises to its clients while other tasks use it at the same time: the
  limits hold in every state, a granted lease is on record, usage is counted once, a cancelled group
  stays closed, and a reservation returns by the deadline.
\<close>

subsection \<open>The limits hold\<close>

lemma ensure_preserves:
  assumes E: "rely_env budget_rely E" and m: "check_limits m = Inr m"
  shows "preserves budget_rely (ensure_group E g m d)"
proof (cases "g = []")
  case True
  then show ?thesis by (auto simp: ensure_group_def intro!: rely_rules)
next
  case False
  have fresh: "check_budget_state (initial_state g m t) = Inr c \<Longrightarrow>
      fresh_budget (bs_execution_group_id c) c" for t c
    using initial_state_ok [OF False m]
    by (auto simp: check_budget_state_Inr fresh_budget_def initial_state_def)
  show ?thesis
    unfolding ensure_group_def Let_def if_not_P [OF False]
    by (intro preserves_bind_ofR [OF rely_reflp] rely_rules preserves_option preserves_if
        load_preserves [OF E] create_preserves [OF E] fresh)
qed

lemma reserve_delegation_preserves:
  assumes "rely_env budget_rely E"
  shows "preserves budget_rely (reserve_delegation E a f g c i u)"
  unfolding reserve_delegation_def
  by (intro preserves_bind_ofR [OF rely_reflp] reserve_loop_preserves [OF assms])
    (auto simp: bindR_Inr_iff identifier_nonempty split: option.splits)

lemma count_preserves:
  assumes "rely_env budget_rely E" and "1 \<le> n \<Longrightarrow> ledger_operation g op"
  shows "preserves budget_rely (bindP (ofR (validate_count n)) (\<lambda>_. mutate E a g op))"
  by (intro preserves_bind_ofR [OF rely_reflp] mutate_preserves [OF assms])
    (simp add: validate_count_def)

lemma complete_state_preserves:
  assumes "rely_env budget_rely E"
  shows "preserves budget_rely (complete_lease_state E a l us)"
  unfolding complete_lease_state_def
  by (intro preserves_bind_ofR [OF rely_reflp] mutate_preserves [OF assms]
      operation_complete normalize_usage_ok)

lemma inspect_preserves:
  assumes "rely_env budget_rely E"
  shows "preserves budget_rely (inspect_lease E l)"
  unfolding inspect_lease_def
  by (intro rely_rules require_state_preserves [OF assms]) (auto intro!: rely_rules)

lemma ledger_call_preserves:
  assumes "rely_env budget_rely E" and "ledger_call_ok c"
  shows "preserves budget_rely (ledger_call_run E a f c)"
  using assms
  by (cases c)
    (auto simp: reserve_model_turn_def reserve_tool_call_def complete_lease_def release_lease_def
      cancel_group_def intro!: rely_rules ensure_preserves reserve_delegation_preserves
      count_preserves complete_state_preserves inspect_preserves mutate_preserves
      operation_model_turn operation_tool_call operation_release operation_cancel)

fun ledger_calls_run ::
  "'a budget_world_scheme env \<Rightarrow> nat \<Rightarrow> nat \<Rightarrow> ledger_call list \<Rightarrow> 'a budget_world_scheme \<Rightarrow>
   'a budget_world_scheme" where
  "ledger_calls_run E a f [] w = w"
| "ledger_calls_run E a f (c # cs) w = ledger_calls_run E a f cs (snd (ledger_call_run E a f c w))"

lemma ledger_calls_rely:
  "rely_env budget_rely E \<Longrightarrow> \<forall>c \<in> set cs. ledger_call_ok c \<Longrightarrow>
     budget_rely w (ledger_calls_run E a f cs w)"
proof (induction cs arbitrary: w)
  case Nil
  then show ?case by simp
next
  case (Cons c cs)
  have "budget_rely w (snd (ledger_call_run E a f c w))"
    using ledger_call_preserves [OF Cons.prems(1), of c] Cons.prems(2) by (simp add: preserves_def)
  moreover have "budget_rely v (ledger_calls_run E a f cs v)" for v
    using Cons by simp
  ultimately show ?case unfolding ledger_calls_run.simps by (rule rely_trans)
qed

text \<open>
  C7.  However the calls of the ledger interleave, no group ever exceeds its limits: not the number
  of delegations, of delegations to one agent, of active leases, of model turns or of tool calls;
  and the counter kept for an agent is the number of leases issued to it.
\<close>

theorem budget_limits_hold:
  assumes "rely_env budget_rely E" and "budgets_ok w" and "\<forall>c \<in> set cs. ledger_call_ok c"
    and "groups (ledger_calls_run E a f cs w) g = Some s"
  shows "bs_delegation_count s \<le> max_delegations (bs_limits s) \<and>
    active_delegations s \<le> max_parallel_delegations (bs_limits s) \<and>
    dget_or (bs_per_agent_delegations s) k 0 \<le> max_delegations_per_agent (bs_limits s) \<and>
    bs_model_turns s \<le> max_total_model_turns (bs_limits s) \<and>
    bs_tool_calls s \<le> max_total_tool_calls (bs_limits s) \<and>
    dget_or (bs_per_agent_delegations s) k 0 = count_leases (\<lambda>l. sl_callee_key l = k) (bs_leases s)"
proof -
  have "budgets_ok (ledger_calls_run E a f cs w)"
    using ledger_calls_rely assms rely_ok by blast
  then have ok: "budget_ok s" using assms(4) by (simp add: all_values_def group_ok_def)
  moreover have "check_budget_state s = Inr s" using ok by (rule budget_ok_check)
  moreover have "dget_or (bs_per_agent_delegations s) k 0 \<le> max_delegations_per_agent (bs_limits s)"
  proof (cases "dget (bs_per_agent_delegations s) k")
    case None
    then show ?thesis using ok by (simp add: budget_ok_def check_limits_Inr)
  next
    case (Some v)
    then show ?thesis using ok map_of_SomeD [OF Some] by (auto simp: budget_ok_def)
  qed
  ultimately show ?thesis by (simp add: budget_ok_def check_budget_state_Inr)
qed

subsection \<open>A granted lease is on record\<close>

definition lease_granted :: "string \<Rightarrow> agent_ref \<Rightarrow> budget_state \<Rightarrow> budget_lease \<Rightarrow> bool" where
  "lease_granted g c s l \<longleftrightarrow>
     bl_execution_group_id l = g \<and> bl_callee l = c \<and> bl_absolute_deadline l = bs_absolute_deadline s \<and>
     \<not> bs_cancelled s \<and> (\<exists>r. lease_record s l = Inr r \<and> sl_status r = L_ACTIVE)"

lemma adopt_grants:
  assumes "adopt_active_lease s i c = Inr (Some l)" and "assert_live t s = Inr ()"
  shows "lease_granted (bs_execution_group_id s) c s l \<and> bl_lease_id l = i"
  using assms
  by (auto simp: adopt_active_lease_def lease_granted_def bindR_Inr_iff BudgetLease_Inr
      lease_record_def assert_live_def split: option.splits if_splits)

lemma reserved_grants:
  assumes "reserve_update g i c t s = Inr (Some s', l)" and "bs_execution_group_id s = g"
  shows "lease_granted g c s' l \<and> bl_lease_id l = i"
  using reserve_update_Some [OF assms(1)] assms(2)
  by (auto simp: lease_granted_def BudgetLease_Inr lease_record_def reserved_def assert_live_def
      map_add_def split: if_splits)

lemma reserve_update_None:
  "reserve_update g i c t s = Inr (None, l) \<Longrightarrow>
     adopt_active_lease s i c = Inr (Some l) \<and> assert_live t s = Inr ()"
  by (auto simp: reserve_update_def bindR_Inr_iff split: option.splits if_splits)

lemma after_ok: "rely_env budget_rely E \<Longrightarrow> budgets_ok w \<Longrightarrow> budgets_ok (after E k w)"
  using rely_after rely_ok by blast

lemma mutate_reserve_grants:
  assumes E: "rely_env budget_rely E" and ok: "budgets_ok w" and i: "i \<noteq> []"
    and run: "mutate E n g (reserve_update g i c) w = (Inr l, w')"
  shows "\<exists>s. groups w' g = Some s \<and> lease_granted g c s l \<and> bl_lease_id l = i"
proof -
  obtain j k s upd where s: "groups (after E k w) g = Some s"
    and upd: "reserve_update g i c (now (after E j w)) s = Inr (upd, l)"
    and w': "w' = (case upd of None \<Rightarrow> after E k w
        | Some s' \<Rightarrow> (after E k w)\<lparr>groups := (groups (after E k w))(g \<mapsto> s')\<rparr>)"
    using mutate_atomic [OF E operation_reserve [OF i] ok run] unfolding mutate_effect_def sum.case
    by blast
  have g: "bs_execution_group_id s = g"
    using after_ok [OF E ok, of k] s by (simp add: all_values_def group_ok_def)
  show ?thesis
  proof (cases upd)
    case None
    then show ?thesis
      using upd w' s adopt_grants reserve_update_None [of g i c _ s l] g by fastforce
  next
    case (Some s')
    then show ?thesis using upd w' reserved_grants [OF _ g] by auto
  qed
qed

lemma reserve_loop_grants:
  assumes E: "rely_env budget_rely E" and ok: "budgets_ok w" and i: "i \<noteq> []"
    and run: "reserve_loop E a g i c fuel w = (Inr l, w')"
  shows "\<exists>s. groups w' g = Some s \<and> lease_granted g c s l \<and> bl_lease_id l = i"
  using ok run
proof (induction fuel arbitrary: w)
  case 0
  then show ?case by (simp add: raise_def)
next
  case (Suc fuel)
  define w1 where "w1 = await E w"
  have r1: "budget_rely w w1" unfolding w1_def by (rule rely_await [OF E])
  have ok1: "budgets_ok w1" by (rule rely_ok [OF r1 Suc.prems(1)])
  obtain s where s: "groups w1 g = Some s"
    using Suc.prems(2) by (cases "groups w1 g") (auto simp: bindP_run require_state_run w1_def)
  then have g: "bs_execution_group_id s = g" using ok1 by (simp add: all_values_def group_ok_def)
  note run = Suc.prems(2) [unfolded reserve_loop.simps bindP_run require_state_run readP_def ofR_def,
      folded w1_def, unfolded s, simplified]
  have live: "assert_live (now w1) s = Inr ()"
    using run by (cases "assert_live (now w1) s") auto
  obtain ad where ad: "adopt_active_lease s i c = Inr ad"
    using run live by (cases "adopt_active_lease s i c") auto
  show ?case
  proof (cases ad)
    case (Some l')
    then show ?thesis using run live ad adopt_grants [of s i c l'] g s by (auto simp: ret_def)
  next
    case None
    then have room: "delegation_room s c = Inr ()"
      using run live ad by (cases "delegation_room s c") (auto simp: bindP_run)
    show ?thesis
    proof (cases "max_parallel_delegations (bs_limits s) \<le> active_delegations s")
      case True
      then have "reserve_loop E a g i c fuel (await E w1) = (Inr l, w')"
        using run live ad None room
        by (auto simp: bindP_run raise_def suspend_def split: if_splits)
      then show ?thesis using Suc.IH rely_ok [OF rely_await [OF E] ok1] by blast
    next
      case False
      obtain r w2 where m: "mutate E a g (reserve_update g i c) w1 = (r, w2)" by fastforce
      have ok2: "budgets_ok w2"
        using mutate_guarantee [OF E operation_reserve [OF i], of w1 a g g c] m rely_ok [OF _ ok1]
        by simp
      show ?thesis
      proof (cases r)
        case (Inl e)
        then have "reserve_loop E a g i c fuel w2 = (Inr l, w')"
          using run live ad None room False m
          by (auto simp: bindP_run catchP_def raise_def split: if_splits)
        then show ?thesis using Suc.IH ok2 by blast
      next
        case (Inr l')
        then have "l' = l" "w' = w2"
          using run live ad None room False m by (auto simp: bindP_run catchP_def)
        then show ?thesis using mutate_reserve_grants [OF E ok1 i] m Inr by blast
      qed
    qed
  qed
qed

text \<open>
  A granted reservation is on record when the caller gets it: the group exists, is not
  cancelled, holds an active lease under the granted identifier for exactly this agent with the
  deadline of the group, and the group is within its limits.
\<close>

theorem reserve_delegation_grants:
  assumes E: "rely_env budget_rely E" and ok: "budgets_ok w"
    and run: "reserve_delegation E a f g c i u w = (Inr l, w')"
  shows "\<exists>s. groups w' g = Some s \<and> group_ok g s \<and> lease_granted g c s l \<and>
     bl_lease_id l = (case i of None \<Rightarrow> ''lease:'' @ u | Some j \<Rightarrow> j)"
proof -
  define j where "j = (case i of None \<Rightarrow> ''lease:'' @ u | Some j \<Rightarrow> j)"
  have j: "j \<noteq> []" and loop: "reserve_loop E a g j c f w = (Inr l, w')"
    using run identifier_nonempty
    by (auto simp: reserve_delegation_def bindP_run ofR_def j_def check_identifier_def require_def
        bindR_def split: option.splits if_splits)
  obtain s where s: "groups w' g = Some s" "lease_granted g c s l" "bl_lease_id l = j"
    using reserve_loop_grants [OF E ok j loop] by blast
  have "budget_rely w w'"
    using reserve_delegation_preserves [OF E, of a f g c i u] run
    by (auto simp: preserves_def dest: spec [of _ w])
  then have "budgets_ok w'" using rely_ok ok by blast
  then show ?thesis using s by (auto simp: all_values_def j_def)
qed

subsection \<open>Exact charging\<close>

text \<open>An operation that always writes: success replaces one state, failure writes nothing.\<close>

lemma mutate_writes:
  assumes "rely_env budget_rely E" and "ledger_operation g op" and "budgets_ok w"
    and "mutate E n g op w = (r, w')"
    and "\<And>t s x. op t s \<noteq> Inr (None, x)"
  shows "case r of
      Inl e \<Rightarrow> \<exists>k. w' = after E k w
    | Inr x \<Rightarrow> \<exists>k t s s'. groups (after E k w) g = Some s \<and> op t s = Inr (Some s', x) \<and>
        w' = (after E k w)\<lparr>groups := (groups (after E k w))(g \<mapsto> s')\<rparr>"
proof (cases r)
  case (Inl e)
  then show ?thesis using mutate_atomic [OF assms(1-4)] by (simp add: mutate_effect_def)
next
  case (Inr x)
  then obtain j k s upd where u: "groups (after E k w) g = Some s"
    "op (now (after E j w)) s = Inr (upd, x)"
    "w' = (case upd of None \<Rightarrow> after E k w
      | Some s' \<Rightarrow> (after E k w)\<lparr>groups := (groups (after E k w))(g \<mapsto> s')\<rparr>)"
    using mutate_atomic [OF assms(1-4)] unfolding mutate_effect_def Inr sum.case by blast
  then show ?thesis using assms(5) Inr by (cases upd) auto
qed

lemma turn_updates_write:
  "model_turn_update n t s \<noteq> Inr (None, x)" "tool_call_update n t s \<noteq> Inr (None, x)"
  by (auto simp: model_turn_update_def tool_call_update_def bindR_Inr_iff)

text \<open>
  Model turns are charged exactly: a successful reservation of \<open>n\<close> turns replaces the current
  state of a live group by one with exactly \<open>n\<close> more turns, within the limit, and touches nothing
  else; a refused one writes nothing.  Between suspensions only other tasks change the store.
\<close>

theorem reserve_model_turn_exact:
  assumes E: "rely_env budget_rely E" and ok: "budgets_ok w"
    and run: "reserve_model_turn E a g n w = (r, w')"
  shows "case r of
      Inl e \<Rightarrow> (\<exists>k. w' = after E k w)
    | Inr _ \<Rightarrow> 1 \<le> n \<and> (\<exists>k s. groups (after E k w) g = Some s \<and> \<not> bs_cancelled s \<and>
        bs_model_turns s + n \<le> max_total_model_turns (bs_limits s) \<and>
        w' = (after E k w)\<lparr>groups := (groups (after E k w))(g \<mapsto>
          s\<lparr>bs_revision := bs_revision s + 1, bs_model_turns := bs_model_turns s + n\<rparr>)\<rparr>)"
proof (cases "1 \<le> n")
  case False
  then obtain e where r: "r = Inl e" and "w' = after E 0 w"
    using run by (auto simp: reserve_model_turn_def validate_count_def bindP_run ofR_def)
  then show ?thesis unfolding r sum.case by blast
next
  case True
  then have "mutate E a g (model_turn_update n) w = (r, w')"
    using run by (simp add: reserve_model_turn_def validate_count_def bindP_run ofR_def)
  note writes = mutate_writes [OF E operation_model_turn [OF True] ok this turn_updates_write(1)]
  show ?thesis
  proof (cases r)
    case (Inl e)
    then show ?thesis using writes by simp
  next
    case (Inr u)
    then obtain k t s s' where "groups (after E k w) g = Some s"
      "model_turn_update n t s = Inr (Some s', u)"
      "w' = (after E k w)\<lparr>groups := (groups (after E k w))(g \<mapsto> s')\<rparr>"
      using writes unfolding Inr sum.case by blast
    moreover from this(2) have "\<not> bs_cancelled s"
      "bs_model_turns s + n \<le> max_total_model_turns (bs_limits s)"
      "s' = s\<lparr>bs_revision := bs_revision s + 1, bs_model_turns := bs_model_turns s + n\<rparr>"
      by (auto dest!: model_turn_Some simp: assert_live_def check_budget_state_Inr split: if_splits)
    ultimately show ?thesis using Inr True by auto
  qed
qed

text \<open>
  Tool calls are charged exactly, in the same sense.
\<close>

theorem reserve_tool_call_exact:
  assumes E: "rely_env budget_rely E" and ok: "budgets_ok w"
    and run: "reserve_tool_call E a g n w = (r, w')"
  shows "case r of
      Inl e \<Rightarrow> (\<exists>k. w' = after E k w)
    | Inr _ \<Rightarrow> 1 \<le> n \<and> (\<exists>k s. groups (after E k w) g = Some s \<and> \<not> bs_cancelled s \<and>
        bs_tool_calls s + n \<le> max_total_tool_calls (bs_limits s) \<and>
        w' = (after E k w)\<lparr>groups := (groups (after E k w))(g \<mapsto>
          s\<lparr>bs_revision := bs_revision s + 1, bs_tool_calls := bs_tool_calls s + n\<rparr>)\<rparr>)"
proof (cases "1 \<le> n")
  case False
  then obtain e where r: "r = Inl e" and "w' = after E 0 w"
    using run by (auto simp: reserve_tool_call_def validate_count_def bindP_run ofR_def)
  then show ?thesis unfolding r sum.case by blast
next
  case True
  then have "mutate E a g (tool_call_update n) w = (r, w')"
    using run by (simp add: reserve_tool_call_def validate_count_def bindP_run ofR_def)
  note writes = mutate_writes [OF E operation_tool_call [OF True] ok this turn_updates_write(2)]
  show ?thesis
  proof (cases r)
    case (Inl e)
    then show ?thesis using writes by simp
  next
    case (Inr u)
    then obtain k t s s' where "groups (after E k w) g = Some s"
      "tool_call_update n t s = Inr (Some s', u)"
      "w' = (after E k w)\<lparr>groups := (groups (after E k w))(g \<mapsto> s')\<rparr>"
      using writes unfolding Inr sum.case by blast
    moreover from this(2) have "\<not> bs_cancelled s"
      "bs_tool_calls s + n \<le> max_total_tool_calls (bs_limits s)"
      "s' = s\<lparr>bs_revision := bs_revision s + 1, bs_tool_calls := bs_tool_calls s + n\<rparr>"
      by (auto dest!: tool_call_Some simp: assert_live_def check_budget_state_Inr split: if_splits)
    ultimately show ?thesis using Inr True by auto
  qed
qed

subsection \<open>Completing a lease once\<close>

lemma complete_update_None:
  "complete_update l us t s = Inr (None, b) \<Longrightarrow>
     \<not> b \<and> (\<exists>r. lease_record s l = Inr r \<and> sl_status r = L_COMPLETED)"
  by (auto simp: complete_update_def bindR_Inr_iff split: if_splits)

lemma complete_state_success:
  assumes E: "rely_env budget_rely E" and ok: "budgets_ok w"
    and run: "complete_lease_state E a l us w = (Inr b, w')"
  shows "\<exists>s r. groups w' (bl_execution_group_id l) = Some s \<and> lease_record s l = Inr r \<and>
     sl_status r = L_COMPLETED"
proof -
  let ?g = "bl_execution_group_id l"
  obtain vs where vs: "normalize_usage us = Inr vs"
    and m: "mutate E a ?g (complete_update l vs) w = (Inr b, w')"
    using run by (auto simp: complete_lease_state_def bindP_run ofR_def split: sum.splits)
  obtain j k s upd where s: "groups (after E k w) ?g = Some s"
    and upd: "complete_update l vs (now (after E j w)) s = Inr (upd, b)"
    and w': "w' = (case upd of None \<Rightarrow> after E k w
        | Some s' \<Rightarrow> (after E k w)\<lparr>groups := (groups (after E k w))(?g \<mapsto> s')\<rparr>)"
    using mutate_atomic [OF E operation_complete [OF normalize_usage_ok [OF vs]] ok m]
    unfolding mutate_effect_def sum.case by blast
  show ?thesis
  proof (cases upd)
    case None
    then have "w' = after E k w" using w' by simp
    then show ?thesis using complete_update_None upd s None by blast
  next
    case (Some s')
    obtain r where r: "lease_record s l = Inr r" and s': "s' = s\<lparr>bs_revision := bs_revision s + 1,
        bs_leases := dset (bl_lease_id l) (r\<lparr>sl_status := L_COMPLETED\<rparr>) (bs_leases s),
        bs_usage := add_usage (bs_usage s) vs\<rparr>"
      using complete_Some [OF upd [unfolded Some]] by blast
    have "lease_record s' l = Inr (r\<lparr>sl_status := L_COMPLETED\<rparr>)"
      unfolding s' using lease_record_Inr [OF r] by (simp add: lease_record_def dget_dset)
    moreover have "groups w' ?g = Some s'" using w' Some by simp
    ultimately show ?thesis by (intro exI conjI) (assumption, assumption, simp)
  qed
qed

lemma completed_stays:
  assumes "budget_rely w w'" and "budgets_ok w"
    and "groups w g = Some s" and "lease_record s l = Inr r" and "sl_status r = L_COMPLETED"
  shows "\<exists>s' r'. groups w' g = Some s' \<and> lease_record s' l = Inr r' \<and> sl_status r' = L_COMPLETED"
proof -
  obtain s' where s': "groups w' g = Some s'" and st: "ledger_step\<^sup>*\<^sup>* s s'"
    using rely_steps [OF assms(1-3)] by blast
  note rec = lease_record_Inr [OF assms(4)]
  obtain r' where "dget (bs_leases s') (bl_lease_id l) = Some r'" "lease_le r r'"
    using ledger_steps_lease [OF st] rec by blast
  then show ?thesis
    using s' rec ledger_steps_frame [OF st] assms(5)
    by (auto simp: lease_record_def lease_le_def)
qed

text \<open>
  A lease is completed once: after a completion that returned, every later completion of the
  same lease, whatever other tasks did in between and whatever usage it reports, says that nothing
  was left to do and writes nothing, so no usage is counted twice.
\<close>

theorem complete_lease_once:
  assumes E: "rely_env budget_rely E" and ok: "budgets_ok w"
    and run: "complete_lease_state E a l us w = (Inr b, w1)"
    and later: "budget_rely w1 w2" and E': "rely_env budget_rely E'"
    and us': "normalize_usage us' = Inr vs"
  shows "reconcile_completed_lease E' (Suc a') l us' w2 = (Inr False, await E' w2)"
proof -
  have "budget_rely w w1"
    using complete_state_preserves [OF E, of a l us] run
    by (auto simp: preserves_def dest: spec [of _ w])
  then have ok1: "budgets_ok w1" using rely_ok ok by blast
  have "budget_rely w1 (await E' w2)" using later rely_await [OF E'] rely_trans by blast
  then obtain s r where "groups (await E' w2) (bl_execution_group_id l) = Some s"
    "lease_record s l = Inr r" "sl_status r = L_COMPLETED"
    using complete_state_success [OF E ok run] completed_stays ok1 by blast
  then show ?thesis
    by (simp add: reconcile_completed_lease_def complete_lease_state_def bindP_run ofR_def us'
        mutate_round complete_update_def)
qed

text \<open>
  Completing an active lease closes exactly that lease and adds the reported usage, key by key,
  to the usage of the group; limits, counters and every other lease are left as they are.
\<close>

theorem complete_lease_usage:
  assumes E: "rely_env budget_rely E" and ok: "budgets_ok w"
    and run: "complete_lease_state E a l us w = (Inr True, w')"
  shows "\<exists>k s s' r vs. groups (after E k w) (bl_execution_group_id l) = Some s \<and>
     groups w' (bl_execution_group_id l) = Some s' \<and> normalize_usage us = Inr vs \<and>
     lease_record s l = Inr r \<and> sl_status r = L_ACTIVE \<and>
     s' = s\<lparr>bs_revision := bs_revision s + 1, bs_usage := bs_usage s',
            bs_leases := dset (bl_lease_id l) (r\<lparr>sl_status := L_COMPLETED\<rparr>) (bs_leases s)\<rparr> \<and>
     (\<forall>x. dget_or (bs_usage s') x 0 =
          dget_or (bs_usage s) x 0 + sum_list (map snd (filter (\<lambda>p. fst p = x) vs)))"
proof -
  let ?g = "bl_execution_group_id l"
  obtain vs where vs: "normalize_usage us = Inr vs"
    and m: "mutate E a ?g (complete_update l vs) w = (Inr True, w')"
    using run by (auto simp: complete_lease_state_def bindP_run ofR_def split: sum.splits)
  obtain j k s upd where s: "groups (after E k w) ?g = Some s"
    and upd: "complete_update l vs (now (after E j w)) s = Inr (upd, True)"
    and w': "w' = (case upd of None \<Rightarrow> after E k w
        | Some s' \<Rightarrow> (after E k w)\<lparr>groups := (groups (after E k w))(?g \<mapsto> s')\<rparr>)"
    using mutate_atomic [OF E operation_complete [OF normalize_usage_ok [OF vs]] ok m]
    unfolding mutate_effect_def sum.case by blast
  obtain s' where some: "upd = Some s'"
    using complete_update_None [of l vs _ s True] upd by (cases upd) blast+
  obtain r where r: "lease_record s l = Inr r" "sl_status r = L_ACTIVE"
    and s': "s' = s\<lparr>bs_revision := bs_revision s + 1,
      bs_leases := dset (bl_lease_id l) (r\<lparr>sl_status := L_COMPLETED\<rparr>) (bs_leases s),
      bs_usage := add_usage (bs_usage s) vs\<rparr>"
    using complete_Some [OF upd [unfolded some]] by blast
  show ?thesis
    by (intro exI [of _ k] exI [of _ s] exI [of _ s'] exI [of _ r] exI [of _ vs] conjI allI s vs r)
      (simp_all add: w' some s' dget_add_usage)
qed

subsection \<open>Cancelling a group\<close>

lemma cancelled_stays:
  assumes "budget_rely w w'" and "budgets_ok w" and "groups w g = Some s" and "bs_cancelled s"
  shows "\<exists>s'. groups w' g = Some s' \<and> bs_cancelled s'"
  using rely_steps [OF assms(1-3)] ledger_steps_counts assms(4) by blast

text \<open>
  C10.  Cancelling a group with at least one round to spare closes it for good: no lease stays
  active, and afterwards, whatever other tasks do in between, every reservation of a delegation, a
  model turn or a tool call is refused as cancelled.
\<close>

theorem cancel_group_final:
  assumes E: "rely_env budget_rely E" and ok: "budgets_ok w"
    and run: "cancel_group E a g w = (Inr u, w1)"
    and later: "budget_rely w1 w2" and E': "rely_env budget_rely E'"
    and i: "is_identifier i" and n: "1 \<le> n"
  shows "(\<exists>s. groups w1 g = Some s \<and> active_delegations s = 0) \<and>
    fst (reserve_delegation E' a' (Suc f) g c (Some i) x w2) =
      Inl (BudgetExceeded ''execution_group_cancelled'') \<and>
    fst (reserve_model_turn E' (Suc a') g n w2) = Inl (BudgetExceeded ''execution_group_cancelled'') \<and>
    fst (reserve_tool_call E' (Suc a') g n w2) = Inl (BudgetExceeded ''execution_group_cancelled'')"
proof -
  have "budget_rely w w1"
    using mutate_guarantee [OF E operation_cancel, of w a g] run by (simp add: cancel_group_def)
  then have ok1: "budgets_ok w1" using rely_ok ok by blast
  have puts: "cancel_update t s \<noteq> Inr (None, v)" for t s v
    by (auto simp: cancel_update_def bindR_Inr_iff)
  obtain k t s s' where s: "groups (after E k w) g = Some s"
    and c: "cancel_update t s = Inr (Some s', u)"
    and w1: "w1 = (after E k w)\<lparr>groups := (groups (after E k w))(g \<mapsto> s')\<rparr>"
    using mutate_writes [OF E operation_cancel ok run [unfolded cancel_group_def] puts] unfolding sum.case by blast
  have s': "groups w1 g = Some s'" "bs_cancelled s'" "active_delegations s' = 0"
    using w1 cancel_Some [OF c]
    by (auto simp: active_delegations_def count_leases_def filter_empty_conv cancel_lease_def
        split: if_splits)
  have "budget_rely w1 (await E' w2)" using later rely_await [OF E'] rely_trans by blast
  then obtain s2 where "groups (await E' w2) g = Some s2" "bs_cancelled s2"
    using cancelled_stays ok1 s'(1,2) by blast
  then show ?thesis
    using s' i n
    by (auto simp: reserve_delegation_def reserve_model_turn_def reserve_tool_call_def bindP_run
        ofR_def readP_def validate_count_def check_identifier_def require_state_run assert_live_def
        mutate_round model_turn_update_def tool_call_update_def)
qed

subsection \<open>A reservation returns by the deadline\<close>

text \<open>The clock moves by at least one unit at every suspension.\<close>

definition clock_env :: "'a sched_scheme env \<Rightarrow> bool" where
  "clock_env E \<longleftrightarrow> (\<forall>n w. now w + 1 \<le> now (E n w))"

lemma clock_await: "clock_env E \<Longrightarrow> now w + 1 \<le> now (await E w)"
  by (simp add: clock_env_def await_def)

lemma now_groups [simp]: "now (w\<lparr>groups := x\<rparr>) = now (w :: 'a budget_world_scheme)"
  by (cases w) simp

lemma store_cas_clock: "clock_env E \<Longrightarrow> now w \<le> now (snd (store_cas E g rv st w))"
  using clock_await [of E w] by (auto simp: store_cas_def Let_def split: option.split)

lemma mutate_clock:
  assumes "clock_env E"
  shows "now w \<le> now (snd (mutate E n g op w))"
proof (induction n arbitrary: w)
  case 0
  then show ?case by (simp add: raise_def)
next
  case (Suc n)
  define w1 where "w1 = await E w"
  have w1: "now w \<le> now w1" using clock_await [OF assms, of w] by (simp add: w1_def)
  show ?case
  proof (cases "\<exists>cur st x. groups w1 g = Some cur \<and> op (now w1) cur = Inr (Some st, x)")
    case False
    then have "snd (mutate E (Suc n) g op w) = w1"
      by (auto simp: mutate_round Let_def w1_def split: option.split sum.split prod.split)
    then show ?thesis using w1 by simp
  next
    case True
    then obtain cur st x where cur: "groups w1 g = Some cur" "op (now w1) cur = Inr (Some st, x)"
      by blast
    obtain r w3 where cas: "store_cas E g (bs_revision cur) st w1 = (r, w3)" by fastforce
    have w3: "now w1 \<le> now w3"
      using store_cas_clock [OF assms, of w1 g "bs_revision cur" st] cas by simp
    have "now w3 \<le> now (snd (mutate E n g op (await E w3)))"
      using Suc.IH [of "await E w3"] clock_await [OF assms, of w3] by simp
    then show ?thesis
      using cur cas w1 w3 by (cases r) (auto simp: mutate_round Let_def w1_def [symmetric])
  qed
qed

lemma reserve_loop_returns:
  assumes E: "rely_env budget_rely E" and clock: "clock_env E"
    and i: "is_identifier i" and g: "is_identifier g"
  shows "budgets_ok w \<Longrightarrow> groups w g = Some s \<Longrightarrow> nat (bs_absolute_deadline s - now w) < fuel \<Longrightarrow>
     (case fst (reserve_loop E a g i c fuel w) of Inl e \<Rightarrow> budget_code e | Inr l \<Rightarrow> True)"
proof (induction fuel arbitrary: w s)
  case 0
  then show ?case by simp
next
  case (Suc fuel)
  define w1 where "w1 = await E w"
  have r1: "budget_rely w w1" unfolding w1_def by (rule rely_await [OF E])
  have ok1: "budgets_ok w1" by (rule rely_ok [OF r1 Suc.prems(1)])
  obtain s1 where s1: "groups w1 g = Some s1" and dl: "bs_absolute_deadline s1 = bs_absolute_deadline s"
    using rely_steps [OF r1 Suc.prems(1,2)] ledger_steps_frame by blast
  have gok: "budget_ok s1" "bs_execution_group_id s1 = g"
    using ok1 s1 by (simp_all add: all_values_def group_ok_def)
  have t1: "now w + 1 \<le> now w1" unfolding w1_def by (rule clock_await [OF clock])
  note run = reserve_loop.simps(2) [of E a g i c fuel, THEN fun_cong, of w,
      unfolded bindP_run require_state_run readP_def ofR_def, folded w1_def, unfolded s1, simplified]
  have again: "case fst (reserve_loop E a g i c fuel w2) of Inl e \<Rightarrow> budget_code e | Inr l \<Rightarrow> True"
    if w2: "budget_rely w1 w2" "now w1 \<le> now w2" "now w1 < bs_absolute_deadline s1" for w2
  proof -
    obtain s2 where "groups w2 g = Some s2" "bs_absolute_deadline s2 = bs_absolute_deadline s1"
      using rely_steps [OF w2(1) ok1 s1] ledger_steps_frame by blast
    then show ?thesis
      using w2 t1 dl Suc.prems(3) by (intro Suc.IH rely_ok [OF w2(1) ok1]) auto
  qed
  show ?case
  proof (cases "assert_live (now w1) s1")
    case (Inl e)
    then show ?thesis using assert_live_refusal [OF Inl] run by simp
  next
    case live: (Inr u)
    then have early: "now w1 < bs_absolute_deadline s1"
      by (auto simp: assert_live_def split: if_splits)
    show ?thesis
    proof (cases "adopt_active_lease s1 i c")
      case (Inl e)
      then show ?thesis using adopt_refusal [OF i _ Inl] g gok(2) run live by simp
    next
      case ad: (Inr ad)
      show ?thesis
      proof (cases "ad = None \<and> delegation_room s1 c = Inr ()")
        case False
        then show ?thesis
          using run live ad room_refusal [of s1 c]
          by (cases ad; cases "delegation_room s1 c") (auto simp: ret_def bindP_run)
      next
        case True
        then have room: "delegation_room s1 c = Inr ()" and none: "ad = None" by simp_all
        show ?thesis
        proof (cases "max_parallel_delegations (bs_limits s1) \<le> active_delegations s1")
          case full: True
          then have "reserve_loop E a g i c (Suc fuel) w = reserve_loop E a g i c fuel (await E w1)"
            using run live ad none room early by (simp add: bindP_run suspend_def)
          then show ?thesis
            using again [OF rely_await [OF E] _ early] clock_await [OF clock, of w1] by simp
        next
          case False
          obtain r w2 where m: "mutate E a g (reserve_update g i c) w1 = (r, w2)" by fastforce
          have op: "ledger_operation g (reserve_update g i c)"
            by (rule operation_reserve [OF identifier_nonempty [OF i]])
          have w2: "budget_rely w1 w2" "now w1 \<le> now w2"
            using mutate_guarantee [OF E op, of w1 a] mutate_clock [OF clock, of w1 a g "reserve_update g i c"] m
            by auto
          show ?thesis
          proof (cases r)
            case (Inr l)
            then show ?thesis using run live ad none room False m by (simp add: bindP_run catchP_def)
          next
            case (Inl e)
            have e: "e = RetryReservation \<or> budget_code e"
              using mutate_error [OF E op ok1 m [unfolded Inl]] reserve_refusal [OF _ i g] g
              unfolding group_ok_def by blast
            have "fst (reserve_loop E a g i c (Suc fuel) w) =
                (if e = RetryReservation then fst (reserve_loop E a g i c fuel w2) else Inl e)"
              using run live ad none room False m Inl
              by (simp add: bindP_run catchP_def raise_def)
            then show ?thesis using again [OF w2 early] e by auto
          qed
        qed
      qed
    qed
  qed
qed

text \<open>
  C9.  A reservation does not wait for ever: when the clock moves at each suspension, the loop over
  an existing group needs no more rounds than there are clock units to the deadline of the group;
  it then returns a lease or a budget refusal, never the internal request to try again, and never
  an error of one of the constructors.
\<close>

theorem reserve_delegation_returns:
  assumes "rely_env budget_rely E" and "clock_env E" and "is_identifier i" and "is_identifier g"
    and "budgets_ok w" and "groups w g = Some s"
    and "nat (bs_absolute_deadline s - now w) < fuel"
  shows "case fst (reserve_delegation E a fuel g c (Some i) u w) of
      Inr l \<Rightarrow> bl_lease_id l = i | Inl e \<Rightarrow> budget_code e"
proof -
  have loop: "reserve_delegation E a fuel g c (Some i) u w = reserve_loop E a g i c fuel w"
    using assms(3) by (simp add: reserve_delegation_def bindP_def ofR_def check_identifier_def)
  obtain r w' where run: "reserve_loop E a g i c fuel w = (r, w')" by fastforce
  have "case r of Inl e \<Rightarrow> budget_code e | Inr l \<Rightarrow> True"
    using reserve_loop_returns [OF assms(1-7), of a c] run by simp
  moreover have "r = Inr l \<Longrightarrow> bl_lease_id l = i" for l
    using reserve_loop_grants [OF assms(1,5) identifier_nonempty [OF assms(3)], of a g c fuel l w'] run
    by blast
  ultimately show ?thesis using loop run by (cases r) auto
qed

subsection \<open>Concrete runs\<close>

text \<open>
  A group in which another task charges a model turn at every suspension while the clock moves, so
  the swaps of the observed task meet changed revisions.
\<close>

definition sample_limits :: execution_group_limits where
  "sample_limits = \<lparr>max_depth = 2, max_delegations = 2, max_parallel_delegations = 1,
     max_delegations_per_agent = 2, max_total_model_turns = 4, max_total_tool_calls = 3,
     timeout_seconds = 1\<rparr>"

definition sample_world :: budget_world where
  "sample_world = \<lparr>tick = 0, now = 0, groups = [''g'' \<mapsto> initial_state ''g'' sample_limits 20]\<rparr>"

definition sample_env :: "budget_world env" where
  "sample_env n w =
     (snd (ledger_call_run quiet 2 2 (Reserve_Model_Turn ''g'' 1) w))\<lparr>now := now w + 1\<rparr>"

lemma rely_quiet [simp]: "rely_env budget_rely quiet"
  by (simp add: rely_env_def quiet_def)

lemma groups_now: "groups (w\<lparr>now := n\<rparr>) = groups (w :: 'a budget_world_scheme)"
  by (cases w) simp

lemma rely_now: "budget_rely w (w'\<lparr>now := n\<rparr>) \<longleftrightarrow> budget_rely w (w' :: 'a budget_world_scheme)"
  unfolding store_rely_def evolves_def groups_now by (rule refl)

lemma sample_env_rely: "rely_env budget_rely sample_env"
  unfolding rely_env_def sample_env_def rely_now
  using ledger_call_preserves [OF rely_quiet, of "Reserve_Model_Turn ''g'' 1"]
  by (simp add: preserves_def)

lemma sample_env_clock: "clock_env sample_env"
  by (simp add: clock_env_def sample_env_def)

lemma sample_world_ok: "budgets_ok sample_world"
  by (auto simp: all_values_def sample_world_def group_ok_def sample_limits_def check_limits_Inr
      intro!: initial_state_ok) (simp add: initial_state_def)

definition sample_calls :: "ledger_call list" where
  "sample_calls = [Ensure ''g'' sample_limits None, Reserve_Delegation ''g'' sample_child (Some ''l1'') [],
     Reserve_Tool_Call ''g'' 2, Reserve_Tool_Call ''g'' 2, Reserve_Model_Turn ''g'' 9]"

theorem budget_limits_hold_witness:
  "case groups (ledger_calls_run sample_env 3 3 sample_calls sample_world) ''g'' of
     None \<Rightarrow> False
   | Some s \<Rightarrow> bs_delegation_count s = 1 \<and> bs_tool_calls s = 2 \<and> bs_model_turns s = 4 \<and>
       bs_model_turns s \<le> max_total_model_turns (bs_limits s)"
proof -
  have calls: "\<forall>c \<in> set sample_calls. ledger_call_ok c"
    by (simp add: sample_calls_def sample_limits_def check_limits_Inr)
  have run: "case groups (ledger_calls_run sample_env 3 3 sample_calls sample_world) ''g'' of
     None \<Rightarrow> False
   | Some s \<Rightarrow> bs_delegation_count s = 1 \<and> bs_tool_calls s = 2 \<and> bs_model_turns s = 4"
    by code_simp
  show ?thesis
    using run budget_limits_hold [OF sample_env_rely sample_world_ok calls]
    by (auto split: option.splits)
qed

theorem reserve_delegation_grants_witness:
  "case reserve_delegation sample_env 9 9 ''g'' sample_child (Some ''l1'') [] sample_world of
     (Inl e, w') \<Rightarrow> False
   | (Inr l, w') \<Rightarrow> \<exists>s. groups w' ''g'' = Some s \<and> lease_granted ''g'' sample_child s l"
proof -
  have "case fst (reserve_delegation sample_env 9 9 ''g'' sample_child (Some ''l1'') [] sample_world) of
      Inl e \<Rightarrow> False | Inr l \<Rightarrow> True" by code_simp
  then show ?thesis
    using reserve_delegation_grants [OF sample_env_rely sample_world_ok]
    by (auto split: prod.splits sum.splits) blast
qed

theorem reserve_model_turn_exact_witness:
  "case reserve_model_turn sample_env 9 ''g'' 5 sample_world of
     (Inl e, w') \<Rightarrow> \<exists>k. w' = after sample_env k sample_world
   | (Inr u, w') \<Rightarrow> False"
proof -
  obtain r w' where r: "reserve_model_turn sample_env 9 ''g'' 5 sample_world = (r, w')" by fastforce
  have "case fst (reserve_model_turn sample_env 9 ''g'' 5 sample_world) of
      Inl e \<Rightarrow> True | Inr l \<Rightarrow> False" by code_simp
  then obtain e where "r = Inl e" using r by (cases r) auto
  then show ?thesis
    using reserve_model_turn_exact [OF sample_env_rely sample_world_ok r] r by simp
qed

theorem reserve_tool_call_exact_witness:
  "case reserve_tool_call sample_env 9 ''g'' 2 sample_world of
     (Inl e, w') \<Rightarrow> False
   | (Inr u, w') \<Rightarrow> \<exists>k s. groups (after sample_env k sample_world) ''g'' = Some s \<and>
        groups w' ''g'' = Some (s\<lparr>bs_revision := bs_revision s + 1,
          bs_tool_calls := bs_tool_calls s + 2\<rparr>)"
proof -
  obtain r w' where r: "reserve_tool_call sample_env 9 ''g'' 2 sample_world = (r, w')" by fastforce
  have "case fst (reserve_tool_call sample_env 9 ''g'' 2 sample_world) of
      Inl e \<Rightarrow> False | Inr l \<Rightarrow> True" by code_simp
  then obtain u where "r = Inr u" using r by (cases r) auto
  then show ?thesis
    using reserve_tool_call_exact [OF sample_env_rely sample_world_ok r] r by fastforce
qed

text \<open>A world in which the lease \<^verbatim>\<open>l1\<close> has been granted, and its lease.\<close>

definition leased_world :: budget_world where
  "leased_world = ledger_calls_run quiet 1 1 [Reserve_Delegation ''g'' sample_child (Some ''l1'') []]
     sample_world"

definition sample_lease :: budget_lease where
  "sample_lease = \<lparr>bl_lease_id = ''l1'', bl_execution_group_id = ''g'', bl_callee = sample_child,
     bl_absolute_deadline = 20\<rparr>"

lemma leased_world_ok: "budgets_ok leased_world"
  unfolding leased_world_def
  by (rule rely_ok [OF ledger_calls_rely [OF rely_quiet] sample_world_ok]) simp

definition completed_run :: "bool res \<times> budget_world" where
  "completed_run =
     complete_lease_state sample_env 9 sample_lease [(''total_tokens'', PInt 7)] leased_world"

lemma completed_run_result: "completed_run = (Inr True, snd completed_run)"
proof -
  have "case fst completed_run of Inl e \<Rightarrow> False | Inr b \<Rightarrow> b" by code_simp
  then have "fst completed_run = Inr True" by (cases "fst completed_run") auto
  then show ?thesis by (simp add: prod_eq_iff)
qed

lemma sample_usage: "normalize_usage [(''total_tokens'', PInt 9)] = Inr [(''total_tokens'', 9)]"
  by (simp add: normalize_usage_def usage_value_def)

theorem complete_lease_once_witness:
  "fst (complete_lease_state sample_env 9 sample_lease [(''total_tokens'', PInt 7)] leased_world) =
     Inr True \<and>
   fst (reconcile_completed_lease sample_env 1 sample_lease [(''total_tokens'', PInt 9)]
     (snd completed_run)) = Inr False"
proof -
  note run = completed_run_result [unfolded completed_run_def]
  show ?thesis
    using complete_lease_once [OF sample_env_rely leased_world_ok run rely_refl sample_env_rely
        sample_usage, of 0] run
    by (simp add: completed_run_def prod_eq_iff)
qed

theorem complete_lease_usage_witness:
  "\<exists>s. groups (snd completed_run) ''g'' = Some s \<and> dget_or (bs_usage s) ''total_tokens'' 0 = 7"
proof -
  note run = completed_run_result [unfolded completed_run_def]
  have "case groups (snd completed_run) ''g'' of None \<Rightarrow> False
      | Some s \<Rightarrow> dget_or (bs_usage s) ''total_tokens'' 0 = 7" by code_simp
  then show ?thesis
    using complete_lease_usage [OF sample_env_rely leased_world_ok run]
    by (auto split: option.splits)
qed

theorem cancel_group_final_witness:
  "(case fst (cancel_group sample_env 9 ''g'' leased_world) of Inl e \<Rightarrow> False | Inr u \<Rightarrow> True) \<and>
   fst (reserve_model_turn sample_env 1 ''g'' 1 (snd (cancel_group sample_env 9 ''g'' leased_world))) =
     Inl (BudgetExceeded ''execution_group_cancelled'')"
proof -
  have ok: "case fst (cancel_group sample_env 9 ''g'' leased_world) of Inl e \<Rightarrow> False | Inr u \<Rightarrow> True"
    by code_simp
  then obtain u where "cancel_group sample_env 9 ''g'' leased_world =
      (Inr u, snd (cancel_group sample_env 9 ''g'' leased_world))"
    by (cases "cancel_group sample_env 9 ''g'' leased_world") (auto split: sum.splits)
  from cancel_group_final [OF sample_env_rely leased_world_ok this rely_refl sample_env_rely,
      of "''l2''" 1 0] ok
  show ?thesis by (simp add: is_identifier_def token_def is_alnum_def is_digit_def digits_def)
qed

theorem reserve_delegation_returns_witness:
  "fst (reserve_delegation sample_env 9 21 ''g'' sample_child (Some ''l2'') [] leased_world) =
     Inl (BudgetExceeded ''execution_group_timeout'') \<and>
   (case fst (reserve_delegation sample_env 9 21 ''g'' sample_child (Some ''l2'') [] leased_world) of
      Inr l \<Rightarrow> False | Inl e \<Rightarrow> budget_code e)"
proof -
  have id: "is_identifier ''l2''" "is_identifier ''g''" by code_simp+
  have "case groups leased_world ''g'' of None \<Rightarrow> False
      | Some s \<Rightarrow> nat (bs_absolute_deadline s - now leased_world) < 21" by code_simp
  then obtain s where "groups leased_world ''g'' = Some s"
    "nat (bs_absolute_deadline s - now leased_world) < 21" by (auto split: option.splits)
  note ret = reserve_delegation_returns [OF sample_env_rely sample_env_clock id leased_world_ok this,
      of 9 sample_child "[]"]
  have "case fst (reserve_delegation sample_env 9 21 ''g'' sample_child (Some ''l2'') [] leased_world)
      of Inl (BudgetExceeded c) \<Rightarrow> c = ''execution_group_timeout'' | _ \<Rightarrow> False" by code_simp
  then show ?thesis using ret by (auto split: sum.splits exn.splits)
qed

end
