(* ===== verification/Agent_Definitions.thy ===== *)
theory Agent_Definitions
  imports Agent_Refs "HOL-Library.Char_ord" "HOL-Library.List_Lexorder"
begin

text \<open>
  Deployable definitions (\<^verbatim>\<open>moduagent/definitions/models.py\<close>) and the run limits they carry
  (\<^verbatim>\<open>moduagent/config.py\<close>): the validation of every field, the canonical payload and the
  fingerprint.  A \<^verbatim>\<open>frozenset\<close> of strings is its sorted duplicate-free list.  The digest of a
  payload, SHA-256 over its canonical JSON text, is the parameter \<open>digest\<close>.
\<close>

subsection \<open>Run limits\<close>

record run_limits =
  rl_max_steps :: int
  rl_max_tool_calls :: int
  rl_timeout_seconds :: rat
  rl_parallel_tool_calls :: bool
  rl_max_parallel_tools :: int
  rl_max_step_attempts :: int
  rl_max_replans :: int
  rl_max_tool_repair_attempts :: int
  rl_max_model_turns :: int
  rl_no_progress_model_turn_threshold :: int

definition check_run_limits :: "run_limits \<Rightarrow> run_limits res" where
  "check_run_limits l =
     bindR (all_ok
       [require (1 \<le> rl_max_steps l) (ValueError ''max_steps must be at least 1''),
        require (1 \<le> rl_max_step_attempts l) (ValueError ''max_step_attempts must be at least 1''),
        require (0 \<le> rl_max_replans l) (ValueError ''max_replans cannot be negative''),
        require (0 \<le> rl_max_tool_repair_attempts l)
          (ValueError ''max_tool_repair_attempts cannot be negative''),
        require (0 \<le> rl_max_tool_calls l) (ValueError ''max_tool_calls cannot be negative''),
        require (0 < rl_timeout_seconds l) (ValueError ''timeout_seconds must be positive''),
        require (1 \<le> rl_max_parallel_tools l) (ValueError ''max_parallel_tools must be at least 1''),
        require (1 \<le> rl_max_model_turns l) (ValueError ''max_model_turns must be at least 1''),
        require (2 \<le> rl_no_progress_model_turn_threshold l)
          (ValueError ''no_progress_model_turn_threshold must be at least 2'')])
     (\<lambda>_. Inr l)"

definition limits_payload :: "run_limits \<Rightarrow> (string, pyval) dict" where
  "limits_payload l =
     [(''max_steps'', PInt (rl_max_steps l)),
      (''max_tool_calls'', PInt (rl_max_tool_calls l)),
      (''timeout_seconds'', PFloat (rl_timeout_seconds l)),
      (''parallel_tool_calls'', PBool (rl_parallel_tool_calls l)),
      (''max_parallel_tools'', PInt (rl_max_parallel_tools l)),
      (''max_step_attempts'', PInt (rl_max_step_attempts l)),
      (''max_replans'', PInt (rl_max_replans l)),
      (''max_tool_repair_attempts'', PInt (rl_max_tool_repair_attempts l)),
      (''max_model_turns'', PInt (rl_max_model_turns l)),
      (''no_progress_model_turn_threshold'', PInt (rl_no_progress_model_turn_threshold l))]"

subsection \<open>Field validators\<close>

text \<open>\<^verbatim>\<open>str.isprintable\<close> on the characters of the model.\<close>

definition is_printable :: "char \<Rightarrow> bool" where
  "is_printable c \<longleftrightarrow> (let n = of_char c :: nat in (32 \<le> n \<and> n \<le> 126) \<or> (161 \<le> n \<and> n \<noteq> 173))"

definition validated_text :: "string \<Rightarrow> string \<Rightarrow> nat \<Rightarrow> unit res" where
  "validated_text s name limit = all_ok
     [require (s = strip s \<and> s \<noteq> []) (ValueError (name @ '' cannot be empty or padded'')),
      require (length s \<le> limit \<and> list_all is_printable s)
        (ValueError (name @ '' must be printable and bounded''))]"

definition validated_reference :: "string \<Rightarrow> string \<Rightarrow> unit res" where
  "validated_reference s name = require (token ''._:/-'' 511 s)
     (ValueError (name @ '' must be a stable non-secret reference''))"

definition validated_code :: "string \<Rightarrow> string \<Rightarrow> unit res" where
  "validated_code s name = require (token ''._:/-'' 255 s)
     (ValueError (name @ '' must be a stable machine-readable code''))"

definition validated_reference_tuple :: "string list \<Rightarrow> string \<Rightarrow> unit res" where
  "validated_reference_tuple refs name = all_ok
     (map (\<lambda>r. validated_reference r (name @ '' item'')) refs @
      [require (distinct refs) (ValueError (name @ '' cannot contain duplicates''))])"

definition frozenset :: "string list \<Rightarrow> string list" where
  "frozenset xs = sort (remdups xs)"

definition validated_callers :: "string list \<Rightarrow> string list res" where
  "validated_callers callers =
     bindR (all_ok (map (\<lambda>c. require (c = ''*'' \<or> valid_agent_id c) (ValueError ''agent_id''))
              (frozenset callers)))
     (\<lambda>_. Inr (frozenset callers))"

definition digest_key :: "string \<Rightarrow> bool" where
  "digest_key s \<longleftrightarrow> (case s of [] \<Rightarrow> False
     | c # cs \<Rightarrow> c \<in> set ''abcdefghijklmnopqrstuvwxyz'' \<and> length cs \<le> 63 \<and>
         list_all (\<lambda>x. x \<in> set ''abcdefghijklmnopqrstuvwxyz0123456789_.-'') cs)"

definition is_sha256 :: "string \<Rightarrow> bool" where
  "is_sha256 s \<longleftrightarrow> take 7 s = ''sha256:'' \<and> length (drop 7 s) = 64 \<and>
     list_all (\<lambda>c. c \<in> set ''0123456789abcdef'') (drop 7 s)"

definition validated_digests :: "(string, string) dict \<Rightarrow> (string, string) dict res" where
  "validated_digests d =
     bindR (all_ok (map (\<lambda>(k, v). all_ok
       [require (digest_key k) (ValueError ''semantic digest keys must be stable lowercase codes''),
        require (is_sha256 v) (ValueError ''semantic digest must be a canonical sha256 value'')]) d))
     (\<lambda>_. Inr (sort_key fst d))"

subsection \<open>Definitions\<close>

record agent_definition =
  ad_agent_id :: string
  ad_version :: string
  ad_description :: string
  ad_instructions_ref :: string
  ad_execution_profile :: string
  ad_model_route :: string
  ad_tool_refs :: "string list"
  ad_skill_refs :: "string list"
  ad_input_contract_ref :: string
  ad_output_contract_ref :: string
  ad_memory_policy_ref :: string
  ad_authorization_policy_ref :: string
  ad_data_classification :: string
  ad_side_effect_level :: string
  ad_approval_requirement :: string
  ad_callable_by :: "string list"
  ad_limits :: run_limits
  ad_semantic_digests :: "(string, string) dict"
  ad_fingerprint :: string

definition canonical_payload :: "agent_definition \<Rightarrow> (string, pyval) dict" where
  "canonical_payload d =
     [(''schema_version'', PInt 1),
      (''agent_id'', PStr (ad_agent_id d)),
      (''version'', PStr (ad_version d)),
      (''description'', PStr (ad_description d)),
      (''instructions_ref'', PStr (ad_instructions_ref d)),
      (''execution_profile'', PStr (ad_execution_profile d)),
      (''model_route'', PStr (ad_model_route d)),
      (''tool_refs'', PList (map PStr (ad_tool_refs d))),
      (''skill_refs'', PList (map PStr (ad_skill_refs d))),
      (''input_contract_ref'', PStr (ad_input_contract_ref d)),
      (''output_contract_ref'', PStr (ad_output_contract_ref d)),
      (''memory_policy_ref'', PStr (ad_memory_policy_ref d)),
      (''authorization_policy_ref'', PStr (ad_authorization_policy_ref d)),
      (''data_classification'', PStr (ad_data_classification d)),
      (''side_effect_level'', PStr (ad_side_effect_level d)),
      (''approval_requirement'', PStr (ad_approval_requirement d)),
      (''callable_by'', PList (map PStr (sort (ad_callable_by d)))),
      (''limits'', PDict (limits_payload (ad_limits d))),
      (''semantic_digests'', PDict (map (\<lambda>(k, v). (k, PStr v)) (ad_semantic_digests d)))]"

definition definition_to_dict :: "bool \<Rightarrow> agent_definition \<Rightarrow> (string, pyval) dict" where
  "definition_to_dict include_fingerprint d =
     canonical_payload d @
     (if include_fingerprint then [(''fingerprint'', PStr (ad_fingerprint d))] else [])"

definition definition_checks :: "agent_definition \<Rightarrow> unit res list" where
  "definition_checks d =
       [validated_text (ad_description d) ''description'' 2048,
        validated_reference (ad_instructions_ref d) ''instructions_ref'',
        validated_reference (ad_input_contract_ref d) ''input_contract_ref'',
        validated_reference (ad_output_contract_ref d) ''output_contract_ref'',
        validated_reference (ad_memory_policy_ref d) ''memory_policy_ref'',
        validated_reference (ad_authorization_policy_ref d) ''authorization_policy_ref'',
        validated_code (ad_execution_profile d) ''execution_profile'',
        validated_code (ad_model_route d) ''model_route'',
        validated_code (ad_data_classification d) ''data_classification'',
        validated_code (ad_side_effect_level d) ''side_effect_level'',
        validated_code (ad_approval_requirement d) ''approval_requirement'',
        require (ad_side_effect_level d \<in> set [''none'', ''read'', ''advisory'', ''write''])
          (ValueError ''side_effect_level''),
        validated_reference_tuple (ad_tool_refs d) ''tool_refs'',
        validated_reference_tuple (ad_skill_refs d) ''skill_refs'']"

text \<open>The constructor: \<open>d\<close> holds the arguments, its fingerprint is ignored and computed.\<close>

definition AgentDefinition ::
  "((string, pyval) dict \<Rightarrow> string) \<Rightarrow> agent_definition \<Rightarrow> agent_definition res" where
  "AgentDefinition digest d =
     bindR (AgentRef (ad_agent_id d) (ad_version d)) (\<lambda>_.
     bindR (all_ok (definition_checks d)) (\<lambda>_.
     bindR (validated_callers (ad_callable_by d)) (\<lambda>callers.
     bindR (validated_digests (ad_semantic_digests d)) (\<lambda>digests.
     let d' = d\<lparr>ad_callable_by := callers, ad_semantic_digests := digests\<rparr>
     in Inr (d'\<lparr>ad_fingerprint := ''sha256:'' @ digest (canonical_payload d')\<rparr>)))))"

definition definition_ref :: "agent_definition \<Rightarrow> agent_ref" where
  "definition_ref d = \<lparr>agent_id = ad_agent_id d, version = ad_version d\<rparr>"

text \<open>A definition as the constructor leaves it.\<close>

definition valid_definition :: "((string, pyval) dict \<Rightarrow> string) \<Rightarrow> agent_definition \<Rightarrow> bool" where
  "valid_definition digest d \<longleftrightarrow> AgentDefinition digest d = Inr d"

lemma validated_text_Inr [simp]:
  "validated_text s n k = Inr u \<longleftrightarrow> strip s = s \<and> s \<noteq> [] \<and> length s \<le> k \<and> list_all is_printable s"
  by (auto simp: validated_text_def)

lemma validated_code_Inr [simp]: "validated_code s n = Inr u \<longleftrightarrow> token ''._:/-'' 255 s"
  by (simp add: validated_code_def)

lemma frozenset_idem [simp]: "frozenset (frozenset xs) = frozenset xs"
  by (simp add: frozenset_def distinct_remdups_id sort_key_id_if_sorted)

lemma frozenset_sorted [simp]: "sort (frozenset xs) = frozenset xs"
  by (simp add: frozenset_def sort_key_id_if_sorted)

lemma validated_callers_Inr:
  "validated_callers xs = Inr ys \<longleftrightarrow>
     ys = frozenset xs \<and> (\<forall>c \<in> set xs. c = ''*'' \<or> valid_agent_id c)"
  by (auto simp: validated_callers_def bindR_Inr_iff frozenset_def)

lemma validated_digests_Inr:
  "validated_digests d = Inr d' \<longleftrightarrow>
     d' = sort_key fst d \<and> (\<forall>(k, v) \<in> set d. digest_key k \<and> is_sha256 v)"
  by (auto simp: validated_digests_def bindR_Inr_iff split_beta)

lemma AgentDefinition_Inr:
  assumes "AgentDefinition digest d = Inr d'"
  shows "d' = d\<lparr>ad_callable_by := frozenset (ad_callable_by d),
      ad_semantic_digests := sort_key fst (ad_semantic_digests d),
      ad_fingerprint := ''sha256:'' @ digest (canonical_payload
        (d\<lparr>ad_callable_by := frozenset (ad_callable_by d),
           ad_semantic_digests := sort_key fst (ad_semantic_digests d)\<rparr>))\<rparr>"
proof -
  obtain callers digests where c: "validated_callers (ad_callable_by d) = Inr callers"
    "validated_digests (ad_semantic_digests d) = Inr digests"
    and d': "d' = d\<lparr>ad_callable_by := callers, ad_semantic_digests := digests,
      ad_fingerprint := ''sha256:'' @ digest (canonical_payload
        (d\<lparr>ad_callable_by := callers, ad_semantic_digests := digests\<rparr>))\<rparr>"
    using assms unfolding AgentDefinition_def Let_def bindR_Inr_iff by blast
  show ?thesis using c unfolding d' by (simp add: validated_callers_Inr validated_digests_Inr)
qed

lemma valid_definition_facts:
  assumes "valid_definition digest d"
  shows "ad_fingerprint d = ''sha256:'' @ digest (canonical_payload d)"
    "sort (ad_callable_by d) = ad_callable_by d"
    "valid_ref (definition_ref d)"
    "validated_callers (ad_callable_by d) = Inr (ad_callable_by d)"
    "validated_text (ad_description d) ''description'' 2048 = Inr ()"
    "validated_code (ad_data_classification d) ''data_classification'' = Inr ()"
    "validated_code (ad_side_effect_level d) ''side_effect_level'' = Inr ()"
    "(k, v) \<in> set (ad_semantic_digests d) \<Longrightarrow> is_sha256 v"
proof -
  have d: "AgentDefinition digest d = Inr d" using assms by (simp add: valid_definition_def)
  obtain ref callers digests u where c: "AgentRef (ad_agent_id d) (ad_version d) = Inr ref"
    "validated_callers (ad_callable_by d) = Inr callers"
    "validated_digests (ad_semantic_digests d) = Inr digests"
    and u: "all_ok (definition_checks d) = Inr u"
    using d unfolding AgentDefinition_def Let_def bindR_Inr_iff by blast
  have checks: "validated_text (ad_description d) ''description'' 2048 = Inr ()"
    "validated_code (ad_data_classification d) ''data_classification'' = Inr ()"
    "validated_code (ad_side_effect_level d) ''side_effect_level'' = Inr ()"
    using u unfolding all_ok_Inr by (simp_all add: definition_checks_def)
  note eq = AgentDefinition_Inr [OF d]
  have fields: "ad_callable_by d = frozenset (ad_callable_by d)"
    "ad_semantic_digests d = sort_key fst (ad_semantic_digests d)"
    by (subst eq, simp)+
  have unchanged: "d\<lparr>ad_callable_by := frozenset (ad_callable_by d),
      ad_semantic_digests := sort_key fst (ad_semantic_digests d)\<rparr> = d"
    unfolding fields [symmetric] by simp
  show "ad_fingerprint d = ''sha256:'' @ digest (canonical_payload d)"
    using arg_cong [OF eq, of ad_fingerprint] unfolding unchanged by simp
  show "sort (ad_callable_by d) = ad_callable_by d"
    using frozenset_sorted [of "ad_callable_by d"] unfolding fields(1) [symmetric] .
  show "valid_ref (definition_ref d)"
    using c(1) by (auto simp: AgentRef_valid definition_ref_def)
  show "validated_callers (ad_callable_by d) = Inr (ad_callable_by d)"
    using c(2) fields(1) by (simp add: validated_callers_Inr)
  show "(k, v) \<in> set (ad_semantic_digests d) \<Longrightarrow> is_sha256 v"
    using c(3) by (auto simp: validated_digests_Inr)
  show "validated_text (ad_description d) ''description'' 2048 = Inr ()"
    "validated_code (ad_data_classification d) ''data_classification'' = Inr ()"
    "validated_code (ad_side_effect_level d) ''side_effect_level'' = Inr ()"
    by (fact checks)+
qed

lemma map_PStr_inj: "map PStr xs = map PStr ys \<Longrightarrow> xs = ys"
  by (rule map_injective) (auto simp: inj_def)

lemma map_snd_PStr_inj:
  "map (\<lambda>(k, v). (k, PStr v)) xs = map (\<lambda>(k, v). (k, PStr v)) ys \<Longrightarrow> xs = ys"
  by (rule map_injective) (auto simp: inj_def)

lemma limits_payload_inj: "limits_payload l = limits_payload l' \<Longrightarrow> l = l'"
  by (cases l; cases l') (simp add: limits_payload_def)

lemma payload_inj:
  assumes "valid_definition digest d" and "valid_definition digest d'"
    and eq: "canonical_payload d = canonical_payload d'"
  shows "d = d'"
proof -
  note facts = valid_definition_facts [OF assms(1)] valid_definition_facts [OF assms(2)]
  have "ad_tool_refs d = ad_tool_refs d'" "ad_skill_refs d = ad_skill_refs d'"
    "ad_limits d = ad_limits d'" "ad_semantic_digests d = ad_semantic_digests d'"
    "map PStr (sort (ad_callable_by d)) = map PStr (sort (ad_callable_by d'))"
    using eq by (auto simp: canonical_payload_def intro: map_PStr_inj map_snd_PStr_inj limits_payload_inj)
  moreover from this(5) have "ad_callable_by d = ad_callable_by d'"
    using facts(2,10) map_PStr_inj by metis
  moreover have "ad_fingerprint d = ad_fingerprint d'" using facts(1,9) eq by simp
  ultimately show ?thesis using eq by (cases d; cases d') (simp add: canonical_payload_def)
qed

text \<open>
  The fingerprint pins a definition: if the digest has no collision among the canonical payloads
  of the definitions \<open>D\<close> in use, two accepted definitions of \<open>D\<close> with the same fingerprint agree in
  every field.
\<close>

theorem fingerprint_pins:
  assumes "inj_on digest (canonical_payload ` D)" and "d \<in> D" and "d' \<in> D"
    and "valid_definition digest d" and "valid_definition digest d'"
    and "ad_fingerprint d = ad_fingerprint d'"
  shows "d = d'"
proof (rule payload_inj [OF assms(4,5)])
  have "digest (canonical_payload d) = digest (canonical_payload d')"
    using valid_definition_facts(1) assms(4-6) by simp
  then show "canonical_payload d = canonical_payload d'"
    using assms(1-3) by (auto dest: inj_onD)
qed

end
