(* ===== verification/Agent_Registry.thy ===== *)
theory Agent_Registry
  imports Agent_Definitions "HOL-Library.Product_Lexorder"
begin

text \<open>
  The process-local registry of Agent definitions (\<^verbatim>\<open>moduagent/definitions/registry.py\<close>): exact
  version pinning, lifecycle transitions, endpoint rebinding, resolution and descriptors.  Every
  operation holds the registry's lock from beginning to end, so it is one state change.
\<close>

subsection \<open>Endpoints, descriptors and resolved endpoints\<close>

record 'h agent_endpoint =
  ep_handler :: "'h option"
  ep_kind :: string
  ep_supports_async :: bool
  ep_supports_stream :: bool
  ep_approved :: bool

definition check_endpoint :: "'h agent_endpoint \<Rightarrow> 'h agent_endpoint res" where
  "check_endpoint e =
     bindR (all_ok
       [require (ep_handler e \<noteq> None) (ValueError ''endpoint handler cannot be None''),
        validated_code (ep_kind e) ''endpoint kind'',
        require (ep_kind e \<in> set [''local'', ''remote''])
          (ValueError ''endpoint kind must be local or remote'')])
     (\<lambda>_. Inr e)"

record agent_descriptor =
  de_ref :: agent_ref
  de_description :: string
  de_input_contract_digest :: "string option"
  de_output_contract_digest :: "string option"
  de_side_effect_level :: string
  de_data_classification :: string
  de_callable_by :: "string list"
  de_supports_async :: bool
  de_supports_stream :: bool
  de_definition_fingerprint :: string
  de_status :: definition_status

definition check_descriptor :: "agent_descriptor \<Rightarrow> agent_descriptor res" where
  "check_descriptor d =
     bindR (all_ok
       [validated_text (de_description d) ''descriptor description'' 2048,
        require (case de_input_contract_digest d of None \<Rightarrow> True | Some s \<Rightarrow> is_sha256 s)
          (ValueError ''input_contract_digest must be a canonical sha256 value''),
        require (case de_output_contract_digest d of None \<Rightarrow> True | Some s \<Rightarrow> is_sha256 s)
          (ValueError ''output_contract_digest must be a canonical sha256 value'')]) (\<lambda>_.
     bindR (validated_callers (de_callable_by d)) (\<lambda>callers.
     bindR (all_ok
       [validated_code (de_side_effect_level d) ''descriptor side_effect_level'',
        validated_code (de_data_classification d) ''descriptor data_classification'',
        require (is_sha256 (de_definition_fingerprint d))
          (ValueError ''definition_fingerprint must be a canonical sha256 value'')])
     (\<lambda>_. Inr (d\<lparr>de_callable_by := callers\<rparr>))))"

record 'h resolved_endpoint =
  re_ref :: agent_ref
  re_definition :: agent_definition
  re_definition_fingerprint :: string
  re_endpoint :: "'h agent_endpoint"
  re_status :: definition_status

definition check_resolved :: "'h resolved_endpoint \<Rightarrow> 'h resolved_endpoint res" where
  "check_resolved r =
     bindR (all_ok
       [require (definition_ref (re_definition r) = re_ref r)
          (ValueError ''resolved definition does not match AgentRef''),
        require (ad_fingerprint (re_definition r) = re_definition_fingerprint r)
          (ValueError ''resolved definition fingerprint does not match'')])
     (\<lambda>_. Inr r)"

subsection \<open>The registry\<close>

record 'h registry_record =
  rr_definition :: agent_definition
  rr_endpoint :: "'h agent_endpoint"
  rr_status :: definition_status

type_synonym 'h registry = "(agent_ref, 'h registry_record) dict"

definition require_record :: "agent_ref \<Rightarrow> 'h registry \<Rightarrow> 'h registry_record res" where
  "require_record ref r = (case dget r ref of None \<Rightarrow> Inl AgentNotFoundError | Some x \<Rightarrow> Inr x)"

definition require_expected_fingerprint :: "'h registry_record \<Rightarrow> string option \<Rightarrow> unit res" where
  "require_expected_fingerprint x expected =
     require (expected = None \<or> expected = Some (ad_fingerprint (rr_definition x)))
       AgentDefinitionConflictError"

definition record_descriptor :: "'h registry_record \<Rightarrow> agent_descriptor res" where
  "record_descriptor x =
     (let d = rr_definition x in check_descriptor
       \<lparr>de_ref = definition_ref d, de_description = ad_description d,
        de_input_contract_digest = dget (ad_semantic_digests d) ''input_contract'',
        de_output_contract_digest = dget (ad_semantic_digests d) ''output_contract'',
        de_side_effect_level = ad_side_effect_level d,
        de_data_classification = ad_data_classification d,
        de_callable_by = ad_callable_by d,
        de_supports_async = ep_supports_async (rr_endpoint x),
        de_supports_stream = ep_supports_stream (rr_endpoint x),
        de_definition_fingerprint = ad_fingerprint d,
        de_status = rr_status x\<rparr>)"

definition record_resolved :: "agent_ref \<Rightarrow> 'h registry_record \<Rightarrow> 'h resolved_endpoint res" where
  "record_resolved ref x = check_resolved
     \<lparr>re_ref = ref, re_definition = rr_definition x,
      re_definition_fingerprint = ad_fingerprint (rr_definition x),
      re_endpoint = rr_endpoint x, re_status = rr_status x\<rparr>"

definition register ::
  "agent_definition \<Rightarrow> 'h agent_endpoint \<Rightarrow> definition_status \<Rightarrow> ('h registry, unit) prog" where
  "register d e st = (\<lambda>r.
     if dget r (definition_ref d) \<noteq> None then (Inl AgentDefinitionConflictError, r)
     else (Inr (), dset (definition_ref d) \<lparr>rr_definition = d, rr_endpoint = e, rr_status = st\<rparr> r))"

definition transition ::
  "agent_ref \<Rightarrow> definition_status \<Rightarrow> string option \<Rightarrow> ('h registry, agent_descriptor) prog" where
  "transition ref target expected = (\<lambda>r. case require_record ref r of
     Inl e \<Rightarrow> (Inl e, r)
   | Inr x \<Rightarrow> (case require_expected_fingerprint x expected of
       Inl e \<Rightarrow> (Inl e, r)
     | Inr _ \<Rightarrow> (case validate_lifecycle_transition (rr_status x) target of
         Inl e \<Rightarrow> (Inl e, r)
       | Inr _ \<Rightarrow> (let x' = x\<lparr>rr_status := target\<rparr> in (record_descriptor x', dset ref x' r)))))"

definition rebind_endpoint ::
  "agent_ref \<Rightarrow> 'h agent_endpoint \<Rightarrow> string \<Rightarrow> ('h registry, 'h resolved_endpoint) prog" where
  "rebind_endpoint ref e expected = (\<lambda>r. case require_record ref r of
     Inl er \<Rightarrow> (Inl er, r)
   | Inr x \<Rightarrow> (case require_expected_fingerprint x (Some expected) of
       Inl er \<Rightarrow> (Inl er, r)
     | Inr _ \<Rightarrow> (let x' = x\<lparr>rr_endpoint := e\<rparr> in (record_resolved ref x', dset ref x' r))))"

definition resolve :: "agent_ref \<Rightarrow> 'h registry \<Rightarrow> 'h resolved_endpoint res" where
  "resolve ref r = bindR (require_record ref r) (\<lambda>x.
     if \<not> runnable_in_production (rr_status x) then Inl AgentDefinitionNotRunnableError
     else record_resolved ref x)"

definition resolve_registered :: "agent_ref \<Rightarrow> 'h registry \<Rightarrow> 'h resolved_endpoint res" where
  "resolve_registered ref r = bindR (require_record ref r) (record_resolved ref)"

definition descriptor :: "agent_ref \<Rightarrow> 'h registry \<Rightarrow> agent_descriptor res" where
  "descriptor ref r = bindR (require_record ref r) record_descriptor"

definition descriptors :: "string option \<Rightarrow> 'h registry \<Rightarrow> agent_descriptor list res" where
  "descriptors i r =
     bindR (case i of None \<Rightarrow> Inr () | Some a \<Rightarrow> bindR (AgentRef a ''0.0.0'') (\<lambda>_. Inr ())) (\<lambda>_.
     mapR (\<lambda>(_, x). record_descriptor x)
       (sort_key (\<lambda>(ref, _). (agent_id ref, version ref))
         (filter (\<lambda>(ref, _). case i of None \<Rightarrow> True | Some a \<Rightarrow> agent_id ref = a) r)))"

subsection \<open>Well-formed registries and their steps\<close>

definition record_ok :: "((string, pyval) dict \<Rightarrow> string) \<Rightarrow> agent_ref \<Rightarrow> 'h registry_record \<Rightarrow> bool" where
  "record_ok digest ref x \<longleftrightarrow>
     valid_definition digest (rr_definition x) \<and> definition_ref (rr_definition x) = ref"

definition registry_ok :: "((string, pyval) dict \<Rightarrow> string) \<Rightarrow> 'h registry \<Rightarrow> bool" where
  "registry_ok digest r \<longleftrightarrow> dwf r \<and> (\<forall>(ref, x) \<in> set r. record_ok digest ref x)"

text \<open>The digest yields 64 hexadecimal digits, as \<^verbatim>\<open>hexdigest\<close> of SHA-256 does.\<close>

definition hex_digest :: "((string, pyval) dict \<Rightarrow> string) \<Rightarrow> bool" where
  "hex_digest digest \<longleftrightarrow> (\<forall>p. is_sha256 (''sha256:'' @ digest p))"

inductive registry_step ::
  "((string, pyval) dict \<Rightarrow> string) \<Rightarrow> 'h registry \<Rightarrow> 'h registry \<Rightarrow> bool" for digest where
  step_register: "valid_definition digest d \<Longrightarrow> snd (register d e st r) = r' \<Longrightarrow>
     registry_step digest r r'"
| step_transition: "snd (transition ref target expected r) = r' \<Longrightarrow> registry_step digest r r'"
| step_rebind: "snd (rebind_endpoint ref e expected r) = r' \<Longrightarrow> registry_step digest r r'"

inductive_simps registry_step_iff: "registry_step digest r r'"

fun status_rank :: "definition_status \<Rightarrow> nat" where
  "status_rank DRAFT = 0"
| "status_rank REVIEWED = 1"
| "status_rank APPROVED = 2"
| "status_rank STAGED = 3"
| "status_rank ACTIVE = 4"
| "status_rank DEPRECATED = 5"
| "status_rank RETIRED = 6"

lemma lifecycle_rank: "lifecycle_next s = Some t \<Longrightarrow> status_rank t = status_rank s + 1"
  by (cases s) auto

text \<open>What the operations do to a record: nothing, the next status, or another endpoint.\<close>

definition record_le :: "'h registry_record \<Rightarrow> 'h registry_record \<Rightarrow> bool" where
  "record_le x x' \<longleftrightarrow> rr_definition x' = rr_definition x \<and>
     status_rank (rr_status x) \<le> status_rank (rr_status x')"

lemma record_le_refl [simp]: "record_le x x"
  by (simp add: record_le_def)

lemma record_le_trans: "record_le x y \<Longrightarrow> record_le y z \<Longrightarrow> record_le x z"
  by (auto simp: record_le_def)

lemma transition_cases:
  "snd (transition ref target expected r) = r \<or>
   (\<exists>x. dget r ref = Some x \<and> lifecycle_next (rr_status x) = Some target \<and>
      transition ref target expected r =
        (record_descriptor (x\<lparr>rr_status := target\<rparr>), dset ref (x\<lparr>rr_status := target\<rparr>) r))"
  by (auto simp: transition_def require_record_def validate_lifecycle_transition_def require_def Let_def
      split: option.split sum.split)

lemma rebind_cases:
  "snd (rebind_endpoint ref e expected r) = r \<or>
   (\<exists>x. dget r ref = Some x \<and>
      rebind_endpoint ref e expected r =
        (record_resolved ref (x\<lparr>rr_endpoint := e\<rparr>), dset ref (x\<lparr>rr_endpoint := e\<rparr>) r))"
  by (auto simp: rebind_endpoint_def require_record_def Let_def split: option.split sum.split)

lemma registry_put_ok:
  assumes "registry_ok digest r" and "record_ok digest ref x"
  shows "registry_ok digest (dset ref x r)"
  using assms set_dset_subset [of ref x r] unfolding registry_ok_def by fastforce

lemma registry_get_ok: "registry_ok digest r \<Longrightarrow> dget r ref = Some x \<Longrightarrow> record_ok digest ref x"
  by (auto simp: registry_ok_def dest!: map_of_SomeD)

lemma registry_step_ok:
  assumes "registry_step digest r r'" and "registry_ok digest r"
  shows "registry_ok digest r'"
  using assms
proof cases
  case (step_register d e st)
  then show ?thesis
    using assms(2) by (auto simp: register_def record_ok_def intro!: registry_put_ok split: if_splits)
next
  case (step_transition ref target expected)
  then show ?thesis
    using transition_cases [of ref target expected r] assms(2) registry_get_ok [OF assms(2)]
    by (auto simp: record_ok_def intro!: registry_put_ok)
next
  case (step_rebind ref e expected)
  then show ?thesis
    using rebind_cases [of ref e expected r] assms(2) registry_get_ok [OF assms(2)]
    by (auto simp: record_ok_def intro!: registry_put_ok)
qed

lemma registry_step_record:
  assumes "registry_step digest r r'" and x: "dget r ref = Some x"
  shows "\<exists>x'. dget r' ref = Some x' \<and> record_le x x'"
  using assms
proof cases
  case (step_register d e st)
  then show ?thesis using x by (auto simp: register_def dget_dset split: if_splits)
next
  case (step_transition ref' target expected)
  then show ?thesis
    using transition_cases [of ref' target expected r] x
    by (auto simp: dget_dset record_le_def dest!: lifecycle_rank)
next
  case (step_rebind ref' e expected)
  then show ?thesis
    using rebind_cases [of ref' e expected r] x by (auto simp: dget_dset record_le_def)
qed

lemma registry_steps_record:
  "(registry_step digest)\<^sup>*\<^sup>* r r' \<Longrightarrow> dget r ref = Some x \<Longrightarrow> \<exists>x'. dget r' ref = Some x' \<and> record_le x x'"
  by (induction rule: rtranclp_induct) (simp, meson record_le_trans registry_step_record)

lemma registry_steps_ok:
  "(registry_step digest)\<^sup>*\<^sup>* r r' \<Longrightarrow> registry_ok digest r \<Longrightarrow> registry_ok digest r'"
  by (induction rule: rtranclp_induct) (auto intro: registry_step_ok)

lemma record_resolved_ok:
  "record_ok digest ref x \<Longrightarrow> record_resolved ref x = Inr
     \<lparr>re_ref = ref, re_definition = rr_definition x,
      re_definition_fingerprint = ad_fingerprint (rr_definition x),
      re_endpoint = rr_endpoint x, re_status = rr_status x\<rparr>"
  by (simp add: record_resolved_def check_resolved_def record_ok_def bindR_Inr_iff)

lemma record_descriptor_ok:
  assumes ok: "record_ok digest ref x" and hex: "hex_digest digest"
  shows "record_descriptor x = Inr
     \<lparr>de_ref = ref, de_description = ad_description (rr_definition x),
      de_input_contract_digest = dget (ad_semantic_digests (rr_definition x)) ''input_contract'',
      de_output_contract_digest = dget (ad_semantic_digests (rr_definition x)) ''output_contract'',
      de_side_effect_level = ad_side_effect_level (rr_definition x),
      de_data_classification = ad_data_classification (rr_definition x),
      de_callable_by = ad_callable_by (rr_definition x),
      de_supports_async = ep_supports_async (rr_endpoint x),
      de_supports_stream = ep_supports_stream (rr_endpoint x),
      de_definition_fingerprint = ad_fingerprint (rr_definition x),
      de_status = rr_status x\<rparr>"
proof -
  have v: "valid_definition digest (rr_definition x)" using ok by (simp add: record_ok_def)
  note facts = valid_definition_facts [OF v]
  have "is_sha256 (ad_fingerprint (rr_definition x))" using facts(1) hex by (simp add: hex_digest_def)
  moreover have "case dget (ad_semantic_digests (rr_definition x)) k of None \<Rightarrow> True
      | Some s \<Rightarrow> is_sha256 s" for k
    using facts(8) by (auto split: option.split dest!: map_of_SomeD)
  ultimately show ?thesis
    using facts(4,5,6,7) ok
    by (simp add: record_descriptor_def check_descriptor_def Let_def bindR_Inr_iff record_ok_def)
qed

subsection \<open>Properties\<close>

lemma resolve_eq:
  assumes "registry_ok digest r"
  shows "resolve ref r = (case dget r ref of
      None \<Rightarrow> Inl AgentNotFoundError
    | Some x \<Rightarrow>
        if rr_status x \<in> {APPROVED, ACTIVE} then Inr
          \<lparr>re_ref = ref, re_definition = rr_definition x,
           re_definition_fingerprint = ad_fingerprint (rr_definition x),
           re_endpoint = rr_endpoint x, re_status = rr_status x\<rparr>
        else Inl AgentDefinitionNotRunnableError)"
proof -
  have "runnable_in_production s \<longleftrightarrow> s \<in> {APPROVED, ACTIVE}" for s by (cases s) auto
  then show ?thesis
    using record_resolved_ok [OF registry_get_ok [OF assms]]
    by (cases "dget r ref") (auto simp: resolve_def require_record_def)
qed

text \<open>
  C11.  A version is pinned: once a reference resolves, every later resolution of it, after any
  sequence of registrations, transitions and rebindings, gives the same definition and fingerprint,
  and its status has only moved forward along the lifecycle.
\<close>

theorem registry_pins_definitions:
  assumes ok: "registry_ok digest r" and steps: "(registry_step digest)\<^sup>*\<^sup>* r r'"
    and first: "resolve ref r = Inr a" and later: "resolve ref r' = Inr b"
  shows "re_definition b = re_definition a \<and>
    re_definition_fingerprint b = re_definition_fingerprint a \<and>
    status_rank (re_status a) \<le> status_rank (re_status b)"
proof -
  obtain x where x: "dget r ref = Some x"
    using first by (cases "dget r ref") (auto simp: resolve_def require_record_def)
  obtain x' where x': "dget r' ref = Some x'" "record_le x x'"
    using registry_steps_record [OF steps x] by blast
  show ?thesis
    using first later x x' resolve_eq [OF ok] resolve_eq [OF registry_steps_ok [OF steps ok]]
    by (auto simp: record_le_def split: if_splits)
qed

text \<open>
  Deprecation is final: a version that has been deprecated or retired can never be resolved for
  a run again, whatever happens to the registry later.
\<close>

theorem registry_deprecated_final:
  assumes ok: "registry_ok digest r" and steps: "(registry_step digest)\<^sup>*\<^sup>* r r'"
    and x: "dget r ref = Some x" and old: "rr_status x \<in> {DEPRECATED, RETIRED}"
  shows "resolve ref r' = Inl AgentDefinitionNotRunnableError"
proof -
  obtain x' where x': "dget r' ref = Some x'" "record_le x x'"
    using registry_steps_record [OF steps x] by blast
  have "rr_status x' \<notin> {APPROVED, ACTIVE}"
    using x'(2) old by (cases "rr_status x'") (auto simp: record_le_def)
  then show ?thesis using resolve_eq [OF registry_steps_ok [OF steps ok]] x' by simp
qed

text \<open>
  A lifecycle transition either fails and leaves the registry as it is, or the reference is
  registered, the expected fingerprint (if given) is the one on record, the target is the one next
  status, exactly this record's status is changed and the descriptor returned shows it.
\<close>

theorem registry_transition_spec:
  assumes ok: "registry_ok digest r" and hex: "hex_digest digest"
  shows "case transition ref target expected r of
      (Inl e, r') \<Rightarrow> r' = r \<and>
        (dget r ref = None \<and> e = AgentNotFoundError \<or>
         (\<exists>x. dget r ref = Some x \<and> expected \<notin> {None, Some (ad_fingerprint (rr_definition x))} \<and>
            e = AgentDefinitionConflictError) \<or>
         (\<exists>x m. dget r ref = Some x \<and> lifecycle_next (rr_status x) \<noteq> Some target \<and> e = ValueError m))
    | (Inr d, r') \<Rightarrow> \<exists>x. dget r ref = Some x \<and> lifecycle_next (rr_status x) = Some target \<and>
        expected \<in> {None, Some (ad_fingerprint (rr_definition x))} \<and>
        r' = dset ref (x\<lparr>rr_status := target\<rparr>) r \<and>
        de_ref d = ref \<and> de_status d = target \<and>
        de_definition_fingerprint d = ad_fingerprint (rr_definition x)"
proof (cases "dget r ref")
  case None
  then show ?thesis by (simp add: transition_def require_record_def)
next
  case (Some x)
  have "record_ok digest ref (x\<lparr>rr_status := target\<rparr>)"
    using registry_get_ok [OF ok Some] by (simp add: record_ok_def)
  note desc = record_descriptor_ok [OF this hex]
  show ?thesis
    using Some desc
    by (simp add: transition_def require_record_def require_expected_fingerprint_def require_def
        validate_lifecycle_transition_def Let_def)
qed

subsection \<open>Concrete values\<close>

definition sample_digest :: "(string, pyval) dict \<Rightarrow> string" where
  "sample_digest p = replicate 64 (if dget p ''agent_id'' = Some (PStr ''worker'') then CHR ''a'' else CHR ''b'')"

definition sample_definition :: "string \<Rightarrow> agent_definition" where
  "sample_definition i =
     \<lparr>ad_agent_id = i, ad_version = ''1.0.0'', ad_description = ''An agent'',
      ad_instructions_ref = ''i/1'', ad_execution_profile = ''standard'', ad_model_route = ''m'',
      ad_tool_refs = [''t''], ad_skill_refs = [], ad_input_contract_ref = ''in'',
      ad_output_contract_ref = ''out'', ad_memory_policy_ref = ''mem'',
      ad_authorization_policy_ref = ''auth'', ad_data_classification = ''internal'',
      ad_side_effect_level = ''read'', ad_approval_requirement = ''none'',
      ad_callable_by = [''*''],
      ad_limits = \<lparr>rl_max_steps = 6, rl_max_tool_calls = 10, rl_timeout_seconds = 120,
        rl_parallel_tool_calls = False, rl_max_parallel_tools = 4, rl_max_step_attempts = 2,
        rl_max_replans = 2, rl_max_tool_repair_attempts = 1, rl_max_model_turns = 32,
        rl_no_progress_model_turn_threshold = 3\<rparr>,
      ad_semantic_digests = [],
      ad_fingerprint = ''sha256:'' @ replicate 64 (if i = ''worker'' then CHR ''a'' else CHR ''b'')\<rparr>"

lemma sample_definition_valid:
  "valid_definition sample_digest (sample_definition ''worker'')"
  "valid_definition sample_digest (sample_definition ''planner'')"
  by code_simp+

lemma sample_hex: "hex_digest sample_digest"
  by (auto simp: hex_digest_def is_sha256_def sample_digest_def list_all_iff)

theorem fingerprint_pins_witness:
  "inj_on sample_digest (canonical_payload ` {sample_definition ''worker'', sample_definition ''planner''}) \<and>
   ad_fingerprint (sample_definition ''worker'') \<noteq> ad_fingerprint (sample_definition ''planner'')"
proof -
  have inj: "inj_on sample_digest
      (canonical_payload ` {sample_definition ''worker'', sample_definition ''planner''})"
    by (simp add: sample_digest_def canonical_payload_def sample_definition_def)
  have "sample_definition ''worker'' \<noteq> sample_definition ''planner''"
    by (simp add: sample_definition_def)
  then show ?thesis
    using fingerprint_pins [OF inj _ _ sample_definition_valid] inj by auto
qed

definition worker_ref :: agent_ref where
  "worker_ref = \<lparr>agent_id = ''worker'', version = ''1.0.0''\<rparr>"

definition sample_registry :: "definition_status \<Rightarrow> unit registry" where
  "sample_registry st =
     [(worker_ref, \<lparr>rr_definition = sample_definition ''worker'',
       rr_endpoint = \<lparr>ep_handler = Some (), ep_kind = ''local'', ep_supports_async = True,
         ep_supports_stream = False, ep_approved = True\<rparr>, rr_status = st\<rparr>)]"

lemma sample_registry_ok: "registry_ok sample_digest (sample_registry st)"
  using sample_definition_valid
  by (simp add: registry_ok_def sample_registry_def record_ok_def definition_ref_def worker_ref_def
      sample_definition_def)

lemma sample_registry_step:
  "registry_step sample_digest (sample_registry APPROVED) (sample_registry STAGED)"
  "registry_step sample_digest (sample_registry STAGED) (sample_registry ACTIVE)"
  by (rule step_transition [of worker_ref STAGED None] step_transition [of worker_ref ACTIVE None],
      simp add: transition_def require_record_def require_expected_fingerprint_def Let_def
        validate_lifecycle_transition_def sample_registry_def; fail)+

theorem registry_pins_definitions_witness:
  "case resolve worker_ref (sample_registry APPROVED) of Inl e \<Rightarrow> False | Inr a \<Rightarrow>
   (case resolve worker_ref (sample_registry ACTIVE) of Inl e \<Rightarrow> False | Inr b \<Rightarrow>
     re_definition b = re_definition a \<and> re_status a = APPROVED \<and> re_status b = ACTIVE)"
proof -
  have steps: "(registry_step sample_digest)\<^sup>*\<^sup>* (sample_registry APPROVED) (sample_registry ACTIVE)"
    using sample_registry_step by (meson r_into_rtranclp rtranclp_trans)
  have runs: "resolve worker_ref (sample_registry st) = Inr
      \<lparr>re_ref = worker_ref, re_definition = sample_definition ''worker'',
       re_definition_fingerprint = ad_fingerprint (sample_definition ''worker''),
       re_endpoint = rr_endpoint (snd (hd (sample_registry st))), re_status = st\<rparr>"
    if "st \<in> {APPROVED, ACTIVE}" for st
    using resolve_eq [OF sample_registry_ok, of worker_ref st] that by (auto simp: sample_registry_def)
  show ?thesis
    using registry_pins_definitions [OF sample_registry_ok steps runs runs] by (simp add: runs)
qed

theorem registry_deprecated_final_witness:
  "resolve worker_ref (snd (transition worker_ref RETIRED None (sample_registry DEPRECATED))) =
     Inl AgentDefinitionNotRunnableError"
proof (rule registry_deprecated_final [OF sample_registry_ok])
  show "(registry_step sample_digest)\<^sup>*\<^sup>* (sample_registry DEPRECATED)
      (snd (transition worker_ref RETIRED None (sample_registry DEPRECATED)))"
    by (rule r_into_rtranclp, rule step_transition, rule refl)
  show "dget (sample_registry DEPRECATED) worker_ref = Some (snd (hd (sample_registry DEPRECATED)))"
    by (simp add: sample_registry_def)
  show "rr_status (snd (hd (sample_registry DEPRECATED))) \<in> {DEPRECATED, RETIRED}"
    by (simp add: sample_registry_def)
qed

theorem registry_transition_spec_witness:
  "hex_digest sample_digest \<and>
   (case transition worker_ref STAGED None (sample_registry APPROVED) of
      (Inl e, r') \<Rightarrow> False
    | (Inr d, r') \<Rightarrow> de_status d = STAGED \<and> resolve worker_ref r' = Inl AgentDefinitionNotRunnableError)"
proof -
  have "case transition worker_ref STAGED None (sample_registry APPROVED) of
      (Inl e, r') \<Rightarrow> False
    | (Inr d, r') \<Rightarrow> resolve worker_ref r' = Inl AgentDefinitionNotRunnableError" by code_simp
  then show ?thesis
    using registry_transition_spec [OF sample_registry_ok sample_hex, where target = STAGED and
        ref = worker_ref and expected = None and st1 = APPROVED]
      sample_hex
    by (auto split: prod.splits sum.splits)
qed

end
