(* ===== verification/Delegation_Guards.thy ===== *)
theory Delegation_Guards
  imports Agent_Registry Delegation_Models
begin

text \<open>
  The guards every delegation passes before child work starts
  (\<^verbatim>\<open>moduagent/delegation/guards.py\<close>): deny-by-default authorization over topology edges, with
  its two implementations, the cycle and depth guard, and the wrapper that turns a decision into a
  rejection.
\<close>

subsection \<open>Decisions and identity grants\<close>

record delegation_decision =
  dd_allowed :: bool
  dd_reason_code :: string

definition DelegationDecision :: "bool \<Rightarrow> string \<Rightarrow> delegation_decision res" where
  "DelegationDecision allowed reason =
     bindR (check_classification reason ''reason_code'')
     (\<lambda>_. Inr \<lparr>dd_allowed = allowed, dd_reason_code = reason\<rparr>)"

definition identity_grant :: "string list option \<Rightarrow> string \<Rightarrow> string list option res" where
  "identity_grant values name = (case values of None \<Rightarrow> Inr None
     | Some vs \<Rightarrow>
         let result = frozenset vs in
         bindR (require (result \<noteq> []) (ValueError (name @ '' cannot be empty; omit it for no restriction'')))
         (\<lambda>_. bindR (all_ok (map (\<lambda>v. check_classification v (name @ '' item'')) result))
         (\<lambda>_. Inr (Some result))))"

subsection \<open>The two authorizers\<close>

record edge_authorizer =
  ea_allowed_edges :: "(agent_ref \<times> agent_ref) list"
  ea_allowed_tenants :: "string list option"
  ea_allowed_principals :: "string list option"

definition EdgeDelegationAuthorizer ::
  "(agent_ref \<times> agent_ref) list \<Rightarrow> string list option \<Rightarrow> string list option \<Rightarrow> edge_authorizer res" where
  "EdgeDelegationAuthorizer edges tenants principals =
     bindR (identity_grant tenants ''allowed_tenants'') (\<lambda>ts.
     bindR (identity_grant principals ''allowed_principals'') (\<lambda>ps.
       Inr \<lparr>ea_allowed_edges = remdups edges, ea_allowed_tenants = ts, ea_allowed_principals = ps\<rparr>))"

definition edge_authorize ::
  "edge_authorizer \<Rightarrow> agent_ref \<Rightarrow> agent_ref \<Rightarrow> agent_descriptor \<Rightarrow> parent_delegation_context \<Rightarrow> string \<Rightarrow>
   delegation_decision res" where
  "edge_authorize a caller callee desc parent classification =
     (if (caller, callee) \<notin> set (ea_allowed_edges a)
      then DelegationDecision False ''delegation_edge_denied''
      else if \<not> (case ea_allowed_tenants a of None \<Rightarrow> True | Some ts \<Rightarrow> pc_tenant parent \<in> set ts)
      then DelegationDecision False ''delegation_tenant_denied''
      else if \<not> (case ea_allowed_principals a of None \<Rightarrow> True | Some ps \<Rightarrow> pc_principal parent \<in> set ps)
      then DelegationDecision False ''delegation_principal_denied''
      else if de_callable_by desc \<noteq> [] \<and>
        \<not> (''*'' \<in> set (de_callable_by desc) \<or> agent_id caller \<in> set (de_callable_by desc))
      then DelegationDecision False ''delegation_caller_denied''
      else if classification \<noteq> de_data_classification desc
      then DelegationDecision False ''delegation_classification_denied''
      else DelegationDecision True ''delegation_allowed'')"

record delegation_policy =
  dp_allowed_edges :: "(string, string list) dict"
  dp_allowed_tenants :: "string list option"
  dp_allowed_principals :: "string list option"

definition DelegationPolicy ::
  "(string, string list) dict \<Rightarrow> string list option \<Rightarrow> string list option \<Rightarrow> delegation_policy res" where
  "DelegationPolicy edges tenants principals =
     bindR (mapR (\<lambda>(caller, callees).
       bindR (check_classification caller ''allowed_edges caller'') (\<lambda>_.
       bindR (all_ok (map (\<lambda>c. check_classification c ''allowed_edges callee'') (frozenset callees)))
       (\<lambda>_. Inr (caller, frozenset callees)))) edges) (\<lambda>normalized.
     bindR (identity_grant tenants ''allowed_tenants'') (\<lambda>ts.
     bindR (identity_grant principals ''allowed_principals'') (\<lambda>ps.
       Inr \<lparr>dp_allowed_edges = normalized, dp_allowed_tenants = ts, dp_allowed_principals = ps\<rparr>)))"

definition policy_authorize ::
  "delegation_policy \<Rightarrow> agent_ref \<Rightarrow> agent_ref \<Rightarrow> agent_descriptor \<Rightarrow> parent_delegation_context \<Rightarrow> string \<Rightarrow>
   delegation_decision res" where
  "policy_authorize a caller callee desc parent classification =
     (if agent_id callee \<notin> set (dget_or (dp_allowed_edges a) (agent_id caller) [])
      then DelegationDecision False ''delegation_edge_denied''
      else if \<not> (case dp_allowed_tenants a of None \<Rightarrow> True | Some ts \<Rightarrow> pc_tenant parent \<in> set ts)
      then DelegationDecision False ''delegation_tenant_denied''
      else if \<not> (case dp_allowed_principals a of None \<Rightarrow> True | Some ps \<Rightarrow> pc_principal parent \<in> set ps)
      then DelegationDecision False ''delegation_principal_denied''
      else if de_callable_by desc \<noteq> [] \<and>
        \<not> (''*'' \<in> set (de_callable_by desc) \<or> agent_id caller \<in> set (de_callable_by desc))
      then DelegationDecision False ''delegation_caller_denied''
      else if classification \<noteq> de_data_classification desc
      then DelegationDecision False ''delegation_classification_denied''
      else DelegationDecision True ''delegation_allowed'')"

subsection \<open>Cycle guard and the wrapper\<close>

definition cycle_guard :: "run_lineage \<Rightarrow> agent_ref \<Rightarrow> execution_group_limits \<Rightarrow> unit res" where
  "cycle_guard lineage callee limits = all_ok
     [require (ref_str callee \<notin> set (ln_agent_path lineage))
        (DelegationRejected ''delegation_cycle_detected'' False),
      require (ln_depth lineage + 1 \<le> max_depth limits)
        (DelegationRejected ''delegation_depth_exceeded'' False)]"

text \<open>
  \<open>authorizer\<close> is the call with its arguments; \<^term>\<open>None\<close> stands for a result that is no
  \<^verbatim>\<open>DelegationDecision\<close>.
\<close>

definition authorize_or_reject :: "('w, delegation_decision option) prog \<Rightarrow> ('w, unit) prog" where
  "authorize_or_reject authorizer =
     bindP (catchP authorizer (\<lambda>e. case e of
         DelegationRejected c u \<Rightarrow> raise e
       | _ \<Rightarrow> if is_exception e then raise (DelegationRejected ''delegation_authorizer_failed'' True)
              else raise e))
     (\<lambda>decision. case decision of
        None \<Rightarrow> raise (DelegationRejected ''delegation_authorizer_protocol_error'' True)
      | Some d \<Rightarrow> if dd_allowed d then ret () else raise (DelegationRejected (dd_reason_code d) True))"

subsection \<open>The authorizer interface\<close>

text \<open>
  What the coordinator relies on: an authorizer that always decides, and whose positive decisions
  are the permitted requests.
\<close>

locale deciding_authorizer =
  fixes authorize :: "agent_ref \<Rightarrow> agent_ref \<Rightarrow> agent_descriptor \<Rightarrow> parent_delegation_context \<Rightarrow> string \<Rightarrow>
      delegation_decision res"
    and permitted :: "agent_ref \<Rightarrow> agent_ref \<Rightarrow> agent_descriptor \<Rightarrow> parent_delegation_context \<Rightarrow> string \<Rightarrow> bool"
  assumes decides: "\<exists>d. authorize caller callee desc parent c = Inr d \<and>
      (dd_allowed d \<longleftrightarrow> permitted caller callee desc parent c)"
begin

lemma rejects_unless_permitted:
  "authorize_or_reject (ofR (bindR (authorize caller callee desc parent c) (\<lambda>d. Inr (Some d)))) w =
     (if permitted caller callee desc parent c then (Inr (), w)
      else (Inl (DelegationRejected (case authorize caller callee desc parent c of
                                       Inl e \<Rightarrow> [] | Inr d \<Rightarrow> dd_reason_code d) True), w))"
proof -
  obtain d where "authorize caller callee desc parent c = Inr d"
    "dd_allowed d \<longleftrightarrow> permitted caller callee desc parent c" using decides by blast
  then show ?thesis by (simp add: authorize_or_reject_def run_simps)
qed

end

definition scope_permits ::
  "string list option \<Rightarrow> string list option \<Rightarrow> agent_ref \<Rightarrow> agent_descriptor \<Rightarrow> parent_delegation_context \<Rightarrow>
   string \<Rightarrow> bool" where
  "scope_permits tenants principals caller desc parent c \<longleftrightarrow>
     (\<forall>ts. tenants = Some ts \<longrightarrow> pc_tenant parent \<in> set ts) \<and>
     (\<forall>ps. principals = Some ps \<longrightarrow> pc_principal parent \<in> set ps) \<and>
     (de_callable_by desc = [] \<or> ''*'' \<in> set (de_callable_by desc) \<or>
      agent_id caller \<in> set (de_callable_by desc)) \<and>
     c = de_data_classification desc"

lemma decision_codes:
  "DelegationDecision b ''delegation_edge_denied'' = Inr \<lparr>dd_allowed = b, dd_reason_code = ''delegation_edge_denied''\<rparr>"
  "DelegationDecision b ''delegation_tenant_denied'' = Inr \<lparr>dd_allowed = b, dd_reason_code = ''delegation_tenant_denied''\<rparr>"
  "DelegationDecision b ''delegation_principal_denied'' = Inr \<lparr>dd_allowed = b, dd_reason_code = ''delegation_principal_denied''\<rparr>"
  "DelegationDecision b ''delegation_caller_denied'' = Inr \<lparr>dd_allowed = b, dd_reason_code = ''delegation_caller_denied''\<rparr>"
  "DelegationDecision b ''delegation_classification_denied'' = Inr \<lparr>dd_allowed = b, dd_reason_code = ''delegation_classification_denied''\<rparr>"
  "DelegationDecision b ''delegation_allowed'' = Inr \<lparr>dd_allowed = b, dd_reason_code = ''delegation_allowed''\<rparr>"
  unfolding DelegationDecision_def bindR_Inr_iff by (simp_all, code_simp+)

interpretation edge: deciding_authorizer "edge_authorize a"
  "\<lambda>caller callee desc parent c. (caller, callee) \<in> set (ea_allowed_edges a) \<and>
     scope_permits (ea_allowed_tenants a) (ea_allowed_principals a) caller desc parent c" for a
  by unfold_locales (auto simp: edge_authorize_def scope_permits_def decision_codes split: option.split)

interpretation policy: deciding_authorizer "policy_authorize a"
  "\<lambda>caller callee desc parent c.
     agent_id callee \<in> set (dget_or (dp_allowed_edges a) (agent_id caller) []) \<and>
     scope_permits (dp_allowed_tenants a) (dp_allowed_principals a) caller desc parent c" for a
  by unfold_locales (auto simp: policy_authorize_def scope_permits_def decision_codes split: option.split)

subsection \<open>Properties\<close>

text \<open>
  Delegation is denied by default: an edge authorizer lets a delegation pass exactly when the
  edge is listed, tenant and principal are granted (where there are grants), the callee may be
  called by the caller and the request has the callee's classification; everything else is
  rejected as unauthorized before any work starts, and the state is left alone.
\<close>

theorem edge_authorizer_denies_by_default:
  "authorize_or_reject (ofR (bindR (edge_authorize a caller callee desc parent c) (\<lambda>d. Inr (Some d)))) w =
     (if (caller, callee) \<in> set (ea_allowed_edges a) \<and>
         scope_permits (ea_allowed_tenants a) (ea_allowed_principals a) caller desc parent c
      then (Inr (), w)
      else (Inl (DelegationRejected (case edge_authorize a caller callee desc parent c of
                                       Inl e \<Rightarrow> [] | Inr d \<Rightarrow> dd_reason_code d) True), w))"
  by (rule edge.rejects_unless_permitted)

text \<open>
  The version-independent policy denies by default in the same sense: what is listed are pairs of
  Agent IDs.
\<close>

theorem policy_denies_by_default:
  "authorize_or_reject (ofR (bindR (policy_authorize a caller callee desc parent c) (\<lambda>d. Inr (Some d)))) w =
     (if agent_id callee \<in> set (dget_or (dp_allowed_edges a) (agent_id caller) []) \<and>
         scope_permits (dp_allowed_tenants a) (dp_allowed_principals a) caller desc parent c
      then (Inr (), w)
      else (Inl (DelegationRejected (case policy_authorize a caller callee desc parent c of
                                       Inl e \<Rightarrow> [] | Inr d \<Rightarrow> dd_reason_code d) True), w))"
  by (rule policy.rejects_unless_permitted)

lemma cycle_guard_Inr:
  "cycle_guard l callee m = Inr u \<longleftrightarrow>
     ref_str callee \<notin> set (ln_agent_path l) \<and> ln_depth l + 1 \<le> max_depth m"
  by (simp add: cycle_guard_def)

text \<open>
  What the cycle guard accepts can be delegated: a callee that passes it extends the caller's
  lineage, and the child's lineage is acyclic and within the depth limit.
\<close>

theorem cycle_guard_child:
  assumes "cycle_guard l callee m = Inr ()" and l: "valid_lineage l"
    and c: "valid_ref callee" "is_identifier (agent_id callee)"
    and ids: "is_identifier run_id" "is_identifier delegation_id" "is_identifier call_id"
  shows "\<exists>l'. lineage_child l callee run_id delegation_id call_id = Inr l' \<and>
     distinct (ln_agent_path l') \<and> ln_depth l' \<le> max_depth m \<and>
     int (length (ln_agent_path l')) = ln_depth l' + 1"
proof -
  have guard: "ref_str callee \<notin> set (ln_agent_path l)" "ln_depth l + 1 \<le> max_depth m"
    using assms(1) by (simp_all add: cycle_guard_Inr)
  obtain l' where l': "lineage_child l callee run_id delegation_id call_id = Inr l'"
    using lineage_child_accepted [OF l c ids guard(1)] by blast
  then have v: "valid_lineage l'" and "ln_depth l' = ln_depth l + 1"
    unfolding lineage_child_def by (auto dest!: check_lineage_Inr)
  then show ?thesis using l' guard(2) valid_lineage_facts [OF v] by auto
qed

theorem cycle_guard_child_witness:
  "cycle_guard sample_lineage sample_child \<lparr>max_depth = 1, max_delegations = 2,
     max_parallel_delegations = 1, max_delegations_per_agent = 2, max_total_model_turns = 4,
     max_total_tool_calls = 3, timeout_seconds = 1\<rparr> = Inr () \<and>
   (\<exists>l'. lineage_child sample_lineage sample_child ''run:1'' ''dlg:1'' ''call-1'' = Inr l' \<and>
      ln_depth l' \<le> 1)"
proof -
  let ?m = "\<lparr>max_depth = 1, max_delegations = 2, max_parallel_delegations = 1,
     max_delegations_per_agent = 2, max_total_model_turns = 4, max_total_tool_calls = 3,
     timeout_seconds = 1\<rparr> :: execution_group_limits"
  have ids: "is_identifier ''run:1''" "is_identifier ''dlg:1''" "is_identifier ''call-1''"
    by code_simp+
  have g: "cycle_guard sample_lineage sample_child ?m = Inr ()"
    by (simp add: cycle_guard_Inr sample_lineage_def sample_child_def ref_str_def)
  show ?thesis
    using cycle_guard_child [OF g sample_lineage_valid sample_child_valid ids] g by auto
qed

end
