(* ===== verification/Receipts.thy ===== *)
theory Receipts
  imports Budget_Steps Agent_Definitions
begin

text \<open>
  Delegation receipts (\<^verbatim>\<open>moduagent/delegation/receipts.py\<close>): the durable record of a delegation, its
  store, the transition loop of the receipt manager and the decision what a repeated request does.
  The in-memory store copies values in and out, which the value semantics of the model already does.
\<close>

subsection \<open>Receipts\<close>

datatype receipt_status =
  R_RESERVED | R_RUNNING | R_COMPLETED | R_FAILED | R_CANCELLED | R_MANUAL_REQUIRED

definition terminal_receipt_states :: "receipt_status list" where
  "terminal_receipt_states = [R_COMPLETED, R_FAILED, R_CANCELLED, R_MANUAL_REQUIRED]"

record delegation_receipt =
  rc_delegation_id :: string
  rc_execution_group_id :: string
  rc_root_run_id :: string
  rc_parent_run_id :: string
  rc_parent_tool_call_id :: string
  rc_caller_agent_ref :: agent_ref
  rc_callee_agent_ref :: agent_ref
  rc_child_run_id :: string
  rc_request_digest :: string
  rc_context_digest :: string
  rc_attempt :: int
  rc_owner_token :: "string option"
  rc_status :: receipt_status
  rc_finish_reason :: "string option"
  rc_retryable :: bool
  rc_resumable :: bool
  rc_result_digest :: "string option"
  rc_result_payload :: "(string, pyval) dict option"
  rc_result_ref :: "string option"
  rc_error_code :: "string option"
  rc_lease_id :: "string option"
  rc_revision :: int

definition check_receipt :: "delegation_receipt \<Rightarrow> delegation_receipt res" where
  "check_receipt r =
     bindR (all_ok
       [check_identifier (rc_delegation_id r) ''delegation_id'',
        check_identifier (rc_execution_group_id r) ''execution_group_id'',
        check_identifier (rc_root_run_id r) ''root_run_id'',
        check_identifier (rc_parent_run_id r) ''parent_run_id'',
        check_identifier (rc_parent_tool_call_id r) ''parent_tool_call_id'',
        check_identifier (rc_child_run_id r) ''child_run_id'',
        require (is_sha256 (rc_request_digest r)) (ValueError ''request_digest must use sha256''),
        require (take 4 (rc_context_digest r) = ''ctx:'')
          (ValueError ''context_digest must use the opaque context namespace''),
        check_identifier (rc_context_digest r) ''context_digest'',
        require (1 \<le> rc_attempt r) (ValueError ''attempt must be a positive integer''),
        opt_check check_identifier (rc_owner_token r) ''owner_token'',
        opt_check check_classification (rc_finish_reason r) ''finish_reason'',
        opt_check check_classification (rc_error_code r) ''error_code'',
        opt_check check_identifier (rc_result_ref r) ''result_ref'',
        opt_check check_identifier (rc_lease_id r) ''lease_id'',
        require (1 \<le> rc_revision r) (ValueError ''revision must be a positive integer''),
        require (case rc_result_digest r of None \<Rightarrow> True | Some s \<Rightarrow> is_sha256 s)
          (ValueError ''result_digest must use sha256''),
        if rc_status r = R_COMPLETED then all_ok
          [require (rc_result_digest r \<noteq> None) (ValueError ''completed receipt requires result_digest''),
           require (rc_result_payload r \<noteq> None \<or> rc_result_ref r \<noteq> None)
             (ValueError ''completed receipt requires a payload or result_ref''),
           require (rc_error_code r = None) (ValueError ''completed receipt cannot contain error_code'')]
        else require (rc_result_payload r = None \<and> rc_result_digest r = None)
          (ValueError ''only completed receipts may contain a result''),
        require (\<not> (rc_status r \<in> {R_RESERVED, R_RUNNING} \<and> rc_owner_token r = None))
          (ValueError ''reserved and running receipts require owner_token''),
        require (\<not> (rc_status r = R_MANUAL_REQUIRED \<and> rc_retryable r))
          (ValueError ''manual_required receipt cannot be retryable'')])
     (\<lambda>_. Inr r)"

subsection \<open>The store\<close>

record delegation_world = budget_world +
  receipts :: "string \<Rightarrow> delegation_receipt option"

definition receipt_get ::
  "'a delegation_world_scheme env \<Rightarrow> string \<Rightarrow> ('a delegation_world_scheme, delegation_receipt option) prog" where
  "receipt_get E i = (\<lambda>w. let w' = await E w in (Inr (receipts w' i), w'))"

text \<open>The claim returns the receipt on record and whether it is the one just stored.\<close>

definition receipt_claim ::
  "'a delegation_world_scheme env \<Rightarrow> delegation_receipt \<Rightarrow>
   ('a delegation_world_scheme, delegation_receipt \<times> bool) prog" where
  "receipt_claim E r = (\<lambda>w.
     if rc_status r \<noteq> R_RESERVED then (Inl (ValueError ''new receipt must be reserved''), w)
     else let w' = await E w in
       case receipts w' (rc_delegation_id r) of
         None \<Rightarrow> (Inr (r, True), w'\<lparr>receipts := (receipts w')(rc_delegation_id r \<mapsto> r)\<rparr>)
       | Some current \<Rightarrow> (Inr (current, False), w'))"

definition receipt_cas ::
  "'a delegation_world_scheme env \<Rightarrow> string \<Rightarrow> int \<Rightarrow> delegation_receipt \<Rightarrow>
   ('a delegation_world_scheme, bool) prog" where
  "receipt_cas E i expected r = (\<lambda>w. let w' = await E w in
     case receipts w' i of
       None \<Rightarrow> (Inr False, w')
     | Some current \<Rightarrow>
         if rc_revision current \<noteq> expected then (Inr False, w')
         else if rc_delegation_id r \<noteq> i
         then (Inl (ValueError ''replacement receipt has a different ID''), w')
         else if rc_revision r \<noteq> expected + 1
         then (Inl (ValueError ''replacement receipt must increment revision once''), w')
         else (Inr True, w'\<lparr>receipts := (receipts w')(i \<mapsto> r)\<rparr>))"

subsection \<open>What a repeated request does\<close>

datatype receipt_action_kind =
  A_START | A_REPLAY | A_RECONCILE | A_RESUME | A_TERMINAL_FAILURE | A_TERMINAL_CANCELLED
  | A_MANUAL_REQUIRED

definition receipt_action :: "delegation_receipt \<Rightarrow> bool \<Rightarrow> bool \<Rightarrow> receipt_action_kind" where
  "receipt_action r created allow_resume =
     (if created then A_START
      else if rc_status r = R_COMPLETED then A_REPLAY
      else if rc_status r \<in> {R_RESERVED, R_RUNNING} then A_RECONCILE
      else if rc_status r = R_FAILED then
        (if rc_resumable r \<and> allow_resume then A_RESUME else A_TERMINAL_FAILURE)
      else if rc_status r = R_CANCELLED then A_TERMINAL_CANCELLED
      else A_MANUAL_REQUIRED)"

subsection \<open>Transitions\<close>

text \<open>
  The keyword arguments \<^verbatim>\<open>**changes\<close> of a transition, each field at most once.  The fields that say
  which delegation it is are not among those the program ever passes.
\<close>

datatype receipt_change =
    C_attempt int
  | C_owner_token "string option"
  | C_finish_reason "string option"
  | C_retryable bool
  | C_resumable bool
  | C_result_digest "string option"
  | C_result_payload "(string, pyval) dict option"
  | C_error_code "string option"
  | C_lease_id "string option"

fun apply_change :: "receipt_change \<Rightarrow> delegation_receipt \<Rightarrow> delegation_receipt" where
  "apply_change (C_attempt v) r = r\<lparr>rc_attempt := v\<rparr>"
| "apply_change (C_owner_token v) r = r\<lparr>rc_owner_token := v\<rparr>"
| "apply_change (C_finish_reason v) r = r\<lparr>rc_finish_reason := v\<rparr>"
| "apply_change (C_retryable v) r = r\<lparr>rc_retryable := v\<rparr>"
| "apply_change (C_resumable v) r = r\<lparr>rc_resumable := v\<rparr>"
| "apply_change (C_result_digest v) r = r\<lparr>rc_result_digest := v\<rparr>"
| "apply_change (C_result_payload v) r = r\<lparr>rc_result_payload := v\<rparr>"
| "apply_change (C_error_code v) r = r\<lparr>rc_error_code := v\<rparr>"
| "apply_change (C_lease_id v) r = r\<lparr>rc_lease_id := v\<rparr>"

fun change_holds :: "receipt_change \<Rightarrow> delegation_receipt \<Rightarrow> bool" where
  "change_holds (C_attempt v) r \<longleftrightarrow> rc_attempt r = v"
| "change_holds (C_owner_token v) r \<longleftrightarrow> rc_owner_token r = v"
| "change_holds (C_finish_reason v) r \<longleftrightarrow> rc_finish_reason r = v"
| "change_holds (C_retryable v) r \<longleftrightarrow> rc_retryable r = v"
| "change_holds (C_resumable v) r \<longleftrightarrow> rc_resumable r = v"
| "change_holds (C_result_digest v) r \<longleftrightarrow> rc_result_digest r = v"
| "change_holds (C_result_payload v) r \<longleftrightarrow> rc_result_payload r = v"
| "change_holds (C_error_code v) r \<longleftrightarrow> rc_error_code r = v"
| "change_holds (C_lease_id v) r \<longleftrightarrow> rc_lease_id r = v"

definition sets_owner :: "receipt_change \<Rightarrow> bool" where
  "sets_owner c = (case c of C_owner_token (Some _) \<Rightarrow> True | _ \<Rightarrow> False)"

definition sets_lease :: "receipt_change \<Rightarrow> bool" where
  "sets_lease c = (case c of C_lease_id (Some _) \<Rightarrow> True | _ \<Rightarrow> False)"

text \<open>One round of the loop on the receipt it has read; \<^term>\<open>None\<close> when nothing is to be written.\<close>

definition transition_update ::
  "receipt_status list \<Rightarrow> receipt_status \<Rightarrow> receipt_change list \<Rightarrow> delegation_receipt \<Rightarrow>
   (delegation_receipt option \<times> delegation_receipt) res" where
  "transition_update expected status changes current =
     (if rc_status current \<notin> set expected then
        (if rc_status current = status \<and> list_all (\<lambda>c. change_holds c current) changes
         then Inr (None, current)
         else Inl (ReceiptStoreError ''delegation_receipt_state_conflict''))
      else
        let restart = (rc_status current = R_FAILED \<and> rc_resumable current \<and> status = R_RESERVED) in
        bindR (if restart then all_ok
          [require (C_attempt (rc_attempt current + 1) \<in> set changes)
             (ReceiptStoreError ''delegation_receipt_attempt_invalid''),
           require (list_ex sets_owner changes) (ReceiptStoreError ''delegation_receipt_owner_invalid''),
           require (list_ex sets_lease changes) (ReceiptStoreError ''delegation_receipt_lease_invalid'')]
          else Inr ()) (\<lambda>_.
        bindR (require (\<not> (rc_status current \<in> set terminal_receipt_states \<and> \<not> restart))
          (ReceiptStoreError ''delegation_receipt_terminal'')) (\<lambda>_.
        bindR (check_receipt (fold apply_change changes
          (current\<lparr>rc_revision := rc_revision current + 1, rc_status := status\<rparr>))) (\<lambda>updated.
        Inr (Some updated, updated)))))"

primrec transition_loop ::
  "'a delegation_world_scheme env \<Rightarrow> nat \<Rightarrow> string \<Rightarrow> receipt_status list \<Rightarrow> receipt_status \<Rightarrow>
   receipt_change list \<Rightarrow> ('a delegation_world_scheme, delegation_receipt) prog" where
  "transition_loop E 0 i expected status changes =
     raise (ReceiptStoreError ''delegation_receipt_store_contention'')"
| "transition_loop E (Suc n) i expected status changes =
     bindP (receipt_get E i) (\<lambda>found. case found of
       None \<Rightarrow> raise (ReceiptStoreError ''delegation_receipt_not_found'')
     | Some current \<Rightarrow>
         bindP (ofR (transition_update expected status changes current)) (\<lambda>(updated, result).
         case updated of
           None \<Rightarrow> ret result
         | Some r \<Rightarrow>
             bindP (receipt_cas E i (rc_revision current) r) (\<lambda>swapped.
             if swapped then ret result
             else bindP (\<lambda>w. (Inr (), await E w)) (\<lambda>_.
               transition_loop E n i expected status changes))))"

definition mark_manual_required ::
  "'a delegation_world_scheme env \<Rightarrow> nat \<Rightarrow> delegation_receipt \<Rightarrow> string \<Rightarrow>
   ('a delegation_world_scheme, delegation_receipt) prog" where
  "mark_manual_required E n r error_code =
     transition_loop E n (rc_delegation_id r) [R_RESERVED, R_RUNNING] R_MANUAL_REQUIRED
       [C_retryable False, C_resumable False, C_error_code (Some error_code)]"

subsection \<open>Receipts as a versioned store\<close>

text \<open>What a transition may do to a receipt on record.\<close>

inductive receipt_step :: "delegation_receipt \<Rightarrow> delegation_receipt \<Rightarrow> bool" where
  "transition_update expected status changes r = Inr (Some r', x) \<Longrightarrow> receipt_step r r'"

inductive_cases receipt_stepE: "receipt_step r r'"

definition receipt_ok :: "string \<Rightarrow> delegation_receipt \<Rightarrow> bool" where
  "receipt_ok i r \<longleftrightarrow> check_receipt r = Inr r \<and> rc_delegation_id r = i"

definition fresh_receipt :: "string \<Rightarrow> delegation_receipt \<Rightarrow> bool" where
  "fresh_receipt i r \<longleftrightarrow> receipt_ok i r \<and> rc_status r = R_RESERVED"

text \<open>The fields that identify a delegation: no change touches them.\<close>

definition same_identity :: "delegation_receipt \<Rightarrow> delegation_receipt \<Rightarrow> bool" where
  "same_identity r r' \<longleftrightarrow>
     rc_delegation_id r' = rc_delegation_id r \<and>
     rc_execution_group_id r' = rc_execution_group_id r \<and> rc_root_run_id r' = rc_root_run_id r \<and>
     rc_parent_run_id r' = rc_parent_run_id r \<and>
     rc_parent_tool_call_id r' = rc_parent_tool_call_id r \<and>
     rc_caller_agent_ref r' = rc_caller_agent_ref r \<and>
     rc_callee_agent_ref r' = rc_callee_agent_ref r \<and> rc_child_run_id r' = rc_child_run_id r \<and>
     rc_request_digest r' = rc_request_digest r \<and> rc_context_digest r' = rc_context_digest r"

lemma same_identity_refl [simp]: "same_identity r r"
  by (simp add: same_identity_def)

lemma same_identity_trans: "same_identity a b \<Longrightarrow> same_identity b c \<Longrightarrow> same_identity a c"
  by (simp add: same_identity_def)

lemma apply_changes_frame:
  "same_identity r (fold apply_change cs r) \<and> rc_revision (fold apply_change cs r) = rc_revision r \<and>
     rc_status (fold apply_change cs r) = rc_status r \<and>
     rc_result_ref (fold apply_change cs r) = rc_result_ref r"
proof (induction cs arbitrary: r)
  case Nil
  then show ?case by simp
next
  case (Cons c cs)
  have "same_identity r (apply_change c r) \<and> rc_revision (apply_change c r) = rc_revision r \<and>
      rc_status (apply_change c r) = rc_status r \<and> rc_result_ref (apply_change c r) = rc_result_ref r"
    by (cases c) (simp_all add: same_identity_def)
  then show ?case using Cons [of "apply_change c r"] same_identity_trans by auto
qed

lemma check_receipt_same: "check_receipt r = Inr r' \<Longrightarrow> r' = r"
  by (auto simp: check_receipt_def bindR_Inr_iff)

lemma transition_update_Some:
  assumes "transition_update expected status changes r = Inr (Some r', x)"
  shows "x = r' \<and> rc_status r \<in> set expected \<and> rc_status r' = status \<and>
     rc_revision r' = rc_revision r + 1 \<and> same_identity r r' \<and> check_receipt r' = Inr r' \<and>
     r' = fold apply_change changes (r\<lparr>rc_revision := rc_revision r + 1, rc_status := status\<rparr>) \<and>
     (rc_status r \<in> set terminal_receipt_states \<longrightarrow>
        rc_status r = R_FAILED \<and> rc_resumable r \<and> status = R_RESERVED \<and>
        C_attempt (rc_attempt r + 1) \<in> set changes)"
proof -
  let ?r = "r\<lparr>rc_revision := rc_revision r + 1, rc_status := status\<rparr>"
  have "check_receipt (fold apply_change changes ?r) = Inr r'" "x = r'" "rc_status r \<in> set expected"
    and terminal: "rc_status r \<in> set terminal_receipt_states \<longrightarrow>
        rc_status r = R_FAILED \<and> rc_resumable r \<and> status = R_RESERVED \<and>
        C_attempt (rc_attempt r + 1) \<in> set changes"
    using assms by (auto simp: transition_update_def Let_def bindR_Inr_iff split: if_splits)
  moreover from this(1) have r': "r' = fold apply_change changes ?r" by (rule check_receipt_same)
  moreover have "same_identity r ?r" by (simp add: same_identity_def)
  ultimately show ?thesis
    using apply_changes_frame [of ?r changes] same_identity_trans [of r ?r] by auto
qed

lemma receipt_step_facts:
  assumes "receipt_step r r'"
  shows "rc_revision r' = rc_revision r + 1 \<and> same_identity r r' \<and> check_receipt r' = Inr r' \<and>
     (rc_status r \<in> set terminal_receipt_states \<longrightarrow>
        rc_status r = R_FAILED \<and> rc_resumable r \<and> rc_status r' = R_RESERVED)"
  using assms by cases (auto dest!: transition_update_Some)

definition put_receipt ::
  "string \<Rightarrow> delegation_receipt \<Rightarrow> 'a delegation_world_scheme \<Rightarrow> 'a delegation_world_scheme" where
  "put_receipt i r w = w\<lparr>receipts := (receipts w)(i \<mapsto> r)\<rparr>"

abbreviation receipt_pause :: "'a sched_scheme env \<Rightarrow> ('a sched_scheme, unit) prog" where
  "receipt_pause E \<equiv> (\<lambda>w. (Inr (), await E w))"

interpretation receipt_store: cas_store
  "receipts :: 'a delegation_world_scheme \<Rightarrow> string \<Rightarrow> delegation_receipt option"
  receipt_step fresh_receipt receipt_ok rc_revision "await E" put_receipt "receipt_get E"
  "receipt_cas E" "receipt_pause E" for E :: "'a delegation_world_scheme env"
proof
  fix w :: "'a delegation_world_scheme" and k n v c v'
  show "receipt_ok k v \<Longrightarrow> receipt_step v v' \<Longrightarrow> receipt_ok k v'"
    using receipt_step_facts [of v v'] by (auto simp: receipt_ok_def same_identity_def)
  show "receipt_ok k v \<Longrightarrow> receipt_step v v' \<Longrightarrow> rc_revision v' = rc_revision v + 1"
    using receipt_step_facts [of v v'] by simp
  show "fresh_receipt k v \<Longrightarrow> receipt_ok k v" by (simp add: fresh_receipt_def)
  show "receipt_get E k w = (Inr (receipts (await E w) k), await E w)"
    by (simp add: receipt_get_def Let_def)
  show "receipt_pause E w = (Inr (), await E w)" by simp
  show "(\<And>c. receipts (await E w) k = Some c \<Longrightarrow> rc_revision c \<noteq> n) \<Longrightarrow>
      receipt_cas E k n v w = (Inr False, await E w)"
    by (auto simp: receipt_cas_def Let_def split: option.split)
  show "receipts (await E w) k = Some c \<Longrightarrow> rc_revision c = n \<Longrightarrow> receipt_ok k c \<Longrightarrow> receipt_step c v \<Longrightarrow>
      receipt_cas E k n v w = (Inr True, put_receipt k v (await E w))"
    using receipt_step_facts [of c v]
    by (simp add: receipt_cas_def Let_def receipt_ok_def put_receipt_def same_identity_def)
  show "receipts (put_receipt k v w) = (receipts w)(k \<mapsto> v)" by (simp add: put_receipt_def)
qed

abbreviation receipt_rely ::
  "'a delegation_world_scheme \<Rightarrow> 'a delegation_world_scheme \<Rightarrow> bool" where
  "receipt_rely \<equiv> store_rely receipts receipt_step fresh_receipt receipt_ok"

abbreviation receipts_ok :: "'a delegation_world_scheme \<Rightarrow> bool" where
  "receipts_ok \<equiv> all_values receipts receipt_ok"

lemma receipts_tick [simp]: "receipts (w\<lparr>tick := n\<rparr>) = receipts (w :: 'a delegation_world_scheme)"
  by (cases w) simp

lemma receipt_rely_tick [simp]:
  fixes w w' :: "'a delegation_world_scheme"
  shows "store_rely receipts receipt_step fresh_receipt receipt_ok w (w'\<lparr>tick := n\<rparr>) \<longleftrightarrow>
    receipt_rely w w'"
  unfolding store_rely_def evolves_def receipts_tick by (rule refl)

lemma receipt_rely_await: "(\<And>n w. receipt_rely w (E n w)) \<Longrightarrow> receipt_rely w (await E w)"
  by (simp add: await_def)

lemma transition_cas_loop:
  "transition_loop E n i expected status changes =
     cas_loop (receipt_get E) (receipt_cas E) (receipt_pause E) rc_revision
       (ReceiptStoreError ''delegation_receipt_not_found'')
       (ReceiptStoreError ''delegation_receipt_store_contention'')
       n i (\<lambda>w. transition_update expected status changes)"
proof (induction n)
  case 0
  then show ?case by simp
next
  case (Suc n)
  show ?case unfolding transition_loop.simps(2) cas_loop.simps Suc ofR_def by (rule refl)
qed

declare transition_loop.simps(2) [simp del]

lemma update_is_step:
  "transition_update expected status changes c = Inr (Some v, x) \<Longrightarrow> receipt_ok i c \<Longrightarrow> receipt_step c v"
  by (rule receipt_step.intros)

lemma transition_guarantee:
  assumes "\<And>n w. receipt_rely w (E n w)"
  shows "receipt_rely w (snd (transition_loop E n i expected status changes w))"
  unfolding transition_cas_loop
  by (rule receipt_store.cas_loop_rely [OF receipt_rely_await [OF assms] update_is_step])

lemma transition_effect:
  assumes "\<And>n w. receipt_rely w (E n w)" and "receipts_ok w"
    and "transition_loop E n i expected status changes w = (r, w')"
  shows "receipt_store.loop_effect E (ReceiptStoreError ''delegation_receipt_not_found'')
    (ReceiptStoreError ''delegation_receipt_store_contention'') i
    (\<lambda>w. transition_update expected status changes) w r w'"
  by (rule receipt_store.cas_loop_effect [OF receipt_rely_await [OF assms(1)] update_is_step assms(2)
        assms(3) [unfolded transition_cas_loop]])

lemma claim_guarantee:
  assumes E: "\<And>n w. receipt_rely w (E n w)" and r: "check_receipt r = Inr r"
  shows "receipt_rely w (snd (receipt_claim E r w))"
proof (cases "rc_status r = R_RESERVED \<and> receipts (await E w) (rc_delegation_id r) = None")
  case True
  let ?w' = "put_receipt (rc_delegation_id r) r (await E w)"
  have "evolves receipts receipt_step fresh_receipt (await E w) ?w'"
    using True r by (intro receipt_store.evolves_create)
      (auto simp: put_receipt_def fresh_receipt_def receipt_ok_def)
  then have "receipt_rely (await E w) ?w'" by (simp add: store_rely_def)
  moreover have "snd (receipt_claim E r w) = ?w'"
    using True by (simp add: receipt_claim_def put_receipt_def Let_def)
  ultimately show ?thesis
    using transpD [OF receipt_store.keeps_trans receipt_rely_await [OF E]] by simp
next
  case False
  have refl: "receipt_rely w w" using receipt_store.keeps_refl by (rule reflpD)
  show ?thesis
  proof (cases "rc_status r = R_RESERVED")
    case True
    then obtain c where "receipts (await E w) (rc_delegation_id r) = Some c" using False by auto
    then show ?thesis using receipt_rely_await [OF E] True by (simp add: receipt_claim_def Let_def)
  qed (simp add: receipt_claim_def refl)
qed

subsection \<open>Properties\<close>

definition final_receipt :: "delegation_receipt \<Rightarrow> bool" where
  "final_receipt r \<longleftrightarrow> rc_status r \<in> {R_COMPLETED, R_CANCELLED, R_MANUAL_REQUIRED} \<or>
     (rc_status r = R_FAILED \<and> \<not> rc_resumable r)"

lemma final_no_step: "final_receipt r \<Longrightarrow> \<not> receipt_step r r'"
  using receipt_step_facts [of r r'] by (auto simp: final_receipt_def terminal_receipt_states_def)

lemma final_steps: "receipt_step\<^sup>*\<^sup>* r r' \<Longrightarrow> final_receipt r \<Longrightarrow> r' = r"
  by (induction rule: rtranclp_induct) (auto simp: final_no_step)

lemma receipt_steps_identity: "receipt_step\<^sup>*\<^sup>* r r' \<Longrightarrow> same_identity r r'"
  by (induction rule: rtranclp_induct) (auto dest!: receipt_step_facts intro: same_identity_trans)

lemma receipt_rely_steps:
  "receipt_rely w w' \<Longrightarrow> receipts_ok w \<Longrightarrow> receipts w i = Some r \<Longrightarrow>
     \<exists>r'. receipts w' i = Some r' \<and> receipt_step\<^sup>*\<^sup>* r r'"
  unfolding store_rely_def by (blast dest: receipt_store.evolves_Some)

text \<open>
  What the tasks of a process do to the store, one atomic step at a time: a task reads a receipt and works
  out its transition; the compare-and-swap of that transition takes effect at any later time, also after
  others, also twice; a task claims a receipt; or something else than a receipt changes.  The set holds the calls
  of \<^verbatim>\<open>compare_and_swap\<close> under way, each with the revision its task has read.
\<close>

inductive receipt_task_step ::
  "'a delegation_world_scheme \<times> (string \<times> int \<times> delegation_receipt) set \<Rightarrow>
   'a delegation_world_scheme \<times> (string \<times> int \<times> delegation_receipt) set \<Rightarrow> bool" where
  elsewhere: "receipts w' = receipts w \<Longrightarrow> receipt_task_step (w, calls) (w', calls)"
| claims: "receipt_task_step (w, calls) (snd (receipt_claim quiet r w), calls)"
| reads: "receipt_get quiet i w = (Inr (Some c), w') \<Longrightarrow> transition_update expected status changes c = Inr (Some r, x) \<Longrightarrow>
    receipt_task_step (w, calls) (w', insert (i, rc_revision c, r) calls)"
| swaps: "(i, n, r) \<in> calls \<Longrightarrow> receipt_task_step (w, calls) (snd (receipt_cas quiet i n r w), calls)"

abbreviation receipt_tasks where "receipt_tasks \<equiv> receipt_task_step\<^sup>*\<^sup>*"

text \<open>An environment of such tasks.\<close>

definition among_tasks :: "'a delegation_world_scheme env \<Rightarrow> bool" where
  "among_tasks E \<longleftrightarrow> (\<forall>n w calls. \<exists>calls'. receipt_tasks (w, calls) (E n w, calls'))"

text \<open>A call under way is out of date, or it is a step from the receipt on record.\<close>

definition calls_ok :: "'a delegation_world_scheme \<Rightarrow> (string \<times> int \<times> delegation_receipt) set \<Rightarrow> bool" where
  "calls_ok w calls \<longleftrightarrow> (\<forall>(i, n, r) \<in> calls. \<exists>c. receipts w i = Some c \<and> n \<le> rc_revision c \<and>
     (rc_revision c = n \<longrightarrow> receipt_step c r))"

lemma claim_adds:
  "\<exists>r'. receipts (snd (receipt_claim quiet r w)) = receipts w \<or>
     receipts w (rc_delegation_id r) = None \<and>
     receipts (snd (receipt_claim quiet r w)) = (receipts w)(rc_delegation_id r \<mapsto> r)"
  by (auto simp: receipt_claim_def Let_def split: option.split)

lemma cas_replaces:
  "receipts (snd (receipt_cas quiet i n r w)) = receipts w \<or>
     (\<exists>c. receipts w i = Some c \<and> rc_revision c = n \<and> receipts (snd (receipt_cas quiet i n r w)) = (receipts w)(i \<mapsto> r))"
  by (auto simp: receipt_cas_def Let_def split: option.split)

lemma task_step_ok:
  assumes "receipt_task_step (w, calls) (w', calls')" and ok: "calls_ok w calls"
  shows "calls_ok w' calls' \<and> (\<forall>i c. receipts w i = Some c \<longrightarrow>
    (\<exists>c'. receipts w' i = Some c' \<and> (c' = c \<or> receipt_step c c')))"
  using assms(1)
proof cases
  case elsewhere
  then show ?thesis using ok by (simp add: calls_ok_def)
next
  case (claims r)
  then show ?thesis using claim_adds [of r w] ok by (force simp: calls_ok_def)
next
  case (reads i c expected status changes r x)
  then have "receipts w' = receipts w" "receipts w i = Some c" "receipt_step c r"
    by (auto simp: receipt_get_def Let_def intro: receipt_step.intros)
  then show ?thesis using reads(1) ok by (auto simp: calls_ok_def)
next
  case (swaps i n r)
  consider (kept) "receipts w' = receipts w"
    | (put) c where "receipts w i = Some c" "rc_revision c = n" "receipts w' = (receipts w)(i \<mapsto> r)"
    using cas_replaces [of i n r w] unfolding swaps(1) by blast
  then show ?thesis
  proof cases
    case put
    then have "receipt_step c r" using ok swaps by (auto simp: calls_ok_def)
    moreover from this have "rc_revision r = rc_revision c + 1" using receipt_step_facts by blast
    ultimately show ?thesis using put ok swaps by (fastforce simp: calls_ok_def)
  qed (use ok swaps in \<open>simp add: calls_ok_def\<close>)
qed

lemma tasks_ok:
  assumes "receipt_tasks (w, calls) (w', calls')" and "calls_ok w calls"
  shows "calls_ok w' calls' \<and> calls \<subseteq> calls' \<and>
    (\<forall>i c. receipts w i = Some c \<longrightarrow> final_receipt c \<longrightarrow> receipts w' i = Some c)"
  using assms(1)
proof (induction rule: rtranclp_induct2)
  case (step w1 calls1 w2 calls2)
  have "calls1 \<subseteq> calls2" using step.hyps(2) by cases auto
  then show ?case
    using step.IH task_step_ok [OF step.hyps(2)] final_no_step by blast
qed (use assms(2) in simp)

lemma tasks_grow: "receipt_tasks (w, calls) (w', calls') \<Longrightarrow> calls \<subseteq> calls'"
  by (induction rule: rtranclp_induct2) (auto elim: receipt_task_step.cases)

lemma tasks_elsewhere: "receipts w' = receipts w \<Longrightarrow> receipt_tasks (w, calls) (w', calls)"
  by (blast intro: receipt_task_step.elsewhere)

lemma tasks_await:
  assumes "among_tasks E"
  shows "\<exists>calls'. receipt_tasks (w, calls) (await E w, calls')"
proof -
  obtain calls' where "receipt_tasks (w, calls) (E (tick w) w, calls')" using assms unfolding among_tasks_def by blast
  moreover have "receipt_tasks (E (tick w) w, calls') (await E w, calls')"
    by (rule tasks_elsewhere) (simp add: await_def)
  ultimately show ?thesis by (blast intro: rtranclp_trans)
qed

text \<open>The loop of a transition and a claim among such tasks are themselves made of such steps.\<close>

lemma cas_tasks:
  assumes "among_tasks E" and "(i, n, r) \<in> calls"
  shows "\<exists>calls'. receipt_tasks (w, calls) (snd (receipt_cas E i n r w), calls')"
proof -
  obtain calls' where before: "receipt_tasks (w, calls) (await E w, calls')" using tasks_await [OF assms(1)] by blast
  have "receipt_tasks (await E w, calls') (snd (receipt_cas quiet i n r (await E w)), calls')"
    using receipt_task_step.swaps tasks_grow [OF before] assms(2) by blast
  moreover have "receipt_tasks (snd (receipt_cas quiet i n r (await E w)), calls') (snd (receipt_cas E i n r w), calls')"
    by (rule tasks_elsewhere) (simp add: receipt_cas_def Let_def split: option.split)
  ultimately show ?thesis using before by (meson rtranclp_trans)
qed

lemma claim_tasks:
  assumes "among_tasks E"
  shows "\<exists>calls'. receipt_tasks (w, calls) (snd (receipt_claim E r w), calls')"
proof (cases "rc_status r = R_RESERVED")
  case True
  obtain calls' where before: "receipt_tasks (w, calls) (await E w, calls')" using tasks_await [OF assms] by blast
  have "receipt_tasks (await E w, calls') (snd (receipt_claim quiet r (await E w)), calls')"
    using receipt_task_step.claims by blast
  moreover have "receipt_tasks (snd (receipt_claim quiet r (await E w)), calls') (snd (receipt_claim E r w), calls')"
    by (rule tasks_elsewhere) (simp add: True receipt_claim_def Let_def split: option.split)
  ultimately show ?thesis using before by (meson rtranclp_trans)
qed (auto simp: receipt_claim_def)

lemma transition_tasks:
  assumes E: "among_tasks E"
  shows "\<exists>calls'. receipt_tasks (w, calls) (snd (transition_loop E n i expected status changes w), calls')"
proof (induction n arbitrary: w calls)
  case 0
  then show ?case by (auto simp: raise_def)
next
  case (Suc n)
  obtain calls1 where read: "receipt_tasks (w, calls) (await E w, calls1)" using tasks_await [OF E] by blast
  note run = transition_loop.simps(2) [of E n i expected status changes] bindP_run receipt_get_def Let_def raise_def ret_def ofR_def
  show ?case
  proof (cases "\<exists>c r x. receipts (await E w) i = Some c \<and> transition_update expected status changes c = Inr (Some r, x)")
    case False
    then have "snd (transition_loop E (Suc n) i expected status changes w) = await E w"
      by (auto simp: run split: option.split sum.split)
    then show ?thesis using read by auto
  next
    case True
    then obtain c r x where c: "receipts (await E w) i = Some c"
      and upd: "transition_update expected status changes c = Inr (Some r, x)" by blast
    have "receipt_tasks (await E w, calls1) (await quiet (await E w), insert (i, rc_revision c, r) calls1)"
      using receipt_task_step.reads [OF _ upd, of i "await E w" _ calls1] c by (auto simp: receipt_get_def Let_def)
    moreover have "receipt_tasks (await quiet (await E w), insert (i, rc_revision c, r) calls1) (await E w, insert (i, rc_revision c, r) calls1)"
      by (rule tasks_elsewhere) simp
    moreover obtain o2 w2 where cas: "receipt_cas E i (rc_revision c) r (await E w) = (o2, w2)" by fastforce
    moreover obtain calls2 where "receipt_tasks (await E w, insert (i, rc_revision c, r) calls1) (w2, calls2)"
      using cas_tasks [OF E, of i "rc_revision c" r "insert (i, rc_revision c, r) calls1" "await E w"] cas by auto
    ultimately have swapped: "receipt_tasks (w, calls) (w2, calls2)" using read by (meson rtranclp_trans)
    have out: "snd (transition_loop E (Suc n) i expected status changes w) =
        (if o2 = Inr False then snd (transition_loop E n i expected status changes (await E w2)) else w2)"
      using c upd cas by (auto simp: run split: sum.split)
    obtain calls3 where paused: "receipt_tasks (w2, calls2) (await E w2, calls3)" using tasks_await [OF E] by blast
    obtain calls4 where
      "receipt_tasks (await E w2, calls3) (snd (transition_loop E n i expected status changes (await E w2)), calls4)"
      using Suc.IH by blast
    then have "receipt_tasks (w, calls) (snd (transition_loop E n i expected status changes (await E w2)), calls4)"
      using swapped paused by (meson rtranclp_trans)
    then show ?thesis using swapped unfolding out by auto
  qed
qed

text \<open>
  C8.  A settled receipt stays as it is.  However the reads, compare-and-swaps and claims of any tasks are
  interleaved, a completed, cancelled, manually fenced or unresumably failed receipt is on record unchanged at
  every later time; in particular a call of \<^verbatim>\<open>compare_and_swap\<close> with a transition worked out before the receipt was settled does not
  overwrite it, nor does a claim, nor the whole transition of a task among the others, whatever it asks for.  So a recorded result
  can be replayed for ever.
\<close>

theorem final_receipt_stays:
  assumes "receipt_tasks (w0, {}) (w, calls)" and "receipts w i = Some r" and "final_receipt r"
    and "receipt_tasks (w, calls) (w', calls')" and "among_tasks E"
  shows "receipts w' i = Some r \<and>
    receipts (snd (transition_loop E n j expected status changes w')) i = Some r \<and>
    receipts (snd (receipt_claim E r' w')) i = Some r"
proof -
  have "calls_ok w calls" using tasks_ok [OF assms(1)] by (simp add: calls_ok_def)
  then have w': "calls_ok w' calls'" "receipts w' i = Some r" using tasks_ok [OF assms(4)] assms(2,3) by blast+
  then show ?thesis
    using transition_tasks [OF assms(5), of w' calls' n j expected status changes]
      claim_tasks [OF assms(5), of w' calls' r'] tasks_ok assms(3) by metis
qed

text \<open>
  A delegation is claimed once: after a claim has returned, every later claim of the same
  delegation, by any task and whatever happened in between, is told that it did not create the
  receipt and gets a receipt of the same identity.
\<close>

theorem receipt_claimed_once:
  assumes E: "\<And>n w. receipt_rely w (E n w)" and ok: "receipts_ok w" and r: "check_receipt r = Inr r"
    and run: "receipt_claim E r w = (Inr (c, created), w1)" and later: "receipt_rely w1 w2"
    and E': "\<And>n w. receipt_rely w (E' n w)"
    and run': "receipt_claim E' r' w2 = (Inr (c', created'), w3)"
    and same: "rc_delegation_id r' = rc_delegation_id r"
  shows "\<not> created' \<and> same_identity c c' \<and> receipt_step\<^sup>*\<^sup>* c c'"
proof -
  let ?i = "rc_delegation_id r"
  have "receipt_rely w w1" using claim_guarantee [of E, OF E r] run by (metis snd_conv)
  then have ok1: "receipts_ok w1" using receipt_store.rely_all_values ok by blast
  have c: "receipts w1 ?i = Some c"
    using run by (auto simp: receipt_claim_def Let_def split: if_splits option.splits)
  have "receipt_rely w1 (await E' w2)"
    using later receipt_rely_await [of E', OF E'] receipt_store.keeps_trans by (blast dest: transpD)
  then obtain c2 where "receipts (await E' w2) ?i = Some c2" and st: "receipt_step\<^sup>*\<^sup>* c c2"
    using receipt_rely_steps ok1 c by blast
  then have "c' = c2" "\<not> created'"
    using run' same by (auto simp: receipt_claim_def Let_def split: if_splits)
  then show ?thesis using st receipt_steps_identity by blast
qed

text \<open>
  A transition that returns has either written exactly the requested status and changes over a
  receipt in one of the expected states, under the next revision, or found the request already
  satisfied and written nothing; one that fails has written nothing.
\<close>

theorem receipt_transition_spec:
  assumes E: "\<And>n w. receipt_rely w (E n w)" and ok: "receipts_ok w"
    and run: "transition_loop E n i expected status changes w = (r, w')"
  shows "case r of
      Inl e \<Rightarrow> (\<exists>k. w' = after E k w)
    | Inr u \<Rightarrow> \<exists>k c. receipts (after E k w) i = Some c \<and> rc_status u = status \<and> same_identity c u \<and>
        ((rc_status c \<notin> set expected \<and> u = c \<and> list_all (\<lambda>x. change_holds x c) changes \<and>
            w' = after E k w) \<or>
         (rc_status c \<in> set expected \<and> check_receipt u = Inr u \<and>
            u = fold apply_change changes (c\<lparr>rc_revision := rc_revision c + 1, rc_status := status\<rparr>) \<and>
            w' = (after E k w)\<lparr>receipts := (receipts (after E k w))(i \<mapsto> u)\<rparr>))"
proof (cases r)
  case (Inl e)
  then show ?thesis
    using transition_effect [of E, OF E ok run] unfolding receipt_store.loop_effect_def by simp
next
  case (Inr u)
  then obtain j k c upd where c: "receipts (after E k w) i = Some c"
    and upd: "transition_update expected status changes c = Inr (upd, u)"
    and w': "w' = (case upd of None \<Rightarrow> after E k w | Some v \<Rightarrow> put_receipt i v (after E k w))"
    using transition_effect [of E, OF E ok run]
    unfolding receipt_store.loop_effect_def Inr sum.case by blast
  show ?thesis
  proof (cases upd)
    case None
    then have "rc_status c \<notin> set expected" "rc_status c = status" "u = c"
      "list_all (\<lambda>x. change_holds x c) changes"
      using upd by (auto simp: transition_update_def Let_def bindR_Inr_iff split: if_splits)
    then show ?thesis
      unfolding Inr sum.case using c w' None by (intro exI [of _ k] exI [of _ c]) simp
  next
    case (Some v)
    note facts = transition_update_Some [OF upd [unfolded Some]]
    then have uv: "u = v" by blast
    have "w' = (after E k w)\<lparr>receipts := (receipts (after E k w))(i \<mapsto> u)\<rparr>"
      by (simp only: w' Some option.case put_receipt_def uv)
    then show ?thesis unfolding Inr sum.case using c facts uv by blast
  qed
qed

subsection \<open>Concrete values\<close>

definition sample_receipt :: delegation_receipt where
  "sample_receipt =
     \<lparr>rc_delegation_id = ''dlg:1'', rc_execution_group_id = ''g'', rc_root_run_id = ''run:1'',
      rc_parent_run_id = ''run:1'', rc_parent_tool_call_id = ''call-1'',
      rc_caller_agent_ref = sample_parent, rc_callee_agent_ref = sample_child,
      rc_child_run_id = ''run:2'', rc_request_digest = ''sha256:'' @ replicate 64 CHR ''0'',
      rc_context_digest = ''ctx:1'', rc_attempt = 1, rc_owner_token = Some ''owner:1'',
      rc_status = R_RESERVED, rc_finish_reason = None, rc_retryable = False, rc_resumable = False,
      rc_result_digest = None, rc_result_payload = None, rc_result_ref = None,
      rc_error_code = None, rc_lease_id = None, rc_revision = 1\<rparr>"

lemma sample_receipt_ok: "check_receipt sample_receipt = Inr sample_receipt"
  by code_simp

definition empty_delegations :: delegation_world where
  "empty_delegations = \<lparr>tick = 0, now = 0, groups = Map.empty, receipts = Map.empty\<rparr>"

lemma empty_delegations_ok: "receipts_ok empty_delegations"
  by (simp add: all_values_def empty_delegations_def)

text \<open>Another task that, at every suspension, tries to move the receipt to a cancelled one.\<close>

definition cancelling_env :: "delegation_world env" where
  "cancelling_env n w = snd (transition_loop quiet 1 ''dlg:1'' [R_RUNNING] R_CANCELLED [] w)"

lemma cancelling_env_rely: "receipt_rely w (cancelling_env n w)"
  unfolding cancelling_env_def
  by (rule transition_guarantee) (simp add: quiet_def reflpD [OF receipt_store.keeps_refl])

definition claimed_world :: delegation_world where
  "claimed_world = snd (receipt_claim cancelling_env sample_receipt empty_delegations)"

definition running_world :: delegation_world where
  "running_world = snd (transition_loop quiet 1 ''dlg:1'' [R_RESERVED] R_RUNNING [] claimed_world)"

lemma claimed_world_ok: "receipts_ok claimed_world"
  unfolding claimed_world_def
  by (rule receipt_store.rely_all_values [OF claim_guarantee [OF cancelling_env_rely sample_receipt_ok]
        empty_delegations_ok])

lemma cancelling_env_tasks: "among_tasks cancelling_env"
proof -
  have "among_tasks quiet" by (auto simp: among_tasks_def quiet_def)
  from transition_tasks [OF this] show ?thesis unfolding among_tasks_def cancelling_env_def by blast
qed

text \<open>A completion that was worked out while the receipt was running comes after its cancellation.\<close>

definition late_completion :: delegation_receipt where
  "late_completion = sample_receipt\<lparr>rc_status := R_COMPLETED, rc_revision := 3, rc_result_payload := Some [],
     rc_result_digest := Some (rc_request_digest sample_receipt)\<rparr>"

theorem final_receipt_stays_witness:
  "case receipts (snd (receipt_cas quiet ''dlg:1'' 2 late_completion (await cancelling_env running_world))) ''dlg:1'' of
     None \<Rightarrow> False
   | Some r \<Rightarrow> rc_status r = R_CANCELLED"
proof -
  let ?w = "await cancelling_env running_world" and ?calls = "insert (''dlg:1'', 2, late_completion) {}"
  have "case receipts running_world ''dlg:1'' of None \<Rightarrow> False
    | Some c \<Rightarrow> rc_revision c = 2 \<and> transition_update [R_RUNNING] R_COMPLETED [C_result_payload (Some []),
        C_result_digest (Some (rc_request_digest sample_receipt))] c = Inr (Some late_completion, late_completion)"
    by code_simp
  then obtain c where c: "receipts running_world ''dlg:1'' = Some c" "rc_revision c = 2"
    "transition_update [R_RUNNING] R_COMPLETED [C_result_payload (Some []),
        C_result_digest (Some (rc_request_digest sample_receipt))] c = Inr (Some late_completion, late_completion)"
    by (auto split: option.splits)
  have "receipt_tasks (running_world, {}) (await quiet running_world, ?calls)"
    using receipt_task_step.reads [OF _ c(3), of "''dlg:1''" running_world _ "{}"] c(1,2)
    by (auto simp: receipt_get_def Let_def)
  moreover have "receipt_tasks (await quiet running_world, ?calls) (running_world, ?calls)"
    by (rule tasks_elsewhere) simp
  moreover obtain calls where cancelled: "receipt_tasks (running_world, ?calls) (?w, calls)"
    using tasks_await [OF cancelling_env_tasks] by blast
  ultimately have before: "receipt_tasks (running_world, {}) (?w, calls)" by (meson rtranclp_trans)
  have late: "receipt_tasks (?w, calls) (snd (receipt_cas quiet ''dlg:1'' 2 late_completion ?w), calls)"
    using receipt_task_step.swaps tasks_grow [OF cancelled] by blast
  have "case receipts ?w ''dlg:1'' of None \<Rightarrow> False | Some r \<Rightarrow> rc_status r = R_CANCELLED" by code_simp
  then obtain r where r: "receipts ?w ''dlg:1'' = Some r" "rc_status r = R_CANCELLED"
    by (auto split: option.splits)
  then show ?thesis
    using final_receipt_stays [OF before r(1) _ late cancelling_env_tasks] by (simp add: final_receipt_def)
qed

theorem receipt_claimed_once_witness:
  "case receipt_claim cancelling_env sample_receipt claimed_world of
     (Inr (c, created), w') \<Rightarrow> \<not> created \<and> same_identity sample_receipt c
   | (Inl e, w') \<Rightarrow> False"
proof -
  have first: "receipt_claim cancelling_env sample_receipt empty_delegations =
      (Inr (sample_receipt, True), claimed_world)"
  proof -
    have "fst (receipt_claim cancelling_env sample_receipt empty_delegations) =
        Inr (sample_receipt, True)" by code_simp
    then show ?thesis by (simp add: claimed_world_def prod_eq_iff)
  qed
  have "case fst (receipt_claim cancelling_env sample_receipt claimed_world) of
      Inl e \<Rightarrow> False | Inr x \<Rightarrow> True" by code_simp
  then obtain c created w' where
    second: "receipt_claim cancelling_env sample_receipt claimed_world = (Inr (c, created), w')"
    by (cases "receipt_claim cancelling_env sample_receipt claimed_world")
      (auto split: sum.splits)
  show ?thesis
    using receipt_claimed_once [OF cancelling_env_rely empty_delegations_ok sample_receipt_ok first
        reflpD [OF receipt_store.keeps_refl] cancelling_env_rely second] second by simp
qed

theorem receipt_transition_spec_witness:
  "case transition_loop cancelling_env 3 ''dlg:1'' [R_RESERVED] R_RUNNING
          [C_attempt 1, C_owner_token (Some ''owner:1'')] claimed_world of
     (Inl e, w') \<Rightarrow> False
   | (Inr u, w') \<Rightarrow> rc_status u = R_RUNNING"
proof -
  have "case fst (transition_loop cancelling_env 3 ''dlg:1'' [R_RESERVED] R_RUNNING
      [C_attempt 1, C_owner_token (Some ''owner:1'')] claimed_world) of
      Inl e \<Rightarrow> False | Inr u \<Rightarrow> True" by code_simp
  then obtain u w' where run: "transition_loop cancelling_env 3 ''dlg:1'' [R_RESERVED] R_RUNNING
      [C_attempt 1, C_owner_token (Some ''owner:1'')] claimed_world = (Inr u, w')"
    by (cases "transition_loop cancelling_env 3 ''dlg:1'' [R_RESERVED] R_RUNNING
      [C_attempt 1, C_owner_token (Some ''owner:1'')] claimed_world") (auto split: sum.splits)
  show ?thesis
    using receipt_transition_spec [OF cancelling_env_rely claimed_world_ok run] run by auto
qed

end
