(* ===== verification/Delegation_Ids.thy ===== *)
theory Delegation_Ids
  imports Receipts
begin

text \<open>
  Identifiers derived from a delegation: the ID factory (\<^verbatim>\<open>DelegationIdFactory\<close> in
  \<^verbatim>\<open>moduagent/delegation/receipts.py\<close>), child session keys (\<^verbatim>\<open>moduagent/delegation/sessions.py\<close>) and
  the events (\<^verbatim>\<open>moduagent/delegation/events.py\<close>).  HMAC, SHA-256 and the canonical JSON text are the
  fields of the parameter \<open>crypto\<close>; the secret is part of the HMAC.
\<close>

record crypto =
  cr_canonical :: "(string, pyval) dict \<Rightarrow> string res"
  cr_sha256 :: "string \<Rightarrow> string"
  cr_hmac :: "(string, pyval) dict \<Rightarrow> string"

definition canonical_digest :: "crypto \<Rightarrow> (string, pyval) dict \<Rightarrow> string res" where
  "canonical_digest c value =
     bindR (cr_canonical c value) (\<lambda>t. Inr (''sha256:'' @ cr_sha256 c t))"

subsection \<open>The ID factory\<close>

definition id_payload :: "string \<Rightarrow> string \<Rightarrow> string \<Rightarrow> (string, pyval) dict" where
  "id_payload parent_run_id parent_tool_call_id request_digest =
     [(''namespace'', PStr ''moduagent.delegation.id.v1''),
      (''parent_run_id'', PStr parent_run_id),
      (''parent_tool_call_id'', PStr parent_tool_call_id),
      (''request_digest'', PStr request_digest)]"

definition delegation_id :: "crypto \<Rightarrow> string \<Rightarrow> string \<Rightarrow> string \<Rightarrow> string res" where
  "delegation_id c parent_run_id parent_tool_call_id request_digest =
     (if \<not> is_sha256 request_digest then Inl (ValueError ''request_digest must use sha256'')
      else Inr (''dlg:'' @ cr_hmac c (id_payload parent_run_id parent_tool_call_id request_digest)))"

definition child_run_id :: "crypto \<Rightarrow> string \<Rightarrow> string" where
  "child_run_id c i = ''run:'' @ cr_hmac c
     [(''namespace'', PStr ''moduagent.child.run.v1''), (''delegation_id'', PStr i)]"

definition context_digest :: "crypto \<Rightarrow> (string, pyval) dict \<Rightarrow> string" where
  "context_digest c context = ''ctx:'' @ cr_hmac c
     [(''namespace'', PStr ''moduagent.delegation.context.v1''), (''context'', PDict context)]"

definition lease_payload :: "string \<Rightarrow> int \<Rightarrow> (string, pyval) dict" where
  "lease_payload i attempt =
     [(''namespace'', PStr ''moduagent.budget.lease.v1''), (''delegation_id'', PStr i),
      (''attempt'', PInt attempt)]"

definition lease_id :: "crypto \<Rightarrow> string \<Rightarrow> int \<Rightarrow> string res" where
  "lease_id c i attempt =
     (if attempt < 1 then Inl (ValueError ''delegation attempt must be a positive integer'')
      else Inr (''lease:'' @ cr_hmac c (lease_payload i attempt)))"

subsection \<open>Session keys\<close>

datatype session_strategy = ISOLATED | PER_PARENT_SESSION | SHARED

fun strategy_value :: "session_strategy \<Rightarrow> string" where
  "strategy_value ISOLATED = ''isolated''"
| "strategy_value PER_PARENT_SESSION = ''per_parent_session''"
| "strategy_value SHARED = ''shared''"

definition session_components ::
  "session_strategy \<Rightarrow> string \<Rightarrow> string \<Rightarrow> agent_ref \<Rightarrow> string \<Rightarrow> (string, pyval) dict" where
  "session_components strategy tenant parent_session_id callee i =
     [(''namespace'', PStr ''moduagent.delegation.session.v1''),
      (''strategy'', PStr (strategy_value strategy)),
      (''tenant'', PStr tenant),
      (''callee'', PDict [(''agent_id'', PStr (agent_id callee)), (''version'', PStr (version callee))]),
      (''parent_session_id'', if strategy = PER_PARENT_SESSION then PStr parent_session_id else PNone),
      (''delegation_id'', if strategy = ISOLATED then PStr i else PNone)]"

definition session_create ::
  "crypto \<Rightarrow> bool \<Rightarrow> session_strategy \<Rightarrow> string \<Rightarrow> string \<Rightarrow> agent_ref \<Rightarrow> string \<Rightarrow> string res" where
  "session_create c allow_shared strategy tenant parent_session_id callee i =
     bindR (all_ok
       [require (tenant \<noteq> []) (ValueError ''tenant cannot be empty''),
        require (parent_session_id \<noteq> []) (ValueError ''parent_session_id cannot be empty''),
        require (i \<noteq> []) (ValueError ''delegation_id cannot be empty'')]) (\<lambda>_.
     if strategy = SHARED then
       (if \<not> allow_shared then Inl (ValueError ''shared delegation sessions are disabled'')
        else Inr parent_session_id)
     else Inr (''delegation:'' @
       cr_hmac c (session_components strategy tenant parent_session_id callee i)))"

subsection \<open>Events\<close>

datatype event_type =
    E_REQUESTED | E_AUTHORIZED | E_REJECTED | E_STARTED | E_RESUMED | E_COMPLETED | E_FAILED
  | E_RECONCILIATION_REQUIRED

record delegation_event =
  ev_type :: event_type
  ev_execution_group_id :: string
  ev_delegation_id :: string
  ev_lineage :: run_lineage
  ev_caller :: agent_ref
  ev_callee :: agent_ref
  ev_parent_tool_call_id :: string
  ev_child_run_id :: "string option"
  ev_status :: "string option"
  ev_code :: "string option"

definition check_event :: "delegation_event \<Rightarrow> delegation_event res" where
  "check_event e =
     bindR (all_ok
       [require (ev_execution_group_id e \<noteq> []) (ValueError ''execution_group_id cannot be empty''),
        require (ev_delegation_id e \<noteq> []) (ValueError ''delegation_id cannot be empty''),
        require (ev_parent_tool_call_id e \<noteq> []) (ValueError ''parent_tool_call_id cannot be empty''),
        opt_check check_classification (ev_status e) ''delegation event status'',
        opt_check check_classification (ev_code e) ''delegation event code''])
     (\<lambda>_. Inr e)"

subsection \<open>Properties\<close>

text \<open>
  Derived identifiers bind what they are derived from: if the HMAC has no collision among the
  payloads in use, equal delegation IDs come from the same parent run, tool call and request, and
  equal lease IDs from the same delegation and the same attempt.
\<close>

theorem derived_ids_bind:
  assumes "inj_on (cr_hmac c) D"
    and "{id_payload r t q, id_payload r' t' q', lease_payload i n, lease_payload i' n'} \<subseteq> D"
  shows "(delegation_id c r t q = Inr d \<and> delegation_id c r' t' q' = Inr d \<longrightarrow>
      r = r' \<and> t = t' \<and> q = q') \<and>
    (lease_id c i n = Inr l \<and> lease_id c i' n' = Inr l \<longrightarrow> i = i' \<and> n = n')"
proof -
  have ids: "cr_hmac c (id_payload r t q) = cr_hmac c (id_payload r' t' q') \<Longrightarrow>
      id_payload r t q = id_payload r' t' q'"
    and leases: "cr_hmac c (lease_payload i n) = cr_hmac c (lease_payload i' n') \<Longrightarrow>
      lease_payload i n = lease_payload i' n'"
    by (erule inj_onD [OF assms(1)]; use assms(2) in simp)+
  show ?thesis
  proof (intro conjI impI)
    assume "delegation_id c r t q = Inr d \<and> delegation_id c r' t' q' = Inr d"
    then have "id_payload r t q = id_payload r' t' q'"
      by (intro ids) (auto simp: delegation_id_def split: if_splits)
    then show "r = r'" "t = t'" "q = q'" by (simp_all add: id_payload_def)
  next
    assume "lease_id c i n = Inr l \<and> lease_id c i' n' = Inr l"
    then have "lease_payload i n = lease_payload i' n'"
      by (intro leases) (auto simp: lease_id_def split: if_splits)
    then show "i = i'" "n = n'" by (simp_all add: lease_payload_def)
  qed
qed

text \<open>
  Child sessions are isolated: unless shared sessions are chosen, two children get the same
  session only for the same tenant, the same pinned agent and the same strategy, and then within
  one delegation (isolated) or one parent session.
\<close>

theorem session_isolation:
  assumes "inj_on (cr_hmac c) D"
    and "{session_components st tn ps a i, session_components st' tn' ps' a' i'} \<subseteq> D"
    and "session_create c sh st tn ps a i = Inr s" and "session_create c sh' st' tn' ps' a' i' = Inr s"
    and "st \<noteq> SHARED" and "st' \<noteq> SHARED"
  shows "tn = tn' \<and> a = a' \<and> st = st' \<and> (st = ISOLATED \<longrightarrow> i = i') \<and>
    (st = PER_PARENT_SESSION \<longrightarrow> ps = ps')"
proof -
  have "cr_hmac c (session_components st tn ps a i) = cr_hmac c (session_components st' tn' ps' a' i')"
    using assms(3-6) by (auto simp: session_create_def bindR_Inr_iff)
  then have "session_components st tn ps a i = session_components st' tn' ps' a' i'"
    by (rule inj_onD [OF assms(1)]) (use assms(2) in simp_all)
  then show ?thesis
    by (cases st; cases st'; cases a; cases a') (simp_all add: session_components_def)
qed

subsection \<open>Concrete values\<close>

text \<open>A digest that spells out the text fields of its payload, the nested ones included.\<close>

fun spell :: "pyval \<Rightarrow> string" where
  "spell (PStr s) = s"
| "spell (PInt n) = replicate (nat n) CHR ''1''"
| "spell _ = []"

definition sample_crypto :: crypto where
  "sample_crypto =
     \<lparr>cr_canonical = (\<lambda>d. Inr (concat (map (\<lambda>(k, v). k @ '':'' @ spell v @ '','') d))),
      cr_sha256 = (\<lambda>t. replicate 64 CHR ''0''),
      cr_hmac = (\<lambda>d. concat (map (\<lambda>(k, v). '':'' @ spell v) d))\<rparr>"

theorem derived_ids_bind_witness:
  "inj_on (cr_hmac sample_crypto)
     {id_payload ''r'' ''t'' ''q'', lease_payload ''d'' 1, lease_payload ''d'' 2} \<and>
   (case (lease_id sample_crypto ''d'' 1, lease_id sample_crypto ''d'' 2) of
      (Inr a, Inr b) \<Rightarrow> a \<noteq> b | _ \<Rightarrow> False)"
proof -
  let ?D = "{id_payload ''r'' ''t'' ''q'', lease_payload ''d'' 1, lease_payload ''d'' 2}"
  have inj: "inj_on (cr_hmac sample_crypto) ?D"
    by (simp add: sample_crypto_def id_payload_def lease_payload_def numeral_2_eq_2)
  have "lease_id sample_crypto ''d'' 2 \<noteq> Inr l" if "lease_id sample_crypto ''d'' 1 = Inr l" for l
    using derived_ids_bind [OF inj, of "''r''" "''t''" "''q''" "''r''" "''t''" "''q''" "''d''" 1 "''d''" 2]
      that by auto
  then show ?thesis using inj by (simp add: lease_id_def)
qed

theorem session_isolation_witness:
  "inj_on (cr_hmac sample_crypto)
     {session_components ISOLATED ''t1'' ''s'' sample_child ''d1'',
      session_components ISOLATED ''t1'' ''s'' sample_child ''d2''} \<and>
   session_create sample_crypto False ISOLATED ''t1'' ''s'' sample_child ''d1'' \<noteq>
   session_create sample_crypto False ISOLATED ''t1'' ''s'' sample_child ''d2''"
proof -
  let ?D = "{session_components ISOLATED ''t1'' ''s'' sample_child ''d1'',
      session_components ISOLATED ''t1'' ''s'' sample_child ''d2''}"
  have inj: "inj_on (cr_hmac sample_crypto) ?D"
    by (simp add: sample_crypto_def session_components_def)
  have "session_create sample_crypto False ISOLATED ''t1'' ''s'' sample_child ''d2'' \<noteq> Inr s"
    if "session_create sample_crypto False ISOLATED ''t1'' ''s'' sample_child ''d1'' = Inr s" for s
    using session_isolation [OF inj _ that, of ISOLATED "''t1''" "''s''" sample_child "''d2''" False]
    by auto
  moreover have "\<exists>s. session_create sample_crypto False ISOLATED ''t1'' ''s'' sample_child ''d1'' = Inr s"
    by (simp add: session_create_def bindR_Inr_iff)
  ultimately show ?thesis using inj by metis
qed

end
