(* ===== verification/Delegation_Invoker.thy ===== *)
theory Delegation_Invoker
  imports Delegation_Guards Delegation_Ids
begin

text \<open>
  The local invoker (\<^verbatim>\<open>LocalAgentInvoker\<close> in \<^verbatim>\<open>moduagent/delegation/registry.py\<close>): it rejects mixed
  execution-group state before the handler of an endpoint is reached and an outcome that is not
  about the child it was asked for.  A handler is a record of the protocol methods it implements;
  what they do to the world \<open>'w\<close> is up to the endpoint.
\<close>

record 'w endpoint_handler =
  eh_run :: "(pyval \<Rightarrow> delegation_context \<Rightarrow> budget_lease \<Rightarrow> string \<Rightarrow>
    ('w, delegation_outcome option) prog) option"
  eh_reconcile :: "(delegation_context \<Rightarrow> budget_lease \<Rightarrow> string \<Rightarrow>
    ('w, delegation_outcome option option) prog) option"
  eh_resume :: "(pyval \<Rightarrow> delegation_context \<Rightarrow> budget_lease \<Rightarrow> string \<Rightarrow>
    ('w, delegation_outcome option) prog) option"
  eh_cleanup :: "(delegation_context \<Rightarrow> budget_lease \<Rightarrow> string \<Rightarrow> ('w, unit) prog) option"

type_synonym 'w handler_endpoint = "'w endpoint_handler agent_endpoint"

definition endpoint_handler_of :: "'w handler_endpoint \<Rightarrow> 'w endpoint_handler res" where
  "endpoint_handler_of ep =
     bindR (all_ok
       [require (ep_kind ep = ''local'') (DelegationEndpointError ''delegation_endpoint_not_local''),
        require (ep_approved ep) (DelegationEndpointError ''delegation_endpoint_not_approved''),
        require (ep_supports_async ep) (DelegationEndpointError ''delegation_endpoint_not_async'')]) (\<lambda>_.
     case ep_handler ep of
       None \<Rightarrow> Inl (DelegationEndpointError ''delegation_endpoint_protocol_error'')
     | Some h \<Rightarrow> if eh_run h = None
         then Inl (DelegationEndpointError ''delegation_endpoint_protocol_error'') else Inr h)"

definition validate_invocation_contract ::
  "delegation_context \<Rightarrow> budget_lease \<Rightarrow> string \<Rightarrow> unit res" where
  "validate_invocation_contract ctx lease run_id = all_ok
     [require (run_id \<noteq> []) (DelegationEndpointError ''delegation_child_run_id_invalid''),
      require (\<not> (ln_depth (dc_lineage ctx) < 1 \<or> ln_delegation_id (dc_lineage ctx) = None))
        (DelegationEndpointError ''delegation_lineage_invalid''),
      require (bl_execution_group_id lease = dc_execution_group_id ctx)
        (DelegationEndpointError ''delegation_budget_group_mismatch''),
      require (bl_callee lease = lineage_ref (dc_lineage ctx))
        (DelegationEndpointError ''delegation_budget_callee_mismatch''),
      require (bl_absolute_deadline lease = dc_absolute_deadline ctx)
        (DelegationEndpointError ''delegation_budget_deadline_mismatch'')]"

definition validate_outcome :: "delegation_outcome option \<Rightarrow> string \<Rightarrow> delegation_outcome res" where
  "validate_outcome outcome run_id = (case outcome of
     None \<Rightarrow> Inl (DelegationEndpointError ''delegation_endpoint_protocol_error'')
   | Some oc \<Rightarrow> if oc_child_run_id oc \<noteq> run_id
       then Inl (DelegationEndpointError ''delegation_child_run_id_mismatch'') else Inr oc)"

definition invoker_invoke ::
  "'w handler_endpoint \<Rightarrow> pyval \<Rightarrow> delegation_context \<Rightarrow> budget_lease \<Rightarrow> string \<Rightarrow>
   ('w, delegation_outcome) prog" where
  "invoker_invoke ep request ctx lease run_id =
     bindP (ofR (validate_invocation_contract ctx lease run_id)) (\<lambda>_.
     bindP (ofR (endpoint_handler_of ep)) (\<lambda>h.
     bindP (case eh_run h of None \<Rightarrow> raise (DelegationEndpointError ''delegation_endpoint_protocol_error'')
            | Some run \<Rightarrow> run request ctx lease run_id) (\<lambda>outcome.
     ofR (validate_outcome outcome run_id))))"

definition invoker_reconcile ::
  "'w handler_endpoint \<Rightarrow> delegation_context \<Rightarrow> budget_lease \<Rightarrow> string \<Rightarrow>
   ('w, delegation_outcome option) prog" where
  "invoker_reconcile ep ctx lease run_id =
     bindP (ofR (validate_invocation_contract ctx lease run_id)) (\<lambda>_.
     bindP (ofR (endpoint_handler_of ep)) (\<lambda>h.
     case eh_reconcile h of None \<Rightarrow> ret None
     | Some reconcile \<Rightarrow> bindP (reconcile ctx lease run_id) (\<lambda>outcome. case outcome of
         None \<Rightarrow> ret None
       | Some oc \<Rightarrow> bindP (ofR (validate_outcome oc run_id)) (\<lambda>v. ret (Some v)))))"

definition invoker_resume ::
  "'w handler_endpoint \<Rightarrow> pyval \<Rightarrow> delegation_context \<Rightarrow> budget_lease \<Rightarrow> string \<Rightarrow>
   ('w, delegation_outcome) prog" where
  "invoker_resume ep request ctx lease run_id =
     bindP (ofR (validate_invocation_contract ctx lease run_id)) (\<lambda>_.
     bindP (ofR (endpoint_handler_of ep)) (\<lambda>h.
     case eh_resume h of None \<Rightarrow> raise (DelegationEndpointError ''delegation_not_resumable'')
     | Some resume \<Rightarrow> bindP (resume request ctx lease run_id) (\<lambda>outcome.
         ofR (validate_outcome outcome run_id))))"

definition invoker_cleanup ::
  "'w handler_endpoint \<Rightarrow> delegation_context \<Rightarrow> budget_lease \<Rightarrow> string \<Rightarrow> ('w, unit) prog" where
  "invoker_cleanup ep ctx lease run_id =
     bindP (ofR (validate_invocation_contract ctx lease run_id)) (\<lambda>_.
     bindP (ofR (endpoint_handler_of ep)) (\<lambda>h.
     case eh_cleanup h of None \<Rightarrow> ret () | Some cleanup \<Rightarrow> cleanup ctx lease run_id))"

subsection \<open>What reaches the handler\<close>

text \<open>The state of a handler that may be called, and the contract between context and lease.\<close>

definition callable_endpoint :: "'w handler_endpoint \<Rightarrow> bool" where
  "callable_endpoint ep \<longleftrightarrow> ep_kind ep = ''local'' \<and> ep_approved ep \<and> ep_supports_async ep \<and>
     (\<exists>h. ep_handler ep = Some h \<and> eh_run h \<noteq> None)"

definition matching_lease :: "delegation_context \<Rightarrow> budget_lease \<Rightarrow> bool" where
  "matching_lease ctx lease \<longleftrightarrow>
     1 \<le> ln_depth (dc_lineage ctx) \<and> ln_delegation_id (dc_lineage ctx) \<noteq> None \<and>
     bl_execution_group_id lease = dc_execution_group_id ctx \<and>
     bl_callee lease = lineage_ref (dc_lineage ctx) \<and>
     bl_absolute_deadline lease = dc_absolute_deadline ctx"

lemma endpoint_handler_Inr:
  "endpoint_handler_of ep = Inr h \<longleftrightarrow> ep_kind ep = ''local'' \<and> ep_approved ep \<and> ep_supports_async ep \<and>
     ep_handler ep = Some h \<and> eh_run h \<noteq> None"
  by (auto simp: endpoint_handler_of_def bindR_Inr_iff split: option.splits if_splits)

lemma contract_Inr:
  "validate_invocation_contract ctx lease run_id = Inr u \<longleftrightarrow> run_id \<noteq> [] \<and> matching_lease ctx lease"
  by (auto simp: validate_invocation_contract_def matching_lease_def)

lemma validate_outcome_Inr:
  "validate_outcome r run_id = Inr oc \<longleftrightarrow> r = Some oc \<and> oc_child_run_id oc = run_id"
  by (auto simp: validate_outcome_def split: option.splits if_splits)

lemma contract_Inl: "validate_invocation_contract ctx lease run_id = Inl e \<Longrightarrow> \<exists>c. e = DelegationEndpointError c"
  unfolding validate_invocation_contract_def by (drule all_ok_Inl) auto

lemma endpoint_handler_Inl: "endpoint_handler_of ep = Inl e \<Longrightarrow> \<exists>c. e = DelegationEndpointError c"
  by (auto simp: endpoint_handler_of_def bindR_Inl_iff split: option.splits if_splits dest!: all_ok_Inl)

text \<open>
  No endpoint is reached with mixed execution-group state: unless the endpoint is local, approved
  and asynchronous and the lease is for exactly the group, agent and deadline of a child context,
  an invocation fails with a stable endpoint error and leaves the world as it was; and an outcome
  it returns is about the child run it was asked for.
\<close>

theorem invocation_contract:
  "case invoker_invoke ep request ctx lease run_id w of (r, w') \<Rightarrow>
     (\<not> (callable_endpoint ep \<and> matching_lease ctx lease \<and> run_id \<noteq> []) \<longrightarrow>
        w' = w \<and> (\<exists>c. r = Inl (DelegationEndpointError c))) \<and>
     (\<forall>oc. r = Inr oc \<longrightarrow> oc_child_run_id oc = run_id)"
proof (cases "validate_invocation_contract ctx lease run_id")
  case (Inl e)
  then show ?thesis
    using contract_Inl [OF Inl] by (auto simp: invoker_invoke_def bindP_run ofR_def)
next
  case c: (Inr u)
  then have m: "matching_lease ctx lease" "run_id \<noteq> []" by (simp_all add: contract_Inr)
  show ?thesis
  proof (cases "endpoint_handler_of ep")
    case (Inl e)
    then show ?thesis
      using endpoint_handler_Inl [OF Inl] c by (auto simp: invoker_invoke_def bindP_run ofR_def)
  next
    case (Inr h)
    then have "callable_endpoint ep" by (auto simp: endpoint_handler_Inr callable_endpoint_def)
    moreover have "snd x = w' \<and> fst x = Inr oc \<Longrightarrow> oc_child_run_id oc = run_id"
      if "invoker_invoke ep request ctx lease run_id w = x" for x oc w'
      using that c Inr
      by (cases x) (auto simp: invoker_invoke_def bindP_run ofR_def validate_outcome_Inr
          split: sum.splits prod.splits option.splits)
    ultimately show ?thesis using m by (auto split: prod.split)
  qed
qed

text \<open>An endpoint whose handler answers every call, and a context for it.\<close>

definition answering_endpoint :: "string \<Rightarrow> nat handler_endpoint" where
  "answering_endpoint kind =
     \<lparr>ep_handler = Some \<lparr>eh_run = Some (\<lambda>r c l i. ret (Some
        \<lparr>oc_status = OFailed, oc_child_run_id = i, oc_finish_reason = None, oc_output = None,
         oc_error_code = None, oc_retryable = False, oc_resumable = False, oc_usage = []\<rparr>)),
       eh_reconcile = None, eh_resume = None, eh_cleanup = None\<rparr>, ep_kind = kind,
      ep_supports_async = True, ep_supports_stream = False, ep_approved = True\<rparr>"

definition child_context :: delegation_context where
  "child_context =
     \<lparr>dc_lineage = (case lineage_child sample_lineage sample_child ''run:1'' ''dlg:1'' ''call-1'' of
        Inl e \<Rightarrow> sample_lineage | Inr l \<Rightarrow> l),
      dc_execution_group_id = ''g'', dc_principal = ''p'', dc_tenant = ''t'',
      dc_absolute_deadline = 20, dc_child_session_id = ''s'', dc_request_classification = ''internal''\<rparr>"

definition child_lease :: budget_lease where
  "child_lease = \<lparr>bl_lease_id = ''l1'', bl_execution_group_id = ''g'', bl_callee = sample_child,
     bl_absolute_deadline = 20\<rparr>"

theorem invocation_contract_witness:
  "(\<exists>c. invoker_invoke (answering_endpoint ''remote'') PNone child_context child_lease ''run:2'' 0 =
      (Inl (DelegationEndpointError c), 0)) \<and>
   (case fst (invoker_invoke (answering_endpoint ''local'') PNone child_context child_lease ''run:2'' 0) of
      Inl e \<Rightarrow> False | Inr oc \<Rightarrow> oc_child_run_id oc = ''run:2'')"
proof -
  have "\<not> callable_endpoint (answering_endpoint ''remote'')"
    by (simp add: callable_endpoint_def answering_endpoint_def)
  moreover have "case fst (invoker_invoke (answering_endpoint ''local'') PNone child_context child_lease
      ''run:2'' 0) of Inl e \<Rightarrow> False | Inr oc \<Rightarrow> True" by code_simp
  ultimately show ?thesis
    using invocation_contract [where ep = "answering_endpoint ''remote''" and request = PNone
        and ctx = child_context and lease = child_lease and run_id = "''run:2''" and w = 0]
      invocation_contract [where ep = "answering_endpoint ''local''" and request = PNone
        and ctx = child_context and lease = child_lease and run_id = "''run:2''" and w = 0]
    by (auto split: prod.splits sum.splits)
qed

end
