(* ===== verification/Coordinator_Model.thy ===== *)
theory Coordinator_Model
  imports Delegation_Invoker Budget_Ledger
begin

text \<open>
  The delegation coordinator (\<^verbatim>\<open>moduagent/delegation/coordinator.py\<close>), first part: calls, the
  configuration, the world and everything that only inspects values.  A request or output object is
  the value it dumps to; the Pydantic model of a call is its two schemas and its validation.
\<close>

subsection \<open>Failures and calls\<close>

definition failure_kinds :: "string list" where
  "failure_kinds =
     [''execution_error'', ''unauthorized'', ''timeout'', ''cancelled'', ''result_too_large'']"

text \<open>\<^verbatim>\<open>raise DelegationFailure(code, kind=kind)\<close>: the constructor rejects an unstable code.\<close>

definition failure :: "string \<Rightarrow> string \<Rightarrow> exn" where
  "failure code kind =
     (if \<not> is_classification code then ValueError ''delegation failure code must be a stable classification code''
      else if kind \<notin> set failure_kinds then ValueError ''delegation failure kind is invalid''
      else DelegationFailure code kind)"

abbreviation fail :: "string \<Rightarrow> exn" where
  "fail code \<equiv> failure code ''execution_error''"

record 'w delegation_call =
  ca_caller :: agent_ref
  ca_callee :: agent_ref
  ca_request :: pyval
  ca_request_payload :: "(string, pyval) dict"
  ca_input_schema :: "(string, pyval) dict"
  ca_output_schema :: "(string, pyval) dict"
  ca_validate_output :: "pyval \<Rightarrow> pyval option"
  ca_dump_output :: "pyval \<Rightarrow> pyval"
  ca_parent :: parent_delegation_context
  ca_parent_run_id :: string
  ca_parent_tool_call_id :: string
  ca_expected_fingerprint :: string
  ca_request_classification :: string
  ca_session_strategy :: session_strategy
  ca_allow_resume :: bool
  ca_event_callback :: "(delegation_event \<Rightarrow> ('w, unit) prog) option"
  ca_max_result_bytes :: int

definition resolve_max_result_bytes :: "int option \<Rightarrow> int res" where
  "resolve_max_result_bytes v =
     (let n = (case v of None \<Rightarrow> 1000000 | Some n \<Rightarrow> n)
      in if n < 1 then Inl (ValueError ''max_result_bytes must be at least 1'') else Inr n)"

definition check_call :: "'w delegation_call \<Rightarrow> 'w delegation_call res" where
  "check_call c =
     bindR (all_ok
       [require (dget (ca_input_schema c) ''type'' = Some (PStr ''object''))
          (TypeError ''request must be an object-root Pydantic BaseModel class''),
        require (dget (ca_output_schema c) ''type'' = Some (PStr ''object''))
          (TypeError ''output_model must be an object-root Pydantic BaseModel class''),
        require (lineage_ref (pc_lineage (ca_parent c)) = ca_caller c)
          (ValueError ''caller must match the current lineage Agent''),
        require (ca_parent_run_id c \<noteq> []) (ValueError ''parent_run_id cannot be empty''),
        require (ca_parent_tool_call_id c \<noteq> []) (ValueError ''parent_tool_call_id cannot be empty''),
        require (ca_expected_fingerprint c \<noteq> [])
          (ValueError ''expected_definition_fingerprint cannot be empty''),
        require (is_sha256 (ca_expected_fingerprint c))
          (ValueError ''expected_definition_fingerprint must be a canonical sha256 value''),
        check_classification (ca_request_classification c) ''request_classification'']) (\<lambda>_.
     bindR (resolve_max_result_bytes (Some (ca_max_result_bytes c))) (\<lambda>n.
       Inr (c\<lparr>ca_max_result_bytes := n\<rparr>)))"

subsection \<open>Configuration and world\<close>

text \<open>
  What \<^verbatim>\<open>asyncio.wait\<close> on the child task comes to: it finishes in time, the timeout fires and the
  cancelled task stops within the grace period or not, or the caller is cancelled meanwhile, with the
  same two outcomes.
\<close>

datatype task_fate = Task_Done | Task_Timed_Out bool | Task_Caller_Cancelled bool

record 'w coordinator =
  co_registry :: "'w endpoint_handler registry"
  co_authorize :: "agent_ref \<Rightarrow> agent_ref \<Rightarrow> agent_descriptor \<Rightarrow> parent_delegation_context \<Rightarrow> string \<Rightarrow>
    ('w, delegation_decision option) prog"
  co_cycle_guard :: "(run_lineage \<Rightarrow> agent_ref \<Rightarrow> execution_group_limits \<Rightarrow> unit res) option"
  co_crypto :: crypto
  co_allow_shared :: bool
  co_limits :: execution_group_limits
  co_publish :: "delegation_event \<Rightarrow> ('w, unit) prog"
  co_fate :: "'w \<Rightarrow> task_fate"
  co_attempts :: nat
  co_fuel :: nat

record coordinator_world = delegation_world +
  settled_lease_ids :: "string list"
  retained_lease_ids :: "string list"

subsection \<open>Parent contexts\<close>

definition parent_context ::
  "'w coordinator \<Rightarrow> int \<Rightarrow> agent_ref \<Rightarrow> string \<Rightarrow> string \<Rightarrow> string \<Rightarrow> string \<Rightarrow> delegation_context option \<Rightarrow>
   string option \<Rightarrow> int option \<Rightarrow> parent_delegation_context res" where
  "parent_context cf t caller run_id session_id security_principal tenant incoming group_id deadline =
     bindR (case incoming of
       None \<Rightarrow>
         let maximum = t + timedelta_us (timeout_seconds (co_limits cf)) in
         bindR (lineage_root run_id caller) (\<lambda>lineage.
         Inr (lineage, case group_id of None \<Rightarrow> run_id | Some [] \<Rightarrow> run_id | Some g \<Rightarrow> g,
              case deadline of None \<Rightarrow> maximum | Some d \<Rightarrow> min d maximum))
     | Some ctx \<Rightarrow>
         bindR (all_ok
           [require (\<not> (ln_depth (dc_lineage ctx) < 1 \<or> ln_delegation_id (dc_lineage ctx) = None))
              (ValueError ''incoming context must describe a delegated child''),
            require (lineage_ref (dc_lineage ctx) = caller)
              (ValueError ''incoming lineage does not match caller''),
            require (security_principal = dc_principal ctx \<and> tenant = dc_tenant ctx)
              (ValueError ''incoming security claims do not match''),
            require (session_id = dc_child_session_id ctx)
              (ValueError ''incoming child session does not match''),
            require (group_id \<in> {None, Some (dc_execution_group_id ctx)})
              (ValueError ''incoming execution group does not match''),
            require (deadline \<in> {None, Some (dc_absolute_deadline ctx)})
              (ValueError ''incoming deadline does not match'')]) (\<lambda>_.
         Inr (dc_lineage ctx, dc_execution_group_id ctx, dc_absolute_deadline ctx)))
     (\<lambda>(lineage, gid, dl). check_parent_context
        \<lparr>pc_lineage = lineage, pc_execution_group_id = gid, pc_principal = security_principal,
         pc_tenant = tenant, pc_parent_session_id = session_id, pc_absolute_deadline = dl,
         pc_limits = co_limits cf, pc_current_run_id = Some run_id\<rparr>)"

subsection \<open>Checks of a delegation\<close>

definition validate_parent_run_identity :: "'w delegation_call \<Rightarrow> unit res" where
  "validate_parent_run_identity call =
     (let lineage = pc_lineage (ca_parent call);
          expected = (case pc_current_run_id (ca_parent call) of
            Some r \<Rightarrow> Some r | None \<Rightarrow> if ln_depth lineage = 0 then Some (ln_root_run_id lineage) else None)
      in case expected of
        None \<Rightarrow> Inl (fail ''delegation_parent_run_missing'')
      | Some r \<Rightarrow> require (ca_parent_run_id call = r) (fail ''delegation_parent_run_mismatch''))"

definition validate_registry_resolution ::
  "agent_ref \<Rightarrow> 'h resolved_endpoint \<Rightarrow> agent_descriptor \<Rightarrow> string \<Rightarrow> unit res" where
  "validate_registry_resolution requested resolved desc expected =
     (let d = re_definition resolved in require
        (\<not> (re_ref resolved \<noteq> requested \<or> de_ref desc \<noteq> requested \<or> definition_ref d \<noteq> requested \<or>
            re_definition_fingerprint resolved \<noteq> expected \<or>
            re_definition_fingerprint resolved \<noteq> de_definition_fingerprint desc \<or>
            re_status resolved \<noteq> de_status desc \<or> \<not> runnable_in_production (re_status resolved) \<or>
            de_description desc \<noteq> ad_description d \<or> de_callable_by desc \<noteq> ad_callable_by d \<or>
            de_side_effect_level desc \<noteq> ad_side_effect_level d \<or>
            de_data_classification desc \<noteq> ad_data_classification d \<or>
            de_input_contract_digest desc \<noteq> dget (ad_semantic_digests d) ''input_contract'' \<or>
            de_output_contract_digest desc \<noteq> dget (ad_semantic_digests d) ''output_contract'' \<or>
            de_supports_async desc \<noteq> ep_supports_async (re_endpoint resolved) \<or>
            de_supports_stream desc \<noteq> ep_supports_stream (re_endpoint resolved)))
        (DelegationRejected ''delegation_registry_integrity_failed'' False))"

definition validate_contract_digests :: "crypto \<Rightarrow> 'w delegation_call \<Rightarrow> agent_descriptor \<Rightarrow> unit res" where
  "validate_contract_digests c call desc =
     bindR (case de_input_contract_digest desc of None \<Rightarrow> Inr ()
       | Some expected \<Rightarrow> bindR (canonical_digest c (ca_input_schema call)) (\<lambda>actual.
           require (actual = expected) (fail ''delegation_input_contract_mismatch''))) (\<lambda>_.
     (case de_output_contract_digest desc of None \<Rightarrow> Inr ()
       | Some expected \<Rightarrow> bindR (canonical_digest c (ca_output_schema call)) (\<lambda>actual.
           require (actual = expected) (fail ''delegation_output_contract_mismatch''))))"

definition call_context_digest :: "crypto \<Rightarrow> 'w delegation_call \<Rightarrow> string res" where
  "call_context_digest c call =
     bindR (canonical_digest c (ca_input_schema call)) (\<lambda>input.
     bindR (canonical_digest c (ca_output_schema call)) (\<lambda>output_digest.
     Inr (context_digest c
       [(''principal'', PStr (pc_principal (ca_parent call))),
        (''tenant'', PStr (pc_tenant (ca_parent call))),
        (''parent_session_id'', PStr (pc_parent_session_id (ca_parent call))),
        (''request_classification'', PStr (ca_request_classification call)),
        (''session_strategy'', PStr (strategy_value (ca_session_strategy call))),
        (''caller_agent_ref'', PStr (ref_str (ca_caller call))),
        (''callee_agent_ref'', PStr (ref_str (ca_callee call))),
        (''input_contract_digest'', PStr input),
        (''output_contract_digest'', PStr output_digest),
        (''max_result_bytes'', PInt (ca_max_result_bytes call))])))"

definition receipt_candidate ::
  "'w delegation_call \<Rightarrow> string \<Rightarrow> string \<Rightarrow> string \<Rightarrow> string \<Rightarrow> int \<Rightarrow> string \<Rightarrow> string \<Rightarrow>
   delegation_receipt res" where
  "receipt_candidate call i run_id request_digest ctx_digest attempt owner_token lease = check_receipt
     \<lparr>rc_delegation_id = i, rc_execution_group_id = pc_execution_group_id (ca_parent call),
      rc_root_run_id = ln_root_run_id (pc_lineage (ca_parent call)),
      rc_parent_run_id = ca_parent_run_id call, rc_parent_tool_call_id = ca_parent_tool_call_id call,
      rc_caller_agent_ref = ca_caller call, rc_callee_agent_ref = ca_callee call,
      rc_child_run_id = run_id, rc_request_digest = request_digest,
      rc_context_digest = ctx_digest, rc_attempt = attempt, rc_owner_token = Some owner_token,
      rc_status = R_RESERVED, rc_finish_reason = None, rc_retryable = False,
      rc_resumable = False, rc_result_digest = None, rc_result_payload = None,
      rc_result_ref = None, rc_error_code = None, rc_lease_id = Some lease, rc_revision = 1\<rparr>"

definition validate_claim ::
  "crypto \<Rightarrow> delegation_receipt \<Rightarrow> 'w delegation_call \<Rightarrow> string \<Rightarrow> string \<Rightarrow> string \<Rightarrow> string \<Rightarrow> unit res" where
  "validate_claim c actual call i run_id request_digest ctx_digest =
     bindR (lease_id c i (rc_attempt actual)) (\<lambda>lease.
     require (rc_delegation_id actual = i \<and>
        rc_execution_group_id actual = pc_execution_group_id (ca_parent call) \<and>
        rc_root_run_id actual = ln_root_run_id (pc_lineage (ca_parent call)) \<and>
        rc_parent_run_id actual = ca_parent_run_id call \<and>
        rc_parent_tool_call_id actual = ca_parent_tool_call_id call \<and>
        rc_caller_agent_ref actual = ca_caller call \<and> rc_callee_agent_ref actual = ca_callee call \<and>
        rc_child_run_id actual = run_id \<and> rc_request_digest actual = request_digest \<and>
        rc_context_digest actual = ctx_digest \<and> rc_lease_id actual = Some lease)
       (ReceiptStoreError ''delegation_receipt_identity_mismatch''))"

definition validate_lease :: "budget_lease \<Rightarrow> 'w delegation_call \<Rightarrow> delegation_receipt \<Rightarrow> unit res" where
  "validate_lease lease call receipt = all_ok
     [require (Some (bl_lease_id lease) = rc_lease_id receipt) (fail ''delegation_budget_lease_mismatch''),
      require (bl_execution_group_id lease = pc_execution_group_id (ca_parent call))
        (fail ''delegation_budget_group_mismatch''),
      require (bl_callee lease = ca_callee call) (fail ''delegation_budget_callee_mismatch''),
      require (bl_absolute_deadline lease = pc_absolute_deadline (ca_parent call))
        (fail ''delegation_budget_deadline_mismatch'')]"

text \<open>The result a completed receipt replays.\<close>

definition replay :: "crypto \<Rightarrow> delegation_receipt \<Rightarrow> 'w delegation_call \<Rightarrow> pyval res" where
  "replay c receipt call = (case rc_result_payload receipt of
     None \<Rightarrow> Inl (fail ''delegation_result_unavailable'')
   | Some payload \<Rightarrow> (case cr_canonical c payload of
       Inl e \<Rightarrow> Inl (fail ''delegation_result_digest_mismatch'')
     | Inr text \<Rightarrow>
         if ca_max_result_bytes call < int (length text)
         then Inl (failure ''delegated_agent_result_too_large'' ''result_too_large'')
         else if Some (''sha256:'' @ cr_sha256 c text) \<noteq> rc_result_digest receipt
         then Inl (fail ''delegation_result_digest_mismatch'')
         else case ca_validate_output call (PDict payload) of
           None \<Rightarrow> Inl (fail ''delegation_replay_validation_failed'')
         | Some output_value \<Rightarrow> Inr output_value))"

definition finish_reason_code :: "string option \<Rightarrow> string" where
  "finish_reason_code reason = (case reason of None \<Rightarrow> ''delegated_agent_failed'' | Some r \<Rightarrow>
     dget_or [(''timeout'', ''delegated_agent_timeout''),
              (''max_model_turns'', ''delegated_agent_max_model_turns''),
              (''max_tool_calls'', ''delegated_agent_max_tool_calls''),
              (''no_progress'', ''delegated_agent_no_progress''),
              (''output_validation'', ''delegated_agent_output_validation_failed''),
              (''result_too_large'', ''delegated_agent_result_too_large'')] r ''delegated_agent_failed'')"

definition outcome_failure_code :: "delegation_outcome \<Rightarrow> string" where
  "outcome_failure_code oc =
     (if oc_status oc = OCancelled then ''delegated_agent_cancelled''
      else if oc_status oc = OManualRequired then ''delegation_reconciliation_required''
      else finish_reason_code (oc_finish_reason oc))"

definition receipt_failure_code :: "delegation_receipt \<Rightarrow> string" where
  "receipt_failure_code r =
     (if rc_status r = R_CANCELLED then ''delegated_agent_cancelled''
      else if rc_status r = R_MANUAL_REQUIRED then ''delegation_reconciliation_required''
      else finish_reason_code (rc_finish_reason r))"

text \<open>
  The output of a completed child: validated by the call's output model, serialised to an object and
  to canonical JSON; \<^term>\<open>None\<close> when any of it fails.
\<close>

definition output_payload ::
  "crypto \<Rightarrow> 'w delegation_call \<Rightarrow> pyval option \<Rightarrow> (pyval \<times> (string, pyval) dict \<times> string) option" where
  "output_payload c call raw =
     (case ca_validate_output call (case raw of None \<Rightarrow> PNone | Some v \<Rightarrow> v) of
        None \<Rightarrow> None
      | Some output_value \<Rightarrow> (case ca_dump_output call output_value of
          PDict payload \<Rightarrow> (case cr_canonical c payload of
            Inl e \<Rightarrow> None | Inr text \<Rightarrow> Some (output_value, payload, text))
        | _ \<Rightarrow> None))"

definition mk_outcome ::
  "delegation_outcome_status \<Rightarrow> string \<Rightarrow> string \<Rightarrow> string \<Rightarrow> (string, rat) dict \<Rightarrow> delegation_outcome res" where
  "mk_outcome st run_id reason code usage = check_outcome
     \<lparr>oc_status = st, oc_child_run_id = run_id, oc_finish_reason = Some reason, oc_output = None,
      oc_error_code = Some code, oc_retryable = False, oc_resumable = False, oc_usage = []\<rparr>
     (map (\<lambda>(k, v). (k, PFloat v)) usage)"

text \<open>The lease states that agree with a receipt of each status.\<close>

fun allowed_lease_states :: "receipt_status \<Rightarrow> lease_status list" where
  "allowed_lease_states R_RESERVED = [L_ACTIVE]"
| "allowed_lease_states R_RUNNING = [L_ACTIVE]"
| "allowed_lease_states R_COMPLETED = [L_COMPLETED]"
| "allowed_lease_states R_FAILED = [L_COMPLETED, L_RELEASED]"
| "allowed_lease_states R_CANCELLED = [L_COMPLETED, L_RELEASED, L_CANCELLED]"
| "allowed_lease_states R_MANUAL_REQUIRED = [L_ACTIVE, L_COMPLETED, L_RELEASED, L_CANCELLED]"

end
