(* ===== verification/Coordinator.thy ===== *)
theory Coordinator
  imports Coordinator_Model
begin

text \<open>
  The delegation coordinator (\<^verbatim>\<open>moduagent/delegation/coordinator.py\<close>), second part: its operations as
  programs over the world of budgets, receipts and the coordinator's own sets of leases.  The event
  sink, the callback of a call, the authorizer and the endpoint handlers are programs given by the
  configuration or the call.  The per-delegation lock and the bookkeeping of task handles are
  suspensions: other coordinators may act there in any case.
\<close>

type_synonym 'a cworld = "'a coordinator_world_scheme"

subsection \<open>Events\<close>

text \<open>\<^verbatim>\<open>try: ... except Exception: pass\<close>\<close>

definition swallow :: "('w, unit) prog \<Rightarrow> ('w, unit) prog" where
  "swallow m = catchP m (\<lambda>e. if is_exception e then ret () else raise e)"

definition emit ::
  "'a cworld coordinator \<Rightarrow> event_type \<Rightarrow> 'a cworld delegation_call \<Rightarrow> string \<Rightarrow> string option \<Rightarrow>
   string option \<Rightarrow> string option \<Rightarrow> ('a cworld, unit) prog" where
  "emit cf ty call i run_id st code =
     bindP (ofR (check_event
       \<lparr>ev_type = ty, ev_execution_group_id = pc_execution_group_id (ca_parent call),
        ev_delegation_id = i, ev_lineage = pc_lineage (ca_parent call),
        ev_caller = ca_caller call, ev_callee = ca_callee call,
        ev_parent_tool_call_id = ca_parent_tool_call_id call, ev_child_run_id = run_id,
        ev_status = st, ev_code = code\<rparr>)) (\<lambda>event.
     bindP (swallow (co_publish cf event)) (\<lambda>_.
     case ca_event_callback call of None \<Rightarrow> ret () | Some callback \<Rightarrow> swallow (callback event)))"

subsection \<open>Settling leases\<close>

definition settle :: "budget_lease \<Rightarrow> 'a cworld \<Rightarrow> 'a cworld" where
  "settle lease w = w\<lparr>settled_lease_ids := bl_lease_id lease # settled_lease_ids w\<rparr>"

definition unsettle :: "budget_lease \<Rightarrow> 'a cworld \<Rightarrow> 'a cworld" where
  "unsettle lease w = w\<lparr>settled_lease_ids := removeAll (bl_lease_id lease) (settled_lease_ids w)\<rparr>"

definition retain_lease :: "budget_lease \<Rightarrow> 'a cworld \<Rightarrow> 'a cworld" where
  "retain_lease lease w = w\<lparr>retained_lease_ids := bl_lease_id lease # retained_lease_ids w\<rparr>"

definition best_effort_release ::
  "'a cworld env \<Rightarrow> 'a cworld coordinator \<Rightarrow> budget_lease \<Rightarrow> ('a cworld, unit) prog" where
  "best_effort_release E cf lease =
     bindP (readP (\<lambda>w. bl_lease_id lease \<in> set (retained_lease_ids w) \<or>
                        bl_lease_id lease \<in> set (settled_lease_ids w))) (\<lambda>skip.
     if skip then ret ()
     else bindP (catchP (bindP (release_lease E (co_attempts cf) lease) (\<lambda>_. ret True))
            (\<lambda>e. if is_exception e then ret False else raise e)) (\<lambda>released.
          if released then modifyP (settle lease) else ret ()))"

definition complete_settled ::
  "'a cworld env \<Rightarrow> 'a cworld coordinator \<Rightarrow> budget_lease \<Rightarrow> (string, pyval) dict \<Rightarrow> ('a cworld, unit) prog"
  where
  "complete_settled E cf lease usage =
     bindP (complete_lease E (co_attempts cf) lease usage) (\<lambda>_. modifyP (settle lease))"

definition reconcile_settled ::
  "'a cworld env \<Rightarrow> 'a cworld coordinator \<Rightarrow> budget_lease \<Rightarrow> (string, pyval) dict \<Rightarrow> ('a cworld, unit) prog"
  where
  "reconcile_settled E cf lease usage =
     bindP (reconcile_completed_lease E (co_attempts cf) lease usage) (\<lambda>_. modifyP (settle lease))"

text \<open>The clean-up has the grace period as its timeout: an expiry is an exception of the handler.\<close>

definition cleanup_checkpoint ::
  "'a cworld handler_endpoint \<Rightarrow> delegation_context \<Rightarrow> budget_lease \<Rightarrow> string \<Rightarrow> ('a cworld, unit) prog" where
  "cleanup_checkpoint ep ctx lease run_id = swallow (invoker_cleanup ep ctx lease run_id)"

definition usage_values :: "(string, rat) dict \<Rightarrow> (string, pyval) dict" where
  "usage_values u = map (\<lambda>(k, v). (k, PFloat v)) u"

subsection \<open>Finishing an outcome\<close>

definition persist_failure ::
  "'a cworld env \<Rightarrow> 'a cworld coordinator \<Rightarrow> 'a cworld delegation_call \<Rightarrow> delegation_receipt \<Rightarrow>
   delegation_outcome \<Rightarrow> ('a cworld, unit) prog" where
  "persist_failure E cf call receipt outcome =
     (let st = (case oc_status outcome of
            OFailed \<Rightarrow> R_FAILED | OCancelled \<Rightarrow> R_CANCELLED | OManualRequired \<Rightarrow> R_MANUAL_REQUIRED
          | OCompleted \<Rightarrow> R_FAILED);
          code = outcome_failure_code outcome in
      bindP (transition_loop E (co_attempts cf) (rc_delegation_id receipt) [R_RUNNING] st
        [C_finish_reason (oc_finish_reason outcome), C_retryable False,
         C_resumable (oc_resumable outcome), C_error_code (Some code)]) (\<lambda>_.
      emit cf (if st = R_MANUAL_REQUIRED then E_RECONCILIATION_REQUIRED else E_FAILED) call
        (rc_delegation_id receipt) (Some (rc_child_run_id receipt))
        (Some (case st of R_MANUAL_REQUIRED \<Rightarrow> ''manual_required'' | R_CANCELLED \<Rightarrow> ''cancelled''
               | _ \<Rightarrow> ''failed''))
        (Some code)))"

definition settle_output_failure ::
  "'a cworld env \<Rightarrow> 'a cworld coordinator \<Rightarrow> 'a cworld delegation_call \<Rightarrow> delegation_receipt \<Rightarrow>
   budget_lease \<Rightarrow> (string, rat) dict \<Rightarrow> string \<Rightarrow> string \<Rightarrow> ('a cworld, unit) prog" where
  "settle_output_failure E cf call receipt lease usage reason code =
     bindP (ofR (mk_outcome OFailed (rc_child_run_id receipt) reason code usage)) (\<lambda>oc.
     bindP (persist_failure E cf call receipt oc) (\<lambda>_.
     bindP (modifyP (settle lease)) (\<lambda>_. complete_settled E cf lease (usage_values usage))))"

definition recover_completed_race ::
  "'a cworld env \<Rightarrow> 'a cworld coordinator \<Rightarrow> 'a cworld delegation_call \<Rightarrow> delegation_receipt \<Rightarrow> string \<Rightarrow>
   budget_lease \<Rightarrow> (string, rat) dict \<Rightarrow> 'a cworld handler_endpoint \<Rightarrow> delegation_context \<Rightarrow>
   ('a cworld, pyval) prog" where
  "recover_completed_race E cf call prior digest lease usage ep ctx =
     bindP (receipt_get E (rc_delegation_id prior)) (\<lambda>found. case found of
       None \<Rightarrow> raise (fail ''delegation_terminal_race_mismatch'')
     | Some current \<Rightarrow>
         if rc_status current \<noteq> R_COMPLETED \<or> rc_attempt current \<noteq> rc_attempt prior \<or>
            rc_result_digest current \<noteq> Some digest
         then raise (fail ''delegation_terminal_race_mismatch'')
         else bindP (case bindR (validate_claim (co_crypto cf) current call (rc_delegation_id prior)
                  (rc_child_run_id prior) (rc_request_digest prior) (rc_context_digest prior)) (\<lambda>_.
                replay (co_crypto cf) current call) of
              Inr v \<Rightarrow> ret v
            | Inl (DelegationFailure c k) \<Rightarrow> raise (fail ''delegation_terminal_race_mismatch'')
            | Inl (ReceiptStoreError c) \<Rightarrow> raise (fail ''delegation_terminal_race_mismatch'')
            | Inl e \<Rightarrow> raise e) (\<lambda>output_value.
         bindP (modifyP (settle lease)) (\<lambda>_.
         bindP (reconcile_settled E cf lease (usage_values usage)) (\<lambda>_.
         bindP (emit cf E_COMPLETED call (rc_delegation_id current) (Some (rc_child_run_id current))
           (Some ''reconciled'') None) (\<lambda>_.
         bindP (cleanup_checkpoint ep ctx lease (rc_child_run_id current)) (\<lambda>_. ret output_value))))))"

definition finish_completed ::
  "'a cworld env \<Rightarrow> 'a cworld coordinator \<Rightarrow> 'a cworld delegation_call \<Rightarrow> delegation_receipt \<Rightarrow>
   delegation_outcome \<Rightarrow> budget_lease \<Rightarrow> 'a cworld handler_endpoint \<Rightarrow> delegation_context \<Rightarrow>
   ('a cworld, pyval) prog" where
  "finish_completed E cf call receipt outcome lease ep ctx =
     (case output_payload (co_crypto cf) call (oc_output outcome) of
        None \<Rightarrow> bindP (settle_output_failure E cf call receipt lease (oc_usage outcome)
            ''output_validation'' ''delegated_agent_output_validation_failed'')
          (\<lambda>_. raise (fail ''delegated_agent_output_validation_failed''))
      | Some (output_value, payload, text) \<Rightarrow>
          if ca_max_result_bytes call < int (length text)
          then bindP (settle_output_failure E cf call receipt lease (oc_usage outcome)
              ''result_too_large'' ''delegated_agent_result_too_large'')
            (\<lambda>_. raise (failure ''delegated_agent_result_too_large'' ''result_too_large''))
          else let digest = ''sha256:'' @ cr_sha256 (co_crypto cf) text in
            bindP (catchP
              (bindP (transition_loop E (co_attempts cf) (rc_delegation_id receipt) [R_RUNNING] R_COMPLETED
                [C_finish_reason (Some (case oc_finish_reason outcome of None \<Rightarrow> ''completed''
                                        | Some [] \<Rightarrow> ''completed'' | Some r \<Rightarrow> r)),
                 C_retryable False, C_resumable False, C_result_payload (Some payload),
                 C_result_digest (Some digest), C_error_code None]) (\<lambda>_. ret None))
              (\<lambda>e. if e = ReceiptStoreError ''delegation_receipt_state_conflict''
                   then bindP (recover_completed_race E cf call receipt digest lease (oc_usage outcome)
                          ep ctx) (\<lambda>v. ret (Some v))
                   else raise e)) (\<lambda>recovered. case recovered of
              Some v \<Rightarrow> ret v
            | None \<Rightarrow>
                bindP (modifyP (settle lease)) (\<lambda>_.
                bindP (complete_settled E cf lease (usage_values (oc_usage outcome))) (\<lambda>_.
                bindP (emit cf E_COMPLETED call (rc_delegation_id receipt)
                  (Some (rc_child_run_id receipt)) (Some ''completed'') None) (\<lambda>_.
                bindP (cleanup_checkpoint ep ctx lease (rc_child_run_id receipt)) (\<lambda>_.
                ret output_value))))))"

definition finish_outcome ::
  "'a cworld env \<Rightarrow> 'a cworld coordinator \<Rightarrow> 'a cworld delegation_call \<Rightarrow> delegation_receipt \<Rightarrow>
   delegation_outcome \<Rightarrow> budget_lease \<Rightarrow> 'a cworld handler_endpoint \<Rightarrow> delegation_context \<Rightarrow>
   ('a cworld, pyval) prog" where
  "finish_outcome E cf call receipt outcome lease ep ctx =
     (if oc_child_run_id outcome \<noteq> rc_child_run_id receipt then
        bindP (ofR (mk_outcome OFailed (rc_child_run_id receipt) ''error''
          ''delegation_child_run_id_mismatch'' (oc_usage outcome))) (\<lambda>oc.
        bindP (persist_failure E cf call receipt oc) (\<lambda>_.
        bindP (modifyP (settle lease)) (\<lambda>_.
        bindP (complete_settled E cf lease (usage_values (oc_usage outcome))) (\<lambda>_.
        raise (fail ''delegation_child_run_id_mismatch'')))))
      else if oc_status outcome = OCompleted then
        finish_completed E cf call receipt outcome lease ep ctx
      else
        bindP (persist_failure E cf call receipt outcome) (\<lambda>_.
        bindP (modifyP (settle lease)) (\<lambda>_.
        bindP (if oc_finish_reason outcome \<noteq> Some ''cancellation_unconfirmed''
               then complete_settled E cf lease (usage_values (oc_usage outcome)) else ret ()) (\<lambda>_.
        raise (failure (outcome_failure_code outcome)
          (if oc_status outcome = OCancelled then ''cancelled''
           else if oc_finish_reason outcome = Some ''timeout'' then ''timeout''
           else ''execution_error''))))))"

subsection \<open>Running the child\<close>

definition terminal_receipt_after_cancellation ::
  "'a cworld env \<Rightarrow> 'a cworld coordinator \<Rightarrow> 'a cworld delegation_call \<Rightarrow> string \<Rightarrow> bool \<Rightarrow>
   ('a cworld, unit) prog" where
  "terminal_receipt_after_cancellation E cf call run_id confirmed =
     bindP (ofR (bindR (canonical_digest (co_crypto cf) (ca_request_payload call)) (\<lambda>q.
       delegation_id (co_crypto cf) (ca_parent_run_id call) (ca_parent_tool_call_id call) q))) (\<lambda>i.
     bindP (receipt_get E i) (\<lambda>found. case found of
       None \<Rightarrow> ret ()
     | Some receipt \<Rightarrow>
         if rc_status receipt \<noteq> R_RUNNING then ret ()
         else
           let code = (if confirmed then ''delegated_agent_cancelled''
                       else ''delegation_cancellation_unconfirmed'') in
           catchP
             (bindP (transition_loop E (co_attempts cf) (rc_delegation_id receipt) [R_RUNNING]
               (if confirmed then R_CANCELLED else R_MANUAL_REQUIRED)
               [C_finish_reason (Some (if confirmed then ''cancelled'' else ''cancellation_unconfirmed'')),
                C_retryable False, C_resumable False, C_error_code (Some code)]) (\<lambda>_.
              emit cf (if confirmed then E_FAILED else E_RECONCILIATION_REQUIRED) call
                (rc_delegation_id receipt) (Some run_id)
                (Some (if confirmed then ''cancelled'' else ''manual_required'')) (Some code)))
             (\<lambda>e. case e of ReceiptStoreError c \<Rightarrow> ret () | _ \<Rightarrow> raise e)))"

definition after_caller_cancelled ::
  "'a cworld env \<Rightarrow> 'a cworld coordinator \<Rightarrow> 'a cworld delegation_call \<Rightarrow> budget_lease \<Rightarrow> string \<Rightarrow>
   bool \<Rightarrow> ('a cworld, delegation_outcome) prog" where
  "after_caller_cancelled E cf call lease run_id confirmed =
     bindP (if confirmed then ret () else modifyP (retain_lease lease)) (\<lambda>_.
     bindP (terminal_receipt_after_cancellation E cf call run_id confirmed) (\<lambda>_.
     raise CancelledError))"

definition invoke_child ::
  "'a cworld env \<Rightarrow> 'a cworld coordinator \<Rightarrow> 'a cworld handler_endpoint \<Rightarrow> 'a cworld delegation_call \<Rightarrow>
   delegation_context \<Rightarrow> budget_lease \<Rightarrow> string \<Rightarrow> bool \<Rightarrow> ('a cworld, delegation_outcome) prog" where
  "invoke_child E cf ep call ctx lease run_id resume =
     bindP (readP now) (\<lambda>t.
     if bl_absolute_deadline lease - t \<le> 0
     then ofR (mk_outcome OFailed run_id ''timeout'' ''delegated_agent_timeout'' [])
     else
       bindP (suspend E) (\<lambda>_.
       bindP (readP (co_fate cf)) (\<lambda>fate. case fate of
         Task_Done \<Rightarrow>
           catchP (if resume then invoker_resume ep (ca_request call) ctx lease run_id
                   else invoker_invoke ep (ca_request call) ctx lease run_id)
             (\<lambda>e. case e of
                CancelledError \<Rightarrow> after_caller_cancelled E cf call lease run_id True
              | DelegationEndpointError c \<Rightarrow> ofR (mk_outcome OFailed run_id ''error'' c [])
              | FuelOut \<Rightarrow> raise FuelOut
              | _ \<Rightarrow> ofR (mk_outcome OFailed run_id ''error'' ''delegated_agent_invocation_failed'' []))
       | Task_Timed_Out stopped \<Rightarrow>
           bindP (suspend E) (\<lambda>_.
           if stopped then ofR (mk_outcome OFailed run_id ''timeout'' ''delegated_agent_timeout'' [])
           else bindP (modifyP (retain_lease lease)) (\<lambda>_.
             ofR (mk_outcome OManualRequired run_id ''cancellation_unconfirmed''
               ''delegation_cancellation_unconfirmed'' [])))
       | Task_Caller_Cancelled stopped \<Rightarrow>
           bindP (suspend E) (\<lambda>_. after_caller_cancelled E cf call lease run_id stopped))))"

text \<open>A receipt whose owner may be gone: it is fenced once the deadline has passed.\<close>

definition fence_receipt ::
  "'a cworld env \<Rightarrow> 'a cworld coordinator \<Rightarrow> 'a cworld delegation_call \<Rightarrow> delegation_receipt \<Rightarrow> string \<Rightarrow>
   ('a cworld, unit) prog" where
  "fence_receipt E cf call receipt code =
     bindP (mark_manual_required E (co_attempts cf) receipt code) (\<lambda>_.
     emit cf E_RECONCILIATION_REQUIRED call (rc_delegation_id receipt)
       (Some (rc_child_run_id receipt)) None (Some code))"

definition reconcile_claim ::
  "'a cworld env \<Rightarrow> 'a cworld coordinator \<Rightarrow> 'a cworld delegation_call \<Rightarrow> 'a cworld handler_endpoint \<Rightarrow>
   delegation_context \<Rightarrow> budget_lease \<Rightarrow> delegation_receipt \<Rightarrow> ('a cworld, pyval) prog" where
  "reconcile_claim E cf call ep ctx lease receipt =
     bindP (catchP (invoker_reconcile ep ctx lease (rc_child_run_id receipt))
       (\<lambda>e. if \<not> is_exception e then raise e else
          bindP (readP now) (\<lambda>t.
          if rc_status receipt \<in> {R_RESERVED, R_RUNNING} \<and> dc_absolute_deadline ctx \<le> t
          then bindP (fence_receipt E cf call receipt ''delegation_reconciliation_failed'') (\<lambda>_.
               raise (fail ''delegation_reconciliation_failed''))
          else raise (fail ''delegation_in_progress'')))) (\<lambda>reconciled. case reconciled of
       Some outcome \<Rightarrow>
         bindP (if rc_status receipt = R_RESERVED
                then transition_loop E (co_attempts cf) (rc_delegation_id receipt) [R_RESERVED] R_RUNNING
                  [C_lease_id (Some (bl_lease_id lease)), C_attempt (rc_attempt receipt),
                   C_owner_token (rc_owner_token receipt)]
                else ret receipt) (\<lambda>running.
         finish_outcome E cf call running outcome lease ep ctx)
     | None \<Rightarrow>
         bindP (readP now) (\<lambda>t.
         if rc_status receipt \<in> {R_RESERVED, R_RUNNING} \<and> dc_absolute_deadline ctx \<le> t
         then bindP (fence_receipt E cf call receipt ''delegation_reconciliation_required'') (\<lambda>_.
              raise (fail ''delegation_reconciliation_required''))
         else raise (fail ''delegation_in_progress'')))"

definition start_claim ::
  "'a cworld env \<Rightarrow> 'a cworld coordinator \<Rightarrow> 'a cworld delegation_call \<Rightarrow> 'a cworld handler_endpoint \<Rightarrow>
   delegation_context \<Rightarrow> budget_lease \<Rightarrow> delegation_receipt \<Rightarrow> bool \<Rightarrow> ('a cworld, pyval) prog" where
  "start_claim E cf call ep ctx lease receipt resumed =
     bindP (transition_loop E (co_attempts cf) (rc_delegation_id receipt) [R_RESERVED] R_RUNNING
       [C_finish_reason None, C_retryable False, C_resumable False, C_error_code None,
        C_lease_id (Some (bl_lease_id lease)), C_attempt (rc_attempt receipt),
        C_owner_token (rc_owner_token receipt)]) (\<lambda>running.
     bindP (emit cf (if resumed then E_RESUMED else E_STARTED) call (rc_delegation_id running)
       (Some (rc_child_run_id running)) None None) (\<lambda>_.
     bindP (invoke_child E cf ep call ctx lease (rc_child_run_id running) resumed) (\<lambda>outcome.
     finish_outcome E cf call running outcome lease ep ctx)))"

definition handle_claim ::
  "'a cworld env \<Rightarrow> 'a cworld coordinator \<Rightarrow> 'a cworld delegation_call \<Rightarrow> 'a cworld handler_endpoint \<Rightarrow>
   delegation_context \<Rightarrow> budget_lease \<Rightarrow> delegation_receipt \<Rightarrow> bool \<Rightarrow> bool \<Rightarrow>
   ('a cworld, pyval) prog" where
  "handle_claim E cf call ep ctx lease receipt created resumed =
     (case receipt_action receipt created (ca_allow_resume call) of
        A_REPLAY \<Rightarrow>
          bindP (ofR (replay (co_crypto cf) receipt call)) (\<lambda>output_value.
          bindP (reconcile_settled E cf lease []) (\<lambda>_.
          bindP (cleanup_checkpoint ep ctx lease (rc_child_run_id receipt)) (\<lambda>_.
          bindP (emit cf E_COMPLETED call (rc_delegation_id receipt)
            (Some (rc_child_run_id receipt)) (Some ''replayed'') None) (\<lambda>_.
          ret output_value))))
      | A_TERMINAL_FAILURE \<Rightarrow> raise (failure (receipt_failure_code receipt)
          (if rc_finish_reason receipt = Some ''result_too_large'' then ''result_too_large''
           else ''execution_error''))
      | A_TERMINAL_CANCELLED \<Rightarrow> raise (failure ''delegated_agent_cancelled'' ''cancelled'')
      | A_MANUAL_REQUIRED \<Rightarrow> raise (fail ''delegation_reconciliation_required'')
      | A_RECONCILE \<Rightarrow> reconcile_claim E cf call ep ctx lease receipt
      | A_RESUME \<Rightarrow> raise (fail ''delegation_resume_ownership_missing'')
      | A_START \<Rightarrow> start_claim E cf call ep ctx lease receipt resumed)"

subsection \<open>Leases of earlier attempts\<close>

text \<open>Always raises; the \<^verbatim>\<open>AssertionError\<close> after its call in the source is unreachable.\<close>

definition handle_missing_or_invalid_lease ::
  "'a cworld env \<Rightarrow> 'a cworld coordinator \<Rightarrow> 'a cworld delegation_call \<Rightarrow> delegation_receipt \<Rightarrow>
   ('a cworld, unit) prog" where
  "handle_missing_or_invalid_lease E cf call receipt =
     bindP (readP now) (\<lambda>t.
     if rc_status receipt = R_RESERVED \<and> t < pc_absolute_deadline (ca_parent call)
     then raise (fail ''delegation_in_progress'')
     else
       bindP (if rc_status receipt \<in> {R_RESERVED, R_RUNNING} then
            catchP (fence_receipt E cf call receipt ''delegation_lease_reconciliation_required'')
              (\<lambda>e. case e of ReceiptStoreError c \<Rightarrow> raise (fail ''delegation_in_progress'') | _ \<Rightarrow> raise e)
          else ret ()) (\<lambda>_.
       raise (fail ''delegation_reconciliation_required'')))"

definition validate_existing_receipt_lease ::
  "'a cworld env \<Rightarrow> 'a cworld coordinator \<Rightarrow> 'a cworld delegation_call \<Rightarrow> delegation_receipt \<Rightarrow>
   budget_lease \<Rightarrow> ('a cworld, unit) prog" where
  "validate_existing_receipt_lease E cf call receipt lease =
     bindP (catchP (inspect_lease E lease) (\<lambda>e. case e of
         BudgetExceeded c \<Rightarrow> bindP (handle_missing_or_invalid_lease E cf call receipt)
            (\<lambda>_. raise (OtherException ''AssertionError''))
       | _ \<Rightarrow> raise e)) (\<lambda>st.
     bindP (if st = L_ACTIVE \<and> rc_status receipt \<in> {R_COMPLETED, R_FAILED, R_CANCELLED}
            then bindP (reconcile_completed_lease E (co_attempts cf) lease []) (\<lambda>_. ret L_COMPLETED)
            else ret st) (\<lambda>st'.
     if st' \<notin> set (allowed_lease_states (rc_status receipt))
     then handle_missing_or_invalid_lease E cf call receipt else ret ()))"

definition claim_resume_attempt ::
  "'a cworld env \<Rightarrow> 'a cworld coordinator \<Rightarrow> delegation_receipt \<Rightarrow> string \<Rightarrow>
   ('a cworld, delegation_receipt) prog" where
  "claim_resume_attempt E cf receipt owner_token =
     bindP (ofR (lease_id (co_crypto cf) (rc_delegation_id receipt) (rc_attempt receipt + 1))) (\<lambda>lease.
     transition_loop E (co_attempts cf) (rc_delegation_id receipt) [R_FAILED] R_RESERVED
       [C_finish_reason None, C_retryable False, C_resumable False, C_error_code None,
        C_attempt (rc_attempt receipt + 1), C_owner_token (Some owner_token),
        C_lease_id (Some lease)])"

definition mark_reservation_uncertain ::
  "'a cworld env \<Rightarrow> 'a cworld coordinator \<Rightarrow> 'a cworld delegation_call \<Rightarrow> delegation_receipt \<Rightarrow>
   ('a cworld, unit) prog" where
  "mark_reservation_uncertain E cf call receipt =
     swallow (fence_receipt E cf call receipt ''delegation_budget_reservation_uncertain'')"

subsection \<open>Delegating\<close>

text \<open>What is decided before a receipt is claimed: the endpoint, the child and its session.\<close>

definition admit ::
  "'a cworld env \<Rightarrow> 'a cworld coordinator \<Rightarrow> 'a cworld delegation_call \<Rightarrow> string \<Rightarrow> string \<Rightarrow>
   ('a cworld, 'a cworld handler_endpoint \<times> run_lineage \<times> string) prog" where
  "admit E cf call i run_id =
     bindP (ofR (resolve (ca_callee call) (co_registry cf))) (\<lambda>resolved.
     bindP (ofR (descriptor (ca_callee call) (co_registry cf))) (\<lambda>desc.
     bindP (ofR (validate_registry_resolution (ca_callee call) resolved desc
       (ca_expected_fingerprint call))) (\<lambda>_.
     bindP (if \<not> ep_approved (re_endpoint resolved)
        then raise (DelegationRejected (if ep_kind (re_endpoint resolved) = ''remote''
          then ''delegation_remote_endpoint_not_approved'' else ''delegation_endpoint_not_approved'') True)
        else ret ()) (\<lambda>_.
     bindP (ofR (validate_contract_digests (co_crypto cf) call desc)) (\<lambda>_.
     bindP (authorize_or_reject (co_authorize cf (ca_caller call) (ca_callee call) desc
       (ca_parent call) (ca_request_classification call))) (\<lambda>_.
     bindP (ofR (cycle_guard (pc_lineage (ca_parent call)) (ca_callee call)
       (pc_limits (ca_parent call)))) (\<lambda>_.
     bindP (case co_cycle_guard cf of None \<Rightarrow> ret ()
        | Some g \<Rightarrow> ofR (g (pc_lineage (ca_parent call)) (ca_callee call) (pc_limits (ca_parent call)))) (\<lambda>_.
     bindP (emit cf E_AUTHORIZED call i (Some run_id) None None) (\<lambda>_.
     bindP (ensure_group E (pc_execution_group_id (ca_parent call)) (pc_limits (ca_parent call))
       (Some (pc_absolute_deadline (ca_parent call)))) (\<lambda>_.
     bindP (ofR (lineage_child (pc_lineage (ca_parent call)) (ca_callee call)
       (ca_parent_run_id call) i (ca_parent_tool_call_id call))) (\<lambda>lineage.
     bindP (ofR (session_create (co_crypto cf) (co_allow_shared cf) (ca_session_strategy call)
       (pc_tenant (ca_parent call)) (pc_parent_session_id (ca_parent call)) (ca_callee call) i)) (\<lambda>session.
     if ca_session_strategy call \<noteq> SHARED \<and> session = pc_parent_session_id (ca_parent call)
     then raise (fail ''delegation_session_isolation_failed'')
     else ret (re_endpoint resolved, lineage, session)))))))))))))"

text \<open>The handlers of the outer \<^verbatim>\<open>try\<close>; \<open>owned\<close> is the lease this call has reserved itself.\<close>

definition translate_failure ::
  "'a cworld env \<Rightarrow> 'a cworld coordinator \<Rightarrow> 'a cworld delegation_call \<Rightarrow> string \<Rightarrow> string \<Rightarrow>
   budget_lease option \<Rightarrow> exn \<Rightarrow> ('a cworld, 'b) prog" where
  "translate_failure E cf call i run_id owned e =
     (let release = (case owned of None \<Rightarrow> ret () | Some lease \<Rightarrow> best_effort_release E cf lease);
          rejected = (\<lambda>code. emit cf E_REJECTED call i (Some run_id) None (Some code)) in
      case e of
        FuelOut \<Rightarrow> raise FuelOut
      | CancelledError \<Rightarrow> bindP release (\<lambda>_. raise CancelledError)
      | DelegationRejected code unauthorized \<Rightarrow>
          bindP (rejected code) (\<lambda>_. bindP release (\<lambda>_.
          raise (failure code (if unauthorized then ''unauthorized'' else ''execution_error''))))
      | BudgetExceeded code \<Rightarrow>
          bindP (rejected code) (\<lambda>_. bindP release (\<lambda>_.
          raise (failure code (if code = ''execution_group_timeout'' then ''timeout''
                               else ''execution_error''))))
      | AgentNotFoundError \<Rightarrow> bindP release (\<lambda>_. raise (fail ''delegation_agent_not_found''))
      | AgentDefinitionNotRunnableError \<Rightarrow>
          bindP release (\<lambda>_. raise (fail ''delegation_agent_not_runnable''))
      | AgentDefinitionConflictError \<Rightarrow> bindP release (\<lambda>_. raise (fail ''delegation_registry_failed''))
      | ReceiptStoreError code \<Rightarrow> bindP release (\<lambda>_. raise (fail code))
      | DelegationFailure code kind \<Rightarrow> bindP release (\<lambda>_. raise e)
      | _ \<Rightarrow> bindP release (\<lambda>_. raise (fail ''delegation_coordinator_failed'')))"

text \<open>
  From the lease on, the \<^verbatim>\<open>finally\<close> clause forgets that the lease is settled.  (The event a retained
  lease's background task waits for is not part of the world.)
\<close>

definition run_leased ::
  "'a cworld env \<Rightarrow> 'a cworld coordinator \<Rightarrow> 'a cworld delegation_call \<Rightarrow> string \<Rightarrow> string \<Rightarrow>
   'a cworld handler_endpoint \<Rightarrow> run_lineage \<Rightarrow> string \<Rightarrow> delegation_receipt \<Rightarrow> bool \<Rightarrow> bool \<Rightarrow>
   budget_lease \<Rightarrow> ('a cworld, pyval) prog" where
  "run_leased E cf call i run_id ep lineage session receipt created resumed lease =
     finallyP (catchP
       (bindP (ofR (validate_lease lease call receipt)) (\<lambda>_.
        bindP (ofR (check_context
          \<lparr>dc_lineage = lineage, dc_execution_group_id = pc_execution_group_id (ca_parent call),
           dc_principal = pc_principal (ca_parent call), dc_tenant = pc_tenant (ca_parent call),
           dc_absolute_deadline = bl_absolute_deadline lease, dc_child_session_id = session,
           dc_request_classification = ca_request_classification call\<rparr>)) (\<lambda>ctx.
        handle_claim E cf call ep ctx lease receipt created resumed)))
       (translate_failure E cf call i run_id (if created then Some lease else None)))
     (unsettle lease)"

definition reserve_claimed ::
  "'a cworld env \<Rightarrow> 'a cworld coordinator \<Rightarrow> 'a cworld delegation_call \<Rightarrow> delegation_receipt \<Rightarrow>
   ('a cworld, budget_lease) prog" where
  "reserve_claimed E cf call receipt =
     catchP (reserve_delegation E (co_attempts cf) (co_fuel cf) (pc_execution_group_id (ca_parent call))
         (ca_callee call) (rc_lease_id receipt) [])
       (\<lambda>e. if is_exception e
            then bindP (mark_reservation_uncertain E cf call receipt) (\<lambda>_. raise e) else raise e)"

text \<open>A receipt that was already there: its lease is checked, and a resumable failure claimed again.\<close>

definition take_over_claim ::
  "'a cworld env \<Rightarrow> 'a cworld coordinator \<Rightarrow> 'a cworld delegation_call \<Rightarrow> delegation_receipt \<Rightarrow>
   budget_lease \<Rightarrow> string \<Rightarrow> ('a cworld, delegation_receipt \<times> bool) prog" where
  "take_over_claim E cf call receipt lease owner_token =
     bindP (validate_existing_receipt_lease E cf call receipt lease) (\<lambda>_.
     if receipt_action receipt False (ca_allow_resume call) = A_RESUME
     then bindP (catchP (claim_resume_attempt E cf receipt owner_token)
            (\<lambda>e. if e = ReceiptStoreError ''delegation_receipt_state_conflict''
                 then raise (fail ''delegation_in_progress'') else raise e)) (\<lambda>r. ret (r, True))
     else ret (receipt, False))"

definition existing_lease :: "'w delegation_call \<Rightarrow> delegation_receipt \<Rightarrow> budget_lease res" where
  "existing_lease call receipt = (case rc_lease_id receipt of
     None \<Rightarrow> Inl (ValueError ''lease_id must be a non-empty stable identifier'')
   | Some l \<Rightarrow> BudgetLease l (pc_execution_group_id (ca_parent call)) (ca_callee call)
       (pc_absolute_deadline (ca_parent call)))"

definition delegate_claimed ::
  "'a cworld env \<Rightarrow> 'a cworld coordinator \<Rightarrow> 'a cworld delegation_call \<Rightarrow> string \<Rightarrow> string \<Rightarrow> string \<Rightarrow>
   'a cworld handler_endpoint \<Rightarrow> run_lineage \<Rightarrow> string \<Rightarrow> delegation_receipt \<Rightarrow> bool \<Rightarrow>
   ('a cworld, pyval) prog" where
  "delegate_claimed E cf call owner_token i run_id ep lineage session receipt created =
     (if created then
        bindP (catchP (reserve_claimed E cf call receipt) (translate_failure E cf call i run_id None)) (\<lambda>lease.
        run_leased E cf call i run_id ep lineage session receipt True False lease)
      else
        bindP (catchP (ofR (existing_lease call receipt)) (translate_failure E cf call i run_id None)) (\<lambda>old.
        bindP (catchP
          (bindP (take_over_claim E cf call receipt old owner_token) (\<lambda>(r, resumed).
           bindP (if resumed then reserve_claimed E cf call r else ret old) (\<lambda>lease.
           ret (r, resumed, lease))))
          (\<lambda>e. finallyP (translate_failure E cf call i run_id None e) (unsettle old))) (\<lambda>(r, resumed, lease).
        run_leased E cf call i run_id ep lineage session r resumed resumed lease)))"

text \<open>The first half of the \<^verbatim>\<open>try\<close>: admission and the claim of the receipt, under its lock.\<close>

definition claim_delegation ::
  "'a cworld env \<Rightarrow> 'a cworld coordinator \<Rightarrow> 'a cworld delegation_call \<Rightarrow> string \<Rightarrow> string \<Rightarrow> string \<Rightarrow>
   string \<Rightarrow> string \<Rightarrow>
   ('a cworld, 'a cworld handler_endpoint \<times> run_lineage \<times> string \<times> delegation_receipt \<times> bool) prog" where
  "claim_delegation E cf call owner_token i run_id request_digest ctx_digest =
     bindP (admit E cf call i run_id) (\<lambda>(ep, lineage, session).
     bindP (ofR (bindR (lease_id (co_crypto cf) i 1) (receipt_candidate call i run_id
       request_digest ctx_digest 1 owner_token))) (\<lambda>candidate.
     bindP (suspend E) (\<lambda>_.
     bindP (receipt_claim E candidate) (\<lambda>(receipt, created).
     bindP (ofR (validate_claim (co_crypto cf) receipt call i run_id request_digest ctx_digest)) (\<lambda>_.
     ret (ep, lineage, session, receipt, created))))))"

definition delegate ::
  "'a cworld env \<Rightarrow> 'a cworld coordinator \<Rightarrow> string \<Rightarrow> 'a cworld delegation_call \<Rightarrow>
   ('a cworld, pyval) prog" where
  "delegate E cf uuid_hex call =
     bindP (ofR (require (pc_limits (ca_parent call) = co_limits cf)
       (fail ''execution_group_contract_mismatch''))) (\<lambda>_.
     bindP (ofR (validate_parent_run_identity call)) (\<lambda>_.
     bindP (ofR (canonical_digest (co_crypto cf) (ca_request_payload call))) (\<lambda>request_digest.
     bindP (ofR (call_context_digest (co_crypto cf) call)) (\<lambda>ctx_digest.
     bindP (ofR (delegation_id (co_crypto cf) (ca_parent_run_id call) (ca_parent_tool_call_id call)
       request_digest)) (\<lambda>i.
     let run_id = child_run_id (co_crypto cf) i; owner_token = ''owner:'' @ uuid_hex in
     bindP (emit cf E_REQUESTED call i (Some run_id) None None) (\<lambda>_.
     bindP (catchP (claim_delegation E cf call owner_token i run_id request_digest ctx_digest)
       (translate_failure E cf call i run_id None)) (\<lambda>(ep, lineage, session, receipt, created).
     delegate_claimed E cf call owner_token i run_id ep lineage session receipt created)))))))"

definition cancel_execution_group ::
  "'a cworld env \<Rightarrow> 'a cworld coordinator \<Rightarrow> string \<Rightarrow> ('a cworld, unit) prog" where
  "cancel_execution_group E cf gid =
     bindP (suspend E) (\<lambda>_. bindP (suspend E) (\<lambda>_. cancel_group E (co_attempts cf) gid))"

end
