(* ===== verification/Safe_Programs.thy ===== *)
theory Safe_Programs
  imports Coordinator
begin

text \<open>
  Programs that keep a relation between the worlds before and after and raise only exceptions of one
  kind, with the rules that walk through a program.  The kind that matters is an exception whose code
  is stable: a caller may show it, and a failure can be built from it.
\<close>

lemma bindP_ofR_Inr: "bindP (ofR (Inr v)) f = f v"
  by (rule ext) (simp add: bindP_run ofR_def)

definition safe :: "('s \<Rightarrow> 's \<Rightarrow> bool) \<Rightarrow> (exn \<Rightarrow> bool) \<Rightarrow> ('s, 'a) prog \<Rightarrow> bool" where
  "safe R P m \<longleftrightarrow> (\<forall>w. R w (snd (m w)) \<and> (\<forall>e. fst (m w) = Inl e \<longrightarrow> P e))"

abbreviation raises :: "(exn \<Rightarrow> bool) \<Rightarrow> ('s, 'a) prog \<Rightarrow> bool" where
  "raises \<equiv> safe (\<lambda>_ _. True)"

lemma safe_both: "preserves R m \<Longrightarrow> raises P m \<Longrightarrow> safe R P m"
  and safe_preserves: "safe R P m \<Longrightarrow> preserves R m"
  by (auto simp: safe_def preserves_def)

lemma safeD: "safe R P m \<Longrightarrow> m w = (r, w') \<Longrightarrow> R w w' \<and> (\<forall>e. r = Inl e \<longrightarrow> P e)"
  unfolding safe_def by (drule spec [of _ w]) simp

lemma safeI: "(\<And>w r w'. m w = (r, w') \<Longrightarrow> R w w' \<and> (\<forall>e. r = Inl e \<longrightarrow> P e)) \<Longrightarrow> safe R P m"
  unfolding safe_def by (metis surjective_pairing)

lemma safe_weaken: "safe R Q m \<Longrightarrow> (\<And>e. Q e \<Longrightarrow> P e) \<Longrightarrow> safe R P m"
  by (auto simp: safe_def)

subsection \<open>Results\<close>

definition rsafe :: "(exn \<Rightarrow> bool) \<Rightarrow> 'a res \<Rightarrow> bool" where
  "rsafe P r \<longleftrightarrow> (\<forall>e. r = Inl e \<longrightarrow> P e)"

lemma rsafe_simps [simp]: "rsafe P (Inl e) \<longleftrightarrow> P e" "rsafe P (Inr x)"
  by (simp_all add: rsafe_def)

lemma rsafe_require [simp]: "rsafe P (require b e) \<longleftrightarrow> b \<or> P e"
  by (auto simp: rsafe_def)

lemma rsafe_bindR: "rsafe P r \<Longrightarrow> (\<And>x. r = Inr x \<Longrightarrow> rsafe P (f x)) \<Longrightarrow> rsafe P (bindR r f)"
  by (cases r) auto

lemma rsafe_all_ok: "(\<And>r. r \<in> set rs \<Longrightarrow> rsafe P r) \<Longrightarrow> rsafe P (all_ok rs)"
  by (auto simp: rsafe_def dest: all_ok_Inl)

lemma rsafe_if: "(b \<Longrightarrow> rsafe P r) \<Longrightarrow> (\<not> b \<Longrightarrow> rsafe P r') \<Longrightarrow> rsafe P (if b then r else r')"
  by simp

lemma rsafe_mapR: "(\<And>x. rsafe P (f x)) \<Longrightarrow> rsafe P (mapR f xs)"
proof (induction xs)
  case Nil
  then show ?case by simp
next
  case (Cons x xs)
  have "rsafe P (f x)" "rsafe P (mapR f xs)" using Cons by blast+
  then show ?case by (auto split: sum.splits)
qed

lemmas rsafe_rules = rsafe_bindR rsafe_all_ok rsafe_if rsafe_mapR

subsection \<open>Results of programs\<close>

text \<open>What is known of the value a program returns, for the sequences that need it.\<close>

definition results :: "('a \<Rightarrow> bool) \<Rightarrow> ('s, 'a) prog \<Rightarrow> bool" where
  "results Q m \<longleftrightarrow> (\<forall>w x w'. m w = (Inr x, w') \<longrightarrow> Q x)"

lemma results_ret: "Q x \<Longrightarrow> results Q (ret x)"
  and results_raise: "results Q (raise e)"
  and results_bind_ofR: "(\<And>x. r = Inr x \<Longrightarrow> results Q (f x)) \<Longrightarrow> results Q (bindP (ofR r) f)"
  and results_if: "(b \<Longrightarrow> results Q m1) \<Longrightarrow> (\<not> b \<Longrightarrow> results Q m2) \<Longrightarrow> results Q (if b then m1 else m2)"
  by (auto simp: results_def prog_defs split: sum.splits)

lemma results_bindP: "(\<And>x. results Q (f x)) \<Longrightarrow> results Q (bindP m f)"
  unfolding results_def by (auto simp: bindP_run split: prod.splits sum.splits)

lemma results_bindP_dep:
  "results P m \<Longrightarrow> (\<And>x. P x \<Longrightarrow> results Q (f x)) \<Longrightarrow> results Q (bindP m f)"
  unfolding results_def by (auto simp: bindP_run split: prod.splits sum.splits) blast

lemma results_catchP: "results Q m \<Longrightarrow> (\<And>e. results Q (h e)) \<Longrightarrow> results Q (catchP m h)"
  unfolding results_def by (auto simp: catchP_def split: prod.splits sum.splits)

lemma results_pair: "(\<And>a b. v = (a, b) \<Longrightarrow> results Q (f a b)) \<Longrightarrow> results Q (case v of (a, b) \<Rightarrow> f a b)"
  by (cases v) auto

lemmas results_walk = results_bind_ofR results_bindP results_ret results_raise results_if results_pair

subsection \<open>Programs\<close>

locale step_relation =
  fixes R :: "'s \<Rightarrow> 's \<Rightarrow> bool"
  assumes refl: "reflp R" and trans: "transp R"
begin

lemma safe_ret: "safe R P (ret x)"
  and safe_raise: "P e \<Longrightarrow> safe R P (raise e)"
  and safe_ofR: "rsafe P r \<Longrightarrow> safe R P (ofR r)"
  and safe_readP: "safe R P (readP f)"
  using refl by (auto simp: safe_def prog_defs rsafe_def reflp_def)

lemma safe_modifyP: "(\<And>w. R w (f w)) \<Longrightarrow> safe R P (modifyP f)"
  by (simp add: safe_def prog_defs)

lemma safe_bindP_results:
  assumes "safe R P m" and "results Q m" and "\<And>x. Q x \<Longrightarrow> safe R P (f x)"
  shows "safe R P (bindP m f)"
proof (rule safeI)
  fix w r w'
  assume run: "bindP m f w = (r, w')"
  obtain q w1 where m: "m w = (q, w1)" by fastforce
  note fst = safeD [OF assms(1) m]
  show "R w w' \<and> (\<forall>e. r = Inl e \<longrightarrow> P e)"
  proof (cases q)
    case (Inl e)
    then show ?thesis using run m fst by (auto simp: bindP_run)
  next
    case (Inr x)
    then have "f x w1 = (r, w')" "Q x" using run m assms(2) by (auto simp: bindP_run results_def)
    then show ?thesis using safeD [OF assms(3)] fst trans by (blast dest: transpD)
  qed
qed

lemma safe_bindP: "safe R P m \<Longrightarrow> (\<And>x. safe R P (f x)) \<Longrightarrow> safe R P (bindP m f)"
  by (rule safe_bindP_results [where Q = "\<lambda>_. True"]) (simp_all add: results_def)

lemma safe_bind_ofR:
  "rsafe P r \<Longrightarrow> (\<And>x. r = Inr x \<Longrightarrow> safe R P (f x)) \<Longrightarrow> safe R P (bindP (ofR r) f)"
  using refl by (cases r) (auto simp: safe_def bindP_def ofR_def reflp_def)

lemma safe_catchP:
  assumes "safe R Q m" and "\<And>e. Q e \<Longrightarrow> safe R P (h e)"
  shows "safe R P (catchP m h)"
proof (rule safeI)
  fix w r w'
  assume run: "catchP m h w = (r, w')"
  obtain q w1 where m: "m w = (q, w1)" by fastforce
  note fst = safeD [OF assms(1) m]
  show "R w w' \<and> (\<forall>e. r = Inl e \<longrightarrow> P e)"
  proof (cases q)
    case (Inr x)
    then show ?thesis using run m fst by (auto simp: catchP_def)
  next
    case (Inl e)
    then have "h e w1 = (r, w')" using run m by (simp add: catchP_def)
    then show ?thesis using safeD [OF assms(2)] fst Inl trans by (blast dest: transpD)
  qed
qed

lemma safe_finallyP:
  assumes "safe R P m" and "\<And>w. R w (f w)"
  shows "safe R P (finallyP m f)"
proof (rule safeI)
  fix w r w'
  assume run: "finallyP m f w = (r, w')"
  obtain q w1 where m: "m w = (q, w1)" by fastforce
  then show "R w w' \<and> (\<forall>e. r = Inl e \<longrightarrow> P e)"
    using run safeD [OF assms(1) m] assms(2) [of w1] trans by (auto simp: finallyP_def dest: transpD)
qed

lemma safe_swallow:
  assumes "safe R Q m" and "\<And>e. Q e \<Longrightarrow> \<not> is_exception e \<Longrightarrow> P e"
  shows "safe R P (swallow m)"
  unfolding swallow_def
  by (rule safe_catchP [OF assms(1)]) (auto intro: safe_ret safe_raise assms(2))

lemma safe_option:
  "(v = None \<Longrightarrow> safe R P a) \<Longrightarrow> (\<And>x. v = Some x \<Longrightarrow> safe R P (f x)) \<Longrightarrow>
     safe R P (case v of None \<Rightarrow> a | Some x \<Rightarrow> f x)"
  by (cases v) auto

lemma safe_if: "(b \<Longrightarrow> safe R P m) \<Longrightarrow> (\<not> b \<Longrightarrow> safe R P n) \<Longrightarrow> safe R P (if b then m else n)"
  by simp

lemma safe_pair: "(\<And>a b. v = (a, b) \<Longrightarrow> safe R P (f a b)) \<Longrightarrow> safe R P (case v of (a, b) \<Rightarrow> f a b)"
  by (cases v) auto

text \<open>The walk through a program; the first of the two rules for a sequence knows the bound value.\<close>

lemmas walk = safe_bind_ofR safe_bindP safe_ret safe_raise safe_ofR safe_readP safe_modifyP
  safe_option safe_if safe_pair

end

interpretation any_step: step_relation "\<lambda>_ _. True"
  by unfold_locales (auto simp: reflp_def transp_def)

subsection \<open>Stable exceptions\<close>

fun stable_exn :: "exn \<Rightarrow> bool" where
  "stable_exn (BudgetExceeded c) \<longleftrightarrow> is_classification c"
| "stable_exn (ReceiptStoreError c) \<longleftrightarrow> is_classification c"
| "stable_exn (DelegationRejected c u) \<longleftrightarrow> is_classification c"
| "stable_exn (DelegationEndpointError c) \<longleftrightarrow> is_classification c"
| "stable_exn (DelegationFailure c k) \<longleftrightarrow> is_classification c \<and> k \<in> set failure_kinds"
| "stable_exn _ \<longleftrightarrow> True"

text \<open>What the caller of a delegation may get.\<close>

fun surfaced :: "exn \<Rightarrow> bool" where
  "surfaced (DelegationFailure c k) \<longleftrightarrow> is_classification c \<and> k \<in> set failure_kinds"
| "surfaced CancelledError \<longleftrightarrow> True"
| "surfaced FuelOut \<longleftrightarrow> True"
| "surfaced _ \<longleftrightarrow> False"

lemma surfaced_stable: "surfaced e \<Longrightarrow> stable_exn e"
  by (cases e) auto

lemma unswallowed: "\<not> is_exception e \<Longrightarrow> surfaced e"
  by (cases e) auto

lemma stable_failure [simp]: "stable_exn (failure c k)"
  by (auto simp: failure_def)

lemma surfaced_failure: "is_classification c \<Longrightarrow> k \<in> set failure_kinds \<Longrightarrow> surfaced (failure c k)"
  by (simp add: failure_def)

abbreviation stable_res :: "'a res \<Rightarrow> bool" where
  "stable_res \<equiv> rsafe stable_exn"

end
