(* ===== verification/Coordinator_Safety.thy ===== *)
theory Coordinator_Safety
  imports Safe_Programs Budget_Props
begin

text \<open>
  What a delegation does to the shared stores and what it raises.  The coordinator's operations are
  walked through once, for any relation that the calls of the ledger and of the receipt store keep;
  the two instances are the protocols of the two stores.
\<close>

subsection \<open>Stable codes\<close>

lemma budget_codes_stable [simp]:
  "is_classification ''budget_lease_deadline_mismatch''"
  "is_classification ''budget_lease_group_mismatch''"
  "is_classification ''budget_lease_identity_mismatch''"
  "is_classification ''budget_lease_not_active''"
  "is_classification ''budget_lease_not_found''"
  "is_classification ''budget_store_contention''"
  "is_classification ''delegation_count_exceeded''"
  "is_classification ''delegation_per_agent_exceeded''"
  "is_classification ''execution_group_cancelled''"
  "is_classification ''execution_group_contract_mismatch''"
  "is_classification ''execution_group_model_turns_exceeded''"
  "is_classification ''execution_group_not_initialized''"
  "is_classification ''execution_group_timeout''"
  "is_classification ''execution_group_tool_calls_exceeded''"
  by code_simp+

lemma receipt_codes_stable [simp]:
  "is_classification ''delegation_receipt_attempt_invalid''"
  "is_classification ''delegation_receipt_identity_mismatch''"
  "is_classification ''delegation_receipt_lease_invalid''"
  "is_classification ''delegation_receipt_not_found''"
  "is_classification ''delegation_receipt_owner_invalid''"
  "is_classification ''delegation_receipt_state_conflict''"
  "is_classification ''delegation_receipt_store_contention''"
  "is_classification ''delegation_receipt_terminal''"
  by code_simp+

lemma endpoint_codes_stable [simp]:
  "is_classification ''delegation_budget_callee_mismatch''"
  "is_classification ''delegation_budget_deadline_mismatch''"
  "is_classification ''delegation_budget_group_mismatch''"
  "is_classification ''delegation_child_run_id_invalid''"
  "is_classification ''delegation_child_run_id_mismatch''"
  "is_classification ''delegation_endpoint_not_approved''"
  "is_classification ''delegation_endpoint_not_async''"
  "is_classification ''delegation_endpoint_not_local''"
  "is_classification ''delegation_endpoint_protocol_error''"
  "is_classification ''delegation_lineage_invalid''"
  "is_classification ''delegation_not_resumable''"
  by code_simp+

lemma coordinator_codes_stable [simp]:
  "is_classification ''delegation_authorizer_failed''"
  "is_classification ''delegation_authorizer_protocol_error''"
  "is_classification ''delegation_cycle_detected''"
  "is_classification ''delegation_depth_exceeded''"
  "is_classification ''delegation_registry_integrity_failed''"
  "is_classification ''delegation_remote_endpoint_not_approved''"
  "is_classification ''delegation_agent_not_found''"
  "is_classification ''delegation_agent_not_runnable''"
  "is_classification ''delegation_registry_failed''"
  "is_classification ''delegation_coordinator_failed''"
  "is_classification ''delegation_parent_run_mismatch''"
  "is_classification ''delegation_parent_run_missing''"
  by code_simp+

subsection \<open>Guards raise stable exceptions\<close>

lemma stable_checks [simp]:
  "stable_res (check_identifier s n)" "stable_res (check_classification s n)"
  by (simp_all add: check_identifier_def check_classification_def)

lemma stable_opt_check [simp]:
  "stable_res (opt_check check_identifier v n)" "stable_res (opt_check check_classification v n)"
  by (simp_all add: opt_check_def split: option.split)

lemma stable_all_ok [simp]: "\<forall>r \<in> set rs. stable_res r \<Longrightarrow> stable_res (all_ok rs)"
  by (rule rsafe_all_ok) simp

lemma stable_assert_live [simp]: "stable_res (assert_live t s)"
  and stable_lease_record [simp]: "stable_res (lease_record s l)"
  and stable_room [simp]: "stable_res (delegation_room s c)"
  by (auto simp: rsafe_def assert_live_def lease_record_def delegation_room_def
      split: if_splits option.splits)

lemma stable_bind_Inr [simp]: "stable_res (bindR r (\<lambda>x. Inr (f x))) \<longleftrightarrow> stable_res r"
  by (cases r) auto

lemma stable_constructors [simp]:
  "stable_res (check_budget_state s)" "stable_res (BudgetLease i g c d)"
  "stable_res (StoredBudgetLease i k st)" "stable_res (check_receipt r)"
  "stable_res (check_context ctx)" "stable_res (check_event ev)"
  unfolding check_budget_state_def BudgetLease_def StoredBudgetLease_def check_receipt_def
    check_context_def check_event_def
  by (auto intro!: rsafe_all_ok)

lemma stable_AgentRef [simp]: "stable_res (AgentRef a v)" "stable_res (parse_ref s)"
  by (auto simp: AgentRef_def parse_ref_def split: prod.split)

lemma stable_lineage [simp]: "stable_res (check_lineage l)"
  by (auto simp: check_lineage_def intro!: rsafe_bindR rsafe_all_ok rsafe_mapR)

lemma stable_usage [simp]: "stable_res (usage_value v)" "stable_res (normalize_usage d)"
proof -
  show u: "stable_res (usage_value v)" for v by (auto simp: usage_value_def split: pyval.splits)
  then show "stable_res (normalize_usage d)"
    unfolding normalize_usage_def by (intro rsafe_mapR) (auto intro!: rsafe_bindR split: prod.split)
qed

lemma stable_ids [simp]:
  "stable_res (lease_id c i n)" "stable_res (delegation_id c r t q)"
  "stable_res (session_create c allow st tenant sid callee i)"
  unfolding lease_id_def delegation_id_def session_create_def
  by (auto intro!: rsafe_bindR)

lemma stable_outcome [simp]:
  "stable_res (check_outcome oc usage)" "stable_res (mk_outcome st run_id reason code us)"
  by (auto simp: check_outcome_def mk_outcome_def intro!: rsafe_bindR rsafe_mapR split: prod.split)

lemma stable_guards [simp]:
  "stable_res (validate_parent_run_identity call)"
  "stable_res (validate_registry_resolution ref resolved desc expected)"
  "stable_res (validate_claim c r call i run_id q x)" "stable_res (validate_lease lease call r)"
  "stable_res (cycle_guard lineage callee limits)" "stable_res (existing_lease call r)"
  "stable_res (receipt_candidate call i run_id q x n own l)"
  "stable_res (validate_invocation_contract ctx lease run_id)"
  "stable_res (validate_outcome outcome run_id)" "stable_res (endpoint_handler_of ep)"
  "stable_res (replay c r call)" "stable_res (lineage_child lin child run_id i tool)"
  unfolding validate_parent_run_identity_def validate_registry_resolution_def validate_claim_def
    validate_lease_def cycle_guard_def existing_lease_def receipt_candidate_def
    validate_invocation_contract_def validate_outcome_def endpoint_handler_of_def replay_def
    lineage_child_def Let_def
  by (auto intro!: rsafe_bindR split: option.split sum.split)

lemma stable_validated [simp]:
  "stable_res (validated_text v n k)" "stable_res (validated_code v n)"
  "stable_res (validated_callers vs)"
  by (auto simp: validated_text_def validated_code_def validated_callers_def intro!: rsafe_bindR)

lemma stable_registry [simp]:
  "stable_res (resolve ref r)" "stable_res (descriptor ref r)"
  by (auto simp: resolve_def descriptor_def require_record_def record_resolved_def check_resolved_def
      record_descriptor_def check_descriptor_def Let_def intro!: rsafe_bindR split: option.split)

lemma stable_updates [simp]:
  "stable_res (reserve_update g i c t s)" "stable_res (complete_update l us t s)"
  "stable_res (release_update l t s)" "stable_res (transition_update expected st changes r)"
  "stable_res (adopt_active_lease s i c)"
  unfolding reserve_update_def complete_update_def release_update_def transition_update_def
    adopt_active_lease_def Let_def
  by (auto intro!: rsafe_bindR split: option.split)

subsection \<open>The calls of the stores raise stable exceptions\<close>

text \<open>Reading and suspending never raise; the swaps raise at most a \<^verbatim>\<open>ValueError\<close>.\<close>

lemma suspend_stable: "raises stable_exn (suspend E)"
  by (simp add: safe_def suspend_def)

lemma group_calls_stable:
  "raises stable_exn (store_load E g)" "raises stable_exn (store_create E s)"
  "raises stable_exn (store_cas E g n s)"
  by (auto simp: safe_def store_load_def store_create_def store_cas_def Let_def
      split: option.splits if_splits)

lemma receipt_calls_stable:
  "raises stable_exn (receipt_get E i)" "raises stable_exn (receipt_claim E r)"
  "raises stable_exn (receipt_cas E i n r)" "raises stable_exn (receipt_pause E)"
  by (auto simp: safe_def receipt_get_def receipt_claim_def receipt_cas_def Let_def
      split: option.splits if_splits)

lemmas store_calls_stable = suspend_stable group_calls_stable receipt_calls_stable

lemma require_state_stable: "raises stable_exn (require_state E g)"
  unfolding require_state_def by (intro any_step.walk store_calls_stable) simp

lemma mutate_stable:
  assumes "\<And>t s. stable_res (operation t s)"
  shows "raises stable_exn (mutate E n g operation)"
proof (induction n)
  case 0
  then show ?case by (simp add: any_step.safe_raise)
next
  case (Suc n)
  then show ?case
    unfolding mutate.simps(2)
    by (intro any_step.walk require_state_stable store_calls_stable assms)
qed

lemma reserve_loop_stable: "raises stable_exn (reserve_loop E a g i c fuel)"
proof (induction fuel)
  case 0
  then show ?case by (simp add: any_step.safe_raise)
next
  case (Suc fuel)
  have caught: "raises stable_exn (catchP (mutate E a g (reserve_update g i c))
      (\<lambda>e. if e = RetryReservation then reserve_loop E a g i c fuel else raise e))"
    by (rule any_step.safe_catchP [OF mutate_stable]) (auto intro: any_step.safe_raise Suc)
  show ?case
    unfolding reserve_loop.simps
    by (intro any_step.walk require_state_stable store_calls_stable caught Suc) simp_all
qed

lemma ledger_stable:
  "raises stable_exn (ensure_group E g m d)"
  "raises stable_exn (reserve_delegation E a f g c lid u)"
  "raises stable_exn (complete_lease_state E a l us)" "raises stable_exn (complete_lease E a l us)"
  "raises stable_exn (reconcile_completed_lease E a l us)" "raises stable_exn (inspect_lease E l)"
  "raises stable_exn (release_lease E a l)"
proof -
  show complete: "raises stable_exn (complete_lease_state E a l us)"
    unfolding complete_lease_state_def by (intro any_step.walk mutate_stable) simp_all
  show "raises stable_exn (complete_lease E a l us)" "raises stable_exn (reconcile_completed_lease E a l us)"
    unfolding complete_lease_def reconcile_completed_lease_def
    by (intro any_step.walk complete)+
  show "raises stable_exn (ensure_group E g m d)"
    unfolding ensure_group_def Let_def
    by (intro any_step.walk store_calls_stable) simp_all
  show "raises stable_exn (reserve_delegation E a f g c lid u)"
    unfolding reserve_delegation_def
    by (intro any_step.walk reserve_loop_stable) (auto split: option.split)
  show "raises stable_exn (inspect_lease E l)"
    unfolding inspect_lease_def by (intro any_step.walk require_state_stable) simp_all
  show "raises stable_exn (release_lease E a l)"
    unfolding release_lease_def by (intro mutate_stable) simp
qed

lemma transition_stable: "raises stable_exn (transition_loop E n i expected st changes)"
proof (induction n)
  case 0
  then show ?case by (simp add: any_step.safe_raise)
next
  case (Suc n)
  then show ?case
    unfolding transition_loop.simps(2)
    by (intro any_step.walk store_calls_stable) simp_all
qed

subsection \<open>The parties of a delegation\<close>

text \<open>
  What the coordinator takes from others: the endpoints, the authorizer, the event sink and callback,
  the canonical JSON.  They keep the relation and raise stable exceptions.
\<close>

definition good_handler :: "('a cworld \<Rightarrow> 'a cworld \<Rightarrow> bool) \<Rightarrow> 'a cworld endpoint_handler \<Rightarrow> bool" where
  "good_handler R h \<longleftrightarrow>
     (\<forall>run q ctx lease i. eh_run h = Some run \<longrightarrow> safe R stable_exn (run q ctx lease i)) \<and>
     (\<forall>rec ctx lease i. eh_reconcile h = Some rec \<longrightarrow> safe R stable_exn (rec ctx lease i)) \<and>
     (\<forall>res q ctx lease i. eh_resume h = Some res \<longrightarrow> safe R stable_exn (res q ctx lease i))"

definition good_endpoint :: "('a cworld \<Rightarrow> 'a cworld \<Rightarrow> bool) \<Rightarrow> 'a cworld handler_endpoint \<Rightarrow> bool" where
  "good_endpoint R ep \<longleftrightarrow> (\<forall>h. ep_handler ep = Some h \<longrightarrow> good_handler R h)"

definition good_cleaner :: "('a cworld \<Rightarrow> 'a cworld \<Rightarrow> bool) \<Rightarrow> 'a cworld handler_endpoint \<Rightarrow> bool" where
  "good_cleaner R ep \<longleftrightarrow> (\<forall>h cl ctx lease i. ep_handler ep = Some h \<longrightarrow> eh_cleanup h = Some cl \<longrightarrow>
     safe R stable_exn (cl ctx lease i))"

definition good_endpoints ::
  "('a cworld handler_endpoint \<Rightarrow> bool) \<Rightarrow> 'a cworld coordinator \<Rightarrow> bool" where
  "good_endpoints G cf \<longleftrightarrow> (\<forall>ref x. (ref, x) \<in> set (co_registry cf) \<longrightarrow> G (rr_endpoint x))"

definition good_authorizer ::
  "('a cworld \<Rightarrow> 'a cworld \<Rightarrow> bool) \<Rightarrow> ('a cworld, delegation_decision option) prog \<Rightarrow> bool" where
  "good_authorizer R m \<longleftrightarrow> safe R stable_exn m \<and>
     (\<forall>w w' d. m w = (Inr (Some d), w') \<longrightarrow> is_classification (dd_reason_code d))"

definition good_sinks ::
  "('a cworld \<Rightarrow> 'a cworld \<Rightarrow> bool) \<Rightarrow> 'a cworld coordinator \<Rightarrow> 'a cworld delegation_call \<Rightarrow> bool" where
  "good_sinks R cf call \<longleftrightarrow> (\<forall>ev. safe R stable_exn (co_publish cf ev)) \<and>
     (\<forall>cb ev. ca_event_callback call = Some cb \<longrightarrow> safe R stable_exn (cb ev))"

definition good_parties ::
  "('a cworld \<Rightarrow> 'a cworld \<Rightarrow> bool) \<Rightarrow> 'a cworld env \<Rightarrow> 'a cworld coordinator \<Rightarrow>
   'a cworld delegation_call \<Rightarrow> bool" where
  "good_parties R E cf call \<longleftrightarrow>
     rely_env R E \<and>
     (\<forall>caller callee desc parent c. good_authorizer R (co_authorize cf caller callee desc parent c)) \<and>
     (\<forall>g l c m. co_cycle_guard cf = Some g \<longrightarrow> stable_res (g l c m)) \<and>
     good_sinks R cf call \<and>
     (\<forall>v. stable_res (cr_canonical (co_crypto cf) v)) \<and>
     check_limits (co_limits cf) = Inr (co_limits cf)"

lemma good_parties_digest:
  assumes "good_parties R E cf call"
  shows "stable_res (canonical_digest (co_crypto cf) v)"
    "stable_res (validate_contract_digests (co_crypto cf) call' desc)"
proof -
  have c: "stable_res (cr_canonical (co_crypto cf) v)" for v
    using assms by (simp add: good_parties_def)
  show d: "stable_res (canonical_digest (co_crypto cf) v)" for v
    unfolding canonical_digest_def by (intro rsafe_bindR c) simp
  show "stable_res (validate_contract_digests (co_crypto cf) call' desc)"
    unfolding validate_contract_digests_def
    by (auto intro!: rsafe_bindR d split: option.split)
qed

text \<open>The translation of a failure never returns.\<close>

lemma translate_results: "results Q (translate_failure E cf call i run_id owned e)"
  unfolding translate_failure_def Let_def
  by (cases e) (auto intro!: results_bindP results_raise)

text \<open>
  A delegation that no decision allows: what the sinks and the authorizer keep is kept, whatever the
  endpoints, the stores and the other tasks would do.
\<close>

definition never_allows :: "('w, delegation_decision option) prog \<Rightarrow> bool" where
  "never_allows m \<longleftrightarrow> results (\<lambda>d. \<forall>x. d = Some x \<longrightarrow> \<not> dd_allowed x) m"

lemma denied_results: "never_allows m \<Longrightarrow> results (\<lambda>_. False) (authorize_or_reject m)"
  unfolding authorize_or_reject_def
  by (rule results_bindP_dep [where P = "\<lambda>d. \<forall>x. d = Some x \<longrightarrow> \<not> dd_allowed x"])
    (auto simp: never_allows_def intro!: results_catchP results_raise split: exn.split option.split)

locale quiet_parties = step_relation R for R :: "'a cworld \<Rightarrow> 'a cworld \<Rightarrow> bool"
begin

lemma sinks:
  assumes "good_sinks R cf call"
  shows "safe R stable_exn (co_publish cf ev)"
    "ca_event_callback call = Some cb \<Longrightarrow> safe R stable_exn (cb ev)"
  using assms by (auto simp: good_sinks_def)

text \<open>\<^verbatim>\<open>emit\<close> swallows every exception of its parties; only the event's own checks can raise.\<close>

lemma emit_safe:
  assumes "good_sinks R cf call" and "\<And>e. surfaced e \<Longrightarrow> P e"
    and "rsafe P (check_event
      \<lparr>ev_type = ty, ev_execution_group_id = pc_execution_group_id (ca_parent call),
       ev_delegation_id = i, ev_lineage = pc_lineage (ca_parent call),
       ev_caller = ca_caller call, ev_callee = ca_callee call,
       ev_parent_tool_call_id = ca_parent_tool_call_id call, ev_child_run_id = run_id,
       ev_status = st, ev_code = code\<rparr>)"
  shows "safe R P (emit cf ty call i run_id st code)"
  unfolding emit_def
  by (intro walk assms(3) safe_swallow [OF sinks(1) [OF assms(1)]]
      safe_swallow [OF sinks(2) [OF assms(1)]] assms(2) unswallowed)

lemma emit_kept:
  assumes "good_sinks R cf call"
  shows "safe R (\<lambda>_. True) (emit cf ty call i run_id st code)"
  by (rule emit_safe [OF assms]) (simp_all add: rsafe_def)

lemma denied_admit:
  assumes "safe R stable_exn m" and "never_allows m"
  shows "safe R (\<lambda>_. True) (bindP (authorize_or_reject m) f)"
proof (rule safe_bindP_results [OF _ denied_results [OF assms(2)]])
  have "safe R (\<lambda>_. True) (catchP m (\<lambda>e. case e of
      DelegationRejected c u \<Rightarrow> raise e
    | _ \<Rightarrow> if is_exception e then raise (DelegationRejected ''delegation_authorizer_failed'' True)
           else raise e))"
    by (rule safe_catchP [OF assms(1)]) (auto intro!: safe_raise split: exn.split)
  then show "safe R (\<lambda>_. True) (authorize_or_reject m)"
    unfolding authorize_or_reject_def by (intro safe_bindP safe_option safe_if safe_ret safe_raise) simp_all
qed simp

lemma denied_translate:
  assumes "good_sinks R cf call"
  shows "safe R (\<lambda>_. True) (translate_failure E cf call i run_id None e)"
  unfolding translate_failure_def Let_def option.case
  by (cases e) (auto intro!: safe_bindP emit_kept [OF assms] safe_raise safe_ret)

lemma denied_delegation:
  assumes "good_sinks R cf call"
    and "\<And>desc. safe R stable_exn (co_authorize cf (ca_caller call) (ca_callee call) desc (ca_parent call)
           (ca_request_classification call))"
    and "\<And>desc. never_allows (co_authorize cf (ca_caller call) (ca_callee call) desc (ca_parent call)
           (ca_request_classification call))"
  shows "safe R (\<lambda>_. True) (delegate E cf u call)" "results (\<lambda>_. False) (delegate E cf u call)"
proof -
  have ofR: "rsafe (\<lambda>_. True) r" for r :: "'x res" by (simp add: rsafe_def)
  have admit: "safe R (\<lambda>_. True) (admit E cf call i run_id)" for i run_id
    unfolding admit_def
    by (intro denied_admit assms safe_bind_ofR safe_bindP safe_if safe_raise safe_ret ofR TrueI)
  have refused: "results (\<lambda>_. False) (admit E cf call i run_id)" for i run_id
    unfolding admit_def
    by (intro results_bindP_dep [OF denied_results [OF assms(3)]] results_bindP results_bind_ofR) simp
  have inner: "safe R (\<lambda>_. True) (bindP (admit E cf call i run_id) f)"
    "results (\<lambda>_. False) (bindP (admit E cf call i run_id) f)"
    for i run_id and f :: "_ \<Rightarrow> ('a cworld, 'b) prog"
    by (rule safe_bindP_results [OF admit refused] results_bindP_dep [OF refused]; simp)+
  have caught: "safe R (\<lambda>_. True) (catchP (bindP (admit E cf call i run_id) f)
        (translate_failure E cf call i run_id None))"
    "results (\<lambda>_. False) (catchP (bindP (admit E cf call i run_id) f)
        (translate_failure E cf call i run_id None))"
    for i run_id and f :: "_ \<Rightarrow> ('a cworld, 'b) prog"
    by (rule safe_catchP [OF inner(1)] results_catchP [OF inner(2)];
        rule denied_translate [OF assms(1)] translate_results)+
  show "safe R (\<lambda>_. True) (delegate E cf u call)"
    unfolding delegate_def claim_delegation_def Let_def
    by (intro safe_bind_ofR ofR safe_bindP [OF emit_kept [OF assms(1)]]
        safe_bindP_results [OF caught]) simp
  show "results (\<lambda>_. False) (delegate E cf u call)"
    unfolding delegate_def claim_delegation_def Let_def
    by (intro results_bind_ofR results_bindP [where m = "emit _ _ _ _ _ _ _"]
        results_bindP_dep [OF caught(2)]) simp
qed

end

subsection \<open>The walk through the coordinator\<close>

text \<open>What the calls of the two stores promise, for a relation between worlds.\<close>

locale coordinated = quiet_parties R for R :: "'a cworld \<Rightarrow> 'a cworld \<Rightarrow> bool" +
  assumes settles: "R w (w\<lparr>settled_lease_ids := xs\<rparr>)"
    and retains: "R w (w\<lparr>retained_lease_ids := xs\<rparr>)"
    and suspends: "rely_env R E \<Longrightarrow> preserves R (suspend E)"
    and ensures: "rely_env R E \<Longrightarrow> check_limits m = Inr m \<Longrightarrow> preserves R (ensure_group E g m d)"
    and reserves: "rely_env R E \<Longrightarrow> preserves R (reserve_delegation E a f g c lid u)"
    and completes: "rely_env R E \<Longrightarrow> preserves R (complete_lease_state E a l us)"
    and inspects: "rely_env R E \<Longrightarrow> preserves R (inspect_lease E l)"
    and releases: "rely_env R E \<Longrightarrow> preserves R (release_lease E a l)"
    and gets: "rely_env R E \<Longrightarrow> preserves R (receipt_get E i)"
    and claims: "rely_env R E \<Longrightarrow> check_receipt r = Inr r \<Longrightarrow> preserves R (receipt_claim E r)"
    and transitions: "rely_env R E \<Longrightarrow> preserves R (transition_loop E n i expected st changes)"
begin

lemma own_fields: "R w (settle lease w)" "R w (unsettle lease w)" "R w (retain_lease lease w)"
  by (simp_all add: settle_def unsettle_def retain_lease_def settles retains)

lemma store_safe:
  assumes "rely_env R E"
  shows "safe R stable_exn (suspend E)"
    "safe R stable_exn (reserve_delegation E a f g c lid u)"
    "safe R stable_exn (complete_lease_state E a l us)" "safe R stable_exn (complete_lease E a l us)"
    "safe R stable_exn (reconcile_completed_lease E a l us)"
    "safe R stable_exn (inspect_lease E l)" "safe R stable_exn (release_lease E a l)"
    "safe R stable_exn (receipt_get E i)"
    "safe R stable_exn (transition_loop E n i expected st changes)"
    "check_limits m = Inr m \<Longrightarrow> safe R stable_exn (ensure_group E g m d)"
    "check_receipt r = Inr r \<Longrightarrow> safe R stable_exn (receipt_claim E r)"
proof -
  show complete: "safe R stable_exn (complete_lease_state E a l us)"
    by (rule safe_both [OF completes [OF assms] ledger_stable(3)])
  show "safe R stable_exn (complete_lease E a l us)" "safe R stable_exn (reconcile_completed_lease E a l us)"
    unfolding complete_lease_def reconcile_completed_lease_def by (intro walk complete)+
qed (rule safe_both; (rule suspends reserves inspects releases gets transitions ensures claims
    ledger_stable suspend_stable receipt_calls_stable transition_stable)?; (rule assms)?; assumption?)+

lemma parties:
  assumes "good_parties R E cf call"
  shows "rely_env R E" "good_sinks R cf call"
    "co_cycle_guard cf = Some g \<Longrightarrow> stable_res (g l c m)"
  using assms by (auto simp: good_parties_def)

lemmas calls = store_safe [OF parties(1)]

lemma emit_stable:
  assumes "good_parties R E cf call"
  shows "safe R stable_exn (emit cf ty call i run_id st code)"
  by (rule emit_safe [OF parties(2) [OF assms]]) (simp_all add: surfaced_stable)

lemma settled_stable:
  assumes "good_parties R E cf call"
  shows "safe R stable_exn (complete_settled E cf lease us)"
    "safe R stable_exn (reconcile_settled E cf lease us)"
  unfolding complete_settled_def reconcile_settled_def
  by (intro walk calls [OF assms] own_fields)+

lemma release_safe:
  assumes "good_parties R E cf call" and "\<And>e. surfaced e \<Longrightarrow> P e"
  shows "safe R P (best_effort_release E cf lease)"
proof -
  have "safe R P (catchP (bindP (release_lease E (co_attempts cf) lease) (\<lambda>_. ret True))
      (\<lambda>e. if is_exception e then ret False else raise e))"
    by (rule safe_catchP [where Q = stable_exn])
      (auto intro!: walk calls [OF assms(1)] assms(2) unswallowed)
  then show ?thesis unfolding best_effort_release_def by (intro walk own_fields)
qed

lemma invoker_stable:
  assumes "good_endpoint R ep"
  shows "safe R stable_exn (invoker_invoke ep q ctx lease i)"
    "safe R stable_exn (invoker_reconcile ep ctx lease i)"
    "safe R stable_exn (invoker_resume ep q ctx lease i)"
proof -
  have h: "endpoint_handler_of ep = Inr h \<Longrightarrow> good_handler R h" for h
    using assms by (auto simp: good_endpoint_def endpoint_handler_Inr)
  have runs: "endpoint_handler_of ep = Inr h \<Longrightarrow> eh_run h = Some run \<Longrightarrow>
      safe R stable_exn (run q ctx lease i)"
    and recs: "endpoint_handler_of ep = Inr h \<Longrightarrow> eh_reconcile h = Some rec \<Longrightarrow>
      safe R stable_exn (rec ctx lease i)"
    and ress: "endpoint_handler_of ep = Inr h \<Longrightarrow> eh_resume h = Some res \<Longrightarrow>
      safe R stable_exn (res q ctx lease i)" for h run rec res q
    using h by (auto simp: good_handler_def)
  show "safe R stable_exn (invoker_invoke ep q ctx lease i)"
    unfolding invoker_invoke_def by (intro walk stable_guards runs) simp_all
  show "safe R stable_exn (invoker_reconcile ep ctx lease i)"
    unfolding invoker_reconcile_def by (intro walk stable_guards recs)
  show "safe R stable_exn (invoker_resume ep q ctx lease i)"
    unfolding invoker_resume_def by (intro walk stable_guards ress) simp_all
qed

lemma cleanup_stable:
  assumes "good_cleaner R ep"
  shows "safe R stable_exn (cleanup_checkpoint ep ctx lease i)"
proof -
  have "endpoint_handler_of ep = Inr h \<Longrightarrow> eh_cleanup h = Some cl \<Longrightarrow>
      safe R stable_exn (cl ctx lease i)" for h cl
    using assms by (auto simp: good_cleaner_def endpoint_handler_Inr)
  then have "safe R stable_exn (invoker_cleanup ep ctx lease i)"
    unfolding invoker_cleanup_def by (intro walk stable_guards)
  then show ?thesis unfolding cleanup_checkpoint_def by (rule safe_swallow)
qed

text \<open>Finishing an outcome.\<close>

lemma persist_stable:
  assumes "good_parties R E cf call"
  shows "safe R stable_exn (persist_failure E cf call r oc)"
  unfolding persist_failure_def Let_def by (intro walk calls [OF assms] emit_stable [OF assms])

lemma output_failure_stable:
  assumes "good_parties R E cf call"
  shows "safe R stable_exn (settle_output_failure E cf call r lease us reason code)"
  unfolding settle_output_failure_def
  by (intro walk persist_stable [OF assms] settled_stable [OF assms] own_fields stable_outcome)

lemma recover_stable:
  assumes "good_parties R E cf call" and "good_cleaner R ep"
  shows "safe R stable_exn (recover_completed_race E cf call prior d lease us ep ctx)"
proof -
  have replayed: "safe R stable_exn (case r of Inr v \<Rightarrow> ret v
      | Inl (DelegationFailure c k) \<Rightarrow> raise (fail ''delegation_terminal_race_mismatch'')
      | Inl (ReceiptStoreError c) \<Rightarrow> raise (fail ''delegation_terminal_race_mismatch'')
      | Inl e \<Rightarrow> raise e)" if "stable_res r" for r :: "pyval res"
    using that by (auto simp: safe_ret safe_raise split: sum.split exn.split)
  show ?thesis
    unfolding recover_completed_race_def
    by (intro walk calls [OF assms(1)] replayed rsafe_bindR settled_stable [OF assms(1)]
        emit_stable [OF assms(1)] cleanup_stable [OF assms(2)] own_fields stable_guards) simp_all
qed

lemma finish_completed_stable:
  assumes "good_parties R E cf call" and "good_cleaner R ep"
  shows "safe R stable_exn (finish_completed E cf call r oc lease ep ctx)"
proof -
  have caught: "safe R stable_exn (catchP (bindP (transition_loop E n i expected st changes)
        (\<lambda>_. ret None))
      (\<lambda>e. if e = ReceiptStoreError ''delegation_receipt_state_conflict''
           then bindP (recover_completed_race E cf call r d lease us ep ctx) (\<lambda>v. ret (Some v))
           else raise e))" for n i expected st changes d us
    by (rule safe_catchP [where Q = stable_exn])
      (intro walk calls [OF assms(1)] recover_stable [OF assms], assumption?)+
  show ?thesis
    unfolding finish_completed_def Let_def
    by (intro walk caught output_failure_stable [OF assms(1)] settled_stable [OF assms(1)]
        emit_stable [OF assms(1)] cleanup_stable [OF assms(2)] own_fields) simp_all
qed

lemma finish_stable:
  assumes "good_parties R E cf call" and "good_cleaner R ep"
  shows "safe R stable_exn (finish_outcome E cf call r oc lease ep ctx)"
  unfolding finish_outcome_def
  by (intro walk finish_completed_stable [OF assms] persist_stable [OF assms(1)]
      settled_stable [OF assms(1)] own_fields stable_outcome) simp_all

text \<open>Running the child.\<close>

lemma terminal_receipt_stable:
  assumes "good_parties R E cf call"
  shows "safe R stable_exn (terminal_receipt_after_cancellation E cf call i confirmed)"
proof -
  have caught: "safe R stable_exn (catchP
      (bindP (transition_loop E n d expected st changes) (\<lambda>_. emit cf ty call d' i' s c))
      (\<lambda>e. case e of ReceiptStoreError c \<Rightarrow> ret () | _ \<Rightarrow> raise e))"
    for n d expected st changes ty d' i' s c
    by (rule safe_catchP [where Q = stable_exn])
      (intro walk calls [OF assms] emit_stable [OF assms],
        auto intro!: safe_ret safe_raise split: exn.split)
  show ?thesis
    unfolding terminal_receipt_after_cancellation_def Let_def
    by (intro walk calls [OF assms] caught rsafe_bindR good_parties_digest [OF assms] stable_ids)
qed

lemma cancelled_stable:
  assumes "good_parties R E cf call"
  shows "safe R stable_exn (after_caller_cancelled E cf call lease i confirmed)"
  unfolding after_caller_cancelled_def
  by (intro walk terminal_receipt_stable [OF assms] own_fields) simp

lemma invoke_stable:
  assumes "good_parties R E cf call" and "good_endpoint R ep"
  shows "safe R stable_exn (invoke_child E cf ep call ctx lease i resume)"
proof -
  have ran: "safe R stable_exn (catchP m (\<lambda>e. case e of
      CancelledError \<Rightarrow> after_caller_cancelled E cf call lease i True
    | DelegationEndpointError c \<Rightarrow> ofR (mk_outcome OFailed i ''error'' c [])
    | FuelOut \<Rightarrow> raise FuelOut
    | _ \<Rightarrow> ofR (mk_outcome OFailed i ''error'' ''delegated_agent_invocation_failed'' [])))"
    if "safe R stable_exn m" for m
    by (rule safe_catchP [OF that])
      (auto intro!: safe_ofR safe_raise cancelled_stable [OF assms(1)] split: exn.split)
  have fate: "safe R stable_exn (case f of Task_Done \<Rightarrow> m | Task_Timed_Out b \<Rightarrow> g b | Task_Caller_Cancelled b \<Rightarrow> h b)"
    if "safe R stable_exn m" "\<And>b. safe R stable_exn (g b)" "\<And>b. safe R stable_exn (h b)" for f m g h
    using that by (simp split: task_fate.split)
  show ?thesis
    unfolding invoke_child_def
    by (intro walk fate ran calls [OF assms(1)] invoker_stable [OF assms(2)]
        cancelled_stable [OF assms(1)] own_fields stable_outcome)
qed

text \<open>The claim and what is done with it.\<close>

lemma fence_stable:
  assumes "good_parties R E cf call"
  shows "safe R stable_exn (fence_receipt E cf call r code)"
  unfolding fence_receipt_def mark_manual_required_def
  by (intro walk calls [OF assms] emit_stable [OF assms])

lemma reconcile_stable:
  assumes "good_parties R E cf call" and "good_endpoint R ep" and "good_cleaner R ep"
  shows "safe R stable_exn (reconcile_claim E cf call ep ctx lease r)"
proof -
  have caught: "safe R stable_exn (catchP (invoker_reconcile ep ctx lease i)
      (\<lambda>e. if \<not> is_exception e then raise e else
          bindP (readP now) (\<lambda>t. if b t then bindP (fence_receipt E cf call r c) (\<lambda>_. raise (fail d))
                                 else raise (fail d'))))" for i b c d d'
    by (rule safe_catchP [OF invoker_stable(2) [OF assms(2)]])
      (auto intro!: walk fence_stable [OF assms(1)])
  show ?thesis
    unfolding reconcile_claim_def
    by (intro walk caught calls [OF assms(1)] finish_stable [OF assms(1,3)] fence_stable [OF assms(1)])
      simp_all
qed

lemma start_stable:
  assumes "good_parties R E cf call" and "good_endpoint R ep" and "good_cleaner R ep"
  shows "safe R stable_exn (start_claim E cf call ep ctx lease r resumed)"
  unfolding start_claim_def
  by (intro walk calls [OF assms(1)] emit_stable [OF assms(1)] invoke_stable [OF assms(1,2)]
      finish_stable [OF assms(1,3)])

lemma handle_stable:
  assumes "good_parties R E cf call" and "good_endpoint R ep" and "good_cleaner R ep"
  shows "safe R stable_exn (handle_claim E cf call ep ctx lease r created resumed)"
proof -
  have replayed: "safe R stable_exn (bindP (ofR (replay (co_crypto cf) r call)) (\<lambda>output_value.
          bindP (reconcile_settled E cf lease []) (\<lambda>_.
          bindP (cleanup_checkpoint ep ctx lease (rc_child_run_id r)) (\<lambda>_.
          bindP (emit cf E_COMPLETED call (rc_delegation_id r)
            (Some (rc_child_run_id r)) (Some ''replayed'') None) (\<lambda>_.
          ret output_value)))))"
    by (intro walk settled_stable [OF assms(1)] cleanup_stable [OF assms(3)]
        emit_stable [OF assms(1)] stable_guards)
  show ?thesis
    unfolding handle_claim_def
    by (cases "receipt_action r created (ca_allow_resume call)")
      (auto simp: replayed safe_raise intro: reconcile_stable [OF assms] start_stable [OF assms])
qed

lemma missing_lease_stable:
  assumes "good_parties R E cf call"
  shows "safe R stable_exn (handle_missing_or_invalid_lease E cf call r)"
proof -
  have caught: "safe R stable_exn (catchP (fence_receipt E cf call r c)
      (\<lambda>e. case e of ReceiptStoreError c \<Rightarrow> raise (fail d) | _ \<Rightarrow> raise e))" for c d
    by (rule safe_catchP [OF fence_stable [OF assms]])
      (auto intro!: safe_raise split: exn.split)
  show ?thesis
    unfolding handle_missing_or_invalid_lease_def by (intro walk caught) simp_all
qed

lemma existing_lease_stable:
  assumes "good_parties R E cf call"
  shows "safe R stable_exn (validate_existing_receipt_lease E cf call r lease)"
proof -
  have caught: "safe R stable_exn (catchP (inspect_lease E lease) (\<lambda>e. case e of
         BudgetExceeded c \<Rightarrow> bindP (handle_missing_or_invalid_lease E cf call r)
            (\<lambda>_. raise (OtherException ''AssertionError''))
       | _ \<Rightarrow> raise e))"
    by (rule safe_catchP [OF store_safe(6) [OF parties(1) [OF assms]]])
      (auto intro!: safe_raise safe_bindP missing_lease_stable [OF assms] split: exn.split)
  show ?thesis
    unfolding validate_existing_receipt_lease_def
    by (intro walk caught calls [OF assms] missing_lease_stable [OF assms])
qed

lemma take_over_stable:
  assumes "good_parties R E cf call"
  shows "safe R stable_exn (take_over_claim E cf call r lease owner)"
proof -
  have resume: "safe R stable_exn (claim_resume_attempt E cf r owner)"
    unfolding claim_resume_attempt_def by (intro walk calls [OF assms] stable_ids)
  have caught: "safe R stable_exn (catchP (claim_resume_attempt E cf r owner)
      (\<lambda>e. if e = ReceiptStoreError ''delegation_receipt_state_conflict''
           then raise (fail ''delegation_in_progress'') else raise e))"
    by (rule safe_catchP [OF resume]) (auto intro: safe_raise)
  show ?thesis
    unfolding take_over_claim_def by (intro walk caught existing_lease_stable [OF assms])
qed

lemma reserve_claimed_stable:
  assumes "good_parties R E cf call"
  shows "safe R stable_exn (reserve_claimed E cf call r)"
proof -
  have uncertain: "safe R stable_exn (mark_reservation_uncertain E cf call r)"
    unfolding mark_reservation_uncertain_def
    by (rule safe_swallow [OF fence_stable [OF assms]])
  show ?thesis
    unfolding reserve_claimed_def
    by (rule safe_catchP [OF store_safe(2) [OF parties(1) [OF assms]]])
      (auto intro!: safe_raise safe_bindP uncertain)
qed

text \<open>Admission.\<close>

lemma authorize_stable:
  assumes "good_authorizer R m"
  shows "safe R stable_exn (authorize_or_reject m)"
proof -
  let ?h = "\<lambda>e. case e of DelegationRejected c u \<Rightarrow> raise e
    | _ \<Rightarrow> if is_exception e then raise (DelegationRejected ''delegation_authorizer_failed'' True) else raise e"
  have h: "stable_exn e \<Longrightarrow> safe R stable_exn (?h e)" "results Q (?h e)"
    for e and Q :: "delegation_decision option \<Rightarrow> bool"
    by (auto intro!: safe_raise results_raise split: exn.split)
  have m: "safe R stable_exn m" "results (\<lambda>d. \<forall>x. d = Some x \<longrightarrow> is_classification (dd_reason_code x)) m"
    using assms by (auto simp: good_authorizer_def results_def)
  show ?thesis
    unfolding authorize_or_reject_def
    by (rule safe_bindP_results [OF safe_catchP [OF m(1) h(1)] results_catchP [OF m(2) h(2)]])
      (auto intro!: walk)
qed

lemma admit_stable:
  assumes "good_parties R E cf call" and "pc_limits (ca_parent call) = co_limits cf"
  shows "safe R stable_exn (admit E cf call i run_id)"
proof -
  have lim: "check_limits (pc_limits (ca_parent call)) = Inr (pc_limits (ca_parent call))"
    and auth: "good_authorizer R (co_authorize cf caller callee desc parent c)"
    for caller callee desc parent c
    using assms by (auto simp: good_parties_def)
  show ?thesis
    unfolding admit_def
    by (intro walk stable_registry stable_guards good_parties_digest [OF assms(1)] stable_ids
        authorize_stable [OF auth] emit_stable [OF assms(1)] calls [OF assms(1)] lim parties(3) [OF assms(1)])
      auto
qed

lemma admit_endpoint:
  assumes "good_endpoints G cf"
  shows "results (\<lambda>(ep, lineage, session). G ep) (admit E cf call i run_id)"
proof -
  have "resolve (ca_callee call) (co_registry cf) = Inr x \<Longrightarrow> G (re_endpoint x)" for x
    using assms
    by (auto simp: good_endpoints_def resolve_def bindR_Inr_iff require_record_def record_resolved_def
        check_resolved_def split: option.splits if_splits dest!: map_of_SomeD)
  then show ?thesis
    unfolding admit_def by (intro results_walk) simp
qed

text \<open>The translation of failures: what leaves it may be shown.\<close>

lemma translate_surfaced:
  assumes ok: "good_parties R E cf call" and e: "stable_exn e"
    and ids: "pc_execution_group_id (ca_parent call) \<noteq> []" "ca_parent_tool_call_id call \<noteq> []" "i \<noteq> []"
  shows "safe R surfaced (translate_failure E cf call i run_id owned e)"
proof -
  have release: "safe R surfaced (case owned of None \<Rightarrow> ret () | Some lease \<Rightarrow> best_effort_release E cf lease)"
    by (intro walk release_safe [OF ok])
  have rejected: "is_classification c \<Longrightarrow>
      safe R surfaced (emit cf E_REJECTED call i (Some run_id) None (Some c))" for c
    by (rule emit_safe [OF parties(2) [OF ok]]) (use ids in \<open>auto simp: check_event_def opt_check_def check_classification_def all_ok.simps\<close>)
  have k: "''execution_error'' \<in> set failure_kinds" "''unauthorized'' \<in> set failure_kinds"
    "''timeout'' \<in> set failure_kinds"
    by (simp_all add: failure_kinds_def)
  show ?thesis
    using e unfolding translate_failure_def Let_def
    by (cases e) (auto intro!: safe_bindP release rejected safe_raise surfaced_failure simp: k)
qed

lemma translated:
  assumes "good_parties R E cf call" and "safe R stable_exn m"
    and "pc_execution_group_id (ca_parent call) \<noteq> []" "ca_parent_tool_call_id call \<noteq> []" "i \<noteq> []"
  shows "safe R surfaced (catchP m (translate_failure E cf call i run_id owned))"
  by (rule safe_catchP [OF assms(2) translate_surfaced [OF assms(1) _ assms(3-5)]])

lemma run_leased_surfaced:
  assumes "good_parties R E cf call" and "good_endpoint R ep" and "good_cleaner R ep"
    and "pc_execution_group_id (ca_parent call) \<noteq> []" "ca_parent_tool_call_id call \<noteq> []" "i \<noteq> []"
  shows "safe R surfaced (run_leased E cf call i run_id ep lineage session r created resumed lease)"
  unfolding run_leased_def
  by (intro safe_finallyP translated [OF assms(1) _ assms(4-6)] walk stable_guards stable_constructors
      handle_stable [OF assms(1-3)] own_fields)

lemma delegate_claimed_surfaced:
  assumes "good_parties R E cf call" and "good_endpoint R ep" and "good_cleaner R ep"
    and "pc_execution_group_id (ca_parent call) \<noteq> []" "ca_parent_tool_call_id call \<noteq> []" "i \<noteq> []"
  shows "safe R surfaced (delegate_claimed E cf call owner i run_id ep lineage session r created)"
proof -
  have taken: "safe R surfaced (catchP
          (bindP (take_over_claim E cf call r old owner) (\<lambda>(r, resumed).
           bindP (if resumed then reserve_claimed E cf call r else ret old) (\<lambda>lease.
           ret (r, resumed, lease))))
          (\<lambda>e. finallyP (translate_failure E cf call i run_id None e) (unsettle old)))" for old
    by (rule safe_catchP [where Q = stable_exn])
      (intro walk take_over_stable [OF assms(1)] reserve_claimed_stable [OF assms(1)],
        intro safe_finallyP translate_surfaced [OF assms(1) _ assms(4-6)] own_fields)
  show ?thesis
    unfolding delegate_claimed_def
    by (intro safe_if safe_bindP safe_pair taken translated [OF assms(1) _ assms(4-6)]
        run_leased_surfaced [OF assms] reserve_claimed_stable [OF assms(1)] safe_ofR stable_guards)
qed

lemma claim_stable:
  assumes "good_parties R E cf call" and "pc_limits (ca_parent call) = co_limits cf"
  shows "safe R stable_exn (claim_delegation E cf call owner i run_id q x)"
proof -
  have candidate: "check_receipt c = Inr c"
    if "bindR (lease_id (co_crypto cf) i 1) (receipt_candidate call i run_id q x 1 owner) = Inr c" for c
    using that check_receipt_same by (auto simp: bindR_Inr_iff receipt_candidate_def)
  show ?thesis
    unfolding claim_delegation_def
    by (intro walk admit_stable [OF assms] calls [OF assms(1)] rsafe_bindR stable_ids stable_guards)
      (erule candidate)
qed

lemma claim_endpoint:
  assumes "good_endpoints G cf"
  shows "results (\<lambda>(ep, _). G ep) (claim_delegation E cf call owner i run_id q x)"
  unfolding claim_delegation_def
  by (rule results_bindP_dep [OF admit_endpoint [OF assms]]) (auto intro!: results_walk)

text \<open>The beginning of a delegation, once its digests are known.\<close>

lemma delegate_begins:
  assumes "canonical_digest (co_crypto cf) (ca_request_payload call) = Inr q"
    and "call_context_digest (co_crypto cf) call = Inr x"
    and "delegation_id (co_crypto cf) (ca_parent_run_id call) (ca_parent_tool_call_id call) q = Inr i"
  shows "delegate E cf u call =
     bindP (ofR (require (pc_limits (ca_parent call) = co_limits cf)
       (fail ''execution_group_contract_mismatch''))) (\<lambda>_.
     bindP (ofR (validate_parent_run_identity call)) (\<lambda>_.
     bindP (emit cf E_REQUESTED call i (Some (child_run_id (co_crypto cf) i)) None None) (\<lambda>_.
     bindP (catchP (claim_delegation E cf call (''owner:'' @ u) i (child_run_id (co_crypto cf) i) q x)
       (translate_failure E cf call i (child_run_id (co_crypto cf) i) None))
       (\<lambda>(ep, lineage, session, receipt, created).
     delegate_claimed E cf call (''owner:'' @ u) i (child_run_id (co_crypto cf) i) ep lineage session
       receipt created))))"
  unfolding delegate_def Let_def assms bindP_ofR_Inr by simp

lemma delegate_surfaced:
  assumes ok: "good_parties R E cf call"
    and eps: "good_endpoints (\<lambda>ep. good_endpoint R ep \<and> good_cleaner R ep) cf"
    and ids: "pc_execution_group_id (ca_parent call) \<noteq> []" "ca_parent_tool_call_id call \<noteq> []"
    and digests: "canonical_digest (co_crypto cf) (ca_request_payload call) = Inr q" "is_sha256 q"
      "call_context_digest (co_crypto cf) call = Inr x"
  shows "safe R surfaced (delegate E cf u call)"
proof -
  have requested: "safe R surfaced (emit cf E_REQUESTED call i (Some run_id) None None)" if "i \<noteq> []" for i run_id
    by (rule emit_safe [OF parties(2) [OF ok]])
      (use ids that in \<open>auto simp: check_event_def opt_check_def all_ok.simps\<close>)
  have fails: "rsafe surfaced (require b (fail ''execution_group_contract_mismatch''))"
    "rsafe surfaced (validate_parent_run_identity call)" for b
    by (auto simp: rsafe_def validate_parent_run_identity_def surfaced_failure failure_kinds_def Let_def
        split: option.splits if_splits)
  obtain i where i: "delegation_id (co_crypto cf) (ca_parent_run_id call) (ca_parent_tool_call_id call) q = Inr i"
    "i \<noteq> []"
    using digests(2) by (simp add: delegation_id_def)
  have endpoint: "results (\<lambda>(ep, _). good_endpoint R ep \<and> good_cleaner R ep)
      (catchP (claim_delegation E cf call own i run_id q x) (translate_failure E cf call i run_id None))"
    for own run_id
    by (rule results_catchP [OF claim_endpoint [OF eps] translate_results])
  have rest: "safe R surfaced (bindP
      (catchP (claim_delegation E cf call own i run_id q x) (translate_failure E cf call i run_id None))
      (\<lambda>(ep, lineage, session, receipt, created).
       delegate_claimed E cf call own i run_id ep lineage session receipt created))"
    if "pc_limits (ca_parent call) = co_limits cf" for run_id own
    by (rule safe_bindP_results [OF translated [OF ok claim_stable [OF ok that] ids i(2)] endpoint])
      (auto intro: delegate_claimed_surfaced [OF ok _ _ ids i(2)])
  have limits: "require (pc_limits (ca_parent call) = co_limits cf) e = Inr () \<Longrightarrow>
      pc_limits (ca_parent call) = co_limits cf" for e
    by simp
  show ?thesis
    unfolding delegate_begins [OF digests(1,3) i(1)]
    by (intro safe_bind_ofR fails safe_bindP [OF requested [OF i(2)] rest] limits) simp
qed

text \<open>What is done with a final receipt never runs, resumes or reconciles the child.\<close>

lemma finished_handle:
  assumes "good_parties R E cf call" and "good_cleaner R ep" and "final_receipt r"
  shows "safe R stable_exn (handle_claim E cf call ep ctx lease r False resumed)"
proof -
  have "receipt_action r False (ca_allow_resume call) \<in>
      {A_REPLAY, A_TERMINAL_FAILURE, A_TERMINAL_CANCELLED, A_MANUAL_REQUIRED}"
    using assms(3) by (cases "rc_status r") (auto simp: receipt_action_def final_receipt_def)
  then show ?thesis
    unfolding handle_claim_def
    by (auto simp: safe_raise intro!: safe_bindP safe_ret safe_ofR settled_stable [OF assms(1)]
        cleanup_stable [OF assms(2)] emit_stable [OF assms(1)] stable_guards)
qed

lemma finished_take_over:
  assumes "final_receipt r"
  shows "results (\<lambda>(r', resumed). r' = r \<and> \<not> resumed) (take_over_claim E cf call r lease owner)"
proof -
  have "receipt_action r False (ca_allow_resume call) \<noteq> A_RESUME"
    using assms by (cases "rc_status r") (auto simp: receipt_action_def final_receipt_def)
  then show ?thesis unfolding take_over_claim_def by (auto intro!: results_walk)
qed

lemma finished_claimed:
  assumes ok: "good_parties R E cf call" and ep: "good_cleaner R ep" and r: "final_receipt r"
    and ids: "pc_execution_group_id (ca_parent call) \<noteq> []" "ca_parent_tool_call_id call \<noteq> []" "i \<noteq> []"
  shows "safe R surfaced (delegate_claimed E cf call owner i run_id ep lineage session r False)"
proof -
  let ?take = "\<lambda>old. bindP (take_over_claim E cf call r old owner) (\<lambda>(r', resumed).
      bindP (if resumed then reserve_claimed E cf call r' else ret old) (\<lambda>lease.
      ret (r', resumed, lease)))"
  have taken: "safe R surfaced (catchP (?take old)
          (\<lambda>e. finallyP (translate_failure E cf call i run_id None e) (unsettle old)))" for old
    by (rule safe_catchP [where Q = stable_exn])
      (intro walk take_over_stable [OF ok] reserve_claimed_stable [OF ok],
        intro safe_finallyP translate_surfaced [OF ok _ ids] own_fields)
  have kept: "results (\<lambda>(r', resumed, lease). r' = r \<and> \<not> resumed) (catchP (?take old)
          (\<lambda>e. finallyP (translate_failure E cf call i run_id None e) (unsettle old)))" for old
  proof (rule results_catchP)
    show "results (\<lambda>(r', resumed, lease). r' = r \<and> \<not> resumed) (?take old)"
      by (rule results_bindP_dep [OF finished_take_over [OF r]]) (auto intro!: results_walk)
    show "results (\<lambda>(r', resumed, lease). r' = r \<and> \<not> resumed)
        (finallyP (translate_failure E cf call i run_id None e) (unsettle old))" for e
      using translate_results [where Q = "\<lambda>_. False" and E = E and cf = cf and call = call and i = i
          and run_id = run_id and owned = None and e = e]
      by (fastforce simp: results_def finallyP_def split: prod.splits)
  qed
  have leased: "safe R surfaced (run_leased E cf call i run_id ep lineage session r False False lease)" for lease
    unfolding run_leased_def
    by (intro safe_finallyP translated [OF ok _ ids] walk stable_guards stable_constructors
        finished_handle [OF ok ep r] own_fields)
  have rest: "safe R surfaced (bindP (catchP (?take old)
      (\<lambda>e. finallyP (translate_failure E cf call i run_id None e) (unsettle old)))
      (\<lambda>(r, resumed, lease). run_leased E cf call i run_id ep lineage session r resumed resumed lease))" for old
    by (rule safe_bindP_results [OF taken kept]) (auto intro: leased)
  show ?thesis
    unfolding delegate_claimed_def if_False
    by (intro safe_bindP rest translated [OF ok _ ids] safe_ofR stable_guards)
qed

end

end
