(* ===== verification/Coordinator_Props.thy ===== *)
theory Coordinator_Props
  imports Coordinator_Safety
begin

text \<open>
  What a delegation guarantees: it changes the budgets and the receipts by steps of their protocols
  only, its caller sees stable failures only, an unauthorised or a finished delegation does not reach
  the endpoint.  The first two are the walk of \<^theory_text>\<open>Coordinator_Safety\<close> for the two protocols.
\<close>

subsection \<open>The calls of one store leave the other alone\<close>

lemma frame_await:
  assumes "transp R" and "rely_env R E" and "\<And>w n. R w (w\<lparr>tick := n\<rparr>)"
  shows "R w (await E w)"
  using transpD [OF assms(1) _ assms(3)] assms(2) by (simp add: await_def rely_env_def)

text \<open>A relation that does not look at the groups is kept by the ledger.\<close>

locale groups_free = step_relation R for R :: "'a budget_world_scheme \<Rightarrow> 'a budget_world_scheme \<Rightarrow> bool" +
  assumes put_groups: "R w (w\<lparr>groups := g\<rparr>)" and put_tick: "R w (w\<lparr>tick := n\<rparr>)"
begin

lemma free_await: "rely_env R E \<Longrightarrow> R w (await E w)"
  by (rule frame_await [OF trans _ put_tick])

lemma free_groups: "rely_env R E \<Longrightarrow> R w ((await E w)\<lparr>groups := g\<rparr>)"
  using transpD [OF trans free_await put_groups] .

lemma free_calls:
  assumes "rely_env R E"
  shows "preserves R (store_load E i)" "preserves R (store_create E s)" "preserves R (store_cas E i n s)"
    "preserves R (suspend E)"
  using free_await [OF assms] free_groups [OF assms]
  by (auto simp: preserves_def store_load_def store_create_def store_cas_def suspend_def Let_def
      split: option.split)

lemmas free_rules = preserves_bindP [OF trans] preserves_catchP [OF trans] preserves_ret [OF refl]
  preserves_raise [OF refl] preserves_ofR [OF refl] preserves_readP [OF refl] preserves_option
  preserves_if

lemma free_require: "rely_env R E \<Longrightarrow> preserves R (require_state E i)"
  unfolding require_state_def by (intro free_rules free_calls)

lemma free_mutate:
  assumes "rely_env R E"
  shows "preserves R (mutate E n i operation)"
proof (induction n)
  case 0
  then show ?case by (simp add: preserves_raise [OF refl])
next
  case (Suc n)
  then show ?case
    unfolding mutate.simps(2) split_def
    by (intro free_rules free_calls [OF assms] free_require [OF assms])
qed

lemma free_reserve_loop:
  assumes "rely_env R E"
  shows "preserves R (reserve_loop E a g i c fuel)"
proof (induction fuel)
  case 0
  then show ?case by (simp add: preserves_raise [OF refl])
next
  case (Suc fuel)
  then show ?case
    unfolding reserve_loop.simps
    by (intro free_rules free_calls [OF assms] free_require [OF assms] free_mutate [OF assms])
qed

lemma free_ledger:
  assumes "rely_env R E"
  shows "preserves R (ensure_group E g m d)" "preserves R (reserve_delegation E a f g c i u)"
    "preserves R (complete_lease_state E a l us)" "preserves R (inspect_lease E l)"
    "preserves R (release_lease E a l)"
  unfolding ensure_group_def reserve_delegation_def complete_lease_state_def inspect_lease_def
    release_lease_def Let_def
  by (intro free_rules free_calls [OF assms] free_require [OF assms] free_mutate [OF assms]
      free_reserve_loop [OF assms])+

end

text \<open>The same for the receipts and the receipt store.\<close>

locale receipts_free = step_relation R
  for R :: "'a delegation_world_scheme \<Rightarrow> 'a delegation_world_scheme \<Rightarrow> bool" +
  assumes put_receipts: "R w (w\<lparr>receipts := g\<rparr>)" and put_tick: "R w (w\<lparr>tick := n\<rparr>)"
begin

lemma free_await: "rely_env R E \<Longrightarrow> R w (await E w)"
  by (rule frame_await [OF trans _ put_tick])

lemma free_receipts: "rely_env R E \<Longrightarrow> R w ((await E w)\<lparr>receipts := g\<rparr>)"
  using transpD [OF trans free_await put_receipts] .

lemma free_store:
  assumes "rely_env R E"
  shows "preserves R (receipt_get E i)" "preserves R (receipt_claim E r)"
    "preserves R (receipt_cas E i n r)" "preserves R (receipt_pause E)"
  using free_await [OF assms] free_receipts [OF assms] reflpD [OF refl]
  by (auto simp: preserves_def receipt_get_def receipt_claim_def receipt_cas_def Let_def
      split: option.split)

lemma free_transition:
  assumes "rely_env R E"
  shows "preserves R (transition_loop E n i expected st changes)"
proof (induction n)
  case 0
  then show ?case by (simp add: preserves_raise [OF refl])
next
  case (Suc n)
  then show ?case
    unfolding transition_loop.simps(2) split_def
    by (intro preserves_bindP [OF trans] preserves_ret [OF refl] preserves_raise [OF refl]
        preserves_ofR [OF refl] preserves_option preserves_if free_store [OF assms])
qed

end

subsection \<open>The two protocols\<close>

lemma budget_rely_frame: "groups w' = groups w \<Longrightarrow> budget_rely w w'"
  by (rule budgets.keeps_frame)

lemma receipt_rely_frame: "receipts w' = receipts w \<Longrightarrow> receipt_rely w w'"
  by (rule receipt_store.keeps_frame)

interpretation receipts_unseen: receipts_free
  "budget_rely :: 'a delegation_world_scheme \<Rightarrow> 'a delegation_world_scheme \<Rightarrow> bool"
  by unfold_locales (auto intro: budget_rely_frame rely_reflp rely_transp)

interpretation groups_unseen: groups_free
  "receipt_rely :: 'a delegation_world_scheme \<Rightarrow> 'a delegation_world_scheme \<Rightarrow> bool"
  by unfold_locales (auto intro: receipt_rely_frame receipt_store.keeps_refl receipt_store.keeps_trans)

lemma release_preserves: "rely_env budget_rely E \<Longrightarrow> preserves budget_rely (release_lease E a l)"
  unfolding release_lease_def by (intro mutate_preserves operation_release)

interpretation budget_protocol: coordinated "budget_rely :: 'a cworld \<Rightarrow> 'a cworld \<Rightarrow> bool"
  by unfold_locales
    (simp_all add: budget_rely_frame suspend_preserves ensure_preserves reserve_delegation_preserves
      complete_state_preserves inspect_preserves release_preserves receipts_unseen.free_store
      receipts_unseen.free_transition rely_reflp rely_transp)

lemma receipt_store_preserves:
  fixes E :: "'a delegation_world_scheme env"
  assumes "rely_env receipt_rely E"
  shows "preserves receipt_rely (receipt_get E i)"
    "check_receipt r = Inr r \<Longrightarrow> preserves receipt_rely (receipt_claim E r)"
    "preserves receipt_rely (transition_loop E n i expected st changes)"
proof -
  have E: "\<And>n w. receipt_rely w (E n w)" using assms by (simp add: rely_env_def)
  show "preserves receipt_rely (receipt_get E i)"
    using receipt_rely_await [OF E] by (simp add: preserves_def receipt_get_def Let_def)
  show "preserves receipt_rely (transition_loop E n i expected st changes)"
    by (simp add: preserves_def transition_guarantee [OF E])
  show "check_receipt r = Inr r \<Longrightarrow> preserves receipt_rely (receipt_claim E r)"
    by (simp add: preserves_def claim_guarantee [OF E])
qed

interpretation receipt_protocol: coordinated "receipt_rely :: 'a cworld \<Rightarrow> 'a cworld \<Rightarrow> bool"
  by unfold_locales
    (simp_all add: receipt_rely_frame groups_unseen.free_ledger groups_unseen.free_calls
      receipt_store_preserves receipt_store.keeps_refl receipt_store.keeps_trans)

interpretation any_protocol: coordinated "\<lambda>_ _. True"
  by unfold_locales (auto simp: preserves_def reflp_def transp_def)

subsection \<open>A log of what the children do\<close>

text \<open>
  A world that also records what endpoints do in their \<^verbatim>\<open>run\<close>, \<^verbatim>\<open>resume\<close> and \<^verbatim>\<open>reconcile\<close> methods.  The
  coordinator does not touch the log, so an unchanged log says that no such method was reached.
\<close>

record 'l logged_world = coordinator_world +
  child_log :: "'l list"

definition log_kept :: "('l, 'a) logged_world_scheme \<Rightarrow> ('l, 'a) logged_world_scheme \<Rightarrow> bool" where
  "log_kept w w' \<longleftrightarrow> child_log w' = child_log w"

definition stores_kept :: "('l, 'a) logged_world_scheme \<Rightarrow> ('l, 'a) logged_world_scheme \<Rightarrow> bool" where
  "stores_kept w w' \<longleftrightarrow> child_log w' = child_log w \<and> groups w' = groups w \<and> receipts w' = receipts w"

interpretation log_groups: groups_free "log_kept :: ('l, 'a) logged_world_scheme \<Rightarrow> _"
  by unfold_locales (auto simp: log_kept_def reflp_def transp_def)

interpretation log_receipts: receipts_free "log_kept :: ('l, 'a) logged_world_scheme \<Rightarrow> _"
  by unfold_locales (auto simp: log_kept_def reflp_def transp_def)

interpretation log_protocol: coordinated "log_kept :: ('l, 'a) logged_world_scheme \<Rightarrow> _"
  by unfold_locales
    (simp_all add: log_groups.free_ledger log_groups.free_calls log_receipts.free_store
      log_receipts.free_transition, simp_all add: log_kept_def)

interpretation quiet_stores: quiet_parties "stores_kept :: ('l, 'a) logged_world_scheme \<Rightarrow> _"
  by unfold_locales (auto simp: stores_kept_def reflp_def transp_def)

subsection \<open>Calls\<close>

text \<open>
  A call as its constructors leave it, whose request and schemas have a canonical form, with the digest
  of a sound hash function and the delegation ID derived from it.
\<close>

definition proper_call :: "'w coordinator \<Rightarrow> 'w delegation_call \<Rightarrow> string \<Rightarrow> bool" where
  "proper_call cf call i \<longleftrightarrow>
     check_call call = Inr call \<and> check_parent_context (ca_parent call) = Inr (ca_parent call) \<and>
     (\<exists>q x. canonical_digest (co_crypto cf) (ca_request_payload call) = Inr q \<and>
        call_context_digest (co_crypto cf) call = Inr x \<and>
        delegation_id (co_crypto cf) (ca_parent_run_id call) (ca_parent_tool_call_id call) q = Inr i)"

lemma proper_callE:
  assumes "proper_call cf call i"
  obtains q x where "canonical_digest (co_crypto cf) (ca_request_payload call) = Inr q" "is_sha256 q"
    "call_context_digest (co_crypto cf) call = Inr x"
    "delegation_id (co_crypto cf) (ca_parent_run_id call) (ca_parent_tool_call_id call) q = Inr i"
    "pc_execution_group_id (ca_parent call) \<noteq> []" "ca_parent_tool_call_id call \<noteq> []" "i \<noteq> []"
  using assms
  by (auto simp: proper_call_def check_call_def check_parent_context_def bindR_Inr_iff delegation_id_def
      identifier_nonempty split: if_splits)

subsection \<open>Claiming a settled delegation\<close>

lemma final_kept:
  assumes "receipt_rely w w'" and "receipts_ok w" and "receipts w i = Some r" and "final_receipt r"
  shows "receipts_ok w' \<and> receipts w' i = Some r"
  using receipt_rely_steps [OF assms(1-3)] final_steps assms(4)
    receipt_store.rely_all_values [OF assms(1,2)] by blast

lemma claim_settled:
  assumes ok: "good_parties receipt_rely E cf call" and lim: "pc_limits (ca_parent call) = co_limits cf"
    and w: "receipts_ok w" "receipts w i = Some c" "final_receipt c"
    and run: "claim_delegation E cf call owner i run_id q x w = (Inr (ep, lineage, session, r, created), w')"
  shows "r = c \<and> \<not> created"
proof -
  have wait: "receipt_rely v (await E v)" for v
    using ok receipt_rely_await [of E v] by (simp add: good_parties_def rely_env_def)
  obtain a w1 where adm: "admit E cf call i run_id w = (Inr a, w1)"
    using run by (auto simp: claim_delegation_def bindP_run split: prod.splits sum.splits)
  have "receipt_rely w w1"
    using safeD [OF receipt_protocol.admit_stable [OF ok lim] adm] by blast
  then have 1: "receipts_ok w1 \<and> receipts w1 i = Some c" by (rule final_kept [OF _ w])
  let ?w2 = "await E w1" and ?w3 = "await E (await E w1)"
  have 2: "receipts_ok ?w2 \<and> receipts ?w2 i = Some c" by (rule final_kept [OF wait]) (use 1 w in auto)
  have 3: "receipts ?w3 i = Some c" using final_kept [OF wait] 2 w by blast
  obtain cand where cand: "bindR (lease_id (co_crypto cf) i 1) (receipt_candidate call i run_id q x 1 owner) = Inr cand"
    using run adm by (auto simp: claim_delegation_def bindP_run ofR_def split: prod.splits sum.splits)
  then have "rc_status cand = R_RESERVED" "rc_delegation_id cand = i"
    using check_receipt_same by (fastforce simp: bindR_Inr_iff receipt_candidate_def)+
  then have "receipt_claim E cand ?w2 = (Inr (c, False), ?w3)"
    using 3 by (simp add: receipt_claim_def Let_def)
  then show ?thesis
    using run adm cand
    by (auto simp: claim_delegation_def bindP_run ofR_def suspend_def ret_def split: prod.splits sum.splits)
qed

text \<open>From the claim on, a settled delegation leaves the log alone.\<close>

lemma settled_from_claim:
  assumes log: "good_parties log_kept E cf call" "good_endpoints (good_cleaner log_kept) cf"
    and rely: "good_parties receipt_rely E cf call" and lim: "pc_limits (ca_parent call) = co_limits cf"
    and w: "receipts_ok w" "receipts w i = Some c" "final_receipt c"
    and ids: "pc_execution_group_id (ca_parent call) \<noteq> []" "ca_parent_tool_call_id call \<noteq> []" "i \<noteq> []"
    and run: "bindP (catchP (claim_delegation E cf call own i run_id q x)
        (translate_failure E cf call i run_id None))
      (\<lambda>(ep, lineage, session, receipt, created).
        delegate_claimed E cf call own i run_id ep lineage session receipt created) w = (r, w')"
  shows "log_kept w w'"
proof -
  let ?claim = "catchP (claim_delegation E cf call own i run_id q x) (translate_failure E cf call i run_id None)"
  obtain a w2 where cl: "?claim w = (a, w2)" by fastforce
  have first: "log_kept w w2"
    using safeD [OF log_protocol.translated [OF log(1) log_protocol.claim_stable [OF log(1) lim] ids] cl]
    by blast
  show ?thesis
  proof (cases a)
    case (Inl e)
    then show ?thesis using run cl first by (simp add: bindP_run)
  next
    case (Inr y)
    obtain ep lineage session rc created where y: "y = (ep, lineage, session, rc, created)"
      by (cases y) auto
    have claimed: "claim_delegation E cf call own i run_id q x w = (Inr y, w2)"
      using cl Inr translate_results [where Q = "\<lambda>_. False" and E = E and cf = cf and call = call
          and i = i and run_id = run_id and owned = None]
      by (fastforce simp: catchP_def results_def split: prod.splits sum.splits)
    have rc: "rc = c \<and> \<not> created" by (rule claim_settled [OF rely lim w claimed [unfolded y]])
    have ep: "good_cleaner log_kept ep"
      using log_protocol.claim_endpoint [OF log(2), where E = E and call = call and owner = own and i = i
          and run_id = run_id and q = q and x = x] claimed y
      by (fastforce simp: results_def)
    have "delegate_claimed E cf call own i run_id ep lineage session c False w2 = (r, w')"
      using run cl Inr y rc by (simp add: bindP_run)
    then have "log_kept w2 w'"
      using safeD [OF log_protocol.finished_claimed [OF log(1) ep w(3) ids]] by blast
    then show ?thesis using first by (simp add: log_kept_def)
  qed
qed

subsection \<open>Properties\<close>

definition honest ::
  "('a cworld \<Rightarrow> 'a cworld \<Rightarrow> bool) \<Rightarrow> 'a cworld env \<Rightarrow> 'a cworld coordinator \<Rightarrow> 'a cworld delegation_call \<Rightarrow>
   bool" where
  "honest R E cf call \<longleftrightarrow> good_parties R E cf call \<and>
     good_endpoints (\<lambda>ep. good_endpoint R ep \<and> good_cleaner R ep) cf"

context coordinated begin

lemma honest_delegate:
  assumes "proper_call cf call i" and "honest R E cf call"
  shows "safe R surfaced (delegate E cf u call)"
  using assms(2) proper_callE [OF assms(1)] unfolding honest_def
  by (metis (no_types, lifting) delegate_surfaced)

end

text \<open>
  C3.  A delegation keeps to the protocols of both stores: as long as the endpoints, the authorizer, the
  sinks and the other tasks do, whatever it returns or raises, every group and every receipt has only
  taken steps of its protocol, so the limits of every group still hold and settled receipts are as
  they were.
\<close>

theorem delegation_keeps_stores:
  assumes "proper_call cf call i"
    and "honest budget_rely E cf call" and "honest receipt_rely E cf call"
    and "budgets_ok w" and "receipts_ok w" and "delegate E cf u call w = (r, w')"
  shows "budgets_ok w' \<and>
    (\<forall>g s. groups w g = Some s \<longrightarrow> (\<exists>s'. groups w' g = Some s' \<and> ledger_step\<^sup>*\<^sup>* s s')) \<and>
    receipts_ok w' \<and>
    (\<forall>j c. receipts w j = Some c \<longrightarrow> (\<exists>c'. receipts w' j = Some c' \<and> receipt_step\<^sup>*\<^sup>* c c' \<and>
       (final_receipt c \<longrightarrow> c' = c)))"
proof -
  have b: "budget_rely w w'" and c: "receipt_rely w w'"
    using safeD [OF budget_protocol.honest_delegate [OF assms(1,2)] assms(6)]
      safeD [OF receipt_protocol.honest_delegate [OF assms(1,3)] assms(6)] by blast+
  show ?thesis
    using rely_ok [OF b assms(4)] rely_steps [OF b assms(4)]
      receipt_store.rely_all_values [OF c assms(5)] receipt_rely_steps [OF c assms(5)] final_steps
    by blast
qed

text \<open>
  C6.  Failures are stable: when the parties raise exceptions with stable codes only, whatever goes wrong
  inside a delegation reaches its caller as a failure with a stable code and kind, or as the caller's
  own cancellation.
\<close>

theorem delegation_failures_stable:
  assumes "proper_call cf call i" and "honest (\<lambda>_ _. True) E cf call"
    and "delegate E cf u call w = (Inl e, w')"
  shows "e \<in> {CancelledError, FuelOut} \<or>
    (\<exists>code kind. e = DelegationFailure code kind \<and> is_classification code \<and> kind \<in> set failure_kinds)"
proof -
  have "surfaced e"
    using safeD [OF any_protocol.honest_delegate [OF assms(1,2)] assms(3)] by blast
  then show ?thesis by (cases e) auto
qed

text \<open>
  C5.  A delegation that is not allowed has no effect: when the authorizer never returns an allowing
  decision for the call (it denies, raises, or returns something else), the delegation fails, no
  method of an endpoint has run, and no group and no receipt has changed; nothing is assumed of the
  endpoints, and no other task gets to run.
\<close>

theorem denied_delegation_inert:
  assumes "good_sinks stores_kept cf call"
    and "\<And>desc. safe stores_kept stable_exn (co_authorize cf (ca_caller call) (ca_callee call) desc
           (ca_parent call) (ca_request_classification call))"
    and "\<And>desc. never_allows (co_authorize cf (ca_caller call) (ca_callee call) desc (ca_parent call)
           (ca_request_classification call))"
  shows "case delegate E cf u call w of (r, w') \<Rightarrow>
    (\<exists>e. r = Inl e) \<and> child_log w' = child_log w \<and> groups w' = groups w \<and> receipts w' = receipts w"
proof -
  obtain r w' where run: "delegate E cf u call w = (r, w')" by fastforce
  have "stores_kept w w'"
    using safeD [OF quiet_stores.denied_delegation(1) [OF assms] run] by blast
  moreover have "r \<noteq> Inr x" for x
    using quiet_stores.denied_delegation(2) [OF assms, where E = E and u = u] run
    by (auto simp: results_def)
  ultimately show ?thesis using run by (cases r) (auto simp: stores_kept_def)
qed

text \<open>
  C4.  A settled delegation is never run again: when the receipt of a call's delegation is completed,
  cancelled, fenced or unresumably failed, a repeated call (a retry after a crash, a duplicate of
  another task) reaches no \<^verbatim>\<open>run\<close>, \<^verbatim>\<open>resume\<close> or \<^verbatim>\<open>reconcile\<close> method of any endpoint, whatever these would
  do.
\<close>

theorem settled_delegation_not_rerun:
  assumes call: "proper_call cf call i"
    and log: "good_parties log_kept E cf call" "good_endpoints (good_cleaner log_kept) cf"
    and rely: "good_parties receipt_rely E cf call"
    and w: "receipts_ok w" "receipts w i = Some c" "final_receipt c"
    and run: "delegate E cf u call w = (r, w')"
  shows "child_log w' = child_log w"
proof -
  obtain q x where digests: "canonical_digest (co_crypto cf) (ca_request_payload call) = Inr q"
    "call_context_digest (co_crypto cf) call = Inr x"
    "delegation_id (co_crypto cf) (ca_parent_run_id call) (ca_parent_tool_call_id call) q = Inr i"
    and ids: "pc_execution_group_id (ca_parent call) \<noteq> []" "ca_parent_tool_call_id call \<noteq> []" "i \<noteq> []"
    using call by (rule proper_callE)
  let ?rid = "child_run_id (co_crypto cf) i"
  note begins = run [unfolded log_protocol.delegate_begins [OF digests]]
  obtain p w1 where em: "emit cf E_REQUESTED call i (Some ?rid) None None w = (p, w1)" by fastforce
  have log1: "log_kept w w1" using safeD [OF log_protocol.emit_stable [OF log(1)] em] by blast
  have ok1: "receipts_ok w1 \<and> receipts w1 i = Some c"
    using final_kept [OF _ w] safeD [OF receipt_protocol.emit_stable [OF rely] em] by blast
  show ?thesis
  proof (cases "pc_limits (ca_parent call) = co_limits cf \<and> validate_parent_run_identity call = Inr () \<and> p = Inr ()")
    case False
    then have "w' = w \<or> w' = w1"
      using begins em by (auto simp: bindP_run ofR_def require_def split: sum.splits if_splits)
    then show ?thesis using log1 by (auto simp: log_kept_def)
  next
    case True
    have "log_kept w1 w'"
      by (rule settled_from_claim [OF log rely _ _ _ w(3) ids])
        (use True ok1 begins em in \<open>auto simp: bindP_run [of "emit cf E_REQUESTED call i (Some ?rid) None None"]
           bindP_ofR_Inr\<close>)
    then show ?thesis using log1 by (simp add: log_kept_def)
  qed
qed

end
