(* ===== verification/Coordinator_Samples.thy ===== *)
theory Coordinator_Samples
  imports Coordinator_Props
begin

text \<open>
  A concrete coordinator with one endpoint that answers with its request and logs every run, evaluated
  by the kernel, and the properties of \<^theory_text>\<open>Coordinator_Props\<close> applied to it.
\<close>

type_synonym demo_world = "nat logged_world"

definition demo_handler :: "demo_world endpoint_handler" where
  "demo_handler =
     \<lparr>eh_run = Some (\<lambda>q ctx lease i w. (Inr (Some
        \<lparr>oc_status = OCompleted, oc_child_run_id = i, oc_finish_reason = None, oc_output = Some q,
         oc_error_code = None, oc_retryable = False, oc_resumable = False, oc_usage = []\<rparr>),
         w\<lparr>child_log := length (child_log w) # child_log w\<rparr>)),
      eh_reconcile = None, eh_resume = None, eh_cleanup = None\<rparr>"

definition demo_coordinator :: "bool \<Rightarrow> demo_world coordinator" where
  "demo_coordinator allowed =
     \<lparr>co_registry = [(worker_ref, \<lparr>rr_definition = sample_definition ''worker'',
        rr_endpoint = \<lparr>ep_handler = Some demo_handler, ep_kind = ''local'', ep_supports_async = True,
          ep_supports_stream = False, ep_approved = True\<rparr>, rr_status = ACTIVE\<rparr>)],
      co_authorize = (\<lambda>caller callee desc parent c. ret (Some
        \<lparr>dd_allowed = allowed, dd_reason_code = ''delegation_demo''\<rparr>)),
      co_cycle_guard = None, co_crypto = sample_crypto, co_allow_shared = False,
      co_limits = sample_limits, co_publish = (\<lambda>ev. ret ()), co_fate = (\<lambda>w. Task_Done),
      co_attempts = 2, co_fuel = 3\<rparr>"

definition demo_call :: "demo_world delegation_call" where
  "demo_call =
     \<lparr>ca_caller = sample_parent, ca_callee = worker_ref, ca_request = PDict [(''q'', PInt 1)],
      ca_request_payload = [(''q'', PInt 1)], ca_input_schema = [(''type'', PStr ''object'')],
      ca_output_schema = [(''type'', PStr ''object'')], ca_validate_output = Some, ca_dump_output = id,
      ca_parent = \<lparr>pc_lineage = sample_lineage, pc_execution_group_id = ''g'', pc_principal = ''p'',
        pc_tenant = ''t'', pc_parent_session_id = ''s'', pc_absolute_deadline = 20,
        pc_limits = sample_limits, pc_current_run_id = Some ''run:1''\<rparr>,
      ca_parent_run_id = ''run:1'', ca_parent_tool_call_id = ''call-1'',
      ca_expected_fingerprint = ad_fingerprint (sample_definition ''worker''),
      ca_request_classification = ''internal'', ca_session_strategy = ISOLATED,
      ca_allow_resume = False, ca_event_callback = None, ca_max_result_bytes = 100\<rparr>"

definition demo_world :: demo_world where
  "demo_world = \<lparr>tick = 0, now = 0, groups = Map.empty, receipts = Map.empty,
     settled_lease_ids = [], retained_lease_ids = [], child_log = []\<rparr>"

definition demo_id :: string where
  "demo_id = (case canonical_digest sample_crypto [(''q'', PInt 1)] of Inl e \<Rightarrow> []
     | Inr q \<Rightarrow> (case delegation_id sample_crypto ''run:1'' ''call-1'' q of Inl e \<Rightarrow> [] | Inr i \<Rightarrow> i))"

definition demo_done :: demo_world where
  "demo_done = snd (delegate quiet (demo_coordinator True) ''u'' demo_call demo_world)"

lemma demo_run:
  "case delegate quiet (demo_coordinator True) ''u'' demo_call demo_world of
     (Inl e, w') \<Rightarrow> False
   | (Inr v, w') \<Rightarrow> v = PDict [(''q'', PInt 1)] \<and> child_log w' = [0] \<and>
       (case receipts w' demo_id of None \<Rightarrow> False | Some c \<Rightarrow> final_receipt c)"
  by code_simp

lemma demo_denied:
  "fst (delegate quiet (demo_coordinator False) ''u'' demo_call demo_world) =
     Inl (DelegationFailure ''delegation_demo'' ''unauthorized'')"
  by code_simp

lemma demo_proper: "proper_call (demo_coordinator b) demo_call demo_id"
proof -
  have "case check_call demo_call of Inl e \<Rightarrow> False | Inr c \<Rightarrow> True"
    and "check_parent_context (ca_parent demo_call) = Inr (ca_parent demo_call)"
    by code_simp+
  moreover have "check_call demo_call = Inr c \<Longrightarrow> c = demo_call" for c
    by (auto simp: check_call_def bindR_Inr_iff resolve_max_result_bytes_def Let_def split: if_splits)
  moreover have "case (canonical_digest sample_crypto (ca_request_payload demo_call),
      call_context_digest sample_crypto demo_call) of
      (Inr q, Inr x) \<Rightarrow> delegation_id sample_crypto (ca_parent_run_id demo_call)
        (ca_parent_tool_call_id demo_call) q = Inr demo_id
    | _ \<Rightarrow> False"
    by code_simp
  ultimately show ?thesis
    by (auto simp: proper_call_def demo_coordinator_def split: sum.splits)
qed

lemma quiet_rely: "reflp R \<Longrightarrow> rely_env R quiet"
  by (simp add: rely_env_def quiet_def reflp_def)

lemma ret_safe: "reflp R \<Longrightarrow> safe R P (ret x)"
  by (simp add: safe_def ret_def reflp_def)

lemma demo_sinks: "reflp R \<Longrightarrow> good_sinks R (demo_coordinator b) demo_call"
  by (simp add: good_sinks_def demo_coordinator_def demo_call_def ret_safe)

lemma demo_authorizer:
  assumes "reflp R"
  shows "good_authorizer R (co_authorize (demo_coordinator b) caller callee desc parent c)"
proof -
  have "is_classification ''delegation_demo''" by code_simp
  then show ?thesis
    by (simp add: good_authorizer_def demo_coordinator_def ret_safe [OF assms]) (simp add: ret_def)
qed

lemma demo_parties:
  assumes "reflp R"
  shows "good_parties R quiet (demo_coordinator b) demo_call"
proof -
  have "check_limits sample_limits = Inr sample_limits" by code_simp
  then show ?thesis
    using demo_sinks [OF assms] demo_authorizer [OF assms] quiet_rely [OF assms]
    by (simp add: good_parties_def) (simp add: demo_coordinator_def sample_crypto_def)
qed

lemma demo_cleaner: "good_endpoints (good_cleaner R) (demo_coordinator b)"
  by (simp add: good_endpoints_def good_cleaner_def demo_coordinator_def demo_handler_def)

lemma demo_honest:
  assumes "reflp R" and "\<And>w n. R w (w\<lparr>child_log := n\<rparr>)"
  shows "honest R quiet (demo_coordinator b) demo_call"
proof -
  have "good_endpoints (good_endpoint R) (demo_coordinator b)"
    using assms(2)
    by (simp add: good_endpoints_def good_endpoint_def good_handler_def demo_coordinator_def
        demo_handler_def safe_def)
  then show ?thesis
    using demo_parties [OF assms(1)] demo_cleaner [of R b] by (simp add: honest_def good_endpoints_def)
qed

theorem delegation_keeps_stores_witness:
  "budgets_ok demo_done \<and> receipts_ok demo_done \<and>
   (\<exists>c. receipts demo_done demo_id = Some c \<and> final_receipt c)"
proof -
  have ok: "budgets_ok demo_world" "receipts_ok demo_world"
    by (simp_all add: all_values_def demo_world_def)
  have "honest budget_rely quiet (demo_coordinator True) demo_call"
    "honest receipt_rely quiet (demo_coordinator True) demo_call"
    by (rule demo_honest; simp add: rely_reflp receipt_store.keeps_refl budget_rely_frame receipt_rely_frame)+
  then show ?thesis
    using delegation_keeps_stores [OF demo_proper _ _ ok surjective_pairing] demo_run
    by (auto simp: demo_done_def split: prod.splits sum.splits option.splits)
qed

theorem delegation_failures_stable_witness:
  "\<exists>code kind. fst (delegate quiet (demo_coordinator False) ''u'' demo_call demo_world) =
     Inl (DelegationFailure code kind) \<and> is_classification code \<and> kind \<in> set failure_kinds"
proof -
  have honest: "honest (\<lambda>_ _. True) quiet (demo_coordinator False) demo_call"
    by (rule demo_honest) (simp_all add: reflp_def)
  obtain w' where run: "delegate quiet (demo_coordinator False) ''u'' demo_call demo_world =
      (Inl (DelegationFailure ''delegation_demo'' ''unauthorized''), w')"
    using demo_denied by (metis prod.collapse)
  show ?thesis using delegation_failures_stable [OF demo_proper honest run] run by simp
qed

theorem denied_delegation_inert_witness:
  "child_log (snd (delegate quiet (demo_coordinator False) ''u'' demo_call demo_world)) = [] \<and>
   groups (snd (delegate quiet (demo_coordinator False) ''u'' demo_call demo_world)) = Map.empty"
proof -
  have refl: "reflp (stores_kept :: demo_world \<Rightarrow> demo_world \<Rightarrow> bool)"
    by (rule quiet_stores.refl)
  have "never_allows (co_authorize (demo_coordinator False) (ca_caller demo_call) (ca_callee demo_call)
      desc (ca_parent demo_call) (ca_request_classification demo_call))" for desc
    by (simp add: never_allows_def results_def demo_coordinator_def ret_def)
  then show ?thesis
    using denied_delegation_inert [OF demo_sinks [OF refl, where b = False], where E = quiet and u = "''u''"
        and w = demo_world]
      demo_authorizer [OF refl, of False]
    by (auto simp: good_authorizer_def demo_world_def split: prod.splits)
qed

theorem settled_delegation_not_rerun_witness:
  "child_log demo_done = [0] \<and>
   child_log (snd (delegate quiet (demo_coordinator True) ''v'' demo_call demo_done)) = [0]"
proof -
  have log: "good_parties log_kept quiet (demo_coordinator True) demo_call"
    and rely: "good_parties receipt_rely quiet (demo_coordinator True) demo_call"
    by (rule demo_parties; simp add: receipt_store.keeps_refl log_groups.refl)+
  obtain c where c: "receipts demo_done demo_id = Some c" "final_receipt c" and one: "child_log demo_done = [0]"
    using demo_run by (auto simp: demo_done_def split: prod.splits sum.splits option.splits)
  have "honest receipt_rely quiet (demo_coordinator True) demo_call"
    by (rule demo_honest) (simp_all add: receipt_store.keeps_refl receipt_rely_frame)
  then have "receipt_rely demo_world demo_done"
    using safeD [OF receipt_protocol.honest_delegate [OF demo_proper] surjective_pairing]
    unfolding demo_done_def by blast
  then have "receipts_ok demo_done"
    by (rule receipt_store.rely_all_values) (simp add: all_values_def demo_world_def)
  then show ?thesis
    using settled_delegation_not_rerun [OF demo_proper log demo_cleaner rely _ c surjective_pairing] one
    by auto
qed

end
