(* ===== verification/Program_Logic.thy ===== *)
theory Program_Logic
  imports Prelude
begin

text \<open>
  Pre- and postconditions of programs over a state, shared by the engines and the memory policies.
\<close>

subsection \<open>Triples\<close>

text \<open>\<open>X\<close> holds after an exception, \<open>Q\<close> after a result.\<close>

definition triple :: "('s \<Rightarrow> bool) \<Rightarrow> ('s \<Rightarrow> bool) \<Rightarrow> ('s, 'a) prog \<Rightarrow> ('a \<Rightarrow> 's \<Rightarrow> bool) \<Rightarrow> bool" where
  "triple X P m Q \<longleftrightarrow> (\<forall>r. P r \<longrightarrow> (case m r of (Inl e, r') \<Rightarrow> X r' | (Inr x, r') \<Rightarrow> Q x r'))"

lemma tripleD: "triple X P m Q \<Longrightarrow> P r \<Longrightarrow> m r = (out, r') \<Longrightarrow> (case out of Inl e \<Rightarrow> X r' | Inr x \<Rightarrow> Q x r')"
  by (fastforce simp: triple_def split: sum.split)

lemma tripleI: "(\<And>r out r'. P r \<Longrightarrow> m r = (out, r') \<Longrightarrow> case out of Inl e \<Rightarrow> X r' | Inr x \<Rightarrow> Q x r') \<Longrightarrow> triple X P m Q"
  by (fastforce simp: triple_def split: sum.split prod.split)

lemma triple_pre: "triple X P m Q \<Longrightarrow> (\<And>r. P' r \<Longrightarrow> P r) \<Longrightarrow> triple X P' m Q"
  and triple_post: "triple X P m Q \<Longrightarrow> (\<And>x r. Q x r \<Longrightarrow> Q' x r) \<Longrightarrow> triple X P m Q'"
  and triple_raised: "triple X P m Q \<Longrightarrow> (\<And>r. X r \<Longrightarrow> X' r) \<Longrightarrow> triple X' P m Q"
  unfolding triple_def by (fastforce split: sum.splits)+

lemma triple_ret: "(\<And>r. P r \<Longrightarrow> Q x r) \<Longrightarrow> triple X P (ret x) Q"
  and triple_raise: "(\<And>r. P r \<Longrightarrow> X r) \<Longrightarrow> triple X P (raise e) Q"
  by (simp_all add: triple_def ret_def raise_def)

lemma triple_bind:
  assumes "triple X P m R" and "\<And>x. triple X (R x) (f x) Q"
  shows "triple X P (bindP m f) Q"
proof (rule tripleI)
  fix r out r' assume r: "P r" "bindP m f r = (out, r')"
  obtain o1 r1 where m: "m r = (o1, r1)" by fastforce
  show "case out of Inl e \<Rightarrow> X r' | Inr x \<Rightarrow> Q x r'"
  proof (cases o1)
    case (Inl e)
    then show ?thesis using tripleD [OF assms(1) r(1) m] r(2) m by (auto simp: bindP_run)
  next
    case (Inr x)
    then have "R x r1" "f x r1 = (out, r')" using tripleD [OF assms(1) r(1) m] r(2) m by (auto simp: bindP_run)
    then show ?thesis by (rule tripleD [OF assms(2)])
  qed
qed

lemma triple_try:
  assumes "triple Y P m R" and "\<And>e. triple X Y (h e) Q" and "\<And>x. triple X (R x) (k x) Q"
  shows "triple X P (\<lambda>r. case m r of (Inl e, r') \<Rightarrow> h e r' | (Inr x, r') \<Rightarrow> k x r') Q"
proof (rule tripleI)
  fix r out r' assume r: "P r" "(case m r of (Inl e, r') \<Rightarrow> h e r' | (Inr x, r') \<Rightarrow> k x r') = (out, r')"
  obtain o1 r1 where m: "m r = (o1, r1)" by fastforce
  show "case out of Inl e \<Rightarrow> X r' | Inr x \<Rightarrow> Q x r'"
  proof (cases o1)
    case (Inl e)
    then have "Y r1" "h e r1 = (out, r')" using tripleD [OF assms(1) r(1) m] r(2) m by auto
    then show ?thesis by (rule tripleD [OF assms(2)])
  next
    case (Inr x)
    then have "R x r1" "k x r1 = (out, r')" using tripleD [OF assms(1) r(1) m] r(2) m by auto
    then show ?thesis by (rule tripleD [OF assms(3)])
  qed
qed

lemma triple_if_run: "triple X P m Q \<Longrightarrow> (\<And>r. P r \<Longrightarrow> X r) \<Longrightarrow> triple X P (\<lambda>r. if c then m r else (Inl e, r)) Q"
  by (auto simp: triple_def)

lemma triple_if: "(c \<Longrightarrow> triple X P m Q) \<Longrightarrow> (\<not> c \<Longrightarrow> triple X P m' Q) \<Longrightarrow> triple X P (if c then m else m') Q"
  and triple_option: "(v = None \<Longrightarrow> triple X P m Q) \<Longrightarrow> (\<And>x. v = Some x \<Longrightarrow> triple X P (f x) Q) \<Longrightarrow>
     triple X P (case v of None \<Rightarrow> m | Some x \<Rightarrow> f x) Q"
  by (auto split: option.split)

lemma triple_read: "(\<And>x. triple X (\<lambda>r. P r \<and> g r = x) (f x) Q) \<Longrightarrow> triple X P (bindP (readP g) f) Q"
  by (auto simp: triple_def bindP_run readP_def)

lemma triple_read_any: "(\<And>x. triple X P (f x) Q) \<Longrightarrow> triple X P (bindP (readP g) f) Q"
  by (rule triple_read) (blast intro: triple_pre)

lemma triple_ofR: "(\<And>r. P r \<Longrightarrow> X r) \<Longrightarrow> (\<And>y. x = Inr y \<Longrightarrow> triple X P (f y) Q) \<Longrightarrow> triple X P (bindP (ofR x) f) Q"
  by (cases x) (auto simp: triple_def bindP_run ofR_def)

lemma triple_assume: "(\<And>r. P r \<Longrightarrow> C) \<Longrightarrow> (C \<Longrightarrow> triple X P m Q) \<Longrightarrow> triple X P m Q"
  by (auto simp: triple_def)

end
