(* ===== verification/Plan_Model.thy ===== *)
theory Plan_Model
  imports Prelude
begin

text \<open>
  Plans (\<^verbatim>\<open>moduagent/decision/planning.py\<close>): steps with their constructor checks, the baseline step
  validator, and the plan with its dependency checks and its operations.  The hash of an objective and
  of a step result (canonical JSON under SHA-256) are the parameters \<open>hash\<close> and \<open>ref\<close>.  A plan and its
  steps are mutable objects of the program: an operation returns the plan after it.
\<close>

subsection \<open>Steps\<close>

datatype plan_step_status = PENDING | IN_PROGRESS | COMPLETED | BLOCKED | FAILED | SKIPPED

record plan_step =
  ps_description :: string
  ps_status :: plan_step_status
  ps_expected_output :: "string option"
  ps_metadata :: "(string, pyval) dict"
  ps_step_id :: string
  ps_objective :: string
  ps_completion_criteria :: "string list"
  ps_dependencies :: "string list"
  ps_allowed_tools :: "string list"
  ps_attempt_count :: int
  ps_result_ref :: "string option"

definition stable_step_id :: "(string \<Rightarrow> string) \<Rightarrow> string \<Rightarrow> string" where
  "stable_step_id hash objective = ''step-'' @ take 12 (hash objective)"

definition string_list :: "string list \<Rightarrow> string \<Rightarrow> string list res" where
  "string_list value field_name =
     (let result = map strip value in
      bindR (all_ok
        [require ([] \<notin> set result) (ValueError (field_name @ '' cannot contain empty strings'')),
         require (distinct result) (ValueError (field_name @ '' cannot contain duplicates''))])
      (\<lambda>_. Inr result))"

text \<open>The constructor; \<^term>\<open>None\<close> is an omitted objective.\<close>

definition PlanStep ::
  "(string \<Rightarrow> string) \<Rightarrow> string \<Rightarrow> plan_step_status \<Rightarrow> string option \<Rightarrow> (string, pyval) dict \<Rightarrow> string \<Rightarrow>
   string option \<Rightarrow> string list \<Rightarrow> string list \<Rightarrow> string list \<Rightarrow> int \<Rightarrow> string option \<Rightarrow> plan_step res" where
  "PlanStep hash description status expected_output metadata step_id objective completion_criteria
     dependencies allowed_tools attempt_count result_ref =
     (let description' = strip description;
          objective' = strip (case objective of None \<Rightarrow> description' | Some o1 \<Rightarrow>
            if o1 = [] then description' else o1) in
      bindR (require (objective' \<noteq> []) (ValueError ''plan step objective cannot be empty'')) (\<lambda>_.
      let description'' = (if description' = [] then objective' else description');
          step_id' = strip (if step_id = [] then stable_step_id hash objective' else step_id) in
      bindR (all_ok
        [require (step_id' \<noteq> []) (ValueError ''plan step id cannot be empty''),
         require (0 \<le> attempt_count) (ValueError ''plan step attempt_count cannot be negative'')]) (\<lambda>_.
      let expected' = map_option strip expected_output;
          criteria = (if completion_criteria \<noteq> [] then completion_criteria
            else [case expected' of None \<Rightarrow> ''Complete the objective: '' @ objective'
                  | Some x \<Rightarrow> if x = [] then ''Complete the objective: '' @ objective' else x]) in
      bindR (string_list criteria ''completion_criteria'') (\<lambda>criteria'.
      bindR (string_list dependencies ''dependencies'') (\<lambda>dependencies'.
      bindR (string_list allowed_tools ''allowed_tools'') (\<lambda>allowed_tools'.
      Inr \<lparr>ps_description = description'', ps_status = status, ps_expected_output = expected',
           ps_metadata = metadata, ps_step_id = step_id', ps_objective = objective',
           ps_completion_criteria = criteria', ps_dependencies = dependencies',
           ps_allowed_tools = allowed_tools', ps_attempt_count = attempt_count,
           ps_result_ref = result_ref\<rparr>))))))"

subsection \<open>Step results and their validation\<close>

datatype step_result_status = SR_completed | SR_blocked | SR_failed

record step_result =
  sr_step_id :: string
  sr_status :: step_result_status
  sr_facts :: "string list"
  sr_artifacts :: "(string, pyval) dict"
  sr_uncertainties :: "string list"
  sr_missing_inputs :: "string list"
  sr_completion_evidence :: "string list"

datatype validation_kind = COMMIT | RETRY | REPLAN | FAIL

record step_validation =
  sv_kind :: validation_kind
  sv_reason :: string
  sv_unmet_criteria :: "string list"
  sv_metadata :: "(string, pyval) dict"

definition StepValidation :: "validation_kind \<Rightarrow> string \<Rightarrow> step_validation" where
  "StepValidation k reason =
     \<lparr>sv_kind = k, sv_reason = reason, sv_unmet_criteria = [], sv_metadata = []\<rparr>"

definition validate_step :: "plan_step \<Rightarrow> step_result \<Rightarrow> step_validation" where
  "validate_step step result =
     (if sr_step_id result \<noteq> ps_step_id step then
        StepValidation FAIL (''step result id '' @ sr_step_id result @ '' does not match '' @ ps_step_id step)
      else if sr_status result = SR_failed then
        StepValidation FAIL ''executor reported that the step cannot be completed''
      else if sr_status result = SR_blocked then
        (if sr_missing_inputs result \<noteq> [] then
           (StepValidation REPLAN ''step is blocked by missing inputs or dependencies'')
             \<lparr>sv_metadata := [(''missing_inputs'', PList (map PStr (sr_missing_inputs result)))]\<rparr>
         else StepValidation RETRY ''step is blocked without actionable missing-input details'')
      else
        let evidence = filter (\<lambda>s. s \<noteq> []) (map strip (sr_completion_evidence result));
            missing_count = length (ps_completion_criteria step) - length evidence in
        if missing_count \<noteq> 0 then
          (StepValidation RETRY ''completion evidence does not cover every completion criterion'')
            \<lparr>sv_unmet_criteria := drop (length (ps_completion_criteria step) - missing_count)
               (ps_completion_criteria step)\<rparr>
        else StepValidation COMMIT [])"

subsection \<open>Plans\<close>

record plan =
  pl_steps :: "plan_step list"
  pl_current_index :: nat
  pl_version :: int

definition closed_step :: "plan_step \<Rightarrow> bool" where
  "closed_step s \<longleftrightarrow> ps_status s \<in> {COMPLETED, SKIPPED}"

text \<open>\<^verbatim>\<open>while current_index < len(steps) and steps[current_index].status in {...}\<close>\<close>

function move_to_next_open_step :: "plan \<Rightarrow> plan" where
  "move_to_next_open_step p =
     (if pl_current_index p < length (pl_steps p) \<and> closed_step (pl_steps p ! pl_current_index p)
      then move_to_next_open_step (p\<lparr>pl_current_index := pl_current_index p + 1\<rparr>) else p)"
  by pat_completeness auto
termination by (relation "measure (\<lambda>p. length (pl_steps p) - pl_current_index p)") auto

declare move_to_next_open_step.simps [simp del]

definition step_ids :: "plan_step list \<Rightarrow> string list" where
  "step_ids steps = map ps_step_id steps"

fun foldR :: "('a \<Rightarrow> 's \<Rightarrow> 's res) \<Rightarrow> 'a list \<Rightarrow> 's \<Rightarrow> 's res" where
  "foldR f [] s = Inr s"
| "foldR f (x # xs) s = bindR (f x s) (foldR f xs)"

text \<open>
  The depth-first search; the state is the pair of the sets \<^verbatim>\<open>visiting\<close> and \<^verbatim>\<open>visited\<close>.  Every nested call
  adds an ID of the plan to \<^verbatim>\<open>visiting\<close>, so the depth is bounded by the number of steps.
\<close>

primrec visit ::
  "nat \<Rightarrow> (string \<Rightarrow> string list) \<Rightarrow> string \<Rightarrow> string list \<times> string list \<Rightarrow> (string list \<times> string list) res"
  where
  "visit 0 deps i state = Inl FuelOut"
| "visit (Suc n) deps i state = (case state of (visiting, visited) \<Rightarrow>
     if i \<in> set visiting then Inl (ValueError ''plan dependencies contain a cycle'')
     else if i \<in> set visited then Inr (visiting, visited)
     else bindR (foldR (visit n deps) (deps i) (i # visiting, visited)) (\<lambda>(visiting', visited').
       Inr (removeAll i visiting', i # visited')))"

definition dependencies_of :: "plan_step list \<Rightarrow> string \<Rightarrow> string list" where
  "dependencies_of steps i = dget_or (map (\<lambda>s. (ps_step_id s, ps_dependencies s)) steps) i []"

definition validate_dependency_graph :: "plan_step list \<Rightarrow> unit res" where
  "validate_dependency_graph steps =
     bindR (foldR (visit (Suc (length steps)) (dependencies_of steps)) (step_ids steps) ([], []))
       (\<lambda>_. Inr ())"

definition position :: "string list \<Rightarrow> string \<Rightarrow> nat" where
  "position ids i = length (takeWhile (\<lambda>j. j \<noteq> i) ids)"

definition Plan :: "plan_step list \<Rightarrow> int \<Rightarrow> int \<Rightarrow> plan res" where
  "Plan steps current_index version =
     (let ids = step_ids steps in
      bindR (all_ok
        ([require (1 \<le> version) (ValueError ''plan version must be at least 1''),
          require (\<not> (current_index < 0 \<or> int (length steps) < current_index))
            (ValueError ''plan current_index is out of range''),
          require (distinct ids) (ValueError ''plan step ids must be unique'')] @
         concat (map (\<lambda>s.
           [require (set (ps_dependencies s) \<subseteq> set ids)
              (ValueError (''plan step '' @ ps_step_id s @ '' has unknown dependencies'')),
            require (ps_step_id s \<notin> set (ps_dependencies s))
              (ValueError (''plan step '' @ ps_step_id s @ '' cannot depend on itself''))]) steps) @
         [validate_dependency_graph steps] @
         map (\<lambda>s. require (list_all (\<lambda>d. position ids d < position ids (ps_step_id s)) (ps_dependencies s))
           (ValueError (''plan step '' @ ps_step_id s @ '' dependencies must precede it''))) steps))
      (\<lambda>_. Inr (move_to_next_open_step
        \<lparr>pl_steps = steps, pl_current_index = nat current_index, pl_version = version\<rparr>)))"

definition plan_current :: "plan \<Rightarrow> plan_step option" where
  "plan_current p = (if pl_current_index p < length (pl_steps p)
     then Some (pl_steps p ! pl_current_index p) else None)"

definition plan_complete :: "plan \<Rightarrow> bool" where
  "plan_complete p \<longleftrightarrow> pl_steps p \<noteq> [] \<and> list_all closed_step (pl_steps p)"

definition completed_ids :: "plan_step list \<Rightarrow> string list" where
  "completed_ids steps = step_ids (filter (\<lambda>s. ps_status s = COMPLETED) steps)"

definition set_current :: "plan_step \<Rightarrow> plan \<Rightarrow> plan" where
  "set_current s p = p\<lparr>pl_steps := (pl_steps p)[pl_current_index p := s]\<rparr>"

definition start_current :: "(plan, plan_step option) prog" where
  "start_current p0 =
     (let p = move_to_next_open_step p0 in case plan_current p of
        None \<Rightarrow> (Inr None, p)
      | Some s \<Rightarrow>
          if ps_status s = PENDING \<and> set (ps_dependencies s) \<subseteq> set (completed_ids (pl_steps p))
          then (let s' = s\<lparr>ps_status := IN_PROGRESS\<rparr> in (Inr (Some s'), set_current s' p))
          else (Inr (Some s), p))"

text \<open>\<^verbatim>\<open>commit\<close> with a reference; the result object's own case computes it.\<close>

definition commit :: "string \<Rightarrow> string option \<Rightarrow> (plan, plan_step) prog" where
  "commit result_ref step_id p = (case plan_current p of
     None \<Rightarrow> (Inl (RuntimeError ''plan has no current step to commit''), p)
   | Some s \<Rightarrow>
       if \<not> (case step_id of None \<Rightarrow> True | Some i \<Rightarrow> ps_step_id s = i)
       then (Inl (ValueError ''cannot commit step''), p)
       else if result_ref = [] then (Inl (ValueError ''result_ref cannot be empty''), p)
       else if ps_status s \<notin> {PENDING, IN_PROGRESS}
       then (Inl (RuntimeError (''step '' @ ps_step_id s @ '' cannot be committed'')), p)
       else
         let s' = s\<lparr>ps_status := COMPLETED, ps_result_ref := Some result_ref\<rparr>;
             p1 = set_current s' p;
             p2 = move_to_next_open_step (p1\<lparr>pl_current_index := pl_current_index p1 + 1\<rparr>)
         in (Inr s', snd (start_current p2)))"

definition commit_result ::
  "(step_result \<Rightarrow> string) \<Rightarrow> step_result \<Rightarrow> string option \<Rightarrow> (plan, plan_step) prog" where
  "commit_result ref result step_id =
     commit (ref result) (case step_id of None \<Rightarrow> Some (sr_step_id result) | Some i \<Rightarrow> Some i)"

definition advance :: "string option \<Rightarrow> (plan, unit) prog" where
  "advance output_text p = (case plan_current p of
     None \<Rightarrow> (Inr (), p)
   | Some s \<Rightarrow>
       let s' = (case output_text of None \<Rightarrow> s
         | Some o1 \<Rightarrow> s\<lparr>ps_metadata := dset ''legacy_result'' (PStr o1) (ps_metadata s)\<rparr>)
       in bindP (commit (''legacy:'' @ ps_step_id s') (Some (ps_step_id s'))) (\<lambda>_. ret ())
            (set_current s' p))"

end
