(* ===== verification/Plan_Props.thy ===== *)
theory Plan_Props
  imports Plan_Model
begin

text \<open>
  Which plans the constructor accepts, what the validator commits, and how committing walks through a
  plan.
\<close>

subsection \<open>Accepted plans\<close>

definition ordered_steps :: "plan_step list \<Rightarrow> bool" where
  "ordered_steps steps \<longleftrightarrow> distinct (step_ids steps) \<and>
     (\<forall>k < length steps. set (ps_dependencies (steps ! k)) \<subseteq> set (take k (step_ids steps)))"

lemma length_step_ids [simp]: "length (step_ids steps) = length steps"
  by (simp add: step_ids_def)

lemma nth_step_ids [simp]: "k < length steps \<Longrightarrow> step_ids steps ! k = ps_step_id (steps ! k)"
  by (simp add: step_ids_def)

lemma position_nth: "distinct ids \<Longrightarrow> k < length ids \<Longrightarrow> position ids (ids ! k) = k"
  unfolding position_def
proof (induction ids arbitrary: k)
  case (Cons i ids)
  then show ?case by (cases k) (auto simp: in_set_conv_nth)
qed simp

lemma position_less:
  assumes "distinct ids" and "k \<le> length ids"
  shows "i \<in> set (take k ids) \<longleftrightarrow> i \<in> set ids \<and> position ids i < k"
proof
  assume "i \<in> set (take k ids)"
  then obtain j where "j < k" "j < length ids" "ids ! j = i"
    using assms(2) by (auto simp: in_set_conv_nth)
  then show "i \<in> set ids \<and> position ids i < k" using position_nth assms(1) by auto
next
  assume i: "i \<in> set ids \<and> position ids i < k"
  then obtain j where "j < length ids" "ids ! j = i" by (auto simp: in_set_conv_nth)
  then show "i \<in> set (take k ids)"
    using i position_nth [OF assms(1)] by (auto simp: in_set_conv_nth)
qed

text \<open>The search finds no cycle when a rank decreases along the dependencies.\<close>

lemma foldR_frame:
  assumes "\<And>x vd. x \<in> set xs \<Longrightarrow> \<exists>vd'. f x (vg, vd) = Inr (vg, vd')"
  shows "\<exists>vd'. foldR f xs (vg, vd) = Inr (vg, vd')"
  using assms
proof (induction xs arbitrary: vd)
  case (Cons x xs)
  obtain vd1 where "f x (vg, vd) = Inr (vg, vd1)" using Cons.prems by fastforce
  moreover obtain vd2 where "foldR f xs (vg, vd1) = Inr (vg, vd2)" using Cons by fastforce
  ultimately show ?case by simp
qed simp

lemma visit_ranked:
  assumes rank: "\<And>i d. i \<in> I \<Longrightarrow> d \<in> set (deps i) \<Longrightarrow> d \<in> I \<and> rank d < (rank i :: nat)"
  shows "i \<in> I \<Longrightarrow> rank i < n \<Longrightarrow> \<forall>v \<in> set vg. rank i < rank v \<Longrightarrow>
    \<exists>vd'. visit n deps i (vg, vd) = Inr (vg, vd')"
proof (induction n arbitrary: i vg vd)
  case (Suc n)
  have new: "i \<notin> set vg" using Suc.prems(3) by blast
  have "\<exists>vd'. foldR (visit n deps) (deps i) (i # vg, vd) = Inr (i # vg, vd')"
  proof (rule foldR_frame)
    fix d vd assume d: "d \<in> set (deps i)"
    then have "d \<in> I" "rank d < rank i" using rank Suc.prems(1) by blast+
    then show "\<exists>vd'. visit n deps d (i # vg, vd) = Inr (i # vg, vd')"
      using Suc.prems by (intro Suc.IH) auto
  qed
  then show ?case using new by auto
qed simp

lemma dependencies_of_nth:
  assumes "distinct (step_ids steps)" and "k < length steps"
  shows "dependencies_of steps (ps_step_id (steps ! k)) = ps_dependencies (steps ! k)"
proof -
  have "distinct (map fst (map (\<lambda>s. (ps_step_id s, ps_dependencies s)) steps))"
    using assms(1) by (simp add: step_ids_def comp_def)
  then have "map_of (map (\<lambda>s. (ps_step_id s, ps_dependencies s)) steps) (ps_step_id (steps ! k)) =
      Some (ps_dependencies (steps ! k))"
    using assms(2) by (intro map_of_is_SomeI) auto
  then show ?thesis by (simp add: dependencies_of_def)
qed

lemma ordered_graph:
  assumes ord: "ordered_steps steps"
  shows "validate_dependency_graph steps = Inr ()"
proof -
  let ?ids = "step_ids steps" and ?deps = "dependencies_of steps"
  have dist: "distinct ?ids" using ord by (simp add: ordered_steps_def)
  have rank: "d \<in> set ?ids \<and> position ?ids d < position ?ids i"
    if mem: "i \<in> set ?ids" and dep: "d \<in> set (?deps i)" for i d
  proof -
    obtain k where "k < length ?ids" and i: "?ids ! k = i"
      using mem unfolding in_set_conv_nth by blast
    then have k: "k < length steps" by simp
    have k': "i = ps_step_id (steps ! k)" unfolding i [symmetric] using k by (rule nth_step_ids)
    have "set (ps_dependencies (steps ! k)) \<subseteq> set (take k ?ids)"
      using ord k unfolding ordered_steps_def by blast
    then have "d \<in> set (take k ?ids)"
      using dep unfolding k' dependencies_of_nth [OF dist k] by blast
    moreover have "position ?ids i = k" using position_nth [OF dist, of k] k k' by simp
    ultimately show ?thesis using position_less [OF dist, of k] k by simp
  qed
  have "\<exists>vd'. foldR (visit (Suc (length steps)) ?deps) ?ids ([], []) = Inr ([], vd')"
  proof (rule foldR_frame)
    fix i vd assume "i \<in> set ?ids"
    then show "\<exists>vd'. visit (Suc (length steps)) ?deps i ([], vd) = Inr ([], vd')"
      using position_less [OF dist, of "length steps" i]
      by (intro visit_ranked [where I = "set ?ids" and rank = "position ?ids"] rank) auto
  qed
  then show ?thesis by (auto simp: validate_dependency_graph_def)
qed

lemma accepted_plan:
  "Plan steps current_index version = Inr p \<longleftrightarrow>
     1 \<le> version \<and> 0 \<le> current_index \<and> current_index \<le> int (length steps) \<and> ordered_steps steps \<and>
     p = move_to_next_open_step
       \<lparr>pl_steps = steps, pl_current_index = nat current_index, pl_version = version\<rparr>"
proof -
  let ?ids = "step_ids steps"
  have order: "ordered_steps steps \<longleftrightarrow> distinct ?ids \<and>
      (\<forall>s \<in> set steps. set (ps_dependencies s) \<subseteq> set ?ids \<and> ps_step_id s \<notin> set (ps_dependencies s) \<and>
        list_all (\<lambda>d. position ?ids d < position ?ids (ps_step_id s)) (ps_dependencies s))"
  proof (cases "distinct ?ids")
    case True
    have "set (ps_dependencies (steps ! k)) \<subseteq> set (take k ?ids) \<longleftrightarrow>
        set (ps_dependencies (steps ! k)) \<subseteq> set ?ids \<and>
        ps_step_id (steps ! k) \<notin> set (ps_dependencies (steps ! k)) \<and>
        list_all (\<lambda>d. position ?ids d < position ?ids (ps_step_id (steps ! k))) (ps_dependencies (steps ! k))"
      if k: "k < length steps" for k
      using position_less [OF True, of k] position_nth [OF True, of k] k
      by (fastforce simp: list_all_iff)
    then show ?thesis
      using True by (auto simp: ordered_steps_def all_set_conv_all_nth)
  qed (simp add: ordered_steps_def)
  have "Plan steps current_index version = Inr p \<longleftrightarrow>
     1 \<le> version \<and> 0 \<le> current_index \<and> current_index \<le> int (length steps) \<and> ordered_steps steps \<and>
     validate_dependency_graph steps = Inr () \<and>
     p = move_to_next_open_step
       \<lparr>pl_steps = steps, pl_current_index = nat current_index, pl_version = version\<rparr>"
    unfolding Plan_def Let_def bindR_Inr_iff all_ok_Inr order
    by (simp add: ball_Un not_less ball_conj_distrib eq_commute [of _ p] conj_assoc) blast
  then show ?thesis using ordered_graph by auto
qed

text \<open>
  C12.  A plan is accepted exactly when its version and index are in range, its step IDs are distinct, and
  every step depends on earlier steps only; the depth-first search for cycles never rejects such a
  plan, and never ends a plan's construction for any other reason.
\<close>

theorem plan_accepts_iff:
  "Plan steps current_index version = Inr p \<longleftrightarrow>
     1 \<le> version \<and> 0 \<le> current_index \<and> current_index \<le> int (length steps) \<and> ordered_steps steps \<and>
     p = move_to_next_open_step
       \<lparr>pl_steps = steps, pl_current_index = nat current_index, pl_version = version\<rparr>"
  by (rule accepted_plan)

subsection \<open>Moving and starting\<close>

lemma move_spec:
  "pl_steps (move_to_next_open_step p) = pl_steps p \<and>
   pl_version (move_to_next_open_step p) = pl_version p \<and>
   pl_current_index p \<le> pl_current_index (move_to_next_open_step p) \<and>
   (\<forall>k. pl_current_index p \<le> k \<longrightarrow> k < pl_current_index (move_to_next_open_step p) \<longrightarrow>
      closed_step (pl_steps p ! k)) \<and>
   (pl_current_index p \<le> length (pl_steps p) \<longrightarrow>
      pl_current_index (move_to_next_open_step p) \<le> length (pl_steps p)) \<and>
   (pl_current_index (move_to_next_open_step p) < length (pl_steps p) \<longrightarrow>
      \<not> closed_step (pl_steps p ! pl_current_index (move_to_next_open_step p)))"
proof (induction p rule: move_to_next_open_step.induct)
  case (1 p)
  show ?case
  proof (cases "pl_current_index p < length (pl_steps p) \<and> closed_step (pl_steps p ! pl_current_index p)")
    case True
    let ?q = "p\<lparr>pl_current_index := pl_current_index p + 1\<rparr>"
    have eq: "move_to_next_open_step p = move_to_next_open_step ?q"
      using True by (subst move_to_next_open_step.simps) simp
    have closed: "closed_step (pl_steps p ! k)"
      if "pl_current_index p \<le> k" "k < pl_current_index (move_to_next_open_step ?q)" for k
      using 1 [OF True] True that by (cases "k = pl_current_index p") auto
    show ?thesis using 1 [OF True] True closed unfolding eq by simp
  next
    case False
    then show ?thesis using move_to_next_open_step.simps [of p] by auto
  qed
qed

lemma move_simps [simp]:
  "pl_steps (move_to_next_open_step p) = pl_steps p"
  "pl_version (move_to_next_open_step p) = pl_version p"
  using move_spec [of p] by simp_all

definition plan_wf :: "plan \<Rightarrow> bool" where
  "plan_wf p \<longleftrightarrow> 1 \<le> pl_version p \<and> ordered_steps (pl_steps p) \<and>
     pl_current_index p \<le> length (pl_steps p) \<and> (\<forall>s. plan_current p = Some s \<longrightarrow> \<not> closed_step s)"

lemma move_open: "(\<And>s. plan_current p = Some s \<Longrightarrow> \<not> closed_step s) \<Longrightarrow> move_to_next_open_step p = p"
  by (subst move_to_next_open_step.simps) (auto simp: plan_current_def split: if_splits)

lemma plan_wf_reloads:
  "plan_wf p \<longleftrightarrow> Plan (pl_steps p) (int (pl_current_index p)) (pl_version p) = Inr p"
proof -
  have "move_to_next_open_step p = p \<longleftrightarrow> (\<forall>s. plan_current p = Some s \<longrightarrow> \<not> closed_step s)"
    using move_open [of p] move_spec [of p] by (auto simp: plan_current_def split: if_splits)
  moreover have same: "\<lparr>pl_steps = pl_steps p, pl_current_index = pl_current_index p, pl_version = pl_version p\<rparr> = p"
    by simp
  ultimately show ?thesis unfolding accepted_plan plan_wf_def nat_int same by auto
qed

lemma ordered_update:
  assumes "ordered_steps steps" and "k < length steps" and "ps_step_id s = ps_step_id (steps ! k)"
    and "ps_dependencies s = ps_dependencies (steps ! k)"
  shows "ordered_steps (steps[k := s])"
proof -
  have ids: "step_ids (steps[k := s]) = step_ids steps"
    using assms(2,3) by (simp add: step_ids_def map_update list_update_same_conv)
  have "ps_dependencies (steps[k := s] ! j) = ps_dependencies (steps ! j)" if "j < length steps" for j
    using assms(4) that by (cases "j = k") auto
  then show ?thesis using assms(1) by (simp add: ordered_steps_def ids)
qed

lemma move_wf:
  "1 \<le> pl_version p \<Longrightarrow> ordered_steps (pl_steps p) \<Longrightarrow> pl_current_index p \<le> length (pl_steps p) \<Longrightarrow>
     plan_wf (move_to_next_open_step p)"
  using move_spec [of p] by (auto simp: plan_wf_def plan_current_def split: if_splits)

lemma set_current_wf:
  assumes "plan_wf p" and "plan_current p = Some s" and "ps_step_id s' = ps_step_id s"
    and "ps_dependencies s' = ps_dependencies s" and "\<not> closed_step s'"
  shows "plan_wf (set_current s' p)"
  using assms ordered_update [of "pl_steps p" "pl_current_index p" s']
  by (auto simp: plan_wf_def set_current_def plan_current_def split: if_splits)

lemma start_current_run:
  assumes "plan_wf p"
  shows "start_current p = (case plan_current p of
     None \<Rightarrow> (Inr None, p)
   | Some s \<Rightarrow> (if ps_status s = PENDING \<and> set (ps_dependencies s) \<subseteq> set (completed_ids (pl_steps p))
       then (Inr (Some (s\<lparr>ps_status := IN_PROGRESS\<rparr>)), set_current (s\<lparr>ps_status := IN_PROGRESS\<rparr>) p)
       else (Inr (Some s), p)))"
proof -
  have "move_to_next_open_step p = p" using assms by (intro move_open) (auto simp: plan_wf_def)
  then show ?thesis by (simp add: start_current_def Let_def split: option.split)
qed

lemma start_current_wf: "plan_wf p \<Longrightarrow> plan_wf (snd (start_current p))"
  using set_current_wf [of p] by (auto simp: start_current_run closed_step_def split: option.split)

subsection \<open>Committing\<close>

definition committed :: "string \<Rightarrow> plan_step \<Rightarrow> plan_step" where
  "committed ref s = s\<lparr>ps_status := COMPLETED, ps_result_ref := Some ref\<rparr>"

text \<open>The plan right after the current step is closed, before the next one is started.\<close>

definition closed_plan :: "string \<Rightarrow> plan \<Rightarrow> plan" where
  "closed_plan ref p = move_to_next_open_step
     (p\<lparr>pl_steps := (pl_steps p)[pl_current_index p := committed ref (pl_steps p ! pl_current_index p)],
        pl_current_index := pl_current_index p + 1\<rparr>)"

lemma closed_plan_wf:
  assumes "plan_wf p" and "pl_current_index p < length (pl_steps p)"
  shows "plan_wf (closed_plan ref p)"
  unfolding closed_plan_def
  using assms ordered_update [of "pl_steps p" "pl_current_index p" "committed ref (pl_steps p ! pl_current_index p)"]
  by (intro move_wf) (auto simp: plan_wf_def committed_def)

lemma commit_run:
  "commit ref i p = (case plan_current p of
     None \<Rightarrow> (Inl (RuntimeError ''plan has no current step to commit''), p)
   | Some s \<Rightarrow>
       if i \<notin> {None, Some (ps_step_id s)} then (Inl (ValueError ''cannot commit step''), p)
       else if ref = [] then (Inl (ValueError ''result_ref cannot be empty''), p)
       else if ps_status s \<notin> {PENDING, IN_PROGRESS}
       then (Inl (RuntimeError (''step '' @ ps_step_id s @ '' cannot be committed'')), p)
       else (Inr (committed ref s), snd (start_current (closed_plan ref p))))"
  by (auto simp: commit_def closed_plan_def committed_def set_current_def plan_current_def Let_def
      split: option.splits)

lemma commit_wf: "plan_wf p \<Longrightarrow> plan_wf (snd (commit ref i p))"
  unfolding commit_run
  using start_current_wf [OF closed_plan_wf [of p ref]]
  by (auto simp: plan_current_def split: option.split if_splits)

lemma advance_wf: "plan_wf p \<Longrightarrow> plan_wf (snd (advance out p))"
proof (cases "plan_current p")
  case (Some s)
  assume p: "plan_wf p"
  define s' where "s' = (case out of None \<Rightarrow> s
    | Some o1 \<Rightarrow> s\<lparr>ps_metadata := dset ''legacy_result'' (PStr o1) (ps_metadata s)\<rparr>)"
  have "\<not> closed_step s" using p Some by (simp add: plan_wf_def)
  then have "plan_wf (set_current s' p)"
    using set_current_wf [OF p Some, of s'] by (auto simp: s'_def closed_step_def split: option.split)
  then have "plan_wf (snd (commit r i (set_current s' p)))" for r i by (rule commit_wf)
  then show ?thesis
    using Some by (auto simp: advance_def Let_def bindP_run ret_def s'_def split: prod.split sum.split)
      (metis snd_conv)+
qed (simp add: advance_def)

text \<open>
  A plan can be reloaded at any moment: starting, committing and advancing keep a plan one that its
  own constructor accepts unchanged, so the IDs stay distinct, the dependencies point backwards, and
  the index stays at the next open step or at the end, on every error path too.
\<close>

theorem plan_operations_reload:
  assumes "Plan (pl_steps p) (int (pl_current_index p)) (pl_version p) = Inr p"
    and "p' \<in> {snd (start_current p), snd (commit ref i p), snd (advance out p),
      snd (commit_result digest result j p)}"
  shows "Plan (pl_steps p') (int (pl_current_index p')) (pl_version p') = Inr p'"
  using assms start_current_wf [of p] commit_wf [of p] advance_wf [of p]
  by (auto simp: commit_result_def simp flip: plan_wf_reloads)

subsection \<open>What a commit changes\<close>

lemma start_current_steps:
  assumes "plan_wf p" and "k < length (pl_steps p)"
  shows "pl_steps (snd (start_current p)) ! k =
      (if k = pl_current_index p \<and> ps_status (pl_steps p ! k) = PENDING \<and>
          set (ps_dependencies (pl_steps p ! k)) \<subseteq> set (completed_ids (pl_steps p))
       then (pl_steps p ! k)\<lparr>ps_status := IN_PROGRESS\<rparr> else pl_steps p ! k)"
  using assms
  by (cases "k = pl_current_index p")
    (auto simp: start_current_run set_current_def plan_current_def split: option.split if_splits)

lemma start_current_frame:
  "plan_wf p \<Longrightarrow> pl_current_index (snd (start_current p)) = pl_current_index p \<and>
     length (pl_steps (snd (start_current p))) = length (pl_steps p) \<and>
     pl_version (snd (start_current p)) = pl_version p"
  by (auto simp: start_current_run set_current_def split: option.split)

lemma closed_plan_frame:
  "pl_steps (closed_plan ref p) =
     (pl_steps p)[pl_current_index p := committed ref (pl_steps p ! pl_current_index p)]"
  "pl_current_index p < pl_current_index (closed_plan ref p)"
  using move_spec [of "p\<lparr>pl_steps := (pl_steps p)[pl_current_index p :=
      committed ref (pl_steps p ! pl_current_index p)], pl_current_index := pl_current_index p + 1\<rparr>"]
  by (auto simp: closed_plan_def)

text \<open>
  A commit closes exactly the current step: it fails and changes nothing unless the plan has a
  current step, pending or in progress, that the given ID names, and the reference is not empty;
  otherwise that step is completed with the reference, the index moves on to the next open step, and
  at most that step changes, from pending to in progress when all its dependencies are completed.
\<close>

theorem commit_spec:
  assumes p: "Plan (pl_steps p) (int (pl_current_index p)) (pl_version p) = Inr p"
    and run: "commit ref i p = (r, p')"
  shows "case r of
      Inl e \<Rightarrow> p' = p \<and> (plan_current p = None \<or> ref = [] \<or>
        (\<exists>s. plan_current p = Some s \<and> (i \<notin> {None, Some (ps_step_id s)} \<or> ps_status s \<notin> {PENDING, IN_PROGRESS})))
    | Inr s' \<Rightarrow> \<exists>s k. plan_current p = Some s \<and> ref \<noteq> [] \<and> i \<in> {None, Some (ps_step_id s)} \<and>
        ps_status s \<in> {PENDING, IN_PROGRESS} \<and> s' = s\<lparr>ps_status := COMPLETED, ps_result_ref := Some ref\<rparr> \<and>
        k = pl_current_index p' \<and> pl_current_index p < k \<and> k \<le> length (pl_steps p') \<and>
        (\<forall>j. pl_current_index p < j \<and> j < k \<longrightarrow> closed_step (pl_steps p ! j)) \<and>
        length (pl_steps p') = length (pl_steps p) \<and>
        (\<forall>j < length (pl_steps p). pl_steps p' ! j =
           (if j = pl_current_index p then s'
            else if j = k \<and> ps_status (pl_steps p ! j) = PENDING \<and>
              set (ps_dependencies (pl_steps p ! j)) \<subseteq> set (completed_ids ((pl_steps p)[pl_current_index p := s']))
            then (pl_steps p ! j)\<lparr>ps_status := IN_PROGRESS\<rparr> else pl_steps p ! j))"
proof -
  have wf: "plan_wf p" using p by (simp add: plan_wf_reloads)
  show ?thesis
  proof (cases r)
    case (Inl e)
    then show ?thesis using run by (auto simp: commit_run split: option.splits if_splits)
  next
    case (Inr s')
    then obtain s where s: "plan_current p = Some s" "ref \<noteq> []" "i \<in> {None, Some (ps_step_id s)}"
      "ps_status s \<in> {PENDING, IN_PROGRESS}" "s' = committed ref s"
      and p': "p' = snd (start_current (closed_plan ref p))"
      using run by (auto simp: commit_run split: option.splits if_splits)
    have cur: "pl_current_index p < length (pl_steps p)" "pl_steps p ! pl_current_index p = s"
      using s(1) by (auto simp: plan_current_def split: if_splits)
    let ?q = "closed_plan ref p"
    have q: "plan_wf ?q" by (rule closed_plan_wf [OF wf cur(1)])
    have steps: "pl_steps ?q = (pl_steps p)[pl_current_index p := s']"
      by (simp add: closed_plan_frame(1) s(5) cur(2))
    have frame: "pl_current_index p' = pl_current_index ?q" "length (pl_steps p') = length (pl_steps p)"
      using start_current_frame [OF q] by (simp_all add: p' steps)
    have le: "pl_current_index p < pl_current_index ?q" "pl_current_index ?q \<le> length (pl_steps p)"
      using closed_plan_frame(2) q by (auto simp: plan_wf_def steps)
    have between: "closed_step (pl_steps p ! j)" if "pl_current_index p < j" "j < pl_current_index ?q" for j
    proof -
      have "closed_step (pl_steps ?q ! j)"
        using move_spec [of "p\<lparr>pl_steps := (pl_steps p)[pl_current_index p :=
          committed ref (pl_steps p ! pl_current_index p)], pl_current_index := pl_current_index p + 1\<rparr>"] that
        by (simp add: closed_plan_def)
      then show ?thesis using that by (simp add: steps)
    qed
    have nth: "pl_steps p' ! j = (if j = pl_current_index p then s'
            else if j = pl_current_index ?q \<and> ps_status (pl_steps p ! j) = PENDING \<and>
              set (ps_dependencies (pl_steps p ! j)) \<subseteq> set (completed_ids ((pl_steps p)[pl_current_index p := s']))
            then (pl_steps p ! j)\<lparr>ps_status := IN_PROGRESS\<rparr> else pl_steps p ! j)"
      if j: "j < length (pl_steps p)" for j
      using start_current_steps [OF q, of j] j le(1) by (auto simp: p' steps)
    show ?thesis
      unfolding Inr sum.case
      by (intro exI [of _ s] exI [of _ "pl_current_index p'"] conjI allI impI)
        (use s frame le between nth in \<open>auto simp: committed_def\<close>)
  qed
qed

subsection \<open>Working through a plan\<close>

definition fresh_plan :: "plan \<Rightarrow> bool" where
  "fresh_plan p \<longleftrightarrow> Plan (pl_steps p) 0 (pl_version p) = Inr p \<and>
     list_all (\<lambda>s. ps_status s = PENDING) (pl_steps p)"

text \<open>A run that commits one reference after the other to whatever step is current.\<close>

fun commit_all :: "string list \<Rightarrow> (plan, unit) prog" where
  "commit_all [] = ret ()"
| "commit_all (r # rs) = bindP (commit r None) (\<lambda>_. commit_all rs)"

definition progressed :: "plan_step list \<Rightarrow> string list \<Rightarrow> plan \<Rightarrow> bool" where
  "progressed steps refs p \<longleftrightarrow> plan_wf p \<and> length refs \<le> length steps \<and>
     pl_current_index p = length refs \<and> length (pl_steps p) = length steps \<and>
     (\<forall>k < length refs. pl_steps p ! k = committed (refs ! k) (steps ! k)) \<and>
     (\<forall>k. length refs \<le> k \<longrightarrow> k < length steps \<longrightarrow>
        ps_status (pl_steps p ! k) \<in> (if k = length refs then {PENDING, IN_PROGRESS} else {PENDING}) \<and>
        (pl_steps p ! k)\<lparr>ps_status := PENDING\<rparr> = steps ! k)"

lemma committed_pending: "s\<lparr>ps_status := PENDING\<rparr> = s0 \<Longrightarrow> committed r s = committed r s0"
  by (auto simp: committed_def)

lemma progressed_commit:
  assumes prog: "progressed steps refs p" and more: "length refs < length steps" and r: "r \<noteq> []"
  obtains s p' where "commit r None p = (Inr s, p')" and "progressed steps (refs @ [r]) p'"
proof -
  let ?n = "length refs" and ?q = "closed_plan r p"
  have wf: "plan_wf p" and idx: "pl_current_index p = ?n" and len: "length (pl_steps p) = length steps"
    and below: "\<And>k. k < ?n \<Longrightarrow> pl_steps p ! k = committed (refs ! k) (steps ! k)"
    and status: "\<And>k. ?n \<le> k \<Longrightarrow> k < length steps \<Longrightarrow>
        ps_status (pl_steps p ! k) \<in> (if k = ?n then {PENDING, IN_PROGRESS} else {PENDING})"
    and above: "\<And>k. ?n \<le> k \<Longrightarrow> k < length steps \<Longrightarrow> (pl_steps p ! k)\<lparr>ps_status := PENDING\<rparr> = steps ! k"
    using prog unfolding progressed_def by blast+
  have cur: "plan_current p = Some (pl_steps p ! ?n)" using idx len more by (simp add: plan_current_def)
  have run: "commit r None p = (Inr (committed r (pl_steps p ! ?n)), snd (start_current ?q))"
    using status [of ?n] more r by (simp add: commit_run cur)
  have q: "plan_wf ?q" by (rule closed_plan_wf [OF wf]) (use idx len more in simp)
  have steps: "pl_steps ?q = (pl_steps p)[?n := committed r (pl_steps p ! ?n)]"
    using closed_plan_frame(1) [of r p] by (simp add: idx)
  have "pl_current_index ?q = Suc ?n"
  proof -
    have "move_to_next_open_step (p\<lparr>pl_steps := pl_steps ?q, pl_current_index := Suc ?n\<rparr>) =
        p\<lparr>pl_steps := pl_steps ?q, pl_current_index := Suc ?n\<rparr>"
      by (rule move_open) (use status [of "Suc ?n"] len in
          \<open>auto simp: plan_current_def steps closed_step_def split: if_splits\<close>)
    then show ?thesis by (simp add: closed_plan_def idx steps)
  qed
  moreover have "pl_steps (snd (start_current ?q)) ! k = committed ((refs @ [r]) ! k) (steps ! k)"
    if "k < Suc ?n" for k
    using start_current_steps [OF q, of k] calculation that below [of k] above [of ?n] len more
      committed_pending [of "pl_steps p ! ?n" "steps ! ?n" r]
    by (cases "k = ?n") (auto simp: steps nth_append)
  moreover have "ps_status (pl_steps (snd (start_current ?q)) ! k) \<in>
        (if k = Suc ?n then {PENDING, IN_PROGRESS} else {PENDING}) \<and>
      (pl_steps (snd (start_current ?q)) ! k)\<lparr>ps_status := PENDING\<rparr> = steps ! k"
    if "Suc ?n \<le> k" "k < length steps" for k
    using start_current_steps [OF q, of k] calculation(1) that status [of k] above [of k] len
    by (auto simp: steps)
  ultimately have "progressed steps (refs @ [r]) (snd (start_current ?q))"
    using start_current_frame [OF q] start_current_wf [OF q] more len
    by (simp add: progressed_def steps)
  then show ?thesis using that run by blast
qed

lemma commit_all_progress:
  "progressed steps ds p \<Longrightarrow> length ds + length rs \<le> length steps \<Longrightarrow> [] \<notin> set rs \<Longrightarrow>
     \<exists>p'. commit_all rs p = (Inr (), p') \<and> progressed steps (ds @ rs) p'"
proof (induction rs arbitrary: ds p)
  case Nil
  then show ?case by (simp add: ret_def)
next
  case (Cons r rs)
  obtain s p1 where "commit r None p = (Inr s, p1)" and p1: "progressed steps (ds @ [r]) p1"
    using progressed_commit [OF Cons.prems(1), of r] Cons.prems by auto
  moreover obtain p' where "commit_all rs p1 = (Inr (), p')" "progressed steps ((ds @ [r]) @ rs) p'"
    using Cons.IH [OF p1] Cons.prems by auto
  ultimately show ?case by (simp add: bindP_run)
qed

text \<open>
  A fresh plan is finished by one commit per step: committing as many non-empty references as the
  plan has steps succeeds every time, goes through the steps in their order, and leaves a complete
  plan whose steps carry the references; after fewer commits it is not complete.
\<close>

theorem fresh_plan_finishes:
  assumes "fresh_plan p" and "length refs \<le> length (pl_steps p)" and "[] \<notin> set refs"
    and "pl_steps p \<noteq> []"
  shows "\<exists>p'. commit_all refs p = (Inr (), p') \<and>
    (\<forall>k < length refs. pl_steps p' ! k =
       (pl_steps p ! k)\<lparr>ps_status := COMPLETED, ps_result_ref := Some (refs ! k)\<rparr>) \<and>
    (plan_complete p' \<longleftrightarrow> length refs = length (pl_steps p))"
proof -
  have idx: "pl_current_index p = 0"
  proof -
    have "\<not> closed_step (pl_steps p ! 0)"
      using assms(1,4) by (cases "pl_steps p") (auto simp: fresh_plan_def closed_step_def)
    then have "move_to_next_open_step \<lparr>pl_steps = pl_steps p, pl_current_index = 0, pl_version = pl_version p\<rparr> =
        \<lparr>pl_steps = pl_steps p, pl_current_index = 0, pl_version = pl_version p\<rparr>"
      using assms(4) by (intro move_open) (auto simp: plan_current_def)
    moreover have "p = move_to_next_open_step \<lparr>pl_steps = pl_steps p, pl_current_index = 0, pl_version = pl_version p\<rparr>"
      using assms(1) by (simp add: fresh_plan_def accepted_plan)
    ultimately show ?thesis by (metis select_convs(2))
  qed
  then have "plan_wf p" using assms(1) by (simp add: plan_wf_reloads fresh_plan_def)
  moreover have "ps_status (pl_steps p ! k) = PENDING" if "k < length (pl_steps p)" for k
    using assms(1) that by (simp add: fresh_plan_def list_all_length)
  ultimately have "progressed (pl_steps p) [] p" using idx by (auto simp: progressed_def)
  then obtain p' where run: "commit_all refs p = (Inr (), p')" and p': "progressed (pl_steps p) refs p'"
    using commit_all_progress [of "pl_steps p" "[]" p refs] assms(2,3) by auto
  have "plan_complete p' \<longleftrightarrow> length refs = length (pl_steps p)"
  proof
    assume "plan_complete p'"
    then have closed: "closed_step (pl_steps p' ! k)" if "k < length (pl_steps p)" for k
      using p' that by (auto simp: plan_complete_def list_all_length progressed_def)
    have "ps_status (pl_steps p' ! length refs) \<in> {PENDING, IN_PROGRESS}" if "length refs < length (pl_steps p)"
      using p' that unfolding progressed_def by auto
    then have "\<not> length refs < length (pl_steps p)"
      using closed [of "length refs"] by (auto simp: closed_step_def)
    then show "length refs = length (pl_steps p)" using assms(2) by simp
  next
    assume "length refs = length (pl_steps p)"
    then show "plan_complete p'"
      using p' assms(4) by (auto simp: plan_complete_def list_all_length progressed_def committed_def closed_step_def)
  qed
  then show ?thesis using run p' unfolding progressed_def committed_def by blast
qed

subsection \<open>The baseline validator\<close>

text \<open>
  The baseline validator commits a result exactly when it names the step, reports completion and
  brings at least as many non-blank pieces of evidence as the step has criteria.  A retry for missing
  evidence names as unmet exactly the criteria, from the end, that the evidence does not reach; only a
  result of another step or one reported as failed fails the step; and only a blocked result that
  names missing inputs asks for another plan.
\<close>

theorem validator_decides:
  fixes result :: step_result and step :: plan_step
  defines "evidence \<equiv> filter (\<lambda>s. strip s \<noteq> []) (sr_completion_evidence result)"
    and "v \<equiv> validate_step step result"
    and "same \<equiv> sr_step_id result = ps_step_id step"
  shows "(sv_kind v = COMMIT \<longleftrightarrow> same \<and> sr_status result = SR_completed \<and>
      length (ps_completion_criteria step) \<le> length evidence)
    \<and> (sv_kind v = FAIL \<longleftrightarrow> \<not> same \<or> sr_status result = SR_failed)
    \<and> (sv_kind v = REPLAN \<longleftrightarrow> same \<and> sr_status result = SR_blocked \<and> sr_missing_inputs result \<noteq> [])
    \<and> (sv_kind v = RETRY \<and> sr_status result = SR_completed \<longrightarrow>
        sv_unmet_criteria v = drop (length evidence) (ps_completion_criteria step) \<and> sv_unmet_criteria v \<noteq> [])"
proof -
  have "length (filter (\<lambda>s. s \<noteq> []) (map strip (sr_completion_evidence result))) = length evidence"
    by (simp add: filter_map evidence_def o_def)
  then show ?thesis
    by (cases "sr_status result") (auto simp: v_def same_def validate_step_def StepValidation_def Let_def)
qed

subsection \<open>A sample plan\<close>

definition sample_step :: "string \<Rightarrow> string list \<Rightarrow> plan_step" where
  "sample_step i deps = \<lparr>ps_description = i, ps_status = PENDING, ps_expected_output = None, ps_metadata = [],
     ps_step_id = i, ps_objective = i, ps_completion_criteria = [i], ps_dependencies = deps,
     ps_allowed_tools = [], ps_attempt_count = 0, ps_result_ref = None\<rparr>"

definition sample_plan :: plan where
  "sample_plan = \<lparr>pl_steps = [sample_step ''a'' [], sample_step ''b'' [''a'']],
     pl_current_index = 0, pl_version = 1\<rparr>"

lemma sample_plan_loads: "Plan (pl_steps sample_plan) 0 (pl_version sample_plan) = Inr sample_plan"
  by code_simp

theorem plan_operations_reload_witness:
  "let p = snd (commit ''r'' None sample_plan)
   in Plan (pl_steps p) (int (pl_current_index p)) (pl_version p) = Inr p"
  unfolding Let_def
  using plan_operations_reload [of sample_plan _ "''r''" None None "\<lambda>_. ''r''" undefined None]
    sample_plan_loads by (simp add: sample_plan_def)

theorem commit_spec_witness:
  "pl_current_index sample_plan < pl_current_index (snd (commit ''r'' None sample_plan))"
proof -
  obtain r p' where run: "commit ''r'' None sample_plan = (r, p')" by (cases "commit ''r'' None sample_plan")
  have "\<not> isl (fst (commit ''r'' None sample_plan))" by code_simp
  then obtain s' where "r = Inr s'" using run by (cases r) auto
  moreover have "Plan (pl_steps sample_plan) (int (pl_current_index sample_plan)) (pl_version sample_plan) =
      Inr sample_plan"
    using sample_plan_loads by (simp add: sample_plan_def)
  ultimately show ?thesis using commit_spec [of sample_plan, OF _ run] by (auto simp: run)
qed

theorem fresh_plan_finishes_witness:
  "\<exists>p. commit_all [''r'', ''s''] sample_plan = (Inr (), p) \<and> plan_complete p"
  using fresh_plan_finishes [of sample_plan "[''r'', ''s'']"] sample_plan_loads
  by (auto simp: fresh_plan_def sample_plan_def sample_step_def)

end
