(* ===== verification/Tool_Values.thy ===== *)
theory Tool_Values
  imports Prelude
begin

text \<open>
  The values of the Tool layer: errors and results (\<^verbatim>\<open>moduagent/tools/base.py\<close>), argument fingerprints
  (\<^verbatim>\<open>tools/arguments.py\<close>), the registry (\<^verbatim>\<open>tools/registry.py\<close>) and the authorizers
  (\<^verbatim>\<open>tools/auth.py\<close>).  A Tool itself is code of the application: its record holds what the runtime
  reads and calls of it.
\<close>

subsection \<open>Errors\<close>

datatype tool_error_type =
  NOT_FOUND | INVALID_ARGUMENTS | UNAUTHORIZED | TIMEOUT | EXECUTION_ERROR | RESULT_TOO_LARGE | CANCELLED

fun error_type_value :: "tool_error_type \<Rightarrow> string" where
  "error_type_value NOT_FOUND = ''not_found''"
| "error_type_value INVALID_ARGUMENTS = ''invalid_arguments''"
| "error_type_value UNAUTHORIZED = ''unauthorized''"
| "error_type_value TIMEOUT = ''timeout''"
| "error_type_value EXECUTION_ERROR = ''execution_error''"
| "error_type_value RESULT_TOO_LARGE = ''result_too_large''"
| "error_type_value CANCELLED = ''cancelled''"

datatype tool_recovery_action = RETRY_CALL | REPAIR_CALL | RA_REPLAN | RA_FAIL

fun recovery_value :: "tool_recovery_action \<Rightarrow> string" where
  "recovery_value RETRY_CALL = ''retry_call''"
| "recovery_value REPAIR_CALL = ''repair_call''"
| "recovery_value RA_REPLAN = ''replan''"
| "recovery_value RA_FAIL = ''fail''"

record tool_error =
  te_type :: tool_error_type
  te_message :: string
  te_retryable :: bool
  te_details :: "(string, pyval) dict"
  te_reason :: "string option"
  te_recovery :: "tool_recovery_action option"

definition ToolError ::
  "tool_error_type \<Rightarrow> string \<Rightarrow> bool \<Rightarrow> (string, pyval) dict \<Rightarrow> string option \<Rightarrow>
   tool_recovery_action option \<Rightarrow> tool_error res" where
  "ToolError type message retryable details reason recovery =
     bindR (case reason of None \<Rightarrow> Inr ()
        | Some r \<Rightarrow> require (strip r \<noteq> []) (ValueError ''tool error reason cannot be empty'')) (\<lambda>_.
     Inr \<lparr>te_type = type, te_message = message, te_retryable = retryable, te_details = details,
          te_reason = map_option strip reason, te_recovery = recovery\<rparr>)"

subsection \<open>Results\<close>

record tool_result =
  tr_call_id :: string
  tr_tool_name :: string
  tr_success :: bool
  tr_value :: pyval
  tr_error :: "tool_error option"
  tr_attempts :: int
  tr_duration_seconds :: rat
  tr_invocation_arguments :: "(string, pyval) dict option"
  tr_repair_safe :: bool

definition ToolResult :: "tool_result \<Rightarrow> tool_result res" where
  "ToolResult r = bindR (all_ok
     [require (strip (tr_call_id r) \<noteq> []) (ValueError ''tool result call_id cannot be empty''),
      require (strip (tr_tool_name r) \<noteq> []) (ValueError ''tool result tool_name cannot be empty''),
      require (\<not> (tr_success r \<and> tr_error r \<noteq> None))
        (ValueError ''a successful tool result cannot contain an error''),
      require (\<not> (\<not> tr_success r \<and> tr_error r = None))
        (ValueError ''a failed tool result must contain an error''),
      require (0 \<le> tr_attempts r) (ValueError ''attempts cannot be negative''),
      require (0 \<le> tr_duration_seconds r) (ValueError ''duration_seconds cannot be negative'')])
     (\<lambda>_. Inr r)"

definition succeeded ::
  "string \<Rightarrow> string \<Rightarrow> pyval \<Rightarrow> int \<Rightarrow> rat \<Rightarrow> (string, pyval) dict option \<Rightarrow> bool \<Rightarrow> tool_result res" where
  "succeeded call_id tool_name value attempts duration arguments repair_safe = ToolResult
     \<lparr>tr_call_id = call_id, tr_tool_name = tool_name, tr_success = True, tr_value = value,
      tr_error = None, tr_attempts = attempts, tr_duration_seconds = duration,
      tr_invocation_arguments = arguments, tr_repair_safe = repair_safe\<rparr>"

definition failed ::
  "string \<Rightarrow> string \<Rightarrow> tool_error \<Rightarrow> int \<Rightarrow> rat \<Rightarrow> (string, pyval) dict option \<Rightarrow> bool \<Rightarrow> tool_result res" where
  "failed call_id tool_name error attempts duration arguments repair_safe = ToolResult
     \<lparr>tr_call_id = call_id, tr_tool_name = tool_name, tr_success = False, tr_value = PNone,
      tr_error = Some error, tr_attempts = attempts, tr_duration_seconds = duration,
      tr_invocation_arguments = arguments, tr_repair_safe = repair_safe\<rparr>"

record tool_call =
  tk_id :: string
  tk_name :: string
  tk_arguments :: "(string, pyval) dict"

definition is_tool_argument_fingerprint :: "string \<Rightarrow> bool" where
  "is_tool_argument_fingerprint value \<longleftrightarrow> take 7 value = ''sha256:'' \<and> length (drop 7 value) = 64 \<and>
     list_all (\<lambda>c. c \<in> set ''0123456789abcdef'') (drop 7 value)"

subsection \<open>What the runtime calls\<close>

record tool_safety_profile =
  sf_same_call_retry_safe :: bool
  sf_changed_argument_repair_safe :: bool
  sf_timeout_retry_safe :: bool

record tool_failure_classification =
  fc_error_type :: tool_error_type
  fc_stable_reason :: string
  fc_retryable :: bool
  fc_recovery_directive :: "tool_recovery_action option"
  fc_safe_message :: "string option"
  fc_diagnostic_ref :: "string option"

record tool_context =
  tc_run_id :: string
  tc_session_id :: "string option"
  tc_user_context :: "(string, pyval) dict"
  tc_metadata :: "(string, pyval) dict"
  tc_tool_call_id :: "string option"
  tc_attempt :: int

definition for_call :: "string \<Rightarrow> int \<Rightarrow> tool_context \<Rightarrow> tool_context res" where
  "for_call call_id attempt c =
     bindR (require (1 \<le> attempt) (ValueError ''attempt must be at least 1''))
       (\<lambda>_. Inr (c\<lparr>tc_tool_call_id := Some call_id, tc_attempt := attempt\<rparr>))"

text \<open>
  What a Tool raises: \<^verbatim>\<open>asyncio.TimeoutError\<close> (its own or that of \<^verbatim>\<open>asyncio.wait_for\<close>), a \<^verbatim>\<open>ToolFailure\<close>,
  the cancellation of its task, or any other exception with its class name and text.
\<close>

datatype tool_exn = TX_timeout | TX_failure tool_error | TX_cancelled | TX_other string string

fun exn_name :: "tool_exn \<Rightarrow> string" where
  "exn_name TX_timeout = ''TimeoutError''"
| "exn_name (TX_failure _) = ''ToolFailure''"
| "exn_name TX_cancelled = ''CancelledError''"
| "exn_name (TX_other n _) = n"

fun exn_text :: "tool_exn \<Rightarrow> string" where
  "exn_text (TX_failure e) = te_message e"
| "exn_text (TX_other _ m) = m"
| "exn_text _ = []"

text \<open>
  The answer of an optional hook of a Tool, and of its argument validation: a pydantic
  \<^verbatim>\<open>ValidationError\<close> with its errors, another \<^verbatim>\<open>TypeError\<close> or \<^verbatim>\<open>ValueError\<close> with its class name, or an
  exception of another class.
\<close>

datatype 'a hook = H_none | H_value 'a | H_invalid string | H_raise tool_exn

datatype validation = V_ok "(string, pyval) dict" | V_invalid pyval | V_rejected string | V_raise exn

record 'w tool =
  tl_name :: string
  tl_safety_profile :: "tool_safety_profile option"
  tl_idempotent :: bool
  tl_repair_safe :: bool
  tl_timeout_retry_safe :: bool
  tl_timeout_seconds :: "rat option"
  tl_max_result_bytes :: "int option"
  tl_delegated :: bool
  tl_validate :: "(string, pyval) dict \<Rightarrow> validation"
  tl_invoke :: "rat option \<Rightarrow> (string, pyval) dict \<Rightarrow> tool_context \<Rightarrow> 'w \<Rightarrow> (tool_exn + pyval) \<times> 'w"
  tl_failure_classifier :: "(tool_exn \<Rightarrow> tool_failure_classification hook) option"
  tl_error_mapper :: "(tool_exn \<Rightarrow> tool_error hook) option"

subsection \<open>Registry\<close>

record 't tool_registry =
  tg_tools :: "(string, 't) dict"
  tg_frozen :: bool

definition register_tool ::
  "string \<Rightarrow> 't \<Rightarrow> bool \<Rightarrow> ('t tool_registry, 't) prog" where
  "register_tool name tool replace g =
     (if tg_frozen g then (Inl (RuntimeError ''tool registry is frozen''), g)
      else if strip name = [] then (Inl (ValueError ''tool name cannot be empty''), g)
      else if dget (tg_tools g) name \<noteq> None \<and> \<not> replace
      then (Inl (ValueError (''tool already registered: '' @ name)), g)
      else (Inr tool, g\<lparr>tg_tools := dset name tool (tg_tools g)\<rparr>))"

definition unregister_tool :: "string \<Rightarrow> ('t tool_registry, 't) prog" where
  "unregister_tool name g =
     (if tg_frozen g then (Inl (RuntimeError ''tool registry is frozen''), g)
      else case dget (tg_tools g) name of
        None \<Rightarrow> (Inl (OtherException (''unknown tool: '' @ name)), g)
      | Some tool \<Rightarrow> (Inr tool, g\<lparr>tg_tools := AList.delete name (tg_tools g)\<rparr>))"

definition get_tool :: "'t tool_registry \<Rightarrow> string \<Rightarrow> 't option" where
  "get_tool g name = dget (tg_tools g) name"

definition require_tool :: "'t tool_registry \<Rightarrow> string \<Rightarrow> 't res" where
  "require_tool g name = (case get_tool g name of
     None \<Rightarrow> Inl (OtherException (''unknown tool: '' @ name)) | Some tool \<Rightarrow> Inr tool)"

definition tool_schemas :: "('t \<Rightarrow> 'sc) \<Rightarrow> 't tool_registry \<Rightarrow> string list option \<Rightarrow> 'sc list res" where
  "tool_schemas schema g names = (case names of
     None \<Rightarrow> Inr (map (\<lambda>p. schema (snd p)) (tg_tools g))
   | Some selected \<Rightarrow>
       bindR (require (set selected \<subseteq> fst ` set (tg_tools g)) (OtherException ''unknown tools'')) (\<lambda>_.
       Inr (map (\<lambda>p. schema (snd p)) (filter (\<lambda>p. fst p \<in> set selected) (tg_tools g)))))"

definition freeze_tools :: "'t tool_registry \<Rightarrow> 't tool_registry" where
  "freeze_tools g = g\<lparr>tg_frozen := True\<rparr>"

subsection \<open>Authorization\<close>

text \<open>The answers of an authorizer: a decision, a plain bool, or something else.\<close>

datatype auth_answer = AA_decision bool "string option" | AA_bool bool | AA_other

text \<open>
  The roles of the user context: a single string, an array, or nothing; \<^verbatim>\<open>str\<close> is the identity on the
  strings of the array (other items of the array have the parameter \<open>text_of\<close> as their \<^verbatim>\<open>str\<close>).  A value
  that cannot be iterated raises.
\<close>

definition falsy :: "pyval \<Rightarrow> bool" where
  "falsy v \<longleftrightarrow> v \<in> {PNone, PBool False, PInt 0, PFloat 0, PStr [], PList [], PDict []}"

definition user_roles :: "(pyval \<Rightarrow> string) \<Rightarrow> (string, pyval) dict \<Rightarrow> string list res" where
  "user_roles text_of user =
     (let raw = dget_or user ''roles'' (dget_or user ''role'' (PList [])) in
      case raw of
        PStr s \<Rightarrow> Inr [s]
      | _ \<Rightarrow> if falsy raw then Inr []
             else (case raw of PList xs \<Rightarrow> Inr (map text_of xs)
                   | PDict d \<Rightarrow> Inr (map fst d)
                   | _ \<Rightarrow> Inl (TypeError ''roles are not iterable'')))"

definition rbac_authorize ::
  "(pyval \<Rightarrow> string) \<Rightarrow> (string, string list) dict \<Rightarrow> string \<Rightarrow> tool_context \<Rightarrow> auth_answer res" where
  "rbac_authorize text_of permissions tool_name context =
     bindR (user_roles text_of (tc_user_context context)) (\<lambda>roles.
     Inr (if list_ex (\<lambda>role. let allowed = dget_or permissions role [] in
               tool_name \<in> set allowed \<or> ''*'' \<in> set allowed) roles
          then AA_decision True None
          else AA_decision False (Some (''not authorized to call tool: '' @ tool_name))))"

definition allow_all :: "auth_answer res" where
  "allow_all = Inr (AA_decision True None)"

end
