(* ===== verification/Tool_Failures.thy ===== *)
theory Tool_Failures
  imports Tool_Values
begin

text \<open>
  Tool failures (\<^verbatim>\<open>moduagent/tools/failure.py\<close>): their classification, the record kept inside the
  execution boundary, and the projection that bounds every text that crosses it.
\<close>

subsection \<open>Classifications\<close>

text \<open>\<^verbatim>\<open>[A-Za-z0-9_.:-]{1,128}\<close>\<close>

definition stable_reason :: "string \<Rightarrow> bool" where
  "stable_reason s \<longleftrightarrow> s \<noteq> [] \<and> length s \<le> 128 \<and> list_all (\<lambda>c. is_alnum c \<or> c \<in> set ''_.:-'') s"

definition ToolFailureClassification ::
  "tool_error_type \<Rightarrow> string \<Rightarrow> bool \<Rightarrow> tool_recovery_action option \<Rightarrow> string option \<Rightarrow> string option \<Rightarrow>
   tool_failure_classification res" where
  "ToolFailureClassification type reason retryable recovery message diagnostic =
     (let r = strip reason in
      bindR (all_ok
        [require (r \<noteq> []) (ValueError ''stable_reason cannot be empty''),
         require (stable_reason r) (ValueError ''stable_reason must be a machine-readable code'')]) (\<lambda>_.
      Inr \<lparr>fc_error_type = type, fc_stable_reason = r, fc_retryable = retryable,
           fc_recovery_directive = recovery, fc_safe_message = message, fc_diagnostic_ref = diagnostic\<rparr>))"

record internal_tool_failure =
  if_call_id :: string
  if_tool_name :: string
  if_classification :: tool_failure_classification
  if_safety_profile :: tool_safety_profile
  if_requested_arguments_fingerprint :: "string option"
  if_effective_arguments_fingerprint :: "string option"
  if_attempts :: int
  if_same_call_retry_exhausted :: bool
  if_diagnostic_ref :: "string option"
  if_failure_id :: "string option"

definition fingerprint_ok :: "string option \<Rightarrow> bool" where
  "fingerprint_ok v \<longleftrightarrow> (case v of None \<Rightarrow> True | Some s \<Rightarrow> is_tool_argument_fingerprint s)"

definition InternalToolFailure :: "internal_tool_failure \<Rightarrow> internal_tool_failure res" where
  "InternalToolFailure f = bindR (all_ok
     [require (strip (if_call_id f) \<noteq> []) (ValueError ''failure call_id cannot be empty''),
      require (strip (if_tool_name f) \<noteq> []) (ValueError ''failure tool_name cannot be empty''),
      require (fingerprint_ok (if_requested_arguments_fingerprint f))
        (ValueError ''requested_arguments_fingerprint must use sha256''),
      require (fingerprint_ok (if_effective_arguments_fingerprint f))
        (ValueError ''effective_arguments_fingerprint must use sha256''),
      require (0 \<le> if_attempts f) (ValueError ''attempts cannot be negative''),
      require (case if_failure_id f of None \<Rightarrow> True | Some s \<Rightarrow> strip s \<noteq> [])
        (ValueError ''failure_id must be a non-empty string or None'')])
     (\<lambda>_. Inr f)"

subsection \<open>Views\<close>

record safe_failure_view =
  sv_error_type :: tool_error_type
  sv_view_reason :: string
  sv_recovery :: "tool_recovery_action option"
  sv_retryable :: bool
  sv_call_id :: string
  sv_tool_name :: string
  sv_requested_arguments_fingerprint :: "string option"
  sv_effective_arguments_fingerprint :: "string option"
  sv_message :: "string option"

definition SafeToolFailureView :: "safe_failure_view \<Rightarrow> safe_failure_view res" where
  "SafeToolFailureView v = bindR (all_ok
     [require (sv_view_reason v \<noteq> []) (ValueError ''failure reason cannot be empty''),
      require (sv_call_id v \<noteq> [] \<and> sv_tool_name v \<noteq> [])
        (ValueError ''failure identifiers cannot be empty''),
      require (fingerprint_ok (sv_requested_arguments_fingerprint v))
        (ValueError ''requested_arguments_fingerprint must use sha256''),
      require (fingerprint_ok (sv_effective_arguments_fingerprint v))
        (ValueError ''effective_arguments_fingerprint must use sha256'')])
     (\<lambda>_. Inr v)"

definition optional_item :: "string \<Rightarrow> string option \<Rightarrow> (string, pyval) dict" where
  "optional_item k v = (case v of None \<Rightarrow> [] | Some s \<Rightarrow> [(k, PStr s)])"

definition view_to_dict :: "safe_failure_view \<Rightarrow> (string, pyval) dict" where
  "view_to_dict v =
     [(''type'', PStr (error_type_value (sv_error_type v))), (''reason'', PStr (sv_view_reason v)),
      (''retryable'', PBool (sv_retryable v)), (''call_id'', PStr (sv_call_id v)),
      (''tool_name'', PStr (sv_tool_name v))] @
     optional_item ''recovery'' (map_option recovery_value (sv_recovery v)) @
     optional_item ''arguments_fingerprint'' (sv_requested_arguments_fingerprint v) @
     optional_item ''invocation_fingerprint'' (sv_effective_arguments_fingerprint v) @
     optional_item ''message'' (sv_message v)"

subsection \<open>Bounded texts\<close>

text \<open>\<^verbatim>\<open>str.isprintable\<close> on the characters of the model: neither a control nor a format character, nor a
  separator other than the space.\<close>

definition printable :: "char \<Rightarrow> bool" where
  "printable c \<longleftrightarrow> (let n = of_char c :: nat in (32 \<le> n \<and> n \<le> 126) \<or> (161 \<le> n \<and> n \<noteq> 173))"

text \<open>\<^verbatim>\<open>" ".join(text.split())\<close>: \<open>words\<close> collects the maximal runs without white space.\<close>

fun words :: "string \<Rightarrow> string list" where
  "words [] = []"
| "words (c # cs) =
     (if is_space c then words cs
      else (case cs of [] \<Rightarrow> [[c]]
        | d # _ \<Rightarrow> if is_space d then [c] # words cs
            else (case words cs of [] \<Rightarrow> [[c]] | w # ws \<Rightarrow> (c # w) # ws)))"

fun join_words :: "string list \<Rightarrow> string" where
  "join_words [] = []"
| "join_words [w] = w"
| "join_words (w # ws) = w @ '' '' @ join_words ws"

definition one_line :: "string \<Rightarrow> string" where
  "one_line s = join_words (words (map (\<lambda>c. if printable c then c else CHR '' '') s))"

text \<open>Texts of the model always have a \<^verbatim>\<open>str\<close>; \<open>limit\<close> is at least 1.\<close>

definition bounded_text :: "nat \<Rightarrow> string \<Rightarrow> string \<Rightarrow> string" where
  "bounded_text limit fallback raw =
     (let text1 = one_line raw; text2 = (if text1 = [] then fallback else text1) in
      if length text2 \<le> limit then text2
      else if limit \<le> 3 then take limit text2
      else take (limit - 3) text2 @ ''...'')"

text \<open>A text is plain when it is printable and single-spaced; such a text is only cut, never changed.\<close>

fun tight :: "string \<Rightarrow> bool" where
  "tight [] \<longleftrightarrow> True"
| "tight [c] \<longleftrightarrow> \<not> is_space c"
| "tight (c # d # cs) \<longleftrightarrow> \<not> (is_space c \<and> is_space d) \<and> tight (d # cs)"

definition plain :: "string \<Rightarrow> bool" where
  "plain s \<longleftrightarrow> list_all printable s \<and> tight s \<and> (s = [] \<or> \<not> is_space (hd s))"

definition word :: "string \<Rightarrow> bool" where
  "word w \<longleftrightarrow> w \<noteq> [] \<and> (\<forall>c \<in> set w. \<not> is_space c)"

lemma printable_space: "printable c \<Longrightarrow> is_space c \<longleftrightarrow> c = CHR '' ''"
proof
  assume "printable c" and "is_space c"
  then have "(of_char c :: nat) = 32" unfolding printable_def is_space_def Let_def by arith
  then have "c = char_of (32 :: nat)" by (metis char_of_char)
  moreover have "char_of (32 :: nat) = CHR '' ''" by code_simp
  ultimately show "c = CHR '' ''" by simp
qed (simp add: is_space_def)

lemma dots [simp]: "\<not> is_space CHR ''.''" "printable CHR ''.''"
  and blank [simp]: "is_space CHR '' ''" "printable CHR '' ''"
  by (simp_all add: is_space_def printable_def)

lemma words_word: "w \<in> set (words s) \<Longrightarrow> word w \<and> set w \<subseteq> set s"
proof (induction s arbitrary: w rule: words.induct)
  case (2 c cs)
  show ?case
  proof (cases "words cs")
    case Nil
    then show ?thesis using "2.prems" by (auto simp: word_def split: if_splits list.splits)
  next
    case (Cons v vs)
    have tail: "word u \<and> set u \<subseteq> set cs" if u: "u \<in> set (words cs)" for u
    proof (cases "is_space c")
      case True
      then show ?thesis using "2.IH"(1) u by blast
    next
      case nonblank: False
      obtain d ds where cs: "cs = d # ds" using Cons by (cases cs) auto
      show ?thesis
      proof (cases "is_space d")
        case True
        then show ?thesis using "2.IH"(2) [OF nonblank cs] u by blast
      next
        case False
        then show ?thesis using "2.IH"(3) [OF nonblank cs False u] by simp
      qed
    qed
    consider "w \<in> set (words cs)" | "\<not> is_space c" "w = [c]" | "\<not> is_space c" "w = c # v"
      using "2.prems" Cons by (cases cs) (auto split: if_splits)
    then show ?thesis
    proof cases
      case 1
      then show ?thesis using tail [of w] by auto
    next
      case 2
      then show ?thesis by (simp add: word_def)
    next
      case 3
      then show ?thesis using tail [of v] Cons by (auto simp: word_def)
    qed
  qed
qed simp

lemma words_starts: "cs \<noteq> [] \<Longrightarrow> \<not> is_space (hd cs) \<Longrightarrow> words cs \<noteq> []"
  by (cases cs) (auto split: list.split)

lemma join_Cons: "ws \<noteq> [] \<Longrightarrow> join_words (w # ws) = w @ CHR '' '' # join_words ws"
  by (cases ws) auto

lemma join_words_words:
  assumes "list_all printable s" and "tight s"
  shows "join_words (words s) = (if s \<noteq> [] \<and> is_space (hd s) then tl s else s)"
  using assms
proof (induction s rule: words.induct)
  case (2 c cs)
  show ?case
  proof (cases cs)
    case Nil
    then show ?thesis using 2 by simp
  next
    case (Cons d ds)
    consider (left) "is_space c" "\<not> is_space d" | (gap) "\<not> is_space c" "is_space d"
      | (word) "\<not> is_space c" "\<not> is_space d" using 2 Cons by auto
    then show ?thesis
    proof cases
      case left
      then show ?thesis using 2 Cons by simp
    next
      case gap
      then obtain e es where ds: "ds = e # es" "\<not> is_space e" using 2 Cons by (cases ds) auto
      then have "words cs \<noteq> []" using Cons gap words_starts [of ds] by simp
      moreover have "d = CHR '' ''" using gap 2 Cons printable_space by simp
      ultimately show ?thesis using gap 2 Cons by (simp add: join_Cons)
    next
      case word
      then obtain v vs where "words cs = v # vs" using Cons words_starts [of cs] by (cases "words cs") auto
      then show ?thesis using word 2 Cons by (cases vs) auto
    qed
  qed
qed simp

lemma tight_word_join:
  "word w \<Longrightarrow> tight s \<Longrightarrow> s = [] \<or> \<not> is_space (hd s) \<Longrightarrow>
     tight w \<and> (s \<noteq> [] \<longrightarrow> tight (w @ CHR '' '' # s)) \<and> tight (w @ s)"
proof (induction w)
  case (Cons c cs)
  show ?case
  proof (cases cs)
    case Nil
    then show ?thesis using Cons.prems by (cases s) (auto simp: word_def)
  next
    case (Cons d ds)
    then show ?thesis using Cons.IH Cons.prems by (auto simp: word_def)
  qed
qed (simp add: word_def)

lemma plain_join:
  "\<forall>w \<in> set ws. word w \<and> list_all printable w \<Longrightarrow> plain (join_words ws)"
proof (induction ws rule: join_words.induct)
  case (2 w)
  then show ?case using tight_word_join [of w "[]"] by (auto simp: plain_def word_def)
next
  case (3 w v vs)
  then have "plain (join_words (v # vs))" by simp
  moreover have "join_words (v # vs) \<noteq> []" using "3.prems" by (cases vs) (auto simp: word_def)
  ultimately show ?case
    using tight_word_join [of w "join_words (v # vs)"] "3.prems"
    by (cases w) (auto simp: plain_def word_def)
qed (simp add: plain_def)

lemma plain_one_line [simp]: "plain (one_line s)"
proof -
  let ?t = "map (\<lambda>c. if printable c then c else CHR '' '') s"
  have "\<forall>c \<in> set ?t. printable c" by auto
  then have "\<forall>w \<in> set (words ?t). word w \<and> list_all printable w"
    using words_word [of _ ?t] unfolding list_all_iff by blast
  then show ?thesis unfolding one_line_def by (rule plain_join)
qed

lemma one_line_plain: "plain s \<Longrightarrow> one_line s = s"
proof -
  assume p: "plain s"
  then have "map (\<lambda>c. if printable c then c else CHR '' '') s = s"
    by (intro map_idI) (auto simp: plain_def list_all_iff)
  then show ?thesis using p join_words_words [of s] by (auto simp: one_line_def plain_def)
qed

lemma tight_cut: "tight s \<Longrightarrow> tight (take k s @ ''...'')"
proof (induction s arbitrary: k rule: tight.induct)
  case (3 c d cs)
  show ?case
  proof (cases "k < 2")
    case True
    then show ?thesis using "3.prems" by (cases k) auto
  next
    case False
    then obtain j where k: "k = Suc (Suc j)" by (metis add_2_eq_Suc less_eqE not_less)
    then show ?thesis using "3.prems" "3.IH" [of "Suc j"] by auto
  qed
qed (auto simp: take_Cons split: nat.split)

lemma plain_cut: "plain s \<Longrightarrow> plain (take k s @ ''...'')"
proof -
  assume p: "plain s"
  have "list_all printable (take k s @ ''...'')"
    using p by (auto simp: plain_def list_all_iff dest: in_set_takeD)
  moreover have "\<not> is_space (hd (take k s @ ''...''))"
    using p by (cases k; cases s) (auto simp: plain_def)
  ultimately show ?thesis using p tight_cut [of s k] by (simp add: plain_def)
qed

lemma bounded_text_length: "length (bounded_text limit fallback s) \<le> limit"
  by (auto simp: bounded_text_def Let_def)

lemma bounded_text_plain:
  "plain s \<Longrightarrow> s \<noteq> [] \<Longrightarrow> length s \<le> limit \<Longrightarrow> bounded_text limit fallback s = s"
  by (simp add: bounded_text_def one_line_plain)

lemma bounded_text_nonempty: "1 \<le> limit \<Longrightarrow> fallback \<noteq> [] \<Longrightarrow> bounded_text limit fallback s \<noteq> []"
  by (auto simp: bounded_text_def Let_def)

lemma plain_bounded_text: "plain fallback \<Longrightarrow> 3 < limit \<Longrightarrow> plain (bounded_text limit fallback s)"
  by (auto simp: bounded_text_def Let_def intro: plain_cut)

record failure_projector =
  fp_max_identifier_chars :: nat
  fp_max_reason_chars :: nat
  fp_max_message_chars :: nat

definition FailureProjector :: "int \<Rightarrow> int \<Rightarrow> int \<Rightarrow> failure_projector res" where
  "FailureProjector identifiers reasons messages = bindR (all_ok
     [require (1 \<le> identifiers) (ValueError ''max_identifier_chars must be at least 1''),
      require (1 \<le> reasons) (ValueError ''max_reason_chars must be at least 1''),
      require (1 \<le> messages) (ValueError ''max_message_chars must be at least 1'')])
     (\<lambda>_. Inr \<lparr>fp_max_identifier_chars = nat identifiers, fp_max_reason_chars = nat reasons,
               fp_max_message_chars = nat messages\<rparr>)"

definition default_projector :: failure_projector where
  "default_projector =
     \<lparr>fp_max_identifier_chars = 256, fp_max_reason_chars = 256, fp_max_message_chars = 512\<rparr>"

definition project :: "failure_projector \<Rightarrow> internal_tool_failure \<Rightarrow> bool \<Rightarrow> safe_failure_view res" where
  "project fp f include_safe_message =
     (let c = if_classification f in SafeToolFailureView
        \<lparr>sv_error_type = fc_error_type c,
         sv_view_reason = bounded_text (fp_max_reason_chars fp) (error_type_value (fc_error_type c))
           (fc_stable_reason c),
         sv_recovery = fc_recovery_directive c,
         sv_retryable = fc_retryable c,
         sv_call_id = bounded_text (fp_max_identifier_chars fp) ''unknown_call'' (if_call_id f),
         sv_tool_name = bounded_text (fp_max_identifier_chars fp) ''unknown_tool'' (if_tool_name f),
         sv_requested_arguments_fingerprint = if_requested_arguments_fingerprint f,
         sv_effective_arguments_fingerprint = if_effective_arguments_fingerprint f,
         sv_message = (if include_safe_message then
             map_option (bounded_text (fp_max_message_chars fp) ''Tool execution failed'')
               (fc_safe_message c)
           else None)\<rparr>)"

subsection \<open>Adapters\<close>

definition resolve_tool_safety_profile :: "'w tool \<Rightarrow> tool_safety_profile" where
  "resolve_tool_safety_profile tool = (case tl_safety_profile tool of
     Some p \<Rightarrow> p
   | None \<Rightarrow> \<lparr>sf_same_call_retry_safe = tl_idempotent tool,
       sf_changed_argument_repair_safe = tl_repair_safe tool,
       sf_timeout_retry_safe = tl_timeout_retry_safe tool\<rparr>)"

text \<open>\<^verbatim>\<open>ToolSafetyProfile()\<close>\<close>

definition unsafe_profile :: tool_safety_profile where
  "unsafe_profile = \<lparr>sf_same_call_retry_safe = False, sf_changed_argument_repair_safe = False,
     sf_timeout_retry_safe = False\<rparr>"

definition classification_from_tool_error ::
  "tool_error \<Rightarrow> string option \<Rightarrow> tool_failure_classification res" where
  "classification_from_tool_error e diagnostic =
     (let declared = (case te_reason e of None \<Rightarrow> error_type_value (te_type e)
        | Some r \<Rightarrow> if r = [] then error_type_value (te_type e) else r) in
      ToolFailureClassification (te_type e)
        (if stable_reason declared then declared else error_type_value (te_type e))
        (te_retryable e) (te_recovery e) (Some (te_message e)) diagnostic)"

definition default_message :: "tool_error_type \<Rightarrow> string" where
  "default_message t = (case t of
     NOT_FOUND \<Rightarrow> ''unknown tool''
   | INVALID_ARGUMENTS \<Rightarrow> ''invalid tool arguments''
   | UNAUTHORIZED \<Rightarrow> ''tool authorization failed''
   | TIMEOUT \<Rightarrow> ''tool timed out''
   | RESULT_TOO_LARGE \<Rightarrow> ''tool result is too large''
   | CANCELLED \<Rightarrow> ''tool execution was cancelled''
   | EXECUTION_ERROR \<Rightarrow> ''tool execution failed'')"

definition tool_error_from_classification :: "tool_failure_classification \<Rightarrow> tool_error res" where
  "tool_error_from_classification c = ToolError (fc_error_type c)
     (case fc_safe_message c of None \<Rightarrow> default_message (fc_error_type c)
      | Some m \<Rightarrow> if m = [] then default_message (fc_error_type c) else m)
     (fc_retryable c) [] (Some (fc_stable_reason c)) (fc_recovery_directive c)"

end
