(* ===== verification/Tool_Runtime.thy ===== *)
theory Tool_Runtime
  imports Tool_Failures
begin

text \<open>
  The Tool runtime (\<^verbatim>\<open>moduagent/tools/runtime.py\<close>): validation, repair constraints, authorization,
  attempts, classification of errors and the outcome of a batch.  Parameters of the runtime record
  stand for what is not in the repository or is supplied by the application: the Tools with their
  hooks, the authorizer, the diagnostic reporter, the canonical hash of arguments (\<^term>\<open>None\<close>: it
  raised) and the serialized size of a value.  \<^verbatim>\<open>asyncio.wait_for\<close> belongs to the invocation of a Tool,
  which gets the timeout and may answer \<^term>\<open>TX_timeout\<close>.  The clock is \<^const>\<open>now\<close>, in microseconds.
\<close>

subsection \<open>Repair constraints and outcomes\<close>

record repair_constraint =
  rp_failed_call_id :: string
  rp_expected_tool_name :: string
  rp_seen_call_ids :: "string set"
  rp_previous_requested_fingerprint :: string
  rp_previous_effective_fingerprint :: string

definition ToolRepairConstraint ::
  "string \<Rightarrow> string \<Rightarrow> string set \<Rightarrow> string \<Rightarrow> string \<Rightarrow> repair_constraint res" where
  "ToolRepairConstraint failed_id expected seen requested effective = bindR (all_ok
     [require (strip failed_id \<noteq> []) (ValueError ''failed_call_id cannot be empty''),
      require (strip expected \<noteq> []) (ValueError ''expected_tool_name cannot be empty''),
      require (\<forall>i \<in> seen. strip i \<noteq> []) (ValueError ''seen_call_ids cannot contain empty call IDs''),
      require (is_tool_argument_fingerprint requested)
        (ValueError ''previous_requested_fingerprint must use sha256''),
      require (is_tool_argument_fingerprint effective)
        (ValueError ''previous_effective_fingerprint must use sha256'')])
     (\<lambda>_. Inr \<lparr>rp_failed_call_id = strip failed_id, rp_expected_tool_name = strip expected,
        rp_seen_call_ids = seen, rp_previous_requested_fingerprint = requested,
        rp_previous_effective_fingerprint = effective\<rparr>)"

record tool_batch_outcome =
  ob_calls :: "tool_call list"
  ob_results :: "tool_result list"
  ob_failures :: "internal_tool_failure list"
  ob_views :: "safe_failure_view list"

definition view_matches :: "internal_tool_failure \<Rightarrow> safe_failure_view \<Rightarrow> bool" where
  "view_matches f v \<longleftrightarrow> (let c = if_classification f in
     sv_error_type v = fc_error_type c \<and> sv_recovery v = fc_recovery_directive c \<and>
     sv_retryable v = fc_retryable c \<and>
     sv_requested_arguments_fingerprint v = if_requested_arguments_fingerprint f \<and>
     sv_effective_arguments_fingerprint v = if_effective_arguments_fingerprint f)"

definition ToolBatchOutcome :: "tool_batch_outcome \<Rightarrow> tool_batch_outcome res" where
  "ToolBatchOutcome b =
     (let failed_results = filter (\<lambda>r. \<not> tr_success r) (ob_results b) in
      bindR (all_ok
        ([require (length (ob_calls b) = length (ob_results b))
            (ValueError ''Tool outcome call and result counts must match'')] @
         map (\<lambda>(c, r). require (tr_call_id r = tk_id c \<and> tr_tool_name r = tk_name c)
            (ValueError ''Tool outcome result identity does not match its call''))
           (zip (ob_calls b) (ob_results b)) @
         [require (length (ob_failures b) = length failed_results)
            (ValueError ''Tool outcome failures do not match failed results''),
          require (length (ob_views b) = length (ob_failures b))
            (ValueError ''Tool outcome safe views do not match failures'')] @
         concat (map (\<lambda>(r, f, v).
           [require ((tr_call_id r, tr_tool_name r) = (if_call_id f, if_tool_name f))
              (ValueError ''Tool failure identity does not match its result''),
            require ((tr_call_id r, tr_tool_name r) = (sv_call_id v, sv_tool_name v))
              (ValueError ''Tool failure view identity does not match its result''),
            require (view_matches f v)
              (ValueError ''Tool failure view does not match its classification'')])
           (zip failed_results (zip (ob_failures b) (ob_views b))))))
      (\<lambda>_. Inr b))"

definition success_count :: "tool_batch_outcome \<Rightarrow> nat" where
  "success_count b = length (filter tr_success (ob_results b))"

definition failure_count :: "tool_batch_outcome \<Rightarrow> nat" where
  "failure_count b = length (ob_results b) - success_count b"

definition partial_success :: "tool_batch_outcome \<Rightarrow> bool" where
  "partial_success b \<longleftrightarrow> 0 < success_count b \<and> 0 < failure_count b"

definition retry_exhausted :: "tool_batch_outcome \<Rightarrow> bool" where
  "retry_exhausted b \<longleftrightarrow> list_ex if_same_call_retry_exhausted (ob_failures b)"

record call_execution =
  ce_result :: tool_result
  ce_failure :: "internal_tool_failure option"

subsection \<open>The runtime\<close>

record retry_config =
  ry_max_attempts :: int
  ry_initial_delay :: rat
  ry_max_delay :: rat
  ry_backoff_factor :: rat

definition RetryConfig :: "retry_config \<Rightarrow> retry_config res" where
  "RetryConfig r = bindR (all_ok
     [require (1 \<le> ry_max_attempts r) (ValueError ''max_attempts must be at least 1''),
      require (\<not> (ry_initial_delay r < 0 \<or> ry_max_delay r < 0)) (ValueError ''retry delays cannot be negative''),
      require (1 \<le> ry_backoff_factor r) (ValueError ''backoff_factor must be at least 1'')])
     (\<lambda>_. Inr r)"

definition delay_for :: "retry_config \<Rightarrow> int \<Rightarrow> rat" where
  "delay_for r failed_attempt =
     min (ry_initial_delay r * ry_backoff_factor r ^ nat (max 0 (failed_attempt - 1))) (ry_max_delay r)"

record diagnostic_report =
  dr_exception :: tool_exn
  dr_context :: tool_context
  dr_call :: tool_call
  dr_operation :: string
  dr_category :: string
  dr_code :: string
  dr_retryable :: bool
  dr_attempt :: "int option"

record 'w tool_runtime =
  rt_registry :: "'w tool tool_registry"
  rt_authorize :: "'w tool \<Rightarrow> (string, pyval) dict \<Rightarrow> tool_context \<Rightarrow> 'w \<Rightarrow> (tool_exn + auth_answer) \<times> 'w"
  rt_retry :: retry_config
  rt_projector :: failure_projector
  rt_reporter :: "(diagnostic_report \<Rightarrow> 'w \<Rightarrow> (tool_exn + string option) \<times> 'w) option"
  rt_default_timeout_seconds :: "rat option"
  rt_max_result_bytes :: "int option"
  rt_fingerprint :: "(string, pyval) dict \<Rightarrow> string option"
  rt_serialized_size :: "pyval \<Rightarrow> int"

definition repair_constraint_error ::
  "'w tool_runtime \<Rightarrow> tool_call list \<Rightarrow> repair_constraint option \<Rightarrow> (string \<times> string) option" where
  "repair_constraint_error rt calls constraint = (case constraint of
     None \<Rightarrow> None
   | Some c \<Rightarrow>
       if length calls \<noteq> 1
       then Some (''invalid_repair_call_count'', ''tool repair must contain exactly one call'')
       else let call = hd calls in
         if tk_name call \<noteq> rp_expected_tool_name c
         then Some (''different_repair_tool'', ''tool repair must call the same Tool'')
         else if tk_id call = rp_failed_call_id c \<or> tk_id call \<in> rp_seen_call_ids c
         then Some (''reused_tool_call_id'', ''tool repair must use a new unique call ID'')
         else case rt_fingerprint rt (tk_arguments call) of
           None \<Rightarrow> Some (''invalid_arguments'', ''tool repair arguments must be canonical JSON'')
         | Some fingerprint \<Rightarrow>
             if fingerprint = rp_previous_requested_fingerprint c
             then Some (''unchanged_repair_arguments'', ''tool repair must change the requested arguments'')
             else None)"

definition internal_failure ::
  "tool_result \<Rightarrow> tool_safety_profile \<Rightarrow> string option \<Rightarrow> string option \<Rightarrow> bool \<Rightarrow> string option \<Rightarrow>
   string option \<Rightarrow> bool \<Rightarrow> internal_tool_failure res" where
  "internal_failure result profile requested effective exhausted diagnostic failure_id declared =
     (case tr_error result of
        None \<Rightarrow> Inl (ValueError ''failed Tool result must include an error'')
      | Some error \<Rightarrow>
          bindR (classification_from_tool_error error diagnostic) (\<lambda>c.
          bindR (if declared then Inr c
             else ToolFailureClassification (fc_error_type c) (fc_stable_reason c) (fc_retryable c)
               (fc_recovery_directive c) None (fc_diagnostic_ref c)) (\<lambda>c'.
          InternalToolFailure
            \<lparr>if_call_id = tr_call_id result, if_tool_name = tr_tool_name result, if_classification = c',
             if_safety_profile = profile, if_requested_arguments_fingerprint = requested,
             if_effective_arguments_fingerprint = effective, if_attempts = tr_attempts result,
             if_same_call_retry_exhausted = exhausted, if_diagnostic_ref = diagnostic,
             if_failure_id = failure_id\<rparr>)))"

text \<open>
  The pair of a failed result and its internal failure that every refusing branch returns; the record
  names the keyword arguments that differ.
\<close>

record refusal =
  rf_attempts :: int
  rf_arguments :: "(string, pyval) dict option"
  rf_repair_safe :: bool
  rf_effective :: "string option"
  rf_exhausted :: bool
  rf_diagnostic :: "string option"
  rf_failure_id :: "string option"
  rf_declared :: bool

definition plain_refusal :: "bool \<Rightarrow> refusal" where
  "plain_refusal repair_safe = \<lparr>rf_attempts = 0, rf_arguments = None, rf_repair_safe = repair_safe,
     rf_effective = None, rf_exhausted = False, rf_diagnostic = None, rf_failure_id = None,
     rf_declared = False\<rparr>"

definition refuse ::
  "tool_call \<Rightarrow> tool_error res \<Rightarrow> rat \<Rightarrow> tool_safety_profile \<Rightarrow> string option \<Rightarrow> refusal \<Rightarrow> call_execution res" where
  "refuse call error duration profile requested rf =
     bindR error (\<lambda>e.
     bindR (failed (tk_id call) (tk_name call) e (rf_attempts rf) duration (rf_arguments rf)
       (rf_repair_safe rf)) (\<lambda>result.
     bindR (internal_failure result profile requested (rf_effective rf) (rf_exhausted rf)
       (rf_diagnostic rf) (rf_failure_id rf) (rf_declared rf)) (\<lambda>f.
     Inr \<lparr>ce_result = result, ce_failure = Some f\<rparr>)))"

definition repair_rejection :: "'w tool_runtime \<Rightarrow> tool_call \<Rightarrow> string \<times> string \<Rightarrow> call_execution res" where
  "repair_rejection rt call failure =
     (let profile = (case get_tool (rt_registry rt) (tk_name call) of
        Some tool \<Rightarrow> resolve_tool_safety_profile tool | None \<Rightarrow> unsafe_profile) in
      refuse call (ToolError INVALID_ARGUMENTS (snd failure) False [] (Some (fst failure)) (Some REPAIR_CALL))
        0 profile (rt_fingerprint rt (tk_arguments call))
        (plain_refusal (sf_changed_argument_repair_safe profile)))"

definition capture_diagnostic ::
  "'w tool_runtime \<Rightarrow> diagnostic_report \<Rightarrow> ('w, string option) prog" where
  "capture_diagnostic rt report = (\<lambda>w. case rt_reporter rt of
     None \<Rightarrow> (Inr None, w)
   | Some capture \<Rightarrow> (case capture report w of
       (Inl e, w') \<Rightarrow> (if e = TX_cancelled then Inl CancelledError else Inr None, w')
     | (Inr None, w') \<Rightarrow> (Inr None, w')
     | (Inr (Some i), w') \<Rightarrow> (Inr (if strip i = [] then None else Some (strip i)), w')))"

text \<open>The event callback of a delegated Tool is a function and not among the values of the metadata.\<close>

definition scoped_tool_context :: "'w tool \<Rightarrow> tool_call \<Rightarrow> tool_context \<Rightarrow> tool_context" where
  "scoped_tool_context tool call c =
     (let parent_key = ''_moduagent_parent_delegation_context'';
          parent = dget_or (tc_metadata c) parent_key PNone;
          metadata = AList.delete parent_key
            (AList.delete ''_moduagent_delegation_event_callback'' (tc_metadata c)) in
      c\<lparr>tc_metadata := (if tl_delegated tool \<and> parent \<noteq> PNone then dset parent_key parent metadata
          else metadata),
        tc_tool_call_id := Some (tk_id call), tc_attempt := 1\<rparr>)"

definition result_size_limit :: "'w tool_runtime \<Rightarrow> 'w tool \<Rightarrow> int option" where
  "result_size_limit rt tool = (case (rt_max_result_bytes rt, tl_max_result_bytes tool) of
     (None, None) \<Rightarrow> None | (Some a, None) \<Rightarrow> Some a | (None, Some b) \<Rightarrow> Some b
   | (Some a, Some b) \<Rightarrow> Some (min a b))"

subsection \<open>Classification of what a Tool raised\<close>

record classified_tool_error =
  ct_error :: tool_error
  ct_safe_message_declared :: bool
  ct_diagnostic_error :: tool_exn
  ct_diagnostic_operation :: string
  ct_diagnostic_category :: string

definition classified ::
  "tool_error res \<Rightarrow> bool \<Rightarrow> tool_exn \<Rightarrow> string \<Rightarrow> string \<Rightarrow> classified_tool_error res" where
  "classified error declared e operation category = bindR error (\<lambda>err.
     Inr \<lparr>ct_error = err, ct_safe_message_declared = declared, ct_diagnostic_error = e,
          ct_diagnostic_operation = operation, ct_diagnostic_category = category\<rparr>)"

definition execution_error :: "string \<Rightarrow> (string, pyval) dict \<Rightarrow> string \<Rightarrow> tool_error res" where
  "execution_error message details reason =
     ToolError EXECUTION_ERROR message False details (Some reason) (Some RA_FAIL)"

definition timeout_details :: "rat option \<Rightarrow> (string, pyval) dict" where
  "timeout_details t = [(''timeout_seconds'', case t of None \<Rightarrow> PNone | Some s \<Rightarrow> PFloat s)]"

text \<open>The two hooks in turn; \<^term>\<open>None\<close>: neither decides.\<close>

definition classify_by_classifier ::
  "'w tool \<Rightarrow> tool_exn \<Rightarrow> classified_tool_error res option" where
  "classify_by_classifier tool e = (case tl_failure_classifier tool of
     None \<Rightarrow> None
   | Some classifier \<Rightarrow> (case classifier e of
       H_raise e' \<Rightarrow> Some (if e' = TX_cancelled then Inl CancelledError
         else classified (execution_error ''tool failure classifier failed''
             [(''exception_type'', PStr (exn_name e'))] ''failure_classifier_failed'')
           False e' ''classify_failure'' ''tool_classification'')
     | H_none \<Rightarrow> None
     | H_value c \<Rightarrow> Some (classified (tool_error_from_classification c) True e ''invoke'' ''tool_invocation'')
     | H_invalid name \<Rightarrow> Some (classified (execution_error
           ''tool failure classifier returned an invalid result'' [(''result_type'', PStr name)]
           ''invalid_failure_classifier_result'')
         False e ''classify_failure'' ''tool_classification'')))"

definition classify_by_mapper :: "'w tool \<Rightarrow> tool_exn \<Rightarrow> classified_tool_error res option" where
  "classify_by_mapper tool e = (case tl_error_mapper tool of
     None \<Rightarrow> None
   | Some mapper \<Rightarrow> (case mapper e of
       H_raise e' \<Rightarrow> Some (if e' = TX_cancelled then Inl CancelledError
         else classified (execution_error ''tool error mapper failed''
             [(''exception_type'', PStr (exn_name e'))] ''error_mapper_failed'')
           False e' ''map_error'' ''tool_error_mapping'')
     | H_none \<Rightarrow> None
     | H_value err \<Rightarrow> Some (classified (Inr err) False e ''invoke'' ''tool_invocation'')
     | H_invalid name \<Rightarrow> Some (classified (execution_error
           ''tool error mapper returned an invalid result'' [(''result_type'', PStr name)]
           ''invalid_error_mapper_result'')
         False e ''map_error'' ''tool_error_mapping'')))"

definition classify_error ::
  "'w tool \<Rightarrow> tool_exn \<Rightarrow> rat option \<Rightarrow> tool_safety_profile \<Rightarrow> classified_tool_error res" where
  "classify_error tool e timeout profile =
     (if e = TX_timeout \<and> \<not> sf_timeout_retry_safe profile then
        classified (ToolError TIMEOUT (''tool timed out: '' @ tl_name tool) False (timeout_details timeout)
          (Some ''uncancellable_timeout'') (Some RA_FAIL)) True e ''invoke'' ''tool_invocation''
      else case e of
        TX_failure err \<Rightarrow> classified (Inr err) False e ''invoke'' ''tool_invocation''
      | _ \<Rightarrow> (case classify_by_classifier tool e of
          Some r \<Rightarrow> r
        | None \<Rightarrow> (case classify_by_mapper tool e of
            Some r \<Rightarrow> r
          | None \<Rightarrow>
              if e = TX_timeout then
                (let retryable = (sf_same_call_retry_safe profile \<and> sf_timeout_retry_safe profile) in
                 classified (ToolError TIMEOUT (''tool timed out: '' @ tl_name tool) retryable
                   (timeout_details timeout) (Some ''tool_timeout'')
                   (Some (if retryable then RETRY_CALL else RA_FAIL))) True e ''invoke'' ''tool_invocation'')
              else classified (ToolError EXECUTION_ERROR (''tool execution failed: '' @ exn_text e)
                 (sf_same_call_retry_safe profile) [(''exception_type'', PStr (exn_name e))] None None)
                 False e ''invoke'' ''tool_invocation'')))"

subsection \<open>Attempts\<close>

text \<open>An exception of the runtime's own code inside the \<^verbatim>\<open>try\<close> block of an attempt.\<close>

fun as_tool_exn :: "exn \<Rightarrow> tool_exn" where
  "as_tool_exn (ValueError m) = TX_other ''ValueError'' m"
| "as_tool_exn (TypeError m) = TX_other ''TypeError'' m"
| "as_tool_exn CancelledError = TX_cancelled"
| "as_tool_exn _ = TX_other ''Exception'' []"

definition seconds_since :: "'a sched_scheme \<Rightarrow> int \<Rightarrow> rat" where
  "seconds_since w started = of_int (now w - started) / 1000000"

text \<open>
  The end of the \<^verbatim>\<open>try\<close> block: a value within the size limit becomes a result, a larger one is refused;
  an exception of these constructors is caught with those of the Tool.
\<close>

definition accept_value ::
  "'w tool_runtime \<Rightarrow> 'w tool \<Rightarrow> tool_call \<Rightarrow> (string, pyval) dict \<Rightarrow> tool_safety_profile \<Rightarrow> string option \<Rightarrow>
   string option \<Rightarrow> int \<Rightarrow> rat \<Rightarrow> pyval \<Rightarrow> call_execution res" where
  "accept_value rt tool call arguments profile requested effective attempt duration value =
     (let safe = sf_changed_argument_repair_safe profile;
          size = rt_serialized_size rt value in
      case result_size_limit rt tool of
        Some limit \<Rightarrow>
          if limit < size then
            refuse call (ToolError RESULT_TOO_LARGE
                (''tool result exceeds '' @ decimal (nat limit) @ '' bytes'') False
                [(''actual_bytes'', PInt size), (''max_bytes'', PInt limit)]
                (if safe then Some ''result_too_large'' else None)
                (if safe then Some REPAIR_CALL else None))
              duration profile requested
              ((plain_refusal safe)\<lparr>rf_attempts := attempt, rf_arguments := Some arguments,
                 rf_effective := effective\<rparr>)
          else bindR (succeeded (tk_id call) (tk_name call) value attempt duration (Some arguments) safe)
            (\<lambda>r. Inr \<lparr>ce_result = r, ce_failure = None\<rparr>)
      | None \<Rightarrow> bindR (succeeded (tk_id call) (tk_name call) value attempt duration (Some arguments) safe)
            (\<lambda>r. Inr \<lparr>ce_result = r, ce_failure = None\<rparr>))"

definition attempt_once ::
  "'a sched_scheme tool_runtime \<Rightarrow> 'a sched_scheme tool \<Rightarrow> tool_call \<Rightarrow> tool_context \<Rightarrow>
   (string, pyval) dict \<Rightarrow> tool_safety_profile \<Rightarrow> string option \<Rightarrow> string option \<Rightarrow> int \<Rightarrow> rat option \<Rightarrow> int \<Rightarrow>
   'a sched_scheme \<Rightarrow> (tool_exn + call_execution) \<times> 'a sched_scheme" where
  "attempt_once rt tool call context arguments profile requested effective started timeout attempt = (\<lambda>w.
     case tl_invoke tool timeout arguments context w of
       (Inl e, w') \<Rightarrow> (Inl e, w')
     | (Inr value, w') \<Rightarrow>
         (case accept_value rt tool call arguments profile requested effective attempt
            (seconds_since w' started) value of
            Inl e \<Rightarrow> Inl (as_tool_exn e) | Inr x \<Rightarrow> Inr x, w'))"

definition retry_safe :: "tool_safety_profile \<Rightarrow> tool_error \<Rightarrow> bool" where
  "retry_safe profile error \<longleftrightarrow> sf_same_call_retry_safe profile \<and> te_retryable error \<and>
     te_recovery error \<in> {None, Some RETRY_CALL} \<and>
     (te_type error \<noteq> TIMEOUT \<or> sf_timeout_retry_safe profile)"

definition final_failure ::
  "'a sched_scheme tool_runtime \<Rightarrow> tool_call \<Rightarrow> tool_context \<Rightarrow> (string, pyval) dict \<Rightarrow> tool_safety_profile \<Rightarrow>
   string option \<Rightarrow> string option \<Rightarrow> int \<Rightarrow> int \<Rightarrow> bool \<Rightarrow> tool_exn \<Rightarrow> classified_tool_error \<Rightarrow>
   ('a sched_scheme, call_execution) prog" where
  "final_failure rt call context arguments profile requested effective started attempt exhausted e ct =
     bindP (ofR (classification_from_tool_error (ct_error ct) None)) (\<lambda>c.
     bindP (capture_diagnostic rt \<lparr>dr_exception = ct_diagnostic_error ct, dr_context = context,
       dr_call = call, dr_operation = ct_diagnostic_operation ct, dr_category = ct_diagnostic_category ct,
       dr_code = fc_stable_reason c, dr_retryable = fc_retryable c, dr_attempt = Some attempt\<rparr>) (\<lambda>failure_id.
     bindP (readP (\<lambda>w. seconds_since w started)) (\<lambda>duration.
     ofR (refuse call (Inr (ct_error ct)) duration profile requested
       ((plain_refusal (sf_changed_argument_repair_safe profile))
         \<lparr>rf_attempts := attempt, rf_arguments := Some arguments, rf_effective := effective,
          rf_exhausted := exhausted,
          rf_diagnostic := Some (case failure_id of None \<Rightarrow> exn_name e | Some i \<Rightarrow> i),
          rf_failure_id := failure_id, rf_declared := ct_safe_message_declared ct\<rparr>)))))"

primrec attempt_loop ::
  "'a sched_scheme env \<Rightarrow> nat \<Rightarrow> 'a sched_scheme tool_runtime \<Rightarrow> 'a sched_scheme tool \<Rightarrow> tool_call \<Rightarrow>
   tool_context \<Rightarrow> (string, pyval) dict \<Rightarrow> tool_safety_profile \<Rightarrow> string option \<Rightarrow> string option \<Rightarrow> int \<Rightarrow>
   rat option \<Rightarrow> int \<Rightarrow> int \<Rightarrow> ('a sched_scheme, call_execution) prog" where
  "attempt_loop E 0 rt tool call context arguments profile requested effective started timeout attempts
     attempt = raise (OtherException ''tool execution loop ended unexpectedly'')"
| "attempt_loop E (Suc n) rt tool call context arguments profile requested effective started timeout
     attempts attempt =
     bindP (ofR (for_call (tk_id call) attempt context)) (\<lambda>attempt_context. (\<lambda>w.
       case attempt_once rt tool call attempt_context arguments profile requested effective started
         timeout attempt w of
         (Inr x, w') \<Rightarrow> (Inr x, w')
       | (Inl e, w') \<Rightarrow>
           (if e = TX_cancelled then raise CancelledError
            else bindP (ofR (classify_error tool e timeout profile)) (\<lambda>ct.
              if retry_safe profile (ct_error ct) \<and> attempt < attempts
              then bindP (if delay_for (rt_retry rt) attempt \<noteq> 0 then modifyP (await E) else ret ())
                (\<lambda>_. attempt_loop E n rt tool call context arguments profile requested effective started
                  timeout attempts (attempt + 1))
              else final_failure rt call attempt_context arguments profile requested effective started
                attempt (retry_safe profile (ct_error ct) \<and> attempts \<le> attempt) e ct)) w'))"

subsection \<open>One call\<close>

definition tool_repair_metadata_key :: string where
  "tool_repair_metadata_key = ''_moduagent_tool_repair''"

text \<open>The precondition that older checkpoints put into the metadata.\<close>

definition legacy_repair_unchanged :: "tool_context \<Rightarrow> tool_call \<Rightarrow> string option \<Rightarrow> bool" where
  "legacy_repair_unchanged c call effective \<longleftrightarrow>
     (case dget (tc_metadata c) tool_repair_metadata_key of
        Some (PDict d) \<Rightarrow> dget_or d ''tool_name'' PNone = PStr (tk_name call) \<and>
          dget_or d ''invocation_fingerprint'' PNone = (case effective of None \<Rightarrow> PNone | Some s \<Rightarrow> PStr s)
      | _ \<Rightarrow> False)"

definition unchanged_effective_arguments ::
  "tool_call \<Rightarrow> (string, pyval) dict \<Rightarrow> tool_safety_profile \<Rightarrow> string option \<Rightarrow> string option \<Rightarrow> rat \<Rightarrow> bool \<Rightarrow>
   call_execution res" where
  "unchanged_effective_arguments call arguments profile requested effective duration declared =
     refuse call (ToolError INVALID_ARGUMENTS ''tool repair must change the effective arguments'' False []
         (Some ''unchanged_repair_arguments'') (Some REPAIR_CALL))
       duration profile requested
       ((plain_refusal (sf_changed_argument_repair_safe profile))
         \<lparr>rf_arguments := Some arguments, rf_effective := effective, rf_declared := declared\<rparr>)"

definition unauthorized :: "string \<Rightarrow> string \<Rightarrow> tool_error res" where
  "unauthorized message reason = ToolError UNAUTHORIZED message False [] (Some reason) (Some RA_FAIL)"

text \<open>What the runtime does with the answer of the authorizer; the invocation is the continuation.\<close>

definition authorized ::
  "'a sched_scheme tool_runtime \<Rightarrow> 'a sched_scheme tool \<Rightarrow> tool_call \<Rightarrow> tool_context \<Rightarrow>
   (string, pyval) dict \<Rightarrow> tool_safety_profile \<Rightarrow> string option \<Rightarrow> string option \<Rightarrow> int \<Rightarrow>
   ('a sched_scheme, call_execution) prog \<Rightarrow> ('a sched_scheme, call_execution) prog" where
  "authorized rt tool call context arguments profile requested effective started invoke = (\<lambda>w.
     let rf = (plain_refusal (sf_changed_argument_repair_safe profile))\<lparr>rf_effective := effective\<rparr>;
         deny = (\<lambda>error rf'. bindP (readP (\<lambda>w. seconds_since w started)) (\<lambda>duration.
           ofR (refuse call error duration profile requested rf'))) in
     case rt_authorize rt tool arguments context w of
       (Inl e, w') \<Rightarrow>
         (if e = TX_cancelled then (Inl CancelledError, w')
          else bindP (capture_diagnostic rt \<lparr>dr_exception = e, dr_context = context, dr_call = call,
              dr_operation = ''authorize'', dr_category = ''tool_authorization'',
              dr_code = ''authorization_backend_failed'', dr_retryable = False, dr_attempt = None\<rparr>)
            (\<lambda>failure_id. deny (unauthorized ''tool authorization failed'' ''authorization_failed'')
              (rf\<lparr>rf_diagnostic := Some (case failure_id of None \<Rightarrow> exn_name e | Some i \<Rightarrow> i),
                  rf_failure_id := failure_id\<rparr>)) w')
     | (Inr answer, w') \<Rightarrow>
         (case (case answer of AA_bool b \<Rightarrow> Some b | AA_decision b _ \<Rightarrow> Some b | AA_other \<Rightarrow> None) of
            None \<Rightarrow> deny (unauthorized ''tool authorizer returned an invalid decision''
              ''invalid_authorization_decision'') rf w'
          | Some False \<Rightarrow> deny (unauthorized (''not authorized to call tool: '' @ tk_name call)
              ''authorization_denied'') (rf\<lparr>rf_declared := True\<rparr>) w'
          | Some True \<Rightarrow> invoke w'))"

definition execute_validated ::
  "'a sched_scheme env \<Rightarrow> 'a sched_scheme tool_runtime \<Rightarrow> 'a sched_scheme tool \<Rightarrow> tool_call \<Rightarrow> tool_context \<Rightarrow>
   repair_constraint option \<Rightarrow> (string, pyval) dict \<Rightarrow> tool_safety_profile \<Rightarrow> string option \<Rightarrow> int \<Rightarrow>
   ('a sched_scheme, call_execution) prog" where
  "execute_validated E rt tool call context constraint arguments profile requested started =
     (let effective = rt_fingerprint rt arguments in
      if (case constraint of None \<Rightarrow> False
          | Some c \<Rightarrow> effective = Some (rp_previous_effective_fingerprint c))
      then bindP (readP (\<lambda>w. seconds_since w started)) (\<lambda>duration. ofR (unchanged_effective_arguments call
        arguments profile requested effective duration True))
      else if legacy_repair_unchanged context call effective
      then bindP (readP (\<lambda>w. seconds_since w started)) (\<lambda>duration. ofR (unchanged_effective_arguments call
        arguments profile requested effective duration False))
      else
        let attempts = (if sf_same_call_retry_safe profile then ry_max_attempts (rt_retry rt) else 1);
            timeout = (case tl_timeout_seconds tool of None \<Rightarrow> rt_default_timeout_seconds rt | t \<Rightarrow> t) in
        authorized rt tool call context arguments profile requested effective started
          (attempt_loop E (nat attempts) rt tool call context arguments profile requested effective
             started timeout attempts 1))"

definition execute_one ::
  "'a sched_scheme env \<Rightarrow> 'a sched_scheme tool_runtime \<Rightarrow> tool_call \<Rightarrow> tool_context \<Rightarrow>
   repair_constraint option \<Rightarrow> ('a sched_scheme, call_execution) prog" where
  "execute_one E rt call context constraint = (\<lambda>w.
     let started = now w; requested = rt_fingerprint rt (tk_arguments call) in
     case get_tool (rt_registry rt) (tk_name call) of
       None \<Rightarrow> (refuse call (ToolError NOT_FOUND (''unknown tool: '' @ tk_name call) False []
           (Some ''unknown_tool'') (Some RA_FAIL)) 0 unsafe_profile requested (plain_refusal False), w)
     | Some tool \<Rightarrow>
         let profile = resolve_tool_safety_profile tool; safe = sf_changed_argument_repair_safe profile;
             invalid = (\<lambda>details name. refuse call
               (ToolError INVALID_ARGUMENTS (''invalid arguments for tool '' @ tk_name call) False details
                  (Some ''invalid_arguments'') (Some REPAIR_CALL))
               0 profile requested ((plain_refusal safe)\<lparr>rf_diagnostic := Some name\<rparr>)) in
         if constraint \<noteq> None \<and> \<not> safe then
           (refuse call (ToolError EXECUTION_ERROR ''tool is not safe for changed-argument repair'' False []
              (Some ''tool_repair_not_safe'') (Some RA_FAIL)) 0 profile requested (plain_refusal False), w)
         else case tl_validate tool (tk_arguments call) of
           V_raise e \<Rightarrow> (Inl e, w)
         | V_invalid errors \<Rightarrow> (invalid [(''errors'', errors)] ''ValidationError'', w)
         | V_rejected name \<Rightarrow> (invalid [] name, w)
         | V_ok arguments \<Rightarrow> execute_validated E rt tool call (scoped_tool_context tool call context)
             constraint arguments profile requested started w)"

definition execute_call ::
  "'a sched_scheme env \<Rightarrow> 'a sched_scheme tool_runtime \<Rightarrow> tool_call \<Rightarrow> tool_context \<Rightarrow>
   repair_constraint option \<Rightarrow> ('a sched_scheme, tool_result) prog" where
  "execute_call E rt call context constraint =
     bindP (case repair_constraint_error rt [call] constraint of
         Some failure \<Rightarrow> ofR (repair_rejection rt call failure)
       | None \<Rightarrow> execute_one E rt call context constraint) (\<lambda>x. ret (ce_result x))"

subsection \<open>A batch\<close>

definition batch_outcome ::
  "'w tool_runtime \<Rightarrow> tool_call list \<Rightarrow> call_execution list \<Rightarrow> tool_batch_outcome res" where
  "batch_outcome rt calls executions =
     (let failures = List.map_filter ce_failure executions in
      bindR (mapR (\<lambda>f. project (rt_projector rt) f True) failures) (\<lambda>views.
      ToolBatchOutcome \<lparr>ob_calls = calls, ob_results = map ce_result executions,
        ob_failures = failures, ob_views = views\<rparr>))"

fun in_order :: "('b \<Rightarrow> ('w, 'c) prog) \<Rightarrow> 'b list \<Rightarrow> ('w, 'c list) prog" where
  "in_order f [] = ret []"
| "in_order f (x # xs) = bindP (f x) (\<lambda>y. bindP (in_order f xs) (\<lambda>ys. ret (y # ys)))"

text \<open>\<^verbatim>\<open>execute_many\<close> with \<^verbatim>\<open>parallel=False\<close>.\<close>

definition execute_many ::
  "'a sched_scheme env \<Rightarrow> 'a sched_scheme tool_runtime \<Rightarrow> tool_call list \<Rightarrow> tool_context \<Rightarrow>
   repair_constraint option \<Rightarrow> ('a sched_scheme, tool_batch_outcome) prog" where
  "execute_many E rt calls context constraint =
     (case repair_constraint_error rt calls constraint of
        Some failure \<Rightarrow>
          if calls = [] then raise (ValueError (snd failure))
          else bindP (ofR (mapR (\<lambda>call. repair_rejection rt call failure) calls))
            (\<lambda>executions. ofR (batch_outcome rt calls executions))
      | None \<Rightarrow> bindP (in_order (\<lambda>call. execute_one E rt call context constraint) calls)
          (\<lambda>executions. ofR (batch_outcome rt calls executions)))"

end
