(* ===== verification/Tool_Runtime_Props.thy ===== *)
theory Tool_Runtime_Props
  imports Tool_Runtime
begin

text \<open>
  When a Tool is invoked and how often, what a repair constraint prevents, what crosses the
  projection boundary, and when a batch of calls has an outcome.
\<close>

subsection \<open>Failed executions\<close>

definition failed_execution :: "tool_call \<Rightarrow> call_execution \<Rightarrow> bool" where
  "failed_execution call x \<longleftrightarrow> (\<exists>f. ce_failure x = Some f \<and> \<not> tr_success (ce_result x) \<and>
     tr_call_id (ce_result x) = tk_id call \<and> tr_tool_name (ce_result x) = tk_name call \<and>
     if_call_id f = tk_id call \<and> if_tool_name f = tk_name call)"

lemma internal_failure_identity:
  "internal_failure r profile rq ef ex dg fi dc = Inr f \<Longrightarrow>
     if_call_id f = tr_call_id r \<and> if_tool_name f = tr_tool_name r \<and> if_attempts f = tr_attempts r"
  by (auto simp: internal_failure_def bindR_Inr_iff InternalToolFailure_def split: option.splits)

lemma failed_result:
  "failed i n e k d a s = Inr r \<Longrightarrow> \<not> tr_success r \<and> tr_call_id r = i \<and> tr_tool_name r = n \<and>
     tr_attempts r = k \<and> tr_error r = Some e"
  by (auto simp: failed_def ToolResult_def bindR_Inr_iff)

lemma refuse_failed:
  "refuse call e d profile rq rf = Inr x \<Longrightarrow>
     failed_execution call x \<and> tr_attempts (ce_result x) = rf_attempts rf"
  by (auto simp: refuse_def bindR_Inr_iff failed_execution_def dest!: failed_result internal_failure_identity)

lemma repair_rejection_failed: "repair_rejection rt call failure = Inr x \<Longrightarrow> failed_execution call x"
  by (auto simp: repair_rejection_def Let_def dest: refuse_failed)

subsection \<open>Running the parts\<close>

lemma capture_run:
  obtains (plain) i where "rt_reporter rt = None" "capture_diagnostic rt d w = (Inr i, w)"
  | (reported) capture r where "rt_reporter rt = Some capture"
      "capture_diagnostic rt d w = (r, snd (capture d w))"
      "r = Inl CancelledError \<and> fst (capture d w) = Inl TX_cancelled \<or> (\<exists>i. r = Inr i)"
proof (cases "rt_reporter rt")
  case None
  then show ?thesis using plain by (simp add: capture_diagnostic_def)
next
  case (Some capture)
  obtain a w' where a: "capture d w = (a, w')" by (cases "capture d w")
  show ?thesis
  proof (cases a)
    case (Inl e)
    then show ?thesis using reported [OF Some] Some a by (auto simp: capture_diagnostic_def split: if_splits)
  next
    case (Inr i)
    then show ?thesis using reported [OF Some] Some a by (cases i) (auto simp: capture_diagnostic_def)
  qed
qed

text \<open>
  What every party other than the Tools keeps: a relation between worlds that the authorizer and the
  reporter keep, is kept by everything around the invocations.
\<close>

definition services_keep :: "('w \<Rightarrow> 'w \<Rightarrow> bool) \<Rightarrow> 'w tool_runtime \<Rightarrow> bool" where
  "services_keep R rt \<longleftrightarrow> reflp R \<and> transp R \<and>
     (\<forall>tool arguments c w. R w (snd (rt_authorize rt tool arguments c w))) \<and>
     (\<forall>capture d w. rt_reporter rt = Some capture \<longrightarrow> R w (snd (capture d w)))"

lemma services_refl: "services_keep R rt \<Longrightarrow> R w w"
  by (simp add: services_keep_def reflp_def)

lemma services_trans: "services_keep R rt \<Longrightarrow> R u v \<Longrightarrow> R v w \<Longrightarrow> R u w"
  unfolding services_keep_def by (blast dest: transpD)

lemma capture_keeps: "services_keep R rt \<Longrightarrow> R w (snd (capture_diagnostic rt d w))"
  by (rule capture_run [of rt d w]) (auto simp: services_keep_def reflp_def)

definition allows :: "auth_answer \<Rightarrow> bool" where
  "allows a \<longleftrightarrow> (case a of AA_bool b \<Rightarrow> b | AA_decision b _ \<Rightarrow> b | AA_other \<Rightarrow> False)"

lemma authorized_keeps:
  assumes keep: "services_keep R rt"
    and invoke: "\<And>w'. (\<exists>a. fst (rt_authorize rt tool arguments context w) = Inr a \<and> allows a) \<Longrightarrow>
      w' = snd (rt_authorize rt tool arguments context w) \<Longrightarrow> R w' (snd (invoke w'))"
  shows "R w (snd (authorized rt tool call context arguments profile rq ef started invoke w))"
proof -
  obtain r w1 where auth: "rt_authorize rt tool arguments context w = (r, w1)" by fastforce
  have w1: "R w w1" using keep auth unfolding services_keep_def by (metis snd_conv)
  show ?thesis
  proof (cases r)
    case (Inl e)
    then show ?thesis
      using w1 auth services_trans [OF keep w1 capture_keeps [OF keep]]
      by (auto simp: authorized_def Let_def bindP_run readP_def ofR_def split: prod.split sum.split)
        (metis snd_conv)+
  next
    case (Inr a)
    have "R w1 (snd (invoke w1))" if "allows a" using invoke that auth Inr by simp
    then show ?thesis
      using w1 auth Inr services_trans [OF keep w1, of "snd (invoke w1)"]
      by (cases a) (auto simp: authorized_def Let_def bindP_run readP_def ofR_def allows_def split: bool.split)
  qed
qed

lemma authorized_allowed:
  "fst (rt_authorize rt tool arguments context w) = Inr a \<Longrightarrow> allows a \<Longrightarrow>
     authorized rt tool call context arguments profile rq ef started invoke w =
     invoke (snd (rt_authorize rt tool arguments context w))"
  by (cases "rt_authorize rt tool arguments context w"; cases a) (simp_all add: authorized_def Let_def allows_def)

lemma authorized_result:
  assumes "authorized rt tool call context arguments profile rq ef started invoke w = (Inr x, w')"
  shows "failed_execution call x \<and> tr_attempts (ce_result x) = 0 \<or>
    (\<exists>a. fst (rt_authorize rt tool arguments context w) = Inr a \<and> allows a \<and>
      invoke (snd (rt_authorize rt tool arguments context w)) = (Inr x, w'))"
  using assms
  by (auto simp: authorized_def Let_def bindP_run readP_def ofR_def allows_def plain_refusal_def
      split: prod.splits sum.splits auth_answer.splits bool.splits if_splits
      dest!: refuse_failed)

subsection \<open>Counting invocations\<close>

text \<open>
  A count of invocations: every invocation of the Tool adds one, nothing else in the world changes it.
\<close>

definition counts_invocations ::
  "('a sched_scheme \<Rightarrow> int) \<Rightarrow> 'a sched_scheme env \<Rightarrow> 'a sched_scheme tool_runtime \<Rightarrow> bool" where
  "counts_invocations count E rt \<longleftrightarrow> services_keep (\<lambda>u v. count u = count v) rt \<and>
     (\<forall>w. count (await E w) = count w) \<and>
     (\<forall>name tool t a c w. get_tool (rt_registry rt) name = Some tool \<longrightarrow>
        count (snd (tl_invoke tool t a c w)) = count w + 1)"

lemma counts_capture: "counts_invocations count E rt \<Longrightarrow> count (snd (capture_diagnostic rt d w)) = count w"
  using capture_keeps [of "\<lambda>u v. count u = count v" rt w d] by (simp add: counts_invocations_def)

lemma succeeded_result:
  "succeeded i n v k d a s = Inr r \<Longrightarrow> tr_success r \<and> tr_call_id r = i \<and> tr_tool_name r = n \<and> tr_attempts r = k"
  by (auto simp: succeeded_def ToolResult_def bindR_Inr_iff)

definition execution_of :: "tool_call \<Rightarrow> call_execution \<Rightarrow> bool" where
  "execution_of call x \<longleftrightarrow> failed_execution call x \<or> ce_failure x = None \<and> tr_success (ce_result x) \<and>
     tr_call_id (ce_result x) = tk_id call \<and> tr_tool_name (ce_result x) = tk_name call"

lemma accept_value_result:
  "accept_value rt tool call arguments profile rq ef attempt d v = Inr x \<Longrightarrow>
     execution_of call x \<and> tr_attempts (ce_result x) = attempt"
  by (auto simp: accept_value_def Let_def bindR_Inr_iff execution_of_def
      dest!: refuse_failed succeeded_result split: option.splits if_splits)

lemma final_failure_result:
  "fst (final_failure rt call c arguments profile rq ef started attempt exhausted e ct w) = Inr x \<Longrightarrow>
     failed_execution call x \<and> tr_attempts (ce_result x) = attempt"
  by (auto simp: final_failure_def bindP_run ofR_def readP_def dest!: refuse_failed
      split: prod.splits sum.splits)

lemma final_failure_world:
  "snd (final_failure rt call c arguments profile rq ef started attempt exhausted e ct w) \<in>
     insert w (range (\<lambda>d. snd (capture_diagnostic rt d w)))"
  by (auto simp: final_failure_def bindP_run ofR_def readP_def split: prod.splits sum.splits)
    (metis rangeI snd_conv)+

lemma attempt_loop_counts:
  assumes counts: "counts_invocations count E rt"
    and tool: "get_tool (rt_registry rt) name = Some tool"
    and run: "attempt_loop E n rt tool call c arguments profile rq ef started timeout attempts attempt w = (r, w')"
  shows "count w \<le> count w' \<and> count w' \<le> count w + int n \<and>
    (\<forall>x. r = Inr x \<longrightarrow> execution_of call x \<and> tr_attempts (ce_result x) = attempt - 1 + (count w' - count w))"
  using run
proof (induction n arbitrary: attempt w)
  case 0
  then show ?case by (auto simp: raise_def)
next
  case (Suc n)
  show ?case
  proof (cases "for_call (tk_id call) attempt c")
    case (Inl e)
    then show ?thesis using Suc.prems by (auto simp: bindP_run ofR_def)
  next
    case (Inr ac)
    obtain a w1 where once: "attempt_once rt tool call ac arguments profile rq ef started timeout attempt w = (a, w1)"
      by fastforce
    have w1: "count w1 = count w + 1"
      using once counts tool unfolding counts_invocations_def attempt_once_def
      by (auto split: prod.splits sum.splits) (metis snd_conv)+
    show ?thesis
    proof (cases a)
      case finished: (Inr x)
      then have "execution_of call x \<and> tr_attempts (ce_result x) = attempt"
        using once by (auto simp: attempt_once_def dest!: accept_value_result split: prod.splits sum.splits)
      then show ?thesis using Suc.prems Inr once finished w1 by (auto simp: bindP_run ofR_def)
    next
      case raised: (Inl e)
      consider (cancelled) "e = TX_cancelled"
        | (unclassified) e' where "e \<noteq> TX_cancelled" "classify_error tool e timeout profile = Inl e'"
        | (again) ct where "e \<noteq> TX_cancelled" "classify_error tool e timeout profile = Inr ct"
            "retry_safe profile (ct_error ct)" "attempt < attempts"
        | (last) ct where "e \<noteq> TX_cancelled" "classify_error tool e timeout profile = Inr ct"
            "\<not> (retry_safe profile (ct_error ct) \<and> attempt < attempts)"
        by (cases "classify_error tool e timeout profile") blast+
      then show ?thesis
      proof cases
        case cancelled
        then show ?thesis using Suc.prems Inr once raised w1 by (auto simp: bindP_run ofR_def raise_def)
      next
        case unclassified
        then show ?thesis using Suc.prems Inr once raised w1 by (auto simp: bindP_run ofR_def)
      next
        case again
        define w2 where "w2 = (if delay_for (rt_retry rt) attempt \<noteq> 0 then await E w1 else w1)"
        have "count w2 = count w1" using counts by (simp add: w2_def counts_invocations_def)
        moreover have "attempt_loop E n rt tool call c arguments profile rq ef started timeout attempts
            (attempt + 1) w2 = (r, w')"
          using Suc.prems Inr once raised again
          by (auto simp: bindP_run ofR_def modifyP_def w2_def ret_def split: if_splits)
        ultimately show ?thesis using Suc.IH [of "attempt + 1" w2] w1 by auto
      next
        case last
        let ?m = "final_failure rt call ac arguments profile rq ef started attempt
          (retry_safe profile (ct_error ct) \<and> attempts \<le> attempt) e ct w1"
        have m: "?m = (r, w')"
          using Suc.prems Inr once raised last by (auto simp: bindP_run ofR_def split: if_splits)
        then have "count w' = count w1"
          using final_failure_world [of rt call ac arguments profile rq ef started attempt
            "retry_safe profile (ct_error ct) \<and> attempts \<le> attempt" e ct w1] counts_capture [OF counts, of _ w1]
          by auto
        moreover have "execution_of call x \<and> tr_attempts (ce_result x) = attempt" if "r = Inr x" for x
          using m that final_failure_result [of rt call ac arguments profile rq ef started attempt
            "retry_safe profile (ct_error ct) \<and> attempts \<le> attempt" e ct w1 x] by (simp add: execution_of_def)
        ultimately show ?thesis using w1 by simp
      qed
    qed
  qed
qed

text \<open>
  A call is refused before anything is run, or its validated arguments go to the authorizer and, if it
  allows the call, into the attempts.
\<close>

lemma execute_one_cases:
  assumes "execute_one E rt call context constraint w = (r, w')"
  obtains (refused) "w' = w" "\<forall>x. r = Inr x \<longrightarrow> failed_execution call x \<and> tr_attempts (ce_result x) = 0"
  | (asked) tool arguments profile ef timeout where
      "get_tool (rt_registry rt) (tk_name call) = Some tool" "profile = resolve_tool_safety_profile tool"
      "tl_validate tool (tk_arguments call) = V_ok arguments" "ef = rt_fingerprint rt arguments"
      "constraint \<noteq> None \<Longrightarrow> sf_changed_argument_repair_safe profile"
      "case constraint of None \<Rightarrow> True | Some c \<Rightarrow> ef \<noteq> Some (rp_previous_effective_fingerprint c)"
      "authorized rt tool call (scoped_tool_context tool call context) arguments profile
        (rt_fingerprint rt (tk_arguments call)) ef (now w)
        (attempt_loop E (nat (if sf_same_call_retry_safe profile then ry_max_attempts (rt_retry rt) else 1))
          rt tool call (scoped_tool_context tool call context) arguments profile
          (rt_fingerprint rt (tk_arguments call)) ef (now w) timeout
          (if sf_same_call_retry_safe profile then ry_max_attempts (rt_retry rt) else 1) 1) w = (r, w')"
proof -
  note run = assms [unfolded execute_one_def Let_def]
  show ?thesis
  proof (cases "get_tool (rt_registry rt) (tk_name call)")
    case None
    show ?thesis by (rule refused) (use run None in \<open>auto simp: plain_refusal_def dest: refuse_failed\<close>)
  next
    case (Some tool)
    show ?thesis
    proof (cases "tl_validate tool (tk_arguments call)")
      case (V_ok arguments)
      consider (unsafe) "constraint \<noteq> None" "\<not> sf_changed_argument_repair_safe (resolve_tool_safety_profile tool)"
        | (go) "constraint \<noteq> None \<Longrightarrow> sf_changed_argument_repair_safe (resolve_tool_safety_profile tool)"
        by blast
      then show ?thesis
      proof cases
        case unsafe
        show ?thesis
          by (rule refused) (use run unsafe Some in \<open>auto simp: plain_refusal_def dest: refuse_failed\<close>)
      next
        case go
        let ?c = "scoped_tool_context tool call context" and ?ef = "rt_fingerprint rt arguments"
        have valid: "execute_validated E rt tool call ?c constraint arguments (resolve_tool_safety_profile tool)
            (rt_fingerprint rt (tk_arguments call)) (now w) w = (r, w')"
          using run go Some V_ok by (auto split: if_splits)
        show ?thesis
        proof (cases "(case constraint of None \<Rightarrow> False
            | Some c \<Rightarrow> ?ef = Some (rp_previous_effective_fingerprint c)) \<or> legacy_repair_unchanged ?c call ?ef")
          case True
          show ?thesis
            by (rule refused) (use valid True in \<open>auto simp: execute_validated_def Let_def bindP_run readP_def
              ofR_def unchanged_effective_arguments_def plain_refusal_def dest: refuse_failed split: if_splits\<close>)
        next
          case False
          then show ?thesis
            using valid asked [OF Some refl V_ok refl go]
            by (auto simp: execute_validated_def Let_def split: option.splits)
        qed
      qed
    qed (rule refused; use run Some in \<open>auto simp: plain_refusal_def dest: refuse_failed split: if_splits\<close>)+
  qed
qed

subsection \<open>Batches\<close>

lemma batch_outcome_fields:
  "batch_outcome rt calls xs = Inr b \<Longrightarrow> ob_calls b = calls \<and> ob_results b = map ce_result xs \<and>
     ob_failures b = List.map_filter ce_failure xs"
  by (auto simp: batch_outcome_def Let_def bindR_Inr_iff ToolBatchOutcome_def)

lemma batch_outcome_no_success:
  "batch_outcome rt calls xs = Inr b \<Longrightarrow> \<forall>x \<in> set xs. \<not> tr_success (ce_result x) \<Longrightarrow> success_count b = 0"
  by (auto simp: success_count_def filter_map dest!: batch_outcome_fields)

lemma in_order_sum:
  assumes "\<And>x y w w'. x \<in> set xs \<Longrightarrow> f x w = (Inr y, w') \<Longrightarrow> cost y = count w' - (count w :: int)"
    and "in_order f xs w = (Inr ys, w')"
  shows "sum_list (map cost ys) = count w' - count w"
  using assms
proof (induction xs arbitrary: w ys)
  case (Cons x xs)
  then obtain y w1 zs where fx: "f x w = (Inr y, w1)" and zs: "in_order f xs w1 = (Inr zs, w')"
    and ys: "ys = y # zs"
    by (auto simp: bindP_run ret_def split: prod.splits sum.splits)
  have "cost y = count w1 - count w" by (rule Cons.prems(1) [OF _ fx]) simp
  moreover have "sum_list (map cost zs) = count w' - count w1"
    by (rule Cons.IH [OF _ zs]) (rule Cons.prems(1); simp)
  ultimately show ?case by (simp add: ys)
qed (simp add: ret_def)

lemma execute_many_plain:
  "execute_many E rt calls c None w =
     (case in_order (\<lambda>call. execute_one E rt call c None) calls w of
        (Inl e, w') \<Rightarrow> (Inl e, w') | (Inr xs, w') \<Rightarrow> (batch_outcome rt calls xs, w'))"
  by (simp add: execute_many_def repair_constraint_error_def bindP_run ofR_def)

subsection \<open>Invocations of a batch\<close>

definition invocation_limit :: "'w tool_runtime \<Rightarrow> string \<Rightarrow> int" where
  "invocation_limit rt name = (case get_tool (rt_registry rt) name of
     None \<Rightarrow> 0
   | Some tool \<Rightarrow> if sf_same_call_retry_safe (resolve_tool_safety_profile tool)
       then max 0 (ry_max_attempts (rt_retry rt)) else 1)"

lemma execute_one_counts:
  assumes counts: "counts_invocations count E rt" and run: "execute_one E rt call c constraint w = (r, w')"
  shows "count w \<le> count w' \<and> count w' \<le> count w + invocation_limit rt (tk_name call) \<and>
    (\<forall>x. r = Inr x \<longrightarrow> execution_of call x \<and> tr_attempts (ce_result x) = count w' - count w)"
  using run
proof (cases rule: execute_one_cases)
  case refused
  then show ?thesis
    by (auto simp: execution_of_def invocation_limit_def split: option.split)
next
  case (asked tool arguments profile ef timeout)
  let ?c = "scoped_tool_context tool call c"
  let ?n = "if sf_same_call_retry_safe profile then ry_max_attempts (rt_retry rt) else 1"
  let ?loop = "attempt_loop E (nat ?n) rt tool call ?c arguments profile
      (rt_fingerprint rt (tk_arguments call)) ef (now w) timeout ?n 1"
  let ?w1 = "snd (rt_authorize rt tool arguments ?c w)"
  have keep: "services_keep (\<lambda>u v. count u = count v) rt" using counts by (simp add: counts_invocations_def)
  have w1: "count w = count ?w1" using keep by (simp add: services_keep_def)
  have loop: "count u \<le> count v \<and> count v \<le> count u + int (nat ?n) \<and>
      (\<forall>x. q = Inr x \<longrightarrow> execution_of call x \<and> tr_attempts (ce_result x) = count v - count u)"
    if "?loop u = (q, v)" for u q v
    using attempt_loop_counts [OF counts asked(1) that] by simp
  have limit: "invocation_limit rt (tk_name call) = int (nat ?n)"
    using asked(1,2) by (simp add: invocation_limit_def)
  show ?thesis
  proof (cases "\<exists>a. fst (rt_authorize rt tool arguments ?c w) = Inr a \<and> allows a")
    case True
    obtain q v where lv: "?loop ?w1 = (q, v)" by fastforce
    moreover have "(r, w') = (q, v)"
      using asked(7) True lv authorized_allowed by fastforce
    ultimately show ?thesis using loop [of ?w1 q v] w1 by (simp add: limit)
  next
    case False
    have "count w = count w'"
      using authorized_keeps [OF keep, of tool arguments ?c w ?loop call profile
        "rt_fingerprint rt (tk_arguments call)" ef "now w"] False asked(7) by auto
    moreover have "execution_of call x \<and> tr_attempts (ce_result x) = 0" if "r = Inr x" for x
      using authorized_result [OF asked(7) [unfolded that]] False by (auto simp: execution_of_def)
    ultimately show ?thesis by (auto simp: limit)
  qed
qed

lemma in_order_bound:
  assumes "\<And>x r w w'. x \<in> set xs \<Longrightarrow> f x w = (r, w') \<Longrightarrow> count w \<le> count w' \<and> count w' \<le> count w + (limit x :: int)"
    and "in_order f xs w = (r, w')" and "\<And>x. 0 \<le> limit x"
  shows "count w \<le> count w' \<and> count w' \<le> count w + sum_list (map limit xs)"
  using assms(1,2)
proof (induction xs arbitrary: w r w')
  case (Cons x xs)
  obtain q w1 where fx: "f x w = (q, w1)" by fastforce
  have w1: "count w \<le> count w1" "count w1 \<le> count w + limit x" using Cons.prems(1) [OF _ fx] by auto
  obtain q' w2 where fxs: "in_order f xs w1 = (q', w2)" by fastforce
  have "count w1 \<le> count w2 \<and> count w2 \<le> count w1 + sum_list (map limit xs)"
    by (rule Cons.IH [OF _ fxs]) (rule Cons.prems(1); simp)
  moreover have "0 \<le> sum_list (map limit xs)" using assms(3) by (intro sum_list_nonneg) auto
  ultimately show ?case
    using Cons.prems(2) fx fxs w1
    by (cases q; cases q') (auto simp: bindP_run ret_def)
qed (simp add: ret_def)

lemma repair_rejections:
  "mapR (\<lambda>call. repair_rejection rt call failure) calls = Inr xs \<Longrightarrow>
     list_all2 (\<lambda>call x. failed_execution call x \<and> tr_attempts (ce_result x) = 0) calls xs"
  by (auto simp: mapR_Inr repair_rejection_def Let_def plain_refusal_def elim!: list_all2_mono dest: refuse_failed)

lemma execute_many_constrained:
  assumes "repair_constraint_error rt calls constraint = Some failure"
  shows "snd (execute_many E rt calls c constraint w) = w"
    and "fst (execute_many E rt calls c constraint w) = Inr b \<Longrightarrow>
      success_count b = 0 \<and> sum_list (map tr_attempts (ob_results b)) = 0"
proof -
  have "\<forall>x \<in> set xs. \<not> tr_success (ce_result x) \<and> tr_attempts (ce_result x) = 0"
    if "mapR (\<lambda>call. repair_rejection rt call failure) calls = Inr xs" for xs
    using repair_rejections [OF that]
    by (fastforce simp: list_all2_conv_all_nth in_set_conv_nth failed_execution_def)
  moreover have "sum_list (map tr_attempts (ob_results b)) = 0"
    if "batch_outcome rt calls xs = Inr b" "\<forall>x \<in> set xs. tr_attempts (ce_result x) = 0" for b and xs :: "call_execution list"
  proof -
    have "map tr_attempts (ob_results b) = map (\<lambda>_. 0) xs"
      using batch_outcome_fields [OF that(1)] that(2) by simp
    then show ?thesis by simp
  qed
  ultimately have b: "success_count b = 0 \<and> sum_list (map tr_attempts (ob_results b)) = 0"
    if "mapR (\<lambda>call. repair_rejection rt call failure) calls = Inr xs" "batch_outcome rt calls xs = Inr b" for xs
    using that batch_outcome_no_success by metis
  have run: "execute_many E rt calls c constraint w = (if calls = [] then Inl (ValueError (snd failure))
      else bindR (mapR (\<lambda>call. repair_rejection rt call failure) calls) (batch_outcome rt calls), w)"
    using assms by (simp add: execute_many_def raise_def bindP_run ofR_def bindR_def split: sum.split)
  show "snd (execute_many E rt calls c constraint w) = w" by (simp add: run)
  show "fst (execute_many E rt calls c constraint w) = Inr b \<Longrightarrow>
      success_count b = 0 \<and> sum_list (map tr_attempts (ob_results b)) = 0"
    using b by (auto simp: run bindR_Inr_iff split: if_splits)
qed

text \<open>
  C37.  Let a count go up by one with every invocation of a registered Tool and be left alone by
  everything else.  Then a batch invokes each of its calls at most as often as the retry policy allows a
  Tool that is safe to call again, once a Tool that is not, and never an unknown one; and the attempts its
  outcome reports are exactly the invocations that took place.
\<close>

theorem tool_invocations_counted:
  assumes counts: "counts_invocations count E rt"
    and run: "execute_many E rt calls c constraint w = (r, w')"
  shows "count w \<le> count w' \<and>
    count w' \<le> count w + sum_list (map (\<lambda>call. invocation_limit rt (tk_name call)) calls) \<and>
    (\<forall>b. r = Inr b \<longrightarrow> sum_list (map tr_attempts (ob_results b)) = count w' - count w)"
proof (cases "repair_constraint_error rt calls constraint")
  case (Some failure)
  have "0 \<le> sum_list (map (\<lambda>call. invocation_limit rt (tk_name call)) calls)"
    by (intro sum_list_nonneg) (auto simp: invocation_limit_def split: option.split)
  then show ?thesis using execute_many_constrained [OF Some, of E c w] run by auto
next
  case None
  let ?f = "\<lambda>call. execute_one E rt call c constraint"
  obtain q w1 where walk: "in_order ?f calls w = (q, w1)" by fastforce
  have bound: "count w \<le> count w1 \<and>
      count w1 \<le> count w + sum_list (map (\<lambda>call. invocation_limit rt (tk_name call)) calls)"
    by (rule in_order_bound [OF _ walk])
      (use execute_one_counts [OF counts] in \<open>auto simp: invocation_limit_def split: option.split\<close>)
  have sum: "sum_list (map (\<lambda>x. tr_attempts (ce_result x)) xs) = count w1 - count w" if "q = Inr xs" for xs
    by (rule in_order_sum [OF _ walk [unfolded that]]) (use execute_one_counts [OF counts] in blast)
  have "w' = w1" "r = bindR q (batch_outcome rt calls)"
    using run None walk by (cases q; simp add: execute_many_def bindP_run ofR_def)+
  then show ?thesis
    using bound sum by (auto simp: bindR_Inr_iff o_def dest!: batch_outcome_fields)
qed

subsection \<open>Authorization before invocation\<close>

text \<open>
  A log of what is asked of the authorizer, with its answer, and of the invocations: a question is logged by the
  authorizer, an invocation by the Tool, and nothing else writes to the log.
\<close>

datatype tool_event =
    Asked string "(string, pyval) dict" tool_context bool
  | Invoked string "(string, pyval) dict" tool_context

definition answers_yes :: "tool_exn + auth_answer \<Rightarrow> bool" where
  "answers_yes r \<longleftrightarrow> (case r of Inl e \<Rightarrow> False | Inr a \<Rightarrow> allows a)"

definition logs_events ::
  "('a sched_scheme \<Rightarrow> tool_event list) \<Rightarrow> 'a sched_scheme env \<Rightarrow> 'a sched_scheme tool_runtime \<Rightarrow> bool" where
  "logs_events journal E rt \<longleftrightarrow>
     (\<forall>tool a c w. journal (snd (rt_authorize rt tool a c w)) =
        journal w @ [Asked (tl_name tool) a c (answers_yes (fst (rt_authorize rt tool a c w)))]) \<and>
     (\<forall>name tool t a c w. get_tool (rt_registry rt) name = Some tool \<longrightarrow>
        journal (snd (tl_invoke tool t a c w)) = journal w @ [Invoked (tl_name tool) a c]) \<and>
     (\<forall>capture d w. rt_reporter rt = Some capture \<longrightarrow> journal (snd (capture d w)) = journal w) \<and>
     (\<forall>w. journal (await E w) = journal w)"

text \<open>The events of \<open>n\<close> attempts in a row, from the given one on.\<close>

definition invocations :: "'w tool \<Rightarrow> tool_call \<Rightarrow> tool_context \<Rightarrow> (string, pyval) dict \<Rightarrow> int \<Rightarrow> nat \<Rightarrow> tool_event list" where
  "invocations tool call context arguments attempt n = map (\<lambda>k. Invoked (tl_name tool) arguments
     (context\<lparr>tc_tool_call_id := Some (tk_id call), tc_attempt := attempt + int k\<rparr>)) [0..<n]"

lemma invocations_simps [simp]:
  "invocations tool call context arguments attempt 0 = []"
  "invocations tool call context arguments attempt (Suc n) =
     Invoked (tl_name tool) arguments (context\<lparr>tc_tool_call_id := Some (tk_id call), tc_attempt := attempt\<rparr>) #
       invocations tool call context arguments (attempt + 1) n"
  by (simp_all add: invocations_def map_upt_Suc add.assoc del: upt_Suc)

text \<open>
  What may be in the log for one call: nothing, or one question about exactly its Tool, its validated arguments and its
  context, followed, if the answer was yes, by invocations of that Tool with those arguments for this call.
\<close>

definition call_events :: "'w tool_runtime \<Rightarrow> tool_context \<Rightarrow> tool_call \<Rightarrow> tool_event list \<Rightarrow> bool" where
  "call_events rt context call events \<longleftrightarrow> events = [] \<or> (\<exists>tool arguments yes n.
     get_tool (rt_registry rt) (tk_name call) = Some tool \<and> tl_validate tool (tk_arguments call) = V_ok arguments \<and>
     events = Asked (tl_name tool) arguments (scoped_tool_context tool call context) yes #
       invocations tool call (scoped_tool_context tool call context) arguments 1 n \<and>
     (\<not> yes \<longrightarrow> n = 0) \<and> int n \<le> invocation_limit rt (tk_name call))"

definition approved :: "tool_event list \<Rightarrow> bool" where
  "approved events \<longleftrightarrow> (\<exists>name arguments context later. events = Asked name arguments context True # later \<and> later \<noteq> [])"

lemma capture_logs: "logs_events journal E rt \<Longrightarrow> journal (snd (capture_diagnostic rt d w)) = journal w"
  by (rule capture_run [of rt d w]) (auto simp: logs_events_def)

lemma attempt_loop_logs:
  assumes logs: "logs_events journal E rt" and tool: "get_tool (rt_registry rt) name = Some tool"
    and run: "attempt_loop E n rt tool call c arguments profile rq ef started timeout attempts attempt w = (r, w')"
  shows "\<exists>m \<le> n. journal w' = journal w @ invocations tool call c arguments attempt m \<and> (\<forall>x. r = Inr x \<longrightarrow> m \<noteq> 0)"
  using run
proof (induction n arbitrary: attempt w)
  case 0
  then show ?case by (auto simp: raise_def)
next
  case (Suc n)
  show ?case
  proof (cases "for_call (tk_id call) attempt c")
    case (Inl e)
    then show ?thesis using Suc.prems by (auto simp: bindP_run ofR_def intro!: exI [of _ 0])
  next
    case (Inr ac)
    then have ac: "ac = c\<lparr>tc_tool_call_id := Some (tk_id call), tc_attempt := attempt\<rparr>"
      by (auto simp: for_call_def bindR_Inr_iff)
    obtain a w1 where once: "attempt_once rt tool call ac arguments profile rq ef started timeout attempt w = (a, w1)"
      by fastforce
    have "journal (snd (tl_invoke tool timeout arguments ac w)) = journal w @ [Invoked (tl_name tool) arguments ac]"
      using logs tool unfolding logs_events_def by blast
    then have w1: "journal w1 = journal w @ invocations tool call c arguments attempt 1"
      using once by (auto simp: attempt_once_def ac split: prod.splits sum.splits)
    have ended: ?thesis if "journal w' = journal w1"
      using w1 that by (intro exI [of _ 1]) simp
    show ?thesis
    proof (cases a)
      case finished: (Inr x)
      then have "w' = w1" using Suc.prems Inr once by (auto simp: bindP_run ofR_def)
      then show ?thesis using ended by simp
    next
      case raised: (Inl e)
      consider (cancelled) "e = TX_cancelled"
        | (unclassified) e' where "e \<noteq> TX_cancelled" "classify_error tool e timeout profile = Inl e'"
        | (again) ct where "e \<noteq> TX_cancelled" "classify_error tool e timeout profile = Inr ct"
            "retry_safe profile (ct_error ct)" "attempt < attempts"
        | (last) ct where "e \<noteq> TX_cancelled" "classify_error tool e timeout profile = Inr ct"
            "\<not> (retry_safe profile (ct_error ct) \<and> attempt < attempts)"
        by (cases "classify_error tool e timeout profile") blast+
      then show ?thesis
      proof cases
        case cancelled
        then show ?thesis using ended Suc.prems Inr once raised by (auto simp: bindP_run ofR_def raise_def)
      next
        case unclassified
        then show ?thesis using ended Suc.prems Inr once raised by (auto simp: bindP_run ofR_def)
      next
        case again
        define w2 where "w2 = (if delay_for (rt_retry rt) attempt \<noteq> 0 then await E w1 else w1)"
        have w2: "journal w2 = journal w1" using logs by (simp add: w2_def logs_events_def)
        have "attempt_loop E n rt tool call c arguments profile rq ef started timeout attempts (attempt + 1) w2 = (r, w')"
          using Suc.prems Inr once raised again
          by (auto simp: bindP_run ofR_def modifyP_def w2_def ret_def split: if_splits)
        from Suc.IH [OF this] obtain m where "m \<le> n" "journal w' = journal w2 @ invocations tool call c arguments (attempt + 1) m"
          by blast
        then show ?thesis using w1 w2 by (intro exI [of _ "Suc m"]) simp
      next
        case last
        have "final_failure rt call ac arguments profile rq ef started attempt
          (retry_safe profile (ct_error ct) \<and> attempts \<le> attempt) e ct w1 = (r, w')"
          using Suc.prems Inr once raised last by (auto simp: bindP_run ofR_def split: if_splits)
        then have "journal w' = journal w1"
          using final_failure_world [of rt call ac arguments profile rq ef started attempt
            "retry_safe profile (ct_error ct) \<and> attempts \<le> attempt" e ct w1] capture_logs [OF logs, of _ w1] by auto
        then show ?thesis by (rule ended)
      qed
    qed
  qed
qed

lemma authorized_denied_world:
  assumes denied: "\<not> answers_yes (fst (rt_authorize rt tool arguments context w))"
    and w1: "w1 = snd (rt_authorize rt tool arguments context w)"
  shows "snd (authorized rt tool call context arguments profile rq ef started invoke w) \<in>
    insert w1 (range (\<lambda>d. snd (capture_diagnostic rt d w1)))"
proof (cases "fst (rt_authorize rt tool arguments context w)")
  case (Inl e)
  then have auth: "rt_authorize rt tool arguments context w = (Inl e, w1)" by (simp add: w1 prod_eq_iff)
  define d where "d = \<lparr>dr_exception = e, dr_context = context, dr_call = call, dr_operation = ''authorize'',
    dr_category = ''tool_authorization'', dr_code = ''authorization_backend_failed'', dr_retryable = False, dr_attempt = None\<rparr>"
  obtain out w2 where captured: "capture_diagnostic rt d w1 = (out, w2)" by fastforce
  have "snd (authorized rt tool call context arguments profile rq ef started invoke w) = (if e = TX_cancelled then w1 else w2)"
    using captured by (cases out) (simp_all add: authorized_def Let_def auth bindP_run readP_def ofR_def d_def)
  moreover have "w2 = snd (capture_diagnostic rt d w1)" using captured by simp
  ultimately show ?thesis by auto
next
  case (Inr a)
  then have "rt_authorize rt tool arguments context w = (Inr a, w1)" by (simp add: w1 prod_eq_iff)
  then show ?thesis
    using denied Inr by (cases a) (auto simp: authorized_def Let_def bindP_run readP_def ofR_def answers_yes_def allows_def)
qed

lemma execute_one_logs:
  assumes logs: "logs_events journal E rt" and run: "execute_one E rt call c constraint w = (r, w')"
  shows "\<exists>events. journal w' = journal w @ events \<and> call_events rt c call events \<and>
    (\<forall>x. r = Inr x \<longrightarrow> tr_success (ce_result x) \<longrightarrow> approved events)"
  using run
proof (cases rule: execute_one_cases)
  case refused
  then show ?thesis by (intro exI [of _ "[]"]) (auto simp: call_events_def failed_execution_def)
next
  case (asked tool arguments profile ef timeout)
  let ?c = "scoped_tool_context tool call c"
  let ?n = "if sf_same_call_retry_safe profile then ry_max_attempts (rt_retry rt) else 1"
  let ?loop = "attempt_loop E (nat ?n) rt tool call ?c arguments profile
      (rt_fingerprint rt (tk_arguments call)) ef (now w) timeout ?n 1"
  let ?answer = "fst (rt_authorize rt tool arguments ?c w)" and ?w1 = "snd (rt_authorize rt tool arguments ?c w)"
  let ?question = "Asked (tl_name tool) arguments ?c (answers_yes ?answer)"
  have w1: "journal ?w1 = journal w @ [?question]" using logs unfolding logs_events_def by blast
  show ?thesis
  proof (cases "answers_yes ?answer")
    case True
    then obtain a where a: "?answer = Inr a" "allows a" by (auto simp: answers_yes_def split: sum.splits)
    have loop: "?loop ?w1 = (r, w')" using asked(7) unfolding authorized_allowed [OF a] .
    obtain m where m: "m \<le> nat ?n" "journal w' = journal ?w1 @ invocations tool call ?c arguments 1 m" "\<forall>x. r = Inr x \<longrightarrow> m \<noteq> 0"
      using attempt_loop_logs [OF logs asked(1) loop] by blast
    have "int m \<le> invocation_limit rt (tk_name call)" using m(1) asked(1,2) by (auto simp: invocation_limit_def split: if_splits)
    then have "call_events rt c call (?question # invocations tool call ?c arguments 1 m)"
      unfolding call_events_def using asked(1,3) True by blast
    moreover have "approved (?question # invocations tool call ?c arguments 1 m)" if "m \<noteq> 0"
      using that True by (cases m) (auto simp: approved_def)
    ultimately show ?thesis using m(2,3) w1 by (intro exI [of _ "?question # invocations tool call ?c arguments 1 m"]) auto
  next
    case False
    have "w' \<in> insert ?w1 (range (\<lambda>d. snd (capture_diagnostic rt d ?w1)))"
      using authorized_denied_world [OF False refl, of call profile "rt_fingerprint rt (tk_arguments call)" ef "now w" ?loop] asked(7)
      by simp
    then have "journal w' = journal w @ [?question]" using w1 capture_logs [OF logs] by auto
    moreover have "int 0 \<le> invocation_limit rt (tk_name call)" by (simp add: invocation_limit_def split: option.split)
    then have "call_events rt c call [?question]"
      unfolding call_events_def using asked(1,3) invocations_simps(1) by metis
    moreover have "\<not> tr_success (ce_result x)" if "r = Inr x" for x
      using authorized_result [OF asked(7) [unfolded that]] False by (auto simp: answers_yes_def failed_execution_def)
    ultimately show ?thesis by blast
  qed
qed

text \<open>The events of a walk, one list for each call that was reached.\<close>

lemma in_order_logs:
  assumes "\<And>x r w w'. f x w = (r, w') \<Longrightarrow> \<exists>events. journal w' = journal w @ events \<and> P x events \<and> (\<forall>y. r = Inr y \<longrightarrow> Q x events y)"
    and "in_order f xs w = (r, w')"
  shows "\<exists>eventss. journal w' = journal w @ concat eventss \<and> list_all2 P (take (length eventss) xs) eventss \<and>
    (\<forall>ys. r = Inr ys \<longrightarrow> length eventss = length xs \<and> length ys = length xs \<and>
       (\<forall>i < length xs. Q (xs ! i) (eventss ! i) (ys ! i)))"
  using assms(2)
proof (induction xs arbitrary: w r w')
  case Nil
  then show ?case by (intro exI [of _ "[]"]) (auto simp: ret_def)
next
  case (Cons x xs)
  obtain q w1 where fx: "f x w = (q, w1)" by fastforce
  obtain events where e: "journal w1 = journal w @ events" "P x events" "\<forall>y. q = Inr y \<longrightarrow> Q x events y"
    using assms(1) [OF fx] by blast
  show ?case
  proof (cases q)
    case (Inl ex)
    then have "w' = w1" "r = Inl ex" using Cons.prems fx by (simp_all add: bindP_run)
    then show ?thesis using e(1,2) by (intro exI [of _ "[events]"]) simp
  next
    case (Inr y)
    obtain q' w2 where fxs: "in_order f xs w1 = (q', w2)" by fastforce
    obtain more where more: "journal w2 = journal w1 @ concat more" "list_all2 P (take (length more) xs) more"
        "\<forall>ys. q' = Inr ys \<longrightarrow> length more = length xs \<and> length ys = length xs \<and> (\<forall>i < length xs. Q (xs ! i) (more ! i) (ys ! i))"
      using Cons.IH [OF fxs] by blast
    have "in_order f (x # xs) w = (case q' of Inl e' \<Rightarrow> Inl e' | Inr ys \<Rightarrow> Inr (y # ys), w2)"
      using fx fxs Inr by (simp add: bindP_run ret_def split: sum.split)
    then have out: "w' = w2" "r = (case q' of Inl e' \<Rightarrow> Inl e' | Inr ys \<Rightarrow> Inr (y # ys))"
      using Cons.prems by (simp_all only: prod.inject)
    have "length (events # more) = length (x # xs) \<and> length ys = length (x # xs) \<and>
        (\<forall>i < length (x # xs). Q ((x # xs) ! i) ((events # more) ! i) (ys ! i))" if "r = Inr ys" for ys
    proof -
      obtain zs where zs: "q' = Inr zs" "ys = y # zs" using out(2) \<open>r = Inr ys\<close> by (cases q') auto
      have first: "Q x events y" using e(3) Inr by simp
      have "length more = length xs" "length zs = length xs" "\<forall>i < length xs. Q (xs ! i) (more ! i) (zs ! i)"
        using more(3) zs(1) by blast+
      then show ?thesis using first unfolding zs(2) by (simp add: All_less_Suc2)
    qed
    moreover have "journal w' = journal w @ concat (events # more)" using e(1) more(1) out(1) by simp
    moreover have "list_all2 P (take (length (events # more)) (x # xs)) (events # more)" using e(2) more(2) by simp
    ultimately show ?thesis by blast
  qed
qed

text \<open>
  C38.  No Tool runs without permission.  In the log of a batch each call that was reached has a section of its own, in order: it
  is empty, or one question to the authorizer about exactly that call (its Tool, its validated arguments, its context), and
  invocations of that Tool with those arguments for that call only if the answer to this question was yes, and
  at most as many as its retry policy allows.  A call that reports success was approved and invoked.
\<close>

theorem unauthorized_tool_not_invoked:
  assumes logs: "logs_events journal E rt" and run: "execute_many E rt calls c constraint w = (r, w')"
  shows "\<exists>eventss. journal w' = journal w @ concat eventss \<and>
    list_all2 (call_events rt c) (take (length eventss) calls) eventss \<and>
    (\<forall>b. r = Inr b \<longrightarrow> length eventss = length calls \<and> length (ob_results b) = length calls \<and>
       (\<forall>i < length calls. tr_success (ob_results b ! i) \<longrightarrow> approved (eventss ! i)))"
proof (cases "repair_constraint_error rt calls constraint")
  case (Some failure)
  have run': "w' = w" "r = (if calls = [] then Inl (ValueError (snd failure))
      else bindR (mapR (\<lambda>call. repair_rejection rt call failure) calls) (batch_outcome rt calls))"
    using run Some by (auto simp: execute_many_def raise_def bindP_run ofR_def bindR_def split: sum.splits if_splits)
  have "length (ob_results b) = length calls \<and> (\<forall>i < length calls. \<not> tr_success (ob_results b ! i))" if b: "r = Inr b" for b
  proof -
    obtain xs where xs: "mapR (\<lambda>call. repair_rejection rt call failure) calls = Inr xs" "batch_outcome rt calls xs = Inr b"
      using run'(2) [unfolded b] by (cases "calls = []") (simp_all add: bindR_Inr_iff [symmetric], metis bindR_Inr_iff)
    then show ?thesis
      using repair_rejections [OF xs(1)] batch_outcome_fields [OF xs(2)]
      by (auto simp: list_all2_conv_all_nth failed_execution_def)
  qed
  then show ?thesis
    using run'(1) by (intro exI [of _ "replicate (length calls) []"]) (auto simp: call_events_def list_all2_conv_all_nth)
next
  case None
  let ?f = "\<lambda>call. execute_one E rt call c constraint"
  obtain q w1 where walk: "in_order ?f calls w = (q, w1)" by fastforce
  obtain eventss where events: "journal w1 = journal w @ concat eventss" "list_all2 (call_events rt c) (take (length eventss) calls) eventss"
      "\<forall>xs. q = Inr xs \<longrightarrow> length eventss = length calls \<and> length xs = length calls \<and>
         (\<forall>i < length calls. tr_success (ce_result (xs ! i)) \<longrightarrow> approved (eventss ! i))"
    using in_order_logs [where journal = journal and P = "call_events rt c" and Q = "\<lambda>_ events x. tr_success (ce_result x) \<longrightarrow> approved events",
      OF execute_one_logs [OF logs, of _ c constraint] walk] by blast
  have "w' = w1" "r = bindR q (batch_outcome rt calls)"
    using run None walk by (cases q; simp add: execute_many_def bindP_run ofR_def)+
  then show ?thesis
    using events by (intro exI [of _ eventss]) (auto simp: bindR_Inr_iff dest!: batch_outcome_fields)
qed

lemma constraint_enforced:
  assumes run: "execute_many E rt calls c (Some k) w = (r, w')"
    and effect: "w' \<noteq> w \<or> (\<exists>b. r = Inr b \<and> 0 < success_count b)"
  shows "\<exists>call tool arguments. calls = [call] \<and> tk_name call = rp_expected_tool_name k \<and>
    tk_id call \<notin> insert (rp_failed_call_id k) (rp_seen_call_ids k) \<and>
    rt_fingerprint rt (tk_arguments call) \<notin> {None, Some (rp_previous_requested_fingerprint k)} \<and>
    get_tool (rt_registry rt) (tk_name call) = Some tool \<and>
    sf_changed_argument_repair_safe (resolve_tool_safety_profile tool) \<and>
    tl_validate tool (tk_arguments call) = V_ok arguments \<and>
    rt_fingerprint rt arguments \<noteq> Some (rp_previous_effective_fingerprint k)"
proof -
  have passed: "repair_constraint_error rt calls (Some k) = None"
    using execute_many_constrained [of rt calls "Some k" _ E c w] run effect
    by (cases "repair_constraint_error rt calls (Some k)") auto
  then have "length calls = 1" by (auto simp: repair_constraint_error_def split: if_splits)
  then obtain call where calls: "calls = [call]" by (auto simp: length_Suc_conv)
  have call: "tk_name call = rp_expected_tool_name k \<and>
      tk_id call \<notin> insert (rp_failed_call_id k) (rp_seen_call_ids k) \<and>
      rt_fingerprint rt (tk_arguments call) \<notin> {None, Some (rp_previous_requested_fingerprint k)}"
    using passed by (auto simp: repair_constraint_error_def calls Let_def split: if_splits option.splits)
  obtain q w1 where one: "execute_one E rt call c (Some k) w = (q, w1)" by fastforce
  have out: "w' = w1" "r = bindR q (\<lambda>x. batch_outcome rt calls [x])"
    using run passed one by (cases q; simp add: execute_many_def bindP_run ofR_def calls ret_def)+
  show ?thesis
    using one
  proof (cases rule: execute_one_cases)
    case refused
    have "success_count b = 0" if "r = Inr b" for b
      using that out(2) refused(2) batch_outcome_no_success [of rt calls _ b]
      by (auto simp: bindR_Inr_iff failed_execution_def)
    then show ?thesis using effect out(1) refused(1) by fastforce
  next
    case (asked tool arguments profile ef timeout)
    then show ?thesis using calls call by auto
  qed
qed

text \<open>
  A repair constraint is enforced before anything happens: a batch under a constraint changes the
  world or has a success only if it is a single call, to the Tool the constraint names, under an ID not
  used before, with other requested arguments, to a registered Tool declared safe for changed-argument
  repair, whose validated arguments differ from those of the failed invocation.
\<close>

theorem repair_constraint_enforced:
  assumes run: "execute_many E rt calls c (Some k) w = (r, w')"
    and effect: "w' \<noteq> w \<or> (\<exists>b. r = Inr b \<and> 0 < success_count b)"
  shows "\<exists>call tool arguments. calls = [call] \<and> tk_name call = rp_expected_tool_name k \<and>
    tk_id call \<notin> insert (rp_failed_call_id k) (rp_seen_call_ids k) \<and>
    rt_fingerprint rt (tk_arguments call) \<notin> {None, Some (rp_previous_requested_fingerprint k)} \<and>
    get_tool (rt_registry rt) (tk_name call) = Some tool \<and>
    sf_changed_argument_repair_safe (resolve_tool_safety_profile tool) \<and>
    tl_validate tool (tk_arguments call) = V_ok arguments \<and>
    rt_fingerprint rt arguments \<noteq> Some (rp_previous_effective_fingerprint k)"
  using assms by (rule constraint_enforced)

subsection \<open>What crosses the boundary\<close>

text \<open>
  Every text of a projected failure is bounded and printable on one line: its identifiers, its
  reason and its message are not empty, no longer than the limits of the projector, and single-spaced;
  the message is there only when it was asked for; the fingerprints are canonical hashes, not arguments.
\<close>

theorem projection_bounded:
  assumes "project fp f include_safe_message = Inr v"
    and "\<forall>n \<in> {fp_max_identifier_chars fp, fp_max_reason_chars fp, fp_max_message_chars fp}. 3 < n"
  shows "length (sv_call_id v) \<le> fp_max_identifier_chars fp \<and> length (sv_tool_name v) \<le> fp_max_identifier_chars fp \<and>
    length (sv_view_reason v) \<le> fp_max_reason_chars fp \<and>
    (\<forall>t \<in> {sv_call_id v, sv_tool_name v, sv_view_reason v} \<union> set_option (sv_message v). plain t \<and> t \<noteq> []) \<and>
    (\<forall>m \<in> set_option (sv_message v). include_safe_message \<and> length m \<le> fp_max_message_chars fp) \<and>
    (\<forall>p \<in> set_option (sv_requested_arguments_fingerprint v) \<union> set_option (sv_effective_arguments_fingerprint v).
       length p = 71 \<and> is_tool_argument_fingerprint p)"
proof -
  have fallbacks: "plain ''unknown_call''" "plain ''unknown_tool''" "plain ''Tool execution failed''"
    by code_simp+
  have types: "plain (error_type_value t)" "error_type_value t \<noteq> []" for t
    by (cases t; simp only: error_type_value.simps; code_simp)+
  have hash: "length p = 71 \<and> is_tool_argument_fingerprint p" if "fingerprint_ok (Some p)" for p
    using that by (auto simp: fingerprint_ok_def is_tool_argument_fingerprint_def)
  have v: "sv_call_id v = bounded_text (fp_max_identifier_chars fp) ''unknown_call'' (if_call_id f)"
    "sv_tool_name v = bounded_text (fp_max_identifier_chars fp) ''unknown_tool'' (if_tool_name f)"
    "sv_view_reason v = bounded_text (fp_max_reason_chars fp)
       (error_type_value (fc_error_type (if_classification f))) (fc_stable_reason (if_classification f))"
    "sv_message v = (if include_safe_message then map_option (bounded_text (fp_max_message_chars fp)
       ''Tool execution failed'') (fc_safe_message (if_classification f)) else None)"
    "fingerprint_ok (sv_requested_arguments_fingerprint v)" "fingerprint_ok (sv_effective_arguments_fingerprint v)"
    using assms(1) by (auto simp: project_def Let_def SafeToolFailureView_def bindR_Inr_iff)
  have bounded: "length (bounded_text n d s) \<le> n \<and> plain (bounded_text n d s) \<and> bounded_text n d s \<noteq> []"
    if "plain d" "d \<noteq> []" "3 < n" for n d s
    using that plain_bounded_text [of d n s] bounded_text_nonempty [of n d s] bounded_text_length [of n d s] by simp
  have texts: "length (sv_call_id v) \<le> fp_max_identifier_chars fp \<and> plain (sv_call_id v) \<and> sv_call_id v \<noteq> []"
    "length (sv_tool_name v) \<le> fp_max_identifier_chars fp \<and> plain (sv_tool_name v) \<and> sv_tool_name v \<noteq> []"
    "length (sv_view_reason v) \<le> fp_max_reason_chars fp \<and> plain (sv_view_reason v) \<and> sv_view_reason v \<noteq> []"
    unfolding v(1-3) by (rule bounded; use fallbacks types assms(2) in simp)+
  have message: "include_safe_message \<and> length m \<le> fp_max_message_chars fp \<and> plain m \<and> m \<noteq> []"
    if "sv_message v = Some m" for m
    using that bounded [OF fallbacks(3)] assms(2) unfolding v(4) by (auto split: if_splits)
  show ?thesis using texts message hash v(5,6) by auto
qed

end
