(* ===== verification/Tool_Recovery.thy ===== *)
theory Tool_Recovery
  imports Tool_Runtime_Props
begin

text \<open>
  Recovery from Tool failures inside one plan step: the state kept for it (\<^verbatim>\<open>ToolRecoveryState\<close> and
  \<^verbatim>\<open>_safe_failure\<close> of \<^verbatim>\<open>moduagent/execution/planning/state.py\<close>) and the controller that decides
  between going on, repairing, replanning and failing (\<^verbatim>\<open>execution/planning/recovery.py\<close>).  The \<^verbatim>\<open>str\<close> and
  \<^verbatim>\<open>int\<close> of a dynamic value are the parameters \<open>text_of\<close> and \<open>int_of\<close> (\<^term>\<open>None\<close>: it raised).
\<close>

subsection \<open>State\<close>

record active_call =
  ac_tool_name :: string
  ac_fingerprint :: string

record recovery_state =
  rs_active_calls :: "(string, active_call) dict"
  rs_seen_call_ids :: "string list"
  rs_pending_failure :: "(string, pyval) dict option"
  rs_repair_count_by_step :: "(string, int) dict"
  rs_total_repairs :: int
  rs_terminal_failure :: "(string, pyval) dict option"

definition state_bounded_text :: "string \<Rightarrow> string" where
  "state_bounded_text s = (let text1 = one_line s in
     if length text1 \<le> 512 then text1 else take 509 text1 @ ''...'')"

definition failure_text_fields :: "string list" where
  "failure_text_fields = [''step_id'', ''call_id'', ''tool_name'', ''error_type'', ''type'', ''reason'', ''recovery'',
     ''feedback'', ''message'', ''fallback_reason'', ''terminal_reason'']"

definition failure_bool_fields :: "string list" where
  "failure_bool_fields = [''retryable'', ''repair_safe'']"

definition failure_count_fields :: "string list" where
  "failure_count_fields = [''failure_count'', ''success_count'', ''result_count'', ''repair_attempts'']"

definition failure_fingerprint_fields :: "string list" where
  "failure_fingerprint_fields = [''arguments_fingerprint'', ''invocation_fingerprint'']"

text \<open>\<^verbatim>\<open>value.get(key)\<close> that is not \<^verbatim>\<open>None\<close>\<close>

definition present :: "(string, pyval) dict \<Rightarrow> string \<Rightarrow> pyval option" where
  "present d k = (case dget d k of None \<Rightarrow> None | Some v \<Rightarrow> if v = PNone then None else Some v)"

definition clamp_count :: "int option \<Rightarrow> int" where
  "clamp_count n = min (max (case n of None \<Rightarrow> 0 | Some c \<Rightarrow> c) 0) 1000000"

text \<open>The sets of fields are walked in the order listed here; the order of a set is not specified.\<close>

definition safe_failure ::
  "(pyval \<Rightarrow> string) \<Rightarrow> (pyval \<Rightarrow> int option) \<Rightarrow> (string, pyval) dict option \<Rightarrow> (string, pyval) dict option res" where
  "safe_failure text_of int_of value = (case value of
     None \<Rightarrow> Inr None
   | Some d \<Rightarrow>
       let texts = List.map_filter (\<lambda>k. map_option (\<lambda>v. (k, PStr (state_bounded_text (text_of v)))) (present d k))
             failure_text_fields;
           bools = List.map_filter (\<lambda>k. map_option (\<lambda>v. (k, PBool (\<not> falsy v))) (dget d k)) failure_bool_fields;
           counts = List.map_filter (\<lambda>k. map_option (\<lambda>v. (k, PInt (clamp_count (int_of v)))) (dget d k))
             failure_count_fields;
           prints = List.map_filter (\<lambda>k. map_option (\<lambda>v. (k, v)) (present d k)) failure_fingerprint_fields in
       bindR (all_ok (map (\<lambda>(k, v). require (case v of PStr s \<Rightarrow> is_tool_argument_fingerprint s | _ \<Rightarrow> False)
         (ValueError (k @ '' must use sha256''))) prints)) (\<lambda>_.
       let result = texts @ bools @ counts @ prints in
       Inr (if result = [] then None else Some result)))"

definition normalize_active :: "(string, active_call) dict \<Rightarrow> (string, active_call) dict" where
  "normalize_active raw = fold (\<lambda>(i, c) d. dset (strip i)
     \<lparr>ac_tool_name = strip (ac_tool_name c), ac_fingerprint = strip (ac_fingerprint c)\<rparr> d) raw []"

definition ToolRecoveryState ::
  "(pyval \<Rightarrow> string) \<Rightarrow> (pyval \<Rightarrow> int option) \<Rightarrow> recovery_state \<Rightarrow> recovery_state res" where
  "ToolRecoveryState text_of int_of s =
     (let active = normalize_active (rs_active_calls s); seen = map strip (rs_seen_call_ids s) in
      bindR (all_ok
        (concat (map (\<lambda>(i, c).
           [require (strip i \<noteq> [] \<and> strip (ac_tool_name c) \<noteq> [])
              (ValueError ''active Tool call identity cannot be empty''),
            require (is_tool_argument_fingerprint (strip (ac_fingerprint c)))
              (ValueError ''active Tool argument fingerprint must use sha256'')]) (rs_active_calls s)) @
         [require ([] \<notin> set seen) (ValueError ''seen_call_ids cannot contain empty values''),
          require (distinct seen) (ValueError ''seen_call_ids cannot contain duplicates''),
          require (fst ` set active \<subseteq> set seen) (ValueError ''active call IDs must be present in seen_call_ids''),
          require (list_all (\<lambda>(i, n). i \<noteq> [] \<and> 0 \<le> n) (rs_repair_count_by_step s))
            (ValueError ''repair counts require non-empty IDs and non-negative values''),
          require (0 \<le> rs_total_repairs s) (ValueError ''total_repairs cannot be negative'')])) (\<lambda>_.
      bindR (safe_failure text_of int_of (rs_pending_failure s)) (\<lambda>pending.
      bindR (safe_failure text_of int_of (rs_terminal_failure s)) (\<lambda>terminal.
      Inr (s\<lparr>rs_active_calls := active, rs_seen_call_ids := seen, rs_pending_failure := pending,
             rs_terminal_failure := terminal\<rparr>)))))"

subsection \<open>Decisions\<close>

datatype recovery_decision_kind = K_CONTINUE | K_REPAIR | K_REPLAN | K_FAIL

datatype recovery_fallback = FB_replan | FB_fail

record recovery_config =
  rg_fallback :: recovery_fallback
  rg_allow_same_step_repair :: bool
  rg_require_repair_safe :: bool
  rg_safe_message :: bool

record recovery_decision =
  rd_kind :: recovery_decision_kind
  rd_reason :: string
  rd_failure :: "safe_failure_view option"
  rd_constraint :: "repair_constraint option"
  rd_repair_attempt :: int

definition ToolRecoveryDecision :: "recovery_decision \<Rightarrow> recovery_decision res" where
  "ToolRecoveryDecision d = bindR (all_ok
     [require (strip (rd_reason d) \<noteq> []) (ValueError ''recovery decision reason cannot be empty''),
      require (0 \<le> rd_repair_attempt d) (ValueError ''repair_attempt cannot be negative''),
      require (rd_kind d = K_REPAIR \<longrightarrow> rd_failure d \<noteq> None \<and> rd_constraint d \<noteq> None)
        (ValueError ''repair decisions require failure and constraint''),
      require (rd_kind d = K_REPAIR \<longrightarrow> 1 \<le> rd_repair_attempt d)
        (ValueError ''repair decisions require a positive attempt''),
      require (rd_kind d \<noteq> K_REPAIR \<longrightarrow> rd_constraint d = None)
        (ValueError ''only repair decisions may contain a constraint'')])
     (\<lambda>_. Inr d)"

definition record_requested_calls ::
  "((string, pyval) dict \<Rightarrow> string res) \<Rightarrow> tool_call list \<Rightarrow> (recovery_state, unit) prog" where
  "record_requested_calls fingerprint calls s =
     (let add = (\<lambda>call records.
            bindR (require (\<not> (tk_id call \<in> set (rs_seen_call_ids s) \<or> tk_id call \<in> fst ` set records))
              (ValueError ''Tool calls must use new unique call IDs'')) (\<lambda>_.
            bindR (fingerprint (tk_arguments call)) (\<lambda>p.
            Inr (records @ [(tk_id call, \<lparr>ac_tool_name = tk_name call, ac_fingerprint = p\<rparr>)]))));
          collect = foldl (\<lambda>r call. bindR r (add call)) (Inr []) calls in
      case collect of
        Inl e \<Rightarrow> (Inl e, s)
      | Inr records \<Rightarrow> (Inr (), s\<lparr>rs_active_calls := records,
          rs_seen_call_ids := rs_seen_call_ids s @ map fst records\<rparr>))"

definition plain_decision ::
  "recovery_decision_kind \<Rightarrow> string \<Rightarrow> safe_failure_view option \<Rightarrow> recovery_decision res" where
  "plain_decision k reason view = ToolRecoveryDecision
     \<lparr>rd_kind = k, rd_reason = reason, rd_failure = view, rd_constraint = None, rd_repair_attempt = 0\<rparr>"

definition replan_decision :: "safe_failure_view \<Rightarrow> string \<Rightarrow> (recovery_state, recovery_decision) prog" where
  "replan_decision view reason s =
     (plain_decision K_REPLAN reason (Some view), s\<lparr>rs_active_calls := []\<rparr>)"

definition terminal_decision :: "safe_failure_view \<Rightarrow> string \<Rightarrow> (recovery_state, recovery_decision) prog" where
  "terminal_decision view reason s =
     (plain_decision K_FAIL reason (Some view), s\<lparr>rs_active_calls := [],
        rs_terminal_failure := Some (dset ''terminal_reason'' (PStr reason) (view_to_dict view))\<rparr>)"

definition fallback_decision ::
  "recovery_config \<Rightarrow> safe_failure_view \<Rightarrow> string \<Rightarrow> (recovery_state, recovery_decision) prog" where
  "fallback_decision cfg view reason =
     (if rg_fallback cfg = FB_fail then terminal_decision view reason else replan_decision view reason)"

definition repair_decision ::
  "internal_tool_failure \<Rightarrow> safe_failure_view \<Rightarrow> string \<Rightarrow> string \<Rightarrow> string \<Rightarrow> int \<Rightarrow>
   (recovery_state, recovery_decision) prog" where
  "repair_decision primary view step_id requested effective current_count s =
     (let attempt = current_count + 1;
          s' = s\<lparr>rs_repair_count_by_step := dset step_id attempt (rs_repair_count_by_step s),
             rs_total_repairs := rs_total_repairs s + 1, rs_active_calls := []\<rparr> in
      (bindR (ToolRepairConstraint (if_call_id primary) (if_tool_name primary)
          (insert (if_call_id primary) (set (rs_seen_call_ids s))) requested effective) (\<lambda>constraint.
        ToolRecoveryDecision \<lparr>rd_kind = K_REPAIR,
          rd_reason = ''Repair the failed Tool call with changed arguments'', rd_failure = Some view,
          rd_constraint = Some constraint, rd_repair_attempt = attempt\<rparr>), s'))"

text \<open>The single failure of a batch of one call.\<close>

definition decide_single ::
  "recovery_config \<Rightarrow> internal_tool_failure \<Rightarrow> safe_failure_view \<Rightarrow> string \<Rightarrow> int \<Rightarrow>
   (recovery_state, recovery_decision) prog" where
  "decide_single cfg primary view step_id max_attempts s =
     (case fc_recovery_directive (if_classification primary) of
        Some RA_FAIL \<Rightarrow> terminal_decision view ''Tool recovery action requires failure'' s
      | Some RA_REPLAN \<Rightarrow> replan_decision view ''Tool recovery action requires replanning'' s
      | Some RETRY_CALL \<Rightarrow> fallback_decision cfg view ''ToolRuntime exhausted same-call retry'' s
      | None \<Rightarrow> fallback_decision cfg view ''Tool failure has no same-step recovery action'' s
      | Some REPAIR_CALL \<Rightarrow>
          if \<not> rg_allow_same_step_repair cfg
          then fallback_decision cfg view ''Same-step Tool repair is not enabled'' s
          else if rg_require_repair_safe cfg \<and> \<not> sf_changed_argument_repair_safe (if_safety_profile primary)
          then fallback_decision cfg view ''Tool failure is not safe for changed-argument repair'' s
          else
            let current_count = dget_or (rs_repair_count_by_step s) step_id 0 in
            if max_attempts \<le> current_count then fallback_decision cfg view ''tool repair budget exhausted'' s
            else if (case dget (rs_active_calls s) (if_call_id primary) of
                None \<Rightarrow> True
              | Some a \<Rightarrow> ac_tool_name a \<noteq> if_tool_name primary \<or>
                  Some (ac_fingerprint a) \<noteq> if_requested_arguments_fingerprint primary)
            then fallback_decision cfg view ''Tool repair cannot verify the failed invocation'' s
            else case (if_requested_arguments_fingerprint primary, if_effective_arguments_fingerprint primary) of
              (Some requested, Some effective) \<Rightarrow>
                repair_decision primary view step_id requested effective current_count s
            | _ \<Rightarrow> fallback_decision cfg view
                ''Tool repair requires requested and effective argument fingerprints'' s)"

definition directives :: "tool_batch_outcome \<Rightarrow> tool_recovery_action option list" where
  "directives outcome = map (\<lambda>f. fc_recovery_directive (if_classification f)) (ob_failures outcome)"

definition decide ::
  "failure_projector \<Rightarrow> recovery_config \<Rightarrow> tool_batch_outcome \<Rightarrow> string \<Rightarrow> int \<Rightarrow>
   (recovery_state, recovery_decision) prog" where
  "decide fp cfg outcome step_id max_attempts s =
     (if strip step_id = [] then (Inl (ValueError ''step_id cannot be empty''), s)
      else if max_attempts < 0 then (Inl (ValueError ''max_repair_attempts cannot be negative''), s)
      else if failure_count outcome = 0 then
        (plain_decision K_CONTINUE ''Tool batch completed'' None,
         s\<lparr>rs_active_calls := [], rs_pending_failure := None, rs_terminal_failure := None\<rparr>)
      else case ob_failures outcome of
        [] \<Rightarrow> (Inl (OtherException ''IndexError''), s)
      | primary # _ \<Rightarrow>
          (case project fp primary (rg_safe_message cfg) of
             Inl e \<Rightarrow> (Inl e, s)
           | Inr view \<Rightarrow>
               let s1 = s\<lparr>rs_pending_failure := Some (dset ''repair_safe''
                     (PBool (sf_changed_argument_repair_safe (if_safety_profile primary)))
                     (dset ''step_id'' (PStr step_id) (view_to_dict view)))\<rparr> in
               if partial_success outcome
               then terminal_decision view ''Tool batch partially succeeded; automatic recovery is unsafe'' s1
               else if failure_count outcome \<noteq> 1 \<or> length (ob_results outcome) \<noteq> 1
               then if Some RA_FAIL \<in> set (directives outcome)
                 then terminal_decision view ''Tool recovery action requires failure'' s1
                 else if Some RA_REPLAN \<in> set (directives outcome)
                 then replan_decision view ''Tool recovery action requires replanning'' s1
                 else fallback_decision cfg view
                   ''Tool batches with multiple failures cannot be repaired inside one step'' s1
               else decide_single cfg primary view step_id max_attempts s1))"

text \<open>\<^verbatim>\<open>isinstance(value, str) and value\<close>\<close>

definition text_value :: "(string, pyval) dict \<Rightarrow> string \<Rightarrow> string res" where
  "text_value d k = (case dget d k of
     Some (PStr s) \<Rightarrow> if s = [] then Inl (ValueError ''pending Tool repair state is incomplete'') else Inr s
   | _ \<Rightarrow> Inl (ValueError ''pending Tool repair state is incomplete''))"

definition constraint_for_pending :: "recovery_state \<Rightarrow> repair_constraint option res" where
  "constraint_for_pending s = (case rs_pending_failure s of
     None \<Rightarrow> Inr None
   | Some d \<Rightarrow>
       bindR (text_value d ''call_id'') (\<lambda>call_id.
       bindR (text_value d ''tool_name'') (\<lambda>tool_name.
       bindR (text_value d ''arguments_fingerprint'') (\<lambda>requested.
       bindR (text_value d ''invocation_fingerprint'') (\<lambda>effective.
       bindR (ToolRepairConstraint call_id tool_name (set (rs_seen_call_ids s)) requested effective)
         (\<lambda>c. Inr (Some c)))))))"

end
