(* ===== verification/Plan_Execution.thy ===== *)
theory Plan_Execution
  imports Plan_Props Tool_Recovery
begin

text \<open>
  The execution state of a plan (\<^verbatim>\<open>ExecutionState\<close> of \<^verbatim>\<open>moduagent/decision/planning.py\<close>): its constructor,
  which every load from a checkpoint goes through, and its transitions.  The parameter \<open>ref\<close> is the
  content hash of a step result.  The state owns its plan; a transition returns the state after it.
\<close>

subsection \<open>State\<close>

datatype run_phase = P_PLAN | P_STEP_PREPARE | P_ACT | P_STEP_VALIDATE | P_VERIFY | P_FINALIZE | P_DONE | P_FAILED

record execution_state =
  es_phase :: run_phase
  es_plan :: plan
  es_current_step_id :: "string option"
  es_committed_results :: "(string, step_result) dict"
  es_pending_step_result :: "step_result option"
  es_validation_error :: "string option"
  es_awaiting_step_result :: bool
  es_replan_count :: int
  es_finalization_count :: int
  es_final_response :: "string option"
  es_final_persisted :: bool
  es_final_emitted :: bool
  es_tool_repair_counts :: "(string, int) dict"
  es_pending_tool_failure :: "(string, pyval) dict option"
  es_total_tool_repairs :: int
  es_failure :: "(string, pyval) dict option"
  es_active_tool_calls :: "(string, active_call) dict"
  es_seen_tool_call_ids :: "string list"

text \<open>\<^verbatim>\<open>steps_by_id = {step.step_id: step ...}\<close> and the search of \<^verbatim>\<open>current_step\<close>; IDs are unique in a plan.\<close>

definition find_step :: "plan \<Rightarrow> string \<Rightarrow> plan_step option" where
  "find_step p i = find (\<lambda>s. ps_step_id s = i) (pl_steps p)"

definition hashed_field :: "(string, pyval) dict option \<Rightarrow> string \<Rightarrow> bool" where
  "hashed_field failure k \<longleftrightarrow> (case failure of None \<Rightarrow> True | Some d \<Rightarrow>
     (case present d k of None \<Rightarrow> True | Some (PStr s) \<Rightarrow> is_tool_argument_fingerprint s | Some _ \<Rightarrow> False))"

definition committed_ok :: "(step_result \<Rightarrow> string) \<Rightarrow> plan \<Rightarrow> string \<Rightarrow> step_result \<Rightarrow> unit res" where
  "committed_ok ref p i result =
     bindR (require (i = sr_step_id result) (ValueError ''committed result key does not match result step_id'')) (\<lambda>_.
     (case find_step p i of
        None \<Rightarrow> Inl (ValueError ''committed result refers to unknown step'')
      | Some step \<Rightarrow> all_ok
          [require (ps_status step = COMPLETED) (ValueError ''committed result step is not completed''),
           require (ps_result_ref step = Some (ref result))
             (ValueError ''committed result hash does not match step'')]))"

definition ExecutionState :: "(step_result \<Rightarrow> string) \<Rightarrow> execution_state \<Rightarrow> execution_state res" where
  "ExecutionState ref s =
     (let active = normalize_active (es_active_tool_calls s); seen = map strip (es_seen_tool_call_ids s);
          current = (case es_current_step_id s of
            None \<Rightarrow> map_option ps_step_id (plan_current (es_plan s)) | Some i \<Rightarrow> Some i) in
      bindR (all_ok
        ([require (0 \<le> es_replan_count s) (ValueError ''replan_count cannot be negative''),
          require (0 \<le> es_finalization_count s) (ValueError ''finalization_count cannot be negative''),
          require (0 \<le> es_total_tool_repairs s) (ValueError ''total_tool_repairs cannot be negative''),
          require (list_all (\<lambda>(i, n). 0 \<le> n) (es_tool_repair_counts s))
            (ValueError ''tool repair counts cannot be negative''),
          require (hashed_field (es_pending_tool_failure s) ''arguments_fingerprint'')
            (ValueError ''pending Tool failure arguments_fingerprint must use sha256''),
          require (hashed_field (es_pending_tool_failure s) ''invocation_fingerprint'')
            (ValueError ''pending Tool failure invocation_fingerprint must use sha256'')] @
         concat (map (\<lambda>(i, c).
           [require (strip i \<noteq> [] \<and> strip (ac_tool_name c) \<noteq> [])
              (ValueError ''active Tool call identity cannot be empty''),
            require (is_tool_argument_fingerprint (strip (ac_fingerprint c)))
              (ValueError ''active Tool call arguments_fingerprint must use sha256'')]) (es_active_tool_calls s)) @
         [require ([] \<notin> set seen) (ValueError ''seen Tool call IDs cannot be empty''),
          require (distinct seen) (ValueError ''seen Tool call IDs cannot contain duplicates''),
          require (fst ` set active \<subseteq> set seen) (ValueError ''active Tool call IDs must be present in seen IDs'')] @
         map (\<lambda>(i, r). committed_ok ref (es_plan s) i r) (es_committed_results s) @
         [require (case es_pending_step_result s of None \<Rightarrow> True
            | Some r \<Rightarrow> (case current of None \<Rightarrow> True | Some i \<Rightarrow> sr_step_id r = i))
            (ValueError ''pending StepResult does not match current_step_id''),
          require (case current of None \<Rightarrow> True | Some i \<Rightarrow> i \<in> set (step_ids (pl_steps (es_plan s))))
            (ValueError ''current_step_id does not exist in the plan''),
          require (es_final_persisted s \<longrightarrow> es_final_response s \<noteq> None)
            (ValueError ''final_persisted requires final_response''),
          require (es_final_emitted s \<longrightarrow> es_final_response s \<noteq> None)
            (ValueError ''final_emitted requires final_response''),
          require (es_phase s = P_DONE \<longrightarrow> es_final_emitted s)
            (ValueError ''DONE execution state requires final_emitted'')])) (\<lambda>_.
      Inr (s\<lparr>es_active_tool_calls := active, es_seen_tool_call_ids := seen, es_current_step_id := current\<rparr>)))"

subsection \<open>Transitions\<close>

definition current_step :: "execution_state \<Rightarrow> plan_step option" where
  "current_step s = (case es_current_step_id s of
     None \<Rightarrow> plan_current (es_plan s) | Some i \<Rightarrow> find_step (es_plan s) i)"

definition execution_complete :: "execution_state \<Rightarrow> bool" where
  "execution_complete s \<longleftrightarrow> plan_complete (es_plan s)"

definition prepare_current_step :: "bool \<Rightarrow> (execution_state, plan_step option) prog" where
  "prepare_current_step has_tools s = (case start_current (es_plan s) of
     (Inl e, p) \<Rightarrow> (Inl e, s\<lparr>es_plan := p\<rparr>)
   | (Inr step, p) \<Rightarrow> (Inr step, s\<lparr>es_plan := p, es_current_step_id := map_option ps_step_id step,
       es_pending_step_result := None, es_validation_error := None, es_pending_tool_failure := None,
       es_active_tool_calls := [], es_awaiting_step_result := \<not> has_tools,
       es_phase := (if step \<noteq> None then P_ACT else P_VERIFY)\<rparr>))"

definition mark_tool_round_complete :: "(execution_state, unit) prog" where
  "mark_tool_round_complete s =
     (if es_phase s \<noteq> P_ACT then (Inl (RuntimeError ''tool results can only be recorded during ACT''), s)
      else (Inr (), s\<lparr>es_awaiting_step_result := True\<rparr>))"

definition set_pending_result :: "step_result \<Rightarrow> (execution_state, unit) prog" where
  "set_pending_result result s = (case current_step s of
     None \<Rightarrow> (Inl (RuntimeError ''there is no current step for the pending result''), s)
   | Some step \<Rightarrow>
       if sr_step_id result \<noteq> ps_step_id step
       then (Inl (ValueError ''step result id does not match''), s)
       else (Inr (), s\<lparr>es_pending_step_result := Some result, es_validation_error := None,
         es_phase := P_STEP_VALIDATE\<rparr>))"

text \<open>The step object belongs to the plan: changing it changes the plan.\<close>

definition update_step :: "string \<Rightarrow> (plan_step \<Rightarrow> plan_step) \<Rightarrow> plan \<Rightarrow> plan" where
  "update_step i f p = p\<lparr>pl_steps := map (\<lambda>s. if ps_step_id s = i then f s else s) (pl_steps p)\<rparr>"

definition fail_step :: "plan_step \<Rightarrow> plan_step" where
  "fail_step s = (if closed_step s then s else s\<lparr>ps_status := FAILED\<rparr>)"

definition fail_current_step :: "(execution_state, plan_step option) prog" where
  "fail_current_step s = (case current_step s of
     None \<Rightarrow> (Inr None, s\<lparr>es_active_tool_calls := [], es_phase := P_FAILED\<rparr>)
   | Some step \<Rightarrow> (Inr (Some (fail_step step)),
       s\<lparr>es_plan := update_step (ps_step_id step) fail_step (es_plan s), es_active_tool_calls := [],
         es_phase := P_FAILED\<rparr>))"

definition commit_pending :: "(step_result \<Rightarrow> string) \<Rightarrow> (execution_state, plan_step) prog" where
  "commit_pending ref s = (case es_pending_step_result s of
     None \<Rightarrow> (Inl (RuntimeError ''there is no pending step result to commit''), s)
   | Some result \<Rightarrow> (case commit_result ref result (Some (sr_step_id result)) (es_plan s) of
       (Inl e, p) \<Rightarrow> (Inl e, s\<lparr>es_plan := p\<rparr>)
     | (Inr step, p) \<Rightarrow> (Inr step, s\<lparr>es_plan := p,
         es_committed_results := dset (sr_step_id result) result (es_committed_results s),
         es_pending_step_result := None, es_validation_error := None, es_pending_tool_failure := None,
         es_failure := None, es_active_tool_calls := [], es_awaiting_step_result := False,
         es_current_step_id := map_option ps_step_id (plan_current p),
         es_phase := (if plan_complete p then P_VERIFY else P_STEP_PREPARE)\<rparr>)))"

definition begin_finalization :: "(execution_state, unit) prog" where
  "begin_finalization s =
     (if es_final_emitted s \<or> es_phase s = P_DONE
      then (Inl (RuntimeError ''final output has already been emitted''), s)
      else if \<not> plan_complete (es_plan s)
      then (Inl (RuntimeError ''cannot finalize an incomplete plan''), s)
      else (Inr (), s\<lparr>es_finalization_count := es_finalization_count s + (if es_phase s \<noteq> P_FINALIZE then 1 else 0),
        es_phase := P_FINALIZE\<rparr>))"

definition record_final_response :: "string \<Rightarrow> bool \<Rightarrow> bool \<Rightarrow> (execution_state, unit) prog" where
  "record_final_response response persisted emitted s =
     (if es_final_emitted s \<and> emitted
      then (Inl (RuntimeError ''final output has already been emitted''), s)
      else (Inr (), s\<lparr>es_final_response := Some response, es_final_persisted := es_final_persisted s \<or> persisted,
        es_final_emitted := es_final_emitted s \<or> emitted,
        es_phase := (if es_final_emitted s \<or> emitted then P_DONE else es_phase s)\<rparr>))"

end
