(* ===== verification/Plan_Execution_Props.thy ===== *)
theory Plan_Execution_Props
  imports Plan_Execution
begin

text \<open>
  Every state that the transitions reach from an accepted one is accepted again by the constructor, and
  the final output is emitted once.
\<close>

subsection \<open>Accepted states\<close>

definition accepted :: "(step_result \<Rightarrow> string) \<Rightarrow> execution_state \<Rightarrow> bool" where
  "accepted ref s \<longleftrightarrow> ExecutionState ref s = Inr s \<and> plan_wf (es_plan s)"

text \<open>The checks one by one.\<close>

definition counts_ok :: "execution_state \<Rightarrow> bool" where
  "counts_ok s \<longleftrightarrow> 0 \<le> es_replan_count s \<and> 0 \<le> es_finalization_count s \<and> 0 \<le> es_total_tool_repairs s \<and>
     list_all (\<lambda>(i, n). 0 \<le> n) (es_tool_repair_counts s)"

definition calls_ok :: "execution_state \<Rightarrow> bool" where
  "calls_ok s \<longleftrightarrow>
     (\<forall>(i, c) \<in> set (es_active_tool_calls s). strip i \<noteq> [] \<and> strip (ac_tool_name c) \<noteq> [] \<and>
        is_tool_argument_fingerprint (strip (ac_fingerprint c))) \<and>
     normalize_active (es_active_tool_calls s) = es_active_tool_calls s \<and>
     map strip (es_seen_tool_call_ids s) = es_seen_tool_call_ids s \<and> [] \<notin> set (es_seen_tool_call_ids s) \<and>
     distinct (es_seen_tool_call_ids s) \<and> fst ` set (es_active_tool_calls s) \<subseteq> set (es_seen_tool_call_ids s)"

definition results_ok :: "(step_result \<Rightarrow> string) \<Rightarrow> plan \<Rightarrow> (string, step_result) dict \<Rightarrow> bool" where
  "results_ok ref p results \<longleftrightarrow> (\<forall>(i, r) \<in> set results. i = sr_step_id r \<and>
     (\<exists>st \<in> set (pl_steps p). ps_step_id st = i \<and> ps_status st = COMPLETED \<and> ps_result_ref st = Some (ref r)))"

definition current_ok :: "execution_state \<Rightarrow> bool" where
  "current_ok s \<longleftrightarrow> (case es_current_step_id s of
     None \<Rightarrow> plan_current (es_plan s) = None
   | Some i \<Rightarrow> i \<in> set (step_ids (pl_steps (es_plan s))) \<and>
       (case es_pending_step_result s of None \<Rightarrow> True | Some r \<Rightarrow> sr_step_id r = i))"

definition final_ok :: "execution_state \<Rightarrow> bool" where
  "final_ok s \<longleftrightarrow> (es_final_persisted s \<longrightarrow> es_final_response s \<noteq> None) \<and>
     (es_final_emitted s \<longrightarrow> es_final_response s \<noteq> None) \<and> (es_phase s = P_DONE \<longrightarrow> es_final_emitted s)"

text \<open>A check reads only its own fields.\<close>

lemma counts_ok_frame [simp]:
  "counts_ok (s\<lparr>es_phase := x_es_phase\<rparr>) = counts_ok s"
  "counts_ok (s\<lparr>es_plan := x_es_plan\<rparr>) = counts_ok s"
  "counts_ok (s\<lparr>es_current_step_id := x_es_current_step_id\<rparr>) = counts_ok s"
  "counts_ok (s\<lparr>es_committed_results := x_es_committed_results\<rparr>) = counts_ok s"
  "counts_ok (s\<lparr>es_pending_step_result := x_es_pending_step_result\<rparr>) = counts_ok s"
  "counts_ok (s\<lparr>es_validation_error := x_es_validation_error\<rparr>) = counts_ok s"
  "counts_ok (s\<lparr>es_awaiting_step_result := x_es_awaiting_step_result\<rparr>) = counts_ok s"
  "counts_ok (s\<lparr>es_final_response := x_es_final_response\<rparr>) = counts_ok s"
  "counts_ok (s\<lparr>es_final_persisted := x_es_final_persisted\<rparr>) = counts_ok s"
  "counts_ok (s\<lparr>es_final_emitted := x_es_final_emitted\<rparr>) = counts_ok s"
  "counts_ok (s\<lparr>es_pending_tool_failure := x_es_pending_tool_failure\<rparr>) = counts_ok s"
  "counts_ok (s\<lparr>es_failure := x_es_failure\<rparr>) = counts_ok s"
  "counts_ok (s\<lparr>es_active_tool_calls := x_es_active_tool_calls\<rparr>) = counts_ok s"
  by (simp_all add: counts_ok_def)

lemma calls_ok_frame [simp]:
  "calls_ok (s\<lparr>es_phase := x_es_phase\<rparr>) = calls_ok s"
  "calls_ok (s\<lparr>es_plan := x_es_plan\<rparr>) = calls_ok s"
  "calls_ok (s\<lparr>es_current_step_id := x_es_current_step_id\<rparr>) = calls_ok s"
  "calls_ok (s\<lparr>es_committed_results := x_es_committed_results\<rparr>) = calls_ok s"
  "calls_ok (s\<lparr>es_pending_step_result := x_es_pending_step_result\<rparr>) = calls_ok s"
  "calls_ok (s\<lparr>es_validation_error := x_es_validation_error\<rparr>) = calls_ok s"
  "calls_ok (s\<lparr>es_awaiting_step_result := x_es_awaiting_step_result\<rparr>) = calls_ok s"
  "calls_ok (s\<lparr>es_finalization_count := x_es_finalization_count\<rparr>) = calls_ok s"
  "calls_ok (s\<lparr>es_final_response := x_es_final_response\<rparr>) = calls_ok s"
  "calls_ok (s\<lparr>es_final_persisted := x_es_final_persisted\<rparr>) = calls_ok s"
  "calls_ok (s\<lparr>es_final_emitted := x_es_final_emitted\<rparr>) = calls_ok s"
  "calls_ok (s\<lparr>es_pending_tool_failure := x_es_pending_tool_failure\<rparr>) = calls_ok s"
  "calls_ok (s\<lparr>es_failure := x_es_failure\<rparr>) = calls_ok s"
  by (simp_all add: calls_ok_def)

lemma current_ok_frame [simp]:
  "current_ok (s\<lparr>es_phase := x_es_phase\<rparr>) = current_ok s"
  "current_ok (s\<lparr>es_committed_results := x_es_committed_results\<rparr>) = current_ok s"
  "current_ok (s\<lparr>es_validation_error := x_es_validation_error\<rparr>) = current_ok s"
  "current_ok (s\<lparr>es_awaiting_step_result := x_es_awaiting_step_result\<rparr>) = current_ok s"
  "current_ok (s\<lparr>es_finalization_count := x_es_finalization_count\<rparr>) = current_ok s"
  "current_ok (s\<lparr>es_final_response := x_es_final_response\<rparr>) = current_ok s"
  "current_ok (s\<lparr>es_final_persisted := x_es_final_persisted\<rparr>) = current_ok s"
  "current_ok (s\<lparr>es_final_emitted := x_es_final_emitted\<rparr>) = current_ok s"
  "current_ok (s\<lparr>es_pending_tool_failure := x_es_pending_tool_failure\<rparr>) = current_ok s"
  "current_ok (s\<lparr>es_failure := x_es_failure\<rparr>) = current_ok s"
  "current_ok (s\<lparr>es_active_tool_calls := x_es_active_tool_calls\<rparr>) = current_ok s"
  by (simp_all add: current_ok_def cong: option.case_cong)

lemma final_ok_frame [simp]:
  "final_ok (s\<lparr>es_plan := x_es_plan\<rparr>) = final_ok s"
  "final_ok (s\<lparr>es_current_step_id := x_es_current_step_id\<rparr>) = final_ok s"
  "final_ok (s\<lparr>es_committed_results := x_es_committed_results\<rparr>) = final_ok s"
  "final_ok (s\<lparr>es_pending_step_result := x_es_pending_step_result\<rparr>) = final_ok s"
  "final_ok (s\<lparr>es_validation_error := x_es_validation_error\<rparr>) = final_ok s"
  "final_ok (s\<lparr>es_awaiting_step_result := x_es_awaiting_step_result\<rparr>) = final_ok s"
  "final_ok (s\<lparr>es_finalization_count := x_es_finalization_count\<rparr>) = final_ok s"
  "final_ok (s\<lparr>es_pending_tool_failure := x_es_pending_tool_failure\<rparr>) = final_ok s"
  "final_ok (s\<lparr>es_failure := x_es_failure\<rparr>) = final_ok s"
  "final_ok (s\<lparr>es_active_tool_calls := x_es_active_tool_calls\<rparr>) = final_ok s"
  by (simp_all add: final_ok_def)

lemma find_step_iff:
  assumes "distinct (step_ids (pl_steps p))"
  shows "find_step p i = Some st \<longleftrightarrow> st \<in> set (pl_steps p) \<and> ps_step_id st = i"
proof
  show "find_step p i = Some st \<Longrightarrow> st \<in> set (pl_steps p) \<and> ps_step_id st = i"
    by (auto simp: find_step_def find_Some_iff)
next
  assume st: "st \<in> set (pl_steps p) \<and> ps_step_id st = i"
  then obtain st' where st': "find_step p i = Some st'"
    unfolding find_step_def using find_None_iff [of "\<lambda>s. ps_step_id s = i" "pl_steps p"]
    by (cases "find (\<lambda>s. ps_step_id s = i) (pl_steps p)") auto
  then have "st' \<in> set (pl_steps p) \<and> ps_step_id st' = i" by (auto simp: find_step_def find_Some_iff)
  then have "st' = st" using st assms by (auto simp: step_ids_def distinct_map dest: inj_onD)
  then show "find_step p i = Some st" using st' by simp
qed

lemma committed_ok_iff:
  assumes "distinct (step_ids (pl_steps p))"
  shows "committed_ok ref p i r = Inr () \<longleftrightarrow> i = sr_step_id r \<and>
     (\<exists>st \<in> set (pl_steps p). ps_step_id st = i \<and> ps_status st = COMPLETED \<and> ps_result_ref st = Some (ref r))"
proof (cases "find_step p i")
  case None
  then have "\<And>st. st \<in> set (pl_steps p) \<Longrightarrow> ps_step_id st \<noteq> i" by (auto simp: find_step_def find_None_iff)
  then show ?thesis using None by (auto simp: committed_ok_def bindR_Inr_iff)
next
  case (Some st)
  then have "\<And>st'. st' \<in> set (pl_steps p) \<and> ps_step_id st' = i \<longleftrightarrow> st' = st"
    using find_step_iff [OF assms, of i] by (metis option.inject)
  then have "(\<exists>st' \<in> set (pl_steps p). ps_step_id st' = i \<and> Q st') \<longleftrightarrow> Q st" for Q by metis
  then show ?thesis using Some by (auto simp: committed_ok_def bindR_Inr_iff)
qed

lemma plan_wf_distinct: "plan_wf p \<Longrightarrow> distinct (step_ids (pl_steps p))"
  by (simp add: plan_wf_def ordered_steps_def)

lemma accepted_iff:
  "accepted ref s \<longleftrightarrow> plan_wf (es_plan s) \<and> counts_ok s \<and>
     hashed_field (es_pending_tool_failure s) ''arguments_fingerprint'' \<and>
     hashed_field (es_pending_tool_failure s) ''invocation_fingerprint'' \<and> calls_ok s \<and>
     results_ok ref (es_plan s) (es_committed_results s) \<and> current_ok s \<and> final_ok s"
proof (cases "plan_wf (es_plan s)")
  case True
  note committed = committed_ok_iff [OF plan_wf_distinct [OF True]]
  have same: "s\<lparr>es_active_tool_calls := a, es_seen_tool_call_ids := b, es_current_step_id := c\<rparr> = s \<longleftrightarrow>
      a = es_active_tool_calls s \<and> b = es_seen_tool_call_ids s \<and> c = es_current_step_id s" for a b c
    by (cases s) auto
  have ids: "plan_current (es_plan s) = Some st \<Longrightarrow> ps_step_id st \<in> set (step_ids (pl_steps (es_plan s)))" for st
    by (auto simp: plan_current_def step_ids_def split: if_splits)
  have same': "s\<lparr>es_current_step_id := c\<rparr> = s \<longleftrightarrow> c = es_current_step_id s" for c by (cases s) auto
  let ?current = "case es_current_step_id s of None \<Rightarrow> map_option ps_step_id (plan_current (es_plan s)) | Some i \<Rightarrow> Some i"
  have cur: "current_ok s \<longleftrightarrow> ?current = es_current_step_id s \<and>
      (case es_pending_step_result s of None \<Rightarrow> True
        | Some r \<Rightarrow> (case ?current of None \<Rightarrow> True | Some i \<Rightarrow> sr_step_id r = i)) \<and>
      (case ?current of None \<Rightarrow> True | Some i \<Rightarrow> i \<in> set (step_ids (pl_steps (es_plan s))))"
    by (cases "es_current_step_id s") (auto simp: current_ok_def split: option.splits)
  show ?thesis
  proof (cases "map strip (es_seen_tool_call_ids s) = es_seen_tool_call_ids s \<and>
      normalize_active (es_active_tool_calls s) = es_active_tool_calls s")
    case same_calls: True
    then have "strip ` set (es_seen_tool_call_ids s) = set (es_seen_tool_call_ids s)" by (metis list.set_map)
    with same_calls show ?thesis
      unfolding accepted_def ExecutionState_def Let_def bindR_Inr_iff all_ok_Inr
      by (simp add: same' committed ball_Un True counts_ok_def split_beta calls_ok_def results_ok_def
          final_ok_def cur) blast
  next
    case False
    then show ?thesis
      unfolding accepted_def ExecutionState_def Let_def bindR_Inr_iff calls_ok_def by (auto simp: same)
  qed
qed (simp add: accepted_def)

subsection \<open>What the transitions keep of the plan\<close>

text \<open>A transition keeps the IDs of the steps, and every step that is completed.\<close>

definition extends :: "plan \<Rightarrow> plan \<Rightarrow> bool" where
  "extends p p' \<longleftrightarrow> plan_wf p' \<and> step_ids (pl_steps p') = step_ids (pl_steps p) \<and>
     (\<forall>st \<in> set (pl_steps p). ps_status st = COMPLETED \<longrightarrow> st \<in> set (pl_steps p'))"

lemma extends_refl: "plan_wf p \<Longrightarrow> extends p p"
  by (simp add: extends_def)

lemma extends_trans: "extends p q \<Longrightarrow> extends q r \<Longrightarrow> extends p r"
  by (auto simp: extends_def)

lemma extends_results: "extends p p' \<Longrightarrow> results_ok ref p rs \<Longrightarrow> results_ok ref p' rs"
  unfolding extends_def results_ok_def by fast

lemma set_list_update: "k < length xs \<Longrightarrow> x \<in> set xs \<Longrightarrow> x \<noteq> xs ! k \<Longrightarrow> x \<in> set (xs[k := y])"
  by (metis in_set_conv_nth length_list_update nth_list_update_neq)

lemma extends_set_current:
  assumes p: "plan_wf p" and s: "plan_current p = Some s" and s': "ps_step_id s' = ps_step_id s"
    and wf: "plan_wf (set_current s' p)"
  shows "extends p (set_current s' p)"
proof -
  have k: "pl_current_index p < length (pl_steps p)" "s = pl_steps p ! pl_current_index p"
    using s by (auto simp: plan_current_def split: if_splits)
  have opened: "ps_status s \<noteq> COMPLETED" using p s by (auto simp: plan_wf_def closed_step_def)
  have "step_ids (pl_steps (set_current s' p)) = step_ids (pl_steps p)"
    using k s' by (simp add: set_current_def step_ids_def map_update list_update_same_conv)
  moreover have "st \<in> set (pl_steps (set_current s' p))"
    if "st \<in> set (pl_steps p)" "ps_status st = COMPLETED" for st
    using set_list_update [OF k(1) that(1), of s'] opened k(2) that(2) by (auto simp: set_current_def)
  ultimately show ?thesis using wf by (simp add: extends_def)
qed

lemma start_current_extends: "plan_wf p \<Longrightarrow> extends p (snd (start_current p))"
  using extends_set_current [of p] start_current_wf [of p] extends_refl [of p]
  by (auto simp: start_current_run split: option.splits if_splits)

lemma start_current_step:
  "plan_wf p \<Longrightarrow> \<exists>step. fst (start_current p) = Inr step \<and>
     map_option ps_step_id step = map_option ps_step_id (plan_current (snd (start_current p)))"
  by (auto simp: start_current_run set_current_def plan_current_def split: option.split)

lemma closed_plan_extends:
  assumes p: "plan_wf p" and s: "plan_current p = Some s"
  shows "extends p (closed_plan r p)" and "committed r s \<in> set (pl_steps (closed_plan r p))"
proof -
  have k: "pl_current_index p < length (pl_steps p)" "s = pl_steps p ! pl_current_index p"
    using s by (auto simp: plan_current_def split: if_splits)
  have opened: "ps_status s \<noteq> COMPLETED" using p s by (auto simp: plan_wf_def closed_step_def)
  have "step_ids (pl_steps (closed_plan r p)) = step_ids (pl_steps p)"
    using k by (simp add: closed_plan_frame step_ids_def map_update committed_def list_update_same_conv)
  moreover have "st \<in> set (pl_steps (closed_plan r p))"
    if "st \<in> set (pl_steps p)" "ps_status st = COMPLETED" for st
    using set_list_update [OF k(1) that(1)] opened k(2) that(2) by (auto simp: closed_plan_frame)
  ultimately show "extends p (closed_plan r p)"
    using closed_plan_wf [OF p k(1)] by (simp add: extends_def)
  show "committed r s \<in> set (pl_steps (closed_plan r p))"
    using k set_update_memI [OF k(1), of "committed r s"] by (simp add: closed_plan_frame)
qed

lemma commit_extends:
  assumes p: "plan_wf p" and run: "commit r i p = (out, p')"
  shows "case out of
     Inl e \<Rightarrow> p' = p
   | Inr st \<Rightarrow> extends p p' \<and> r \<noteq> [] \<and> (\<exists>s. plan_current p = Some s \<and> i \<in> {None, Some (ps_step_id s)} \<and>
       ps_status s \<in> {PENDING, IN_PROGRESS} \<and> st = committed r s \<and> committed r s \<in> set (pl_steps p'))"
proof (cases "plan_current p")
  case (Some s)
  have start: "extends (closed_plan r p) (snd (start_current (closed_plan r p)))"
    using closed_plan_extends(1) [OF p Some, of r] by (intro start_current_extends) (simp add: extends_def)
  have "committed r s \<in> set (pl_steps (snd (start_current (closed_plan r p))))"
    using start closed_plan_extends(2) [OF p Some, of r] by (auto simp: extends_def committed_def)
  then show ?thesis
    using run Some extends_trans [OF closed_plan_extends(1) [OF p Some] start] by (auto simp: commit_run split: if_splits)
qed (use run in \<open>auto simp: commit_run\<close>)

lemma current_step_found:
  assumes "accepted ref s"
  shows "current_step s = (case es_current_step_id s of None \<Rightarrow> None
    | Some i \<Rightarrow> find_step (es_plan s) i)"
    and "es_current_step_id s = Some i \<Longrightarrow> \<exists>st. current_step s = Some st \<and> ps_step_id st = i"
proof -
  have cur: "current_ok s" and dist: "distinct (step_ids (pl_steps (es_plan s)))"
    using assms plan_wf_distinct by (auto simp: accepted_iff)
  show "current_step s = (case es_current_step_id s of None \<Rightarrow> None | Some i \<Rightarrow> find_step (es_plan s) i)"
    using cur by (auto simp: current_step_def current_ok_def split: option.splits)
  assume i: "es_current_step_id s = Some i"
  then obtain st where "st \<in> set (pl_steps (es_plan s))" "ps_step_id st = i"
    using cur by (auto simp: current_ok_def step_ids_def)
  then show "\<exists>st. current_step s = Some st \<and> ps_step_id st = i"
    using i find_step_iff [OF dist, of i st] by (auto simp: current_step_def)
qed

lemma update_step_wf:
  assumes p: "plan_wf p"
  shows "extends p (update_step i fail_step p)"
proof -
  let ?f = "\<lambda>s. if ps_step_id s = i then fail_step s else s"
  have same: "ps_step_id (?f st) = ps_step_id st" "ps_dependencies (?f st) = ps_dependencies st"
    "closed_step (?f st) = closed_step st" for st
    by (auto simp: fail_step_def closed_step_def)
  have closed_fail: "closed_step (fail_step st) = closed_step st" for st
    by (auto simp: fail_step_def closed_step_def)
  have ids: "step_ids (pl_steps (update_step i fail_step p)) = step_ids (pl_steps p)"
    by (auto simp: update_step_def step_ids_def same)
  have "plan_current (update_step i fail_step p) = map_option ?f (plan_current p)"
    by (simp add: plan_current_def update_step_def)
  then have "plan_wf (update_step i fail_step p)"
    using p same ids closed_fail by (auto simp: plan_wf_def ordered_steps_def) (auto simp: update_step_def)
  moreover have "st \<in> set (pl_steps (update_step i fail_step p))"
    if "st \<in> set (pl_steps p)" "ps_status st = COMPLETED" for st
  proof -
    have "?f st = st" using that(2) by (auto simp: fail_step_def closed_step_def)
    then show ?thesis using that(1) by (force simp: update_step_def image_iff)
  qed
  ultimately show ?thesis using ids by (simp add: extends_def)
qed

subsection \<open>Runs\<close>

datatype execution_command =
    Prepare bool
  | Tool_Round
  | Set_Pending step_result
  | Fail
  | Commit_Pending
  | Finalize
  | Record_Final string bool bool

fun execution_op :: "(step_result \<Rightarrow> string) \<Rightarrow> execution_command \<Rightarrow> (execution_state, unit) prog" where
  "execution_op ref (Prepare has_tools) = bindP (prepare_current_step has_tools) (\<lambda>_. ret ())"
| "execution_op ref Tool_Round = mark_tool_round_complete"
| "execution_op ref (Set_Pending r) = set_pending_result r"
| "execution_op ref Fail = bindP fail_current_step (\<lambda>_. ret ())"
| "execution_op ref Commit_Pending = bindP (commit_pending ref) (\<lambda>_. ret ())"
| "execution_op ref Finalize = begin_finalization"
| "execution_op ref (Record_Final response persisted emitted) = record_final_response response persisted emitted"

text \<open>An operation that raises is caught by its caller, which goes on with the state it left.\<close>

fun execution_run :: "(step_result \<Rightarrow> string) \<Rightarrow> execution_command list \<Rightarrow> execution_state \<Rightarrow>
    (execution_command \<times> unit res) list \<times> execution_state" where
  "execution_run ref [] s = ([], s)"
| "execution_run ref (op # ops) s =
     (let (r, s1) = execution_op ref op s; (rs, s2) = execution_run ref ops s1 in ((op, r) # rs, s2))"

lemma result_shape: "snd (bindP m (\<lambda>_. ret ()) s) = snd (m s)"
  by (auto simp: bindP_run ret_def split: prod.split sum.split)

lemma results_dset:
  assumes "results_ok ref p rs" and "st \<in> set (pl_steps p)" and "ps_step_id st = sr_step_id r"
    and "ps_status st = COMPLETED" and "ps_result_ref st = Some (ref r)"
  shows "results_ok ref p (dset (sr_step_id r) r rs)"
  using assms set_dset_subset [of "sr_step_id r" r rs] unfolding results_ok_def by fast

lemma commit_pending_accepted:
  assumes acc: "accepted ref s"
  shows "accepted ref (snd (commit_pending ref s))"
proof (cases "es_pending_step_result s")
  case (Some r)
  have p: "plan_wf (es_plan s)" using acc by (simp add: accepted_iff)
  obtain out p' where run: "commit (ref r) (Some (sr_step_id r)) (es_plan s) = (out, p')" by fastforce
  show ?thesis
  proof (cases out)
    case (Inl e)
    then show ?thesis
      using acc Some run commit_extends [OF p run] by (simp add: commit_pending_def commit_result_def)
  next
    case (Inr st)
    then obtain s0 where s0: "extends (es_plan s) p'" "plan_current (es_plan s) = Some s0"
        "sr_step_id r = ps_step_id s0" "committed (ref r) s0 \<in> set (pl_steps p')"
      using commit_extends [OF p run] by auto
    have "results_ok ref p' (dset (sr_step_id r) r (es_committed_results s))"
      using acc s0 by (intro results_dset [where st = "committed (ref r) s0"] extends_results [OF s0(1)])
        (auto simp: accepted_iff committed_def)
    moreover have "plan_current p' = Some c \<Longrightarrow> ps_step_id c \<in> set (step_ids (pl_steps p'))" for c
      by (auto simp: plan_current_def step_ids_def split: if_splits)
    ultimately show ?thesis
      using acc Some run Inr s0(1)
      by (auto simp: commit_pending_def commit_result_def accepted_iff extends_def counts_ok_def calls_ok_def
          hashed_field_def current_ok_def final_ok_def normalize_active_def split: option.split)
  qed
qed (use acc in \<open>simp add: commit_pending_def\<close>)

lemma prepare_accepted:
  assumes acc: "accepted ref s"
  shows "accepted ref (snd (prepare_current_step has_tools s))"
proof -
  have p: "plan_wf (es_plan s)" using acc by (simp add: accepted_iff)
  obtain step p' where run: "start_current (es_plan s) = (Inr step, p')"
      and cur: "map_option ps_step_id step = map_option ps_step_id (plan_current p')"
    using start_current_step [OF p] by (metis prod.collapse)
  have ext: "extends (es_plan s) p'" using start_current_extends [OF p] run by simp
  have "plan_current p' = Some c \<Longrightarrow> ps_step_id c \<in> set (step_ids (pl_steps p'))" for c
    by (auto simp: plan_current_def step_ids_def split: if_splits)
  then show ?thesis
    using acc run cur ext extends_results [OF ext, of ref "es_committed_results s"]
    by (auto simp: prepare_current_step_def accepted_iff extends_def counts_ok_def calls_ok_def
        hashed_field_def current_ok_def final_ok_def normalize_active_def split: option.split)
qed

lemma fail_accepted:
  assumes acc: "accepted ref s"
  shows "accepted ref (snd (fail_current_step s))"
proof -
  have ext: "extends (es_plan s) (update_step i fail_step (es_plan s))" for i
    using acc by (intro update_step_wf) (simp add: accepted_iff)
  have cur: "plan_current (update_step i fail_step p) = None \<longleftrightarrow> plan_current p = None" for i p
    by (simp add: plan_current_def update_step_def)
  have "results_ok ref (update_step i fail_step (es_plan s)) (es_committed_results s)" for i
    using acc extends_results [OF ext] by (simp add: accepted_iff)
  then show ?thesis
    using acc ext cur
    by (auto simp: fail_current_step_def accepted_iff extends_def counts_ok_def calls_ok_def
        current_ok_def final_ok_def normalize_active_def split: option.splits)
qed

lemma record_accepted:
  "accepted ref s \<Longrightarrow> accepted ref (snd (record_final_response response persisted emitted s))"
  by (auto simp: record_final_response_def accepted_iff final_ok_def)

lemma finalize_accepted: "accepted ref s \<Longrightarrow> accepted ref (snd (begin_finalization s))"
  by (auto simp: begin_finalization_def accepted_iff counts_ok_def final_ok_def)

lemma set_pending_accepted:
  assumes "accepted ref s"
  shows "accepted ref (snd (set_pending_result r s))"
  using assms current_step_found [OF assms]
  by (cases "es_current_step_id s")
    (auto simp: set_pending_result_def accepted_iff current_ok_def final_ok_def split: option.splits)

lemma tool_round_accepted: "accepted ref s \<Longrightarrow> accepted ref (snd (mark_tool_round_complete s))"
  by (auto simp: mark_tool_round_complete_def accepted_iff)

lemma op_accepted: "accepted ref s \<Longrightarrow> accepted ref (snd (execution_op ref op s))"
  by (cases op) (simp_all add: result_shape prepare_accepted commit_pending_accepted fail_accepted record_accepted
    finalize_accepted set_pending_accepted tool_round_accepted)

lemma run_snd [simp]:
  "snd (execution_run ref [] s) = s"
  "snd (execution_run ref (op # ops) s) = snd (execution_run ref ops (snd (execution_op ref op s)))"
  by (simp_all add: Let_def split: prod.split)

lemma run_fst [simp]:
  "fst (execution_run ref [] s) = []"
  "fst (execution_run ref (op # ops) s) =
     (op, fst (execution_op ref op s)) # fst (execution_run ref ops (snd (execution_op ref op s)))"
  by (simp_all add: Let_def split: prod.split)

declare execution_run.simps [simp del]

lemma run_accepted: "accepted ref s \<Longrightarrow> accepted ref (snd (execution_run ref ops s))"
  by (induction ops arbitrary: s) (simp_all add: op_accepted)

text \<open>
  C13.  A plan run can be reloaded at any moment: whatever transitions run, in any order, with their errors
  caught, the constructor that every load from a checkpoint goes through accepts the state they leave,
  unchanged, and its plan too.
\<close>

theorem execution_reloads:
  assumes "ExecutionState ref s = Inr s"
    and "Plan (pl_steps (es_plan s)) (int (pl_current_index (es_plan s))) (pl_version (es_plan s)) = Inr (es_plan s)"
    and "snd (execution_run ref ops s) = s'"
  shows "ExecutionState ref s' = Inr s' \<and>
    Plan (pl_steps (es_plan s')) (int (pl_current_index (es_plan s'))) (pl_version (es_plan s')) = Inr (es_plan s')"
proof -
  have "accepted ref s" using assms(1,2) by (simp add: accepted_def plan_wf_reloads)
  then have "accepted ref s'" using run_accepted assms(3) by blast
  then show ?thesis
    by (simp_all add: accepted_def plan_wf_reloads)
qed

subsection \<open>What stays\<close>

lemma commit_pending_stable:
  assumes acc: "accepted ref s" and old: "dget (es_committed_results s) i = Some r"
  shows "dget (es_committed_results (snd (commit_pending ref s))) i = Some r"
proof (cases "es_pending_step_result s")
  case (Some q)
  have p: "plan_wf (es_plan s)" using acc by (simp add: accepted_iff)
  obtain out p' where run: "commit (ref q) (Some (sr_step_id q)) (es_plan s) = (out, p')" by fastforce
  have "sr_step_id q \<noteq> i" if out: "out = Inr st" for st
  proof
    assume i: "sr_step_id q = i"
    obtain s0 where s0: "plan_current (es_plan s) = Some s0" "ps_step_id s0 = i" "ps_status s0 \<in> {PENDING, IN_PROGRESS}"
      using commit_extends [OF p run] out i by auto
    obtain s1 where s1: "s1 \<in> set (pl_steps (es_plan s))" "ps_step_id s1 = i" "ps_status s1 = COMPLETED"
      using acc map_of_SomeD [OF old] by (auto simp: accepted_iff results_ok_def)
    have "s0 \<in> set (pl_steps (es_plan s))" using s0(1) by (auto simp: plan_current_def split: if_splits)
    then have "s0 = s1"
      using s0(2) s1(1,2) plan_wf_distinct [OF p] by (auto simp: step_ids_def distinct_map dest: inj_onD)
    then show False using s0(3) s1(3) by simp
  qed
  then show ?thesis
    using old Some run by (auto simp: commit_pending_def commit_result_def dget_dset split: sum.split)
qed (use old in \<open>simp add: commit_pending_def\<close>)

lemma op_results:
  "op \<noteq> Commit_Pending \<Longrightarrow> es_committed_results (snd (execution_op ref op s)) = es_committed_results s"
  by (cases op) (auto simp: result_shape prepare_current_step_def mark_tool_round_complete_def
    set_pending_result_def fail_current_step_def begin_finalization_def record_final_response_def
    split: option.split prod.split sum.split)

lemma op_stable:
  assumes "accepted ref s" and "dget (es_committed_results s) i = Some r"
  shows "dget (es_committed_results (snd (execution_op ref op s))) i = Some r"
  using assms commit_pending_stable [OF assms] op_results [of op ref s]
  by (cases "op = Commit_Pending") (simp_all add: result_shape)

text \<open>
  A committed result is final: whatever transitions follow, the step keeps the result it was
  committed with, and stays completed with that result's hash.
\<close>

theorem committed_results_final:
  assumes "ExecutionState ref s = Inr s"
    and "Plan (pl_steps (es_plan s)) (int (pl_current_index (es_plan s))) (pl_version (es_plan s)) = Inr (es_plan s)"
    and "dget (es_committed_results s) i = Some r"
    and "snd (execution_run ref ops s) = s'"
  shows "dget (es_committed_results s') i = Some r \<and>
    (\<exists>st \<in> set (pl_steps (es_plan s')). ps_step_id st = i \<and> ps_status st = COMPLETED \<and>
       ps_result_ref st = Some (ref r))"
proof -
  have acc: "accepted ref s" using assms(1,2) by (simp add: accepted_def plan_wf_reloads)
  then have "dget (es_committed_results (snd (execution_run ref ops s))) i = Some r"
    using assms(3) by (induction ops arbitrary: s) (simp_all add: op_accepted op_stable)
  moreover have "results_ok ref (es_plan s') (es_committed_results s')"
    using run_accepted [OF acc] assms(4) by (auto simp: accepted_iff)
  ultimately show ?thesis using assms(4) by (auto simp: results_ok_def dest!: map_of_SomeD)
qed

subsection \<open>Finalization\<close>

definition emission :: "execution_command \<times> unit res \<Rightarrow> bool" where
  "emission step \<longleftrightarrow> (\<exists>response persisted. step = (Record_Final response persisted True, Inr ()))"

lemma emission_simps [simp]:
  "emission (op, r) \<longleftrightarrow> (case op of Record_Final _ _ e \<Rightarrow> e \<and> r = Inr () | _ \<Rightarrow> False)"
  by (auto simp: emission_def split: execution_command.split)

lemma op_emitted:
  "es_final_emitted (snd (execution_op ref op s)) \<longleftrightarrow>
     es_final_emitted s \<or> emission (op, fst (execution_op ref op s))"
  "emission (op, fst (execution_op ref op s)) \<Longrightarrow> \<not> es_final_emitted s"
  by (cases op; auto simp: result_shape prepare_current_step_def mark_tool_round_complete_def commit_pending_def
    set_pending_result_def fail_current_step_def begin_finalization_def record_final_response_def
    split: option.split prod.split sum.split)+

lemma emissions_counted:
  "length (filter emission (fst (execution_run ref ops s))) + of_bool (es_final_emitted s) =
     of_bool (es_final_emitted (snd (execution_run ref ops s)))"
proof (induction ops arbitrary: s)
  case (Cons op ops)
  show ?case
    using Cons [of "snd (execution_op ref op s)"] op_emitted [where ref = ref and op = op and s = s]
    by (auto simp: of_bool_def simp del: emission_simps split: if_splits)
qed simp

lemma no_late_finalization:
  "es_final_emitted s \<Longrightarrow> (Finalize, r) \<in> set (fst (execution_run ref ops s)) \<Longrightarrow>
     r = Inl (RuntimeError ''final output has already been emitted'')"
proof (induction ops arbitrary: s)
  case (Cons op ops)
  show ?case
    using Cons.prems Cons.IH [of "snd (execution_op ref op s)"] op_emitted(1) [where ref = ref and op = op and s = s]
    by (auto simp: begin_finalization_def)
qed simp

text \<open>
  The final answer is emitted at most once in the life of a plan run, whatever transitions run in
  whatever order; once it has been emitted, no finalization begins again.
\<close>

theorem final_answer_once:
  assumes "execution_run ref ops s = (steps, s')"
  shows "length (filter emission steps) + of_bool (es_final_emitted s) = of_bool (es_final_emitted s') \<and>
    (es_final_emitted s \<longrightarrow> (\<forall>r. (Finalize, r) \<in> set steps \<longrightarrow>
       r = Inl (RuntimeError ''final output has already been emitted'')))"
  using emissions_counted [of ref ops s] no_late_finalization [of s _ ref ops] assms by simp

subsection \<open>A run\<close>

definition sample_ref :: "step_result \<Rightarrow> string" where
  "sample_ref r = ''sha256:'' @ sr_step_id r"

definition sample_result :: "string \<Rightarrow> step_result" where
  "sample_result i = \<lparr>sr_step_id = i, sr_status = SR_completed, sr_facts = [''f''], sr_artifacts = [],
     sr_uncertainties = [], sr_missing_inputs = [], sr_completion_evidence = []\<rparr>"

definition sample_execution :: execution_state where
  "sample_execution = \<lparr>es_phase = P_STEP_PREPARE, es_plan = sample_plan, es_current_step_id = Some ''a'',
     es_committed_results = [], es_pending_step_result = None, es_validation_error = None,
     es_awaiting_step_result = False, es_replan_count = 0, es_finalization_count = 0, es_final_response = None,
     es_final_persisted = False, es_final_emitted = False, es_tool_repair_counts = [],
     es_pending_tool_failure = None, es_total_tool_repairs = 0, es_failure = None, es_active_tool_calls = [],
     es_seen_tool_call_ids = []\<rparr>"

definition sample_commands :: "string \<Rightarrow> execution_command list" where
  "sample_commands i = [Prepare False, Set_Pending (sample_result i), Commit_Pending]"

definition sample_half :: execution_state where
  "sample_half = snd (execution_run sample_ref (sample_commands ''a'') sample_execution)"

lemma execution_run_code [code]:
  "execution_run ref [] s = ([], s)"
  "execution_run ref (op # ops) s =
     (let (r, s1) = execution_op ref op s; (rs, s2) = execution_run ref ops s1 in ((op, r) # rs, s2))"
  by (simp_all add: execution_run.simps)

lemma sample_loads:
  "ExecutionState sample_ref sample_execution = Inr sample_execution"
  "Plan (pl_steps (es_plan sample_execution)) (int (pl_current_index (es_plan sample_execution)))
     (pl_version (es_plan sample_execution)) = Inr (es_plan sample_execution)"
  by code_simp+

lemma sample_half_loads:
  "ExecutionState sample_ref sample_half = Inr sample_half"
  "Plan (pl_steps (es_plan sample_half)) (int (pl_current_index (es_plan sample_half)))
     (pl_version (es_plan sample_half)) = Inr (es_plan sample_half)"
  by code_simp+

theorem execution_reloads_witness:
  "ExecutionState sample_ref sample_half = Inr sample_half \<and> es_committed_results sample_half = [(''a'', sample_result ''a'')]"
proof -
  have "es_committed_results sample_half = [(''a'', sample_result ''a'')]" by code_simp
  then show ?thesis using execution_reloads [OF sample_loads sample_half_def [symmetric]] by simp
qed

theorem committed_results_final_witness:
  "dget (es_committed_results (snd (execution_run sample_ref (Fail # sample_commands ''b'' @ sample_commands ''a'')
     sample_half))) ''a'' = Some (sample_result ''a'')"
proof -
  have "dget (es_committed_results sample_half) ''a'' = Some (sample_result ''a'')" by code_simp
  from committed_results_final [OF sample_half_loads this refl] show ?thesis by (rule conjunct1)
qed

theorem final_answer_once_witness:
  "\<exists>steps s'. execution_run sample_ref
      (sample_commands ''a'' @ sample_commands ''b'' @ [Finalize, Record_Final ''x'' True True,
        Record_Final ''y'' True True, Finalize]) sample_execution = (steps, s') \<and>
     es_final_emitted s' \<and> length (filter emission steps) = 1"
proof -
  obtain steps s' where run: "execution_run sample_ref
      (sample_commands ''a'' @ sample_commands ''b'' @ [Finalize, Record_Final ''x'' True True,
        Record_Final ''y'' True True, Finalize]) sample_execution = (steps, s')" by fastforce
  have "es_final_emitted (snd (execution_run sample_ref
      (sample_commands ''a'' @ sample_commands ''b'' @ [Finalize, Record_Final ''x'' True True,
        Record_Final ''y'' True True, Finalize]) sample_execution))" by code_simp
  moreover have "\<not> es_final_emitted sample_execution" by code_simp
  ultimately show ?thesis using final_answer_once [OF run] run by simp
qed

end
