(* ===== verification/Plan_Codec.thy ===== *)
theory Plan_Codec
  imports Plan_Execution_Props
begin

text \<open>
  Plans and their steps as JSON-like dictionaries (\<^verbatim>\<open>to_dict\<close> and \<^verbatim>\<open>from_dict\<close> of \<^verbatim>\<open>PlanStep\<close> and \<^verbatim>\<open>Plan\<close>,
  \<^verbatim>\<open>moduagent/decision/planning.py\<close>) and the readers of single fields.  The \<^verbatim>\<open>str\<close> and \<^verbatim>\<open>int\<close> of a dynamic
  value are the parameters \<open>text_of\<close> and \<open>int_of\<close>; \<open>coercions_ok\<close> states that \<^verbatim>\<open>str\<close> keeps a \<^verbatim>\<open>str\<close> and
  \<^verbatim>\<open>int\<close> keeps an \<^verbatim>\<open>int\<close>.
\<close>

subsection \<open>Fields\<close>

definition coercions_ok :: "(pyval \<Rightarrow> string) \<Rightarrow> (pyval \<Rightarrow> int option) \<Rightarrow> bool" where
  "coercions_ok text_of int_of \<longleftrightarrow> (\<forall>s. text_of (PStr s) = s) \<and> (\<forall>n. int_of (PInt n) = Some n)"

definition optional_str :: "(pyval \<Rightarrow> string) \<Rightarrow> (string, pyval) dict \<Rightarrow> string \<Rightarrow> string option" where
  "optional_str text_of d k = map_option text_of (present d k)"

definition int_value :: "(pyval \<Rightarrow> int option) \<Rightarrow> pyval \<Rightarrow> int res" where
  "int_value int_of v = (case int_of v of None \<Rightarrow> Inl (OtherException ''invalid int'') | Some n \<Rightarrow> Inr n)"

definition array_value :: "string \<Rightarrow> pyval \<Rightarrow> pyval list res" where
  "array_value message v = (case v of PList xs \<Rightarrow> Inr xs | _ \<Rightarrow> Inl (ValueError message))"

definition mapping_value :: "string \<Rightarrow> pyval \<Rightarrow> (string, pyval) dict res" where
  "mapping_value message v = (case v of PDict d \<Rightarrow> Inr d | _ \<Rightarrow> Inl (ValueError message))"

definition enum_value :: "(string \<times> 'a) list \<Rightarrow> string \<Rightarrow> 'a res" where
  "enum_value values s = (case dget values s of None \<Rightarrow> Inl (ValueError ''invalid enum value'') | Some x \<Rightarrow> Inr x)"

definition text_value :: "string option \<Rightarrow> pyval" where
  "text_value t = (case t of None \<Rightarrow> PNone | Some s \<Rightarrow> PStr s)"

subsection \<open>Steps\<close>

fun step_status_value :: "plan_step_status \<Rightarrow> string" where
  "step_status_value PENDING = ''pending''"
| "step_status_value IN_PROGRESS = ''in_progress''"
| "step_status_value COMPLETED = ''completed''"
| "step_status_value BLOCKED = ''blocked''"
| "step_status_value FAILED = ''failed''"
| "step_status_value SKIPPED = ''skipped''"

definition step_statuses :: "(string \<times> plan_step_status) list" where
  "step_statuses = map (\<lambda>s. (step_status_value s, s)) [PENDING, IN_PROGRESS, COMPLETED, BLOCKED, FAILED, SKIPPED]"

definition plan_step_to_dict :: "plan_step \<Rightarrow> pyval" where
  "plan_step_to_dict s = PDict
     [(''step_id'', PStr (ps_step_id s)), (''objective'', PStr (ps_objective s)),
      (''description'', PStr (ps_description s)),
      (''completion_criteria'', PList (map PStr (ps_completion_criteria s))),
      (''expected_output'', text_value (ps_expected_output s)),
      (''dependencies'', PList (map PStr (ps_dependencies s))),
      (''allowed_tools'', PList (map PStr (ps_allowed_tools s))),
      (''status'', PStr (step_status_value (ps_status s))), (''attempt_count'', PInt (ps_attempt_count s)),
      (''result_ref'', text_value (ps_result_ref s)), (''metadata'', PDict (ps_metadata s))]"

definition plan_step_from_dict ::
  "(string \<Rightarrow> string) \<Rightarrow> (pyval \<Rightarrow> string) \<Rightarrow> (pyval \<Rightarrow> int option) \<Rightarrow> pyval \<Rightarrow> plan_step res" where
  "plan_step_from_dict hash text_of int_of value =
     bindR (mapping_value ''plan step must be an object'' value) (\<lambda>d.
     bindR (array_value ''plan step completion_criteria must be an array''
       (dget_or d ''completion_criteria'' (PList []))) (\<lambda>criteria.
     bindR (array_value ''plan step dependencies must be an array''
       (dget_or d ''dependencies'' (PList []))) (\<lambda>dependencies.
     bindR (array_value ''plan step allowed_tools must be an array''
       (dget_or d ''allowed_tools'' (PList []))) (\<lambda>allowed_tools.
     bindR (mapping_value ''plan step metadata must be an object'' (dget_or d ''metadata'' (PDict []))) (\<lambda>metadata.
     let objective = dget_or d ''objective'' PNone;
         description = dget_or d ''description'' (if falsy objective then PStr [] else objective) in
     bindR (case dget_or d ''status'' (PStr ''pending'') of PStr s \<Rightarrow> enum_value step_statuses s
       | _ \<Rightarrow> Inl (ValueError ''invalid enum value'')) (\<lambda>status.
     bindR (int_value int_of (dget_or d ''attempt_count'' (PInt 0))) (\<lambda>attempt_count.
     PlanStep hash (text_of description) status (optional_str text_of d ''expected_output'') metadata
       (text_of (dget_or d ''step_id'' (PStr []))) (if objective = PNone then None else Some (text_of objective))
       (map text_of criteria) (map text_of dependencies) (map text_of allowed_tools) attempt_count
       (optional_str text_of d ''result_ref''))))))))"

text \<open>A step that its constructor accepts unchanged, and that every step the constructor builds is.\<close>

definition step_wf :: "(string \<Rightarrow> string) \<Rightarrow> plan_step \<Rightarrow> bool" where
  "step_wf hash s \<longleftrightarrow> PlanStep hash (ps_description s) (ps_status s) (ps_expected_output s) (ps_metadata s)
     (ps_step_id s) (Some (ps_objective s)) (ps_completion_criteria s) (ps_dependencies s) (ps_allowed_tools s)
     (ps_attempt_count s) (ps_result_ref s) = Inr s"

subsection \<open>Plans\<close>

definition plan_to_dict :: "plan \<Rightarrow> pyval" where
  "plan_to_dict p = PDict
     [(''steps'', PList (map plan_step_to_dict (pl_steps p))), (''current_index'', PInt (int (pl_current_index p))),
      (''version'', PInt (pl_version p))]"

definition plan_from_dict ::
  "(string \<Rightarrow> string) \<Rightarrow> (pyval \<Rightarrow> string) \<Rightarrow> (pyval \<Rightarrow> int option) \<Rightarrow> pyval \<Rightarrow> plan res" where
  "plan_from_dict hash text_of int_of value =
     bindR (mapping_value ''plan must be an object'' value) (\<lambda>d.
     bindR (array_value ''plan steps must be an array'' (dget_or d ''steps'' (PList []))) (\<lambda>raw_steps.
     bindR (mapR (plan_step_from_dict hash text_of int_of) raw_steps) (\<lambda>steps.
     bindR (int_value int_of (dget_or d ''current_index'' (PInt 0))) (\<lambda>current_index.
     bindR (int_value int_of (dget_or d ''version'' (PInt 1))) (\<lambda>version.
     Plan steps current_index version)))))"

subsection \<open>Facts\<close>

lemma text_value_inv: "text_value t = PNone \<longleftrightarrow> t = None" "text_value None = PNone" "text_value (Some s) = PStr s"
  by (simp_all add: text_value_def split: option.split)

lemma optional_text_value:
  "coercions_ok text_of int_of \<Longrightarrow> map_option text_of (if text_value t = PNone then None else Some (text_value t)) = t"
  by (cases t) (simp_all add: coercions_ok_def text_value_def)

lemma mapR_map_id: "(\<And>x. x \<in> set xs \<Longrightarrow> g (f x) = Inr x) \<Longrightarrow> mapR g (map f xs) = Inr xs"
  by (induction xs) auto

lemma map_text_PStr: "coercions_ok text_of int_of \<Longrightarrow> map text_of (map PStr xs) = xs"
  by (simp add: coercions_ok_def comp_def)

lemma step_status_known: "enum_value step_statuses (step_status_value s) = Inr s"
  by (cases s) (simp_all add: enum_value_def step_statuses_def)

lemma string_list_Inr:
  "string_list xs f = Inr ys \<longleftrightarrow> ys = map strip xs \<and> [] \<notin> set ys \<and> distinct ys"
  by (auto simp: string_list_def Let_def bindR_Inr_iff)

lemma string_list_again: "string_list xs f = Inr ys \<Longrightarrow> string_list ys g = Inr ys"
  by (auto simp: string_list_Inr comp_def)

text \<open>The checks of the constructor on a step that is already normal; the hash plays no part.\<close>

definition step_normal :: "plan_step \<Rightarrow> bool" where
  "step_normal s \<longleftrightarrow> strip (ps_description s) = ps_description s \<and> strip (ps_objective s) = ps_objective s \<and>
     ps_objective s \<noteq> [] \<and> ps_description s \<noteq> [] \<and> strip (ps_step_id s) = ps_step_id s \<and> ps_step_id s \<noteq> [] \<and>
     map_option strip (ps_expected_output s) = ps_expected_output s \<and> 0 \<le> ps_attempt_count s \<and>
     ps_completion_criteria s \<noteq> [] \<and> (\<forall>xs \<in> {ps_completion_criteria s, ps_dependencies s, ps_allowed_tools s}.
       \<forall>f. string_list xs f = Inr xs)"

lemma PlanStep_normal:
  assumes "PlanStep hash description status expected_output metadata step_id objective completion_criteria
     dependencies allowed_tools attempt_count result_ref = Inr s"
  shows "step_normal s"
proof -
  obtain criteria where strips: "strip (ps_description s) = ps_description s" "strip (ps_objective s) = ps_objective s"
      "ps_objective s \<noteq> []" "ps_description s \<noteq> []" "strip (ps_step_id s) = ps_step_id s" "ps_step_id s \<noteq> []"
      "map_option strip (ps_expected_output s) = ps_expected_output s" "0 \<le> ps_attempt_count s"
    and lists: "string_list criteria ''completion_criteria'' = Inr (ps_completion_criteria s)" "criteria \<noteq> []"
      "string_list dependencies ''dependencies'' = Inr (ps_dependencies s)"
      "string_list allowed_tools ''allowed_tools'' = Inr (ps_allowed_tools s)"
    using assms
    by (auto simp: PlanStep_def Let_def bindR_Inr_iff option.map_comp comp_def split: if_splits)
  have "ps_completion_criteria s \<noteq> []" using lists(1,2) by (auto simp: string_list_Inr)
  then show ?thesis
    using strips string_list_again [OF lists(1)] string_list_again [OF lists(3)] string_list_again [OF lists(4)]
    by (simp add: step_normal_def)
qed

lemma step_wf_iff: "step_wf hash s \<longleftrightarrow> step_normal s"
proof
  show "step_wf hash s \<Longrightarrow> step_normal s" unfolding step_wf_def by (rule PlanStep_normal)
qed (simp add: step_wf_def step_normal_def PlanStep_def Let_def all_ok.simps)

lemma plan_step_dict:
  assumes "coercions_ok text_of int_of" and "step_wf hash s"
  shows "plan_step_from_dict hash text_of int_of (plan_step_to_dict s) = Inr s"
  using assms optional_text_value [OF assms(1)]
  by (simp add: plan_step_from_dict_def plan_step_to_dict_def mapping_value_def array_value_def int_value_def
    step_status_known optional_str_def present_def map_text_PStr [OF assms(1)] step_wf_def
    coercions_ok_def Let_def comp_def)

lemma plan_step_loaded: "plan_step_from_dict hash text_of int_of v = Inr s \<Longrightarrow> step_wf hash s"
  by (auto simp: plan_step_from_dict_def Let_def bindR_Inr_iff step_wf_iff dest!: PlanStep_normal)

lemma plan_dict:
  assumes laws: "coercions_ok text_of int_of" and p: "plan_wf p" and steps: "list_all (step_wf hash) (pl_steps p)"
  shows "plan_from_dict hash text_of int_of (plan_to_dict p) = Inr p"
proof -
  have "mapR (plan_step_from_dict hash text_of int_of) (map plan_step_to_dict (pl_steps p)) = Inr (pl_steps p)"
    using plan_step_dict [OF laws] steps by (intro mapR_map_id) (auto simp: list_all_iff)
  then show ?thesis
    using laws p unfolding plan_wf_reloads
    by (simp add: plan_from_dict_def plan_to_dict_def mapping_value_def array_value_def int_value_def coercions_ok_def)
qed

lemma plan_loaded:
  assumes "plan_from_dict hash text_of int_of v = Inr p"
  shows "plan_wf p" and "list_all (step_wf hash) (pl_steps p)"
proof -
  obtain steps i version vs where run: "Plan steps i version = Inr p"
      and steps: "mapR (plan_step_from_dict hash text_of int_of) vs = Inr steps"
    using assms by (auto simp: plan_from_dict_def bindR_Inr_iff)
  from run have shape: "1 \<le> version" "0 \<le> i" "i \<le> int (length steps)" "ordered_steps steps"
      "p = move_to_next_open_step \<lparr>pl_steps = steps, pl_current_index = nat i, pl_version = version\<rparr>"
    by (simp_all add: accepted_plan)
  then show "plan_wf p" by (auto intro: move_wf)
  show "list_all (step_wf hash) (pl_steps p)"
    using shape(5) mapR_all [OF steps plan_step_loaded] by (simp add: list_all_iff)
qed

lemma step_wf_update [simp]:
  "step_wf hash (s\<lparr>ps_status := st\<rparr>) = step_wf hash s"
  "step_wf hash (s\<lparr>ps_result_ref := r\<rparr>) = step_wf hash s"
  "step_wf hash s \<Longrightarrow> 0 \<le> n \<Longrightarrow> step_wf hash (s\<lparr>ps_attempt_count := n\<rparr>)"
  by (simp_all add: step_wf_iff step_normal_def)

end
