(* ===== verification/Plan_Engine_State.thy ===== *)
theory Plan_Engine_State
  imports Plan_Codec
begin

text \<open>
  The nested state of the plan engine (\<^verbatim>\<open>moduagent/execution/planning/state.py\<close>): progress, step,
  recovery, finalization and the engine state over them, the conversions from and to the flat
  \<^verbatim>\<open>ExecutionState\<close>.  A deep copy of a value is the value.
\<close>

subsection \<open>State\<close>

datatype engine_phase = E_PLAN | E_STEP_PREPARE | E_ACT_TOOL | E_TOOL_RECOVERY | E_STEP_RESULT
  | E_STEP_VALIDATE | E_VERIFY | E_FINALIZE | E_DONE | E_FAILED

datatype finish_reason = FR_COMPLETED | FR_MAX_STEPS | FR_MAX_TOOL_CALLS | FR_MAX_MODEL_TURNS | FR_NO_PROGRESS
  | FR_TIMEOUT | FR_CANCELLED | FR_ERROR

record plan_progress_state =
  pg_plan :: plan
  pg_committed_results :: "(string, step_result) dict"
  pg_replan_count :: int

record step_execution_state =
  se_current_step_id :: "string option"
  se_pending_step_result :: "step_result option"
  se_validation_feedback :: "string option"
  se_step_attempt_count :: int

record plan_finalization_state =
  pf_response :: "string option"
  pf_invocation_count :: int
  pf_persisted :: bool
  pf_emitted :: bool

record plan_engine_state =
  pe_phase :: engine_phase
  pe_plan_progress :: plan_progress_state
  pe_step_execution :: step_execution_state
  pe_tool_recovery :: recovery_state
  pe_finalization :: plan_finalization_state
  pe_finish_reason :: "finish_reason option"
  pe_terminal_error :: "string option"

fun finish_reason_value :: "finish_reason \<Rightarrow> string" where
  "finish_reason_value FR_COMPLETED = ''completed''"
| "finish_reason_value FR_MAX_STEPS = ''max_steps''"
| "finish_reason_value FR_MAX_TOOL_CALLS = ''max_tool_calls''"
| "finish_reason_value FR_MAX_MODEL_TURNS = ''max_model_turns''"
| "finish_reason_value FR_NO_PROGRESS = ''no_progress''"
| "finish_reason_value FR_TIMEOUT = ''timeout''"
| "finish_reason_value FR_CANCELLED = ''cancelled''"
| "finish_reason_value FR_ERROR = ''error''"

definition PlanProgressState :: "plan_progress_state \<Rightarrow> plan_progress_state res" where
  "PlanProgressState s = bindR (require (0 \<le> pg_replan_count s)
     (ValueError ''replan_count cannot be negative'')) (\<lambda>_. Inr s)"

definition StepExecutionState :: "step_execution_state \<Rightarrow> step_execution_state res" where
  "StepExecutionState s = bindR (all_ok
     [require (case se_current_step_id s of None \<Rightarrow> True | Some i \<Rightarrow> strip i \<noteq> [])
        (ValueError ''current_step_id cannot be empty''),
      require (0 \<le> se_step_attempt_count s) (ValueError ''step_attempt_count cannot be negative'')])
     (\<lambda>_. Inr s)"

definition PlanFinalizationState :: "plan_finalization_state \<Rightarrow> plan_finalization_state res" where
  "PlanFinalizationState s = bindR (all_ok
     [require (0 \<le> pf_invocation_count s) (ValueError ''invocation_count cannot be negative''),
      require (pf_persisted s \<or> pf_emitted s \<longrightarrow> pf_response s \<noteq> None)
        (ValueError ''finalization markers require a response'')]) (\<lambda>_. Inr s)"

definition PlanEngineState :: "plan_engine_state \<Rightarrow> plan_engine_state res" where
  "PlanEngineState s =
     (let reason = (if pe_phase s = E_FAILED \<and> pe_finish_reason s = None then Some FR_ERROR
            else pe_finish_reason s);
          step_id = se_current_step_id (pe_step_execution s);
          known_ids = step_ids (pl_steps (pg_plan (pe_plan_progress s)));
          pending = se_pending_step_result (pe_step_execution s) in
      bindR (all_ok
        [require (case step_id of None \<Rightarrow> True | Some i \<Rightarrow> i \<in> set known_ids)
           (ValueError ''current_step_id does not exist in the plan''),
         require (case pending of None \<Rightarrow> True | Some r \<Rightarrow> (case step_id of None \<Rightarrow> True | Some i \<Rightarrow> sr_step_id r = i))
           (ValueError ''pending StepResult does not match current_step_id''),
         require (pe_phase s = E_DONE \<longrightarrow> pf_emitted (pe_finalization s))
           (ValueError ''DONE Plan state requires an emitted final response'')])
        (\<lambda>_. Inr (s\<lparr>pe_finish_reason := reason\<rparr>)))"

definition engine_current_step :: "plan_engine_state \<Rightarrow> plan_step option" where
  "engine_current_step s = (let p = pg_plan (pe_plan_progress s) in
     case se_current_step_id (pe_step_execution s) of None \<Rightarrow> plan_current p | Some i \<Rightarrow> find_step p i)"

subsection \<open>From and to the flat state\<close>

definition from_legacy_phase :: "execution_state \<Rightarrow> engine_phase" where
  "from_legacy_phase s = (case es_phase s of
     P_ACT \<Rightarrow> if es_awaiting_step_result s then E_STEP_RESULT
       else if es_pending_tool_failure s \<noteq> None then E_TOOL_RECOVERY else E_ACT_TOOL
   | P_PLAN \<Rightarrow> E_PLAN | P_STEP_PREPARE \<Rightarrow> E_STEP_PREPARE | P_STEP_VALIDATE \<Rightarrow> E_STEP_VALIDATE
   | P_VERIFY \<Rightarrow> E_VERIFY | P_FINALIZE \<Rightarrow> E_FINALIZE | P_DONE \<Rightarrow> E_DONE | P_FAILED \<Rightarrow> E_FAILED)"

fun to_legacy_phase :: "engine_phase \<Rightarrow> run_phase \<times> bool" where
  "to_legacy_phase E_ACT_TOOL = (P_ACT, False)"
| "to_legacy_phase E_TOOL_RECOVERY = (P_ACT, False)"
| "to_legacy_phase E_STEP_RESULT = (P_ACT, True)"
| "to_legacy_phase E_PLAN = (P_PLAN, False)"
| "to_legacy_phase E_STEP_PREPARE = (P_STEP_PREPARE, False)"
| "to_legacy_phase E_STEP_VALIDATE = (P_STEP_VALIDATE, False)"
| "to_legacy_phase E_VERIFY = (P_VERIFY, False)"
| "to_legacy_phase E_FINALIZE = (P_FINALIZE, False)"
| "to_legacy_phase E_DONE = (P_DONE, False)"
| "to_legacy_phase E_FAILED = (P_FAILED, False)"

definition legacy_terminal_error :: "(pyval \<Rightarrow> string) \<Rightarrow> (string, pyval) dict option \<Rightarrow> string option" where
  "legacy_terminal_error text_of failure = (case failure of None \<Rightarrow> None | Some d \<Rightarrow>
     (case List.map_filter (\<lambda>k. case dget d k of None \<Rightarrow> None | Some v \<Rightarrow> if falsy v then None else Some (text_of v))
        [''terminal_error'', ''terminal_reason'', ''reason''] of [] \<Rightarrow> None | t # _ \<Rightarrow> Some t))"

definition from_legacy ::
  "(pyval \<Rightarrow> string) \<Rightarrow> (pyval \<Rightarrow> int option) \<Rightarrow> execution_state \<Rightarrow> plan_engine_state res" where
  "from_legacy text_of int_of s =
     bindR (PlanProgressState \<lparr>pg_plan = es_plan s, pg_committed_results = es_committed_results s,
       pg_replan_count = es_replan_count s\<rparr>) (\<lambda>progress.
     bindR (StepExecutionState \<lparr>se_current_step_id = es_current_step_id s,
       se_pending_step_result = es_pending_step_result s, se_validation_feedback = es_validation_error s,
       se_step_attempt_count = (case current_step s of None \<Rightarrow> 0 | Some st \<Rightarrow> ps_attempt_count st)\<rparr>) (\<lambda>step.
     bindR (ToolRecoveryState text_of int_of \<lparr>rs_active_calls = es_active_tool_calls s,
       rs_seen_call_ids = es_seen_tool_call_ids s, rs_pending_failure = es_pending_tool_failure s,
       rs_repair_count_by_step = es_tool_repair_counts s, rs_total_repairs = es_total_tool_repairs s,
       rs_terminal_failure = es_failure s\<rparr>) (\<lambda>recovery.
     bindR (PlanFinalizationState \<lparr>pf_response = es_final_response s, pf_invocation_count = es_finalization_count s,
       pf_persisted = es_final_persisted s, pf_emitted = es_final_emitted s\<rparr>) (\<lambda>final.
     PlanEngineState \<lparr>pe_phase = from_legacy_phase s, pe_plan_progress = progress, pe_step_execution = step,
       pe_tool_recovery = recovery, pe_finalization = final,
       pe_finish_reason = (if es_phase s = P_FAILED then Some FR_ERROR else None),
       pe_terminal_error = legacy_terminal_error text_of (es_failure s)\<rparr>))))"

text \<open>\<open>digest\<close> is the hexadecimal SHA-256 of the canonical JSON of the result.\<close>

definition step_result_ref :: "(step_result \<Rightarrow> string) \<Rightarrow> step_result \<Rightarrow> string" where
  "step_result_ref digest result = ''sha256:'' @ digest result"

definition has_sha256_prefix :: "string option \<Rightarrow> bool" where
  "has_sha256_prefix ref \<longleftrightarrow> (case ref of None \<Rightarrow> False | Some s \<Rightarrow> take 7 s = ''sha256:'')"

definition validate_committed_structure :: "plan \<Rightarrow> (string, step_result) dict \<Rightarrow> unit res" where
  "validate_committed_structure p results = all_ok (map (\<lambda>(i, result).
     bindR (require (i = sr_step_id result) (ValueError ''committed result key does not match result step_id'')) (\<lambda>_.
     (case find_step p i of
        None \<Rightarrow> Inl (ValueError ''committed result refers to unknown step'')
      | Some step \<Rightarrow> all_ok
          [require (ps_status step = COMPLETED) (ValueError ''committed result step is not completed''),
           require (has_sha256_prefix (ps_result_ref step))
             (ValueError ''committed result step has no result hash'')]))) results)"

definition validate_committed_integrity :: "(step_result \<Rightarrow> string) \<Rightarrow> plan_progress_state \<Rightarrow> unit res" where
  "validate_committed_integrity ref progress =
     bindR (validate_committed_structure (pg_plan progress) (pg_committed_results progress)) (\<lambda>_.
     all_ok (map (\<lambda>(i, result). require
       (map_option ps_result_ref (find_step (pg_plan progress) i) = Some (Some (ref result)))
       (ValueError ''committed result hash does not match step'')) (pg_committed_results progress)))"

definition legacy_failure :: "plan_engine_state \<Rightarrow> (string, pyval) dict option" where
  "legacy_failure s = (case pe_finish_reason s of
     None \<Rightarrow> rs_terminal_failure (pe_tool_recovery s)
   | Some r \<Rightarrow>
       let d = dset ''finish_reason'' (PStr (finish_reason_value r))
             (case rs_terminal_failure (pe_tool_recovery s) of None \<Rightarrow> [] | Some d \<Rightarrow> d) in
       Some (case pe_terminal_error s of None \<Rightarrow> d | Some t \<Rightarrow> dset ''terminal_error'' (PStr t) d))"

definition legacy_plan :: "plan_engine_state \<Rightarrow> plan" where
  "legacy_plan s = (case se_current_step_id (pe_step_execution s) of
     None \<Rightarrow> pg_plan (pe_plan_progress s)
   | Some i \<Rightarrow> (case find_step (pg_plan (pe_plan_progress s)) i of
       None \<Rightarrow> pg_plan (pe_plan_progress s)
     | Some _ \<Rightarrow> update_step i (\<lambda>st. st\<lparr>ps_attempt_count :=
         max (ps_attempt_count st) (se_step_attempt_count (pe_step_execution s))\<rparr>) (pg_plan (pe_plan_progress s))))"

text \<open>The flat state is built without results, whose hashes are not computed again, and they are attached.\<close>

definition to_legacy :: "(step_result \<Rightarrow> string) \<Rightarrow> plan_engine_state \<Rightarrow> execution_state res" where
  "to_legacy ref s =
     (let p = legacy_plan s; (phase, awaiting) = to_legacy_phase (pe_phase s); rec = pe_tool_recovery s;
          results = pg_committed_results (pe_plan_progress s); final = pe_finalization s in
      bindR (validate_committed_structure p results) (\<lambda>_.
      bindR (ExecutionState ref \<lparr>es_phase = phase, es_plan = p,
        es_current_step_id = se_current_step_id (pe_step_execution s), es_committed_results = [],
        es_pending_step_result = se_pending_step_result (pe_step_execution s),
        es_validation_error = se_validation_feedback (pe_step_execution s), es_awaiting_step_result = awaiting,
        es_replan_count = pg_replan_count (pe_plan_progress s), es_finalization_count = pf_invocation_count final,
        es_final_response = pf_response final, es_final_persisted = pf_persisted final,
        es_final_emitted = pf_emitted final, es_tool_repair_counts = rs_repair_count_by_step rec,
        es_pending_tool_failure = rs_pending_failure rec, es_total_tool_repairs = rs_total_repairs rec,
        es_failure = legacy_failure s, es_active_tool_calls = rs_active_calls rec,
        es_seen_tool_call_ids = rs_seen_call_ids rec\<rparr>) (\<lambda>legacy.
      Inr (legacy\<lparr>es_committed_results := results\<rparr>))))"

end
