(* ===== verification/Plan_Engine_Props.thy ===== *)
theory Plan_Engine_Props
  imports Plan_Engine_State
begin

text \<open>
  What the conversions of the plan engine's state keep: sanitized failures are stable, and the flat
  state survives the way through the nested one.
\<close>

subsection \<open>Sanitized failures\<close>

lemma map_of_filtered:
  "map_of (List.map_filter (\<lambda>k. map_option (\<lambda>v. (k, g v)) (f k)) ks) k =
     (if k \<in> set ks then map_option g (f k) else None)"
  by (induction ks) (auto simp: List.map_filter_simps split: option.splits)

definition safe_fields :: "(pyval \<Rightarrow> string) \<Rightarrow> (pyval \<Rightarrow> int option) \<Rightarrow> (string, pyval) dict \<Rightarrow> (string, pyval) dict" where
  "safe_fields text_of int_of d =
     List.map_filter (\<lambda>k. map_option (\<lambda>v. (k, PStr (state_bounded_text (text_of v)))) (present d k))
       failure_text_fields @
     List.map_filter (\<lambda>k. map_option (\<lambda>v. (k, PBool (\<not> falsy v))) (dget d k)) failure_bool_fields @
     List.map_filter (\<lambda>k. map_option (\<lambda>v. (k, PInt (clamp_count (int_of v)))) (dget d k)) failure_count_fields @
     List.map_filter (\<lambda>k. map_option (\<lambda>v. (k, v)) (present d k)) failure_fingerprint_fields"

definition fingerprints_ok :: "(string, pyval) dict option \<Rightarrow> bool" where
  "fingerprints_ok failure \<longleftrightarrow> (\<forall>k \<in> set failure_fingerprint_fields. hashed_field failure k)"

lemma fingerprints_ok_iff:
  "fingerprints_ok failure \<longleftrightarrow> hashed_field failure ''arguments_fingerprint'' \<and>
     hashed_field failure ''invocation_fingerprint''"
  by (simp add: fingerprints_ok_def failure_fingerprint_fields_def)

lemma safe_failure_iff:
  "safe_failure text_of int_of failure = Inr r \<longleftrightarrow> fingerprints_ok failure \<and>
     r = (case failure of None \<Rightarrow> None | Some d \<Rightarrow>
       if safe_fields text_of int_of d = [] then None else Some (safe_fields text_of int_of d))"
proof (cases failure)
  case (Some d)
  have "(\<forall>x \<in> set (List.map_filter (\<lambda>k. map_option (\<lambda>v. (k, v)) (present d k)) ks).
      (case snd x of PStr s \<Rightarrow> is_tool_argument_fingerprint s | _ \<Rightarrow> False)) \<longleftrightarrow> (\<forall>k \<in> set ks. hashed_field (Some d) k)" for ks
    by (induction ks) (auto simp: List.map_filter_simps hashed_field_def split: option.splits pyval.splits)
  then show ?thesis
    using Some by (auto simp: safe_failure_def safe_fields_def fingerprints_ok_def bindR_Inr_iff Let_def split_beta)
qed (auto simp: safe_failure_def fingerprints_ok_def hashed_field_def)

lemma failure_field_sets:
  "k \<in> set failure_text_fields \<Longrightarrow> k \<notin> set failure_bool_fields \<and> k \<notin> set failure_count_fields \<and>
     k \<notin> set failure_fingerprint_fields"
  "k \<in> set failure_bool_fields \<Longrightarrow> k \<notin> set failure_text_fields \<and> k \<notin> set failure_count_fields \<and>
     k \<notin> set failure_fingerprint_fields"
  "k \<in> set failure_count_fields \<Longrightarrow> k \<notin> set failure_text_fields \<and> k \<notin> set failure_bool_fields \<and>
     k \<notin> set failure_fingerprint_fields"
  "k \<in> set failure_fingerprint_fields \<Longrightarrow> k \<notin> set failure_text_fields \<and> k \<notin> set failure_bool_fields \<and>
     k \<notin> set failure_count_fields"
  by (auto simp: failure_text_fields_def failure_bool_fields_def failure_count_fields_def
    failure_fingerprint_fields_def)

lemma dget_safe_fields:
  "k \<in> set failure_text_fields \<Longrightarrow> dget (safe_fields text_of int_of d) k =
     map_option (\<lambda>v. PStr (state_bounded_text (text_of v))) (present d k)"
  "k \<in> set failure_bool_fields \<Longrightarrow> dget (safe_fields text_of int_of d) k =
     map_option (\<lambda>v. PBool (\<not> falsy v)) (dget d k)"
  "k \<in> set failure_count_fields \<Longrightarrow> dget (safe_fields text_of int_of d) k =
     map_option (\<lambda>v. PInt (clamp_count (int_of v))) (dget d k)"
  "k \<in> set failure_fingerprint_fields \<Longrightarrow> dget (safe_fields text_of int_of d) k = present d k"
  unfolding safe_fields_def
  by (frule failure_field_sets; simp add: map_add_def map_of_filtered option.map_ident split: option.split)+

lemma present_map_option: "(\<And>v. g v \<noteq> PNone) \<Longrightarrow> dget d k = map_option g x \<Longrightarrow> present d k = map_option g x"
  by (cases x) (auto simp: present_def)

lemma present_present: "dget d k = present d' k \<Longrightarrow> present d k = present d' k"
  by (auto simp: present_def split: option.splits if_splits)

lemma state_bounded_plain: "plain (state_bounded_text s)"
  by (auto simp: state_bounded_text_def Let_def intro: plain_cut)

lemma state_bounded_again [simp]: "state_bounded_text (state_bounded_text s) = state_bounded_text s"
proof -
  have "length (state_bounded_text s) \<le> 512" by (simp add: state_bounded_text_def Let_def)
  then show ?thesis
    using one_line_plain [OF state_bounded_plain, of s] by (simp add: state_bounded_text_def [of "state_bounded_text s"] Let_def)
qed

lemma clamp_again [simp]: "clamp_count (Some (clamp_count n)) = clamp_count n"
  by (simp add: clamp_count_def)

lemma map_filter_same: "(\<And>k. k \<in> set ks \<Longrightarrow> f k = g k) \<Longrightarrow> List.map_filter f ks = List.map_filter g ks"
  by (induction ks) (auto simp: List.map_filter_simps split: option.split)

lemma safe_fields_again:
  assumes "coercions_ok text_of int_of"
  shows "safe_fields text_of int_of (safe_fields text_of int_of d) = safe_fields text_of int_of d"
proof -
  let ?d = "safe_fields text_of int_of d"
  have texts: "List.map_filter (\<lambda>k. map_option (\<lambda>v. (k, PStr (state_bounded_text (text_of v)))) (present ?d k))
        failure_text_fields =
      List.map_filter (\<lambda>k. map_option (\<lambda>v. (k, PStr (state_bounded_text (text_of v)))) (present d k))
        failure_text_fields"
  proof (rule map_filter_same)
    fix k assume k: "k \<in> set failure_text_fields"
    show "map_option (\<lambda>v. (k, PStr (state_bounded_text (text_of v)))) (present ?d k) =
        map_option (\<lambda>v. (k, PStr (state_bounded_text (text_of v)))) (present d k)"
      using present_map_option [OF _ dget_safe_fields(1) [OF k]] assms
      by (simp add: option.map_comp comp_def coercions_ok_def)
  qed
  have bools: "List.map_filter (\<lambda>k. map_option (\<lambda>v. (k, PBool (\<not> falsy v))) (dget ?d k)) failure_bool_fields =
      List.map_filter (\<lambda>k. map_option (\<lambda>v. (k, PBool (\<not> falsy v))) (dget d k)) failure_bool_fields"
    by (rule map_filter_same) (simp add: dget_safe_fields(2) option.map_comp comp_def falsy_def)
  have counts: "List.map_filter (\<lambda>k. map_option (\<lambda>v. (k, PInt (clamp_count (int_of v)))) (dget ?d k))
        failure_count_fields =
      List.map_filter (\<lambda>k. map_option (\<lambda>v. (k, PInt (clamp_count (int_of v)))) (dget d k)) failure_count_fields"
    using assms
    by (intro map_filter_same) (simp add: dget_safe_fields(3) option.map_comp comp_def coercions_ok_def)
  have prints: "List.map_filter (\<lambda>k. map_option (\<lambda>v. (k, v)) (present ?d k)) failure_fingerprint_fields =
      List.map_filter (\<lambda>k. map_option (\<lambda>v. (k, v)) (present d k)) failure_fingerprint_fields"
    by (rule map_filter_same) (simp add: present_present [OF dget_safe_fields(4)])
  show ?thesis
    unfolding safe_fields_def [of text_of int_of ?d] texts bools counts prints
    unfolding safe_fields_def ..
qed

lemma safe_fingerprints: "fingerprints_ok (Some d) \<Longrightarrow> fingerprints_ok (Some (safe_fields text_of int_of d))"
  using present_present [OF dget_safe_fields(4)] unfolding fingerprints_ok_def hashed_field_def by simp

text \<open>A sanitized failure, as every \<^term>\<open>safe_failure\<close> leaves it, is left as it is by the next one.\<close>

definition sanitized :: "(pyval \<Rightarrow> string) \<Rightarrow> (pyval \<Rightarrow> int option) \<Rightarrow> (string, pyval) dict option \<Rightarrow> bool" where
  "sanitized text_of int_of failure \<longleftrightarrow> safe_failure text_of int_of failure = Inr failure"

lemma fingerprints_none [simp]: "fingerprints_ok None"
  by (simp add: fingerprints_ok_def hashed_field_def)

lemma safe_failure_sanitized:
  assumes laws: "coercions_ok text_of int_of" and safe: "safe_failure text_of int_of failure = Inr r"
  shows "sanitized text_of int_of r" and "fingerprints_ok r"
  using safe safe_fingerprints [of _ text_of int_of]
  by (auto simp: sanitized_def safe_failure_iff safe_fields_again [OF laws] split: option.splits if_splits)

subsection \<open>Recovery states\<close>

definition normal_call :: "string \<times> active_call \<Rightarrow> bool" where
  "normal_call x \<longleftrightarrow> strip (fst x) = fst x \<and> strip (ac_tool_name (snd x)) = ac_tool_name (snd x) \<and>
     strip (ac_fingerprint (snd x)) = ac_fingerprint (snd x)"

lemma normalize_active_normal: "dwf (normalize_active raw) \<and> (\<forall>x \<in> set (normalize_active raw). normal_call x \<and>
    (\<exists>y \<in> set raw. x = (strip (fst y), \<lparr>ac_tool_name = strip (ac_tool_name (snd y)),
       ac_fingerprint = strip (ac_fingerprint (snd y))\<rparr>)))"
  unfolding normalize_active_def
proof (induction raw rule: rev_induct)
  case (snoc y raw)
  then show ?case
    using set_dset_subset [of "strip (fst y)" "\<lparr>ac_tool_name = strip (ac_tool_name (snd y)),
       ac_fingerprint = strip (ac_fingerprint (snd y))\<rparr>"]
    by (cases y) (fastforce simp: normal_call_def)
qed simp

lemma normalize_active_append:
  "dwf (acc @ calls) \<Longrightarrow> \<forall>x \<in> set calls. normal_call x \<Longrightarrow>
     fold (\<lambda>(i, c) d. dset (strip i)
       \<lparr>ac_tool_name = strip (ac_tool_name c), ac_fingerprint = strip (ac_fingerprint c)\<rparr> d) calls acc = acc @ calls"
proof (induction calls arbitrary: acc)
  case (Cons x calls)
  obtain i c where x: "x = (i, c)" by fastforce
  then have "map_of acc i = None" using Cons.prems(1) by (auto simp: map_of_eq_None_iff)
  then have "dset i \<lparr>ac_tool_name = ac_tool_name c, ac_fingerprint = ac_fingerprint c\<rparr> acc = acc @ [(i, c)]"
    by (simp add: dset_fresh)
  then show ?case using Cons.prems Cons.IH [of "acc @ [(i, c)]"] x by (simp add: normal_call_def)
qed simp

lemma normalize_active_same:
  "dwf calls \<Longrightarrow> \<forall>x \<in> set calls. normal_call x \<Longrightarrow> normalize_active calls = calls"
  using normalize_active_append [of "[]" calls] by (simp add: normalize_active_def)

lemma normalize_active_again [simp]: "normalize_active (normalize_active raw) = normalize_active raw"
  using normalize_active_normal [of raw] by (intro normalize_active_same) auto

lemma recovery_state_iff:
  "ToolRecoveryState text_of int_of s = Inr s' \<longleftrightarrow>
     (\<forall>(i, c) \<in> set (rs_active_calls s). strip i \<noteq> [] \<and> strip (ac_tool_name c) \<noteq> [] \<and>
        is_tool_argument_fingerprint (strip (ac_fingerprint c))) \<and>
     [] \<notin> set (map strip (rs_seen_call_ids s)) \<and> distinct (map strip (rs_seen_call_ids s)) \<and>
     fst ` set (normalize_active (rs_active_calls s)) \<subseteq> set (map strip (rs_seen_call_ids s)) \<and>
     list_all (\<lambda>(i, n). i \<noteq> [] \<and> 0 \<le> n) (rs_repair_count_by_step s) \<and> 0 \<le> rs_total_repairs s \<and>
     safe_failure text_of int_of (rs_pending_failure s) = Inr (rs_pending_failure s') \<and>
     safe_failure text_of int_of (rs_terminal_failure s) = Inr (rs_terminal_failure s') \<and>
     s' = s\<lparr>rs_active_calls := normalize_active (rs_active_calls s), rs_seen_call_ids := map strip (rs_seen_call_ids s),
       rs_pending_failure := rs_pending_failure s', rs_terminal_failure := rs_terminal_failure s'\<rparr>"
  unfolding ToolRecoveryState_def Let_def bindR_Inr_iff all_ok_Inr
  by (simp add: ball_Un split_beta) auto

lemma recovery_state_again:
  assumes laws: "coercions_ok text_of int_of" and run: "ToolRecoveryState text_of int_of s0 = Inr s"
  shows "ToolRecoveryState text_of int_of s = Inr s"
proof -
  have pend: "sanitized text_of int_of (rs_pending_failure s)" and term': "sanitized text_of int_of (rs_terminal_failure s)"
    using run safe_failure_sanitized(1) [OF laws] unfolding recovery_state_iff by blast+
  have upd: "s = s0\<lparr>rs_active_calls := normalize_active (rs_active_calls s0),
      rs_seen_call_ids := map strip (rs_seen_call_ids s0), rs_pending_failure := rs_pending_failure s,
      rs_terminal_failure := rs_terminal_failure s\<rparr>"
    using run unfolding recovery_state_iff by blast
  have eqs: "rs_active_calls s = normalize_active (rs_active_calls s0)" "rs_seen_call_ids s = map strip (rs_seen_call_ids s0)"
    "rs_repair_count_by_step s = rs_repair_count_by_step s0" "rs_total_repairs s = rs_total_repairs s0"
    by (subst upd, simp)+
  have "\<forall>(i, c) \<in> set (rs_active_calls s). strip i \<noteq> [] \<and> strip (ac_tool_name c) \<noteq> [] \<and>
        is_tool_argument_fingerprint (strip (ac_fingerprint c))"
    using run normalize_active_normal [of "rs_active_calls s0"] unfolding recovery_state_iff eqs(1) by fastforce
  then show ?thesis
    using run pend term' unfolding recovery_state_iff [of _ _ s s] sanitized_def
    unfolding recovery_state_iff [of _ _ s0 s] eqs by (simp add: comp_def eqs)
qed

subsection \<open>The flat state survives\<close>

lemma find_step_case:
  assumes "distinct (step_ids (pl_steps p))"
  shows "(case find_step p i of None \<Rightarrow> False | Some st \<Rightarrow> Q st) \<longleftrightarrow>
     (\<exists>st \<in> set (pl_steps p). ps_step_id st = i \<and> Q st)"
proof (cases "find_step p i")
  case None
  then have "\<And>st. st \<in> set (pl_steps p) \<Longrightarrow> ps_step_id st \<noteq> i" by (auto simp: find_step_def find_None_iff)
  then show ?thesis using None by auto
next
  case (Some st)
  then have "\<And>st'. st' \<in> set (pl_steps p) \<and> ps_step_id st' = i \<longleftrightarrow> st' = st"
    using find_step_iff [OF assms, of i] by (metis option.inject)
  then have "(\<exists>st' \<in> set (pl_steps p). ps_step_id st' = i \<and> Q st') \<longleftrightarrow> Q st" by metis
  then show ?thesis using Some by simp
qed

lemma structure_iff:
  assumes "distinct (step_ids (pl_steps p))"
  shows "validate_committed_structure p results = Inr () \<longleftrightarrow> (\<forall>(i, r) \<in> set results. i = sr_step_id r \<and>
     (\<exists>st \<in> set (pl_steps p). ps_step_id st = i \<and> ps_status st = COMPLETED \<and> has_sha256_prefix (ps_result_ref st)))"
proof -
  have "(case find_step p i of None \<Rightarrow> Inl e | Some st \<Rightarrow> all_ok [require (P st) e1, require (R st) e2]) = Inr u \<longleftrightarrow>
      (\<exists>st \<in> set (pl_steps p). ps_step_id st = i \<and> P st \<and> R st)" for i e P R e1 e2 u
    unfolding find_step_case [where i = i and Q = "\<lambda>st. P st \<and> R st", OF assms, symmetric]
    by (auto split: option.split)
  then show ?thesis
    by (simp add: validate_committed_structure_def bindR_Inr_iff split_beta)
qed

lemma sha256_ref [simp]: "has_sha256_prefix (Some (step_result_ref digest r))"
  by (simp add: has_sha256_prefix_def step_result_ref_def)

lemma results_structure:
  assumes p: "plan_wf p" and results: "results_ok (step_result_ref digest) p results"
  shows "validate_committed_structure p results = Inr ()"
  unfolding structure_iff [OF plan_wf_distinct [OF p]]
proof safe
  fix i r assume "(i, r) \<in> set results"
  then have ok: "i = sr_step_id r \<and> (\<exists>st \<in> set (pl_steps p). ps_step_id st = i \<and> ps_status st = COMPLETED \<and>
      ps_result_ref st = Some (step_result_ref digest r))"
    using results unfolding results_ok_def by blast
  then show "i = sr_step_id r" by blast
  from ok obtain st where st: "st \<in> set (pl_steps p)" "ps_step_id st = i" "ps_status st = COMPLETED"
      "ps_result_ref st = Some (step_result_ref digest r)" by blast
  then show "\<exists>st \<in> set (pl_steps p). ps_step_id st = i \<and> ps_status st = COMPLETED \<and> has_sha256_prefix (ps_result_ref st)"
    by (intro bexI [of _ st]) simp_all
qed

lemma update_step_same:
  assumes "\<And>st. st \<in> set (pl_steps p) \<Longrightarrow> ps_step_id st = i \<Longrightarrow> f st = st"
  shows "update_step i f p = p"
proof -
  have "map (\<lambda>s. if ps_step_id s = i then f s else s) (pl_steps p) = pl_steps p"
    by (rule map_idI) (use assms in \<open>auto split: if_split\<close>)
  then show ?thesis by (simp add: update_step_def)
qed

definition awaits :: "execution_state \<Rightarrow> bool" where
  "awaits s \<longleftrightarrow> es_phase s = P_ACT \<and> es_awaiting_step_result s"

lemma legacy_phases: "to_legacy_phase (from_legacy_phase s) = (es_phase s, awaits s)"
  by (cases "es_phase s") (simp_all add: from_legacy_phase_def awaits_def)

lemma phase_done_failed [simp]:
  "from_legacy_phase s = E_DONE \<longleftrightarrow> es_phase s = P_DONE" "from_legacy_phase s = E_FAILED \<longleftrightarrow> es_phase s = P_FAILED"
  by (cases "es_phase s"; simp add: from_legacy_phase_def)+

text \<open>The nested state a flat one is converted to, once its failures are sanitized.\<close>

definition nested :: "(pyval \<Rightarrow> string) \<Rightarrow> (string, pyval) dict option \<Rightarrow> (string, pyval) dict option \<Rightarrow>
    execution_state \<Rightarrow> plan_engine_state" where
  "nested text_of pending terminal s =
     \<lparr>pe_phase = from_legacy_phase s,
      pe_plan_progress = \<lparr>pg_plan = es_plan s, pg_committed_results = es_committed_results s,
        pg_replan_count = es_replan_count s\<rparr>,
      pe_step_execution = \<lparr>se_current_step_id = es_current_step_id s,
        se_pending_step_result = es_pending_step_result s, se_validation_feedback = es_validation_error s,
        se_step_attempt_count = (case current_step s of None \<Rightarrow> 0 | Some st \<Rightarrow> ps_attempt_count st)\<rparr>,
      pe_tool_recovery = \<lparr>rs_active_calls = es_active_tool_calls s, rs_seen_call_ids = es_seen_tool_call_ids s,
        rs_pending_failure = pending, rs_repair_count_by_step = es_tool_repair_counts s,
        rs_total_repairs = es_total_tool_repairs s, rs_terminal_failure = terminal\<rparr>,
      pe_finalization = \<lparr>pf_response = es_final_response s, pf_invocation_count = es_finalization_count s,
        pf_persisted = es_final_persisted s, pf_emitted = es_final_emitted s\<rparr>,
      pe_finish_reason = (if es_phase s = P_FAILED then Some FR_ERROR else None),
      pe_terminal_error = legacy_terminal_error text_of (es_failure s)\<rparr>"

lemma from_legacy_nested:
  assumes acc: "accepted ref s" and steps: "list_all (step_wf hash) (pl_steps (es_plan s))"
    and counts: "[] \<notin> fst ` set (es_tool_repair_counts s)"
    and pend: "safe_failure text_of int_of (es_pending_tool_failure s) = Inr pending"
    and term': "safe_failure text_of int_of (es_failure s) = Inr terminal"
  shows "from_legacy text_of int_of s = Inr (nested text_of pending terminal s)"
proof -
  note acc' = acc [unfolded accepted_iff]
  have attempts: "0 \<le> (case current_step s of None \<Rightarrow> 0 | Some st \<Rightarrow> ps_attempt_count st)"
    using steps current_step_found(1) [OF acc] find_step_iff [OF plan_wf_distinct, of "es_plan s"] acc'
    by (auto simp: list_all_iff step_wf_iff step_normal_def split: option.splits)
  have ids: "strip i \<noteq> []" if "es_current_step_id s = Some i" for i
    using that acc' steps by (auto simp: current_ok_def step_ids_def list_all_iff step_wf_iff step_normal_def)
  have recovery: "ToolRecoveryState text_of int_of \<lparr>rs_active_calls = es_active_tool_calls s,
       rs_seen_call_ids = es_seen_tool_call_ids s, rs_pending_failure = es_pending_tool_failure s,
       rs_repair_count_by_step = es_tool_repair_counts s, rs_total_repairs = es_total_tool_repairs s,
       rs_terminal_failure = es_failure s\<rparr> = Inr (pe_tool_recovery (nested text_of pending terminal s))"
    using acc' pend term' counts
    by (auto simp: recovery_state_iff nested_def calls_ok_def counts_ok_def list_all_iff image_iff)
  show ?thesis
    unfolding from_legacy_def recovery
    using acc' attempts ids
    by (auto simp: nested_def PlanProgressState_def StepExecutionState_def PlanFinalizationState_def
      PlanEngineState_def counts_ok_def final_ok_def current_ok_def all_ok.simps Let_def split: option.splits)
qed

text \<open>The flat state as it comes back.\<close>

definition flattened :: "(string, pyval) dict option \<Rightarrow> plan_engine_state \<Rightarrow> execution_state \<Rightarrow> execution_state" where
  "flattened pending e s = s\<lparr>es_awaiting_step_result := awaits s, es_pending_tool_failure := pending,
     es_failure := legacy_failure e\<rparr>"

lemma flattened_accepted:
  assumes acc: "accepted ref s" and pend: "fingerprints_ok pending"
  shows "accepted ref (flattened pending e s)"
proof -
  have frame: "current_ok (flattened pending e s) = current_ok s" "counts_ok (flattened pending e s) = counts_ok s"
    "calls_ok (flattened pending e s) = calls_ok s" "final_ok (flattened pending e s) = final_ok s"
    unfolding flattened_def
    by (simp_all add: current_ok_def counts_ok_def calls_ok_def final_ok_def cong: option.case_cong)
  have pending': "es_pending_tool_failure (flattened pending e s) = pending"
      "es_plan (flattened pending e s) = es_plan s"
      "es_committed_results (flattened pending e s) = es_committed_results s"
    by (simp_all add: flattened_def)
  show ?thesis using acc pend unfolding accepted_iff frame pending' fingerprints_ok_iff by blast
qed

lemma no_results_accepted: "accepted ref s \<Longrightarrow> accepted ref (s\<lparr>es_committed_results := []\<rparr>)"
  unfolding accepted_iff by (simp add: results_ok_def)

lemma legacy_plan_nested:
  assumes acc: "accepted ref s"
  shows "legacy_plan (nested text_of pending terminal s) = es_plan s"
proof (cases "es_current_step_id s")
  case (Some i)
  have dist: "distinct (step_ids (pl_steps (es_plan s)))" using acc plan_wf_distinct by (simp add: accepted_iff)
  obtain st where st: "find_step (es_plan s) i = Some st"
    using current_step_found [OF acc] Some by auto
  then have only: "st' = st" if "st' \<in> set (pl_steps (es_plan s))" "ps_step_id st' = i" for st'
    using find_step_iff [OF dist, of i st'] that by simp
  have "update_step i (\<lambda>st'. st'\<lparr>ps_attempt_count := max (ps_attempt_count st') (ps_attempt_count st)\<rparr>) (es_plan s) = es_plan s"
    by (rule update_step_same) (auto dest: only)
  then show ?thesis
    using Some st current_step_found(1) [OF acc] by (simp add: legacy_plan_def nested_def)
qed (simp add: legacy_plan_def nested_def)

lemma to_legacy_nested:
  assumes acc: "accepted (step_result_ref digest) s" and pend: "fingerprints_ok pending"
  shows "to_legacy (step_result_ref digest) (nested text_of pending terminal s) =
     Inr (flattened pending (nested text_of pending terminal s) s)"
proof -
  let ?e = "nested text_of pending terminal s" and ?ref = "step_result_ref digest"
  have struct: "validate_committed_structure (es_plan s) (es_committed_results s) = Inr ()"
    using acc by (intro results_structure [where digest = digest]) (simp_all add: accepted_iff)
  have parts: "pg_committed_results (pe_plan_progress ?e) = es_committed_results s"
      "to_legacy_phase (pe_phase ?e) = (es_phase s, awaits s)"
    by (simp_all add: nested_def legacy_phases)
  have "ExecutionState ?ref (flattened pending ?e s\<lparr>es_committed_results := []\<rparr>) =
      Inr (flattened pending ?e s\<lparr>es_committed_results := []\<rparr>)"
    using no_results_accepted [OF flattened_accepted [OF acc pend]] unfolding accepted_def by blast
  moreover have "flattened pending ?e s\<lparr>es_committed_results := []\<rparr> =
     \<lparr>es_phase = es_phase s, es_plan = es_plan s,
        es_current_step_id = se_current_step_id (pe_step_execution ?e), es_committed_results = [],
        es_pending_step_result = se_pending_step_result (pe_step_execution ?e),
        es_validation_error = se_validation_feedback (pe_step_execution ?e), es_awaiting_step_result = awaits s,
        es_replan_count = pg_replan_count (pe_plan_progress ?e), es_finalization_count = pf_invocation_count (pe_finalization ?e),
        es_final_response = pf_response (pe_finalization ?e), es_final_persisted = pf_persisted (pe_finalization ?e),
        es_final_emitted = pf_emitted (pe_finalization ?e), es_tool_repair_counts = rs_repair_count_by_step (pe_tool_recovery ?e),
        es_pending_tool_failure = rs_pending_failure (pe_tool_recovery ?e), es_total_tool_repairs = rs_total_repairs (pe_tool_recovery ?e),
        es_failure = legacy_failure ?e, es_active_tool_calls = rs_active_calls (pe_tool_recovery ?e),
        es_seen_tool_call_ids = rs_seen_call_ids (pe_tool_recovery ?e)\<rparr>"
    by (simp add: flattened_def nested_def)
  moreover have "flattened pending ?e s\<lparr>es_committed_results := []\<rparr>\<lparr>es_committed_results := es_committed_results s\<rparr> =
      flattened pending ?e s"
    by (simp add: flattened_def)
  ultimately show ?thesis
    unfolding to_legacy_def Let_def legacy_plan_nested [OF acc] parts using struct by simp
qed

text \<open>What is kept of a field of a failure: texts are bounded, marks and counts are normalized, anything else is left out.\<close>

definition kept_field ::
  "(pyval \<Rightarrow> string) \<Rightarrow> (pyval \<Rightarrow> int option) \<Rightarrow> (string, pyval) dict option \<Rightarrow> string \<Rightarrow> pyval option" where
  "kept_field text_of int_of failure k = (case failure of None \<Rightarrow> None | Some d \<Rightarrow>
     if k \<in> set failure_text_fields then map_option (\<lambda>v. PStr (state_bounded_text (text_of v))) (present d k)
     else if k \<in> set failure_bool_fields then map_option (\<lambda>v. PBool (\<not> falsy v)) (dget d k)
     else if k \<in> set failure_count_fields then map_option (\<lambda>v. PInt (clamp_count (int_of v))) (dget d k)
     else if k \<in> set failure_fingerprint_fields then present d k else None)"

definition failure_field :: "(string, pyval) dict option \<Rightarrow> string \<Rightarrow> pyval option" where
  "failure_field failure k = (case failure of None \<Rightarrow> None | Some d \<Rightarrow> dget d k)"

lemma safe_fields_other:
  "k \<notin> set failure_text_fields \<Longrightarrow> k \<notin> set failure_bool_fields \<Longrightarrow> k \<notin> set failure_count_fields \<Longrightarrow>
     k \<notin> set failure_fingerprint_fields \<Longrightarrow> dget (safe_fields text_of int_of d) k = None"
  unfolding safe_fields_def by (simp add: map_add_def map_of_filtered)

lemma safe_failure_fields:
  assumes "safe_failure text_of int_of failure = Inr r"
  shows "failure_field r k = kept_field text_of int_of failure k"
proof (cases failure)
  case (Some d)
  have "dget (safe_fields text_of int_of d) k = kept_field text_of int_of failure k"
    using dget_safe_fields [of k text_of int_of d] safe_fields_other [of k text_of int_of d]
    by (auto simp: kept_field_def Some)
  then show ?thesis using assms by (auto simp: safe_failure_iff failure_field_def Some split: if_splits)
qed (use assms in \<open>simp add: safe_failure_def failure_field_def kept_field_def\<close>)

lemma kept_field_reasons: "kept_field text_of int_of failure ''finish_reason'' = None"
  "kept_field text_of int_of failure ''terminal_error'' = None"
  by (simp_all add: kept_field_def failure_text_fields_def failure_bool_fields_def failure_count_fields_def
      failure_fingerprint_fields_def split: option.split)

lemma require_Inl: "require b e = Inl x \<Longrightarrow> x = e"
  by (auto simp: require_def split: if_splits)

lemma safe_failure_Inl: "safe_failure text_of int_of failure = Inl e \<Longrightarrow> \<exists>m. e = ValueError m"
  by (auto simp: safe_failure_def bindR_Inl_iff Let_def split: option.splits dest!: all_ok_Inl require_Inl)

lemma from_legacy_Inl:
  assumes "from_legacy text_of int_of s = Inl e"
  shows "\<exists>m. e = ValueError m"
proof -
  have "\<exists>m. e = ValueError m" if "ToolRecoveryState text_of int_of r = Inl e" for r
    using that by (auto simp: ToolRecoveryState_def bindR_Inl_iff Let_def dest!: all_ok_Inl safe_failure_Inl require_Inl)
  moreover have "\<exists>m. e = ValueError m" if "PlanEngineState x = Inl e" for x
    using that by (auto simp: PlanEngineState_def bindR_Inl_iff Let_def dest!: all_ok_Inl require_Inl)
  ultimately show ?thesis
    using assms by (auto simp: from_legacy_def bindR_Inl_iff PlanProgressState_def StepExecutionState_def
        PlanFinalizationState_def dest!: all_ok_Inl require_Inl)
qed

text \<open>
  C16.  The nested engine state represents the flat one.  A flat state that its constructor accepts, over a plan
  of accepted steps, converts if no repair count is under an empty step ID and the fingerprints of its
  terminal failure are hashes; otherwise, as the constructor of the flat state checks neither, the conversion raises a \<^verbatim>\<open>ValueError\<close>.
  What converts comes back as the same state up to three fields: the mark of a completed Tool round is kept in ACT
  only, and every field of the two failures is what is kept of it (texts bounded, marks and counts normalized,
  hashes as they are, other fields left out), where the terminal failure of a failed run also names the finish reason and the
  terminal error, the first of its terminal error, terminal reason and reason that says something.
\<close>

theorem legacy_state_survives:
  assumes laws: "coercions_ok text_of int_of"
    and state: "ExecutionState (step_result_ref digest) s = Inr s"
    and plan: "Plan (pl_steps (es_plan s)) (int (pl_current_index (es_plan s))) (pl_version (es_plan s)) = Inr (es_plan s)"
    and steps: "list_all (step_wf hash) (pl_steps (es_plan s))"
  shows "if [] \<notin> fst ` set (es_tool_repair_counts s) \<and> fingerprints_ok (es_failure s)
    then \<exists>e pending failure. from_legacy text_of int_of s = Inr e \<and>
      to_legacy (step_result_ref digest) e = Inr (s\<lparr>es_awaiting_step_result := es_phase s = P_ACT \<and> es_awaiting_step_result s,
        es_pending_tool_failure := pending, es_failure := failure\<rparr>) \<and>
      safe_failure text_of int_of (es_pending_tool_failure s) = Inr pending \<and>
      (es_phase s \<noteq> P_FAILED \<longrightarrow> safe_failure text_of int_of (es_failure s) = Inr failure) \<and>
      (\<forall>k. failure_field pending k = kept_field text_of int_of (es_pending_tool_failure s) k) \<and>
      (\<forall>k. failure_field failure k =
        (if es_phase s = P_FAILED \<and> k = ''finish_reason'' then Some (PStr ''error'')
         else if es_phase s = P_FAILED \<and> k = ''terminal_error'' then map_option PStr (legacy_terminal_error text_of (es_failure s))
         else kept_field text_of int_of (es_failure s) k))
    else \<exists>m. from_legacy text_of int_of s = Inl (ValueError m)"
proof (cases "[] \<notin> fst ` set (es_tool_repair_counts s) \<and> fingerprints_ok (es_failure s)")
  case True
  have acc: "accepted (step_result_ref digest) s" using state plan by (simp add: accepted_def plan_wf_reloads)
  then have "fingerprints_ok (es_pending_tool_failure s)" by (simp add: accepted_iff fingerprints_ok_iff)
  then obtain pending where pend: "safe_failure text_of int_of (es_pending_tool_failure s) = Inr pending"
    by (simp add: safe_failure_iff)
  obtain terminal where term': "safe_failure text_of int_of (es_failure s) = Inr terminal"
    using True by (simp add: safe_failure_iff)
  let ?e = "nested text_of pending terminal s"
  have returned: "to_legacy (step_result_ref digest) ?e = Inr (flattened pending ?e s)"
    using safe_failure_sanitized(2) [OF laws pend] by (rule to_legacy_nested [OF acc])
  have open_run: "legacy_failure ?e = terminal" if "es_phase s \<noteq> P_FAILED"
    using that by (simp add: legacy_failure_def nested_def)
  have field: "failure_field (legacy_failure ?e) k =
      (if es_phase s = P_FAILED \<and> k = ''finish_reason'' then Some (PStr ''error'')
       else if es_phase s = P_FAILED \<and> k = ''terminal_error'' then map_option PStr (legacy_terminal_error text_of (es_failure s))
       else kept_field text_of int_of (es_failure s) k)" for k
  proof (cases "es_phase s = P_FAILED")
    case failed: True
    then show ?thesis
      using safe_failure_fields [OF term', of k] kept_field_reasons [of text_of int_of "es_failure s"]
      by (auto simp: legacy_failure_def nested_def failure_field_def dget_dset Let_def split: option.splits)
  qed (use open_run safe_failure_fields [OF term'] in simp)
  from True have "from_legacy text_of int_of s = Inr ?e" using from_legacy_nested [OF acc steps _ pend term'] by blast
  moreover have "es_phase s \<noteq> P_FAILED \<longrightarrow> safe_failure text_of int_of (es_failure s) = Inr (legacy_failure ?e)"
    using open_run term' by simp
  ultimately show ?thesis
    unfolding if_P [OF True]
    using returned [unfolded flattened_def awaits_def] pend field safe_failure_fields [OF pend]
    by (intro exI [of _ ?e] exI [of _ pending] exI [of _ "legacy_failure ?e"] conjI allI)
next
  case False
  have "from_legacy text_of int_of s \<noteq> Inr e" for e
    using False unfolding from_legacy_def bindR_Inr_iff recovery_state_iff safe_failure_iff
    by (auto simp: list_all_iff)
  then show ?thesis using False from_legacy_Inl [of text_of int_of s] by (cases "from_legacy text_of int_of s") auto
qed

text \<open>A failed run whose failure holds a field that is not kept.\<close>

definition failed_half :: execution_state where
  "failed_half = sample_half\<lparr>es_phase := P_FAILED,
     es_failure := Some [(''reason'', PStr ''gone''), (''arguments'', PStr ''private'')]\<rparr>"

theorem legacy_state_survives_witness:
  "let text_of = case_pyval [] (\<lambda>_. []) (\<lambda>_. []) (\<lambda>_. []) [] (\<lambda>s. s) (\<lambda>_. []) (\<lambda>_. []);
       int_of = case_pyval None (\<lambda>_. None) Some (\<lambda>_. None) None (\<lambda>_. None) (\<lambda>_. None) (\<lambda>_. None) in
   \<exists>e s failure. from_legacy text_of int_of failed_half = Inr e \<and> to_legacy (step_result_ref sr_step_id) e = Inr s \<and>
     es_plan s = es_plan sample_half \<and> es_failure s = Some failure \<and> dget failure ''finish_reason'' = Some (PStr ''error'') \<and>
     dget failure ''terminal_error'' = Some (PStr ''gone'') \<and> dget failure ''reason'' = Some (PStr ''gone'') \<and>
     dget failure ''arguments'' = None"
proof -
  let ?text_of = "case_pyval [] (\<lambda>_. []) (\<lambda>_. []) (\<lambda>_. []) [] (\<lambda>s. s) (\<lambda>_. []) (\<lambda>_. [])"
    and ?int_of = "case_pyval None (\<lambda>_. None) Some (\<lambda>_. None) None (\<lambda>_. None) (\<lambda>_. None) (\<lambda>_. None)"
  have ref: "step_result_ref sr_step_id = sample_ref" by (rule ext) (simp add: step_result_ref_def sample_ref_def)
  have laws: "coercions_ok ?text_of ?int_of" by (simp add: coercions_ok_def)
  have state: "ExecutionState sample_ref failed_half = Inr failed_half" by code_simp
  have plan: "es_plan failed_half = es_plan sample_half" by (simp add: failed_half_def)
  have steps: "list_all (step_wf (\<lambda>s. s)) (pl_steps (es_plan sample_half))" by code_simp
  have fine: "[] \<notin> fst ` set (es_tool_repair_counts failed_half) \<and> fingerprints_ok (es_failure failed_half)"
    by code_simp
  have fields: "kept_field ?text_of ?int_of (es_failure failed_half) ''reason'' = Some (PStr ''gone'')"
    "kept_field ?text_of ?int_of (es_failure failed_half) ''arguments'' = None"
    "legacy_terminal_error ?text_of (es_failure failed_half) = Some ''gone''" "es_phase failed_half = P_FAILED"
    by code_simp+
  obtain e pending failure where e: "from_legacy ?text_of ?int_of failed_half = Inr e"
    "to_legacy (step_result_ref sr_step_id) e = Inr (failed_half\<lparr>es_awaiting_step_result := es_phase failed_half = P_ACT \<and>
       es_awaiting_step_result failed_half, es_pending_tool_failure := pending, es_failure := failure\<rparr>)"
    "\<And>k. failure_field failure k = (if es_phase failed_half = P_FAILED \<and> k = ''finish_reason'' then Some (PStr ''error'')
       else if es_phase failed_half = P_FAILED \<and> k = ''terminal_error''
         then map_option PStr (legacy_terminal_error ?text_of (es_failure failed_half))
       else kept_field ?text_of ?int_of (es_failure failed_half) k)"
    using legacy_state_survives [OF laws state [folded ref] sample_half_loads(2) [folded plan] steps [folded plan]]
    unfolding if_P [OF fine] by blast
  have "failure_field failure ''finish_reason'' = Some (PStr ''error'')"
    "failure_field failure ''terminal_error'' = Some (PStr ''gone'')" "failure_field failure ''reason'' = Some (PStr ''gone'')"
    "failure_field failure ''arguments'' = None"
    by (simp_all add: e(3) fields)
  then show ?thesis
    unfolding Let_def using e(1,2) plan by (cases failure) (auto simp: failure_field_def)
qed

end
