(* ===== verification/Plan_State_Codec.thy ===== *)
theory Plan_State_Codec
  imports Plan_Engine_Props
begin

text \<open>
  The checkpoint form of the plan engine's state (\<^verbatim>\<open>PlanStateCodec\<close> of
  \<^verbatim>\<open>moduagent/execution/planning/state.py\<close>), of the flat state (\<^verbatim>\<open>ExecutionState.to_dict\<close> and \<^verbatim>\<open>from_dict\<close>),
  and the migration of older checkpoints.  The functions of other code are the fields of \<open>codec_env\<close>:
  the hash of an objective, \<^verbatim>\<open>str\<close> and \<^verbatim>\<open>int\<close> of a dynamic value, the dump and the validation of a
  \<^verbatim>\<open>StepResult\<close> by pydantic, and the digest of its canonical JSON.
\<close>

record codec_env =
  ce_hash :: "string \<Rightarrow> string"
  ce_text_of :: "pyval \<Rightarrow> string"
  ce_int_of :: "pyval \<Rightarrow> int option"
  ce_dump :: "step_result \<Rightarrow> pyval"
  ce_validate :: "pyval \<Rightarrow> step_result res"
  ce_digest :: "step_result \<Rightarrow> string"

subsection \<open>Enumerations\<close>

fun engine_phase_value :: "engine_phase \<Rightarrow> string" where
  "engine_phase_value E_PLAN = ''plan''"
| "engine_phase_value E_STEP_PREPARE = ''step_prepare''"
| "engine_phase_value E_ACT_TOOL = ''act_tool''"
| "engine_phase_value E_TOOL_RECOVERY = ''tool_recovery''"
| "engine_phase_value E_STEP_RESULT = ''step_result''"
| "engine_phase_value E_STEP_VALIDATE = ''step_validate''"
| "engine_phase_value E_VERIFY = ''verify''"
| "engine_phase_value E_FINALIZE = ''finalize''"
| "engine_phase_value E_DONE = ''done''"
| "engine_phase_value E_FAILED = ''failed''"

fun run_phase_value :: "run_phase \<Rightarrow> string" where
  "run_phase_value P_PLAN = ''plan''"
| "run_phase_value P_STEP_PREPARE = ''step_prepare''"
| "run_phase_value P_ACT = ''act''"
| "run_phase_value P_STEP_VALIDATE = ''step_validate''"
| "run_phase_value P_VERIFY = ''verify''"
| "run_phase_value P_FINALIZE = ''finalize''"
| "run_phase_value P_DONE = ''done''"
| "run_phase_value P_FAILED = ''failed''"

definition engine_phases :: "(string \<times> engine_phase) list" where
  "engine_phases = map (\<lambda>p. (engine_phase_value p, p)) [E_PLAN, E_STEP_PREPARE, E_ACT_TOOL, E_TOOL_RECOVERY,
     E_STEP_RESULT, E_STEP_VALIDATE, E_VERIFY, E_FINALIZE, E_DONE, E_FAILED]"

definition run_phases :: "(string \<times> run_phase) list" where
  "run_phases = map (\<lambda>p. (run_phase_value p, p)) [P_PLAN, P_STEP_PREPARE, P_ACT, P_STEP_VALIDATE, P_VERIFY,
     P_FINALIZE, P_DONE, P_FAILED]"

definition finish_reasons :: "(string \<times> finish_reason) list" where
  "finish_reasons = map (\<lambda>r. (finish_reason_value r, r)) [FR_COMPLETED, FR_MAX_STEPS, FR_MAX_TOOL_CALLS,
     FR_MAX_MODEL_TURNS, FR_NO_PROGRESS, FR_TIMEOUT, FR_CANCELLED, FR_ERROR]"

subsection \<open>Values\<close>

definition dump_call :: "active_call \<Rightarrow> pyval" where
  "dump_call c = PDict [(''tool_name'', PStr (ac_tool_name c)), (''arguments_fingerprint'', PStr (ac_fingerprint c))]"

definition load_call :: "codec_env \<Rightarrow> string \<Rightarrow> pyval \<Rightarrow> active_call res" where
  "load_call env message v = bindR (mapping_value message v) (\<lambda>d. Inr
     \<lparr>ac_tool_name = ce_text_of env (dget_or d ''tool_name'' (PStr [])),
      ac_fingerprint = ce_text_of env (dget_or d ''arguments_fingerprint'' (PStr []))\<rparr>)"

definition dump_dict :: "('a \<Rightarrow> pyval) \<Rightarrow> (string, 'a) dict \<Rightarrow> pyval" where
  "dump_dict f d = PDict (map (\<lambda>(k, v). (k, f v)) d)"

definition load_dict :: "(pyval \<Rightarrow> 'a res) \<Rightarrow> (string, pyval) dict \<Rightarrow> (string, 'a) dict res" where
  "load_dict f d = mapR (\<lambda>(k, v). bindR (f v) (\<lambda>x. Inr (k, x))) d"

definition dump_optional :: "('a \<Rightarrow> pyval) \<Rightarrow> 'a option \<Rightarrow> pyval" where
  "dump_optional f x = (case x of None \<Rightarrow> PNone | Some y \<Rightarrow> f y)"

definition load_optional :: "(pyval \<Rightarrow> 'a res) \<Rightarrow> pyval \<Rightarrow> 'a option res" where
  "load_optional f v = (if v = PNone then Inr None else bindR (f v) (\<lambda>x. Inr (Some x)))"

abbreviation field :: "(string, pyval) dict \<Rightarrow> string \<Rightarrow> pyval" where
  "field d k \<equiv> dget_or d k PNone"

subsection \<open>The engine state\<close>

definition dump_progress :: "codec_env \<Rightarrow> plan_progress_state \<Rightarrow> (string, pyval) dict" where
  "dump_progress env progress =
     [(''plan'', plan_to_dict (pg_plan progress)),
      (''committed_results'', dump_dict (ce_dump env) (pg_committed_results progress)),
      (''replan_count'', PInt (pg_replan_count progress))]"

definition dump_step :: "codec_env \<Rightarrow> step_execution_state \<Rightarrow> (string, pyval) dict" where
  "dump_step env step =
     [(''current_step_id'', text_value (se_current_step_id step)),
      (''pending_step_result'', dump_optional (ce_dump env) (se_pending_step_result step)),
      (''validation_feedback'', text_value (se_validation_feedback step)),
      (''step_attempt_count'', PInt (se_step_attempt_count step))]"

definition dump_recovery :: "recovery_state \<Rightarrow> (string, pyval) dict" where
  "dump_recovery rec =
     [(''active_calls'', dump_dict dump_call (rs_active_calls rec)),
      (''seen_call_ids'', PList (map PStr (rs_seen_call_ids rec))),
      (''pending_failure'', dump_optional PDict (rs_pending_failure rec)),
      (''repair_count_by_step'', dump_dict PInt (rs_repair_count_by_step rec)),
      (''total_repairs'', PInt (rs_total_repairs rec)),
      (''terminal_failure'', dump_optional PDict (rs_terminal_failure rec))]"

definition dump_finalization :: "plan_finalization_state \<Rightarrow> (string, pyval) dict" where
  "dump_finalization final =
     [(''started'', PBool (0 < pf_invocation_count final \<or> pf_response final \<noteq> None)),
      (''response_generated'', PBool (pf_response final \<noteq> None)),
      (''response'', text_value (pf_response final)),
      (''invocation_count'', PInt (pf_invocation_count final)),
      (''persisted'', PBool (pf_persisted final)),
      (''emitted'', PBool (pf_emitted final))]"

definition dump_terminal :: "plan_engine_state \<Rightarrow> (string, pyval) dict" where
  "dump_terminal s = [(''finish_reason'', text_value (map_option finish_reason_value (pe_finish_reason s))),
     (''error'', text_value (pe_terminal_error s))]"

definition encode :: "codec_env \<Rightarrow> plan_engine_state \<Rightarrow> pyval" where
  "encode env s = PDict
     [(''phase'', PStr (engine_phase_value (pe_phase s))),
      (''plan_progress'', PDict (dump_progress env (pe_plan_progress s))),
      (''step_execution'', PDict (dump_step env (pe_step_execution s))),
      (''tool_recovery'', PDict (dump_recovery (pe_tool_recovery s))),
      (''finalization'', PDict (dump_finalization (pe_finalization s))),
      (''terminal'', PDict (dump_terminal s))]"

definition load_progress :: "codec_env \<Rightarrow> (string, pyval) dict \<Rightarrow> (string, pyval) dict \<Rightarrow> plan_progress_state res" where
  "load_progress env progress raw_results =
     bindR (mapping_value ''plan must be an object'' (field progress ''plan'')) (\<lambda>raw_plan.
     bindR (plan_from_dict (ce_hash env) (ce_text_of env) (ce_int_of env) (PDict raw_plan)) (\<lambda>p.
     bindR (load_dict (ce_validate env) raw_results) (\<lambda>results.
     bindR (int_value (ce_int_of env) (dget_or progress ''replan_count'' (PInt 0))) (\<lambda>replan_count.
     PlanProgressState \<lparr>pg_plan = p, pg_committed_results = results, pg_replan_count = replan_count\<rparr>))))"

definition load_step :: "codec_env \<Rightarrow> (string, pyval) dict \<Rightarrow> step_execution_state res" where
  "load_step env step =
     bindR (load_optional (ce_validate env) (field step ''pending_step_result'')) (\<lambda>pending.
     bindR (int_value (ce_int_of env) (dget_or step ''step_attempt_count'' (PInt 0))) (\<lambda>attempts.
     StepExecutionState \<lparr>se_current_step_id = optional_str (ce_text_of env) step ''current_step_id'',
       se_pending_step_result = pending,
       se_validation_feedback = optional_str (ce_text_of env) step ''validation_feedback'',
       se_step_attempt_count = attempts\<rparr>))"

definition load_recovery :: "codec_env \<Rightarrow> (string, pyval) dict \<Rightarrow> (string, pyval) dict \<Rightarrow> (string, pyval) dict \<Rightarrow>
    pyval list \<Rightarrow> recovery_state res" where
  "load_recovery env rec raw_active raw_counts raw_seen =
     bindR (load_dict (load_call env ''active call must be an object'') raw_active) (\<lambda>active.
     bindR (load_optional (mapping_value ''pending_failure must be an object'') (field rec ''pending_failure'')) (\<lambda>pending.
     bindR (load_dict (int_value (ce_int_of env)) raw_counts) (\<lambda>counts.
     bindR (int_value (ce_int_of env) (dget_or rec ''total_repairs'' (PInt 0))) (\<lambda>total.
     bindR (load_optional (mapping_value ''terminal_failure must be an object'') (field rec ''terminal_failure'')) (\<lambda>terminal.
     ToolRecoveryState (ce_text_of env) (ce_int_of env) \<lparr>rs_active_calls = active,
       rs_seen_call_ids = map (ce_text_of env) raw_seen, rs_pending_failure = pending,
       rs_repair_count_by_step = counts, rs_total_repairs = total, rs_terminal_failure = terminal\<rparr>)))))"

definition load_finalization :: "codec_env \<Rightarrow> (string, pyval) dict \<Rightarrow> plan_finalization_state res" where
  "load_finalization env final =
     bindR (int_value (ce_int_of env) (dget_or final ''invocation_count'' (PInt 0))) (\<lambda>invocations.
     PlanFinalizationState \<lparr>pf_response = optional_str (ce_text_of env) final ''response'',
       pf_invocation_count = invocations,
       pf_persisted = (\<not> falsy (dget_or final ''persisted'' (PBool False))),
       pf_emitted = (\<not> falsy (dget_or final ''emitted'' (PBool False)))\<rparr>)"

definition decode :: "codec_env \<Rightarrow> pyval \<Rightarrow> plan_engine_state res" where
  "decode env payload0 =
     bindR (case payload0 of PDict d \<Rightarrow> Inr d
       | _ \<Rightarrow> Inl (TypeError ''Plan state payload must be a mapping'')) (\<lambda>payload.
     bindR (mapping_value ''plan_progress must be an object'' (field payload ''plan_progress'')) (\<lambda>progress.
     bindR (mapping_value ''step_execution must be an object'' (field payload ''step_execution'')) (\<lambda>step.
     bindR (mapping_value ''tool_recovery must be an object'' (field payload ''tool_recovery'')) (\<lambda>rec.
     bindR (mapping_value ''finalization must be an object'' (field payload ''finalization'')) (\<lambda>final.
     bindR (mapping_value ''terminal must be an object'' (dget_or payload ''terminal'' (PDict []))) (\<lambda>terminal.
     bindR (mapping_value ''committed_results must be an object''
       (dget_or progress ''committed_results'' (PDict []))) (\<lambda>raw_results.
     bindR (mapping_value ''active_calls must be an object'' (dget_or rec ''active_calls'' (PDict []))) (\<lambda>raw_active.
     bindR (mapping_value ''repair_count_by_step must be an object''
       (dget_or rec ''repair_count_by_step'' (PDict []))) (\<lambda>raw_counts.
     bindR (array_value ''seen_call_ids must be an array'' (dget_or rec ''seen_call_ids'' (PList []))) (\<lambda>raw_seen.
     bindR (enum_value engine_phases (ce_text_of env (dget_or payload ''phase'' (PStr [])))) (\<lambda>phase.
     bindR (load_progress env progress raw_results) (\<lambda>progress_state.
     bindR (load_step env step) (\<lambda>step_state.
     bindR (load_recovery env rec raw_active raw_counts raw_seen) (\<lambda>recovery.
     bindR (load_finalization env final) (\<lambda>finalization.
     bindR (load_optional (\<lambda>v. enum_value finish_reasons (ce_text_of env v)) (field terminal ''finish_reason'')) (\<lambda>reason.
     bindR (PlanEngineState \<lparr>pe_phase = phase, pe_plan_progress = progress_state, pe_step_execution = step_state,
       pe_tool_recovery = recovery, pe_finalization = finalization, pe_finish_reason = reason,
       pe_terminal_error = optional_str (ce_text_of env) terminal ''error''\<rparr>) (\<lambda>s.
     bindR (validate_committed_integrity (step_result_ref (ce_digest env)) (pe_plan_progress s)) (\<lambda>_.
     Inr s))))))))))))))))))"

subsection \<open>The flat state and migration\<close>

definition execution_to_dict :: "codec_env \<Rightarrow> execution_state \<Rightarrow> pyval" where
  "execution_to_dict env s = PDict
     [(''phase'', PStr (run_phase_value (es_phase s))), (''plan'', plan_to_dict (es_plan s)),
      (''current_step_id'', text_value (es_current_step_id s)),
      (''committed_results'', dump_dict (ce_dump env) (es_committed_results s)),
      (''pending_step_result'', dump_optional (ce_dump env) (es_pending_step_result s)),
      (''validation_error'', text_value (es_validation_error s)),
      (''awaiting_step_result'', PBool (es_awaiting_step_result s)),
      (''replan_count'', PInt (es_replan_count s)), (''finalization_count'', PInt (es_finalization_count s)),
      (''final_response'', text_value (es_final_response s)), (''final_persisted'', PBool (es_final_persisted s)),
      (''final_emitted'', PBool (es_final_emitted s)),
      (''tool_repair_counts'', dump_dict PInt (es_tool_repair_counts s)),
      (''pending_tool_failure'', dump_optional PDict (es_pending_tool_failure s)),
      (''total_tool_repairs'', PInt (es_total_tool_repairs s)), (''failure'', dump_optional PDict (es_failure s)),
      (''active_tool_calls'', dump_dict dump_call (es_active_tool_calls s)),
      (''seen_tool_call_ids'', PList (map PStr (es_seen_tool_call_ids s)))]"

definition execution_from_dict :: "codec_env \<Rightarrow> pyval \<Rightarrow> execution_state res" where
  "execution_from_dict env value0 =
     bindR (mapping_value ''execution state must be an object'' value0) (\<lambda>d.
     bindR (mapping_value ''committed_results must be an object'' (dget_or d ''committed_results'' (PDict []))) (\<lambda>raw_results.
     bindR (mapping_value ''tool_repair_counts must be an object'' (dget_or d ''tool_repair_counts'' (PDict []))) (\<lambda>raw_counts.
     bindR (load_optional (mapping_value ''pending_tool_failure must be an object'') (field d ''pending_tool_failure'')) (\<lambda>pending_failure.
     bindR (load_optional (mapping_value ''failure must be an object'') (field d ''failure'')) (\<lambda>failure.
     bindR (mapping_value ''active_tool_calls must be an object'' (dget_or d ''active_tool_calls'' (PDict []))) (\<lambda>raw_active.
     bindR (load_dict (load_call env ''active_tool_calls values must be objects'') raw_active) (\<lambda>active.
     bindR (array_value ''seen_tool_call_ids must be an array'' (dget_or d ''seen_tool_call_ids'' (PList []))) (\<lambda>raw_seen.
     bindR (case dget_or d ''phase'' (PStr ''plan'') of PStr s \<Rightarrow> enum_value run_phases s
       | _ \<Rightarrow> Inl (ValueError ''invalid enum value'')) (\<lambda>phase.
     bindR (plan_from_dict (ce_hash env) (ce_text_of env) (ce_int_of env) (dget_or d ''plan'' (PDict []))) (\<lambda>p.
     bindR (load_dict (ce_validate env) raw_results) (\<lambda>results.
     bindR (load_optional (ce_validate env) (field d ''pending_step_result'')) (\<lambda>pending.
     bindR (int_value (ce_int_of env) (dget_or d ''replan_count'' (PInt 0))) (\<lambda>replans.
     bindR (int_value (ce_int_of env) (dget_or d ''finalization_count'' (PInt 0))) (\<lambda>finalizations.
     bindR (load_dict (int_value (ce_int_of env)) raw_counts) (\<lambda>counts.
     bindR (int_value (ce_int_of env) (dget_or d ''total_tool_repairs'' (PInt 0))) (\<lambda>total.
     ExecutionState (step_result_ref (ce_digest env))
       \<lparr>es_phase = phase, es_plan = p, es_current_step_id = optional_str (ce_text_of env) d ''current_step_id'',
        es_committed_results = results, es_pending_step_result = pending,
        es_validation_error = optional_str (ce_text_of env) d ''validation_error'',
        es_awaiting_step_result = (\<not> falsy (dget_or d ''awaiting_step_result'' (PBool False))),
        es_replan_count = replans, es_finalization_count = finalizations,
        es_final_response = optional_str (ce_text_of env) d ''final_response'',
        es_final_persisted = (\<not> falsy (dget_or d ''final_persisted'' (PBool False))),
        es_final_emitted = (\<not> falsy (dget_or d ''final_emitted'' (PBool False))),
        es_tool_repair_counts = counts, es_pending_tool_failure = pending_failure, es_total_tool_repairs = total,
        es_failure = failure, es_active_tool_calls = active,
        es_seen_tool_call_ids = map (ce_text_of env) raw_seen\<rparr>))))))))))))))))"

definition migrate :: "codec_env \<Rightarrow> int \<Rightarrow> pyval \<Rightarrow> pyval res" where
  "migrate env from_version payload =
     bindR (require (case payload of PDict _ \<Rightarrow> True | _ \<Rightarrow> False)
       (TypeError ''Plan state payload must be a mapping'')) (\<lambda>_.
     if from_version = 1 then bindR (decode env payload) (\<lambda>s. Inr (encode env s))
     else if from_version \<in> {0, 3} then
       bindR (execution_from_dict env payload) (\<lambda>legacy.
       bindR (from_legacy (ce_text_of env) (ce_int_of env) legacy) (\<lambda>s. Inr (encode env s)))
     else Inl (ValueError ''unsupported Plan state version''))"

end
