(* ===== verification/Plan_Policy.thy ===== *)
theory Plan_Policy
  imports Plan_State_Codec
begin

text \<open>
  The strict plan policy (\<^verbatim>\<open>PlanAndExecutePolicy\<close> of \<^verbatim>\<open>moduagent/decision/planning.py\<close>): what a model
  response, a batch of Tool results or a pending step result does to the execution state of a run.
  The run context is a record; its execution state is one object that the policy mutates in place, so
  a mutation is visible in the context before \<^verbatim>\<open>_sync\<close> serializes it.  Other code is a field of the policy
  record: the plan generator, the step validator, the diagnostic reporter, the parser of a step
  result and the argument fingerprint.
\<close>

subsection \<open>Values\<close>

datatype decision_kind = DK_CONTINUE | DK_CALL_TOOLS | DK_RETRY_TOOL | DK_COMMIT_STEP | DK_RETRY_STEP
  | DK_REPLAN | DK_FINALIZE | DK_FINISH | DK_FAIL

record execution_decision =
  dn_kind :: decision_kind
  dn_tool_calls :: "tool_call list"
  dn_error_message :: "string option"
  dn_metadata :: "(string, pyval) dict"

record model_response =
  mr_content :: "string option"
  mr_tool_calls :: "tool_call list"
  mr_finish_reason :: "string option"

record failure_recovery =
  fr_fallback :: recovery_fallback
  fr_require_repair_safe :: bool
  fr_safe_message :: bool

record 'w run_context =
  cx_execution_state :: "execution_state option"
  cx_policy_state :: "(string, pyval) dict"
  cx_internal_messages :: "pyval list"
  cx_primary_failure :: "(string, pyval) dict option"
  cx_world :: 'w

text \<open>The keyword arguments of \<^verbatim>\<open>_capture_policy_exception\<close>.\<close>

record policy_failure =
  px_operation :: string
  px_category :: string
  px_code :: string
  px_phase :: run_phase
  px_step_id :: "string option"
  px_attempt :: "int option"

record 'w plan_policy =
  pp_env :: codec_env
  pp_create :: "'w \<Rightarrow> plan res \<times> 'w"
  pp_revise :: "plan \<Rightarrow> string \<Rightarrow> 'w \<Rightarrow> plan res \<times> 'w"
  pp_validator :: "plan_step \<Rightarrow> step_result \<Rightarrow> 'w \<Rightarrow> step_validation res \<times> 'w"
  pp_capture :: "exn \<Rightarrow> policy_failure \<Rightarrow> 'w \<Rightarrow> string option \<times> 'w"
  pp_parse_result :: "string \<Rightarrow> step_result res"
  pp_fingerprint :: "(string, pyval) dict \<Rightarrow> string res"
  pp_revise_on_tool_failure :: bool
  pp_recovery :: "failure_recovery option"
  pp_step_attempts_override :: "int option"
  pp_replans_override :: "int option"
  pp_max_step_attempts :: int
  pp_max_replans :: int
  pp_max_tool_repair_attempts :: int
  pp_available_tools :: "string list"

definition step_validation_codes :: "string list" where
  "step_validation_codes =
     [''step_result_incomplete'', ''step_result_tool_call_forbidden'', ''step_result_tool_call_invalid'',
      ''step_result_required'', ''step_result_schema_invalid'', ''step_result_id_mismatch'',
      ''step_result_max_attempts_exceeded'', ''step_validation_state_incomplete'', ''step_validator_failed'',
      ''step_validation_rejected'', ''step_validation_max_attempts_exceeded'']"

definition step_validation_locations :: "string list" where
  "step_validation_locations = [''act'', ''step_result'', ''step_validator'']"

definition occurs_in :: "string \<Rightarrow> string \<Rightarrow> bool" where
  "occurs_in sub s \<longleftrightarrow> list_ex (\<lambda>i. take (length sub) (drop i s) = sub) [0..<Suc (length s)]"

text \<open>The exception of the model guard.\<close>

definition is_guard_trip :: "exn \<Rightarrow> bool" where
  "is_guard_trip e \<longleftrightarrow> e = OtherException ''ModelGuardTripped''"

subsection \<open>Configuration\<close>

definition PlanAndExecutePolicy :: "'w plan_policy \<Rightarrow> 'w plan_policy res" where
  "PlanAndExecutePolicy p = bindR (all_ok
     [require (case pp_step_attempts_override p of None \<Rightarrow> True | Some n \<Rightarrow> 1 \<le> n)
        (ValueError ''max_step_attempts must be at least 1''),
      require (case pp_replans_override p of None \<Rightarrow> True | Some n \<Rightarrow> 0 \<le> n)
        (ValueError ''max_replans cannot be negative'')]) (\<lambda>_.
     Inr (p\<lparr>pp_max_step_attempts := (case pp_step_attempts_override p of None \<Rightarrow> 2 | Some n \<Rightarrow> n),
            pp_max_replans := (case pp_replans_override p of None \<Rightarrow> 2 | Some n \<Rightarrow> n),
            pp_max_tool_repair_attempts := 1, pp_available_tools := []\<rparr>))"

definition configure_limits :: "int \<Rightarrow> int \<Rightarrow> int option \<Rightarrow> 'w plan_policy \<Rightarrow> 'w plan_policy res" where
  "configure_limits max_step_attempts max_replans max_repairs p = bindR (all_ok
     [require (1 \<le> max_step_attempts) (ValueError ''max_step_attempts must be at least 1''),
      require (0 \<le> max_replans) (ValueError ''max_replans cannot be negative''),
      require (case max_repairs of None \<Rightarrow> True | Some n \<Rightarrow> 0 \<le> n)
        (ValueError ''max_tool_repair_attempts cannot be negative'')]) (\<lambda>_.
     Inr (p\<lparr>pp_max_step_attempts := (case pp_step_attempts_override p of None \<Rightarrow> max_step_attempts
              | Some n \<Rightarrow> min max_step_attempts n),
            pp_max_replans := (case pp_replans_override p of None \<Rightarrow> max_replans | Some n \<Rightarrow> min max_replans n),
            pp_max_tool_repair_attempts := (case max_repairs of None \<Rightarrow> pp_max_tool_repair_attempts p
              | Some n \<Rightarrow> n)\<rparr>))"

definition configure_tool_repair_limits :: "int \<Rightarrow> 'w plan_policy \<Rightarrow> 'w plan_policy res" where
  "configure_tool_repair_limits n p = bindR (require (0 \<le> n)
     (ValueError ''max_tool_repair_attempts cannot be negative'')) (\<lambda>_. Inr (p\<lparr>pp_max_tool_repair_attempts := n\<rparr>))"

definition configure_available_tools :: "string list \<Rightarrow> 'w plan_policy \<Rightarrow> 'w plan_policy res" where
  "configure_available_tools names p = bindR (require ([] \<notin> set names)
     (TypeError ''available_tools must be a frozenset of Tool names'')) (\<lambda>_. Inr (p\<lparr>pp_available_tools := names\<rparr>))"

subsection \<open>The run context\<close>

text \<open>An in-place mutation of the execution state, and \<^verbatim>\<open>_sync\<close>.\<close>

definition put_state :: "execution_state \<Rightarrow> ('w run_context, unit) prog" where
  "put_state s = modifyP (\<lambda>r. r\<lparr>cx_execution_state := Some s\<rparr>)"

definition sync :: "codec_env \<Rightarrow> execution_state \<Rightarrow> ('w run_context, unit) prog" where
  "sync env s = modifyP (\<lambda>r. r\<lparr>cx_execution_state := Some s,
     cx_policy_state := dset ''plan'' (plan_to_dict (es_plan s))
       (dset ''execution_state'' (execution_to_dict env s) (cx_policy_state r))\<rparr>)"

definition run_state :: "codec_env \<Rightarrow> ('w run_context, execution_state) prog" where
  "run_state env = (\<lambda>r. case cx_execution_state r of
     Some s \<Rightarrow> (Inr s, r)
   | None \<Rightarrow> (case dget (cx_policy_state r) ''execution_state'' of
       Some (PDict d) \<Rightarrow> (case execution_from_dict env (PDict d) of
           Inl e \<Rightarrow> (Inl e, r) | Inr s \<Rightarrow> (Inr s, r\<lparr>cx_execution_state := Some s\<rparr>))
     | _ \<Rightarrow> (Inl (RuntimeError ''PlanAndExecutePolicy.begin() must be called first''), r)))"

text \<open>A call of other code that may change its own world only.\<close>

definition in_world :: "('w \<Rightarrow> 'a \<times> 'w) \<Rightarrow> ('w run_context, 'a) prog" where
  "in_world f = (\<lambda>r. case f (cx_world r) of (x, w) \<Rightarrow> (Inr x, r\<lparr>cx_world := w\<rparr>))"

definition clear_internal :: "('w run_context, unit) prog" where
  "clear_internal = modifyP (\<lambda>r. r\<lparr>cx_internal_messages := []\<rparr>)"

text \<open>The failure that the reporter has given an ID becomes the primary failure of the run.\<close>

definition capture_policy_exception :: "'w plan_policy \<Rightarrow> exn \<Rightarrow> policy_failure \<Rightarrow> ('w run_context, unit) prog" where
  "capture_policy_exception p e info = bindP (in_world (pp_capture p e info)) (\<lambda>failure_id.
     case failure_id of
       None \<Rightarrow> ret ()
     | Some i \<Rightarrow> if i = [] then ret () else modifyP (\<lambda>r. r\<lparr>cx_primary_failure := Some
         ([(''failure_id'', PStr i), (''component'', PStr ''policy''), (''operation'', PStr (px_operation info)),
           (''phase'', PStr (run_phase_value (px_phase info)))] @
          (case px_step_id info of None \<Rightarrow> [] | Some j \<Rightarrow> [(''step_id'', PStr j)]) @
          (case px_attempt info of None \<Rightarrow> [] | Some n \<Rightarrow> [(''attempt'', PInt n)]) @
          [(''category'', PStr (px_category info)), (''code'', PStr (px_code info)), (''retryable'', PBool False)])\<rparr>))"

definition policy_metadata :: "codec_env \<Rightarrow> execution_state \<Rightarrow> (string, pyval) dict" where
  "policy_metadata env s = [(''phase'', PStr (run_phase_value (es_phase s))), (''plan'', plan_to_dict (es_plan s)),
     (''execution_state'', execution_to_dict env s)]"

definition decision :: "codec_env \<Rightarrow> execution_state \<Rightarrow> decision_kind \<Rightarrow> string option \<Rightarrow>
    (string, pyval) dict \<Rightarrow> execution_decision" where
  "decision env s kind error extra = \<lparr>dn_kind = kind, dn_tool_calls = [], dn_error_message = error,
     dn_metadata = policy_metadata env s @ extra\<rparr>"

text \<open>The usual exit: the state is serialized and the decision describes it.\<close>

definition settle :: "codec_env \<Rightarrow> execution_state \<Rightarrow> decision_kind \<Rightarrow> string option \<Rightarrow> (string, pyval) dict \<Rightarrow>
    ('w run_context, execution_decision) prog" where
  "settle env s kind error extra = bindP (sync env s) (\<lambda>_. ret (decision env s kind error extra))"

definition failed_state :: "execution_state \<Rightarrow> execution_state" where
  "failed_state s = snd (fail_current_step s)"

subsection \<open>Beginning and preparing\<close>

definition initial_execution :: "plan \<Rightarrow> execution_state" where
  "initial_execution made_plan = \<lparr>es_phase = P_STEP_PREPARE, es_plan = made_plan,
     es_current_step_id = map_option ps_step_id (plan_current made_plan), es_committed_results = [],
     es_pending_step_result = None, es_validation_error = None, es_awaiting_step_result = False,
     es_replan_count = 0, es_finalization_count = 0, es_final_response = None, es_final_persisted = False,
     es_final_emitted = False, es_tool_repair_counts = [], es_pending_tool_failure = None,
     es_total_tool_repairs = 0, es_failure = None, es_active_tool_calls = [], es_seen_tool_call_ids = []\<rparr>"

definition create_state :: "'w plan_policy \<Rightarrow> ('w run_context, execution_state) prog" where
  "create_state p = bindP (in_world (pp_create p)) (\<lambda>made. case made of
     Inl e \<Rightarrow> if is_exception e
       then bindP (capture_policy_exception p e \<lparr>px_operation = ''create_plan'', px_category = ''planning'',
         px_code = ''plan_generation_failed'', px_phase = P_PLAN, px_step_id = None, px_attempt = Some 1\<rparr>)
         (\<lambda>_. raise e)
       else raise e
   | Inr made_plan \<Rightarrow> ofR (ExecutionState (step_result_ref (ce_digest (pp_env p))) (initial_execution made_plan)))"

definition begin_run :: "'w plan_policy \<Rightarrow> ('w run_context, unit) prog" where
  "begin_run p = (\<lambda>r.
     let use = (\<lambda>s. bindP (put_state s) (\<lambda>_. sync (pp_env p) s)) in
     case cx_execution_state r of
       Some s \<Rightarrow> sync (pp_env p) s r
     | None \<Rightarrow> bindP (case dget (cx_policy_state r) ''execution_state'' of
         Some (PDict d) \<Rightarrow> ofR (execution_from_dict (pp_env p) (PDict d)) | _ \<Rightarrow> create_state p) use r)"

definition prepare_step :: "'w plan_policy \<Rightarrow> bool \<Rightarrow> ('w run_context, plan_step option) prog" where
  "prepare_step p has_tools = bindP (run_state (pp_env p)) (\<lambda>s.
     bindP (if es_phase s = P_STEP_PREPARE then clear_internal else ret ()) (\<lambda>_.
     case prepare_current_step has_tools s of
       (Inl e, s') \<Rightarrow> bindP (put_state s') (\<lambda>_. raise e)
     | (Inr step, s') \<Rightarrow> bindP (sync (pp_env p) s') (\<lambda>_. ret step)))"

subsection \<open>Retries\<close>

definition bump_attempt :: "plan_step \<Rightarrow> execution_state \<Rightarrow> execution_state" where
  "bump_attempt step s = s\<lparr>es_plan := update_step (ps_step_id step)
     (\<lambda>st. st\<lparr>ps_attempt_count := ps_attempt_count st + 1\<rparr>) (es_plan s)\<rparr>"

definition retry_invalid_result :: "'w plan_policy \<Rightarrow> execution_state \<Rightarrow> string \<Rightarrow> string \<Rightarrow> string \<Rightarrow>
    ('w run_context, execution_decision) prog" where
  "retry_invalid_result p s reason code1 location =
     bindP (ofR (all_ok
       [require (code1 \<in> set step_validation_codes) (ValueError ''validation_code is not a stable framework code''),
        require (location \<in> set step_validation_locations)
          (ValueError ''validation_location is not a stable framework location'')])) (\<lambda>_.
     case current_step s of
       None \<Rightarrow> settle (pp_env p) (failed_state s) DK_FAIL (Some ''there is no current step to retry'')
         [(''validation_code'', PStr ''step_validation_state_incomplete''), (''validation_location'', PStr location)]
     | Some step \<Rightarrow>
         let s1 = (bump_attempt step s)\<lparr>es_validation_error := Some reason, es_pending_step_result := None\<rparr> in
         if pp_max_step_attempts p \<le> ps_attempt_count step + 1
         then settle (pp_env p) (failed_state s1) DK_FAIL
           (Some ''StepResult validation failed after maximum attempts'')
           [(''reason'', PStr reason), (''validation_code'', PStr ''step_result_max_attempts_exceeded''),
            (''validation_cause_code'', PStr code1), (''validation_location'', PStr location),
            (''count_attempt'', PBool True)]
         else settle (pp_env p) (s1\<lparr>es_phase := P_ACT\<rparr>) DK_RETRY_STEP None
           [(''reason'', PStr reason), (''validation_code'', PStr code1), (''validation_cause_code'', PNone),
            (''validation_location'', PStr location), (''count_attempt'', PBool True)])"

fun validation_kind_value :: "validation_kind \<Rightarrow> string" where
  "validation_kind_value COMMIT = ''commit''"
| "validation_kind_value RETRY = ''retry''"
| "validation_kind_value REPLAN = ''replan''"
| "validation_kind_value FAIL = ''fail''"

definition step_validation_to_dict :: "step_validation \<Rightarrow> pyval" where
  "step_validation_to_dict v = PDict [(''kind'', PStr (validation_kind_value (sv_kind v))),
     (''reason'', PStr (sv_reason v)), (''unmet_criteria'', PList (map PStr (sv_unmet_criteria v))),
     (''metadata'', PDict (sv_metadata v))]"

definition retry_validation :: "'w plan_policy \<Rightarrow> execution_state \<Rightarrow> step_validation \<Rightarrow>
    ('w run_context, execution_decision) prog" where
  "retry_validation p s v = (case current_step s of
     None \<Rightarrow> settle (pp_env p) (failed_state s) DK_FAIL (Some ''there is no current step to retry'')
       [(''validation_code'', PStr ''step_validation_state_incomplete''),
        (''validation_location'', PStr ''step_validator'')]
   | Some step \<Rightarrow>
       let s1 = (bump_attempt step s)\<lparr>es_validation_error := Some (sv_reason v), es_pending_step_result := None\<rparr>;
           extra = (\<lambda>failed. [(''validation'', step_validation_to_dict v),
             (''validation_code'', PStr (if failed then ''step_validation_max_attempts_exceeded''
                else ''step_validation_rejected'')),
             (''validation_cause_code'', if failed then PStr ''step_validation_rejected'' else PNone),
             (''validation_location'', PStr ''step_validator''), (''count_attempt'', PBool True)]) in
       if pp_max_step_attempts p \<le> ps_attempt_count step + 1
       then settle (pp_env p) (failed_state s1) DK_FAIL (Some ''Step validation failed after maximum attempts'')
         (extra True)
       else settle (pp_env p) (s1\<lparr>es_phase := P_ACT, es_awaiting_step_result := True\<rparr>) DK_RETRY_STEP None
         (extra False))"

subsection \<open>Replanning\<close>

definition reload_step :: "codec_env \<Rightarrow> plan_step \<Rightarrow> plan_step res" where
  "reload_step env s = plan_step_from_dict (ce_hash env) (ce_text_of env) (ce_int_of env) (plan_step_to_dict s)"

definition keep_attempts :: "(string, plan_step) dict \<Rightarrow> plan_step \<Rightarrow> plan_step" where
  "keep_attempts previous st = (case dget previous (ps_step_id st) of None \<Rightarrow> st
     | Some old \<Rightarrow> st\<lparr>ps_attempt_count := max (ps_attempt_count st) (ps_attempt_count old)\<rparr>)"

text \<open>
  The merged plan: the committed steps first, then the open steps of the revision, none of which loses
  the attempts it has already spent.
\<close>

definition merged_plan :: "codec_env \<Rightarrow> execution_state \<Rightarrow> plan \<Rightarrow> plan res" where
  "merged_plan env s revised =
     (let committed_ids = map fst (es_committed_results s);
          previous = map (\<lambda>st. (ps_step_id st, st)) (filter (\<lambda>st. ps_step_id st \<notin> set committed_ids) (pl_steps (es_plan s))) in
      bindR (mapR (reload_step env) (filter (\<lambda>st. ps_step_id st \<in> set committed_ids) (pl_steps (es_plan s)))) (\<lambda>committed_steps.
      bindR (mapR (reload_step env) (filter (\<lambda>st. ps_step_id st \<notin> set committed_ids) (pl_steps revised))) (\<lambda>revised_open.
      Plan (committed_steps @ map (keep_attempts previous) revised_open) (int (length committed_steps))
        (max (pl_version (es_plan s)) (pl_version revised) + 1))))"

definition apply_replan :: "'w plan_policy \<Rightarrow> execution_state \<Rightarrow> string \<Rightarrow> ('w run_context, execution_state) prog" where
  "apply_replan p s feedback = bindP (in_world (pp_revise p (es_plan s) feedback)) (\<lambda>made. case made of
     Inl e \<Rightarrow>
       if \<not> is_exception e \<or> is_guard_trip e then raise e
       else bindP (capture_policy_exception p e \<lparr>px_operation = ''revise_plan'', px_category = ''planning'',
           px_code = ''plan_revision_failed'', px_phase = es_phase s,
           px_step_id = map_option ps_step_id (current_step s),
           px_attempt = map_option (\<lambda>st. max 1 (ps_attempt_count st + 1)) (current_step s)\<rparr>) (\<lambda>_.
         let s1 = s\<lparr>es_failure := (case es_pending_tool_failure s of None \<Rightarrow> es_failure s
               | Some d \<Rightarrow> Some (dset ''terminal_reason'' (PStr ''plan revision failed'') d))\<rparr>;
             s2 = (failed_state s1)\<lparr>es_validation_error := Some ''plan revision failed'',
               es_pending_step_result := None, es_awaiting_step_result := False\<rparr> in
         bindP (sync (pp_env p) s2) (\<lambda>_. raise (RuntimeError ''plan revision failed'')))
   | Inr revised \<Rightarrow> bindP (ofR (merged_plan (pp_env p) s revised)) (\<lambda>merged.
       let s' = s\<lparr>es_plan := merged, es_replan_count := es_replan_count s + 1, es_pending_step_result := None,
           es_pending_tool_failure := None, es_failure := None, es_active_tool_calls := [],
           es_validation_error := Some feedback, es_awaiting_step_result := False, es_phase := P_STEP_PREPARE,
           es_current_step_id := map_option ps_step_id (plan_current merged)\<rparr> in
       bindP (sync (pp_env p) s') (\<lambda>_. ret s')))"

definition replan :: "'w plan_policy \<Rightarrow> execution_state \<Rightarrow> string \<Rightarrow>
    ('w run_context, execution_state \<times> execution_decision) prog" where
  "replan p s feedback =
     (if pp_max_replans p \<le> es_replan_count s
      then (let s' = (failed_state s)\<lparr>es_validation_error := Some ''maximum replans exceeded''\<rparr> in
        bindP (settle (pp_env p) s' DK_FAIL (Some ''maximum replans exceeded'') []) (\<lambda>d. ret (s', d)))
      else bindP (apply_replan p s feedback) (\<lambda>s'.
        ret (s', decision (pp_env p) s' DK_REPLAN None [(''reason'', PStr feedback)])))"

text \<open>\<^verbatim>\<open>_fallback_tool_failure\<close>; its mutations of the state come before anything that may raise.\<close>

definition fallback_tool_failure :: "'w plan_policy \<Rightarrow> execution_state \<Rightarrow> string \<Rightarrow> recovery_fallback option \<Rightarrow>
    ('w run_context, execution_decision) prog" where
  "fallback_tool_failure p s reason fallback = (case pp_recovery p of
     None \<Rightarrow> raise (RuntimeError ''Tool failure fallback requires recovery configuration'')
   | Some recovery \<Rightarrow>
       let pending = dset ''fallback_reason'' (PStr reason) (case es_pending_tool_failure s of None \<Rightarrow> [] | Some d \<Rightarrow> d);
           raw = dget_or pending ''feedback'' PNone;
           feedback0 = (if falsy raw then ''Tool execution failed'' else ce_text_of (pp_env p) raw);
           feedback = (if occurs_in reason feedback0 then feedback0 else feedback0 @ ''; '' @ reason);
           s1 = s\<lparr>es_pending_tool_failure := Some pending, es_active_tool_calls := [],
             es_validation_error := Some feedback\<rparr> in
       bindP (put_state s1) (\<lambda>_.
       if (case fallback of None \<Rightarrow> fr_fallback recovery | Some f \<Rightarrow> f) = FB_replan
       then bindP (replan p s1 feedback) (\<lambda>(s2, d).
         if dn_kind d = DK_FAIL
         then (let failure = dset ''terminal_reason'' (PStr (case dn_error_message d of None \<Rightarrow> ''maximum replans exceeded''
                 | Some m \<Rightarrow> if m = [] then ''maximum replans exceeded'' else m)) pending;
               s3 = s2\<lparr>es_failure := Some failure, es_pending_step_result := None, es_awaiting_step_result := False\<rparr> in
           settle (pp_env p) s3 DK_FAIL (dn_error_message d)
             [(''reason'', PStr reason), (''tool_failure'', PDict failure)])
         else ret d)
       else (let failure = dset ''terminal_reason'' (PStr reason) pending;
             s2 = failed_state (s1\<lparr>es_failure := Some failure, es_pending_step_result := None,
               es_awaiting_step_result := False\<rparr>) in
         settle (pp_env p) s2 DK_FAIL (Some ''Tool execution failed'')
           [(''reason'', PStr reason), (''tool_failure'', PDict failure)])))"

subsection \<open>Validation of a step result\<close>

definition validate_pending :: "'w plan_policy \<Rightarrow> ('w run_context, execution_decision) prog" where
  "validate_pending p = bindP (run_state (pp_env p)) (\<lambda>s.
     let env = pp_env p in
     case (es_phase s = P_STEP_VALIDATE, es_pending_step_result s, current_step s) of
       (True, Some result, Some step) \<Rightarrow>
         bindP (in_world (pp_validator p step result)) (\<lambda>answer. case answer of
           Inl e \<Rightarrow>
             if \<not> is_exception e then raise e
             else bindP (capture_policy_exception p e \<lparr>px_operation = ''validate_step'', px_category = ''step_validation'',
                 px_code = ''step_validator_failed'', px_phase = es_phase s, px_step_id = Some (ps_step_id step),
                 px_attempt = Some (max 1 (ps_attempt_count step + 1))\<rparr>) (\<lambda>_.
               settle env ((failed_state s)\<lparr>es_validation_error := Some (''step validator failed ('' @ exn_class e @ '')'')\<rparr>)
                 DK_FAIL (Some ''Step validation failed'')
                 [(''validation_code'', PStr ''step_validator_failed''), (''validation_location'', PStr ''step_validator'')])
         | Inr v \<Rightarrow> (case sv_kind v of
             COMMIT \<Rightarrow> (case commit_pending (step_result_ref (ce_digest env)) s of
                 (Inl e, s') \<Rightarrow> bindP (put_state s') (\<lambda>_. raise e)
               | (Inr _, s') \<Rightarrow> bindP (put_state s') (\<lambda>_. bindP clear_internal (\<lambda>_.
                   settle env s' DK_COMMIT_STEP None [(''validation'', step_validation_to_dict v),
                     (''plan_complete'', PBool (execution_complete s'))])))
           | RETRY \<Rightarrow> retry_validation p s v
           | REPLAN \<Rightarrow> bindP (replan p s (sv_reason v)) (\<lambda>(_, d). ret d)
           | FAIL \<Rightarrow> settle env ((failed_state s)\<lparr>es_validation_error := Some (sv_reason v)\<rparr>) DK_FAIL
               (Some ''Step validation failed'')
               [(''validation'', step_validation_to_dict v), (''validation_code'', PStr ''step_validation_rejected''),
                (''validation_location'', PStr ''step_validator'')]))
     | _ \<Rightarrow> settle env ((failed_state s)\<lparr>es_validation_error := Some ''pending step validation state is incomplete''\<rparr>)
         DK_FAIL (Some ''Step validation failed'')
         [(''validation_code'', PStr ''step_validation_state_incomplete''), (''validation_location'', PStr ''step_validator'')])"

subsection \<open>Model responses\<close>

text \<open>One round of the loop over the calls: a message ends the loop.\<close>

definition tool_call_record :: "'w plan_policy \<Rightarrow> execution_state \<Rightarrow> (string, active_call) dict \<Rightarrow> tool_call \<Rightarrow>
    ((string, active_call) dict + string) res" where
  "tool_call_record p s records call =
     (let call_id = strip (tk_id call); tool_name = strip (tk_name call) in
      if call_id = [] \<or> tool_name = [] then Inr (Inr ''Tool call ID and name cannot be empty'')
      else if 256 < length call_id \<or> 256 < length tool_name
      then Inr (Inr ''Tool call ID or name exceeds the protocol limit'')
      else if call_id \<in> set (es_seen_tool_call_ids s) \<or> call_id \<in> fst ` set records
      then Inr (Inr ''Tool calls must use a new unique call ID'')
      else (case pp_fingerprint p (tk_arguments call) of
          Inl (ValueError _) \<Rightarrow> Inr (Inr ''Tool call arguments must be canonical JSON'')
        | Inl e \<Rightarrow> Inl e
        | Inr print \<Rightarrow> Inr (Inl (records @ [(call_id, \<lparr>ac_tool_name = tool_name, ac_fingerprint = print\<rparr>)]))))"

definition tool_call_records :: "'w plan_policy \<Rightarrow> execution_state \<Rightarrow> tool_call list \<Rightarrow>
    ((string, active_call) dict + string) res" where
  "tool_call_records p s calls = foldl (\<lambda>acc call. bindR acc (\<lambda>found. case found of
     Inr message \<Rightarrow> Inr (Inr message) | Inl records \<Rightarrow> tool_call_record p s records call)) (Inr (Inl [])) calls"

definition repair_tool_call_error :: "codec_env \<Rightarrow> (string, pyval) dict \<Rightarrow> tool_call list \<Rightarrow>
    (string, active_call) dict \<Rightarrow> string option" where
  "repair_tool_call_error env pending calls records = (case (calls, records) of
     ([call], [(_, record)]) \<Rightarrow>
       let text = (\<lambda>k. ce_text_of env (dget_or pending k (PStr []))); previous = text ''arguments_fingerprint'' in
       if tk_name call \<noteq> text ''tool_name'' then Some ''Tool repair must call the same Tool''
       else if tk_id call = text ''call_id'' then Some ''Tool repair must use a new call ID''
       else if previous = [] then Some ''Tool repair cannot verify the failed call arguments''
       else if ac_fingerprint record = previous then Some ''Tool repair must change the Tool arguments''
       else None
   | _ \<Rightarrow> Some ''Tool repair must contain exactly one call'')"

definition decode_step_result :: "'w plan_policy \<Rightarrow> model_response \<Rightarrow> step_result res" where
  "decode_step_result p response = (case mr_content response of
     None \<Rightarrow> Inl (TypeError ''StepResult response must be a JSON object'')
   | Some c \<Rightarrow> if strip c = [] then Inl (ValueError ''StepResult response is empty'') else pp_parse_result p c)"

definition result_location :: "execution_state \<Rightarrow> string" where
  "result_location s = (if es_awaiting_step_result s then ''step_result'' else ''act'')"

definition accept_tool_calls :: "'w plan_policy \<Rightarrow> execution_state \<Rightarrow> tool_call list \<Rightarrow> (string, active_call) dict \<Rightarrow>
    ('w run_context, execution_decision) prog" where
  "accept_tool_calls p s calls records =
     (let s1 = s\<lparr>es_active_tool_calls := records, es_seen_tool_call_ids := es_seen_tool_call_ids s @ map fst records\<rparr> in
      case mark_tool_round_complete s1 of
        (Inl e, s2) \<Rightarrow> bindP (put_state s2) (\<lambda>_. raise e)
      | (Inr _, s2) \<Rightarrow> bindP (sync (pp_env p) s2) (\<lambda>_. ret
          \<lparr>dn_kind = DK_CALL_TOOLS, dn_tool_calls = calls, dn_error_message = None,
           dn_metadata = policy_metadata (pp_env p) s2 @ [(''requires_step_result'', PBool True)]\<rparr>))"

definition decide_tool_calls :: "'w plan_policy \<Rightarrow> execution_state \<Rightarrow> tool_call list \<Rightarrow>
    ('w run_context, execution_decision) prog" where
  "decide_tool_calls p s calls =
     (if es_awaiting_step_result s
      then settle (pp_env p) ((failed_state s)\<lparr>es_validation_error := Some ''tools are forbidden during StepResult extraction''\<rparr>)
        DK_FAIL (Some ''tools are forbidden during StepResult extraction'')
        [(''validation_code'', PStr ''step_result_tool_call_forbidden''), (''validation_location'', PStr ''step_result'')]
      else bindP (ofR (tool_call_records p s calls)) (\<lambda>found. case found of
        Inr message \<Rightarrow>
          if es_pending_tool_failure s \<noteq> None then fallback_tool_failure p s message None
          else retry_invalid_result p s message ''step_result_tool_call_invalid'' (result_location s)
      | Inl records \<Rightarrow> (case es_pending_tool_failure s of
          None \<Rightarrow> accept_tool_calls p s calls records
        | Some pending \<Rightarrow> (case repair_tool_call_error (pp_env p) pending calls records of
            Some message \<Rightarrow> fallback_tool_failure p s message None
          | None \<Rightarrow> accept_tool_calls p s calls records))))"

text \<open>The \<^verbatim>\<open>repr\<close> of an ID without quotes, escapes and unprintable characters.\<close>

definition quoted :: "string \<Rightarrow> string" where
  "quoted s = CHR 0x27 # s @ [CHR 0x27]"

text \<open>A response that is a step result; a protocol failure ends the step at once.\<close>

definition decide_step_result :: "'w plan_policy \<Rightarrow> execution_state \<Rightarrow> model_response \<Rightarrow>
    ('w run_context, execution_decision) prog" where
  "decide_step_result p s response = (case decode_step_result p response of
     Inl e \<Rightarrow>
       if (case e of TypeError _ \<Rightarrow> True | ValueError _ \<Rightarrow> True | _ \<Rightarrow> False)
       then settle (pp_env p) (failed_state (s\<lparr>es_pending_step_result := None,
             es_validation_error := Some ''StepResult protocol validation failed''\<rparr>)) DK_FAIL
           (Some ''StepResult protocol validation failed'')
           [(''validation_code'', PStr ''step_result_schema_invalid''), (''validation_location'', PStr ''step_result'')]
       else raise e
   | Inr result \<Rightarrow>
       let fail = (\<lambda>message code1. settle (pp_env p) (failed_state (s\<lparr>es_pending_step_result := None,
             es_validation_error := Some message\<rparr>)) DK_FAIL (Some ''Step validation failed'')
           [(''validation_code'', PStr code1), (''validation_location'', PStr ''step_result'')]) in
       (case current_step s of
          None \<Rightarrow> fail ''pending step validation state is incomplete'' ''step_validation_state_incomplete''
        | Some step \<Rightarrow>
            if sr_step_id result \<noteq> ps_step_id step
            then fail (''step result id '' @ quoted (sr_step_id result) @ '' does not match '' @ quoted (ps_step_id step)) ''step_result_id_mismatch''
            else (case set_pending_result result s of
                (Inl e, s') \<Rightarrow> bindP (put_state s') (\<lambda>_. raise e)
              | (Inr _, s') \<Rightarrow> bindP (put_state s') (\<lambda>_. validate_pending p))))"

definition policy_decide :: "'w plan_policy \<Rightarrow> model_response \<Rightarrow> ('w run_context, execution_decision) prog" where
  "policy_decide p response = bindP (run_state (pp_env p)) (\<lambda>s.
     let reason = lower (case mr_finish_reason response of None \<Rightarrow> [] | Some f \<Rightarrow> f); calls = mr_tool_calls response in
     if reason \<in> {''timeout'', ''length'', ''max_tokens''}
     then if es_pending_tool_failure s \<noteq> None
       then fallback_tool_failure p s (''incomplete tool repair response ('' @ reason @ '')'') None
       else retry_invalid_result p s (''incomplete StepResult response ('' @ reason @ '')'')
         ''step_result_incomplete'' (result_location s)
     else if calls \<noteq> [] then decide_tool_calls p s calls
     else if es_pending_tool_failure s \<noteq> None
     then fallback_tool_failure p s ''tool repair response did not call a tool'' None
     else if \<not> es_awaiting_step_result s
     then settle (pp_env p) (s\<lparr>es_awaiting_step_result := True,
         es_validation_error := Some ''a schema-only StepResult turn is required''\<rparr>) DK_RETRY_STEP None
       [(''reason'', PStr ''a schema-only StepResult turn is required''), (''validation_code'', PStr ''step_result_required''),
        (''validation_location'', PStr ''act''), (''requires_step_result'', PBool True), (''count_attempt'', PBool False)]
     else if reason \<in> {''tool_calls'', ''tool_call''}
     then retry_invalid_result p s ''model reported tool calls without providing a tool call''
       ''step_result_tool_call_invalid'' ''step_result''
     else decide_step_result p s response)"

subsection \<open>Tool results\<close>

definition sanitize_message :: "nat \<Rightarrow> string \<Rightarrow> string" where
  "sanitize_message limit message = (let text1 = one_line message in
     if length text1 \<le> limit then text1 else take (limit - 3) text1 @ ''...'')"

definition enum_text :: "string \<Rightarrow> string option" where
  "enum_text s = (if strip s = [] then None else Some (strip s))"

definition result_recovery :: "tool_result \<Rightarrow> tool_recovery_action option" where
  "result_recovery result = (case tr_error result of None \<Rightarrow> None | Some e \<Rightarrow> te_recovery e)"

definition step_repair_count :: "'w plan_policy \<Rightarrow> execution_state \<Rightarrow> int" where
  "step_repair_count p s = (case current_step s of
     None \<Rightarrow> pp_max_tool_repair_attempts p
   | Some step \<Rightarrow> dget_or (es_tool_repair_counts s) (ps_step_id step) 0)"

definition active_record :: "execution_state \<Rightarrow> tool_result \<Rightarrow> active_call option" where
  "active_record s result = (case dget (es_active_tool_calls s) (tr_call_id result) of
     None \<Rightarrow> None
   | Some a \<Rightarrow> if ac_tool_name a = tr_tool_name result \<and> ac_fingerprint a \<noteq> [] then Some a else None)"

definition can_repair_tool_failure :: "'w plan_policy \<Rightarrow> failure_recovery \<Rightarrow> execution_state \<Rightarrow> tool_result \<Rightarrow> bool" where
  "can_repair_tool_failure p recovery s result \<longleftrightarrow> current_step s \<noteq> None \<and> result_recovery result = Some REPAIR_CALL \<and>
     (fr_require_repair_safe recovery \<longrightarrow> tr_repair_safe result) \<and> active_record s result \<noteq> None \<and>
     step_repair_count p s < pp_max_tool_repair_attempts p"

text \<open>The part of the payload that holds no fingerprints.\<close>

definition tool_failure_view :: "failure_recovery \<Rightarrow> execution_state \<Rightarrow> tool_result \<Rightarrow> (string, pyval) dict" where
  "tool_failure_view recovery s result =
     (let error = tr_error result;
          clean = map_option (sanitize_message 256);
          error_type = clean (case error of None \<Rightarrow> None | Some e \<Rightarrow> enum_text (error_type_value (te_type e)));
          reason = clean (case error of None \<Rightarrow> None | Some e \<Rightarrow> Option.bind (te_reason e) enum_text);
          action = result_recovery result;
          recovery_name = clean (Option.bind action (\<lambda>a. enum_text (recovery_value a)));
          tool_name = sanitize_message 256 (tr_tool_name result);
          label = (case reason of Some (c # cs) \<Rightarrow> c # cs | _ \<Rightarrow> (case error_type of Some (c # cs) \<Rightarrow> c # cs
            | _ \<Rightarrow> ''tool_failure''));
          feedback0 = ''Tool '' @ tool_name @ '' failed ('' @ label @ '')'';
          feedback = (case error of None \<Rightarrow> feedback0
            | Some e \<Rightarrow> if fr_safe_message recovery \<and> action = Some REPAIR_CALL
                then (let message = sanitize_message 512 (te_message e) in
                  if message = [] then feedback0 else feedback0 @ '': '' @ message) else feedback0) in
      [(''step_id'', text_value (map_option (\<lambda>st. sanitize_message 256 (ps_step_id st)) (current_step s))),
       (''call_id'', PStr (sanitize_message 256 (tr_call_id result))), (''tool_name'', PStr tool_name),
       (''error_type'', text_value error_type), (''reason'', text_value reason),
       (''recovery'', text_value recovery_name),
       (''retryable'', PBool (case error of None \<Rightarrow> False | Some e \<Rightarrow> te_retryable e)),
       (''repair_safe'', PBool (tr_repair_safe result)), (''feedback'', PStr (sanitize_message 512 feedback))])"

definition tool_failure_payload :: "'w plan_policy \<Rightarrow> failure_recovery \<Rightarrow> execution_state \<Rightarrow> tool_result \<Rightarrow>
    (string, pyval) dict res" where
  "tool_failure_payload p recovery s result = (let payload = tool_failure_view recovery s result in
     case active_record s result of
       None \<Rightarrow> Inr payload
     | Some a \<Rightarrow> bindR (case tr_invocation_arguments result of None \<Rightarrow> Inr (ac_fingerprint a)
           | Some arguments \<Rightarrow> pp_fingerprint p arguments) (\<lambda>invocation.
         Inr (payload @ [(''arguments_fingerprint'', PStr (ac_fingerprint a)),
           (''invocation_fingerprint'', PStr invocation)])))"

definition schedule_tool_repair :: "'w plan_policy \<Rightarrow> failure_recovery \<Rightarrow> execution_state \<Rightarrow> tool_result \<Rightarrow>
    ('w run_context, execution_decision) prog" where
  "schedule_tool_repair p recovery s result =
     bindP (ofR (tool_failure_payload p recovery s result)) (\<lambda>payload. case current_step s of
       None \<Rightarrow> raise (RuntimeError ''cannot repair a Tool failure without a current step'')
     | Some step \<Rightarrow>
         let count = dget_or (es_tool_repair_counts s) (ps_step_id step) 0 + 1;
             feedback = dget_or payload ''feedback'' PNone;
             s' = s\<lparr>es_tool_repair_counts := dset (ps_step_id step) count (es_tool_repair_counts s),
               es_total_tool_repairs := es_total_tool_repairs s + 1, es_pending_tool_failure := Some payload,
               es_failure := None, es_active_tool_calls := [], es_pending_step_result := None,
               es_validation_error := Some (ce_text_of (pp_env p) feedback), es_awaiting_step_result := False,
               es_phase := P_ACT\<rparr> in
         settle (pp_env p) s' DK_RETRY_TOOL None
           [(''reason'', feedback), (''tool_failure'', PDict payload), (''repair_attempt'', PInt count),
            (''count_attempt'', PBool False)])"

text \<open>Why a failed batch falls back, and with which fallback when the configured one is overridden.\<close>

definition fallback_choice :: "'w plan_policy \<Rightarrow> execution_state \<Rightarrow> tool_result list \<Rightarrow> tool_result list \<Rightarrow>
    recovery_fallback option \<times> string" where
  "fallback_choice p s results failures =
     (if length failures < length results
      then (Some FB_fail, ''Tool batch partially succeeded; automatic recovery is unsafe'')
      else if length failures = 1 then (case result_recovery (hd failures) of
          Some REPAIR_CALL \<Rightarrow> (None, if pp_max_tool_repair_attempts p \<le> step_repair_count p s
            then ''tool repair budget exhausted'' else ''tool failure is not safe for same-step repair'')
        | Some RA_FAIL \<Rightarrow> (Some FB_fail, ''tool recovery action requires failure'')
        | Some RA_REPLAN \<Rightarrow> (Some FB_replan, ''tool recovery action requires replanning'')
        | Some RETRY_CALL \<Rightarrow> (None, ''tool retry attempts exhausted'')
        | None \<Rightarrow> (None, ''tool failure has no recovery action''))
      else (let actions = map result_recovery failures in
        if Some RA_FAIL \<in> set actions then (Some FB_fail, ''tool recovery action requires failure'')
        else if Some RA_REPLAN \<in> set actions then (Some FB_replan, ''tool recovery action requires replanning'')
        else (None, ''tool batches with multiple results cannot be repaired in the same step'')))"

definition join_texts :: "string \<Rightarrow> string list \<Rightarrow> string" where
  "join_texts sep xs = concat (case xs of [] \<Rightarrow> [] | x # ys \<Rightarrow> x # map (\<lambda>y. sep @ y) ys)"

definition policy_observe :: "'w plan_policy \<Rightarrow> tool_result list \<Rightarrow> ('w run_context, execution_decision option) prog" where
  "policy_observe p results = bindP (run_state (pp_env p)) (\<lambda>s.
     let failures = filter (\<lambda>r. \<not> tr_success r) results; env = pp_env p in
     if failures = []
     then bindP (sync env (s\<lparr>es_pending_tool_failure := None, es_failure := None, es_validation_error := None,
         es_active_tool_calls := [], es_awaiting_step_result := True\<rparr>)) (\<lambda>_. ret None)
     else case pp_recovery p of
       Some recovery \<Rightarrow>
         if length failures = 1 \<and> length results = 1 \<and> can_repair_tool_failure p recovery s (hd failures)
         then bindP (schedule_tool_repair p recovery s (hd failures)) (\<lambda>d. ret (Some d))
         else (let (fallback, reason) = fallback_choice p s results failures in
           bindP (ofR (tool_failure_payload p recovery s (hd failures))) (\<lambda>payload.
           let counted = payload @ (if 1 < length failures then [(''failure_count'', PInt (int (length failures)))] else []) @
                 (if length failures < length results
                  then [(''success_count'', PInt (int (length results - length failures))),
                        (''result_count'', PInt (int (length results)))] else []);
               s1 = s\<lparr>es_pending_tool_failure := Some counted\<rparr> in
           bindP (put_state s1) (\<lambda>_. bindP (fallback_tool_failure p s1 reason fallback) (\<lambda>d. ret (Some d)))))
     | None \<Rightarrow>
         let feedback = join_texts ''; '' (map (\<lambda>r. case tr_error r of None \<Rightarrow> ''tool failed'' | Some e \<Rightarrow> te_message e) failures);
             s1 = s\<lparr>es_active_tool_calls := []\<rparr> in
         bindP (put_state s1) (\<lambda>_.
         if \<not> pp_revise_on_tool_failure p
         then bindP (sync env (failed_state (s1\<lparr>es_validation_error := Some ''tool execution failed''\<rparr>))) (\<lambda>_. ret None)
         else if pp_max_replans p \<le> es_replan_count s1
         then bindP (sync env (failed_state (s1\<lparr>es_validation_error := Some feedback\<rparr>))) (\<lambda>_. ret None)
         else bindP (apply_replan p s1 feedback) (\<lambda>_. ret None)))"

subsection \<open>Finalization\<close>

definition policy_begin_finalization :: "'w plan_policy \<Rightarrow> ('w run_context, execution_state) prog" where
  "policy_begin_finalization p = bindP (run_state (pp_env p)) (\<lambda>s. case begin_finalization s of
     (Inl e, s') \<Rightarrow> bindP (put_state s') (\<lambda>_. raise e)
   | (Inr _, s') \<Rightarrow> bindP (sync (pp_env p) s') (\<lambda>_. ret s'))"

definition policy_record_final_response :: "'w plan_policy \<Rightarrow> string \<Rightarrow> bool \<Rightarrow> bool \<Rightarrow>
    ('w run_context, execution_state) prog" where
  "policy_record_final_response p response persisted emitted = bindP (run_state (pp_env p)) (\<lambda>s.
     case record_final_response response persisted emitted s of
       (Inl e, s') \<Rightarrow> bindP (put_state s') (\<lambda>_. raise e)
     | (Inr _, s') \<Rightarrow> bindP (sync (pp_env p) s') (\<lambda>_. ret s'))"

definition should_stop :: "'w run_context \<Rightarrow> bool" where
  "should_stop r \<longleftrightarrow> (case cx_execution_state r of None \<Rightarrow> False | Some s \<Rightarrow> es_phase s \<in> {P_DONE, P_FAILED})"

end
