(* ===== verification/Plan_Engine.thy ===== *)
theory Plan_Engine
  imports Plan_Policy
begin

text \<open>
  The plan engine (\<^verbatim>\<open>PlanExecutionEngine\<close> of \<^verbatim>\<open>moduagent/execution/planning/engine.py\<close>): the loop that drives the
  policy, the model, the Tools and the finalization of one plan run, with its checkpoints.  The services
  it calls are fields of a record; every call of a service is noted in the list of actions of the run, which
  the program does not have and which only the theorems read.  A time limit is looked at before an
  operation of the policy starts, not inside it.
\<close>

subsection \<open>Services\<close>

datatype durable_boundary = DB_INITIALIZED | DB_BEFORE_MODEL | DB_TOOL_INVOCATION_PENDING | DB_AFTER_TOOL_OUTCOME
  | DB_REPAIR_SCHEDULED | DB_REPLAN_COMPLETED | DB_STEP_RESULT_PENDING | DB_STEP_COMMITTED | DB_FINALIZATION_STARTED
  | DB_FINALIZATION_RESPONSE | DB_FINALIZATION_PERSISTED | DB_FINALIZATION_EMITTED | DB_INTERRUPTED

record execution_budget =
  xb_max_steps :: int
  xb_max_tool_calls :: int
  xb_max_step_attempts :: int
  xb_max_replans :: int
  xb_max_tool_repair_attempts :: int
  xb_parallel_tool_calls :: bool
  xb_max_parallel_tools :: int
  xb_max_model_turns :: int
  xb_no_progress_threshold :: int

definition ExecutionBudget :: "execution_budget \<Rightarrow> execution_budget res" where
  "ExecutionBudget b = bindR (all_ok
     ([require (1 \<le> n) (ValueError ''limit must be at least 1'').
         n \<leftarrow> [xb_max_steps b, xb_max_step_attempts b, xb_max_parallel_tools b, xb_max_model_turns b]] @
      [require (2 \<le> xb_no_progress_threshold b) (ValueError ''no_progress_model_turn_threshold must be at least 2'')] @
      [require (0 \<le> n) (ValueError ''limit cannot be negative'').
         n \<leftarrow> [xb_max_tool_calls b, xb_max_replans b, xb_max_tool_repair_attempts b]])) (\<lambda>_. Inr b)"

record engine_outcome =
  eo_reason :: finish_reason
  eo_output :: pyval
  eo_error :: "string option"
  eo_metadata :: "(string, pyval) dict"

record engine_request =
  rq_messages :: "pyval list"
  rq_tools :: "string list"
  rq_output_schema :: pyval
  rq_options :: "(string, pyval) dict"

record finalization_result =
  fz_output :: pyval
  fz_content :: string
  fz_buffered_deltas :: "string list"
  fz_persisted :: bool

record engine_snapshot =
  sn_engine_id :: string
  sn_state_version :: int
  sn_state :: pyval

definition EngineSnapshot :: "engine_snapshot \<Rightarrow> engine_snapshot res" where
  "EngineSnapshot n = bindR (all_ok
     [require (strip (sn_engine_id n) \<noteq> []) (ValueError ''engine_id cannot be empty''),
      require (1 \<le> sn_state_version n) (ValueError ''state_version must be at least 1''),
      require (case sn_state n of PDict _ \<Rightarrow> True | _ \<Rightarrow> False) (TypeError ''state must be a mapping'')]) (\<lambda>_. Inr n)"

text \<open>\<^verbatim>\<open>validate_resume\<close>: the reason why a snapshot cannot be resumed, or \<^term>\<open>None\<close>.\<close>

definition validate_resume :: "codec_env \<Rightarrow> engine_snapshot \<Rightarrow> (string, pyval) dict \<Rightarrow> string option" where
  "validate_resume env n resolved =
     (if sn_engine_id n \<noteq> ''plan'' then Some ''checkpoint engine does not match''
      else if dget_or resolved ''engine_id'' PNone \<notin> {PNone, PStr ''plan''}
      then Some ''resolved Agent configuration selects a different Engine''
      else case bindR (if sn_state_version n = 1 then Inr (sn_state n) else migrate env (sn_state_version n) (sn_state n)) (decode env) of
        Inl e \<Rightarrow> Some (''Engine state cannot be resumed: '' @ exn_class e)
      | Inr _ \<Rightarrow> None)"

definition FinalizationResult :: "finalization_result \<Rightarrow> finalization_result res" where
  "FinalizationResult f = bindR (require (strip (fz_content f) \<noteq> []) (ValueError ''finalization content cannot be empty''))
     (\<lambda>_. Inr f)"

record 'w engine_services =
  xs_budget :: execution_budget
  xs_remaining :: "'w \<Rightarrow> rat"
  xs_tool_schemas :: "string list option \<Rightarrow> 'w \<Rightarrow> (string \<times> bool) list"
  xs_output_schema :: pyval
  xs_decode_output :: "string \<Rightarrow> 'w \<Rightarrow> pyval res"
  xs_prepare :: "engine_request \<Rightarrow> string \<Rightarrow> 'w \<Rightarrow> engine_request res \<times> 'w"
  xs_request_model :: "engine_request \<Rightarrow> string \<Rightarrow> 'w \<Rightarrow> model_response res \<times> 'w"
  xs_stream_model :: "engine_request \<Rightarrow> string \<Rightarrow> 'w \<Rightarrow> model_response option list res \<times> 'w"
  xs_execute_batch :: "tool_call list \<Rightarrow> string list \<Rightarrow> repair_constraint option \<Rightarrow> 'w \<Rightarrow> tool_batch_outcome res \<times> 'w"
  xs_record_result :: "tool_call \<Rightarrow> tool_result \<Rightarrow> 'w \<Rightarrow> unit res \<times> 'w"
  xs_finalize :: "engine_request \<Rightarrow> 'w \<Rightarrow> finalization_result res \<times> 'w"
  xs_persist :: "finalization_result \<Rightarrow> 'w \<Rightarrow> finalization_result res \<times> 'w"
  xs_emit :: "finalization_result \<Rightarrow> 'w \<Rightarrow> unit res \<times> 'w"
  xs_checkpointing :: bool
  xs_checkpoint :: "engine_snapshot \<Rightarrow> durable_boundary \<Rightarrow> 'w \<Rightarrow> unit res \<times> 'w"
  xs_publish :: "string \<Rightarrow> (string, pyval) dict \<Rightarrow> 'w \<Rightarrow> unit res \<times> 'w"
  xs_defer :: "string \<Rightarrow> (string, pyval) dict \<Rightarrow> 'w \<Rightarrow> unit res \<times> 'w"

text \<open>The engine, its policy and recovery controller, and the constant inputs of the run.\<close>

record 'w engine_setup =
  su_policy :: "'w plan_policy"
  su_services :: "'w engine_services"
  su_recovery :: recovery_config
  su_projector :: failure_projector
  su_instructions :: string
  su_objective :: pyval
  su_step_result_schema :: pyval
  su_model_options :: "(string, pyval) dict"
  su_stream :: bool
  su_json :: "pyval \<Rightarrow> string"
  su_result_content :: "tool_result \<Rightarrow> string"
  su_error_text :: "exn \<Rightarrow> string option"

datatype engine_action =
    EA_checkpoint durable_boundary plan_engine_state
  | EA_event string
  | EA_prepare string
  | EA_model string
  | EA_tools "string list"
  | EA_record string
  | EA_finalize
  | EA_persist string
  | EA_emit string

record 'w engine_run =
  er_context :: "'w run_context"
  er_state :: plan_engine_state
  er_step :: int
  er_tool_calls :: int
  er_resume_safety :: "string option"
  er_actions :: "engine_action list"

abbreviation env_of :: "'w engine_setup \<Rightarrow> codec_env" where
  "env_of su \<equiv> pp_env (su_policy su)"

abbreviation ref_of :: "'w engine_setup \<Rightarrow> step_result \<Rightarrow> string" where
  "ref_of su \<equiv> step_result_ref (ce_digest (env_of su))"

subsection \<open>Steps of the engine\<close>

definition timeout_error :: exn where
  "timeout_error = OtherException ''TimeoutError''"

definition in_context :: "('w run_context, 'a) prog \<Rightarrow> ('w engine_run, 'a) prog" where
  "in_context m = (\<lambda>r. case m (er_context r) of (x, c) \<Rightarrow> (x, r\<lparr>er_context := c\<rparr>))"

definition serve :: "engine_action \<Rightarrow> ('w \<Rightarrow> 'a res \<times> 'w) \<Rightarrow> ('w engine_run, 'a) prog" where
  "serve a f = (\<lambda>r. case f (cx_world (er_context r)) of (x, w) \<Rightarrow>
     (x, r\<lparr>er_context := (er_context r)\<lparr>cx_world := w\<rparr>, er_actions := er_actions r @ [a]\<rparr>))"

definition wait_for :: "'w engine_setup \<Rightarrow> ('w engine_run, 'a) prog \<Rightarrow> ('w engine_run, 'a) prog" where
  "wait_for su m = (\<lambda>r. if xs_remaining (su_services su) (cx_world (er_context r)) \<le> 0 then (Inl timeout_error, r) else m r)"

definition put_engine :: "plan_engine_state \<Rightarrow> ('w engine_run, unit) prog" where
  "put_engine s = modifyP (\<lambda>r. r\<lparr>er_state := s\<rparr>)"

definition snapshot_of :: "codec_env \<Rightarrow> plan_engine_state \<Rightarrow> engine_snapshot" where
  "snapshot_of env s = \<lparr>sn_engine_id = ''plan'', sn_state_version = 1, sn_state = encode env s\<rparr>"

definition checkpoint :: "'w engine_setup \<Rightarrow> durable_boundary \<Rightarrow> ('w engine_run, unit) prog" where
  "checkpoint su b = bindP (readP er_state) (\<lambda>s.
     if xs_checkpointing (su_services su)
     then bindP (ofR (EngineSnapshot (snapshot_of (env_of su) s))) (\<lambda>snapshot.
       serve (EA_checkpoint b s) (xs_checkpoint (su_services su) snapshot b))
     else ret ())"

definition publish :: "'w engine_setup \<Rightarrow> string \<Rightarrow> (string, pyval) dict \<Rightarrow> ('w engine_run, unit) prog" where
  "publish su kind data = serve (EA_event kind) (xs_publish (su_services su) kind data)"

definition add_message :: "pyval \<Rightarrow> ('w engine_run, unit) prog" where
  "add_message m = modifyP (\<lambda>r. r\<lparr>er_context := (er_context r)\<lparr>cx_internal_messages :=
     cx_internal_messages (er_context r) @ [m]\<rparr>\<rparr>)"

definition sync_legacy :: "'w engine_setup \<Rightarrow> ('w engine_run, execution_state) prog" where
  "sync_legacy su = bindP (readP er_state) (\<lambda>s. bindP (ofR (to_legacy (ref_of su) s)) (\<lambda>legacy.
     bindP (in_context (sync (env_of su) legacy)) (\<lambda>_. ret legacy)))"

text \<open>The finish reason and the terminal error of the current state stay.\<close>

definition pull_state :: "'w engine_setup \<Rightarrow> ('w engine_run, plan_engine_state) prog" where
  "pull_state su = (\<lambda>r. case cx_execution_state (er_context r) of
     None \<Rightarrow> (Inl (RuntimeError ''Plan policy lost its ExecutionState''), r)
   | Some legacy \<Rightarrow> (case from_legacy (ce_text_of (env_of su)) (ce_int_of (env_of su)) legacy of
       Inl e \<Rightarrow> (Inl e, r)
     | Inr updated \<Rightarrow>
         let s = (er_state r)\<lparr>pe_phase := pe_phase updated, pe_plan_progress := pe_plan_progress updated,
           pe_step_execution := pe_step_execution updated, pe_tool_recovery := pe_tool_recovery updated,
           pe_finalization := pe_finalization updated\<rparr> in
         (Inr s, r\<lparr>er_state := s\<rparr>)))"

definition replace_from_legacy :: "'w engine_setup \<Rightarrow> execution_state \<Rightarrow> ('w engine_run, plan_engine_state) prog" where
  "replace_from_legacy su legacy = bindP (in_context (sync (env_of su) legacy)) (\<lambda>_. pull_state su)"

definition failure_message :: "codec_env \<Rightarrow> plan_engine_state \<Rightarrow> string" where
  "failure_message env s =
     (let found = (case rs_terminal_failure (pe_tool_recovery s) of None \<Rightarrow> []
        | Some d \<Rightarrow> List.map_filter (\<lambda>k. case dget d k of None \<Rightarrow> None
            | Some v \<Rightarrow> if falsy v then None else Some (ce_text_of env v))
            [''feedback'', ''terminal_reason'', ''message'', ''reason'']) in
      case found of
        t # _ \<Rightarrow> t
      | [] \<Rightarrow> (case se_validation_feedback (pe_step_execution s) of
          Some (c # cs) \<Rightarrow> c # cs | _ \<Rightarrow> ''strict Plan-and-Execute execution failed''))"

definition validation_failure :: "(string, pyval) dict \<Rightarrow> plan_engine_state \<Rightarrow> plan_step \<Rightarrow> (string, pyval) dict option" where
  "validation_failure metadata s step = (case (dget metadata ''validation_code'', dget metadata ''validation_location'') of
     (Some (PStr code1), Some (PStr location)) \<Rightarrow>
       if code1 \<in> set step_validation_codes \<and> location \<in> set step_validation_locations
       then Some ([(''code'', PStr code1), (''location'', PStr location), (''phase'', PStr (engine_phase_value (pe_phase s))),
           (''step_id'', PStr (ps_step_id step)), (''attempt'', PInt (max 1 (se_step_attempt_count (pe_step_execution s))))] @
         (case dget metadata ''validation_cause_code'' of
            Some (PStr cause) \<Rightarrow> if cause \<in> set step_validation_codes \<and> cause \<noteq> code1 then [(''cause_code'', PStr cause)] else []
          | _ \<Rightarrow> []))
       else None
   | _ \<Rightarrow> None)"

text \<open>The terminal outcome; a run that did not complete keeps its reason in the state.\<close>

definition outcome :: "codec_env \<Rightarrow> finish_reason \<Rightarrow> pyval \<Rightarrow> string option \<Rightarrow> (string, pyval) dict option \<Rightarrow>
    ('w engine_run, engine_outcome option) prog" where
  "outcome env reason out error failure = (\<lambda>r.
     let s = er_state r; s' = (if reason = FR_COMPLETED then s else s\<lparr>pe_finish_reason := Some reason, pe_terminal_error := error\<rparr>);
         usage = [(''phase'', PStr (engine_phase_value (pe_phase s))),
           (''committed_steps'', PInt (int (length (pg_committed_results (pe_plan_progress s))))),
           (''replans'', PInt (pg_replan_count (pe_plan_progress s))),
           (''finalization_calls'', PInt (pf_invocation_count (pe_finalization s)))] @
           (if rs_total_repairs (pe_tool_recovery s) \<noteq> 0
            then [(''tool_repairs'', PInt (rs_total_repairs (pe_tool_recovery s)))] else []) in
     (Inr (Some \<lparr>eo_reason = reason, eo_output = out, eo_error = error,
        eo_metadata = [(''plan'', plan_to_dict (pg_plan (pe_plan_progress s))), (''plan_usage'', PDict usage)] @
          (case rs_terminal_failure (pe_tool_recovery s) of None \<Rightarrow> [] | Some d \<Rightarrow> [(''failure'', PDict d)]) @
          (case failure of None \<Rightarrow> [] | Some d \<Rightarrow> [(''validation_failure'', PDict d)])\<rparr>),
      r\<lparr>er_state := s'\<rparr>))"

subsection \<open>Requests\<close>

definition step_tool_schemas :: "'w engine_setup \<Rightarrow> plan_step \<Rightarrow> 'w engine_run \<Rightarrow> (string \<times> bool) list" where
  "step_tool_schemas su step r = (if ps_allowed_tools step = [] then []
     else xs_tool_schemas (su_services su) (Some (ps_allowed_tools step)) (cx_world (er_context r)))"

definition model_options :: "'w engine_setup \<Rightarrow> bool \<Rightarrow> (string, pyval) dict" where
  "model_options su has_tools = filter (\<lambda>(k, v). k \<noteq> ''tools'' \<and>
     (has_tools \<or> k \<notin> {''tool_choice'', ''parallel_tool_calls''})) (su_model_options su)"

definition message :: "string \<Rightarrow> string \<Rightarrow> pyval" where
  "message role content = PDict [(''role'', PStr role), (''content'', PStr content)]"

definition step_messages :: "'w engine_setup \<Rightarrow> bool \<Rightarrow> plan_step \<Rightarrow> 'w engine_run \<Rightarrow> pyval list" where
  "step_messages su extracting step r =
     (let s = er_state r; results = pg_committed_results (pe_plan_progress s);
          dependencies = List.map_filter (\<lambda>d. map_option (\<lambda>x. (d, ce_dump (env_of su) x)) (dget results d))
            (ps_dependencies step);
          pending = rs_pending_failure (pe_tool_recovery s) in
      [message ''system'' (su_instructions su),
       message ''system'' (''Execute exactly one current plan step. Do not write the public final '' @
         ''answer, perform another step, or claim unsupported facts.''),
       message ''user'' (su_json su (PDict [(''current_step'', plan_step_to_dict step),
         (''dependency_results'', PDict dependencies)]))] @
      cx_internal_messages (er_context r) @
      [if extracting
       then message ''user'' (''Return only the current StepResult JSON. Keep step_id unchanged and '' @
         ''provide completion evidence for every completion criterion.'' @
         (case se_validation_feedback (pe_step_execution s) of
            Some (c # cs) \<Rightarrow> [CHR 0x0A] @ ''Validation feedback: '' @ (c # cs) | _ \<Rightarrow> []))
       else (case pending of
         Some failure \<Rightarrow> message ''user'' (''Call exactly the same Tool once with corrected arguments '' @
           ''and a new call ID. Do not repeat identical arguments, '' @
           ''select another Tool, or claim completion.'' @ [CHR 0x0A] @
           su_json su (PDict (List.map_filter (\<lambda>k. map_option (\<lambda>v. (k, v)) (dget failure k))
             [''tool_name'', ''type'', ''error_type'', ''reason'', ''feedback'', ''message''])))
       | None \<Rightarrow> message ''user'' (''Use an allowed Tool if needed. Stop after collecting '' @
           ''enough evidence; the runtime requests StepResult separately.''))])"

definition finalization_payload :: "'w engine_setup \<Rightarrow> execution_state \<Rightarrow> pyval" where
  "finalization_payload su s = PDict [(''objective'', su_objective su),
     (''committed_results'', PDict (map (\<lambda>(k, x). (k, ce_dump (env_of su) x)) (es_committed_results s)))]"

definition last_some :: "'a option list \<Rightarrow> 'a option" where
  "last_some xs = foldl (\<lambda>acc x. if x = None then acc else x) None xs"

definition model_turn :: "'w engine_setup \<Rightarrow> engine_request \<Rightarrow> string \<Rightarrow> ('w engine_run, model_response) prog" where
  "model_turn su request phase =
     (if su_stream su
      then bindP (serve (EA_model phase) (xs_stream_model (su_services su) request phase)) (\<lambda>chunks.
        case last_some chunks of
          None \<Rightarrow> raise (RuntimeError ''Plan model invocation ended without a response'')
        | Some response \<Rightarrow> ret response)
      else serve (EA_model phase) (xs_request_model (su_services su) request phase))"

definition call_to_value :: "tool_call \<Rightarrow> pyval" where
  "call_to_value c = PDict [(''id'', PStr (tk_id c)), (''name'', PStr (tk_name c)), (''arguments'', PDict (tk_arguments c))]"

definition assistant_message :: "model_response \<Rightarrow> pyval" where
  "assistant_message response = PDict [(''role'', PStr ''assistant''), (''content'', text_value (mr_content response)),
     (''tool_calls'', PList (map call_to_value (mr_tool_calls response)))]"

definition tool_message :: "tool_call \<Rightarrow> string \<Rightarrow> pyval" where
  "tool_message call content = PDict [(''role'', PStr ''tool''), (''content'', PStr content),
     (''call_id'', PStr (tk_id call)), (''name'', PStr (tk_name call))]"

subsection \<open>Configuration and initialization\<close>

definition configure_policy :: "'w engine_setup \<Rightarrow> 'w \<Rightarrow> 'w engine_setup res" where
  "configure_policy su w =
     (let b = xs_budget (su_services su) in
      bindR (configure_available_tools (map fst (xs_tool_schemas (su_services su) None w)) (su_policy su)) (\<lambda>p1.
      bindR (configure_limits (xb_max_step_attempts b) (xb_max_replans b) None p1) (\<lambda>p2.
      bindR (configure_tool_repair_limits (xb_max_tool_repair_attempts b) p2) (\<lambda>p3.
      Inr (su\<lparr>su_policy := p3\<rparr>)))))"

definition legacy_recovery_controller :: "'w plan_policy \<Rightarrow> recovery_config" where
  "legacy_recovery_controller p = (case pp_recovery p of
     None \<Rightarrow> \<lparr>rg_fallback = (if pp_revise_on_tool_failure p then FB_replan else FB_fail),
       rg_allow_same_step_repair = False, rg_require_repair_safe = True, rg_safe_message = False\<rparr>
   | Some recovery \<Rightarrow> \<lparr>rg_fallback = fr_fallback recovery, rg_allow_same_step_repair = True,
       rg_require_repair_safe = fr_require_repair_safe recovery, rg_safe_message = fr_safe_message recovery\<rparr>)"

definition configured :: "'w engine_setup \<Rightarrow> ('w engine_setup \<Rightarrow> ('w engine_run, 'a) prog) \<Rightarrow> ('w engine_run, 'a) prog" where
  "configured su m = (\<lambda>r. case configure_policy su (cx_world (er_context r)) of
     Inl e \<Rightarrow> (Inl e, r) | Inr su' \<Rightarrow> m su' r)"

text \<open>\<^verbatim>\<open>initialize\<close>: the policy makes or loads the state, and the first checkpoint is written.\<close>

definition engine_initialize :: "'w engine_setup \<Rightarrow> ('w engine_run, unit) prog" where
  "engine_initialize su0 = configured su0 (\<lambda>su.
     bindP (wait_for su (in_context (begin_run (su_policy su)))) (\<lambda>_.
     bindP (readP (\<lambda>r. cx_execution_state (er_context r))) (\<lambda>legacy. case legacy of
       None \<Rightarrow> raise (RuntimeError ''Plan policy did not initialize an ExecutionState'')
     | Some legacy \<Rightarrow> bindP (ofR (from_legacy (ce_text_of (env_of su)) (ce_int_of (env_of su)) legacy)) (\<lambda>s.
         bindP (put_engine s) (\<lambda>_.
         bindP (serve (EA_event ''plan_created'') (xs_defer (su_services su) ''plan_created''
           [(''step_count'', PInt (int (length (pl_steps (pg_plan (pe_plan_progress s)))))),
            (''plan_version'', PInt (pl_version (pg_plan (pe_plan_progress s))))])) (\<lambda>_.
         checkpoint su DB_INITIALIZED))))))"

definition verify_plan :: "plan_engine_state \<Rightarrow> unit res" where
  "verify_plan s =
     (let p = pg_plan (pe_plan_progress s);
          missing = filter (\<lambda>st. ps_status st = COMPLETED \<and>
            ps_step_id st \<notin> fst ` set (pg_committed_results (pe_plan_progress s))) (pl_steps p) in
      all_ok [require (plan_complete p) (RuntimeError ''Plan verification found incomplete steps''),
        require (missing = []) (RuntimeError ''Plan verification found completed steps without results'')])"

subsection \<open>Tool batches\<close>

definition dict_of :: "('k \<times> 'v) list \<Rightarrow> ('k, 'v) dict" where
  "dict_of xs = fold (\<lambda>(k, v). dset k v) xs []"

text \<open>\<^verbatim>\<open>_policy_result_projection\<close>: neither values, nor arguments, nor raw failures reach the policy.\<close>

definition project_result :: "(string, safe_failure_view) dict \<Rightarrow> (string, internal_tool_failure) dict \<Rightarrow> tool_result \<Rightarrow>
    tool_result res" where
  "project_result views failures result =
     (if tr_success result
      then succeeded (tr_call_id result) (tr_tool_name result) PNone (tr_attempts result)
        (tr_duration_seconds result) None (tr_repair_safe result)
      else
        bindR (case dget views (tr_call_id result) of
            None \<Rightarrow> bindR (ToolError EXECUTION_ERROR ''Tool execution failed'' False [] (Some ''execution_error'') None)
              (\<lambda>e. Inr (e, False))
          | Some view \<Rightarrow> bindR (ToolError (sv_error_type view)
                (case sv_message view of Some (c # cs) \<Rightarrow> c # cs | _ \<Rightarrow> ''Tool execution failed'')
                (sv_retryable view) [] (Some (sv_view_reason view)) (sv_recovery view))
              (\<lambda>e. Inr (e, case dget failures (tr_call_id result) of None \<Rightarrow> False
                | Some f \<Rightarrow> sf_changed_argument_repair_safe (if_safety_profile f)))) (\<lambda>(e, repair_safe).
        failed (tr_call_id result) (tr_tool_name result) e (tr_attempts result) (tr_duration_seconds result) None
          repair_safe))"

definition policy_result_projection :: "tool_batch_outcome \<Rightarrow> tool_result list res" where
  "policy_result_projection out =
     mapR (project_result (dict_of (map (\<lambda>v. (sv_call_id v, v)) (ob_views out)))
       (dict_of (map (\<lambda>f. (if_call_id f, f)) (ob_failures out)))) (ob_results out)"

text \<open>What the next turn of the model sees of a Tool result.\<close>

definition result_message :: "'w engine_setup \<Rightarrow> (string, safe_failure_view) dict \<Rightarrow> tool_call \<times> tool_result \<Rightarrow> pyval" where
  "result_message su views = (\<lambda>(call, result). tool_message call
     (if tr_success result then su_result_content su result
      else su_json su (PDict [(''success'', PBool False), (''error'', PDict (case dget views (tr_call_id result) of
          None \<Rightarrow> [(''type'', PStr ''execution_error''), (''retryable'', PBool False)]
        | Some view \<Rightarrow> filter (\<lambda>(k, v). k \<in> {''type'', ''reason'', ''recovery'', ''retryable'', ''message''})
            (view_to_dict view)))])))"

text \<open>The calls of a batch that did not run become failed results in the messages of the step.\<close>

fun reject_calls :: "'w engine_setup \<Rightarrow> bool \<Rightarrow> tool_error_type \<Rightarrow> string \<Rightarrow> tool_call list \<Rightarrow> ('w engine_run, unit) prog" where
  "reject_calls su recorded kind text1 [] = ret ()"
| "reject_calls su recorded kind text1 (call # calls) =
     bindP (ofR (bindR (ToolError kind text1 False [] None None) (\<lambda>e.
       failed (tk_id call) (tk_name call) e 0 0 None False))) (\<lambda>rejected.
     bindP (if recorded then serve (EA_record (tk_id call)) (xs_record_result (su_services su) call rejected) else ret ()) (\<lambda>_.
     bindP (add_message (tool_message call (su_result_content su rejected))) (\<lambda>_.
     reject_calls su recorded kind text1 calls)))"

text \<open>
  \<^verbatim>\<open>_reconcile_recovery\<close>: the controller decides; a policy that went another way fails the run.
\<close>

definition recovery_decision_of :: "recovery_decision \<Rightarrow> execution_decision option" where
  "recovery_decision_of d =
     (let failure = PDict (case rd_failure d of None \<Rightarrow> [] | Some view \<Rightarrow> view_to_dict view);
          made = (\<lambda>kind error metadata. Some \<lparr>dn_kind = kind, dn_tool_calls = [], dn_error_message = error,
            dn_metadata = (''reason'', PStr (rd_reason d)) # metadata\<rparr>) in
      case rd_kind d of
        K_CONTINUE \<Rightarrow> None
      | K_REPAIR \<Rightarrow> made DK_RETRY_TOOL None [(''repair_attempt'', PInt (rd_repair_attempt d)),
          (''count_attempt'', PBool False), (''tool_failure'', failure)]
      | K_REPLAN \<Rightarrow> made DK_REPLAN None []
      | K_FAIL \<Rightarrow> made DK_FAIL (Some ''Tool execution failed'') [(''tool_failure'', failure)])"

definition compatible :: "recovery_decision \<Rightarrow> execution_decision option \<Rightarrow> engine_phase \<Rightarrow> bool" where
  "compatible d observed phase \<longleftrightarrow> (case rd_kind d of
     K_CONTINUE \<Rightarrow> observed = None \<and> phase = E_STEP_RESULT
   | K_REPAIR \<Rightarrow> map_option dn_kind observed = Some DK_RETRY_TOOL \<and> phase = E_TOOL_RECOVERY
   | K_REPLAN \<Rightarrow> phase = E_STEP_PREPARE \<and> map_option dn_kind observed \<in> {None, Some DK_REPLAN}
   | K_FAIL \<Rightarrow> phase = E_FAILED \<and> map_option dn_kind observed \<in> {None, Some DK_FAIL})"

definition reconcile_recovery :: "'w engine_setup \<Rightarrow> recovery_state \<Rightarrow> recovery_decision \<Rightarrow> execution_decision option \<Rightarrow>
    ('w engine_run, execution_decision option) prog" where
  "reconcile_recovery su recovery d observed = bindP (readP er_state) (\<lambda>s.
     if compatible d observed (pe_phase s)
     then if rd_kind d = K_REPLAN then ret (recovery_decision_of d)
       else bindP (put_engine (s\<lparr>pe_tool_recovery := recovery, pe_step_execution :=
           (if rd_kind d = K_CONTINUE then pe_step_execution s
            else (pe_step_execution s)\<lparr>se_validation_feedback := Some (rd_reason d)\<rparr>)\<rparr>)) (\<lambda>_.
         bindP (sync_legacy su) (\<lambda>_. ret (recovery_decision_of d)))
     else bindP (ofR (to_legacy (ref_of su) s)) (\<lambda>legacy.
       let error = ''Tool recovery transition did not match the Engine decision'';
           failure0 = [(''terminal_reason'', PStr error), (''reason'', PStr (rd_reason d))];
           failure = (case rd_failure d of None \<Rightarrow> failure0
             | Some view \<Rightarrow> fold (\<lambda>(k, v). dset k v) (view_to_dict view) failure0) in
       bindP (replace_from_legacy su (failed_state (legacy\<lparr>es_validation_error := Some error, es_failure := Some failure\<rparr>))) (\<lambda>_.
       ret (Some \<lparr>dn_kind = DK_FAIL, dn_tool_calls = [], dn_error_message = Some ''Tool recovery invariant failed'',
         dn_metadata = [(''reason'', PStr error), (''tool_failure'', PDict failure)]\<rparr>))))"

definition fail_engine :: "'w engine_setup \<Rightarrow> execution_state \<Rightarrow> string \<Rightarrow> finish_reason \<Rightarrow>
    ('w engine_run, engine_outcome option) prog" where
  "fail_engine su legacy error reason =
     bindP (replace_from_legacy su (failed_state (legacy\<lparr>es_validation_error := Some error\<rparr>))) (\<lambda>_.
     outcome (env_of su) reason PNone (Some error) None)"

text \<open>\<^verbatim>\<open>except Exception\<close> around a batch: the step fails and the checkpoint says so before the run ends.\<close>

definition batch_failed :: "'w engine_setup \<Rightarrow> tool_call list \<Rightarrow> exn \<Rightarrow> ('w engine_run, engine_outcome option) prog" where
  "batch_failed su calls e =
     (let error = (if e = timeout_error then ''tool execution timed out''
            else case su_error_text su e of Some t \<Rightarrow> t | None \<Rightarrow> ''tool execution failed'') in
      bindP (reject_calls su False (if e = timeout_error then TIMEOUT else EXECUTION_ERROR) error calls) (\<lambda>_.
      bindP (readP er_state) (\<lambda>s. bindP (ofR (to_legacy (ref_of su) s)) (\<lambda>legacy.
      bindP (replace_from_legacy su (failed_state (legacy\<lparr>es_validation_error := Some error,
        es_failure := Some [(''terminal_reason'', PStr error), (''reason'', PStr error)]\<rparr>))) (\<lambda>_.
      bindP (checkpoint su DB_AFTER_TOOL_OUTCOME) (\<lambda>_.
      if e = timeout_error then raise e
      else outcome (env_of su) FR_ERROR PNone (Some error) None))))))"

definition text_item :: "(string, pyval) dict \<Rightarrow> string \<Rightarrow> pyval" where
  "text_item d k = dget_or d k PNone"

fun decision_kind_value :: "decision_kind \<Rightarrow> string" where
  "decision_kind_value DK_CONTINUE = ''continue''"
| "decision_kind_value DK_CALL_TOOLS = ''call_tools''"
| "decision_kind_value DK_RETRY_TOOL = ''retry_tool''"
| "decision_kind_value DK_COMMIT_STEP = ''commit_step''"
| "decision_kind_value DK_RETRY_STEP = ''retry_step''"
| "decision_kind_value DK_REPLAN = ''replan''"
| "decision_kind_value DK_FINALIZE = ''finalize''"
| "decision_kind_value DK_FINISH = ''finish''"
| "decision_kind_value DK_FAIL = ''fail''"

definition decision_event :: "execution_decision \<Rightarrow> (string, pyval) dict" where
  "decision_event d = [(''kind'', PStr (decision_kind_value (dn_kind d))), (''metadata'', PDict (dn_metadata d))]"

definition failure_items :: "(string, pyval) dict option \<Rightarrow> (string, pyval) dict" where
  "failure_items failure = (case failure of None \<Rightarrow> []
     | Some d \<Rightarrow> [(''validation_code'', text_item d ''code''), (''validation_location'', text_item d ''location'')] @
         (case dget d ''cause_code'' of None \<Rightarrow> [] | Some c \<Rightarrow> [(''validation_cause_code'', c)]))"

definition revised_event :: "plan_engine_state \<Rightarrow> execution_decision \<Rightarrow> (string, pyval) dict" where
  "revised_event s d = [(''plan_version'', PInt (pl_version (pg_plan (pe_plan_progress s)))),
     (''replan_count'', PInt (pg_replan_count (pe_plan_progress s))), (''reason'', text_item (dn_metadata d) ''reason'')]"

text \<open>The failure of a scheduled repair is a dictionary in the decisions of the engine.\<close>

definition repair_event :: "'w engine_setup \<Rightarrow> plan_step \<Rightarrow> execution_decision \<Rightarrow> (string, pyval) dict" where
  "repair_event su step d =
     (let failure = (case dget (dn_metadata d) ''tool_failure'' of Some (PDict f) \<Rightarrow> f | _ \<Rightarrow> []) in
      [(''step_id'', PStr (ps_step_id step)), (''tool_name'', text_item failure ''tool_name''),
       (''failed_call_id'', text_item failure ''call_id''), (''error_type'', text_item failure ''error_type''),
       (''reason'', text_item failure ''reason''), (''repair_attempt'', text_item (dn_metadata d) ''repair_attempt''),
       (''max_attempts'', PInt (xb_max_tool_repair_attempts (xs_budget (su_services su))))])"

text \<open>After a batch, once policy and controller are reconciled: \<^term>\<open>None\<close> goes on with the loop.\<close>

definition after_tools :: "'w engine_setup \<Rightarrow> plan_step \<Rightarrow> execution_decision option \<Rightarrow>
    ('w engine_run, engine_outcome option) prog" where
  "after_tools su step observed = bindP (readP er_state) (\<lambda>s.
     bindP (case observed of None \<Rightarrow> ret ()
       | Some d \<Rightarrow> publish su ''policy_decision'' (decision_event d @ [(''source'', PStr ''tool_results'')])) (\<lambda>_.
     if map_option dn_kind observed = Some DK_RETRY_TOOL
     then bindP (publish su ''tool_repair_scheduled'' (repair_event su step (the observed))) (\<lambda>_.
       bindP (checkpoint su DB_REPAIR_SCHEDULED) (\<lambda>_. ret None))
     else if map_option dn_kind observed = Some DK_REPLAN
     then bindP (publish su ''plan_revised'' (revised_event s (the observed))) (\<lambda>_.
       bindP (in_context clear_internal) (\<lambda>_. bindP (checkpoint su DB_REPLAN_COMPLETED) (\<lambda>_. ret None)))
     else if map_option dn_kind observed = Some DK_FAIL \<or> pe_phase s = E_FAILED
     then let failure = (case observed of None \<Rightarrow> None | Some d \<Rightarrow> validation_failure (dn_metadata d) s step) in
       bindP (publish su ''step_failed'' ([(''step_id'', PStr (ps_step_id step)),
         (''reason'', case observed of None \<Rightarrow> PNone | Some d \<Rightarrow> text_item (dn_metadata d) ''reason'')] @
         failure_items failure)) (\<lambda>_.
       outcome (env_of su) FR_ERROR PNone
         (case observed of None \<Rightarrow> Some (failure_message (env_of su) s) | Some d \<Rightarrow> dn_error_message d) failure)
     else bindP (checkpoint su DB_AFTER_TOOL_OUTCOME) (\<lambda>_. ret None)))"

text \<open>
  A batch that has an outcome.  The checkpoint in between holds the recovery state of the controller; the
  state in memory gets it only when the policy agrees.
\<close>

definition batch_observed :: "'w engine_setup \<Rightarrow> plan_step \<Rightarrow> tool_batch_outcome \<Rightarrow>
    ('w engine_run, engine_outcome option) prog" where
  "batch_observed su step out = bindP (readP er_state) (\<lambda>s.
     bindP (ofR (ToolRecoveryState (ce_text_of (env_of su)) (ce_int_of (env_of su)) (pe_tool_recovery s))) (\<lambda>copied.
     case decide (su_projector su) (su_recovery su) out (ps_step_id step)
         (xb_max_tool_repair_attempts (xs_budget (su_services su))) copied of
       (Inl e, _) \<Rightarrow> raise e
     | (Inr d, recovery) \<Rightarrow>
         bindP (modifyP (\<lambda>r. r\<lparr>er_context := (er_context r)\<lparr>cx_internal_messages := cx_internal_messages (er_context r) @
             map (result_message su (dict_of (map (\<lambda>v. (sv_call_id v, v)) (ob_views out)))) (zip (ob_calls out) (ob_results out))\<rparr>,
           er_resume_safety := Some (if success_count out \<noteq> 0 then ''manual_required'' else ''resumable''),
           er_state := s\<lparr>pe_tool_recovery := recovery\<rparr>\<rparr>)) (\<lambda>_.
         bindP (finallyP (checkpoint su DB_AFTER_TOOL_OUTCOME) (\<lambda>r. r\<lparr>er_state := (er_state r)\<lparr>pe_tool_recovery := pe_tool_recovery s\<rparr>\<rparr>)) (\<lambda>_.
         bindP (sync_legacy su) (\<lambda>_.
         bindP (ofR (policy_result_projection out)) (\<lambda>results.
         bindP (wait_for su (in_context (policy_observe (su_policy su) results))) (\<lambda>observed.
         bindP (pull_state su) (\<lambda>_.
         bindP (reconcile_recovery su recovery d observed) (\<lambda>settled. after_tools su step settled)))))))))"

definition execute_tools :: "'w engine_setup \<Rightarrow> tool_call list \<Rightarrow> repair_constraint option \<Rightarrow>
    ('w engine_run, engine_outcome option) prog" where
  "execute_tools su calls constraint = bindP (readP er_state) (\<lambda>s. case engine_current_step s of
     None \<Rightarrow> raise (RuntimeError ''Tool execution has no current Plan step'')
   | Some step \<Rightarrow> bindP (readP (step_tool_schemas su step)) (\<lambda>schemas.
       let exempt = map fst (filter (\<lambda>(n, counts). \<not> counts) schemas);
           counted = int (length (filter (\<lambda>c. tk_name c \<notin> set exempt) calls)) in
       bindP (readP er_tool_calls) (\<lambda>used.
       if xb_max_tool_calls (xs_budget (su_services su)) < used + counted
       then bindP (ofR (to_legacy (ref_of su) s)) (\<lambda>legacy.
         bindP (reject_calls su True EXECUTION_ERROR ''tool call limit exceeded'' calls) (\<lambda>_.
         fail_engine su legacy ''tool call limit exceeded'' FR_MAX_TOOL_CALLS))
       else bindP (modifyP (\<lambda>r. r\<lparr>er_tool_calls := used + counted\<rparr>)) (\<lambda>_. \<lambda>r.
         (case serve (EA_tools (map tk_id calls)) (xs_execute_batch (su_services su) calls (ps_allowed_tools step) constraint) r of
            (Inl e, r') \<Rightarrow> if is_exception e then batch_failed su calls e r' else (Inl e, r')
          | (Inr out, r') \<Rightarrow> batch_observed su step out r')))))"

subsection \<open>Finalization\<close>

text \<open>
  \<^verbatim>\<open>_finalize\<close> has three durable milestones: the response is recorded, the response is persisted, the response is
  marked emitted; the emission itself comes after its mark.  A run resumed in between starts at the milestone
  it had reached.
\<close>

definition set_milestone :: "'w engine_setup \<Rightarrow> string \<Rightarrow> bool \<Rightarrow> bool \<Rightarrow> durable_boundary \<Rightarrow> ('w engine_run, unit) prog" where
  "set_milestone su content persisted emitted b =
     bindP (sync_legacy su) (\<lambda>_.
     bindP (in_context (policy_record_final_response (su_policy su) content persisted emitted)) (\<lambda>_.
     bindP (pull_state su) (\<lambda>_. checkpoint su b)))"

definition produce_response :: "'w engine_setup \<Rightarrow> ('w engine_run, finalization_result) prog" where
  "produce_response su =
     bindP (checkpoint su DB_FINALIZATION_STARTED) (\<lambda>_.
     bindP (sync_legacy su) (\<lambda>legacy.
     bindP (serve (EA_prepare ''finalize'') (xs_prepare (su_services su)
       \<lparr>rq_messages = [message ''system'' (su_instructions su),
          message ''system'' (''Create the one public final response from the original objective and '' @
            ''committed step results. Do not call tools, add new facts, or expose '' @
            ''internal execution logs.''),
          message ''user'' (su_json su (finalization_payload su legacy))],
        rq_tools = [], rq_output_schema = xs_output_schema (su_services su),
        rq_options = model_options su False\<rparr> ''finalize'')) (\<lambda>request.
     bindP (serve EA_finalize (xs_finalize (su_services su) request)) (\<lambda>finalized.
     bindP (set_milestone su (fz_content finalized) False False DB_FINALIZATION_RESPONSE) (\<lambda>_.
     ret finalized)))))"

text \<open>A response that an earlier session recorded is decoded again; its deltas were sent then or never are.\<close>

definition recorded_response :: "'w engine_setup \<Rightarrow> string \<Rightarrow> ('w engine_run, finalization_result) prog" where
  "recorded_response su content = bindP (readP id) (\<lambda>r.
     bindP (ofR (xs_decode_output (su_services su) content (cx_world (er_context r)))) (\<lambda>out.
     ofR (FinalizationResult \<lparr>fz_output = out, fz_content = content, fz_buffered_deltas = [],
       fz_persisted = pf_persisted (pe_finalization (er_state r))\<rparr>)))"

definition persist_response :: "'w engine_setup \<Rightarrow> string \<Rightarrow> finalization_result \<Rightarrow> ('w engine_run, finalization_result) prog" where
  "persist_response su content finalized = bindP (readP er_state) (\<lambda>s.
     if pf_persisted (pe_finalization s) then ret finalized
     else bindP (serve (EA_persist content) (xs_persist (su_services su) finalized)) (\<lambda>answer.
       if fz_content answer \<noteq> content \<or> \<not> fz_persisted answer
       then raise (RuntimeError ''finalization persistence did not confirm the response'')
       else bindP (set_milestone su content True False DB_FINALIZATION_PERSISTED) (\<lambda>_. ret answer)))"

text \<open>The mark comes first: a crash in between loses the emission and never repeats it.\<close>

definition emit_response :: "'w engine_setup \<Rightarrow> string \<Rightarrow> string list \<Rightarrow> finalization_result \<Rightarrow> ('w engine_run, unit) prog" where
  "emit_response su content deltas finalized = bindP (readP (\<lambda>r. pf_emitted (pe_finalization (er_state r)))) (\<lambda>emitted.
     if emitted then ret ()
     else bindP (set_milestone su content True True DB_FINALIZATION_EMITTED) (\<lambda>_.
       bindP (ofR (FinalizationResult (finalized\<lparr>fz_buffered_deltas := deltas, fz_persisted := True\<rparr>))) (\<lambda>replaced.
       serve (EA_emit (fz_content replaced)) (xs_emit (su_services su) replaced))))"

definition complete_finalization :: "'w engine_setup \<Rightarrow> string list \<Rightarrow> finalization_result \<Rightarrow>
    ('w engine_run, engine_outcome option) prog" where
  "complete_finalization su deltas first = bindP (readP (\<lambda>r. pf_response (pe_finalization (er_state r)))) (\<lambda>stable. case stable of
     None \<Rightarrow> raise (RuntimeError ''finalization did not record a stable response'')
   | Some content \<Rightarrow>
       bindP (persist_response su content first) (\<lambda>finalized.
       bindP (emit_response su content deltas finalized) (\<lambda>_.
       outcome (env_of su) FR_COMPLETED (fz_output finalized) None None)))"

definition finalize_run :: "'w engine_setup \<Rightarrow> ('w engine_run, engine_outcome option) prog" where
  "finalize_run su = bindP (readP (\<lambda>r. pf_response (pe_finalization (er_state r)))) (\<lambda>recorded. case recorded of
     None \<Rightarrow> bindP (produce_response su) (\<lambda>first. complete_finalization su (fz_buffered_deltas first) first)
   | Some content \<Rightarrow> bindP (recorded_response su content) (complete_finalization su []))"

subsection \<open>The loop\<close>

definition or_else :: "string option \<Rightarrow> string \<Rightarrow> string" where
  "or_else t d = (case t of Some (c # cs) \<Rightarrow> c # cs | _ \<Rightarrow> d)"

definition prepare_turn :: "'w engine_setup \<Rightarrow> ('w engine_run, engine_outcome option) prog" where
  "prepare_turn su = bindP (readP er_state) (\<lambda>s. case plan_current (pg_plan (pe_plan_progress s)) of
     None \<Rightarrow> bindP (put_engine (s\<lparr>pe_phase := E_VERIFY\<rparr>)) (\<lambda>_. bindP (sync_legacy su) (\<lambda>_. ret None))
   | Some step \<Rightarrow> bindP (readP (step_tool_schemas su step)) (\<lambda>schemas.
       bindP (sync_legacy su) (\<lambda>_.
       bindP (in_context (prepare_step (su_policy su) (schemas \<noteq> []))) (\<lambda>prepared.
       bindP (pull_state su) (\<lambda>s'. case prepared of
         None \<Rightarrow> ret None
       | Some st \<Rightarrow> bindP (in_context clear_internal) (\<lambda>_.
           bindP (publish su ''step_started'' [(''step_id'', PStr (ps_step_id st)), (''objective'', PStr (ps_objective st)),
             (''attempt'', PInt (ps_attempt_count st)),
             (''plan_version'', PInt (pl_version (pg_plan (pe_plan_progress s'))))]) (\<lambda>_.
           bindP (checkpoint su DB_BEFORE_MODEL) (\<lambda>_. ret None))))))))"

definition begin_finalization_turn :: "'w engine_setup \<Rightarrow> ('w engine_run, engine_outcome option) prog" where
  "begin_finalization_turn su = bindP (sync_legacy su) (\<lambda>_.
     bindP (in_context (policy_begin_finalization (su_policy su))) (\<lambda>_. bindP (pull_state su) (\<lambda>_. ret None)))"

text \<open>One call of the model, and what the policy makes of the response.\<close>

definition decide_turn :: "'w engine_setup \<Rightarrow> plan_step \<Rightarrow> ('w engine_run, repair_constraint option \<times> execution_decision) prog" where
  "decide_turn su step = bindP (readP id) (\<lambda>r.
     let s = er_state r; extracting = (pe_phase s = E_STEP_RESULT); schemas = step_tool_schemas su step r;
         phase = (if extracting then ''step_result'' else ''act'') in
     bindP (if rs_pending_failure (pe_tool_recovery s) = None then ret None
       else ofR (constraint_for_pending (pe_tool_recovery s))) (\<lambda>constraint.
     bindP (serve (EA_prepare phase) (xs_prepare (su_services su)
       \<lparr>rq_messages = step_messages su extracting step r, rq_tools = (if extracting then [] else map fst schemas),
        rq_output_schema = (if extracting then su_step_result_schema su else PNone),
        rq_options = model_options su (\<not> extracting \<and> schemas \<noteq> [])\<rparr> phase)) (\<lambda>request.
     bindP (modifyP (\<lambda>r. r\<lparr>er_step := er_step r + 1\<rparr>)) (\<lambda>_.
     bindP (checkpoint su DB_BEFORE_MODEL) (\<lambda>_.
     bindP (model_turn su request phase) (\<lambda>response.
     bindP (add_message (assistant_message response)) (\<lambda>_.
     bindP (sync_legacy su) (\<lambda>_.
     bindP (wait_for su (in_context (policy_decide (su_policy su) response))) (\<lambda>d.
     bindP (pull_state su) (\<lambda>_. ret (constraint, d)))))))))))"

definition validate_turn :: "'w engine_setup \<Rightarrow> ('w engine_run, repair_constraint option \<times> execution_decision) prog" where
  "validate_turn su = bindP (sync_legacy su) (\<lambda>_.
     bindP (wait_for su (in_context (validate_pending (su_policy su)))) (\<lambda>d.
     bindP (pull_state su) (\<lambda>_. ret (None, d))))"

fun result_status_value :: "step_result_status \<Rightarrow> string" where
  "result_status_value SR_completed = ''completed''"
| "result_status_value SR_blocked = ''blocked''"
| "result_status_value SR_failed = ''failed''"

definition commit_turn :: "'w engine_setup \<Rightarrow> plan_step \<Rightarrow> ('w engine_run, engine_outcome option) prog" where
  "commit_turn su step = bindP (readP er_state) (\<lambda>s. let i = ps_step_id step; progress = pe_plan_progress s in
     case dget (pg_committed_results progress) i of
       None \<Rightarrow> raise (RuntimeError ''committed Plan step has no StepResult'')
     | Some result \<Rightarrow> (case find_step (pg_plan progress) i of
         None \<Rightarrow> raise (RuntimeError ''async generator raised StopIteration'')
       | Some done_step \<Rightarrow>
           bindP (publish su ''step_result_created'' [(''step_id'', PStr i), (''status'', PStr (result_status_value (sr_status result)))]) (\<lambda>_.
           bindP (publish su ''step_validated'' [(''step_id'', PStr i), (''decision'', PStr ''commit'')]) (\<lambda>_.
           bindP (publish su ''step_committed'' [(''step_id'', PStr i), (''result_ref'', text_value (ps_result_ref done_step)),
             (''plan_version'', PInt (pl_version (pg_plan progress)))]) (\<lambda>_.
           bindP (in_context clear_internal) (\<lambda>_.
           bindP (modifyP (\<lambda>r. r\<lparr>er_resume_safety := Some ''resumable''\<rparr>)) (\<lambda>_.
           bindP (checkpoint su DB_STEP_COMMITTED) (\<lambda>_. ret None))))))))"

definition act_on_decision :: "'w engine_setup \<Rightarrow> plan_step \<Rightarrow> repair_constraint option \<Rightarrow> execution_decision \<Rightarrow>
    ('w engine_run, engine_outcome option) prog" where
  "act_on_decision su step constraint d = bindP (readP er_state) (\<lambda>s.
     let failure = validation_failure (dn_metadata d) s step;
         attempts = PInt (se_step_attempt_count (pe_step_execution s)) in
     case dn_kind d of
       DK_CALL_TOOLS \<Rightarrow> bindP (execute_tools su (dn_tool_calls d) constraint) (\<lambda>out.
         if out = None then bindP (pull_state su) (\<lambda>_. ret None) else ret out)
     | DK_RETRY_STEP \<Rightarrow>
         bindP (publish su ''step_retry'' ([(''step_id'', PStr (ps_step_id step)), (''attempt'', attempts),
           (''reason'', text_item (dn_metadata d) ''reason''),
           (''count_attempt'', dget_or (dn_metadata d) ''count_attempt'' (PBool True))] @ failure_items failure)) (\<lambda>_.
         bindP (checkpoint su DB_STEP_RESULT_PENDING) (\<lambda>_. ret None))
     | DK_REPLAN \<Rightarrow> bindP (publish su ''plan_revised'' (revised_event s d)) (\<lambda>_.
         bindP (in_context clear_internal) (\<lambda>_. bindP (checkpoint su DB_REPLAN_COMPLETED) (\<lambda>_. ret None)))
     | DK_COMMIT_STEP \<Rightarrow> commit_turn su step
     | DK_FINALIZE \<Rightarrow> begin_finalization_turn su
     | DK_FAIL \<Rightarrow>
         bindP (publish su ''step_failed'' ([(''step_id'', PStr (ps_step_id step)), (''attempt'', attempts),
           (''reason'', text_item (dn_metadata d) ''reason'')] @ failure_items failure)) (\<lambda>_.
         outcome (env_of su) FR_ERROR PNone
           (Some (or_else (dn_error_message d) (failure_message (env_of su) s))) failure)
     | _ \<Rightarrow> raise (RuntimeError ''unsupported strict decision''))"

text \<open>One pass of the loop of \<^verbatim>\<open>execute\<close>; \<^term>\<open>None\<close> means another pass.\<close>

definition engine_turn :: "'w engine_setup \<Rightarrow> ('w engine_run, engine_outcome option) prog" where
  "engine_turn su = bindP (readP id) (\<lambda>r.
     let s = er_state r; budget = xs_budget (su_services su) in
     if xs_remaining (su_services su) (cx_world (er_context r)) \<le> 0 then raise timeout_error
     else if xb_max_steps budget < int (length (pl_steps (pg_plan (pe_plan_progress s))))
     then bindP (ofR (to_legacy (ref_of su) s)) (\<lambda>legacy.
       fail_engine su legacy (''plan exceeds RunLimits.max_steps ('' @ ce_text_of (env_of su) (PInt (xb_max_steps budget)) @ '')'')
         FR_MAX_STEPS)
     else case pe_phase s of
       E_DONE \<Rightarrow> (case pf_response (pe_finalization s) of
           None \<Rightarrow> raise (RuntimeError ''DONE Plan state has no final response'')
         | Some content \<Rightarrow> bindP (ofR (xs_decode_output (su_services su) content (cx_world (er_context r)))) (\<lambda>out.
             outcome (env_of su) FR_COMPLETED out None None))
     | E_FAILED \<Rightarrow> outcome (env_of su) (case pe_finish_reason s of None \<Rightarrow> FR_ERROR | Some reason \<Rightarrow> reason) PNone
         (Some (or_else (pe_terminal_error s) (failure_message (env_of su) s))) None
     | E_STEP_PREPARE \<Rightarrow> prepare_turn su
     | E_TOOL_RECOVERY \<Rightarrow> bindP (checkpoint su DB_REPAIR_SCHEDULED) (\<lambda>_.
         bindP (put_engine (s\<lparr>pe_phase := E_ACT_TOOL\<rparr>)) (\<lambda>_. ret None))
     | E_VERIFY \<Rightarrow> bindP (ofR (verify_plan s)) (\<lambda>_. begin_finalization_turn su)
     | E_FINALIZE \<Rightarrow> finalize_run su
     | phase \<Rightarrow> (case engine_current_step s of
         None \<Rightarrow> raise (RuntimeError ''phase has no current Plan step'')
       | Some step \<Rightarrow>
           bindP (if phase = E_STEP_VALIDATE then validate_turn su
             else if phase \<in> {E_ACT_TOOL, E_STEP_RESULT} then decide_turn su step
             else raise (RuntimeError ''unsupported Plan execution phase'')) (\<lambda>(constraint, d).
           bindP (publish su ''policy_decision'' (decision_event d)) (\<lambda>_. act_on_decision su step constraint d))))"

text \<open>The loop with fuel: \<^term>\<open>Inr None\<close> says that the fuel ran out.\<close>

primrec engine_loop :: "nat \<Rightarrow> 'w engine_setup \<Rightarrow> ('w engine_run, engine_outcome option) prog" where
  "engine_loop 0 su = ret None"
| "engine_loop (Suc n) su = bindP (engine_turn su) (\<lambda>out. if out = None then engine_loop n su else ret out)"

definition engine_execute :: "nat \<Rightarrow> 'w engine_setup \<Rightarrow> ('w engine_run, engine_outcome option) prog" where
  "engine_execute n su = configured su (engine_loop n)"

end
