(* ===== verification/Plan_State_Codec_Props.thy ===== *)
theory Plan_State_Codec_Props
  imports Plan_State_Codec
begin

text \<open>
  A checkpoint of the plan engine either fails to load or loads to a state in which everything its
  constructors check holds; a state survives the checkpoint unchanged; a migrated checkpoint loads.
\<close>

subsection \<open>Fields\<close>

lemma load_dump_dict:
  "(\<And>k v. (k, v) \<in> set d \<Longrightarrow> f (g v) = Inr v) \<Longrightarrow> load_dict f (map (\<lambda>(k, v). (k, g v)) d) = Inr d"
  unfolding load_dict_def by (rule mapR_map_id) auto

lemma load_dump_optional:
  "(\<And>y. x = Some y \<Longrightarrow> g y \<noteq> PNone \<and> f (g y) = Inr y) \<Longrightarrow> load_optional f (dump_optional g x) = Inr x"
  by (cases x) (auto simp: load_optional_def dump_optional_def)

lemma load_dump_call: "coercions_ok (ce_text_of env) (ce_int_of env) \<Longrightarrow> load_call env m (dump_call c) = Inr c"
  by (simp add: load_call_def dump_call_def mapping_value_def coercions_ok_def)

lemma load_dump_failure: "load_optional (mapping_value m) (dump_optional PDict x) = Inr x"
  by (rule load_dump_optional) (simp add: mapping_value_def)

lemma int_value_PInt: "coercions_ok text_of int_of \<Longrightarrow> int_value int_of (PInt n) = Inr n"
  by (simp add: int_value_def coercions_ok_def)

lemma falsy_PBool [simp]: "falsy (PBool b) \<longleftrightarrow> \<not> b"
  by (auto simp: falsy_def)

lemma optional_str_value:
  "coercions_ok text_of int_of \<Longrightarrow> dget d k = Some (text_value t) \<Longrightarrow> optional_str text_of d k = t"
  by (cases t) (auto simp: optional_str_def present_def text_value_def coercions_ok_def)

lemma engine_phase_known: "enum_value engine_phases (engine_phase_value p) = Inr p"
  by (cases p) (simp_all add: enum_value_def engine_phases_def)

lemma finish_reason_known: "enum_value finish_reasons (finish_reason_value r) = Inr r"
  by (cases r) (simp_all add: enum_value_def finish_reasons_def)

subsection \<open>Well-formed engine states\<close>

definition engine_ok :: "codec_env \<Rightarrow> plan_engine_state \<Rightarrow> bool" where
  "engine_ok env s \<longleftrightarrow>
     (let progress = pe_plan_progress s; p = pg_plan progress in
      Plan (pl_steps p) (int (pl_current_index p)) (pl_version p) = Inr p \<and>
      list_all (step_wf (ce_hash env)) (pl_steps p) \<and>
      results_ok (step_result_ref (ce_digest env)) p (pg_committed_results progress) \<and>
      PlanProgressState progress = Inr progress \<and>
      StepExecutionState (pe_step_execution s) = Inr (pe_step_execution s) \<and>
      ToolRecoveryState (ce_text_of env) (ce_int_of env) (pe_tool_recovery s) = Inr (pe_tool_recovery s) \<and>
      PlanFinalizationState (pe_finalization s) = Inr (pe_finalization s) \<and>
      PlanEngineState s = Inr s)"

text \<open>What the dump of a result by pydantic must keep, for the results of a state.\<close>

definition dumps_back :: "codec_env \<Rightarrow> plan_engine_state \<Rightarrow> bool" where
  "dumps_back env s \<longleftrightarrow> (\<forall>r \<in> snd ` set (pg_committed_results (pe_plan_progress s)) \<union>
       set_option (se_pending_step_result (pe_step_execution s)).
     ce_dump env r \<noteq> PNone \<and> ce_validate env (ce_dump env r) = Inr r)"

lemma integrity_iff:
  assumes "plan_wf (pg_plan progress)"
  shows "validate_committed_integrity (step_result_ref digest) progress = Inr () \<longleftrightarrow>
     results_ok (step_result_ref digest) (pg_plan progress) (pg_committed_results progress)"
proof -
  let ?p = "pg_plan progress" and ?ref = "step_result_ref digest"
  note dist = plan_wf_distinct [OF assms]
  have "map_option ps_result_ref (find_step ?p i) = Some (Some h) \<longleftrightarrow>
      (\<exists>st \<in> set (pl_steps ?p). ps_step_id st = i \<and> ps_result_ref st = Some h)" for i h
    unfolding find_step_case [where Q = "\<lambda>st. ps_result_ref st = Some h", OF dist, symmetric]
    by (auto split: option.split)
  then have hash: "(\<exists>z. find_step ?p i = Some z \<and> ps_result_ref z = Some h) \<longleftrightarrow>
      (\<exists>st \<in> set (pl_steps ?p). ps_step_id st = i \<and> ps_result_ref st = Some h)" for i h
    by (simp only: map_option_eq_Some)
  have same: "st = st'" if "st \<in> set (pl_steps ?p)" "st' \<in> set (pl_steps ?p)" "ps_step_id st = ps_step_id st'" for st st'
    using that dist by (auto simp: step_ids_def distinct_map dest: inj_onD)
  have one: "i = sr_step_id r \<and> (\<exists>st \<in> set (pl_steps ?p). ps_step_id st = i \<and> ps_status st = COMPLETED \<and>
        has_sha256_prefix (ps_result_ref st)) \<and>
      (\<exists>st \<in> set (pl_steps ?p). ps_step_id st = i \<and> ps_result_ref st = Some (?ref r)) \<longleftrightarrow>
    i = sr_step_id r \<and> (\<exists>st \<in> set (pl_steps ?p). ps_step_id st = i \<and> ps_status st = COMPLETED \<and>
        ps_result_ref st = Some (?ref r))" for i r
    using same by (metis sha256_ref)
  have "validate_committed_integrity ?ref progress = Inr () \<longleftrightarrow>
      (\<forall>x \<in> set (pg_committed_results progress). fst x = sr_step_id (snd x) \<and>
        (\<exists>st \<in> set (pl_steps ?p). ps_step_id st = fst x \<and> ps_status st = COMPLETED \<and> has_sha256_prefix (ps_result_ref st)) \<and>
        (\<exists>st \<in> set (pl_steps ?p). ps_step_id st = fst x \<and> ps_result_ref st = Some (?ref (snd x))))"
    by (simp add: validate_committed_integrity_def bindR_Inr_iff structure_iff [OF dist] split_beta hash) blast
  then show ?thesis unfolding one results_ok_def by (simp add: split_beta)
qed

lemma constructor_again:
  "PlanProgressState x = Inr y \<Longrightarrow> PlanProgressState y = Inr y"
  "StepExecutionState a = Inr b \<Longrightarrow> StepExecutionState b = Inr b"
  "PlanFinalizationState f = Inr g \<Longrightarrow> PlanFinalizationState g = Inr g"
  by (auto simp: PlanProgressState_def StepExecutionState_def PlanFinalizationState_def bindR_Inr_iff)

lemma progress_loaded:
  assumes "load_progress env d raw = Inr pg"
  shows "plan_wf (pg_plan pg) \<and> list_all (step_wf (ce_hash env)) (pl_steps (pg_plan pg)) \<and> PlanProgressState pg = Inr pg"
proof -
  obtain v p where p: "plan_from_dict (ce_hash env) (ce_text_of env) (ce_int_of env) v = Inr p"
      and pg: "pg_plan pg = p" "PlanProgressState pg = Inr pg"
    using assms by (auto simp: load_progress_def bindR_Inr_iff PlanProgressState_def)
  then show ?thesis using plan_loaded [OF p] by simp
qed

definition engine_checks :: "plan_engine_state \<Rightarrow> bool" where
  "engine_checks s \<longleftrightarrow> (case se_current_step_id (pe_step_execution s) of
       None \<Rightarrow> True
     | Some i \<Rightarrow> i \<in> set (step_ids (pl_steps (pg_plan (pe_plan_progress s)))) \<and>
         (\<forall>r. se_pending_step_result (pe_step_execution s) = Some r \<longrightarrow> sr_step_id r = i)) \<and>
     (pe_phase s = E_DONE \<longrightarrow> pf_emitted (pe_finalization s))"

lemma engine_state_iff:
  "PlanEngineState s0 = Inr s \<longleftrightarrow> engine_checks s0 \<and>
     s = s0\<lparr>pe_finish_reason := if pe_phase s0 = E_FAILED \<and> pe_finish_reason s0 = None then Some FR_ERROR
       else pe_finish_reason s0\<rparr>"
  unfolding PlanEngineState_def Let_def bindR_Inr_iff all_ok_Inr engine_checks_def
  by (cases "se_current_step_id (pe_step_execution s0)"; cases "se_pending_step_result (pe_step_execution s0)") auto

lemma engine_checks_reason [simp]: "engine_checks (s\<lparr>pe_finish_reason := r\<rparr>) = engine_checks s"
  by (simp add: engine_checks_def cong: option.case_cong)

lemma engine_state_again:
  assumes "PlanEngineState s0 = Inr s"
  shows "PlanEngineState s = Inr s" and "pe_plan_progress s = pe_plan_progress s0"
    and "pe_step_execution s = pe_step_execution s0" and "pe_tool_recovery s = pe_tool_recovery s0"
    and "pe_finalization s = pe_finalization s0"
  using assms by (simp_all add: engine_state_iff)

lemma decoded_ok:
  assumes laws: "coercions_ok (ce_text_of env) (ce_int_of env)" and run: "decode env payload = Inr s"
  shows "engine_ok env s"
proof -
  obtain d raw_results rec raw_active raw_counts raw_seen raw_step raw_final phase pg st rs pf reason err u where
      progress: "load_progress env d raw_results = Inr pg"
    and step: "load_step env raw_step = Inr st"
    and recovery: "load_recovery env rec raw_active raw_counts raw_seen = Inr rs"
    and final: "load_finalization env raw_final = Inr pf"
    and state: "PlanEngineState \<lparr>pe_phase = phase, pe_plan_progress = pg, pe_step_execution = st,
       pe_tool_recovery = rs, pe_finalization = pf, pe_finish_reason = reason, pe_terminal_error = err\<rparr> = Inr s"
    and integrity: "validate_committed_integrity (step_result_ref (ce_digest env)) (pe_plan_progress s) = Inr u"
    using run unfolding decode_def bindR_Inr_iff sum.inject by blast
  note parts = engine_state_again [OF state, unfolded plan_engine_state.select_convs]
  have "plan_wf (pg_plan (pe_plan_progress s))" "list_all (step_wf (ce_hash env)) (pl_steps (pg_plan (pe_plan_progress s)))"
      "PlanProgressState (pe_plan_progress s) = Inr (pe_plan_progress s)"
    using progress_loaded [OF progress] parts by simp_all
  moreover have "StepExecutionState (pe_step_execution s) = Inr (pe_step_execution s)"
    using step parts by (auto simp: load_step_def bindR_Inr_iff dest: constructor_again)
  moreover have "ToolRecoveryState (ce_text_of env) (ce_int_of env) (pe_tool_recovery s) = Inr (pe_tool_recovery s)"
    using recovery parts recovery_state_again [OF laws] by (auto simp: load_recovery_def bindR_Inr_iff)
  moreover have "PlanFinalizationState (pe_finalization s) = Inr (pe_finalization s)"
    using final parts by (auto simp: load_finalization_def bindR_Inr_iff dest: constructor_again)
  ultimately show ?thesis
    using parts integrity by (simp add: engine_ok_def Let_def integrity_iff plan_wf_reloads)
qed

text \<open>
  C14.  Whatever a checkpoint holds, decoding it fails or gives a state whose parts all pass their own
  constructors: the plan and its steps reload, every committed result belongs to a completed step
  with that result's hash, the current step exists, the counts are not negative, the failures are
  sanitized, and a run that is done has emitted its answer.
\<close>

theorem decoded_state_ok:
  assumes "coercions_ok (ce_text_of env) (ce_int_of env)" and "decode env payload = Inr s"
  shows "engine_ok env s"
  using assms by (rule decoded_ok)

subsection \<open>The round trip\<close>

lemma record_eta [simp]:
  "\<lparr>pg_plan = pg_plan pg, pg_committed_results = pg_committed_results pg, pg_replan_count = pg_replan_count pg\<rparr> = pg"
  "\<lparr>se_current_step_id = se_current_step_id st, se_pending_step_result = se_pending_step_result st,
     se_validation_feedback = se_validation_feedback st, se_step_attempt_count = se_step_attempt_count st\<rparr> = st"
  "\<lparr>rs_active_calls = rs_active_calls rs, rs_seen_call_ids = rs_seen_call_ids rs,
     rs_pending_failure = rs_pending_failure rs, rs_repair_count_by_step = rs_repair_count_by_step rs,
     rs_total_repairs = rs_total_repairs rs, rs_terminal_failure = rs_terminal_failure rs\<rparr> = rs"
  "\<lparr>pf_response = pf_response pf, pf_invocation_count = pf_invocation_count pf, pf_persisted = pf_persisted pf,
     pf_emitted = pf_emitted pf\<rparr> = pf"
  by simp_all

lemma progress_round_trip:
  assumes laws: "coercions_ok (ce_text_of env) (ce_int_of env)" and p: "plan_wf (pg_plan pg)"
    and steps: "list_all (step_wf (ce_hash env)) (pl_steps (pg_plan pg))" and pg: "PlanProgressState pg = Inr pg"
    and backs: "\<And>r. r \<in> snd ` set (pg_committed_results pg) \<Longrightarrow> ce_validate env (ce_dump env r) = Inr r"
  shows "load_progress env (dump_progress env pg) (map (\<lambda>(i, r). (i, ce_dump env r)) (pg_committed_results pg)) = Inr pg"
proof -
  have "load_dict (ce_validate env) (map (\<lambda>(i, r). (i, ce_dump env r)) (pg_committed_results pg)) =
      Inr (pg_committed_results pg)"
    by (rule load_dump_dict, rule backs) force
  moreover obtain raw where "plan_to_dict (pg_plan pg) = PDict raw" by (simp add: plan_to_dict_def)
  ultimately show ?thesis
    using pg plan_dict [OF laws p steps]
    by (simp add: load_progress_def dump_progress_def mapping_value_def int_value_PInt [OF laws])
qed

lemma step_round_trip:
  assumes laws: "coercions_ok (ce_text_of env) (ce_int_of env)" and st: "StepExecutionState st = Inr st"
    and backs: "\<And>r. se_pending_step_result st = Some r \<Longrightarrow> ce_dump env r \<noteq> PNone \<and> ce_validate env (ce_dump env r) = Inr r"
  shows "load_step env (dump_step env st) = Inr st"
proof -
  have "load_optional (ce_validate env) (dump_optional (ce_dump env) (se_pending_step_result st)) =
      Inr (se_pending_step_result st)"
    by (rule load_dump_optional, rule backs)
  moreover have "optional_str (ce_text_of env) (dump_step env st) ''current_step_id'' = se_current_step_id st"
      "optional_str (ce_text_of env) (dump_step env st) ''validation_feedback'' = se_validation_feedback st"
    by (rule optional_str_value [OF laws], simp add: dump_step_def)+
  moreover have "field (dump_step env st) ''pending_step_result'' = dump_optional (ce_dump env) (se_pending_step_result st)"
      "dget_or (dump_step env st) ''step_attempt_count'' (PInt 0) = PInt (se_step_attempt_count st)"
    by (simp_all add: dump_step_def)
  ultimately show ?thesis using st by (simp add: load_step_def int_value_PInt [OF laws])
qed

lemma recovery_round_trip:
  assumes laws: "coercions_ok (ce_text_of env) (ce_int_of env)"
    and rs: "ToolRecoveryState (ce_text_of env) (ce_int_of env) rs = Inr rs"
  shows "load_recovery env (dump_recovery rs) (map (\<lambda>(i, c). (i, dump_call c)) (rs_active_calls rs))
     (map (\<lambda>(i, n). (i, PInt n)) (rs_repair_count_by_step rs)) (map PStr (rs_seen_call_ids rs)) = Inr rs"
proof -
  have "load_dict (load_call env m) (map (\<lambda>(i, c). (i, dump_call c)) (rs_active_calls rs)) = Inr (rs_active_calls rs)" for m
    by (rule load_dump_dict) (rule load_dump_call [OF laws])
  moreover have "load_dict (int_value (ce_int_of env)) (map (\<lambda>(i, n). (i, PInt n)) (rs_repair_count_by_step rs)) =
      Inr (rs_repair_count_by_step rs)"
    by (rule load_dump_dict) (rule int_value_PInt [OF laws])
  moreover have "field (dump_recovery rs) ''pending_failure'' = dump_optional PDict (rs_pending_failure rs)"
      "field (dump_recovery rs) ''terminal_failure'' = dump_optional PDict (rs_terminal_failure rs)"
      "dget_or (dump_recovery rs) ''total_repairs'' (PInt 0) = PInt (rs_total_repairs rs)"
    by (simp_all add: dump_recovery_def)
  ultimately show ?thesis
    using rs
    by (simp add: load_recovery_def int_value_PInt [OF laws] load_dump_failure map_text_PStr [OF laws] del: map_map)
qed

lemma finalization_round_trip:
  assumes laws: "coercions_ok (ce_text_of env) (ce_int_of env)" and pf: "PlanFinalizationState pf = Inr pf"
  shows "load_finalization env (dump_finalization pf) = Inr pf"
proof -
  have "optional_str (ce_text_of env) (dump_finalization pf) ''response'' = pf_response pf"
    by (rule optional_str_value [OF laws], simp add: dump_finalization_def)
  moreover have "dget_or (dump_finalization pf) ''invocation_count'' (PInt 0) = PInt (pf_invocation_count pf)"
      "dget_or (dump_finalization pf) ''persisted'' (PBool False) = PBool (pf_persisted pf)"
      "dget_or (dump_finalization pf) ''emitted'' (PBool False) = PBool (pf_emitted pf)"
    by (simp_all add: dump_finalization_def)
  ultimately show ?thesis using pf by (simp add: load_finalization_def int_value_PInt [OF laws])
qed

lemma terminal_round_trip:
  assumes laws: "coercions_ok (ce_text_of env) (ce_int_of env)"
  shows "load_optional (\<lambda>v. enum_value finish_reasons (ce_text_of env v)) (field (dump_terminal s) ''finish_reason'') =
      Inr (pe_finish_reason s)"
    and "optional_str (ce_text_of env) (dump_terminal s) ''error'' = pe_terminal_error s"
proof -
  show "load_optional (\<lambda>v. enum_value finish_reasons (ce_text_of env v)) (field (dump_terminal s) ''finish_reason'') =
      Inr (pe_finish_reason s)"
    using laws by (cases "pe_finish_reason s")
      (simp_all add: dump_terminal_def load_optional_def text_value_def coercions_ok_def finish_reason_known)
  show "optional_str (ce_text_of env) (dump_terminal s) ''error'' = pe_terminal_error s"
    by (rule optional_str_value [OF laws], simp add: dump_terminal_def)
qed

lemma encode_fields:
  "encode env s = PDict d \<Longrightarrow> field d ''plan_progress'' = PDict (dump_progress env (pe_plan_progress s)) \<and>
     field d ''step_execution'' = PDict (dump_step env (pe_step_execution s)) \<and>
     field d ''tool_recovery'' = PDict (dump_recovery (pe_tool_recovery s)) \<and>
     field d ''finalization'' = PDict (dump_finalization (pe_finalization s)) \<and>
     dget_or d ''terminal'' (PDict []) = PDict (dump_terminal s) \<and>
     dget_or d ''phase'' (PStr []) = PStr (engine_phase_value (pe_phase s))"
  by (auto simp: encode_def)

lemma dump_fields:
  "dget_or (dump_progress env pg) ''committed_results'' (PDict []) =
     PDict (map (\<lambda>(i, r). (i, ce_dump env r)) (pg_committed_results pg))"
  "dget_or (dump_recovery rs) ''active_calls'' (PDict []) = PDict (map (\<lambda>(i, c). (i, dump_call c)) (rs_active_calls rs))"
  "dget_or (dump_recovery rs) ''repair_count_by_step'' (PDict []) =
     PDict (map (\<lambda>(i, n). (i, PInt n)) (rs_repair_count_by_step rs))"
  "dget_or (dump_recovery rs) ''seen_call_ids'' (PList []) = PList (map PStr (rs_seen_call_ids rs))"
  by (simp_all add: dump_progress_def dump_recovery_def dump_dict_def)

lemma encoded_state:
  assumes laws: "coercions_ok (ce_text_of env) (ce_int_of env)" and ok: "engine_ok env s" and backs: "dumps_back env s"
  shows "decode env (encode env s) = Inr s"
proof -
  note ok = ok [unfolded engine_ok_def Let_def, folded plan_wf_reloads]
  obtain d where d: "encode env s = PDict d" by (simp add: encode_def)
  note fields = encode_fields [OF d]
  have phase: "enum_value engine_phases (ce_text_of env (PStr (engine_phase_value (pe_phase s)))) = Inr (pe_phase s)"
    using laws by (simp add: coercions_ok_def engine_phase_known)
  have progress: "load_progress env (dump_progress env (pe_plan_progress s))
      (map (\<lambda>(i, r). (i, ce_dump env r)) (pg_committed_results (pe_plan_progress s))) = Inr (pe_plan_progress s)"
    using ok backs by (intro progress_round_trip [OF laws]) (auto simp: dumps_back_def)
  have step: "load_step env (dump_step env (pe_step_execution s)) = Inr (pe_step_execution s)"
    using ok backs by (intro step_round_trip [OF laws]) (auto simp: dumps_back_def)
  have state: "\<lparr>pe_phase = pe_phase s, pe_plan_progress = pe_plan_progress s, pe_step_execution = pe_step_execution s,
       pe_tool_recovery = pe_tool_recovery s, pe_finalization = pe_finalization s,
       pe_finish_reason = pe_finish_reason s, pe_terminal_error = pe_terminal_error s\<rparr> = s" by simp
  have integrity: "validate_committed_integrity (step_result_ref (ce_digest env)) (pe_plan_progress s) = Inr ()"
    using ok by (simp add: integrity_iff)
  have parts: "ToolRecoveryState (ce_text_of env) (ce_int_of env) (pe_tool_recovery s) = Inr (pe_tool_recovery s)"
      "PlanFinalizationState (pe_finalization s) = Inr (pe_finalization s)" "PlanEngineState s = Inr s"
    using ok by simp_all
  show ?thesis
    unfolding decode_def d pyval.case bindR_simps mapping_value_def array_value_def fields dump_fields
    by (simp only: pyval.case bindR_simps fields dump_fields phase progress step recovery_round_trip [OF laws parts(1)]
        finalization_round_trip [OF laws parts(2)] terminal_round_trip [OF laws] state parts(3) integrity)
qed

text \<open>
  C15.  A checkpoint loses nothing: a well-formed engine state, encoded and decoded, is the same state, as
  soon as pydantic reads backs the step results it has dumped.
\<close>

theorem state_codec_round_trip:
  assumes "coercions_ok (ce_text_of env) (ce_int_of env)" and "engine_ok env s" and "dumps_back env s"
  shows "decode env (encode env s) = Inr s"
  using assms by (rule encoded_state)

subsection \<open>Migration\<close>

lemma execution_again:
  assumes p: "plan_wf (es_plan s0)" and run: "ExecutionState ref s0 = Inr s"
  shows "accepted ref s" and "es_plan s = es_plan s0"
proof -
  note dist = plan_wf_distinct [OF p]
  let ?current = "case es_current_step_id s0 of None \<Rightarrow> map_option ps_step_id (plan_current (es_plan s0)) | Some i \<Rightarrow> Some i"
  have upd: "s = s0\<lparr>es_active_tool_calls := normalize_active (es_active_tool_calls s0),
      es_seen_tool_call_ids := map strip (es_seen_tool_call_ids s0), es_current_step_id := ?current\<rparr>"
    using run unfolding ExecutionState_def Let_def bindR_Inr_iff sum.inject by blast
  have checks: "0 \<le> es_replan_count s0 \<and> 0 \<le> es_finalization_count s0 \<and> 0 \<le> es_total_tool_repairs s0 \<and>
      list_all (\<lambda>(i, n). 0 \<le> n) (es_tool_repair_counts s0) \<and>
      hashed_field (es_pending_tool_failure s0) ''arguments_fingerprint'' \<and>
      hashed_field (es_pending_tool_failure s0) ''invocation_fingerprint'' \<and>
      (\<forall>x \<in> set (es_active_tool_calls s0). strip (fst x) \<noteq> [] \<and> strip (ac_tool_name (snd x)) \<noteq> [] \<and>
        is_tool_argument_fingerprint (strip (ac_fingerprint (snd x)))) \<and>
      [] \<notin> set (map strip (es_seen_tool_call_ids s0)) \<and> distinct (map strip (es_seen_tool_call_ids s0)) \<and>
      fst ` set (normalize_active (es_active_tool_calls s0)) \<subseteq> set (map strip (es_seen_tool_call_ids s0)) \<and>
      results_ok ref (es_plan s0) (es_committed_results s0) \<and>
      (case es_pending_step_result s0 of None \<Rightarrow> True | Some r \<Rightarrow> (case ?current of None \<Rightarrow> True | Some i \<Rightarrow> sr_step_id r = i)) \<and>
      (case ?current of None \<Rightarrow> True | Some i \<Rightarrow> i \<in> set (step_ids (pl_steps (es_plan s0)))) \<and> final_ok s0"
    using run unfolding ExecutionState_def Let_def bindR_Inr_iff all_ok_Inr
    by (simp add: ball_Un split_beta committed_ok_iff [OF dist] results_ok_def final_ok_def) (elim conjE, metis)
  have calls: "calls_ok s"
    using checks normalize_active_normal [of "es_active_tool_calls s0"]
    by (subst upd) (fastforce simp: calls_ok_def comp_def)
  have current: "current_ok s"
  proof (cases ?current)
    case None
    then have "plan_current (es_plan s0) = None" by (simp split: option.splits)
    then show ?thesis using None by (subst upd) (simp add: current_ok_def)
  next
    case (Some i)
    then show ?thesis using checks by (subst upd) (simp add: current_ok_def split: option.splits)
  qed
  have rest: "counts_ok s" "final_ok s" "es_plan s = es_plan s0" "es_committed_results s = es_committed_results s0"
    "es_pending_tool_failure s = es_pending_tool_failure s0"
    using checks by (simp_all add: upd counts_ok_def final_ok_def)
  show "accepted ref s" unfolding accepted_iff rest(3-5) using p calls current rest(1,2) checks by blast
  show "es_plan s = es_plan s0" by (rule rest(3))
qed

lemma from_legacy_ok:
  assumes laws: "coercions_ok (ce_text_of env) (ce_int_of env)"
    and acc: "accepted (step_result_ref (ce_digest env)) s" and steps: "list_all (step_wf (ce_hash env)) (pl_steps (es_plan s))"
    and run: "from_legacy (ce_text_of env) (ce_int_of env) s = Inr e"
  shows "engine_ok env e"
proof -
  obtain pg st raw rs pf phase reason err where
      pg: "PlanProgressState \<lparr>pg_plan = es_plan s, pg_committed_results = es_committed_results s,
        pg_replan_count = es_replan_count s\<rparr> = Inr pg"
    and st: "StepExecutionState st = Inr st" and rs: "ToolRecoveryState (ce_text_of env) (ce_int_of env) raw = Inr rs"
    and pf: "PlanFinalizationState pf = Inr pf"
    and state: "PlanEngineState \<lparr>pe_phase = phase, pe_plan_progress = pg, pe_step_execution = st,
       pe_tool_recovery = rs, pe_finalization = pf, pe_finish_reason = reason, pe_terminal_error = err\<rparr> = Inr e"
    using run constructor_again unfolding from_legacy_def bindR_Inr_iff by blast
  note parts = engine_state_again [OF state, unfolded plan_engine_state.select_convs]
  have "pg = \<lparr>pg_plan = es_plan s, pg_committed_results = es_committed_results s, pg_replan_count = es_replan_count s\<rparr>"
    using pg by (simp add: PlanProgressState_def bindR_Inr_iff)
  then show ?thesis
    using acc steps st pf pg parts recovery_state_again [OF laws rs]
    by (simp add: engine_ok_def Let_def accepted_iff plan_wf_reloads)
qed

lemma loaded_execution:
  assumes "execution_from_dict env v = Inr s"
  shows "accepted (step_result_ref (ce_digest env)) s \<and> list_all (step_wf (ce_hash env)) (pl_steps (es_plan s))"
proof -
  obtain raw s0 where raw: "plan_from_dict (ce_hash env) (ce_text_of env) (ce_int_of env) raw = Inr (es_plan s0)"
      and s: "ExecutionState (step_result_ref (ce_digest env)) s0 = Inr s"
    using assms unfolding execution_from_dict_def bindR_Inr_iff by (elim exE conjE) (metis execution_state.select_convs(2))
  show ?thesis using execution_again [OF plan_loaded(1) [OF raw] s] plan_loaded(2) [OF raw] by simp
qed

text \<open>
  C17.  A migrated checkpoint is one of a well-formed state: whatever an older or a current payload holds,
  migrating it fails or gives the encoding of a state whose parts pass their constructors, and which
  decodes to that state again when pydantic reads back the results it dumps.
\<close>

theorem migrated_state_loads:
  assumes laws: "coercions_ok (ce_text_of env) (ce_int_of env)" and run: "migrate env version payload = Inr out"
  shows "version \<in> {0, 1, 3} \<and> (\<exists>s. engine_ok env s \<and> out = encode env s \<and>
    (dumps_back env s \<longrightarrow> decode env out = Inr s))"
proof (cases "version = 1")
  case True
  then obtain s where "decode env payload = Inr s" "out = encode env s"
    using run by (auto simp: migrate_def bindR_Inr_iff)
  then show ?thesis using True encoded_state [OF laws] decoded_ok [OF laws] by blast
next
  case False
  then obtain legacy s where legacy: "execution_from_dict env payload = Inr legacy"
      "from_legacy (ce_text_of env) (ce_int_of env) legacy = Inr s" "out = encode env s" "version \<in> {0, 3}"
    using run by (auto simp: migrate_def bindR_Inr_iff split: if_splits)
  then have "engine_ok env s" using loaded_execution from_legacy_ok [OF laws] by blast
  then show ?thesis using legacy encoded_state [OF laws] by blast
qed

subsection \<open>A checkpoint\<close>

definition sample_env :: codec_env where
  "sample_env = \<lparr>ce_hash = (\<lambda>s. s),
     ce_text_of = case_pyval ''None'' (\<lambda>_. ''bool'') (\<lambda>_. ''int'') (\<lambda>_. ''float'') ''nan'' (\<lambda>s. s) (\<lambda>_. ''list'') (\<lambda>_. ''dict''),
     ce_int_of = case_pyval None (\<lambda>b. Some (of_bool b)) Some (\<lambda>_. None) None (\<lambda>_. None) (\<lambda>_. None) (\<lambda>_. None),
     ce_dump = (\<lambda>r. PDict [(''step_id'', PStr (sr_step_id r))]),
     ce_validate = (\<lambda>v. case v of PDict [(_, PStr i)] \<Rightarrow> Inr (sample_result i) | _ \<Rightarrow> Inl (ValueError ''StepResult'')),
     ce_digest = sr_step_id\<rparr>"

definition sample_engine :: plan_engine_state where
  "sample_engine = projr (from_legacy (ce_text_of sample_env) (ce_int_of sample_env) sample_half)"

lemma sample_laws: "coercions_ok (ce_text_of sample_env) (ce_int_of sample_env)"
  by (simp add: coercions_ok_def sample_env_def)

lemma sample_engine_ok: "engine_ok sample_env sample_engine"
  by code_simp

theorem state_codec_round_trip_witness:
  "decode sample_env (encode sample_env sample_engine) = Inr sample_engine \<and>
   pg_committed_results (pe_plan_progress sample_engine) = [(''a'', sample_result ''a'')]"
proof -
  have "dumps_back sample_env sample_engine" by code_simp
  moreover have "pg_committed_results (pe_plan_progress sample_engine) = [(''a'', sample_result ''a'')]" by code_simp
  ultimately show ?thesis using state_codec_round_trip [OF sample_laws sample_engine_ok] by simp
qed

theorem decoded_state_ok_witness:
  "\<exists>s. decode sample_env (encode sample_env sample_engine) = Inr s \<and> engine_ok sample_env s"
proof -
  have "\<not> isl (decode sample_env (encode sample_env sample_engine))" by code_simp
  then obtain s where "decode sample_env (encode sample_env sample_engine) = Inr s"
    by (cases "decode sample_env (encode sample_env sample_engine)") auto
  then show ?thesis using decoded_state_ok [OF sample_laws] by blast
qed

theorem migrated_state_loads_witness:
  "\<exists>out s. migrate sample_env 3 (execution_to_dict sample_env sample_half) = Inr out \<and>
     engine_ok sample_env s \<and> out = encode sample_env s"
proof -
  have "\<not> isl (migrate sample_env 3 (execution_to_dict sample_env sample_half))" by code_simp
  then obtain out where "migrate sample_env 3 (execution_to_dict sample_env sample_half) = Inr out"
    by (cases "migrate sample_env 3 (execution_to_dict sample_env sample_half)") auto
  then show ?thesis using migrated_state_loads [OF sample_laws] by blast
qed

end
