(* ===== verification/Plan_Policy_Props.thy ===== *)
theory Plan_Policy_Props
  imports Plan_Policy Plan_State_Codec_Props
begin

text \<open>
  The strict plan policy drives the execution state: every operation leaves a state that reloads, keeps
  what is committed, stays inside its limits of attempts, replans and repairs, and comes closer to the
  end of the run.
\<close>

subsection \<open>Postconditions\<close>

text \<open>
  \<open>leads s m Q\<close>: started in a context that holds the state \<open>s\<close>, the operation leaves a context that holds
  some state \<open>s'\<close>, and \<open>Q\<close> relates what it returns or raises to \<open>s'\<close>.
\<close>

definition leads :: "execution_state \<Rightarrow> ('w run_context, 'a) prog \<Rightarrow> ('a res \<Rightarrow> execution_state \<Rightarrow> bool) \<Rightarrow> bool" where
  "leads s m Q \<longleftrightarrow> (\<forall>r. cx_execution_state r = Some s \<longrightarrow>
     (\<exists>s'. cx_execution_state (snd (m r)) = Some s' \<and> Q (fst (m r)) s'))"

named_theorems leads_intros \<open>postconditions of the parts of a policy operation\<close>

lemma leads_ret [leads_intros]: "Q (Inr x) s \<Longrightarrow> leads s (ret x) Q"
  and leads_raise [leads_intros]: "Q (Inl e) s \<Longrightarrow> leads s (raise e) Q"
  by (simp_all add: leads_def ret_def raise_def)

lemma leads_bind:
  assumes "leads s m P" and "\<And>e s'. P (Inl e) s' \<Longrightarrow> Q (Inl e) s'" and "\<And>x s'. P (Inr x) s' \<Longrightarrow> leads s' (f x) Q"
  shows "leads s (bindP m f) Q"
  unfolding leads_def
proof (intro allI impI)
  fix r :: "'a run_context" assume r: "cx_execution_state r = Some s"
  obtain out r1 where m: "m r = (out, r1)" by fastforce
  then obtain s1 where s1: "cx_execution_state r1 = Some s1" "P out s1"
    using assms(1) r by (auto simp: leads_def)
  show "\<exists>s'. cx_execution_state (snd (bindP m f r)) = Some s' \<and> Q (fst (bindP m f r)) s'"
    using m s1 assms(2,3) by (cases out) (auto simp: bindP_run leads_def)
qed

lemma leads_weaken: "leads s m P \<Longrightarrow> (\<And>x s'. P x s' \<Longrightarrow> Q x s') \<Longrightarrow> leads s m Q"
  unfolding leads_def by blast

lemma leads_put [leads_intros]: "leads s1 m Q \<Longrightarrow> leads s (bindP (put_state s1) (\<lambda>_. m)) Q"
  by (auto simp: leads_def bindP_run put_state_def modifyP_def)

lemma leads_sync [leads_intros]: "leads s1 m Q \<Longrightarrow> leads s (bindP (sync env s1) (\<lambda>_. m)) Q"
  by (auto simp: leads_def bindP_run sync_def modifyP_def)

lemma leads_settle [leads_intros]:
  "Q (Inr (decision env s1 kind error extra)) s1 \<Longrightarrow> leads s (settle env s1 kind error extra) Q"
  unfolding settle_def by (intro leads_intros)

lemma leads_ofR [leads_intros]:
  "(\<And>e. x = Inl e \<Longrightarrow> Q (Inl e) s) \<Longrightarrow> (\<And>y. x = Inr y \<Longrightarrow> leads s (f y) Q) \<Longrightarrow> leads s (bindP (ofR x) f) Q"
  by (cases x) (auto simp: leads_def bindP_run ofR_def)

lemma leads_world [leads_intros]:
  "(\<And>x. leads s (f x) Q) \<Longrightarrow> leads s (bindP (in_world g) f) Q"
  by (auto simp: leads_def bindP_run in_world_def split: prod.split)

lemma leads_clear [leads_intros]: "leads s m Q \<Longrightarrow> leads s (bindP clear_internal (\<lambda>_. m)) Q"
  by (auto simp: leads_def bindP_run clear_internal_def modifyP_def ret_def)

lemma leads_capture [leads_intros]:
  "leads s m Q \<Longrightarrow> leads s (bindP (capture_policy_exception p e info) (\<lambda>_. m)) Q"
  unfolding capture_policy_exception_def bindP_assoc
  by (rule leads_world) (auto simp: leads_def bindP_run modifyP_def ret_def split: option.split)

lemma leads_state [leads_intros]: "leads s (f s) Q \<Longrightarrow> leads s (bindP (run_state env) f) Q"
  by (auto simp: leads_def bindP_run run_state_def)

subsection \<open>Good states\<close>

definition good :: "codec_env \<Rightarrow> execution_state \<Rightarrow> bool" where
  "good env s \<longleftrightarrow> accepted (step_result_ref (ce_digest env)) s \<and> list_all (step_wf (ce_hash env)) (pl_steps (es_plan s))"

text \<open>The documented behaviour of the code the policy calls.\<close>

definition prints_ok :: "'w plan_policy \<Rightarrow> bool" where
  "prints_ok p \<longleftrightarrow> (\<forall>a f. pp_fingerprint p a = Inr f \<longrightarrow> is_tool_argument_fingerprint f)"

definition policy_laws :: "'w plan_policy \<Rightarrow> bool" where
  "policy_laws p \<longleftrightarrow> coercions_ok (ce_text_of (pp_env p)) (ce_int_of (pp_env p)) \<and>
     prints_ok p \<and>
     (\<forall>w pl w'. pp_create p w = (Inr pl, w') \<longrightarrow> plan_wf pl \<and> list_all (step_wf (ce_hash (pp_env p))) (pl_steps pl))"

text \<open>What the later states of a run keep of an earlier one.\<close>

definition evolves :: "'w plan_policy \<Rightarrow> execution_state \<Rightarrow> execution_state \<Rightarrow> bool" where
  "evolves p s s' \<longleftrightarrow> (good (pp_env p) s \<longrightarrow> good (pp_env p) s' \<and>
     (\<forall>i r. dget (es_committed_results s) i = Some r \<longrightarrow> dget (es_committed_results s') i = Some r) \<and>
     set (es_seen_tool_call_ids s) \<subseteq> set (es_seen_tool_call_ids s') \<and>
     es_replan_count s \<le> es_replan_count s' \<and> es_replan_count s' \<le> max (es_replan_count s) (pp_max_replans p) \<and>
     (es_final_emitted s \<longrightarrow> es_final_emitted s'))"

lemma state_evolves_refl [simp]: "evolves p s s"
  by (simp add: evolves_def)

lemma state_evolves_trans: "evolves p s s1 \<Longrightarrow> evolves p s1 s2 \<Longrightarrow> evolves p s s2"
  unfolding evolves_def by (fastforce simp: max_def split: if_splits)

lemma good_frame [simp]:
  "good env (s\<lparr>es_validation_error := x_es_validation_error\<rparr>) = good env s"
  "good env (s\<lparr>es_failure := x_es_failure\<rparr>) = good env s"
  "good env (s\<lparr>es_awaiting_step_result := x_es_awaiting_step_result\<rparr>) = good env s"
  by (auto simp: good_def accepted_iff)

lemma good_weaken [intro]:
  "good env s \<Longrightarrow> good env (s\<lparr>es_pending_step_result := None\<rparr>)"
  "good env s \<Longrightarrow> good env (s\<lparr>es_active_tool_calls := []\<rparr>)"
  "good env s \<Longrightarrow> ph \<noteq> P_DONE \<Longrightarrow> good env (s\<lparr>es_phase := ph\<rparr>)"
  "good env s \<Longrightarrow> fingerprints_ok f \<Longrightarrow> good env (s\<lparr>es_pending_tool_failure := f\<rparr>)"
  by (auto simp: good_def accepted_iff current_ok_def calls_ok_def normalize_active_def final_ok_def
    fingerprints_ok_iff split: option.splits)

text \<open>Steps of the plan that are still open, and the steps of a plan being replaced one for one.\<close>

definition open_steps :: "plan \<Rightarrow> nat" where
  "open_steps p = length (filter (\<lambda>st. \<not> closed_step st) (pl_steps p))"

lemma filter_update:
  "k < length xs \<Longrightarrow> length (filter P (xs[k := y])) + of_bool (P (xs ! k)) = length (filter P xs) + of_bool (P y)"
proof (induction xs arbitrary: k)
  case (Cons x xs)
  then show ?case using Cons.IH [of "k - 1"] by (cases k) auto
qed simp

lemma set_current_open:
  "plan_current p = Some s \<Longrightarrow> closed_step s' = closed_step s \<Longrightarrow> open_steps (set_current s' p) = open_steps p"
  using filter_update [of "pl_current_index p" "pl_steps p" "\<lambda>st. \<not> closed_step st" s']
  by (auto simp: open_steps_def set_current_def plan_current_def split: if_splits)

lemma set_current_steps_wf:
  "list_all (step_wf hash) (pl_steps p) \<Longrightarrow> step_wf hash s \<Longrightarrow> list_all (step_wf hash) (pl_steps (set_current s p))"
  by (auto simp: set_current_def list_all_iff dest!: set_update_subset_insert [THEN subsetD])

lemma plan_current_mem: "plan_current p = Some s \<Longrightarrow> s \<in> set (pl_steps p)"
  by (auto simp: plan_current_def split: if_splits)

lemma start_current_parts:
  assumes "plan_wf p"
  shows "open_steps (snd (start_current p)) = open_steps p"
    and "list_all (step_wf hash) (pl_steps p) \<Longrightarrow> list_all (step_wf hash) (pl_steps (snd (start_current p)))"
proof -
  show "open_steps (snd (start_current p)) = open_steps p"
    using assms set_current_open [of p] by (auto simp: start_current_run closed_step_def split: option.split)
  assume steps: "list_all (step_wf hash) (pl_steps p)"
  then have "step_wf hash s" if "plan_current p = Some s" for s
    using plan_current_mem [OF that] by (auto simp: list_all_iff)
  then show "list_all (step_wf hash) (pl_steps (snd (start_current p)))"
    using assms steps set_current_steps_wf [OF steps] by (auto simp: start_current_run split: option.split)
qed

lemma commit_parts:
  assumes p: "plan_wf p" and run: "commit ref i p = (out, p')"
  shows "(case out of Inl e \<Rightarrow> p' = p | Inr st \<Rightarrow> open_steps p' < open_steps p)"
    and "list_all (step_wf hash) (pl_steps p) \<Longrightarrow> list_all (step_wf hash) (pl_steps p')"
proof -
  have closed: "open_steps (closed_plan ref p) < open_steps p"
    if s: "plan_current p = Some s" for s
  proof -
    have "pl_current_index p < length (pl_steps p)" "pl_steps p ! pl_current_index p = s" "\<not> closed_step s"
      using s p by (auto simp: plan_current_def plan_wf_def split: if_splits)
    then show ?thesis
      using filter_update [of "pl_current_index p" "pl_steps p" "\<lambda>st. \<not> closed_step st" "committed ref s"]
      by (simp add: open_steps_def closed_plan_frame committed_def closed_step_def)
  qed
  show "case out of Inl e \<Rightarrow> p' = p | Inr st \<Rightarrow> open_steps p' < open_steps p"
    using run closed start_current_parts(1) closed_plan_extends(1) [OF p]
    by (auto simp: commit_run extends_def split: option.splits if_splits)
  assume wf: "list_all (step_wf hash) (pl_steps p)"
  have "list_all (step_wf hash) (pl_steps (closed_plan ref p))" if "plan_current p = Some s" for s
    using wf plan_current_mem [OF that] that
    by (auto simp: closed_plan_frame committed_def list_all_iff plan_current_def split: if_splits
        dest!: set_update_subset_insert [THEN subsetD])
  then show "list_all (step_wf hash) (pl_steps p')"
    using run wf start_current_parts(2) closed_plan_extends(1) [OF p]
    by (auto simp: commit_run extends_def split: option.splits if_splits)
qed

subsection \<open>The transitions of the state keep it good\<close>

lemma evolves_failed: "evolves p s (failed_state s)"
proof -
  have "list_all (step_wf h) (pl_steps (es_plan s)) \<Longrightarrow> list_all (step_wf h) (pl_steps (es_plan (failed_state s)))" for h
    by (auto simp: failed_state_def fail_current_step_def update_step_def fail_step_def list_all_iff split: option.split)
  then show ?thesis
    using fail_accepted [of "step_result_ref (ce_digest (pp_env p))" s]
    by (auto simp: evolves_def good_def failed_state_def)
      (auto simp: fail_current_step_def split: option.split)
qed

lemma evolves_prepare: "evolves p s (snd (prepare_current_step has_tools s))"
proof (unfold evolves_def, intro impI)
  assume g: "good (pp_env p) s"
  then have wf: "plan_wf (es_plan s)" by (simp add: good_def accepted_iff)
  show "good (pp_env p) (snd (prepare_current_step has_tools s)) \<and>
    (\<forall>i r. dget (es_committed_results s) i = Some r \<longrightarrow> dget (es_committed_results (snd (prepare_current_step has_tools s))) i = Some r) \<and>
    set (es_seen_tool_call_ids s) \<subseteq> set (es_seen_tool_call_ids (snd (prepare_current_step has_tools s))) \<and>
    es_replan_count s \<le> es_replan_count (snd (prepare_current_step has_tools s)) \<and>
    es_replan_count (snd (prepare_current_step has_tools s)) \<le> max (es_replan_count s) (pp_max_replans p) \<and>
    (es_final_emitted s \<longrightarrow> es_final_emitted (snd (prepare_current_step has_tools s)))"
    using g prepare_accepted [of "step_result_ref (ce_digest (pp_env p))" s has_tools]
      start_current_parts(2) [OF wf, of "ce_hash (pp_env p)"]
    by (auto simp: good_def prepare_current_step_def split: prod.splits sum.splits)
qed

lemma evolves_commit: "evolves p s (snd (commit_pending (step_result_ref (ce_digest (pp_env p))) s))"
proof -
  let ?ref = "step_result_ref (ce_digest (pp_env p))" let ?s = "snd (commit_pending ?ref s)"
  have steps: "list_all (step_wf h) (pl_steps (es_plan ?s))"
    if "plan_wf (es_plan s)" "list_all (step_wf h) (pl_steps (es_plan s))" for h
    using that commit_parts(2) [OF that(1)]
    by (auto simp: commit_pending_def commit_result_def split: option.split prod.split sum.split)
  show ?thesis
    using commit_pending_accepted [of ?ref s] commit_pending_stable [of ?ref s] steps
    by (auto simp: evolves_def good_def)
      (auto simp: accepted_iff commit_pending_def split: option.split prod.split sum.split)
qed

lemma evolves_fail [intro!]: "evolves p s t \<Longrightarrow> evolves p s (failed_state t)"
  using state_evolves_trans evolves_failed by blast

lemma evolves_small:
  "evolves p s (snd (set_pending_result r s))"
  "evolves p s (snd (mark_tool_round_complete s))"
  "evolves p s (snd (begin_finalization s))"
  "evolves p s (snd (record_final_response text1 persisted emitted s))"
  using set_pending_accepted [of "step_result_ref (ce_digest (pp_env p))" s r]
    tool_round_accepted [of "step_result_ref (ce_digest (pp_env p))" s]
    finalize_accepted [of "step_result_ref (ce_digest (pp_env p))" s]
    record_accepted [of "step_result_ref (ce_digest (pp_env p))" s text1 persisted emitted]
  by (auto simp: evolves_def good_def set_pending_result_def mark_tool_round_complete_def begin_finalization_def
      record_final_response_def split: option.split)

lemma evolves_update [intro!]:
  "evolves p s t \<Longrightarrow> evolves p s (t\<lparr>es_validation_error := v\<rparr>)"
  "evolves p s t \<Longrightarrow> evolves p s (t\<lparr>es_failure := f\<rparr>)"
  "evolves p s t \<Longrightarrow> evolves p s (t\<lparr>es_awaiting_step_result := b\<rparr>)"
  "evolves p s t \<Longrightarrow> evolves p s (t\<lparr>es_pending_step_result := None\<rparr>)"
  "evolves p s t \<Longrightarrow> evolves p s (t\<lparr>es_active_tool_calls := []\<rparr>)"
  "evolves p s t \<Longrightarrow> ph \<noteq> P_DONE \<Longrightarrow> evolves p s (t\<lparr>es_phase := ph\<rparr>)"
  "evolves p s t \<Longrightarrow> (good (pp_env p) s \<Longrightarrow> fingerprints_ok f) \<Longrightarrow> evolves p s (t\<lparr>es_pending_tool_failure := f\<rparr>)"
  by (auto simp: evolves_def)

text \<open>The attempts of a step may be counted, at any moment.\<close>

lemma map_steps_wf:
  assumes "plan_wf p" and f: "\<And>st. ps_step_id (f st) = ps_step_id st \<and> ps_dependencies (f st) = ps_dependencies st \<and>
      ps_status (f st) = ps_status st"
  shows "plan_wf (p\<lparr>pl_steps := map f (pl_steps p)\<rparr>)"
  using assms(1) f by (auto simp: plan_wf_def ordered_steps_def step_ids_def comp_def plan_current_def closed_step_def)

lemma evolves_bump [intro!]:
  assumes "evolves p s t"
  shows "evolves p s (bump_attempt step t)"
proof -
  let ?f = "\<lambda>st. if ps_step_id st = ps_step_id step then st\<lparr>ps_attempt_count := ps_attempt_count st + 1\<rparr> else st"
  let ?t = "bump_attempt step t"
  have plan: "es_plan ?t = es_plan t\<lparr>pl_steps := map ?f (pl_steps (es_plan t))\<rparr>"
    by (simp add: bump_attempt_def update_step_def)
  have "good (pp_env p) ?t" if g: "good (pp_env p) t"
  proof -
    have wf: "plan_wf (es_plan ?t)" using g map_steps_wf [of "es_plan t" ?f] by (auto simp: plan good_def accepted_iff)
    have "\<exists>st' \<in> set (pl_steps (es_plan ?t)). ps_step_id st' = ps_step_id st \<and> ps_status st' = ps_status st \<and>
        ps_result_ref st' = ps_result_ref st" if "st \<in> set (pl_steps (es_plan t))" for st
      using that by (intro bexI [where x = "?f st"]) (auto simp: plan)
    then have results: "results_ok ref (es_plan t) rs \<Longrightarrow> results_ok ref (es_plan ?t) rs" for ref rs
      unfolding results_ok_def by fastforce
    have ids: "step_ids (pl_steps (es_plan ?t)) = step_ids (pl_steps (es_plan t))"
      by (auto simp: plan step_ids_def)
    have current: "plan_current (es_plan ?t) = None \<longleftrightarrow> plan_current (es_plan t) = None"
      by (simp add: plan plan_current_def)
    have steps: "list_all (step_wf (ce_hash (pp_env p))) (pl_steps (es_plan ?t))"
      using g by (auto simp: plan good_def list_all_iff step_wf_iff step_normal_def)
    have "accepted (step_result_ref (ce_digest (pp_env p))) ?t"
      using g wf results ids current
      by (auto simp: good_def accepted_iff bump_attempt_def current_ok_def split: option.splits)
    then show ?thesis using steps by (simp add: good_def)
  qed
  then show ?thesis using assms by (auto simp: evolves_def bump_attempt_def)
qed

text \<open>The Tool calls that are accepted.\<close>

lemma fingerprint_strip:
  assumes "is_tool_argument_fingerprint f"
  shows "strip f = f"
proof (rule strip_id)
  assume "f \<noteq> []"
  have f: "f = ''sha256:'' @ drop 7 f" "drop 7 f \<noteq> []" "list_all (\<lambda>c. c \<in> set ''0123456789abcdef'') (drop 7 f)"
    using assms append_take_drop_id [of 7 f] by (auto simp: is_tool_argument_fingerprint_def)
  have "last f \<in> set ''0123456789abcdef''"
    using f last_in_set [of "drop 7 f"] unfolding list_all_iff by (metis last_append)
  moreover have "hd f = CHR ''s''" using f(1) by (metis hd_append2 list.distinct(1) list.sel(1))
  ultimately show "\<not> is_space (hd f) \<and> \<not> is_space (last f)" by (auto simp: is_space_def)
qed

definition records_ok :: "execution_state \<Rightarrow> (string, active_call) dict \<Rightarrow> bool" where
  "records_ok s records \<longleftrightarrow> dwf records \<and> (\<forall>(i, c) \<in> set records. i \<noteq> [] \<and> strip i = i \<and>
     ac_tool_name c \<noteq> [] \<and> strip (ac_tool_name c) = ac_tool_name c \<and>
     is_tool_argument_fingerprint (ac_fingerprint c) \<and> i \<notin> set (es_seen_tool_call_ids s))"

lemma tool_call_record_ok:
  assumes print: "prints_ok p"
    and "tool_call_record p s records call = Inr (Inl records')" and "records_ok s records"
  shows "records_ok s records' \<and> (\<exists>x. records' = records @ [x])"
  using assms by (auto simp: prints_ok_def tool_call_record_def Let_def records_ok_def split: if_splits sum.splits exn.splits)

lemma tool_call_records_ok:
  assumes print: "prints_ok p"
    and run: "tool_call_records p s calls = Inr (Inl records)"
  shows "records_ok s records \<and> length records = length calls"
  using run
proof (induction calls arbitrary: records rule: rev_induct)
  case Nil
  then show ?case by (simp add: tool_call_records_def records_ok_def)
next
  case (snoc call calls)
  then obtain x where x: "tool_call_records p s calls = Inr x"
      "(case x of Inr message \<Rightarrow> Inr (Inr message) | Inl found \<Rightarrow> tool_call_record p s found call) = Inr (Inl records)"
    by (auto simp: tool_call_records_def bindR_Inr_iff)
  then obtain found where found: "tool_call_records p s calls = Inr (Inl found)"
      "tool_call_record p s found call = Inr (Inl records)" by (cases x) auto
  then show ?case using snoc.IH [OF found(1)] tool_call_record_ok [OF print found(2)] by auto
qed

lemma evolves_calls [intro]:
  assumes "records_ok s records"
  shows "evolves p s (s\<lparr>es_active_tool_calls := records, es_seen_tool_call_ids := es_seen_tool_call_ids s @ map fst records\<rparr>)"
proof -
  have "normalize_active records = records"
    using assms fingerprint_strip
    by (intro normalize_active_same) (auto simp: records_ok_def normal_call_def)
  moreover have "map strip (map fst records) = map fst records" "[] \<notin> set (map fst records)"
    "set (map fst records) \<inter> set (es_seen_tool_call_ids s) = {}"
    "\<forall>(i, c) \<in> set records. strip i \<noteq> [] \<and> strip (ac_tool_name c) \<noteq> [] \<and>
       is_tool_argument_fingerprint (strip (ac_fingerprint c))"
    using assms fingerprint_strip by (fastforce simp: records_ok_def)+
  ultimately have "calls_ok s \<Longrightarrow> calls_ok (s\<lparr>es_active_tool_calls := records,
      es_seen_tool_call_ids := es_seen_tool_call_ids s @ map fst records\<rparr>)"
    using assms by (auto simp: calls_ok_def records_ok_def)
  then show ?thesis
    by (auto simp: evolves_def good_def accepted_iff counts_ok_def current_ok_def final_ok_def split: option.splits)
qed

subsection \<open>Replanning\<close>

lemma reload_same: "policy_laws p \<Longrightarrow> step_wf (ce_hash (pp_env p)) st \<Longrightarrow> reload_step (pp_env p) st = Inr st"
  unfolding reload_step_def policy_laws_def by (auto intro: plan_step_dict)

lemma keep_attempts_wf: "step_wf hash st \<Longrightarrow> step_wf hash (keep_attempts previous st)"
  by (auto simp: keep_attempts_def step_wf_iff step_normal_def split: option.split)

lemma merged_plan_keeps:
  assumes laws: "policy_laws p" and g: "good (pp_env p) s" and run: "merged_plan (pp_env p) s revised = Inr merged"
  shows "plan_wf merged" and "list_all (step_wf (ce_hash (pp_env p))) (pl_steps merged)"
    and "st \<in> set (pl_steps (es_plan s)) \<Longrightarrow> ps_step_id st \<in> fst ` set (es_committed_results s) \<Longrightarrow> st \<in> set (pl_steps merged)"
proof -
  let ?done = "filter (\<lambda>st. ps_step_id st \<in> set (map fst (es_committed_results s))) (pl_steps (es_plan s))"
  have "\<And>st. st \<in> set ?done \<Longrightarrow> reload_step (pp_env p) st = Inr st"
    using g reload_same [OF laws] by (auto simp: good_def list_all_iff)
  then have reloaded: "mapR (reload_step (pp_env p)) ?done = Inr ?done"
    using mapR_map_id [of ?done "reload_step (pp_env p)" id] by simp
  obtain cs fresh i v previous where cs: "mapR (reload_step (pp_env p)) ?done = Inr cs" and fresh: "mapR (reload_step (pp_env p))
        (filter (\<lambda>st. ps_step_id st \<notin> set (map fst (es_committed_results s))) (pl_steps revised)) = Inr fresh"
      and built: "Plan (cs @ map (keep_attempts previous) fresh) i v = Inr merged"
    using run unfolding merged_plan_def Let_def bindR_Inr_iff by blast
  have merged: "Plan (?done @ map (keep_attempts previous) fresh) i v = Inr merged"
    using cs reloaded built by simp
  have "\<forall>st \<in> set fresh. step_wf (ce_hash (pp_env p)) st"
    using mapR_all [OF fresh, of "step_wf (ce_hash (pp_env p))"] plan_step_loaded by (simp add: reload_step_def)
  then have new: "list_all (step_wf (ce_hash (pp_env p))) (map (keep_attempts previous) fresh)"
    by (simp add: list_all_iff keep_attempts_wf)
  have old: "list_all (step_wf (ce_hash (pp_env p))) ?done" using g by (auto simp: good_def list_all_iff)
  have shape: "pl_steps merged = ?done @ map (keep_attempts previous) fresh" using merged by (auto simp: accepted_plan)
  show "list_all (step_wf (ce_hash (pp_env p))) (pl_steps merged)" using old new shape by simp
  show "plan_wf merged" using merged by (auto simp: accepted_plan intro: move_wf)
  show "st \<in> set (pl_steps (es_plan s)) \<Longrightarrow> ps_step_id st \<in> fst ` set (es_committed_results s) \<Longrightarrow> st \<in> set (pl_steps merged)"
    using shape by auto
qed

definition replanned :: "plan \<Rightarrow> string \<Rightarrow> execution_state \<Rightarrow> execution_state" where
  "replanned merged feedback s = s\<lparr>es_plan := merged, es_replan_count := es_replan_count s + 1, es_pending_step_result := None,
     es_pending_tool_failure := None, es_failure := None, es_active_tool_calls := [],
     es_validation_error := Some feedback, es_awaiting_step_result := False, es_phase := P_STEP_PREPARE,
     es_current_step_id := map_option ps_step_id (plan_current merged)\<rparr>"

lemma replanned_count [simp]: "es_replan_count (replanned merged feedback s) = es_replan_count s + 1"
  by (simp add: replanned_def)

lemma evolves_replanned:
  assumes laws: "policy_laws p" and run: "merged_plan (pp_env p) s revised = Inr merged"
    and count: "es_replan_count s < pp_max_replans p"
  shows "evolves p s (replanned merged feedback s)"
proof (unfold evolves_def, intro impI)
  assume g: "good (pp_env p) s"
  note kept = merged_plan_keeps [OF laws g run]
  have "results_ok ref merged (es_committed_results s)" if "results_ok ref (es_plan s) (es_committed_results s)" for ref
    using that kept(3) unfolding results_ok_def by (fastforce simp: image_iff)
  moreover have "ps_step_id c \<in> set (step_ids (pl_steps merged))" if "plan_current merged = Some c" for c
    using plan_current_mem [OF that] by (simp add: step_ids_def)
  ultimately have "good (pp_env p) (replanned merged feedback s)"
    using g kept(1,2)
    by (auto simp: good_def accepted_iff replanned_def counts_ok_def calls_ok_def hashed_field_def current_ok_def
        final_ok_def normalize_active_def split: option.split)
  then show "good (pp_env p) (replanned merged feedback s) \<and>
      (\<forall>i r. dget (es_committed_results s) i = Some r \<longrightarrow>
         dget (es_committed_results (replanned merged feedback s)) i = Some r) \<and>
      set (es_seen_tool_call_ids s) \<subseteq> set (es_seen_tool_call_ids (replanned merged feedback s)) \<and>
      es_replan_count s \<le> es_replan_count (replanned merged feedback s) \<and>
      es_replan_count (replanned merged feedback s) \<le> max (es_replan_count s) (pp_max_replans p) \<and>
      (es_final_emitted s \<longrightarrow> es_final_emitted (replanned merged feedback s))"
    using count by (simp add: replanned_def)
qed

subsection \<open>The way to the end\<close>

definition current_attempts :: "execution_state \<Rightarrow> int" where
  "current_attempts s = (case current_step s of None \<Rightarrow> 0 | Some st \<Rightarrow> ps_attempt_count st)"

fun stage :: "execution_state \<Rightarrow> nat" where
  "stage s = (if es_phase s = P_ACT then (if es_awaiting_step_result s then 1 else 2)
     else if es_phase s = P_VERIFY then 1 else 0)"

definition weight :: "'w plan_policy \<Rightarrow> execution_state \<Rightarrow> nat \<times> nat \<times> nat \<times> nat \<times> nat \<times> nat \<times> nat" where
  "weight p s = (of_bool (es_phase s \<notin> {P_DONE, P_FAILED}), nat (pp_max_replans p - es_replan_count s),
     open_steps (es_plan s), of_bool (es_phase s = P_STEP_PREPARE), nat (pp_max_step_attempts p - current_attempts s),
     nat (pp_max_tool_repair_attempts p - step_repair_count p s), stage s)"

definition lighter :: "'w plan_policy \<Rightarrow> (execution_state \<times> execution_state) set" where
  "lighter p = inv_image (less_than <*lex*> less_than <*lex*> less_than <*lex*> less_than <*lex*> less_than <*lex*>
     less_than <*lex*> less_than) (weight p)"

lemma wf_lighter: "wf (lighter p)"
  unfolding lighter_def by (intro wf_inv_image wf_lex_prod wf_less_than)

lemma trans_lighter: "trans (lighter p)"
  unfolding lighter_def by (intro trans_inv_image trans_lex_prod trans_less_than)

definition running :: "execution_state \<Rightarrow> bool" where
  "running s \<longleftrightarrow> es_phase s \<notin> {P_DONE, P_FAILED}"

lemma lighter_failed: "running s \<Longrightarrow> es_phase s' = P_FAILED \<Longrightarrow> (s', s) \<in> lighter p"
  by (simp add: lighter_def weight_def running_def)

lemma lighter_replan:
  "running s \<Longrightarrow> es_replan_count s < pp_max_replans p \<Longrightarrow> es_replan_count s < es_replan_count s' \<Longrightarrow> (s', s) \<in> lighter p"
  by (auto simp: lighter_def weight_def running_def)

lemma lighter_open:
  "running s \<Longrightarrow> es_replan_count s' = es_replan_count s \<Longrightarrow> open_steps (es_plan s') < open_steps (es_plan s) \<Longrightarrow>
     (s', s) \<in> lighter p"
  by (auto simp: lighter_def weight_def running_def)

definition same_epoch :: "execution_state \<Rightarrow> execution_state \<Rightarrow> bool" where
  "same_epoch s s' \<longleftrightarrow> running s \<and> es_replan_count s' = es_replan_count s \<and> open_steps (es_plan s') = open_steps (es_plan s) \<and>
     es_phase s \<noteq> P_STEP_PREPARE \<and> es_phase s' \<noteq> P_STEP_PREPARE"

lemma lighter_attempt:
  "same_epoch s s' \<Longrightarrow> current_attempts s < pp_max_step_attempts p \<Longrightarrow> current_attempts s < current_attempts s' \<Longrightarrow>
     (s', s) \<in> lighter p"
  by (auto simp: lighter_def weight_def running_def same_epoch_def)

lemma lighter_repair:
  "same_epoch s s' \<Longrightarrow> current_attempts s' = current_attempts s \<Longrightarrow>
     step_repair_count p s < pp_max_tool_repair_attempts p \<Longrightarrow> step_repair_count p s < step_repair_count p s' \<Longrightarrow>
     (s', s) \<in> lighter p"
  by (auto simp: lighter_def weight_def running_def same_epoch_def)

lemma lighter_stage:
  "same_epoch s s' \<Longrightarrow> current_attempts s' = current_attempts s \<Longrightarrow> step_repair_count p s' = step_repair_count p s \<Longrightarrow>
     stage s' < stage s \<Longrightarrow> (s', s) \<in> lighter p"
  by (auto simp: lighter_def weight_def running_def same_epoch_def)

lemma failed_phase [simp]: "es_phase (failed_state s) = P_FAILED"
  by (simp add: failed_state_def fail_current_step_def split: option.split)

text \<open>
  What an operation of the policy does to the state: the state evolves, and a decision brings a run that is
  acting on a step closer to its end.
\<close>

definition acting :: "execution_state \<Rightarrow> bool" where
  "acting s \<longleftrightarrow> es_phase s \<in> {P_ACT, P_STEP_VALIDATE}"

definition advances :: "'w plan_policy \<Rightarrow> execution_state \<Rightarrow> execution_decision res \<Rightarrow> execution_state \<Rightarrow> bool" where
  "advances p s out s' \<longleftrightarrow> evolves p s s' \<and> (\<forall>d. out = Inr d \<longrightarrow>
     (dn_kind d = DK_FAIL \<longrightarrow> es_phase s' = P_FAILED) \<and>
     (acting s \<longrightarrow> good (pp_env p) s \<longrightarrow> (s', s) \<in> lighter p))"

lemma acting_running: "acting s \<Longrightarrow> running s" "acting s \<Longrightarrow> es_phase s \<noteq> P_STEP_PREPARE"
  by (auto simp: acting_def running_def)

lemma advances_fail:
  "evolves p s s' \<Longrightarrow> es_phase s' = P_FAILED \<Longrightarrow> advances p s (Inr (decision env s' DK_FAIL error extra)) s'"
  by (auto simp: advances_def acting_running intro: lighter_failed)

lemma advances_raise [intro]: "evolves p s s' \<Longrightarrow> advances p s (Inl e) s'"
  by (simp add: advances_def)

lemma decision_kind [simp]: "dn_kind (decision env s kind error extra) = kind"
  by (simp add: decision_def)

lemma weight_frame [simp]:
  "weight p (s\<lparr>es_validation_error := v\<rparr>) = weight p s"
  "weight p (s\<lparr>es_failure := f\<rparr>) = weight p s"
  "weight p (s\<lparr>es_pending_tool_failure := f\<rparr>) = weight p s"
  "weight p (s\<lparr>es_pending_step_result := r\<rparr>) = weight p s"
  "weight p (s\<lparr>es_active_tool_calls := a\<rparr>) = weight p s"
  "weight p (s\<lparr>es_seen_tool_call_ids := b\<rparr>) = weight p s"
  by (simp_all add: weight_def current_attempts_def step_repair_count_def current_step_def cong: option.case_cong)

lemma advances_from:
  assumes "evolves p s s1" and "weight p s1 = weight p s" and "es_phase s1 = es_phase s" and "advances p s1 out s'"
  shows "advances p s out s'"
proof -
  have "good (pp_env p) s \<Longrightarrow> good (pp_env p) s1" using assms(1) by (simp add: evolves_def)
  then show ?thesis
    using assms state_evolves_trans [OF assms(1)] by (auto simp: advances_def lighter_def acting_def)
qed

text \<open>The same step, with one attempt more.\<close>

lemma bump_attempt_parts:
  assumes g: "good env s" and step: "current_step s = Some step"
  shows "current_attempts (bump_attempt step s) = ps_attempt_count step + 1"
    and "open_steps (es_plan (bump_attempt step s)) = open_steps (es_plan s)"
proof -
  let ?f = "\<lambda>st. if ps_step_id st = ps_step_id step then st\<lparr>ps_attempt_count := ps_attempt_count st + 1\<rparr> else st"
  have plan: "es_plan (bump_attempt step s) = es_plan s\<lparr>pl_steps := map ?f (pl_steps (es_plan s))\<rparr>"
    by (simp add: bump_attempt_def update_step_def)
  show "open_steps (es_plan (bump_attempt step s)) = open_steps (es_plan s)"
    unfolding plan open_steps_def by (simp add: filter_map comp_def closed_step_def if_distrib cong: if_cong)
  have acc: "accepted (step_result_ref (ce_digest env)) s" using g by (simp add: good_def)
  show "current_attempts (bump_attempt step s) = ps_attempt_count step + 1"
  proof (cases "es_current_step_id s")
    case None
    then show ?thesis
      using acc step by (auto simp: accepted_iff current_ok_def current_step_def)
  next
    case (Some i)
    have find: "find (\<lambda>st. ps_step_id st = i) (map ?f xs) = map_option ?f (find (\<lambda>st. ps_step_id st = i) xs)" for xs
      by (induction xs) auto
    have "es_current_step_id (bump_attempt step s) = Some i" using Some by (simp add: bump_attempt_def)
    then show ?thesis
      using Some step find [of "pl_steps (es_plan s)"]
      by (simp add: current_attempts_def current_step_def find_step_def plan)
  qed
qed

lemma bump_frame [simp]:
  "es_current_step_id (bump_attempt step s) = es_current_step_id s" "es_replan_count (bump_attempt step s) = es_replan_count s"
  by (simp_all add: bump_attempt_def)

text \<open>A counted retry.\<close>

lemma counted_retry:
  assumes step: "current_step s = Some step" and count: "ps_attempt_count step < pp_max_step_attempts p"
    and s': "es_plan s' = es_plan (bump_attempt step s)" "es_current_step_id s' = es_current_step_id s"
      "es_phase s' = P_ACT" "es_replan_count s' = es_replan_count s" and e: "evolves p s s'"
  shows "advances p s (Inr (decision env s' DK_RETRY_STEP error extra)) s'"
proof -
  have "current_attempts s' = current_attempts (bump_attempt step s)"
    using s' by (simp add: current_attempts_def current_step_def bump_attempt_def cong: option.case_cong)
  then show ?thesis
    using assms bump_attempt_parts [OF _ step, of "pp_env p"] acting_running [of s]
    by (auto simp: advances_def same_epoch_def current_attempts_def [of s] intro!: lighter_attempt)
qed

lemma retry_invalid_result_leads:
  "leads s (retry_invalid_result p s reason code1 location) (advances p s)"
proof (cases "current_step s")
  case None
  then show ?thesis
    unfolding retry_invalid_result_def by (auto intro!: leads_ofR leads_settle advances_raise advances_fail)
next
  case (Some step)
  then show ?thesis
    unfolding retry_invalid_result_def Let_def
    by (auto intro!: leads_ofR leads_settle advances_raise advances_fail counted_retry [OF Some])
qed

lemma retry_validation_leads:
  "leads s (retry_validation p s v) (advances p s)"
proof (cases "current_step s")
  case None
  then show ?thesis unfolding retry_validation_def by (auto intro!: leads_settle advances_fail)
next
  case (Some step)
  then show ?thesis
    unfolding retry_validation_def Let_def by (auto intro!: leads_settle advances_fail counted_retry [OF Some])
qed

lemma apply_replan_leads:
  assumes "policy_laws p" and "es_replan_count s < pp_max_replans p"
  shows "leads s (apply_replan p s feedback) (\<lambda>out s'. evolves p s s' \<and> (\<forall>x. out = Inr x \<longrightarrow> x = s' \<and>
     es_replan_count s' = es_replan_count s + 1))"
  unfolding apply_replan_def Let_def replanned_def [symmetric]
  by (rule leads_world)
    (auto intro!: leads_ofR leads_raise leads_capture leads_sync leads_ret evolves_replanned [OF assms(1) _ assms(2)]
      split: sum.split)

lemma replan_leads:
  assumes "policy_laws p"
  shows "leads s (replan p s feedback) (\<lambda>out s'. case out of Inl e \<Rightarrow> evolves p s s'
     | Inr (s2, d) \<Rightarrow> s2 = s' \<and> advances p s (Inr d) s')"
proof (cases "pp_max_replans p \<le> es_replan_count s")
  case True
  then show ?thesis
    unfolding replan_def Let_def settle_def bindP_assoc
    by (auto intro!: leads_sync leads_ret advances_fail)
next
  case False
  then have "es_replan_count s < pp_max_replans p" by simp
  from leads_bind [OF apply_replan_leads [OF assms this]] False show ?thesis
    unfolding replan_def
    by (auto intro!: leads_ret leads_bind [OF apply_replan_leads [OF assms]]
      simp: advances_def acting_running lighter_replan)
qed

lemma good_failure: "good env s \<Longrightarrow> fingerprints_ok (es_pending_tool_failure s)"
  by (simp add: good_def accepted_iff fingerprints_ok_iff)

lemma hashed_dset: "k \<noteq> k' \<Longrightarrow> hashed_field (Some (dset k v d)) k' = hashed_field (Some d) k'"
  by (simp add: hashed_field_def present_def dget_dset)

lemma fingerprints_dset:
  "k \<notin> {''arguments_fingerprint'', ''invocation_fingerprint''} \<Longrightarrow> fingerprints_ok f \<Longrightarrow>
     fingerprints_ok (Some (dset k v (case f of None \<Rightarrow> [] | Some d \<Rightarrow> d)))"
  by (cases f) (auto simp: fingerprints_ok_iff hashed_dset, simp_all add: hashed_field_def present_def)

lemma fallback_tool_failure_leads:
  assumes "policy_laws p"
  shows "leads s (fallback_tool_failure p s reason fallback) (advances p s)"
proof (cases "pp_recovery p")
  case None
  then show ?thesis unfolding fallback_tool_failure_def by (auto intro!: leads_raise advances_raise)
next
  case (Some recovery)
  let ?pending = "dset ''fallback_reason'' (PStr reason) (case es_pending_tool_failure s of None \<Rightarrow> [] | Some d \<Rightarrow> d)"
  have ok: "good (pp_env p) s \<Longrightarrow> fingerprints_ok (Some ?pending)"
    using good_failure fingerprints_dset by fastforce
  let ?raw = "dget_or ?pending ''feedback'' PNone"
  let ?feedback0 = "if falsy ?raw then ''Tool execution failed'' else ce_text_of (pp_env p) ?raw"
  define feedback where "feedback = (if occurs_in reason ?feedback0 then ?feedback0 else ?feedback0 @ ''; '' @ reason)"
  define s1 where "s1 = s\<lparr>es_pending_tool_failure := Some ?pending, es_active_tool_calls := [],
      es_validation_error := Some feedback\<rparr>"
  have s1: "evolves p s s1" "weight p s1 = weight p s" "es_phase s1 = es_phase s" using ok by (auto simp: s1_def)
  have replanning: "leads s1 (bindP (replan p s1 feedback) (\<lambda>(s2, d). if dn_kind d = DK_FAIL
      then settle (pp_env p) (s2\<lparr>es_failure := f d, es_pending_step_result := None, es_awaiting_step_result := False\<rparr>)
        DK_FAIL (dn_error_message d) (x d)
      else ret d)) (advances p s)" for f x
  proof (rule leads_bind [OF replan_leads [OF assms]])
    show "advances p s (Inl e) s'" if "case Inl e of Inl e \<Rightarrow> evolves p s1 s' | Inr (s2, d) \<Rightarrow> s2 = s' \<and> advances p s1 (Inr d) s'"
      for e s' using that s1 by (auto intro: state_evolves_trans)
  next
    fix out s' assume out: "case Inr out of Inl e \<Rightarrow> evolves p s1 s' | Inr (s2, d) \<Rightarrow> s2 = s' \<and> advances p s1 (Inr d) s'"
    then obtain d where d: "out = (s', d)" "advances p s1 (Inr d) s'" by (cases out) auto
    then have from_s: "advances p s (Inr d) s'" using advances_from [OF s1] by blast
    show "leads s' (case out of (s2, d) \<Rightarrow> if dn_kind d = DK_FAIL
        then settle (pp_env p) (s2\<lparr>es_failure := f d, es_pending_step_result := None, es_awaiting_step_result := False\<rparr>)
          DK_FAIL (dn_error_message d) (x d)
        else ret d) (advances p s)"
      using from_s d(1) by (auto intro!: leads_settle advances_fail leads_ret simp: advances_def)
  qed
  have failing: "leads s1 (settle (pp_env p) (failed_state (s1\<lparr>es_failure := f, es_pending_step_result := None,
      es_awaiting_step_result := False\<rparr>)) DK_FAIL e x) (advances p s)" for f e x
    using s1(1) by (auto intro!: leads_settle advances_fail)
  show ?thesis
    unfolding fallback_tool_failure_def Let_def Some option.case feedback_def [symmetric] s1_def [symmetric]
    by (intro leads_put) (auto intro: replanning failing)
qed

subsection \<open>Validation and decisions\<close>

lemma commit_pending_lighter:
  assumes "good (pp_env p) s" and "running s" and run: "commit_pending (step_result_ref (ce_digest (pp_env p))) s = (Inr st, s')"
  shows "(s', s) \<in> lighter p"
proof -
  have wf: "plan_wf (es_plan s)" using assms(1) by (simp add: good_def accepted_iff)
  obtain r q where "commit (step_result_ref (ce_digest (pp_env p)) r) (Some (sr_step_id r)) (es_plan s) = (Inr st, q)"
      "es_plan s' = q" "es_replan_count s' = es_replan_count s"
    using run by (auto simp: commit_pending_def commit_result_def split: option.splits prod.splits sum.splits)
  then show ?thesis using commit_parts(1) [OF wf] assms(2) by (fastforce intro: lighter_open)
qed

lemma validate_pending_leads:
  assumes laws: "policy_laws p"
  shows "leads s (validate_pending p) (advances p s)"
proof -
  let ?ref = "step_result_ref (ce_digest (pp_env p))"
  have commits: "leads s (case commit_pending ?ref s of
      (Inl e, s') \<Rightarrow> bindP (put_state s') (\<lambda>_. raise e)
    | (Inr _, s') \<Rightarrow> bindP (put_state s') (\<lambda>_. bindP clear_internal (\<lambda>_.
        settle (pp_env p) s' DK_COMMIT_STEP None (x s')))) (advances p s)" for x
  proof -
    obtain out s' where run: "commit_pending ?ref s = (out, s')" by fastforce
    have "evolves p s s'" using evolves_commit [of p s] run by simp
    then show ?thesis
      using run commit_pending_lighter [of p s _ s'] acting_running
      by (cases out) (auto intro!: leads_put leads_clear leads_settle leads_raise advances_raise simp: advances_def)
  qed
  have replans: "leads s (bindP (replan p s feedback) (\<lambda>(_, d). ret d)) (advances p s)" for feedback
    by (rule leads_bind [OF replan_leads [OF laws]]) (auto intro!: leads_ret advances_raise)
  show ?thesis
    unfolding validate_pending_def Let_def
    by (rule leads_state)
      (auto intro!: leads_world leads_raise leads_settle leads_capture advances_raise advances_fail commits replans
        retry_validation_leads split: bool.split option.split sum.split validation_kind.split)
qed

lemma accept_tool_calls_leads:
  assumes records: "records_ok s records" and acting: "es_awaiting_step_result s = False"
  shows "leads s (accept_tool_calls p s calls records) (advances p s)"
proof -
  let ?s1 = "s\<lparr>es_active_tool_calls := records, es_seen_tool_call_ids := es_seen_tool_call_ids s @ map fst records\<rparr>"
  have e: "evolves p s (?s1\<lparr>es_awaiting_step_result := True\<rparr>)" using evolves_calls [OF records] by blast
  have "(?s1\<lparr>es_awaiting_step_result := True\<rparr>, s) \<in> lighter p" if "es_phase s = P_ACT"
    using that acting
    by (auto simp: same_epoch_def running_def current_attempts_def step_repair_count_def current_step_def
        intro!: lighter_stage cong: option.case_cong)
  then show ?thesis
    unfolding accept_tool_calls_def Let_def mark_tool_round_complete_def
    using e evolves_calls [OF records]
    by (auto intro!: leads_put leads_raise leads_sync leads_ret advances_raise simp: advances_def)
qed

lemma decide_tool_calls_leads:
  assumes laws: "policy_laws p"
  shows "leads s (decide_tool_calls p s calls) (advances p s)"
proof -
  have "prints_ok p" using laws by (simp add: policy_laws_def)
  note records = tool_call_records_ok [OF this, THEN conjunct1]
  show ?thesis
    unfolding decide_tool_calls_def
    by (auto intro!: leads_ofR leads_settle advances_raise advances_fail fallback_tool_failure_leads [OF laws]
      retry_invalid_result_leads accept_tool_calls_leads records split: sum.split option.split)
qed

lemma decide_step_result_leads:
  assumes laws: "policy_laws p"
  shows "leads s (decide_step_result p s response) (advances p s)"
proof -
  have pending: "leads s (case set_pending_result result s of
        (Inl e, s') \<Rightarrow> bindP (put_state s') (\<lambda>_. raise e)
      | (Inr _, s') \<Rightarrow> bindP (put_state s') (\<lambda>_. validate_pending p)) (advances p s)" for result
  proof -
    obtain out s' where run: "set_pending_result result s = (out, s')" by fastforce
    have e: "evolves p s s'" using evolves_small(1) [of p s result] run by simp
    have s': "out = Inr u \<Longrightarrow> es_phase s' = P_STEP_VALIDATE \<and> es_replan_count s' = es_replan_count s \<and> es_plan s' = es_plan s \<and>
        current_attempts s' = current_attempts s \<and> step_repair_count p s' = step_repair_count p s" for u
      using run by (auto simp: set_pending_result_def current_attempts_def step_repair_count_def current_step_def
          split: option.splits if_splits cong: option.case_cong)
    have "advances p s x s2" if out: "out = Inr u" and v: "advances p s' x s2" for u x s2
    proof -
      have "(s', s) \<in> lighter p \<or> weight p s' = weight p s" if "acting s"
        using s' [OF out] that by (auto simp: lighter_def weight_def acting_def running_def)
      then have "(s2, s) \<in> lighter p" if "acting s" "(s2, s') \<in> lighter p"
        using that trans_lighter [of p] by (auto simp: lighter_def dest: transD)
      then show ?thesis
        using v e state_evolves_trans [OF e] s' [OF out] by (auto simp: advances_def acting_def evolves_def)
    qed
    then show ?thesis
      using run e validate_pending_leads [OF laws, of s']
      by (cases out) (auto intro!: leads_put leads_raise advances_raise intro: leads_weaken)
  qed
  show ?thesis
    unfolding decide_step_result_def Let_def
    by (auto intro!: leads_settle leads_raise advances_raise advances_fail pending split: sum.split exn.split option.split)
qed

lemma policy_decide_leads:
  assumes laws: "policy_laws p"
  shows "leads s (policy_decide p response) (\<lambda>out s'. evolves p s s' \<and> (es_phase s = P_ACT \<longrightarrow> advances p s out s'))"
proof -
  have extraction: "advances p s (Inr (decision env (s\<lparr>es_awaiting_step_result := True, es_validation_error := v\<rparr>) DK_RETRY_STEP e x))
      (s\<lparr>es_awaiting_step_result := True, es_validation_error := v\<rparr>)"
    if "es_phase s = P_ACT" "\<not> es_awaiting_step_result s" for env v e x
    using that by (auto simp: advances_def same_epoch_def running_def current_attempts_def step_repair_count_def current_step_def
        intro!: lighter_stage cong: option.case_cong)
  have weak: "leads s m (\<lambda>out s'. evolves p s s' \<and> (es_phase s = P_ACT \<longrightarrow> advances p s out s'))"
    if "leads s m (advances p s)" for m
    by (rule leads_weaken [OF that]) (simp add: advances_def)
  show ?thesis
    unfolding policy_decide_def Let_def
    by (rule leads_state) (auto intro!: weak fallback_tool_failure_leads [OF laws]
      retry_invalid_result_leads decide_tool_calls_leads [OF laws] decide_step_result_leads [OF laws]
      leads_settle [where s = s] extraction)
qed

subsection \<open>Tool results\<close>

text \<open>A Tool round is over: the run is as close to its end as before, or closer.\<close>

definition settles :: "'w plan_policy \<Rightarrow> execution_state \<Rightarrow> 'a res \<Rightarrow> execution_state \<Rightarrow> bool" where
  "settles p s out s' \<longleftrightarrow> evolves p s s' \<and> (\<forall>x. out = Inr x \<longrightarrow> acting s \<longrightarrow> good (pp_env p) s \<longrightarrow>
     (s', s) \<in> lighter p \<or> weight p s' = weight p s)"

lemma advances_settles: "advances p s (Inr d) s' \<Longrightarrow> settles p s (Inr x) s'"
  by (auto simp: advances_def settles_def)

lemma settles_raise [intro]: "evolves p s s' \<Longrightarrow> settles p s (Inl e) s'"
  by (simp add: settles_def)

lemma settles_failed: "evolves p s s' \<Longrightarrow> es_phase s' = P_FAILED \<Longrightarrow> settles p s (Inr x) s'"
  by (auto simp: settles_def acting_running intro: lighter_failed)

lemma active_fingerprint:
  assumes g: "good env s" and a: "active_record s result = Some c"
  shows "is_tool_argument_fingerprint (ac_fingerprint c)"
proof -
  have c: "(tr_call_id result, c) \<in> set (es_active_tool_calls s)"
    using a by (auto simp: active_record_def dest: map_of_SomeD split: option.splits if_splits)
  have calls: "calls_ok s" using g by (simp add: good_def accepted_iff)
  then have "(tr_call_id result, c) \<in> set (normalize_active (es_active_tool_calls s))" using c by (simp add: calls_ok_def)
  then have "strip (ac_fingerprint c) = ac_fingerprint c"
    using normalize_active_normal [of "es_active_tool_calls s"] by (auto simp: normal_call_def)
  then show ?thesis using calls c by (fastforce simp: calls_ok_def)
qed

lemma view_unhashed [simp]:
  "dget (tool_failure_view recovery s result) ''arguments_fingerprint'' = None"
  "dget (tool_failure_view recovery s result) ''invocation_fingerprint'' = None"
  by (simp_all add: tool_failure_view_def Let_def)

lemma tool_failure_payload_ok:
  assumes laws: "policy_laws p" and g: "good (pp_env p) s"
    and run: "tool_failure_payload p recovery s result = Inr payload"
  shows "fingerprints_ok (Some payload)"
proof (cases "active_record s result")
  case None
  then have "payload = tool_failure_view recovery s result" using run by (simp add: tool_failure_payload_def Let_def)
  then show ?thesis by (simp add: fingerprints_ok_iff hashed_field_def present_def)
next
  case (Some c)
  have prints: "pp_fingerprint p x = Inr f \<Longrightarrow> is_tool_argument_fingerprint f" for x f
    using laws by (auto simp: policy_laws_def prints_ok_def)
  have c: "is_tool_argument_fingerprint (ac_fingerprint c)" by (rule active_fingerprint [OF g Some])
  obtain f where payload: "payload = tool_failure_view recovery s result @ [(''arguments_fingerprint'', PStr (ac_fingerprint c)),
      (''invocation_fingerprint'', PStr f)]" and f: "is_tool_argument_fingerprint f"
    using run Some c prints
    by (cases "tr_invocation_arguments result") (auto simp: tool_failure_payload_def Let_def bindR_Inr_iff)
  show ?thesis using c f by (simp add: payload fingerprints_ok_iff hashed_field_def present_def map_add_def)
qed

lemma fingerprints_append:
  "fingerprints_ok (Some d) \<Longrightarrow> \<forall>k \<in> {''arguments_fingerprint'', ''invocation_fingerprint''}. dget counts k = None \<Longrightarrow>
     fingerprints_ok (Some (d @ counts))"
proof -
  have "dget counts k = None \<Longrightarrow> hashed_field (Some (d @ counts)) k = hashed_field (Some d) k" for k
    by (cases "dget d k") (simp_all add: hashed_field_def present_def map_add_def)
  then show "fingerprints_ok (Some d) \<Longrightarrow> \<forall>k \<in> {''arguments_fingerprint'', ''invocation_fingerprint''}. dget counts k = None \<Longrightarrow>
     fingerprints_ok (Some (d @ counts))" by (simp add: fingerprints_ok_iff)
qed

lemma good_counts:
  "good env t \<Longrightarrow> list_all (\<lambda>(i, n). 0 \<le> n) c \<Longrightarrow> good env (t\<lparr>es_tool_repair_counts := c\<rparr>)"
  "good env t \<Longrightarrow> 0 \<le> n \<Longrightarrow> good env (t\<lparr>es_total_tool_repairs := n\<rparr>)"
  by (simp_all add: good_def accepted_iff counts_ok_def calls_ok_def current_ok_def final_ok_def cong: option.case_cong)

lemma evolves_counts [intro!]:
  "evolves p s t \<Longrightarrow> (good (pp_env p) s \<Longrightarrow> 0 \<le> n) \<Longrightarrow> evolves p s (t\<lparr>es_tool_repair_counts := dset i n (es_tool_repair_counts s)\<rparr>)"
  "evolves p s t \<Longrightarrow> evolves p s (t\<lparr>es_total_tool_repairs := es_total_tool_repairs s + 1\<rparr>)"
proof -
  have counts: "counts_ok s" if "good (pp_env p) s" using that by (simp add: good_def accepted_iff)
  have updated: "list_all (\<lambda>(i, n). 0 \<le> n) (dset i n (es_tool_repair_counts s))" if "counts_ok s" "0 \<le> n"
    using that set_dset_subset [of i n "es_tool_repair_counts s"] unfolding counts_ok_def list_all_iff by fast
  show "evolves p s t \<Longrightarrow> (good (pp_env p) s \<Longrightarrow> 0 \<le> n) \<Longrightarrow>
      evolves p s (t\<lparr>es_tool_repair_counts := dset i n (es_tool_repair_counts s)\<rparr>)"
    using good_counts(1) updated counts by (simp add: evolves_def)
  show "evolves p s t \<Longrightarrow> evolves p s (t\<lparr>es_total_tool_repairs := es_total_tool_repairs s + 1\<rparr>)"
    using good_counts(2) [of "pp_env p" t "es_total_tool_repairs s + 1"] counts by (simp add: evolves_def counts_ok_def)
qed

lemma repair_count_nonneg: "good env s \<Longrightarrow> 0 \<le> dget_or (es_tool_repair_counts s) i 0"
  by (auto simp: good_def accepted_iff counts_ok_def list_all_iff split: option.split dest: map_of_SomeD)

lemma schedule_tool_repair_leads:
  assumes laws: "policy_laws p" and can: "can_repair_tool_failure p recovery s result"
  shows "leads s (schedule_tool_repair p recovery s result) (advances p s)"
proof -
  obtain step where step: "current_step s = Some step" using can by (auto simp: can_repair_tool_failure_def)
  let ?n = "dget_or (es_tool_repair_counts s) (ps_step_id step) 0 + 1"
  have count: "?n - 1 < pp_max_tool_repair_attempts p"
    using can step by (simp add: can_repair_tool_failure_def step_repair_count_def)
  have scheduled: "advances p s (Inr (decision env s' DK_RETRY_TOOL e x)) s'"
    if payload: "tool_failure_payload p recovery s result = Inr payload"
      and s': "s' = s\<lparr>es_tool_repair_counts := dset (ps_step_id step) ?n (es_tool_repair_counts s),
         es_total_tool_repairs := es_total_tool_repairs s + 1, es_pending_tool_failure := Some payload,
         es_failure := None, es_active_tool_calls := [], es_pending_step_result := None,
         es_validation_error := v, es_awaiting_step_result := False, es_phase := P_ACT\<rparr>" for env e x s' payload v
  proof -
    have ok: "good (pp_env p) s \<Longrightarrow> fingerprints_ok (Some payload)" using tool_failure_payload_ok [OF laws _ payload] .
    have nonneg: "good (pp_env p) s \<Longrightarrow> 0 \<le> ?n" using repair_count_nonneg [of "pp_env p" s "ps_step_id step"] by simp
    have "evolves p s s'" unfolding s' using ok nonneg by (intro evolves_update evolves_counts state_evolves_refl) auto
    moreover have "current_step s' = current_step s" by (simp add: s' current_step_def cong: option.case_cong)
    then have "step_repair_count p s' = step_repair_count p s + 1" "current_attempts s' = current_attempts s"
      using step by (simp_all add: step_repair_count_def current_attempts_def s' dget_dset)
    then have "(s', s) \<in> lighter p" if "acting s"
      using that count step acting_running [OF that]
      by (intro lighter_repair) (auto simp: same_epoch_def s' step_repair_count_def)
    ultimately show ?thesis by (simp add: advances_def)
  qed
  show ?thesis
    unfolding schedule_tool_repair_def step option.case Let_def
    by (auto intro!: leads_ofR leads_settle advances_raise scheduled)
qed

lemma policy_observe_leads:
  assumes laws: "policy_laws p"
  shows "leads s (policy_observe p results) (settles p s)"
proof -
  have success: "settles p s (Inr x) (s\<lparr>es_pending_tool_failure := None, es_failure := None, es_validation_error := None,
      es_active_tool_calls := [], es_awaiting_step_result := True\<rparr>)" for x
  proof -
    let ?s = "s\<lparr>es_pending_tool_failure := None, es_failure := None, es_validation_error := None,
      es_active_tool_calls := [], es_awaiting_step_result := True\<rparr>"
    have "evolves p s ?s" by auto
    moreover have "(?s, s) \<in> lighter p \<or> weight p ?s = weight p s"
      by (auto simp: lighter_def weight_def current_attempts_def step_repair_count_def current_step_def cong: option.case_cong)
    ultimately show ?thesis by (simp add: settles_def)
  qed
  have wrap: "leads t (bindP m (\<lambda>d. ret (Some d))) (settles p s)" if "leads t m (advances p s)" for m t
    by (rule leads_bind [OF that]) (auto intro!: leads_ret simp: advances_def settles_def)
  have configured: "leads s (bindP (put_state s1) (\<lambda>_. bindP (fallback_tool_failure p s1 reason fallback) (\<lambda>d. ret (Some d))))
      (settles p s)" if s1: "evolves p s s1" "weight p s1 = weight p s" "es_phase s1 = es_phase s" for s1 reason fallback
    by (rule leads_put, rule wrap, rule leads_weaken [OF fallback_tool_failure_leads [OF laws] advances_from [OF s1]])
  have plain: "leads s (bindP (put_state (s\<lparr>es_active_tool_calls := []\<rparr>)) (\<lambda>_.
      if \<not> pp_revise_on_tool_failure p
      then bindP (sync (pp_env p) (failed_state (s\<lparr>es_active_tool_calls := [], es_validation_error := v\<rparr>))) (\<lambda>_. ret None)
      else if pp_max_replans p \<le> es_replan_count (s\<lparr>es_active_tool_calls := []\<rparr>)
      then bindP (sync (pp_env p) (failed_state (s\<lparr>es_active_tool_calls := [], es_validation_error := u\<rparr>))) (\<lambda>_. ret None)
      else bindP (apply_replan p (s\<lparr>es_active_tool_calls := []\<rparr>) feedback) (\<lambda>_. ret (None :: execution_decision option))))
      (settles p s)" for v u feedback
  proof -
    let ?s1 = "s\<lparr>es_active_tool_calls := []\<rparr>"
    have e: "evolves p s ?s1" by auto
    show ?thesis
    proof (cases "pp_revise_on_tool_failure p \<and> \<not> pp_max_replans p \<le> es_replan_count ?s1")
      case True
      then have count: "es_replan_count ?s1 < pp_max_replans p" by simp
      have "leads ?s1 (bindP (apply_replan p ?s1 feedback) (\<lambda>_. ret None)) (settles p s)"
      proof (rule leads_bind [OF apply_replan_leads [OF laws count]])
        fix x s' assume s': "evolves p ?s1 s' \<and> (\<forall>y. Inr x = Inr y \<longrightarrow> y = s' \<and>
            es_replan_count s' = es_replan_count ?s1 + 1)"
        then have "running s \<Longrightarrow> (s', s) \<in> lighter p" using count by (intro lighter_replan) auto
        then show "leads s' (ret None) (settles p s)"
          using s' state_evolves_trans [OF e] by (auto intro!: leads_ret simp: settles_def acting_running)
      qed (auto intro: state_evolves_trans [OF e])
      then show ?thesis using True by (intro leads_put) simp
    qed (auto intro!: leads_put leads_sync leads_ret settles_failed)
  qed
  show ?thesis
  proof (cases "filter (\<lambda>r. \<not> tr_success r) results = []")
    case True
    then show ?thesis
      unfolding policy_observe_def Let_def by (intro leads_state) (auto intro!: leads_sync leads_ret success)
  next
    case failures: False
    show ?thesis
    proof (cases "pp_recovery p")
      case None
      then show ?thesis
        unfolding policy_observe_def Let_def
        by (intro leads_state) (simp only: None failures option.case if_False, rule plain)
    next
      case (Some recovery)
      then show ?thesis
        unfolding policy_observe_def Let_def
        by (intro leads_state)
          (auto simp: failures intro!: wrap schedule_tool_repair_leads [OF laws] leads_ofR settles_raise configured
            fingerprints_append intro: tool_failure_payload_ok [OF laws] split: prod.split)
    qed
  qed
qed

subsection \<open>Runs of the policy\<close>

datatype policy_command = PC_Begin | PC_Prepare bool | PC_Decide model_response | PC_Validate
  | PC_Observe "tool_result list" | PC_Begin_Finalization | PC_Record_Final string bool bool

fun policy_op :: "'w plan_policy \<Rightarrow> policy_command \<Rightarrow> ('w run_context, unit) prog" where
  "policy_op p PC_Begin = begin_run p"
| "policy_op p (PC_Prepare has_tools) = bindP (prepare_step p has_tools) (\<lambda>_. ret ())"
| "policy_op p (PC_Decide response) = bindP (policy_decide p response) (\<lambda>_. ret ())"
| "policy_op p PC_Validate = bindP (validate_pending p) (\<lambda>_. ret ())"
| "policy_op p (PC_Observe results) = bindP (policy_observe p results) (\<lambda>_. ret ())"
| "policy_op p PC_Begin_Finalization = bindP (policy_begin_finalization p) (\<lambda>_. ret ())"
| "policy_op p (PC_Record_Final response persisted emitted) =
     bindP (policy_record_final_response p response persisted emitted) (\<lambda>_. ret ())"

text \<open>Whatever an operation raises is caught by the caller, which goes on with the context it left.\<close>

definition policy_run :: "'w plan_policy \<Rightarrow> policy_command list \<Rightarrow> 'w run_context \<Rightarrow> 'w run_context" where
  "policy_run p commands r = fold (\<lambda>c r. snd (policy_op p c r)) commands r"

lemma prepare_step_leads: "leads s (prepare_step p has_tools) (\<lambda>out s'. evolves p s s' \<and>
    (\<forall>x. out = Inr x \<longrightarrow> s' = snd (prepare_current_step has_tools s)))"
  unfolding prepare_step_def using evolves_prepare [of p s has_tools]
  by (auto intro!: leads_state leads_clear leads_put leads_raise leads_sync leads_ret split: prod.split sum.split)

lemma finalization_leads:
  "leads s (policy_begin_finalization p) (\<lambda>out s'. evolves p s s')"
  "leads s (policy_record_final_response p response persisted emitted) (\<lambda>out s'. evolves p s s')"
  unfolding policy_begin_finalization_def policy_record_final_response_def
  using evolves_small(3) [of p s] evolves_small(4) [of p s response persisted emitted]
  by (auto intro!: leads_state leads_put leads_raise leads_sync leads_ret split: prod.split sum.split)

lemma leads_unit: "leads s m (\<lambda>out s'. evolves p s s') \<Longrightarrow> leads s (bindP m (\<lambda>_. ret ())) (\<lambda>out s'. evolves p s s')"
  by (rule leads_bind [where P = "\<lambda>out s'. evolves p s s'"]) (auto intro!: leads_ret)

lemma policy_op_leads:
  assumes laws: "policy_laws p"
  shows "leads s (policy_op p c) (\<lambda>out s'. evolves p s s')"
proof (cases c)
  case PC_Begin
  then show ?thesis by (auto simp: leads_def begin_run_def sync_def modifyP_def)
next
  case (PC_Prepare has_tools)
  then show ?thesis by (auto intro!: leads_unit leads_weaken [OF prepare_step_leads])
next
  case (PC_Decide response)
  then show ?thesis by (auto intro!: leads_unit leads_weaken [OF policy_decide_leads [OF laws]])
next
  case PC_Validate
  then show ?thesis by (auto intro!: leads_unit leads_weaken [OF validate_pending_leads [OF laws]] simp: advances_def)
next
  case (PC_Observe results)
  then show ?thesis by (auto intro!: leads_unit leads_weaken [OF policy_observe_leads [OF laws]] simp: settles_def)
qed (auto intro!: leads_unit finalization_leads)

text \<open>A context without a state in memory: the state is loaded or made, or there is none afterwards either.\<close>

definition stored :: "'w plan_policy \<Rightarrow> execution_state option \<Rightarrow> bool" where
  "stored p x \<longleftrightarrow> (case x of None \<Rightarrow> True | Some s \<Rightarrow> good (pp_env p) s)"

lemma entry:
  assumes laws: "policy_laws p" and none: "cx_execution_state r = None"
    and leads: "\<And>s. good (pp_env p) s \<Longrightarrow> leads s (bindP (run_state (pp_env p)) f) (\<lambda>out s'. evolves p s s')"
  shows "stored p (cx_execution_state (snd (bindP (run_state (pp_env p)) f r)))"
proof (cases "run_state (pp_env p) r")
  case (Pair out r1)
  show ?thesis
  proof (cases out)
    case (Inl e)
    then show ?thesis using Pair none by (auto simp: bindP_run stored_def run_state_def split: option.splits pyval.splits sum.splits)
  next
    case (Inr s)
    then have r1: "r1 = r\<lparr>cx_execution_state := Some s\<rparr>" "good (pp_env p) s"
      using Pair none loaded_execution by (auto simp: run_state_def good_def split: option.splits pyval.splits sum.splits)
    then have "bindP (run_state (pp_env p)) f r = bindP (run_state (pp_env p)) f r1"
      using Pair Inr by (simp add: bindP_run run_state_def)
    moreover obtain s' where "cx_execution_state (snd (bindP (run_state (pp_env p)) f r1)) = Some s'" "evolves p s s'"
      using leads [OF r1(2), unfolded leads_def, rule_format, of r1] r1(1) by auto
    ultimately show ?thesis using r1(2) by (simp add: evolves_def stored_def)
  qed
qed

lemma begin_run_stored:
  assumes laws: "policy_laws p" and none: "cx_execution_state r = None"
  shows "stored p (cx_execution_state (snd (begin_run p r)))"
proof -
  let ?ref = "step_result_ref (ce_digest (pp_env p))"
  let ?source = "case dget (cx_policy_state r) ''execution_state'' of
     Some (PDict d) \<Rightarrow> ofR (execution_from_dict (pp_env p) (PDict d)) | _ \<Rightarrow> create_state p"
  have kept: "cx_execution_state (snd (capture_policy_exception p e info r')) = cx_execution_state r'" for e info r'
    by (auto simp: capture_policy_exception_def bindP_run in_world_def modifyP_def ret_def split: prod.split option.split)
  have loaded: "execution_from_dict (pp_env p) v = Inr s \<Longrightarrow> good (pp_env p) s" for v s
    using loaded_execution by (simp add: good_def)
  have made: "good (pp_env p) s" if "pp_create p w = (Inr pl, w')" and "ExecutionState ?ref (initial_execution pl) = Inr s"
    for w w' pl s
  proof -
    have "plan_wf pl" "list_all (step_wf (ce_hash (pp_env p))) (pl_steps pl)" using laws that(1) by (auto simp: policy_laws_def)
    then show ?thesis using execution_again [OF _ that(2)] by (simp add: good_def initial_execution_def)
  qed
  have created: "create_state p r = (out, r1) \<Longrightarrow> cx_execution_state r1 = None \<and> (\<forall>s. out = Inr s \<longrightarrow> good (pp_env p) s)" for out r1
  proof -
    assume run: "create_state p r = (out, r1)"
    obtain plan_made w where create: "pp_create p (cx_world r) = (plan_made, w)" by fastforce
    show ?thesis
    proof (cases plan_made)
      case (Inl e)
      then show ?thesis
        using run create none kept [of e _ "r\<lparr>cx_world := w\<rparr>"]
        by (auto simp: create_state_def bindP_run in_world_def raise_def split: prod.splits sum.splits if_splits)
          (metis snd_conv)+
    next
      case (Inr pl)
      then show ?thesis
        using run create none made [of "cx_world r" pl w]
        by (auto simp: create_state_def bindP_run in_world_def ofR_def)
    qed
  qed
  obtain out r1 where run: "?source r = (out, r1)" by fastforce
  then have "cx_execution_state r1 = None \<and> (\<forall>s. out = Inr s \<longrightarrow> good (pp_env p) s)"
    using created loaded none by (auto simp: ofR_def split: option.splits pyval.splits)
  then show ?thesis
    using run none by (cases out) (auto simp: begin_run_def bindP_run put_state_def sync_def modifyP_def stored_def)
qed

lemma policy_op_stored:
  assumes laws: "policy_laws p" and r: "stored p (cx_execution_state r)"
  shows "stored p (cx_execution_state (snd (policy_op p c r)))"
proof (cases "cx_execution_state r")
  case (Some s)
  then show ?thesis using policy_op_leads [OF laws, of s c] r by (auto simp: leads_def evolves_def stored_def)
next
  case None
  show ?thesis
  proof (cases "c = PC_Begin")
    case True
    then show ?thesis using begin_run_stored [OF laws None] by simp
  next
    case False
    then obtain f where f: "policy_op p c = bindP (run_state (pp_env p)) f"
      by (cases c) (auto simp: prepare_step_def policy_decide_def validate_pending_def policy_observe_def
        policy_begin_finalization_def policy_record_final_response_def bindP_assoc)
    show ?thesis
      unfolding f by (rule entry [OF laws None]) (use policy_op_leads [OF laws, of _ c] f in simp)
  qed
qed

lemma policy_run_simps [simp]:
  "policy_run p [] r = r"
  "policy_run p (c # cs) r = policy_run p cs (snd (policy_op p c r))"
  by (simp_all add: policy_run_def)

lemma policy_run_stored:
  "policy_laws p \<Longrightarrow> stored p (cx_execution_state r) \<Longrightarrow> stored p (cx_execution_state (policy_run p cs r))"
  by (induction cs arbitrary: r) (simp_all add: policy_op_stored)

lemma policy_run_evolves:
  assumes laws: "policy_laws p" and "cx_execution_state r = Some s"
  shows "\<exists>s'. cx_execution_state (policy_run p cs r) = Some s' \<and> evolves p s s'"
  using assms(2)
proof (induction cs arbitrary: r s)
  case (Cons c cs)
  obtain s1 where s1: "cx_execution_state (snd (policy_op p c r)) = Some s1" "evolves p s s1"
    using policy_op_leads [OF laws, of s c] Cons.prems by (auto simp: leads_def)
  then show ?case using Cons.IH [OF s1(1)] state_evolves_trans [OF s1(2)] by auto
qed simp

text \<open>
  C18.  Whatever the policy does, the run can be reloaded: started without a state or with one that its own
  constructor accepts, any sequence of the policy's operations, with every exception caught, leaves
  a state that the constructor accepts unchanged, with a plan of well-formed steps, however the model, the
  Tools, the validator and the plan generator behave.
\<close>

theorem policy_states_reload:
  assumes "policy_laws p"
    and "\<And>s. cx_execution_state r = Some s \<Longrightarrow> good (pp_env p) s"
    and "cx_execution_state (policy_run p commands r) = Some s'"
  shows "ExecutionState (step_result_ref (ce_digest (pp_env p))) s' = Inr s' \<and>
    plan_from_dict (ce_hash (pp_env p)) (ce_text_of (pp_env p)) (ce_int_of (pp_env p)) (plan_to_dict (es_plan s')) = Inr (es_plan s')"
proof -
  have "stored p (cx_execution_state r)" using assms(2) by (simp add: stored_def split: option.split)
  then have "good (pp_env p) s'" using policy_run_stored [OF assms(1)] assms(3) by (metis option.case(2) stored_def)
  then show ?thesis
    using assms(1) by (auto simp: good_def accepted_def policy_laws_def intro!: plan_dict)
qed

text \<open>
  C19.  Replanning never loses work and is bounded: over any sequence of the policy's operations, from any state
  that its constructor accepts, every committed result stays what it was, with its completed step in the current plan; a Tool
  call ID once used stays used; the emission of the final answer is not forgotten; and the number of replans never decreases and
  never exceeds the configured maximum (nor what it already was), whether or not a step has been committed.
\<close>

theorem policy_keeps_work:
  assumes "policy_laws p" and "cx_execution_state r = Some s" and "good (pp_env p) s"
    and "cx_execution_state (policy_run p commands r) = Some s'"
  shows "(\<forall>i result. dget (es_committed_results s) i = Some result \<longrightarrow>
      dget (es_committed_results s') i = Some result \<and>
      (\<exists>st \<in> set (pl_steps (es_plan s')). ps_step_id st = i \<and> ps_status st = COMPLETED \<and>
         ps_result_ref st = Some (step_result_ref (ce_digest (pp_env p)) result))) \<and>
    set (es_seen_tool_call_ids s) \<subseteq> set (es_seen_tool_call_ids s') \<and>
    (es_final_emitted s \<longrightarrow> es_final_emitted s') \<and>
    es_replan_count s \<le> es_replan_count s' \<and> es_replan_count s' \<le> max (es_replan_count s) (pp_max_replans p)"
proof -
  have e: "evolves p s s'" using policy_run_evolves [OF assms(1,2), of commands] assms(4) by auto
  have results: "results_ok (step_result_ref (ce_digest (pp_env p))) (es_plan s') (es_committed_results s')"
    using e assms(3) by (auto simp: evolves_def good_def accepted_iff)
  have "dget (es_committed_results s') i = Some result \<and>
      (\<exists>st \<in> set (pl_steps (es_plan s')). ps_step_id st = i \<and> ps_status st = COMPLETED \<and>
         ps_result_ref st = Some (step_result_ref (ce_digest (pp_env p)) result))"
    if "dget (es_committed_results s) i = Some result" for i result
  proof -
    have kept: "dget (es_committed_results s') i = Some result" using e assms(3) that by (simp add: evolves_def)
    then show ?thesis using results map_of_SomeD [OF kept] by (auto simp: results_ok_def)
  qed
  then show ?thesis using e assms(3) by (auto simp: evolves_def)
qed

end
