(* ===== verification/Plan_Policy_Runs.thy ===== *)
theory Plan_Policy_Runs
  imports Plan_Policy_Props
begin

text \<open>
  Runs of the strict plan policy: they end, and the Tool calls it lets through are new, known by their
  arguments, and after a failure exactly the one call that repairs it.
\<close>

subsection \<open>Termination\<close>

text \<open>
  One turn of a plan run: the step is prepared, its pending result is validated again, or the model is asked
  and, when it calls Tools, their results are observed.  An exception ends the run.
\<close>

inductive plan_turn :: "'w plan_policy \<Rightarrow> 'w run_context \<Rightarrow> 'w run_context \<Rightarrow> bool" for p where
  prepared: "cx_execution_state r = Some s \<Longrightarrow> es_phase s = P_STEP_PREPARE \<Longrightarrow>
    prepare_step p has_tools r = (Inr x, r') \<Longrightarrow> plan_turn p r r'"
| validated: "cx_execution_state r = Some s \<Longrightarrow> es_phase s = P_STEP_VALIDATE \<Longrightarrow>
    validate_pending p r = (Inr d, r') \<Longrightarrow> plan_turn p r r'"
| decided: "cx_execution_state r = Some s \<Longrightarrow> es_phase s = P_ACT \<Longrightarrow>
    policy_decide p response r = (Inr d, r') \<Longrightarrow> dn_kind d \<noteq> DK_CALL_TOOLS \<Longrightarrow> plan_turn p r r'"
| observed: "cx_execution_state r = Some s \<Longrightarrow> es_phase s = P_ACT \<Longrightarrow>
    policy_decide p response r = (Inr d, r1) \<Longrightarrow> dn_kind d = DK_CALL_TOOLS \<Longrightarrow>
    policy_observe p results r1 = (Inr x, r') \<Longrightarrow> plan_turn p r r'"

lemma leadsD: "leads s m Q \<Longrightarrow> cx_execution_state r = Some s \<Longrightarrow> m r = (out, r') \<Longrightarrow>
    \<exists>s'. cx_execution_state r' = Some s' \<and> Q out s'"
  unfolding leads_def by (metis fst_conv snd_conv)

lemma prepare_lighter:
  assumes g: "good env s" and "es_phase s = P_STEP_PREPARE"
  shows "(snd (prepare_current_step has_tools s), s) \<in> lighter p"
proof -
  have wf: "plan_wf (es_plan s)" using g by (simp add: good_def accepted_iff)
  obtain step q where run: "start_current (es_plan s) = (Inr step, q)"
    using start_current_step [OF wf] by (metis prod.collapse)
  then have "open_steps q = open_steps (es_plan s)" using start_current_parts(1) [OF wf] by simp
  then show ?thesis
    using run assms(2) by (simp add: prepare_current_step_def lighter_def weight_def)
qed

subsection \<open>Tool calls\<close>

text \<open>Most operations never let Tool calls through, and no operation decides to finalize.\<close>

definition no_calls :: "'x \<Rightarrow> execution_decision res \<Rightarrow> 'y \<Rightarrow> bool" where
  "no_calls p out s' \<longleftrightarrow> (\<forall>d. out = Inr d \<longrightarrow> dn_kind d \<notin> {DK_CALL_TOOLS, DK_FINALIZE})"

lemma no_calls_simps [simp]:
  "no_calls p (Inl e) s'" "no_calls p (Inr d) s' \<longleftrightarrow> dn_kind d \<notin> {DK_CALL_TOOLS, DK_FINALIZE}"
  by (simp_all add: no_calls_def)

lemma retries_no_calls:
  "leads s (retry_invalid_result p s reason code1 location) (no_calls p)"
  "leads s (retry_validation p s v) (no_calls p)"
  unfolding retry_invalid_result_def retry_validation_def Let_def
  by (auto intro!: leads_ofR leads_settle split: option.split)

lemma apply_replan_any: "leads s (apply_replan p s feedback) (\<lambda>out s'. True)"
  unfolding apply_replan_def Let_def
  by (auto intro!: leads_world leads_ofR leads_raise leads_capture leads_sync leads_ret split: sum.split)

lemma replan_no_calls:
  "leads s (replan p s feedback) (\<lambda>out s'. \<forall>s2 d. out = Inr (s2, d) \<longrightarrow> dn_kind d \<notin> {DK_CALL_TOOLS, DK_FINALIZE})"
  unfolding replan_def Let_def settle_def bindP_assoc
  by (auto intro!: leads_sync leads_ret leads_bind [OF apply_replan_any])

lemma fallback_no_calls: "leads s (fallback_tool_failure p s reason fallback) (no_calls p)"
  unfolding fallback_tool_failure_def Let_def
  by (auto intro!: leads_put leads_settle leads_raise leads_ret leads_bind [OF replan_no_calls] split: option.split)

lemma validate_no_calls: "leads s (validate_pending p) (no_calls p)"
  unfolding validate_pending_def Let_def
  by (auto intro!: leads_state leads_world leads_put leads_clear leads_settle leads_raise leads_ret leads_capture
      retries_no_calls leads_bind [OF replan_no_calls]
      split: bool.split option.split sum.split prod.split validation_kind.split)

lemma step_result_no_calls: "leads s (decide_step_result p s response) (no_calls p)"
  unfolding decide_step_result_def Let_def
  by (auto intro!: leads_settle leads_raise leads_put validate_no_calls split: sum.split exn.split option.split prod.split)

definition admitted :: "'w plan_policy \<Rightarrow> execution_state \<Rightarrow> model_response \<Rightarrow> execution_decision \<Rightarrow> execution_state \<Rightarrow> bool" where
  "admitted p s response d s' \<longleftrightarrow> es_phase s = P_ACT \<and> \<not> es_awaiting_step_result s \<and>
     mr_tool_calls response \<noteq> [] \<and> dn_tool_calls d = mr_tool_calls response \<and>
     (\<exists>records. tool_call_records p s (mr_tool_calls response) = Inr (Inl records) \<and>
        s' = s\<lparr>es_active_tool_calls := records, es_seen_tool_call_ids := es_seen_tool_call_ids s @ map fst records,
          es_awaiting_step_result := True\<rparr> \<and>
        (\<forall>pending. es_pending_tool_failure s = Some pending \<longrightarrow>
           repair_tool_call_error (pp_env p) pending (mr_tool_calls response) records = None))"

definition admits :: "'w plan_policy \<Rightarrow> execution_state \<Rightarrow> model_response \<Rightarrow> execution_decision res \<Rightarrow> execution_state \<Rightarrow> bool" where
  "admits p s response out s' \<longleftrightarrow> (\<forall>d. out = Inr d \<longrightarrow> dn_kind d \<noteq> DK_FINALIZE \<and>
     (dn_kind d = DK_CALL_TOOLS \<longrightarrow> admitted p s response d s'))"

lemma admits_other: "no_calls q out s' \<Longrightarrow> admits p s response out s'"
  by (auto simp: no_calls_def admits_def)

lemma admits_simps [simp]:
  "admits p s response (Inl e) s'"
  "dn_kind d \<notin> {DK_CALL_TOOLS, DK_FINALIZE} \<Longrightarrow> admits p s response (Inr d) s'"
  by (simp_all add: admits_def)

lemma accept_admits:
  assumes "tool_call_records p s (mr_tool_calls response) = Inr (Inl records)" and "mr_tool_calls response \<noteq> []"
    and "\<not> es_awaiting_step_result s"
    and "\<And>pending. es_pending_tool_failure s = Some pending \<Longrightarrow>
       repair_tool_call_error (pp_env p) pending (mr_tool_calls response) records = None"
  shows "leads s (accept_tool_calls p s (mr_tool_calls response) records) (admits p s response)"
  unfolding accept_tool_calls_def Let_def mark_tool_round_complete_def
  using assms by (auto intro!: leads_put leads_raise leads_sync leads_ret simp: admits_def admitted_def)

lemma decide_admits: "leads s (policy_decide p response) (admits p s response)"
proof -
  have other: "leads s m (admits p s response)" if "leads s m (no_calls p)" for m
    by (rule leads_weaken [OF that]) (rule admits_other)
  have calls: "leads s (decide_tool_calls p s (mr_tool_calls response)) (admits p s response)" if "mr_tool_calls response \<noteq> []"
    unfolding decide_tool_calls_def
    using that by (auto intro!: leads_settle leads_ofR accept_admits other [OF fallback_no_calls] other [OF retries_no_calls(1)]
        split: sum.split option.split)
  show ?thesis
    unfolding policy_decide_def Let_def
    by (rule leads_state) (auto intro!: calls other [OF fallback_no_calls] other [OF retries_no_calls(1)]
      other [OF step_result_no_calls] leads_settle [where s = s])
qed

lemma one_record:
  assumes "tool_call_records p s [call] = Inr (Inl [x])"
  shows "\<exists>f. pp_fingerprint p (tk_arguments call) = Inr f \<and> ac_fingerprint (snd x) = f \<and>
    strip (tk_id call) \<notin> set (es_seen_tool_call_ids s)"
  using assms
  by (auto simp: tool_call_records_def tool_call_record_def Let_def split: if_splits sum.splits exn.splits)

text \<open>
  C20.  Tool calls are let through only while the step still acts and no step result is awaited, and then all calls
  of the response together: their IDs are distinct and were never used in the run, each is on record
  with the fingerprint of its arguments, and from then on a step result is awaited.  While a Tool failure
  waits for its repair, the only response let through is a single call of the same Tool with another
  ID and other arguments than the failed call.
\<close>

theorem admitted_tool_calls:
  assumes laws: "policy_laws p" and s: "cx_execution_state r = Some s"
    and run: "policy_decide p response r = (Inr d, r')" and kind: "dn_kind d = DK_CALL_TOOLS"
  shows "es_phase s = P_ACT \<and> \<not> es_awaiting_step_result s \<and> dn_tool_calls d = mr_tool_calls response \<and>
    (\<exists>s'. cx_execution_state r' = Some s' \<and> es_awaiting_step_result s' \<and>
       length (es_active_tool_calls s') = length (mr_tool_calls response) \<and> dwf (es_active_tool_calls s') \<and>
       es_seen_tool_call_ids s' = es_seen_tool_call_ids s @ map fst (es_active_tool_calls s') \<and>
       set (map fst (es_active_tool_calls s')) \<inter> set (es_seen_tool_call_ids s) = {} \<and>
       (\<forall>(i, c) \<in> set (es_active_tool_calls s'). is_tool_argument_fingerprint (ac_fingerprint c))) \<and>
    (\<forall>pending. es_pending_tool_failure s = Some pending \<longrightarrow> (\<exists>call f.
       mr_tool_calls response = [call] \<and> pp_fingerprint p (tk_arguments call) = Inr f \<and>
       tk_name call = ce_text_of (pp_env p) (dget_or pending ''tool_name'' (PStr [])) \<and>
       tk_id call \<noteq> ce_text_of (pp_env p) (dget_or pending ''call_id'' (PStr [])) \<and>
       f \<noteq> ce_text_of (pp_env p) (dget_or pending ''arguments_fingerprint'' (PStr []))))"
proof -
  obtain s' where s': "cx_execution_state r' = Some s'" "admitted p s response d s'"
    using leadsD [OF decide_admits s run] kind by (auto simp: admits_def)
  then obtain records where records: "tool_call_records p s (mr_tool_calls response) = Inr (Inl records)"
      "s' = s\<lparr>es_active_tool_calls := records, es_seen_tool_call_ids := es_seen_tool_call_ids s @ map fst records,
          es_awaiting_step_result := True\<rparr>"
      "\<And>pending. es_pending_tool_failure s = Some pending \<Longrightarrow>
        repair_tool_call_error (pp_env p) pending (mr_tool_calls response) records = None"
    by (auto simp: admitted_def)
  have ok: "records_ok s records" "length records = length (mr_tool_calls response)"
    using tool_call_records_ok [OF _ records(1)] laws by (auto simp: policy_laws_def)
  have repair: "\<exists>call f. mr_tool_calls response = [call] \<and> pp_fingerprint p (tk_arguments call) = Inr f \<and>
       tk_name call = ce_text_of (pp_env p) (dget_or pending ''tool_name'' (PStr [])) \<and>
       tk_id call \<noteq> ce_text_of (pp_env p) (dget_or pending ''call_id'' (PStr [])) \<and>
       f \<noteq> ce_text_of (pp_env p) (dget_or pending ''arguments_fingerprint'' (PStr []))"
    if pending: "es_pending_tool_failure s = Some pending" for pending
  proof -
    obtain call x where one: "mr_tool_calls response = [call]" "records = [x]"
      using records(3) [OF pending] by (auto simp: repair_tool_call_error_def split: list.splits prod.splits)
    then show ?thesis
      using records(3) [OF pending] one_record [of p s call x] records(1)
      by (auto simp: repair_tool_call_error_def Let_def split: prod.splits if_splits)
  qed
  show ?thesis using s' records(2) ok repair by (auto simp: admitted_def records_ok_def)
qed

subsection \<open>The end of a run\<close>

lemma turn_lighter:
  assumes laws: "policy_laws p" and s: "cx_execution_state r = Some s" and g: "good (pp_env p) s"
    and turn: "plan_turn p r r'"
  shows "\<exists>s'. cx_execution_state r' = Some s' \<and> good (pp_env p) s' \<and> (s', s) \<in> lighter p"
  using turn
proof (cases rule: plan_turn.cases)
  case (prepared s0 has_tools x)
  then show ?thesis
    using leadsD [OF prepare_step_leads s prepared(3)] prepare_lighter [OF g] s g by (auto simp: evolves_def)
next
  case (validated s0 d)
  then show ?thesis
    using leadsD [OF validate_pending_leads [OF laws] s validated(3)] s g
    by (auto simp: advances_def evolves_def acting_def)
next
  case (decided s0 response d)
  then show ?thesis
    using leadsD [OF policy_decide_leads [OF laws] s decided(3)] s g
    by (auto simp: advances_def evolves_def acting_def)
next
  case (observed s0 response d r1 results x)
  obtain s1 where s1: "cx_execution_state r1 = Some s1" "evolves p s s1" "advances p s (Inr d) s1"
    using leadsD [OF policy_decide_leads [OF laws] s observed(3)] observed(1,2) s by auto
  obtain s1' where "cx_execution_state r1 = Some s1'" "admitted p s response d s1'"
    using leadsD [OF decide_admits s observed(3)] observed(4) by (auto simp: admits_def)
  then have "es_phase s1 = P_ACT" using s1(1) by (auto simp: admitted_def)
  then have acting: "acting s1" "acting s" "good (pp_env p) s1"
    using s1(2) observed(1,2) s g by (auto simp: acting_def evolves_def)
  obtain s' where s': "cx_execution_state r' = Some s'" "settles p s1 (Inr x) s'"
    using leadsD [OF policy_observe_leads [OF laws] s1(1) observed(5)] by blast
  have "(s1, s) \<in> lighter p" using s1(3) acting g by (auto simp: advances_def)
  moreover have "(s', s1) \<in> lighter p \<or> weight p s' = weight p s1" using s'(2) acting by (auto simp: settles_def)
  ultimately have "(s', s) \<in> lighter p" using trans_lighter [of p] by (auto simp: lighter_def dest: transD)
  then show ?thesis using s' acting(3) by (auto simp: settles_def evolves_def)
qed

text \<open>
  C21.  A plan run ends: from a reloadable state there is no infinite sequence of turns, whatever the model
  answers, whatever the Tools return, however the validator and the plan generator decide.  The limits
  on attempts, replans and repairs are what makes it so: every turn that does not raise takes the run
  strictly closer to its end in a well-founded order.
\<close>

theorem plan_run_terminates:
  assumes "policy_laws p" and "cx_execution_state r = Some s" and "good (pp_env p) s"
  shows "\<nexists>f. f 0 = r \<and> (\<forall>n. plan_turn p (f n) (f (Suc n)))"
proof
  assume "\<exists>f. f 0 = r \<and> (\<forall>n. plan_turn p (f n) (f (Suc n)))"
  then obtain f where f: "f 0 = r" "\<And>n. plan_turn p (f n) (f (Suc n))" by blast
  define g where "g n = the (cx_execution_state (f n))" for n
  have states: "cx_execution_state (f n) = Some (g n) \<and> good (pp_env p) (g n)" for n
  proof (induction n)
    case 0
    then show ?case using assms(2,3) f(1) by (simp add: g_def)
  next
    case (Suc n)
    then obtain s' where "cx_execution_state (f (Suc n)) = Some s'" "good (pp_env p) s'"
      using turn_lighter [OF assms(1) _ _ f(2) [of n], of "g n"] by blast
    then show ?case by (simp add: g_def)
  qed
  have "(g (Suc n), g n) \<in> lighter p" for n
    using turn_lighter [OF assms(1) _ _ f(2) [of n], of "g n"] states [of n] states [of "Suc n"] by auto
  then show False using wf_lighter [of p] by (auto simp: wf_iff_no_infinite_down_chain)
qed

subsection \<open>A run\<close>

definition evidenced :: "string \<Rightarrow> step_result" where
  "evidenced i = (sample_result i)\<lparr>sr_completion_evidence := [i]\<rparr>"

definition sample_policy :: "unit plan_policy" where
  "sample_policy = \<lparr>pp_env = sample_env, pp_create = (\<lambda>w. (Inr sample_plan, w)), pp_revise = (\<lambda>_ _ w. (Inr sample_plan, w)),
     pp_validator = (\<lambda>step result w. (Inr (validate_step step result), w)), pp_capture = (\<lambda>_ _ w. (None, w)),
     pp_parse_result = (\<lambda>i. Inr (evidenced i)),
     pp_fingerprint = (\<lambda>a. Inr (''sha256:'' @ replicate 64 (if a = [] then CHR ''0'' else CHR ''1''))),
     pp_revise_on_tool_failure = False,
     pp_recovery = Some \<lparr>fr_fallback = FB_replan, fr_require_repair_safe = True, fr_safe_message = False\<rparr>,
     pp_step_attempts_override = None, pp_replans_override = None, pp_max_step_attempts = 2, pp_max_replans = 2,
     pp_max_tool_repair_attempts = 1, pp_available_tools = [''t'']\<rparr>"

definition sample_context :: "unit run_context" where
  "sample_context = \<lparr>cx_execution_state = None, cx_policy_state = [], cx_internal_messages = [],
     cx_primary_failure = None, cx_world = ()\<rparr>"

definition calling :: "string \<Rightarrow> (string, pyval) dict \<Rightarrow> model_response" where
  "calling i arguments = \<lparr>mr_content = None, mr_tool_calls = [\<lparr>tk_id = i, tk_name = ''t'', tk_arguments = arguments\<rparr>],
     mr_finish_reason = None\<rparr>"

definition answering :: "string \<Rightarrow> model_response" where
  "answering i = \<lparr>mr_content = Some i, mr_tool_calls = [], mr_finish_reason = None\<rparr>"

definition failed_result :: "string \<Rightarrow> tool_result" where
  "failed_result i = \<lparr>tr_call_id = i, tr_tool_name = ''t'', tr_success = False, tr_value = PNone,
     tr_error = Some \<lparr>te_type = INVALID_ARGUMENTS, te_message = ''m'', te_retryable = False, te_details = [],
       te_reason = None, te_recovery = Some REPAIR_CALL\<rparr>,
     tr_attempts = 1, tr_duration_seconds = 0, tr_invocation_arguments = None, tr_repair_safe = True\<rparr>"

definition after_failure :: "unit run_context" where
  "after_failure = policy_run sample_policy [PC_Begin, PC_Prepare True, PC_Decide (calling ''1'' []),
     PC_Observe [failed_result ''1'']] sample_context"

lemma sample_policy_laws: "policy_laws sample_policy"
proof -
  have "plan_wf sample_plan" using sample_plan_loads by (simp add: plan_wf_reloads sample_plan_def)
  moreover have "list_all (step_wf (ce_hash sample_env)) (pl_steps sample_plan)" by code_simp
  moreover have "is_tool_argument_fingerprint (''sha256:'' @ replicate 64 CHR ''0'')"
    "is_tool_argument_fingerprint (''sha256:'' @ replicate 64 CHR ''1'')" by code_simp+
  ultimately show ?thesis
    using sample_laws by (simp add: policy_laws_def prints_ok_def sample_policy_def)
qed

lemma after_failure_state:
  "\<exists>s. cx_execution_state after_failure = Some s \<and> es_phase s = P_ACT \<and> es_pending_tool_failure s \<noteq> None \<and>
     dget (es_tool_repair_counts s) ''a'' = Some 1"
proof -
  have "case cx_execution_state after_failure of None \<Rightarrow> False | Some s \<Rightarrow> es_phase s = P_ACT \<and>
      es_pending_tool_failure s \<noteq> None \<and> dget (es_tool_repair_counts s) ''a'' = Some 1" by code_simp
  then show ?thesis by (auto split: option.splits)
qed

lemma after_failure_good:
  assumes "cx_execution_state after_failure = Some s"
  shows "good sample_env s"
proof -
  have "stored sample_policy (cx_execution_state after_failure)"
    unfolding after_failure_def by (rule policy_run_stored [OF sample_policy_laws]) (simp add: stored_def sample_context_def)
  then show ?thesis using assms by (simp add: stored_def sample_policy_def)
qed

text \<open>The repaired call, the step result, and the commit of the first step.\<close>

definition repaired :: "policy_command list" where
  "repaired = [PC_Decide (calling ''2'' [(''x'', PNone)]),
     PC_Observe [failed_result ''2''\<lparr>tr_success := True, tr_error := None\<rparr>], PC_Decide (answering ''a'')]"

lemma repaired_commits:
  "map_option es_committed_results (cx_execution_state (policy_run sample_policy repaired after_failure)) =
     Some [(''a'', evidenced ''a'')]"
  by code_simp

theorem policy_states_reload_witness:
  "\<exists>s. cx_execution_state (policy_run sample_policy repaired after_failure) = Some s \<and>
     ExecutionState (step_result_ref sr_step_id) s = Inr s \<and> es_committed_results s = [(''a'', evidenced ''a'')]"
proof -
  obtain s where s: "cx_execution_state (policy_run sample_policy repaired after_failure) = Some s"
      "es_committed_results s = [(''a'', evidenced ''a'')]"
    using repaired_commits by auto
  have "pp_env sample_policy = sample_env" "ce_digest sample_env = sr_step_id"
    by (simp_all add: sample_policy_def sample_env_def)
  then show ?thesis
    using s policy_states_reload [OF sample_policy_laws _ s(1)] after_failure_good by simp
qed

text \<open>A run from its first state on, in which the only Tool call of the first step fails for good.\<close>

definition begun :: "unit run_context" where
  "begun = policy_run sample_policy [PC_Begin] sample_context"

definition failing :: "policy_command list" where
  "failing = [PC_Prepare True, PC_Decide (calling ''1'' []), PC_Observe [failed_result ''1''\<lparr>tr_repair_safe := False\<rparr>]]"

theorem policy_keeps_work_witness:
  "(\<exists>s. cx_execution_state (policy_run sample_policy failing begun) = Some s \<and> es_committed_results s = [] \<and>
      1 \<le> es_replan_count s \<and> es_replan_count s \<le> 2) \<and>
   (\<exists>s. cx_execution_state (policy_run sample_policy (repaired @ [PC_Prepare True, PC_Decide (calling ''3'' []),
       PC_Observe [failed_result ''3''\<lparr>tr_repair_safe := False\<rparr>]]) after_failure) = Some s \<and>
     es_replan_count s = 1 \<and> dget (es_committed_results s) ''a'' = Some (evidenced ''a''))"
proof (rule conjI, goal_cases)
  case 1
  have env: "pp_env sample_policy = sample_env" "pp_max_replans sample_policy = 2"
    by (simp_all add: sample_policy_def)
  have "case cx_execution_state begun of None \<Rightarrow> False | Some s \<Rightarrow> es_replan_count s = 0" by code_simp
  then obtain s where s: "cx_execution_state begun = Some s" "es_replan_count s = 0" by (auto split: option.splits)
  have "stored sample_policy (cx_execution_state begun)"
    unfolding begun_def by (rule policy_run_stored [OF sample_policy_laws]) (simp add: stored_def sample_context_def)
  then have g: "good (pp_env sample_policy) s" using s(1) by (simp add: stored_def)
  have "case cx_execution_state (policy_run sample_policy failing begun) of None \<Rightarrow> False
    | Some s \<Rightarrow> es_committed_results s = [] \<and> 1 \<le> es_replan_count s" by code_simp
  then obtain s' where s': "cx_execution_state (policy_run sample_policy failing begun) = Some s'"
      "es_committed_results s' = []" "1 \<le> es_replan_count s'" by (auto split: option.splits)
  show ?case using policy_keeps_work [OF sample_policy_laws s(1) g s'(1)] s s' by (simp add: env)
next
  case 2
  let ?more = "[PC_Prepare True, PC_Decide (calling ''3'' []), PC_Observe [failed_result ''3''\<lparr>tr_repair_safe := False\<rparr>]]"
  let ?r = "policy_run sample_policy repaired after_failure"
  obtain s where s: "cx_execution_state ?r = Some s" "es_committed_results s = [(''a'', evidenced ''a'')]"
    using repaired_commits by auto
  have env: "pp_env sample_policy = sample_env" by (simp add: sample_policy_def)
  have g: "good (pp_env sample_policy) s"
    using policy_run_stored [OF sample_policy_laws, of after_failure repaired] after_failure_good s(1)
    by (auto simp: stored_def env split: option.splits)
  have joined: "policy_run sample_policy (repaired @ ?more) after_failure = policy_run sample_policy ?more ?r"
    by (simp add: policy_run_def)
  have "map_option es_replan_count (cx_execution_state (policy_run sample_policy (repaired @ ?more) after_failure)) = Some 1"
    by code_simp
  then obtain s' where s': "cx_execution_state (policy_run sample_policy (repaired @ ?more) after_failure) = Some s'"
      "es_replan_count s' = 1" by auto
  have "dget (es_committed_results s) ''a'' = Some (evidenced ''a'')" using s(2) by simp
  then show ?case using policy_keeps_work [OF sample_policy_laws s(1) g s'(1) [unfolded joined]] s' by blast
qed

theorem admitted_tool_calls_witness:
  "\<exists>d r'. policy_decide sample_policy (calling ''2'' [(''x'', PNone)]) after_failure = (Inr d, r') \<and>
     dn_kind d = DK_CALL_TOOLS \<and> length (dn_tool_calls d) = 1"
proof -
  obtain s where s: "cx_execution_state after_failure = Some s" using after_failure_state by blast
  have "case fst (policy_decide sample_policy (calling ''2'' [(''x'', PNone)]) after_failure) of
      Inl e \<Rightarrow> False | Inr d \<Rightarrow> dn_kind d = DK_CALL_TOOLS" by code_simp
  then obtain d r' where run: "policy_decide sample_policy (calling ''2'' [(''x'', PNone)]) after_failure = (Inr d, r')"
      "dn_kind d = DK_CALL_TOOLS"
    by (cases "policy_decide sample_policy (calling ''2'' [(''x'', PNone)]) after_failure") (auto split: sum.splits)
  show ?thesis using admitted_tool_calls [OF sample_policy_laws s run] run by (auto simp: calling_def)
qed

theorem plan_run_terminates_witness:
  "\<nexists>f. f 0 = after_failure \<and> (\<forall>n. plan_turn sample_policy (f n) (f (Suc n)))"
proof -
  obtain s where s: "cx_execution_state after_failure = Some s" using after_failure_state by blast
  show ?thesis
    by (rule plan_run_terminates [OF sample_policy_laws s])
      (use after_failure_good [OF s] in \<open>simp add: sample_policy_def\<close>)
qed

end
