(* ===== verification/Plan_Policy_Frames.thy ===== *)
theory Plan_Policy_Frames
  imports Plan_Policy_Runs
begin

text \<open>
  What the operations of the strict plan policy leave alone: the final answer belongs to the two operations
  of the finalization, and an observed batch of Tool results stays in its step unless it replans or fails.
\<close>

subsection \<open>The final answer\<close>

definition es_marks :: "execution_state \<Rightarrow> string option \<times> bool \<times> bool" where
  "es_marks s = (es_final_response s, es_final_persisted s, es_final_emitted s)"

definition final_kept :: "execution_state \<Rightarrow> 'a res \<Rightarrow> execution_state \<Rightarrow> bool" where
  "final_kept s out s' \<longleftrightarrow> es_marks s' = es_marks s"

lemma marks_update [simp]:
  "es_marks (s\<lparr>es_phase := x1\<rparr>) = es_marks s"
  "es_marks (s\<lparr>es_plan := x2\<rparr>) = es_marks s"
  "es_marks (s\<lparr>es_current_step_id := x3\<rparr>) = es_marks s"
  "es_marks (s\<lparr>es_committed_results := x4\<rparr>) = es_marks s"
  "es_marks (s\<lparr>es_pending_step_result := x5\<rparr>) = es_marks s"
  "es_marks (s\<lparr>es_validation_error := x6\<rparr>) = es_marks s"
  "es_marks (s\<lparr>es_awaiting_step_result := x7\<rparr>) = es_marks s"
  "es_marks (s\<lparr>es_replan_count := x8\<rparr>) = es_marks s"
  "es_marks (s\<lparr>es_finalization_count := x9\<rparr>) = es_marks s"
  "es_marks (s\<lparr>es_tool_repair_counts := x10\<rparr>) = es_marks s"
  "es_marks (s\<lparr>es_pending_tool_failure := x11\<rparr>) = es_marks s"
  "es_marks (s\<lparr>es_total_tool_repairs := x12\<rparr>) = es_marks s"
  "es_marks (s\<lparr>es_failure := x13\<rparr>) = es_marks s"
  "es_marks (s\<lparr>es_active_tool_calls := x14\<rparr>) = es_marks s"
  "es_marks (s\<lparr>es_seen_tool_call_ids := x15\<rparr>) = es_marks s"
  by (simp_all add: es_marks_def)

lemma marks_transitions [simp]:
  "es_marks (failed_state s) = es_marks s"
  "es_marks (bump_attempt step s) = es_marks s"
  "es_marks (snd (prepare_current_step has_tools s)) = es_marks s"
  "es_marks (snd (set_pending_result r s)) = es_marks s"
  "es_marks (snd (mark_tool_round_complete s)) = es_marks s"
  "es_marks (snd (commit_pending ref s)) = es_marks s"
  "es_marks (snd (begin_finalization s)) = es_marks s"
  by (auto simp: es_marks_def failed_state_def fail_current_step_def bump_attempt_def prepare_current_step_def
      set_pending_result_def mark_tool_round_complete_def commit_pending_def begin_finalization_def
      split: option.split prod.split sum.split)

lemma final_kept_runs:
  "prepare_current_step has_tools s = (x1, s') \<Longrightarrow> es_marks s' = es_marks s"
  "set_pending_result r s = (x2, s') \<Longrightarrow> es_marks s' = es_marks s"
  "mark_tool_round_complete s = (x3, s') \<Longrightarrow> es_marks s' = es_marks s"
  "commit_pending ref s = (x4, s') \<Longrightarrow> es_marks s' = es_marks s"
  "begin_finalization s = (x5, s') \<Longrightarrow> es_marks s' = es_marks s"
  using marks_transitions(3-7) by (metis snd_conv)+

lemma final_kept_from: "es_marks t = es_marks s \<Longrightarrow> leads t m (final_kept t) \<Longrightarrow> leads t m (final_kept s)"
  by (simp add: final_kept_def [abs_def])

lemma replans_keep_final:
  "leads s (apply_replan p s feedback) (final_kept s)"
  "leads s (replan p s feedback) (\<lambda>out s'. es_marks s' = es_marks s \<and> (\<forall>s2 d. out = Inr (s2, d) \<longrightarrow> s2 = s'))"
proof -
  have applied: "leads s (apply_replan p s feedback) (\<lambda>out s'. es_marks s' = es_marks s \<and> (\<forall>s2. out = Inr s2 \<longrightarrow> s2 = s'))"
    unfolding apply_replan_def Let_def
    by (auto intro!: leads_world leads_ofR leads_raise leads_capture leads_sync leads_ret split: sum.split)
  then show "leads s (apply_replan p s feedback) (final_kept s)"
    by (rule leads_weaken) (simp add: final_kept_def)
  show "leads s (replan p s feedback) (\<lambda>out s'. es_marks s' = es_marks s \<and> (\<forall>s2 d. out = Inr (s2, d) \<longrightarrow> s2 = s'))"
    unfolding replan_def Let_def settle_def bindP_assoc
    by (auto intro!: leads_sync leads_ret leads_bind [OF applied])
qed

lemma retries_keep_final:
  "leads s (retry_invalid_result p s reason code1 location) (final_kept s)"
  "leads s (retry_validation p s v) (final_kept s)"
  unfolding retry_invalid_result_def retry_validation_def Let_def final_kept_def
  by (auto intro!: leads_ofR leads_settle split: option.split)

lemma fallback_keeps_final: "leads s (fallback_tool_failure p s reason fallback) (final_kept s)"
  unfolding fallback_tool_failure_def Let_def final_kept_def
  by (auto intro!: leads_put leads_settle leads_raise leads_ret leads_bind [OF replans_keep_final(2)] split: option.split)

lemma validate_keeps_final: "leads s (validate_pending p) (final_kept s)"
  unfolding validate_pending_def Let_def
  by (auto intro!: leads_state leads_world leads_put leads_clear leads_settle leads_raise leads_ret leads_capture
      retries_keep_final leads_bind [OF replans_keep_final(2)] simp: final_kept_def dest!: final_kept_runs
      split: bool.split option.split sum.split prod.split validation_kind.split)

lemma decide_keeps_final: "leads s (policy_decide p response) (final_kept s)"
proof -
  have accept: "leads s (accept_tool_calls p s calls records) (final_kept s)" for calls records
    unfolding accept_tool_calls_def Let_def
    by (auto intro!: leads_put leads_raise leads_sync leads_ret simp: final_kept_def dest!: final_kept_runs split: prod.split sum.split)
  have calls: "leads s (decide_tool_calls p s calls) (final_kept s)" for calls
    unfolding decide_tool_calls_def
    by (auto intro!: leads_settle leads_ofR accept fallback_keeps_final retries_keep_final(1) simp: final_kept_def
        split: sum.split option.split)
  have result: "leads s (decide_step_result p s response) (final_kept s)"
    unfolding decide_step_result_def Let_def
    by (auto intro!: leads_settle leads_raise leads_put final_kept_from [OF _ validate_keeps_final] simp: final_kept_def
        dest!: final_kept_runs split: sum.split exn.split option.split prod.split)
  show ?thesis
    unfolding policy_decide_def Let_def
    by (rule leads_state) (auto intro!: calls result fallback_keeps_final retries_keep_final(1) leads_settle simp: final_kept_def)
qed

lemma observe_keeps_final: "leads s (policy_observe p results) (final_kept s)"
proof -
  have schedule: "leads s (schedule_tool_repair p recovery s result) (final_kept s)" for recovery result
    unfolding schedule_tool_repair_def Let_def
    by (auto intro!: leads_ofR leads_settle leads_raise simp: final_kept_def split: option.split)
  have wrap: "leads t (bindP m f) (final_kept s)"
    if "es_marks t = es_marks s" "leads t m (final_kept t)" "\<And>x. f x = ret (g x)" for t m f g
    by (rule leads_bind [OF that(2)]) (auto intro!: leads_ret simp: final_kept_def that)
  show ?thesis
    unfolding policy_observe_def Let_def
    by (rule leads_state) (auto intro!: leads_sync leads_ret leads_put leads_ofR wrap schedule fallback_keeps_final
      replans_keep_final(1) simp: final_kept_def split: option.split prod.split)
qed

lemma prepare_keeps_final: "leads s (prepare_step p has_tools) (final_kept s)"
  unfolding prepare_step_def
  by (auto intro!: leads_state leads_clear leads_put leads_raise leads_sync leads_ret simp: final_kept_def
      dest!: final_kept_runs split: prod.split sum.split)

lemma begin_finalization_keeps_final: "leads s (policy_begin_finalization p) (final_kept s)"
  unfolding policy_begin_finalization_def
  by (auto intro!: leads_state leads_put leads_raise leads_sync leads_ret simp: final_kept_def
      dest!: final_kept_runs split: prod.split sum.split)

lemmas keeps_final = prepare_keeps_final validate_keeps_final decide_keeps_final observe_keeps_final
  begin_finalization_keeps_final

lemma record_final_leads:
  "leads s (policy_record_final_response p response persisted emitted) (\<lambda>out s'. \<forall>x. out = Inr x \<longrightarrow>
     \<not> (es_final_emitted s \<and> emitted) \<and>
     es_marks s' = (Some response, es_final_persisted s \<or> persisted, es_final_emitted s \<or> emitted))"
  unfolding policy_record_final_response_def record_final_response_def
  by (auto intro!: leads_state leads_put leads_raise leads_sync leads_ret simp: es_marks_def split: prod.split sum.split)

subsection \<open>An observed batch\<close>

text \<open>A batch leaves the step it belongs to only with a replan or with a failure.\<close>

definition in_step :: "execution_state \<Rightarrow> 'a res \<Rightarrow> execution_state \<Rightarrow> bool" where
  "in_step s out s' \<longleftrightarrow> (\<forall>x. out = Inr x \<longrightarrow> es_replan_count s < es_replan_count s' \<or> es_phase s' = P_FAILED \<or>
     es_plan s' = es_plan s \<and> es_current_step_id s' = es_current_step_id s \<and> es_replan_count s' = es_replan_count s \<and>
     (es_phase s' = es_phase s \<or> es_phase s' = P_ACT))"

lemma in_step_raise [simp]: "in_step s (Inl e) s'"
  by (simp add: in_step_def)

lemma replan_in_step:
  "leads s (apply_replan p s feedback) (\<lambda>out s'. \<forall>x. out = Inr x \<longrightarrow> x = s' \<and> es_replan_count s < es_replan_count s')"
  "leads s (replan p s feedback) (\<lambda>out s'. \<forall>s2 d. out = Inr (s2, d) \<longrightarrow> s2 = s' \<and>
     (es_replan_count s < es_replan_count s' \<or> es_phase s' = P_FAILED))"
proof -
  show applied: "leads s (apply_replan p s feedback) (\<lambda>out s'. \<forall>x. out = Inr x \<longrightarrow> x = s' \<and> es_replan_count s < es_replan_count s')"
    unfolding apply_replan_def Let_def
    by (auto intro!: leads_world leads_ofR leads_raise leads_capture leads_sync leads_ret split: sum.split)
  show "leads s (replan p s feedback) (\<lambda>out s'. \<forall>s2 d. out = Inr (s2, d) \<longrightarrow> s2 = s' \<and>
     (es_replan_count s < es_replan_count s' \<or> es_phase s' = P_FAILED))"
    unfolding replan_def Let_def settle_def bindP_assoc
    by (auto intro!: leads_sync leads_ret leads_bind [OF applied])
qed

lemma fallback_in_step: "leads s (fallback_tool_failure p s reason fallback) (in_step s)"
  unfolding fallback_tool_failure_def Let_def
  by (auto intro!: leads_put leads_settle leads_raise leads_ret leads_bind [OF replan_in_step(2)]
      simp: in_step_def split: option.split)

lemma observe_in_step: "leads s (policy_observe p results) (in_step s)"
proof -
  have schedule: "leads s (schedule_tool_repair p recovery s result) (in_step s)" for recovery result
    unfolding schedule_tool_repair_def Let_def
    by (auto intro!: leads_ofR leads_settle leads_raise simp: in_step_def split: option.split)
  have wrap: "leads t (bindP m (\<lambda>x. ret (g x))) (in_step s)"
    if "leads t m (in_step t)" "es_plan t = es_plan s" "es_current_step_id t = es_current_step_id s"
      "es_replan_count t = es_replan_count s" "es_phase t = es_phase s" for t m and g :: "_ \<Rightarrow> execution_decision option"
    by (rule leads_bind [OF that(1)]) (use that(2-5) in \<open>auto intro!: leads_ret simp: in_step_def\<close>)
  have replanned: "leads t (bindP (apply_replan p t feedback) (\<lambda>_. ret None)) (in_step s)"
    if "es_replan_count t = es_replan_count s" for t feedback
    by (rule leads_bind [OF replan_in_step(1)]) (use that in \<open>auto intro!: leads_ret simp: in_step_def\<close>)
  show ?thesis
    unfolding policy_observe_def Let_def
    by (rule leads_state) (auto intro!: leads_sync leads_ret leads_put leads_ofR wrap schedule fallback_in_step
      replanned simp: in_step_def split: option.split prod.split)
qed

end
