(* ===== verification/Plan_Engine_Logic.thy ===== *)
theory Plan_Engine_Logic
  imports Program_Logic Plan_Engine Plan_Policy_Frames
begin

text \<open>
  The protocol of the finalization of a plan run: an abstract machine over the actions of a run, which every turn of the engine follows.
\<close>

subsection \<open>The protocol of a finalization\<close>

type_synonym marks = "string option \<times> bool \<times> bool"

definition pf_marks :: "plan_finalization_state \<Rightarrow> marks" where
  "pf_marks f = (pf_response f, pf_persisted f, pf_emitted f)"

definition marks_of :: "plan_engine_state \<Rightarrow> marks" where
  "marks_of s = pf_marks (pe_finalization s)"

text \<open>What the last action entitles to.\<close>

datatype milestone = M_none | M_finalized | M_persisted string | M_marked

text \<open>
  The marks are the durable ones.  A checkpoint may record a response only after the model was asked for
  it, may call it persisted only after the service confirmed exactly it, and may mark it emitted only
  once it is persisted; it never takes a mark back.  The response is emitted right after its mark, and asked
  for and persisted only as long as that is not on record.
\<close>

fun protocol_step :: "marks \<times> milestone \<Rightarrow> engine_action \<Rightarrow> (marks \<times> milestone) option" where
  "protocol_step ((response, persisted, emitted), m) (EA_checkpoint b s) =
     (case marks_of s of (response', persisted', emitted') \<Rightarrow>
       if (case response of None \<Rightarrow> response' = None \<or> m = M_finalized | Some c \<Rightarrow> response' = Some c) \<and>
          (persisted \<longrightarrow> persisted') \<and>
          (persisted' \<and> \<not> persisted \<longrightarrow> response' \<noteq> None \<and> m = M_persisted (the response')) \<and>
          (emitted \<longrightarrow> emitted') \<and>
          (emitted' \<and> \<not> emitted \<longrightarrow> persisted \<and> response \<noteq> None \<and> b = DB_FINALIZATION_EMITTED)
       then Some ((response', persisted', emitted'), if emitted' \<and> \<not> emitted then M_marked else M_none)
       else None)"
| "protocol_step ((response, persisted, emitted), m) EA_finalize =
     (if response = None then Some ((response, persisted, emitted), M_finalized) else None)"
| "protocol_step ((response, persisted, emitted), m) (EA_persist c) =
     (if response = Some c \<and> \<not> persisted then Some ((response, persisted, emitted), M_persisted c) else None)"
| "protocol_step ((response, persisted, emitted), m) (EA_emit c) =
     (if response = Some c \<and> m = M_marked then Some ((response, persisted, emitted), M_none) else None)"
| "protocol_step (f, m) a = Some (f, M_none)"

primrec protocol_run :: "marks \<times> milestone \<Rightarrow> engine_action list \<Rightarrow> (marks \<times> milestone) option" where
  "protocol_run st [] = Some st"
| "protocol_run st (a # acts) = (case protocol_step st a of None \<Rightarrow> None | Some st' \<Rightarrow> protocol_run st' acts)"

lemma protocol_append:
  "protocol_run st (xs @ ys) = (case protocol_run st xs of None \<Rightarrow> None | Some st' \<Rightarrow> protocol_run st' ys)"
  by (induction xs arbitrary: st) (auto split: option.split)

text \<open>
  The marks of a run: those of its last checkpoint are those of its state, and, if \<open>b\<close>, those of the flat
  state that the policy works on.
\<close>

definition marked :: "marks \<Rightarrow> marks \<Rightarrow> milestone \<Rightarrow> 'w engine_run \<Rightarrow> bool" where
  "marked f0 f m r \<longleftrightarrow> protocol_run (f0, M_none) (er_actions r) = Some (f, m) \<and> marks_of (er_state r) = f"

definition on_record :: "marks \<Rightarrow> marks \<Rightarrow> bool \<Rightarrow> 'w engine_run \<Rightarrow> bool" where
  "on_record f0 f b r \<longleftrightarrow> (\<exists>m. marked f0 f m r) \<and>
     (b \<longrightarrow> (\<exists>s. cx_execution_state (er_context r) = Some s \<and> es_marks s = f))"

abbreviation recorded_triple ::
    "marks \<Rightarrow> marks \<Rightarrow> bool \<Rightarrow> ('w engine_run, 'a) prog \<Rightarrow> ('a \<Rightarrow> 'w engine_run \<Rightarrow> bool) \<Rightarrow> bool" where
  "recorded_triple f0 f b \<equiv> triple (on_record f0 f False) (on_record f0 f b)"

definition keeps_record :: "marks \<Rightarrow> marks \<Rightarrow> bool \<Rightarrow> ('w engine_run, 'a) prog \<Rightarrow> bool" where
  "keeps_record f0 f b m \<longleftrightarrow> recorded_triple f0 f b m (\<lambda>_. on_record f0 f b)"

lemma on_record_weaken: "on_record f0 f b r \<Longrightarrow> on_record f0 f False r"
  by (simp add: on_record_def)

lemma on_record_marks: "on_record f0 f b r \<Longrightarrow> marks_of (er_state r) = f"
  by (auto simp: on_record_def marked_def)

named_theorems record_intros \<open>programs that leave the marks of a run alone\<close>

lemma keeps_bind:
  "keeps_record f0 f b m \<Longrightarrow> (\<And>x. recorded_triple f0 f b (k x) Q) \<Longrightarrow> recorded_triple f0 f b (bindP m k) Q"
  unfolding keeps_record_def by (rule triple_bind)

lemma keeps_recordI:
  "(\<And>r out r'. on_record f0 f b r \<Longrightarrow> m r = (out, r') \<Longrightarrow> on_record f0 f b r') \<Longrightarrow> keeps_record f0 f b m"
  unfolding keeps_record_def by (rule tripleI) (auto split: sum.split intro: on_record_weaken)

lemma marks_neutral: "protocol_step st a = Some (fst st, M_none) \<Longrightarrow> fst st = f \<Longrightarrow> protocol_step st a = Some (f, M_none)"
  by simp

definition neutral :: "engine_action \<Rightarrow> bool" where
  "neutral a \<longleftrightarrow> (\<forall>st. protocol_step st a = Some (fst st, M_none))"

lemma neutral_actions [simp]:
  "neutral (EA_event kind)" "neutral (EA_prepare phase)" "neutral (EA_model phase)" "neutral (EA_tools ids)"
  "neutral (EA_record i)"
  by (auto simp: neutral_def)

lemma neutralD: "neutral a \<Longrightarrow> protocol_step st a = Some (fst st, M_none)"
  unfolding neutral_def by blast

lemma keeps_serve [record_intros]: "neutral a \<Longrightarrow> keeps_record f0 f b (serve a g)"
  by (rule keeps_recordI)
    (auto simp: serve_def on_record_def marked_def neutralD protocol_append split: prod.splits)

lemma keeps_publish [record_intros]: "keeps_record f0 f b (publish su kind data)"
  unfolding publish_def by (rule keeps_serve) simp

lemma keeps_checkpoint [record_intros]: "keeps_record f0 f b (checkpoint su boundary)"
proof (rule keeps_recordI)
  fix r out r' assume r: "on_record f0 f b r" "checkpoint su boundary r = (out, r')"
  obtain response persisted emitted where f: "f = (response, persisted, emitted)" by (cases f)
  then have "protocol_step (f, m) (EA_checkpoint boundary (er_state r)) = Some (f, M_none)" for m
    using on_record_marks [OF r(1)] by (auto split: option.split)
  then show "on_record f0 f b r'"
    using r by (auto simp: checkpoint_def bindP_run readP_def ret_def ofR_def serve_def on_record_def marked_def
      protocol_append split: prod.splits if_splits sum.splits)
qed

lemma keeps_modify [record_intros]:
  "(\<And>r. er_actions (g r) = er_actions r \<and> marks_of (er_state (g r)) = marks_of (er_state r) \<and>
     cx_execution_state (er_context (g r)) = cx_execution_state (er_context r)) \<Longrightarrow> keeps_record f0 f b (modifyP g)"
  by (rule keeps_recordI) (auto simp: modifyP_def on_record_def marked_def)

lemma keeps_ret [record_intros]: "keeps_record f0 f b (ret x)"
  and keeps_raise [record_intros]: "keeps_record f0 f b (raise e)"
  and keeps_ofR [record_intros]: "keeps_record f0 f b (ofR y)"
  and keeps_readP [record_intros]: "keeps_record f0 f b (readP g)"
  by (rule keeps_recordI, simp add: prog_defs)+

lemma keeps_add_message [record_intros]: "keeps_record f0 f b (add_message msg)"
  unfolding add_message_def by (rule keeps_modify) simp

lemma keeps_clear [record_intros]: "keeps_record f0 f b (in_context clear_internal)"
  by (rule keeps_recordI) (auto simp: in_context_def clear_internal_def modifyP_def on_record_def marked_def)

lemma keeps_wait [record_intros]: "keeps_record f0 f b m \<Longrightarrow> keeps_record f0 f b (wait_for su m)"
  unfolding keeps_record_def wait_for_def triple_def by (auto intro: on_record_weaken)

lemma keeps_policy [record_intros]:
  assumes "\<And>s. leads s m (final_kept s)"
  shows "keeps_record f0 f True (in_context m)"
proof (rule keeps_recordI)
  fix r out r' assume r: "on_record f0 f True r" "in_context m r = (out, r')"
  then obtain s where s: "cx_execution_state (er_context r) = Some s" "es_marks s = f" by (auto simp: on_record_def)
  obtain c where c: "m (er_context r) = (out, c)" "r' = r\<lparr>er_context := c\<rparr>"
    using r(2) by (auto simp: in_context_def split: prod.splits)
  show "on_record f0 f True r'"
    using leadsD [OF assms s(1) c(1)] r(1) s(2) by (auto simp: on_record_def marked_def final_kept_def c(2))
qed

lemma keeps_bind_step [record_intros]:
  "keeps_record f0 f b m \<Longrightarrow> (\<And>x. keeps_record f0 f b (k x)) \<Longrightarrow> keeps_record f0 f b (bindP m k)"
  unfolding keeps_record_def by (rule triple_bind)

end
