(* ===== verification/Plan_Engine_Final.thy ===== *)
theory Plan_Engine_Final
  imports Plan_Engine_Logic
begin

text \<open>
  The final answer of a plan run: every run of the engine follows the protocol of the finalization, and
  however often it crashes and is resumed from its last checkpoint, the answer is emitted at most once.
\<close>

subsection \<open>States of the engine and of the policy\<close>

lemma to_legacy_marks: "to_legacy ref s = Inr l \<Longrightarrow> es_marks l = marks_of s"
  by (auto simp: to_legacy_def Let_def bindR_Inr_iff ExecutionState_def marks_of_def pf_marks_def es_marks_def split: prod.splits)

lemma from_legacy_marks: "from_legacy text_of int_of l = Inr s \<Longrightarrow> marks_of s = es_marks l"
  by (auto simp: from_legacy_def bindR_Inr_iff PlanFinalizationState_def PlanEngineState_def Let_def
      marks_of_def pf_marks_def es_marks_def)

lemma recorded_sync:
  assumes "\<And>l. es_marks l = f \<Longrightarrow> recorded_triple f0 f True (k l) Q"
  shows "recorded_triple f0 f b (bindP (sync_legacy su) k) Q"
proof (rule triple_bind)
  show "recorded_triple f0 f b (sync_legacy su) (\<lambda>l r. on_record f0 f True r \<and> es_marks l = f)"
    by (rule tripleI) (auto simp: sync_legacy_def bindP_run readP_def ofR_def in_context_def sync_def modifyP_def ret_def
      on_record_def marked_def dest: to_legacy_marks split: sum.splits)
  show "triple (on_record f0 f False) (\<lambda>r. on_record f0 f True r \<and> es_marks l = f) (k l) Q" for l
    using assms by (auto simp: triple_def)
qed

lemma pull_run:
  assumes "pull_state su r = (out, r')"
  shows "(case out of Inl e \<Rightarrow> r' = r | Inr s \<Rightarrow> er_state r' = s \<and> er_actions r' = er_actions r \<and> er_context r' = er_context r \<and>
    (\<exists>l. cx_execution_state (er_context r) = Some l \<and> marks_of s = es_marks l))"
  using assms by (auto simp: pull_state_def Let_def marks_of_def split: option.splits sum.splits dest: from_legacy_marks)

lemma recorded_pull:
  assumes "\<And>s. marks_of s = f \<Longrightarrow> recorded_triple f0 f True (k s) Q"
  shows "recorded_triple f0 f True (bindP (pull_state su) k) Q"
proof (rule triple_bind)
  show "recorded_triple f0 f True (pull_state su) (\<lambda>s r. on_record f0 f True r \<and> marks_of s = f)"
    by (rule tripleI) (auto simp: on_record_def marked_def dest!: pull_run split: sum.splits)
  show "triple (on_record f0 f False) (\<lambda>r. on_record f0 f True r \<and> marks_of s = f) (k s) Q" for s
    using assms by (auto simp: triple_def)
qed

lemma recorded_replace:
  assumes "es_marks legacy = f" and "\<And>s. recorded_triple f0 f True (k s) Q"
  shows "recorded_triple f0 f b (bindP (replace_from_legacy su legacy) k) Q"
proof (rule triple_bind)
  have set_state: "on_record f0 f True (snd (in_context (sync (env_of su) legacy) r))" if "on_record f0 f b r" for r
    using that assms(1) by (auto simp: in_context_def sync_def modifyP_def on_record_def marked_def)
  show "recorded_triple f0 f b (replace_from_legacy su legacy) (\<lambda>s. on_record f0 f True)"
  proof (rule tripleI)
    fix r out r' assume r: "on_record f0 f b r" "replace_from_legacy su legacy r = (out, r')"
    obtain r1 where r1: "in_context (sync (env_of su) legacy) r = (Inr (), r1)"
      by (simp add: in_context_def sync_def modifyP_def)
    then have "on_record f0 f True r1" "pull_state su r1 = (out, r')"
      using set_state [OF r(1)] r(2) by (simp_all add: replace_from_legacy_def bindP_run)
    then show "case out of Inl e \<Rightarrow> on_record f0 f False r' | Inr x \<Rightarrow> on_record f0 f True r'"
      by (auto simp: on_record_def marked_def dest!: pull_run split: sum.splits)
  qed
qed (rule assms(2))

lemma recorded_state:
  assumes "\<And>s. marks_of s = f \<Longrightarrow> recorded_triple f0 f b (k s) Q"
  shows "recorded_triple f0 f b (bindP (readP er_state) k) Q"
proof (rule triple_read)
  fix s
  show "triple (on_record f0 f False) (\<lambda>r. on_record f0 f b r \<and> er_state r = s) (k s) Q"
  proof (rule triple_assume [where C = "marks_of s = f"])
    show "on_record f0 f b r \<and> er_state r = s \<Longrightarrow> marks_of s = f" for r using on_record_marks by blast
    show "marks_of s = f \<Longrightarrow> triple (on_record f0 f False) (\<lambda>r. on_record f0 f b r \<and> er_state r = s) (k s) Q"
      by (rule triple_pre [OF assms]) simp_all
  qed
qed

lemma recorded_legacy:
  assumes "marks_of s = f" and "\<And>l. es_marks l = f \<Longrightarrow> recorded_triple f0 f b (k l) Q"
  shows "recorded_triple f0 f b (bindP (ofR (to_legacy ref s)) k) Q"
  using assms to_legacy_marks by (intro triple_ofR) (auto intro: on_record_weaken)

lemma recorded_ofR:
  "(\<And>y. x = Inr y \<Longrightarrow> recorded_triple f0 f b (k y) Q) \<Longrightarrow> recorded_triple f0 f b (bindP (ofR x) k) Q"
  by (rule triple_ofR) (rule on_record_weaken)

lemma recorded_last: "keeps_record f0 f b m \<Longrightarrow> (b' \<Longrightarrow> b) \<Longrightarrow> recorded_triple f0 f b m (\<lambda>_. on_record f0 f b')"
  unfolding keeps_record_def by (rule triple_post, assumption) (auto simp: on_record_def)

lemma keeps_put: "marks_of s = f \<Longrightarrow> keeps_record f0 f b (put_engine s)"
  unfolding put_engine_def by (rule keeps_recordI) (auto simp: modifyP_def on_record_def marked_def)

lemma engine_marks_update [simp]:
  "marks_of (s\<lparr>pe_phase := x1\<rparr>) = marks_of s" "marks_of (s\<lparr>pe_tool_recovery := x2\<rparr>) = marks_of s"
  "marks_of (s\<lparr>pe_step_execution := x3\<rparr>) = marks_of s" "marks_of (s\<lparr>pe_finish_reason := x4\<rparr>) = marks_of s"
  "marks_of (s\<lparr>pe_terminal_error := x5\<rparr>) = marks_of s"
  by (simp_all add: marks_of_def)

lemma keeps_outcome [record_intros]: "keeps_record f0 f b (outcome env reason out error failure)"
  by (rule keeps_recordI) (auto simp: outcome_def Let_def on_record_def marked_def)

lemmas recorded_intros = recorded_sync recorded_pull recorded_replace recorded_state recorded_legacy recorded_ofR
  keeps_bind [OF keeps_put] recorded_last

subsection \<open>Tool batches\<close>

lemma reject_keeps [record_intros]: "keeps_record f0 f b (reject_calls su recorded kind text1 calls)"
proof (induction calls)
  case Nil
  then show ?case by (simp add: keeps_ret)
next
  case (Cons call calls)
  then show ?case by (auto intro!: record_intros)
qed

lemma fail_engine_recorded:
  "es_marks legacy = f \<Longrightarrow> recorded_triple f0 f b (fail_engine su legacy error reason) (\<lambda>_. on_record f0 f True)"
  unfolding fail_engine_def by (intro recorded_replace recorded_last keeps_outcome) simp_all

lemma batch_failed_recorded: "recorded_triple f0 f b (batch_failed su calls e) (\<lambda>_. on_record f0 f True)"
  unfolding batch_failed_def Let_def
  by (intro keeps_bind [OF reject_keeps] recorded_state recorded_legacy recorded_replace keeps_bind [OF keeps_checkpoint])
    (auto intro!: recorded_last record_intros)

lemma after_tools_keeps [record_intros]: "keeps_record f0 f b (after_tools su step observed)"
  unfolding after_tools_def Let_def by (auto intro!: record_intros split: option.split)

lemma reconcile_recorded: "recorded_triple f0 f True (reconcile_recovery su recovery d observed) (\<lambda>_. on_record f0 f True)"
  unfolding reconcile_recovery_def Let_def
  by (rule recorded_state)
    (auto intro!: recorded_last record_intros keeps_bind [OF keeps_put] recorded_sync recorded_legacy recorded_replace)

lemma batch_observed_recorded: "recorded_triple f0 f b (batch_observed su step out) (\<lambda>_. on_record f0 f True)"
proof -
  have settled: "recorded_triple f0 f True (bindP (reconcile_recovery su recovery d observed) (\<lambda>x. after_tools su step x))
      (\<lambda>_. on_record f0 f True)" for recovery d observed f
    by (rule triple_bind [OF reconcile_recorded]) (intro recorded_last record_intros)
  have restored: "keeps_record f0 f b (finallyP (checkpoint su boundary) (\<lambda>r. r\<lparr>er_state := (er_state r)\<lparr>pe_tool_recovery := x\<rparr>\<rparr>))"
    for boundary x b
  proof (rule keeps_recordI)
    fix r o1 r' assume r: "on_record f0 f b r" "finallyP (checkpoint su boundary)
      (\<lambda>r. r\<lparr>er_state := (er_state r)\<lparr>pe_tool_recovery := x\<rparr>\<rparr>) r = (o1, r')"
    obtain r1 where r1: "checkpoint su boundary r = (o1, r1)" "r' = r1\<lparr>er_state := (er_state r1)\<lparr>pe_tool_recovery := x\<rparr>\<rparr>"
      using r(2) by (auto simp: finallyP_def split: prod.splits)
    have "on_record f0 f b r1 \<or> on_record f0 f False r1"
      using tripleD [OF keeps_checkpoint [unfolded keeps_record_def] r(1) r1(1)] by (auto split: sum.splits)
    moreover have "er_context r1 = er_context r \<or> (\<exists>w. er_context r1 = (er_context r)\<lparr>cx_world := w\<rparr>)"
      using r1(1) by (auto simp: checkpoint_def bindP_run readP_def ret_def ofR_def serve_def split: prod.splits if_splits sum.splits)
    ultimately show "on_record f0 f b r'" using r(1) by (auto simp: on_record_def marked_def r1(2))
  qed
  show ?thesis
    unfolding batch_observed_def Let_def
  proof (rule recorded_state, rule recorded_ofR, goal_cases)
    case (1 s copied)
    obtain o1 recovery where decision: "decide (su_projector su) (su_recovery su) out (ps_step_id step)
        (xb_max_tool_repair_attempts (xs_budget (su_services su))) copied = (o1, recovery)" by fastforce
    show ?case
    proof (cases o1)
      case (Inl e)
      then show ?thesis using decision by (auto intro!: triple_raise intro: on_record_weaken)
    next
      case (Inr d)
      have noted: "keeps_record f0 f b (modifyP (\<lambda>r. r\<lparr>er_context := (er_context r)\<lparr>cx_internal_messages := g r\<rparr>,
          er_resume_safety := x, er_state := s\<lparr>pe_tool_recovery := recovery\<rparr>\<rparr>))" for g x
        using 1(1) by (intro keeps_recordI) (auto simp: modifyP_def on_record_def marked_def)
      show ?thesis
        using decision Inr by (auto intro!: keeps_bind [OF noted] keeps_bind [OF restored] recorded_sync recorded_ofR
          keeps_bind [OF keeps_wait [OF keeps_policy]] observe_keeps_final recorded_pull settled)
    qed
  qed
qed

lemma execute_tools_recorded: "recorded_triple f0 f True (execute_tools su calls constraint) (\<lambda>_. on_record f0 f True)"
proof -
  have served: "recorded_triple f0 f True (\<lambda>r. case serve a g r of
        (Inl e, r') \<Rightarrow> if is_exception e then batch_failed su calls e r' else (Inl e, r')
      | (Inr out, r') \<Rightarrow> batch_observed su step out r') (\<lambda>_. on_record f0 f True)" if "neutral a" for a g step f
    by (rule triple_try [OF keeps_serve [OF that, unfolded keeps_record_def] triple_if_run triple_pre])
      (rule batch_failed_recorded batch_observed_recorded, assumption?)+
  show ?thesis
    unfolding execute_tools_def Let_def
    by (rule recorded_state)
      (auto intro!: keeps_bind [OF keeps_readP] recorded_legacy keeps_bind [OF reject_keeps] fail_engine_recorded
        keeps_bind [OF keeps_modify] served triple_raise intro: on_record_weaken split: option.split)
qed

subsection \<open>Milestones\<close>

lemma snapshot_accepted [simp]: "EngineSnapshot (snapshot_of env s) = Inr (snapshot_of env s)"
proof -
  have "strip ''plan'' \<noteq> []" by code_simp
  then show ?thesis by (simp add: EngineSnapshot_def snapshot_of_def encode_def bindR_Inr_iff)
qed

lemma checkpoint_run:
  assumes "xs_checkpointing (su_services su)" and "checkpoint su b r = (out, r')"
  shows "er_actions r' = er_actions r @ [EA_checkpoint b (er_state r)] \<and> er_state r' = er_state r"
  using assms by (auto simp: checkpoint_def bindP_run readP_def ofR_def serve_def split: prod.splits)

definition following :: "marks \<Rightarrow> 'w engine_run \<Rightarrow> bool" where
  "following f0 r \<longleftrightarrow> (case protocol_run (f0, M_none) (er_actions r) of
     None \<Rightarrow> False | Some st \<Rightarrow> fst st = marks_of (er_state r))"

lemma marked_following [simp]: "marked f0 f m r \<Longrightarrow> following f0 r"
  by (simp add: following_def marked_def)

lemma on_record_following: "on_record f0 f b r \<Longrightarrow> following f0 r"
  unfolding on_record_def using marked_following by blast

lemma following_marked: "following f0 r \<Longrightarrow> \<exists>m. marked f0 (marks_of (er_state r)) m r"
  by (auto simp: following_def marked_def split: option.splits)

lemma sync_run:
  assumes "sync_legacy su r = (out, r')"
  shows "er_state r' = er_state r \<and> er_actions r' = er_actions r \<and>
    (\<forall>l. out = Inr l \<longrightarrow> cx_execution_state (er_context r') = Some l \<and> es_marks l = marks_of (er_state r))"
  using assms by (auto simp: sync_legacy_def bindP_run readP_def ofR_def in_context_def sync_def modifyP_def ret_def
      dest: to_legacy_marks split: sum.splits)

lemma context_run:
  assumes "in_context m r = (out, r')"
  shows "er_state r' = er_state r \<and> er_actions r' = er_actions r \<and> m (er_context r) = (out, er_context r')"
  using assms by (auto simp: in_context_def split: prod.splits)

lemma milestone_marked:
  assumes durable: "xs_checkpointing (su_services su)"
    and step: "\<And>s. marks_of s = (Some content, fst (snd f) \<or> persisted, snd (snd f) \<or> emitted) \<Longrightarrow>
      \<not> (snd (snd f) \<and> emitted) \<Longrightarrow> protocol_step (f, m) (EA_checkpoint b s) = Some (marks_of s, m')"
  shows "triple (following f0) (marked f0 f m) (set_milestone su content persisted emitted b)
    (\<lambda>_. marked f0 (Some content, fst (snd f) \<or> persisted, snd (snd f) \<or> emitted) m')"
  unfolding set_milestone_def
proof (intro triple_bind)
  let ?f' = "(Some content, fst (snd f) \<or> persisted, snd (snd f) \<or> emitted)"
  show "triple (following f0) (marked f0 f m) (sync_legacy su)
      (\<lambda>l r. marked f0 f m r \<and> cx_execution_state (er_context r) = Some l \<and> es_marks l = f)"
    by (rule tripleI) (auto dest!: sync_run simp: marked_def following_def split: sum.split)
  show "triple (following f0) (\<lambda>r. marked f0 f m r \<and> cx_execution_state (er_context r) = Some l \<and> es_marks l = f)
      (in_context (policy_record_final_response (su_policy su) content persisted emitted))
      (\<lambda>_ r. marked f0 f m r \<and> \<not> (snd (snd f) \<and> emitted) \<and>
         (\<exists>s. cx_execution_state (er_context r) = Some s \<and> es_marks s = ?f'))" for l
  proof (rule tripleI)
    fix r out r' assume r: "marked f0 f m r \<and> cx_execution_state (er_context r) = Some l \<and> es_marks l = f"
      and run: "in_context (policy_record_final_response (su_policy su) content persisted emitted) r = (out, r')"
    note moved = context_run [OF run]
    then have marked: "marked f0 f m r'" using r by (simp add: marked_def)
    have flags: "es_final_persisted l = fst (snd f)" "es_final_emitted l = snd (snd f)"
      using r by (auto simp: es_marks_def)
    obtain s' where s': "cx_execution_state (er_context r') = Some s'" "\<And>x. out = Inr x \<Longrightarrow> \<not> (es_final_emitted l \<and> emitted) \<and>
        es_marks s' = (Some content, es_final_persisted l \<or> persisted, es_final_emitted l \<or> emitted)"
      using leadsD [OF record_final_leads conjunct1 [OF conjunct2 [OF r]] conjunct2 [OF conjunct2 [OF moved]]] by blast
    show "case out of Inl e \<Rightarrow> following f0 r'
        | Inr x \<Rightarrow> marked f0 f m r' \<and> \<not> (snd (snd f) \<and> emitted) \<and>
           (\<exists>s. cx_execution_state (er_context r') = Some s \<and> es_marks s = ?f')"
      using marked s' by (cases out) (simp_all add: flags)
  qed
  show "triple (following f0) (\<lambda>r. marked f0 f m r \<and> \<not> (snd (snd f) \<and> emitted) \<and>
         (\<exists>s. cx_execution_state (er_context r) = Some s \<and> es_marks s = ?f')) (pull_state su)
      (\<lambda>_ r. protocol_run (f0, M_none) (er_actions r) = Some (f, m) \<and> \<not> (snd (snd f) \<and> emitted) \<and>
         marks_of (er_state r) = ?f')"
    by (rule tripleI) (auto dest!: pull_run simp: marked_def following_def split: sum.splits)
  show "triple (following f0) (\<lambda>r. protocol_run (f0, M_none) (er_actions r) = Some (f, m) \<and> \<not> (snd (snd f) \<and> emitted) \<and>
         marks_of (er_state r) = ?f') (checkpoint su b) (\<lambda>_. marked f0 ?f' m')"
    by (rule tripleI) (auto dest!: checkpoint_run [OF durable] simp: marked_def following_def protocol_append step split: sum.split)
qed

lemma serve_marked:
  assumes "protocol_step (f, m) a = Some (f, m')"
  shows "triple (following f0) (marked f0 f m) (serve a g) (\<lambda>_. marked f0 f m')"
  by (rule tripleI) (use assms in \<open>auto simp: serve_def marked_def following_def protocol_append split: prod.splits sum.split\<close>)

lemma marked_response: "marked f0 f m r \<Longrightarrow> pf_response (pe_finalization (er_state r)) = fst f"
  "marked f0 f m r \<Longrightarrow> pf_persisted (pe_finalization (er_state r)) = fst (snd f)"
  "marked f0 f m r \<Longrightarrow> pf_emitted (pe_finalization (er_state r)) = snd (snd f)"
  by (auto simp: marked_def marks_of_def pf_marks_def)

lemma recorded_following: "recorded_triple f0 f b m (\<lambda>_. on_record f0 f b') \<Longrightarrow> triple (following f0) (on_record f0 f b) m (\<lambda>_. following f0)"
  unfolding triple_def by (fastforce split: sum.splits dest: on_record_following)

subsection \<open>The finalization\<close>

text \<open>After a milestone the marks are given by the response and two flags.\<close>

lemma produce_marked:
  assumes durable: "xs_checkpointing (su_services su)"
  shows "triple (following f0) (marked f0 (None, p, e) m) (produce_response su)
    (\<lambda>first. marked f0 (Some (fz_content first), p, e) M_none)"
  unfolding produce_response_def
proof (intro triple_bind)
  show "triple (following f0) (marked f0 (None, p, e) m) (checkpoint su DB_FINALIZATION_STARTED) (\<lambda>_. marked f0 (None, p, e) M_none)"
    by (rule tripleI) (auto dest!: checkpoint_run [OF durable] simp: marked_def following_def protocol_append split: sum.split)
  show "triple (following f0) (marked f0 (None, p, e) M_none) (sync_legacy su) (\<lambda>_. marked f0 (None, p, e) M_none)" for u :: unit
    by (rule tripleI) (auto dest!: sync_run simp: marked_def following_def split: sum.split)
  show "triple (following f0) (marked f0 (None, p, e) M_none) (serve (EA_prepare ''finalize'') g) (\<lambda>_. marked f0 (None, p, e) M_none)" for g
    by (rule serve_marked) simp
  show "triple (following f0) (marked f0 (None, p, e) M_none) (serve EA_finalize g) (\<lambda>_. marked f0 (None, p, e) M_finalized)" for g
    by (rule serve_marked) simp
  show "triple (following f0) (marked f0 (None, p, e) M_finalized)
      (set_milestone su (fz_content first) False False DB_FINALIZATION_RESPONSE)
      (\<lambda>_. marked f0 (Some (fz_content first), p, e) M_none)" for first
    using milestone_marked [OF durable, of "fz_content first" "(None, p, e)" False False M_finalized DB_FINALIZATION_RESPONSE M_none f0]
    by simp
  show "triple (following f0) (marked f0 (Some (fz_content first), p, e) M_none) (ret first)
      (\<lambda>first. marked f0 (Some (fz_content first), p, e) M_none)" for first
    by (rule triple_ret)
qed

lemma recorded_marked:
  "triple (following f0) (marked f0 (Some c, p, e) m) (recorded_response su c)
    (\<lambda>first r. marked f0 (Some c, p, e) m r \<and> fz_content first = c)"
  unfolding recorded_response_def
  by (rule triple_read_any, rule triple_ofR)
    (auto simp: triple_def FinalizationResult_def ofR_def bindP_run ret_def bindR_Inr_iff split: sum.split prod.split)

lemma persist_marked:
  assumes durable: "xs_checkpointing (su_services su)"
  shows "triple (following f0) (\<lambda>r. marked f0 (Some c, p, e) m r \<and> fz_content first = c) (persist_response su c first)
    (\<lambda>finalized r. (\<exists>m. marked f0 (Some c, True, e) m r) \<and> fz_content finalized = c)"
  unfolding persist_response_def
proof (rule triple_read)
  fix s
  let ?P = "\<lambda>r. (marked f0 (Some c, p, e) m r \<and> fz_content first = c) \<and> er_state r = s"
  show "triple (following f0) ?P (if pf_persisted (pe_finalization s) then ret first
     else bindP (serve (EA_persist c) (xs_persist (su_services su) first)) (\<lambda>answer.
       if fz_content answer \<noteq> c \<or> \<not> fz_persisted answer
       then raise (RuntimeError ''finalization persistence did not confirm the response'')
       else bindP (set_milestone su c True False DB_FINALIZATION_PERSISTED) (\<lambda>_. ret answer)))
    (\<lambda>finalized r. (\<exists>m. marked f0 (Some c, True, e) m r) \<and> fz_content finalized = c)"
  proof (rule triple_assume [where C = "fz_content first = c \<and> p = pf_persisted (pe_finalization s)"])
    show "?P r \<Longrightarrow> fz_content first = c \<and> p = pf_persisted (pe_finalization s)" for r
      using marked_response(2) by fastforce
    assume c: "fz_content first = c \<and> p = pf_persisted (pe_finalization s)"
    have serve: "triple (following f0) (marked f0 (Some c, False, e) m) (serve (EA_persist c) g)
        (\<lambda>_. marked f0 (Some c, False, e) (M_persisted c))" for g c
      by (rule serve_marked) simp
    have confirm: "triple (following f0) (marked f0 (Some c, False, e) (M_persisted c))
        (set_milestone su c True False DB_FINALIZATION_PERSISTED) (\<lambda>_. marked f0 (Some c, True, e) M_none)" for c
      using milestone_marked [OF durable, of c "(Some c, False, e)" True False "M_persisted c" DB_FINALIZATION_PERSISTED M_none f0]
      by simp
    show "triple (following f0) ?P (if pf_persisted (pe_finalization s) then ret first
        else bindP (serve (EA_persist c) (xs_persist (su_services su) first)) (\<lambda>answer.
          if fz_content answer \<noteq> c \<or> \<not> fz_persisted answer
          then raise (RuntimeError ''finalization persistence did not confirm the response'')
          else bindP (set_milestone su c True False DB_FINALIZATION_PERSISTED) (\<lambda>_. ret answer)))
       (\<lambda>finalized r. (\<exists>m. marked f0 (Some c, True, e) m r) \<and> fz_content finalized = c)"
    proof (cases "pf_persisted (pe_finalization s)")
      case True
      then show ?thesis using c by (auto intro!: triple_ret)
    next
      case False
      then show ?thesis
        using c by (auto intro!: triple_bind [OF triple_pre [OF serve]] triple_raise triple_bind [OF confirm] triple_ret)
    qed
  qed
qed

text \<open>The content of a finalization result is the response on record.\<close>

definition known :: "marks \<Rightarrow> finalization_result \<Rightarrow> 'w engine_run \<Rightarrow> bool" where
  "known f0 first r \<longleftrightarrow> following f0 r \<and> pf_response (pe_finalization (er_state r)) = Some (fz_content first)"

lemma marked_known: "marked f0 (Some (fz_content first), p, e) m r \<Longrightarrow> known f0 first r"
  using marked_response(1) [of f0 "(Some (fz_content first), p, e)"] by (simp add: known_def)

lemma knownE:
  assumes "known f0 first r"
  obtains p e m where "marked f0 (Some (fz_content first), p, e) m r"
  using assms following_marked [of f0 r] by (auto simp: known_def marks_of_def pf_marks_def)

lemma emit_following:
  assumes durable: "xs_checkpointing (su_services su)" and c: "fz_content finalized = c"
  shows "triple (following f0) (marked f0 (Some c, True, e) m) (emit_response su c deltas finalized) (\<lambda>_. following f0)"
  unfolding emit_response_def
proof (rule triple_read)
  fix emitted
  have mark: "triple (following f0) (marked f0 (Some c, True, False) m) (set_milestone su c True True DB_FINALIZATION_EMITTED)
      (\<lambda>_. marked f0 (Some c, True, True) M_marked)" for c
    using milestone_marked [OF durable, of c "(Some c, True, False)" True True m DB_FINALIZATION_EMITTED M_marked f0] by simp
  have emit: "triple (following f0) (marked f0 (Some c, True, True) M_marked) (serve (EA_emit c) g) (\<lambda>_. following f0)" for g c
    by (rule triple_post [OF serve_marked [where m' = M_none]]) simp_all
  show "triple (following f0) (\<lambda>r. marked f0 (Some c, True, e) m r \<and> pf_emitted (pe_finalization (er_state r)) = emitted)
      (if emitted then ret () else bindP (set_milestone su c True True DB_FINALIZATION_EMITTED) (\<lambda>_.
         bindP (ofR (FinalizationResult (finalized\<lparr>fz_buffered_deltas := deltas, fz_persisted := True\<rparr>))) (\<lambda>replaced.
         serve (EA_emit (fz_content replaced)) (xs_emit (su_services su) replaced)))) (\<lambda>_. following f0)"
  proof (rule triple_assume [where C = "e = emitted"])
    show "marked f0 (Some c, True, e) m r \<and> pf_emitted (pe_finalization (er_state r)) = emitted \<Longrightarrow> e = emitted" for r
      using marked_response(3) by fastforce
  qed (use c in \<open>auto intro!: triple_ret triple_bind [OF triple_pre [OF mark]] triple_ofR emit
    simp: FinalizationResult_def bindR_Inr_iff\<close>)
qed

lemma outcome_following: "triple (following f0) (following f0) (outcome env reason out error failure) (\<lambda>_. following f0)"
  by (rule tripleI) (auto simp: outcome_def Let_def following_def split: option.splits)

lemma complete_following:
  assumes durable: "xs_checkpointing (su_services su)"
  shows "triple (following f0) (known f0 first) (complete_finalization su deltas first) (\<lambda>_. following f0)"
  unfolding complete_finalization_def
proof (rule triple_read)
  fix stable
  let ?c = "fz_content first"
  have persisted: "triple (following f0) (known f0 first) (persist_response su ?c first)
      (\<lambda>finalized r. \<exists>e m. marked f0 (Some ?c, True, e) m r \<and> fz_content finalized = ?c)"
  proof (rule tripleI)
    fix r out r' assume r: "known f0 first r" "persist_response su ?c first r = (out, r')"
    obtain p e m where "marked f0 (Some ?c, p, e) m r" using knownE [OF r(1)] .
    then show "case out of Inl e \<Rightarrow> following f0 r' | Inr finalized \<Rightarrow> \<exists>e m. marked f0 (Some ?c, True, e) m r' \<and> fz_content finalized = ?c"
      using tripleD [OF persist_marked [OF durable] _ r(2)] by (fastforce split: sum.splits)
  qed
  have emitted: "triple (following f0) (\<lambda>r. \<exists>e m. marked f0 (Some ?c, True, e) m r \<and> fz_content finalized = ?c)
      (emit_response su ?c deltas finalized) (\<lambda>_. following f0)" for finalized
    using emit_following [OF durable] unfolding triple_def by (metis (no_types, lifting))
  show "triple (following f0) (\<lambda>r. known f0 first r \<and> pf_response (pe_finalization (er_state r)) = stable) (case stable of
      None \<Rightarrow> raise (RuntimeError ''finalization did not record a stable response'')
    | Some content \<Rightarrow> bindP (persist_response su content first) (\<lambda>finalized. bindP (emit_response su content deltas finalized) (\<lambda>_.
        outcome (env_of su) FR_COMPLETED (fz_output finalized) None None))) (\<lambda>_. following f0)"
  proof (rule triple_assume [where C = "stable = Some ?c"])
    assume "stable = Some ?c"
    then show "triple (following f0) (\<lambda>r. known f0 first r \<and> pf_response (pe_finalization (er_state r)) = stable) (case stable of
        None \<Rightarrow> raise (RuntimeError ''finalization did not record a stable response'')
      | Some content \<Rightarrow> bindP (persist_response su content first) (\<lambda>finalized. bindP (emit_response su content deltas finalized) (\<lambda>_.
          outcome (env_of su) FR_COMPLETED (fz_output finalized) None None))) (\<lambda>_. following f0)"
      by (auto intro!: triple_bind [OF triple_pre [OF persisted]] triple_bind [OF emitted] outcome_following)
  qed (auto simp: known_def)
qed

lemma finalize_following:
  assumes durable: "xs_checkpointing (su_services su)"
  shows "triple (following f0) (following f0) (finalize_run su) (\<lambda>_. following f0)"
  unfolding finalize_run_def
proof (rule triple_read)
  fix recorded
  note complete = complete_following [OF durable]
  let ?P = "\<lambda>r. following f0 r \<and> pf_response (pe_finalization (er_state r)) = recorded"
  have start: "triple (following f0) ?P m (\<lambda>_. following f0)"
    if "\<And>p e j. triple (following f0) (marked f0 (recorded, p, e) j) m (\<lambda>_. following f0)" for m :: "('a engine_run, 'b) prog"
  proof (rule tripleI)
    fix r out r' assume r: "?P r" "m r = (out, r')"
    then obtain p e j where "marked f0 (recorded, p, e) j r"
      using following_marked [of f0 r] by (auto simp: marks_of_def pf_marks_def)
    then show "case out of Inl e \<Rightarrow> following f0 r' | Inr x \<Rightarrow> following f0 r'"
      using tripleD [OF that _ r(2)] by blast
  qed
  show "triple (following f0) ?P (case recorded of
      None \<Rightarrow> bindP (produce_response su) (\<lambda>first. complete_finalization su (fz_buffered_deltas first) first)
    | Some content \<Rightarrow> bindP (recorded_response su content) (complete_finalization su [])) (\<lambda>_. following f0)"
  proof (rule start, cases recorded)
    fix p e j assume "recorded = None"
    then show "triple (following f0) (marked f0 (recorded, p, e) j) (case recorded of
        None \<Rightarrow> bindP (produce_response su) (\<lambda>first. complete_finalization su (fz_buffered_deltas first) first)
      | Some content \<Rightarrow> bindP (recorded_response su content) (complete_finalization su [])) (\<lambda>_. following f0)"
      by (auto intro!: triple_bind [OF produce_marked [OF durable]] triple_pre [OF complete] dest: marked_known)
  next
    fix p e j c assume "recorded = Some c"
    then show "triple (following f0) (marked f0 (recorded, p, e) j) (case recorded of
        None \<Rightarrow> bindP (produce_response su) (\<lambda>first. complete_finalization su (fz_buffered_deltas first) first)
      | Some content \<Rightarrow> bindP (recorded_response su content) (complete_finalization su [])) (\<lambda>_. following f0)"
      by (auto intro!: triple_bind [OF recorded_marked] triple_pre [OF complete] dest: marked_known)
  qed
qed

subsection \<open>Every run follows the protocol\<close>

lemma from_record:
  assumes "\<And>f. recorded_triple f0 f False m (\<lambda>_. on_record f0 f b)"
  shows "triple (following f0) (following f0) m (\<lambda>_. following f0)"
proof (rule tripleI)
  fix r out r' assume r: "following f0 r" "m r = (out, r')"
  then have start: "on_record f0 (marks_of (er_state r)) False r" using following_marked [OF r(1)] by (auto simp: on_record_def)
  show "case out of Inl e \<Rightarrow> following f0 r' | Inr x \<Rightarrow> following f0 r'"
    using tripleD [OF assms start r(2)] by (auto split: sum.splits dest: on_record_following)
qed

lemma model_turn_keeps [record_intros]: "keeps_record f0 f b (model_turn su request phase)"
  unfolding model_turn_def by (auto intro!: record_intros split: option.split)

lemma recorded_ret: "(b' \<Longrightarrow> b) \<Longrightarrow> recorded_triple f0 f b (ret x) (\<lambda>_. on_record f0 f b')"
  and recorded_raise: "recorded_triple f0 f b (raise e) Q"
  by (auto simp: triple_def ret_def raise_def on_record_def)

lemmas recorded_steps = recorded_ret recorded_raise recorded_sync recorded_pull keeps_bind [OF keeps_readP] keeps_bind [OF keeps_serve]
  keeps_bind [OF keeps_publish] keeps_bind [OF keeps_checkpoint] keeps_bind [OF keeps_modify] keeps_bind [OF keeps_add_message]
  keeps_bind [OF keeps_clear] keeps_bind [OF keeps_put] keeps_bind [OF model_turn_keeps] keeps_bind [OF keeps_policy]
  keeps_bind [OF keeps_wait [OF keeps_policy]] prepare_keeps_final validate_keeps_final decide_keeps_final
  begin_finalization_keeps_final

lemma prepare_turn_recorded: "recorded_triple f0 f b (prepare_turn su) (\<lambda>_. on_record f0 f True)"
  unfolding prepare_turn_def by (rule recorded_state) (auto intro!: recorded_steps split: option.split)

lemma begin_finalization_recorded: "recorded_triple f0 f b (begin_finalization_turn su) (\<lambda>_. on_record f0 f True)"
  unfolding begin_finalization_turn_def by (auto intro!: recorded_steps)

lemma decide_turn_recorded: "recorded_triple f0 f b (decide_turn su step) (\<lambda>_. on_record f0 f True)"
  unfolding decide_turn_def Let_def
  by (auto intro!: recorded_steps recorded_ofR keeps_bind [OF keeps_ret] keeps_bind [OF keeps_ofR])

lemma validate_turn_recorded: "recorded_triple f0 f b (validate_turn su) (\<lambda>_. on_record f0 f True)"
  unfolding validate_turn_def by (auto intro!: recorded_steps)

lemma commit_turn_recorded: "keeps_record f0 f b (commit_turn su step)"
  unfolding commit_turn_def Let_def by (auto intro!: record_intros split: option.split)

lemma act_recorded: "recorded_triple f0 f True (act_on_decision su step constraint d) (\<lambda>_. on_record f0 f False)"
proof -
  have tools: "recorded_triple f0 f True (bindP (execute_tools su calls constraint) (\<lambda>out.
      if out = None then bindP (pull_state su) (\<lambda>_. ret None) else ret out)) (\<lambda>_. on_record f0 f False)" for calls f
    by (rule triple_bind [OF execute_tools_recorded]) (auto intro!: recorded_steps)
  have final: "recorded_triple f0 f True (begin_finalization_turn su) (\<lambda>_. on_record f0 f False)" for f
    by (rule triple_post [OF begin_finalization_recorded]) (rule on_record_weaken)
  have last: "recorded_triple f0 f True m (\<lambda>_. on_record f0 f False)" if "keeps_record f0 f True m" for f and m :: "('a engine_run, 'b) prog"
    by (rule recorded_last [OF that]) simp
  show ?thesis
    unfolding act_on_decision_def Let_def
    by (rule recorded_state) (cases "dn_kind d"; simp; intro tools final recorded_raise last record_intros commit_turn_recorded)
qed

lemma turn_following:
  assumes durable: "xs_checkpointing (su_services su)"
  shows "triple (following f0) (following f0) (engine_turn su) (\<lambda>_. following f0)"
proof -
  have failed: "triple (following f0) (\<lambda>r. following f0 r \<and> r = x) (bindP (ofR (to_legacy (ref_of su) (er_state x))) (\<lambda>legacy.
      fail_engine su legacy error reason)) (\<lambda>_. following f0)" for x error reason
  proof (rule triple_ofR)
    fix legacy assume legacy: "to_legacy (ref_of su) (er_state x) = Inr legacy"
    show "triple (following f0) (\<lambda>r. following f0 r \<and> r = x) (fail_engine su legacy error reason) (\<lambda>_. following f0)"
    proof (rule tripleI)
      fix r out r' assume r: "following f0 r \<and> r = x" "fail_engine su legacy error reason r = (out, r')"
      then have start: "on_record f0 (es_marks legacy) False r"
        using following_marked [of f0 r] to_legacy_marks [OF legacy] by (auto simp: on_record_def)
      show "case out of Inl e \<Rightarrow> following f0 r' | Inr x \<Rightarrow> following f0 r'"
        using tripleD [OF fail_engine_recorded [OF refl] start r(2)] by (auto split: sum.splits dest: on_record_following)
    qed
  qed simp
  have drop: "triple (following f0) (\<lambda>r. following f0 r \<and> r = x) m (\<lambda>_. following f0)"
    if "triple (following f0) (following f0) m (\<lambda>_. following f0)" for x and m :: "('a engine_run, 'b) prog"
    by (rule triple_pre [OF that]) simp
  have act: "triple (following f0) (following f0) (bindP (if b then validate_turn su else if c then decide_turn su step else raise e)
      (\<lambda>(constraint, d). bindP (publish su kind (g d)) (\<lambda>_. act_on_decision su step constraint d))) (\<lambda>_. following f0)"
    for b c step e kind g
    by (rule from_record [where b = False], rule triple_bind [where R = "\<lambda>_. on_record f0 f True" for f])
      (auto intro!: validate_turn_recorded decide_turn_recorded recorded_raise keeps_bind [OF keeps_publish] act_recorded)
  have scheduled: "triple (following f0) (\<lambda>r. following f0 r \<and> r = x) (bindP (checkpoint su b) (\<lambda>_.
      bindP (put_engine (er_state x\<lparr>pe_phase := ph\<rparr>)) (\<lambda>_. ret None))) (\<lambda>_. following f0)" for x b ph
  proof (rule tripleI)
    fix r out r' assume r: "following f0 r \<and> r = x" and run: "bindP (checkpoint su b) (\<lambda>_.
      bindP (put_engine (er_state x\<lparr>pe_phase := ph\<rparr>)) (\<lambda>_. ret None)) r = (out, r')"
    have last: "recorded_triple f0 (marks_of (er_state x)) False (bindP (checkpoint su b) (\<lambda>_.
      bindP (put_engine (er_state x\<lparr>pe_phase := ph\<rparr>)) (\<lambda>_. ret None))) (\<lambda>_. on_record f0 (marks_of (er_state x)) False)"
      by (intro recorded_steps) simp_all
    have start: "on_record f0 (marks_of (er_state x)) False r" using following_marked [of f0 r] r by (auto simp: on_record_def)
    show "case out of Inl e \<Rightarrow> following f0 r' | Inr x \<Rightarrow> following f0 r'"
      using tripleD [OF last start run] by (auto split: sum.splits dest: on_record_following)
  qed
  show ?thesis
    unfolding engine_turn_def Let_def
  proof (rule triple_read, unfold id_apply, intro triple_if triple_raise failed, goal_cases)
    case (2 x)
    have verify: "triple (following f0) (\<lambda>r. following f0 r \<and> r = x)
        (bindP (ofR y) (\<lambda>_. begin_finalization_turn su)) (\<lambda>_. following f0)" for y :: "unit res"
      by (rule triple_ofR) (auto intro!: drop [OF from_record [OF begin_finalization_recorded]])
    have decoded: "triple (following f0) (\<lambda>r. following f0 r \<and> r = x)
        (bindP (ofR y) (\<lambda>out. outcome env FR_COMPLETED out None None)) (\<lambda>_. following f0)" for y env
      by (rule triple_ofR) (auto intro!: drop [OF outcome_following])
    show ?case
      by (cases "pe_phase (er_state x)"; simp only: engine_phase.case;
        intro triple_raise drop [OF outcome_following] drop [OF finalize_following [OF durable]] scheduled verify decoded
          drop [OF from_record [OF prepare_turn_recorded]] drop [OF act] triple_option; simp)
  qed simp_all
qed

lemma loop_following:
  "xs_checkpointing (su_services su) \<Longrightarrow> triple (following f0) (following f0) (engine_loop n su) (\<lambda>_. following f0)"
proof (induction n)
  case 0
  then show ?case by (auto intro!: triple_ret)
next
  case (Suc n)
  then show ?case by (auto intro!: triple_bind [OF turn_following] triple_ret)
qed

lemma configure_services: "configure_policy su w = Inr su' \<Longrightarrow> su_services su' = su_services su \<and> env_of su' = env_of su"
  by (auto simp: configure_policy_def Let_def bindR_Inr_iff configure_available_tools_def configure_limits_def
      configure_tool_repair_limits_def split: if_splits)

lemma execute_following:
  assumes "xs_checkpointing (su_services su)"
  shows "triple (following f0) (following f0) (engine_execute n su) (\<lambda>_. following f0)"
proof (rule tripleI)
  fix r out r' assume r: "following f0 r" "engine_execute n su r = (out, r')"
  show "case out of Inl e \<Rightarrow> following f0 r' | Inr x \<Rightarrow> following f0 r'"
  proof (cases "configure_policy su (cx_world (er_context r))")
    case (Inl e)
    then show ?thesis using r by (auto simp: engine_execute_def configured_def)
  next
    case (Inr su')
    then have "engine_loop n su' r = (out, r')" using r(2) by (simp add: engine_execute_def configured_def)
    then show ?thesis
      using tripleD [OF loop_following r(1)] assms configure_services [OF Inr] by metis
  qed
qed

lemma run_protocol:
  assumes "xs_checkpointing (su_services su)" and "er_actions r = []" and "engine_execute n su r = (out, r')"
  shows "\<exists>m. protocol_run (marks_of (er_state r), M_none) (er_actions r') = Some (marks_of (er_state r'), m)"
proof -
  have "following (marks_of (er_state r)) r" using assms(2) by (simp add: following_def)
  then have "following (marks_of (er_state r)) r'"
    using tripleD [OF execute_following [OF assms(1)] _ assms(3)] by (auto split: sum.splits)
  then show ?thesis by (auto simp: following_def split: option.splits)
qed

text \<open>
  C2.  Every run of the engine refines the protocol of the finalization: started in any state, however far it
  gets and however it ends, its actions are accepted one by one by the abstract machine, whose marks are
  those of the state it leaves.  In particular the model is asked for the final answer only while
  none is on record, only the answer on record is persisted, and it is emitted only right after the
  checkpoint that marks it.
\<close>

theorem engine_follows_protocol:
  assumes "xs_checkpointing (su_services su)" and "er_actions r = []" and "engine_execute n su r = (out, r')"
  shows "\<exists>m. protocol_run (marks_of (er_state r), M_none) (er_actions r') = Some (marks_of (er_state r'), m)"
  using assms by (rule run_protocol)

subsection \<open>Crashes\<close>

text \<open>What a resumed session starts from: the state of the last checkpoint that was written.\<close>

definition last_checkpoint :: "plan_engine_state \<Rightarrow> engine_action list \<Rightarrow> plan_engine_state" where
  "last_checkpoint = foldl (\<lambda>s a. case a of EA_checkpoint b t \<Rightarrow> t | _ \<Rightarrow> s)"

text \<open>
  A run with its crashes: every session decodes the last checkpoint and executes; of its actions only a part,
  from the start, may have taken place before it was lost.
\<close>

inductive crash_history :: "'w itself \<Rightarrow> codec_env \<Rightarrow> plan_engine_state \<Rightarrow> engine_action list \<Rightarrow> plan_engine_state \<Rightarrow> bool"
  for ty :: "'w itself" and env s0 where
  started: "crash_history ty env s0 [] s0"
| session: "crash_history ty env s0 h s \<Longrightarrow> decode env (encode env s) = Inr (er_state (r :: 'w engine_run)) \<Longrightarrow>
    er_actions r = [] \<Longrightarrow> env_of su = env \<Longrightarrow> xs_checkpointing (su_services su) \<Longrightarrow>
    engine_execute n su r = (out, r') \<Longrightarrow> er_actions r' = acts @ lost \<Longrightarrow>
    crash_history ty env s0 (h @ acts) (last_checkpoint s acts)"

lemma protocol_marks:
  "protocol_run (marks_of s, m) acts = Some (f, m') \<Longrightarrow> f = marks_of (last_checkpoint s acts)"
proof (induction acts arbitrary: s m)
  case Nil
  then show ?case by (simp add: last_checkpoint_def)
next
  case (Cons a acts)
  have marks: "protocol_step (marks_of s, m) a = Some (marks_of (last_checkpoint s [a]), m1)"
    if "protocol_step (marks_of s, m) a = Some (f1, m1)" for f1 m1
    using that by (cases "marks_of s"; cases a) (auto simp: last_checkpoint_def split: if_splits prod.splits)
  obtain m1 where "protocol_step (marks_of s, m) a = Some (marks_of (last_checkpoint s [a]), m1)"
    using Cons.prems marks by (auto split: option.splits)
  then show ?case using Cons.prems Cons.IH [of "last_checkpoint s [a]" m1] by (simp add: last_checkpoint_def)
qed

lemma protocol_any:
  assumes "protocol_run (f, M_none) acts = Some (f', m')"
  shows "\<exists>m''. protocol_run (f, m) acts = Some (f', m'')"
proof (cases acts)
  case (Cons a rest)
  have step: "protocol_step (f, M_none) a = Some st \<Longrightarrow> protocol_step (f, m) a = Some st" for st
  proof (cases a)
    case (EA_checkpoint b s)
    obtain r1 p1 e1 r2 p2 e2 where "f = (r1, p1, e1)" "marks_of s = (r2, p2, e2)" by (metis prod_cases3)
    then show "protocol_step (f, M_none) a = Some st \<Longrightarrow> protocol_step (f, m) a = Some st"
      using EA_checkpoint by (cases r1) (auto split: if_splits)
  qed (cases f; simp split: if_splits)+
  have "protocol_step (f, M_none) a \<noteq> None" using assms Cons by (auto split: option.splits)
  then have "protocol_step (f, m) a = protocol_step (f, M_none) a" using step by auto
  then show ?thesis using assms Cons by simp
qed (use assms in simp)

lemma decoded_marks:
  assumes laws: "coercions_ok (ce_text_of env) (ce_int_of env)" and run: "decode env (encode env s) = Inr s'"
  shows "marks_of s' = marks_of s"
proof -
  obtain final pf where final: "mapping_value ''finalization must be an object'' (PDict (dump_finalization (pe_finalization s))) = Inr final"
      "load_finalization env final = Inr pf" "pe_finalization s' = pf"
    using run unfolding decode_def bindR_Inr_iff
    by (auto simp: encode_def engine_state_iff bindR_Inr_iff)
  have "pf_marks pf = pf_marks (pe_finalization s)"
    using final(1,2) laws
    by (auto simp: mapping_value_def load_finalization_def dump_finalization_def bindR_Inr_iff PlanFinalizationState_def pf_marks_def
      optional_str_value)
  then show ?thesis using final(3) by (simp add: marks_of_def)
qed

lemma crash_protocol:
  assumes laws: "coercions_ok (ce_text_of env) (ce_int_of env)" and "crash_history ty env s0 h s"
  shows "\<exists>m. protocol_run (marks_of s0, M_none) h = Some (marks_of s, m)"
  using assms(2)
proof (induction rule: crash_history.induct)
  case started
  then show ?case by simp
next
  case (session h s r su n out r' acts lost)
  obtain m where m: "protocol_run (marks_of s0, M_none) h = Some (marks_of s, m)" using session.IH by blast
  have "marks_of (er_state r) = marks_of s" using decoded_marks [OF laws session.hyps(2)] .
  then obtain m1 where "protocol_run (marks_of s, M_none) (acts @ lost) = Some (marks_of (er_state r'), m1)"
    using run_protocol session.hyps by metis
  then obtain f m2 where m2: "protocol_run (marks_of s, M_none) acts = Some (f, m2)"
    by (auto simp: protocol_append split: option.splits)
  then have "f = marks_of (last_checkpoint s acts)" by (rule protocol_marks)
  then show ?case using protocol_any [OF m2, of m] m by (auto simp: protocol_append)
qed

text \<open>Once a response is marked emitted, nothing of the finalization happens again.\<close>

definition finalizing :: "engine_action \<Rightarrow> bool" where
  "finalizing a \<longleftrightarrow> (case a of EA_finalize \<Rightarrow> True | EA_persist c \<Rightarrow> True | EA_emit c \<Rightarrow> True | _ \<Rightarrow> False)"

lemma protocol_over:
  assumes "protocol_run ((Some c, True, True), m) acts = Some st" and "m \<noteq> M_marked"
  shows "\<forall>a \<in> set acts. \<not> finalizing a"
  using assms
proof (induction acts arbitrary: m)
  case (Cons a acts)
  obtain st1 where st1: "protocol_step ((Some c, True, True), m) a = Some st1"
      "protocol_run st1 acts = Some st" using Cons.prems(1) by (auto split: option.splits)
  have "\<not> finalizing a \<and> st1 = ((Some c, True, True), M_none)"
    using st1(1) Cons.prems(2) by (cases a) (auto simp: finalizing_def split: if_splits prod.splits)
  then show ?case using Cons.IH [of M_none] st1(2) by auto
qed simp

text \<open>How a mark came to stand where it does.\<close>

lemma protocol_marked:
  assumes "protocol_run (f0, M_none) acts = Some ((response, p, e), M_marked)"
  shows "\<exists>acts0 t. acts = acts0 @ [EA_checkpoint DB_FINALIZATION_EMITTED t] \<and> marks_of t = (response, p, e) \<and> e \<and> p \<and>
    (\<exists>m. protocol_run (f0, M_none) acts0 = Some ((response, True, False), m))"
proof (cases acts rule: rev_cases)
  case (snoc acts0 a)
  then obtain f m where m: "protocol_run (f0, M_none) acts0 = Some (f, m)" "protocol_step (f, m) a = Some ((response, p, e), M_marked)"
    using assms by (auto simp: protocol_append split: option.splits)
  obtain t where "a = EA_checkpoint DB_FINALIZATION_EMITTED t" "marks_of t = (response, p, e)" "e" "p" "f = (response, True, False)"
    using m(2) by (cases f; cases a) (auto split: if_splits prod.splits option.splits)
  then show ?thesis using snoc m(1) by blast
qed (use assms in simp)

lemma protocol_response:
  assumes "protocol_run ((Some d, p0, e0), m0) acts = Some ((r, p, e), m)"
  shows "r = Some d \<and> (\<forall>c. EA_persist c \<in> set acts \<or> EA_emit c \<in> set acts \<longrightarrow> c = d)"
  using assms
proof (induction acts arbitrary: p0 e0 m0)
  case (Cons a acts)
  obtain st1 where st1: "protocol_step ((Some d, p0, e0), m0) a = Some st1"
      "protocol_run st1 acts = Some ((r, p, e), m)" using Cons.prems by (auto split: option.splits)
  have "\<exists>p1 e1 m1. st1 = ((Some d, p1, e1), m1) \<and> (\<forall>c. a = EA_persist c \<or> a = EA_emit c \<longrightarrow> c = d)"
    using st1(1) by (cases a) (auto split: if_splits prod.splits)
  then show ?case using Cons.IH st1(2) by auto
qed simp

text \<open>A response that is persisted is the one that was asked to be persisted.\<close>

lemma protocol_persists:
  assumes "protocol_run (f0, m0) acts = Some ((Some d, p, e), m)" and "EA_persist c \<in> set acts"
  shows "c = d"
proof -
  obtain xs ys where acts: "acts = xs @ EA_persist c # ys" using assms(2) by (auto dest: split_list)
  then obtain f j where j: "protocol_run (f0, m0) xs = Some (f, j)" "protocol_run (f, j) (EA_persist c # ys) = Some ((Some d, p, e), m)"
    using assms(1) by (auto simp: protocol_append split: option.splits)
  obtain p1 e1 where "f = (Some c, p1, e1)" using j(2) by (cases f) (auto split: if_splits option.splits)
  then show ?thesis using protocol_response j(2) by fastforce
qed

lemma protocol_persisted:
  assumes "protocol_run ((r0, p0, e0), m0) acts = Some ((Some c, True, e), m)"
  shows "p0 \<or> m0 = M_persisted c \<or> EA_persist c \<in> set acts"
  using assms
proof (induction acts arbitrary: r0 p0 e0 m0)
  case (Cons a acts)
  obtain r1 p1 e1 m1 where st1: "protocol_step ((r0, p0, e0), m0) a = Some ((r1, p1, e1), m1)"
      "protocol_run ((r1, p1, e1), m1) acts = Some ((Some c, True, e), m)" using Cons.prems by (auto split: option.splits)
  have rest: "p1 \<or> m1 = M_persisted c \<or> EA_persist c \<in> set acts" by (rule Cons.IH [OF st1(2)])
  have kept: "d = c" if "r1 = Some d" for d using protocol_response [OF st1(2) [unfolded that]] by simp
  show ?case
    using st1(1) rest kept by (cases a) (auto split: if_splits prod.splits option.splits)
qed simp

text \<open>
  C1.  The final answer is emitted at most once, whatever crashes: over all sessions of a run, each resumed
  from the last checkpoint that was written, with the actions of a session lost from any point on, an emission
  directly follows the checkpoint that marks exactly this answer persisted and emitted, every answer
  that was persisted before is this one, and it was persisted unless the run started with it; and after
  the emission, in this and in every later session, the model is not asked again for an answer, and none is
  persisted or emitted.
\<close>

theorem final_output_once:
  assumes laws: "coercions_ok (ce_text_of env) (ce_int_of env)" and history: "crash_history ty env s0 h s"
    and emission: "h = start @ EA_emit c # rest"
  shows "(\<exists>earlier t. start = earlier @ [EA_checkpoint DB_FINALIZATION_EMITTED t] \<and> marks_of t = (Some c, True, True)) \<and>
    (pf_persisted (pe_finalization s0) \<or> EA_persist c \<in> set start) \<and> (\<forall>c'. EA_persist c' \<in> set start \<longrightarrow> c' = c) \<and>
    (\<forall>a \<in> set rest. \<not> finalizing a)"
proof -
  obtain m where run: "protocol_run (marks_of s0, M_none) (start @ EA_emit c # rest) = Some (marks_of s, m)"
    using crash_protocol [OF laws history] emission by blast
  then obtain f j where j: "protocol_run (marks_of s0, M_none) start = Some (f, j)"
      "protocol_run (f, j) (EA_emit c # rest) = Some (marks_of s, m)" by (auto simp: protocol_append split: option.splits)
  obtain p e where f: "f = (Some c, p, e)" "j = M_marked" "protocol_run ((Some c, p, e), M_none) rest = Some (marks_of s, m)"
    using j(2) by (cases f) (auto split: if_splits)
  obtain earlier t where marked: "start = earlier @ [EA_checkpoint DB_FINALIZATION_EMITTED t]" "marks_of t = (Some c, p, e)" "e" "p"
    using protocol_marked j(1) unfolding f by blast
  have "pf_persisted (pe_finalization s0) \<or> EA_persist c \<in> set start"
    using protocol_persisted [of "pf_response (pe_finalization s0)" "pf_persisted (pe_finalization s0)"
      "pf_emitted (pe_finalization s0)" M_none start c e j] j(1) marked(4) by (auto simp: f marks_of_def pf_marks_def)
  moreover have "\<forall>c'. EA_persist c' \<in> set start \<longrightarrow> c' = c" using protocol_persists j(1) unfolding f by blast
  moreover have "\<forall>a \<in> set rest. \<not> finalizing a" using protocol_over f(3) marked(3,4) by auto
  ultimately show ?thesis using marked by auto
qed

end
