(* ===== verification/Plan_Engine_Samples.thy ===== *)
theory Plan_Engine_Samples
  imports Plan_Engine_Final
begin

text \<open>
  A plan of two completed steps whose final answer is on record: a session persists it and emits it, another one
  crashes on the way; the theorems of the engine at these runs.
\<close>

subsection \<open>Services\<close>

definition asked_step :: "engine_request \<Rightarrow> string" where
  "asked_step request = (case drop 2 (rq_messages request) of
     PDict ((_, _) # (_, PStr i) # _) # _ \<Rightarrow> i | _ \<Rightarrow> [])"

definition sample_answer :: finalization_result where
  "sample_answer = \<lparr>fz_output = PStr ''done'', fz_content = ''answer'', fz_buffered_deltas = [''an'', ''swer''],
     fz_persisted = False\<rparr>"

definition answered :: "tool_call \<Rightarrow> tool_result" where
  "answered c = \<lparr>tr_call_id = tk_id c, tr_tool_name = tk_name c, tr_success = True, tr_value = PStr ''v'', tr_error = None,
     tr_attempts = 1, tr_duration_seconds = 0, tr_invocation_arguments = None, tr_repair_safe = False\<rparr>"

definition sample_services :: "unit engine_services" where
  "sample_services = \<lparr>xs_budget = \<lparr>xb_max_steps = 4, xb_max_tool_calls = 4, xb_max_step_attempts = 2, xb_max_replans = 2,
       xb_max_tool_repair_attempts = 1, xb_parallel_tool_calls = False, xb_max_parallel_tools = 1,
       xb_max_model_turns = 20, xb_no_progress_threshold = 3\<rparr>,
     xs_remaining = (\<lambda>_. 1),
     xs_tool_schemas = (\<lambda>names _. case names of None \<Rightarrow> [(''t'', True)] | Some ns \<Rightarrow> map (\<lambda>n. (n, True)) ns),
     xs_output_schema = PNone, xs_decode_output = (\<lambda>content _. Inr (PStr content)),
     xs_prepare = (\<lambda>request _ w. (Inr request, w)),
     xs_request_model = (\<lambda>request phase w.
       (Inr (if phase = ''act'' then calling (asked_step request) [] else answering (asked_step request)), w)),
     xs_stream_model = (\<lambda>request phase w. (Inr [], w)),
     xs_execute_batch = (\<lambda>calls _ _ w.
       (Inr \<lparr>ob_calls = calls, ob_results = map answered calls, ob_failures = [], ob_views = []\<rparr>, w)),
     xs_record_result = (\<lambda>_ _ w. (Inr (), w)),
     xs_finalize = (\<lambda>_ w. (Inr sample_answer, w)),
     xs_persist = (\<lambda>f w. (Inr (f\<lparr>fz_persisted := True\<rparr>), w)),
     xs_emit = (\<lambda>_ w. (Inr (), w)),
     xs_checkpointing = True, xs_checkpoint = (\<lambda>_ _ w. (Inr (), w)),
     xs_publish = (\<lambda>_ _ w. (Inr (), w)), xs_defer = (\<lambda>_ _ w. (Inr (), w))\<rparr>"

definition sample_setup :: "unit engine_setup" where
  "sample_setup = \<lparr>su_policy = sample_policy, su_services = sample_services,
     su_recovery = legacy_recovery_controller sample_policy, su_projector = default_projector,
     su_instructions = ''instructions'', su_objective = PStr ''objective'', su_step_result_schema = PNone,
     su_model_options = [], su_stream = False,
     su_json = (\<lambda>v. case v of PDict ((_, PDict fs) # _) \<Rightarrow>
       (case dget fs ''step_id'' of Some (PStr i) \<Rightarrow> i | _ \<Rightarrow> []) | _ \<Rightarrow> []),
     su_result_content = tr_call_id, su_error_text = (\<lambda>_. None)\<rparr>"

definition session_from :: "plan_engine_state \<Rightarrow> unit engine_run" where
  "session_from s = \<lparr>er_context = sample_context, er_state = s, er_step = 0, er_tool_calls = 0,
     er_resume_safety = None, er_actions = []\<rparr>"

definition finalizing_state :: plan_engine_state where
  "finalizing_state = projr (from_legacy (ce_text_of sample_env) (ce_int_of sample_env)
     ((snd (execution_run sample_ref (sample_commands ''b'') sample_half))\<lparr>es_phase := P_FINALIZE,
       es_final_response := Some ''answer'', es_finalization_count := 1\<rparr>))"

definition sample_run :: "engine_outcome option res \<times> unit engine_run" where
  "sample_run = engine_execute 2 sample_setup (session_from finalizing_state)"

definition sample_actions :: "engine_action list" where
  "sample_actions = er_actions (snd sample_run)"

definition action_key :: "engine_action \<Rightarrow> nat \<times> string" where
  "action_key a = (case a of EA_checkpoint b t \<Rightarrow> (0, []) | EA_persist c \<Rightarrow> (1, c) | EA_emit c \<Rightarrow> (2, c) | _ \<Rightarrow> (3, []))"

lemma action_key_iff [simp]:
  "action_key a = (0, []) \<longleftrightarrow> (\<exists>b t. a = EA_checkpoint b t)"
  "action_key a = (1, c) \<longleftrightarrow> a = EA_persist c"
  "action_key a = (2, c) \<longleftrightarrow> a = EA_emit c"
  by (simp_all add: action_key_def split: engine_action.split)

lemma sample_run_emits:
  "marks_of (er_state (snd sample_run)) = (Some ''answer'', True, True)"
  "\<exists>b1 t1 b2 t2. sample_actions = [EA_persist ''answer'', EA_checkpoint b1 t1, EA_checkpoint b2 t2, EA_emit ''answer'']"
proof -
  have run: "(case sample_run of (out, r) \<Rightarrow> (marks_of (er_state r), map action_key (er_actions r))) =
      ((Some ''answer'', True, True), [(1, ''answer''), (0, []), (0, []), (2, ''answer'')])"
    by code_simp
  then show "marks_of (er_state (snd sample_run)) = (Some ''answer'', True, True)" by (simp only: case_prod_beta prod.inject)
  have "map action_key sample_actions = [(1, ''answer''), (0, []), (0, []), (2, ''answer'')]"
    using run by (simp only: case_prod_beta prod.inject sample_actions_def)
  then show "\<exists>b1 t1 b2 t2. sample_actions = [EA_persist ''answer'', EA_checkpoint b1 t1, EA_checkpoint b2 t2, EA_emit ''answer'']"
    by (auto simp: map_eq_Cons_conv simp del: One_nat_def)
qed

lemma sample_durable: "xs_checkpointing (su_services sample_setup)" "env_of sample_setup = sample_env"
  by (simp_all add: sample_setup_def sample_services_def sample_policy_def)

lemma session_fields [simp]: "er_actions (session_from s) = []" "er_state (session_from s) = s"
  by (simp_all add: session_from_def)

theorem engine_follows_protocol_witness:
  "\<exists>m. protocol_run (marks_of finalizing_state, M_none) sample_actions = Some ((Some ''answer'', True, True), m)"
proof -
  have run: "engine_execute 2 sample_setup (session_from finalizing_state) = (fst sample_run, snd sample_run)"
    by (simp add: sample_run_def)
  show ?thesis
    using engine_follows_protocol [OF sample_durable(1) session_fields(1) run] sample_run_emits by (auto simp: sample_actions_def)
qed

subsection \<open>A crash\<close>

text \<open>
  The process dies after the answer was persisted and before the checkpoint that says so: the next session
  persists it again, marks it and emits it.
\<close>

lemma finalizing_decodes: "decode sample_env (encode sample_env finalizing_state) = Inr finalizing_state"
  by code_simp

lemma crashed_history:
  assumes "crash_history TYPE(unit) sample_env finalizing_state h finalizing_state" and "sample_actions = acts @ lost"
  shows "crash_history TYPE(unit) sample_env finalizing_state (h @ acts) (last_checkpoint finalizing_state acts)"
  using assms by (intro crash_history.session [where r = "session_from finalizing_state" and su = sample_setup
      and n = 2 and out = "fst sample_run" and r' = "snd sample_run" and lost = lost])
    (simp_all add: finalizing_decodes sample_durable sample_run_def sample_actions_def)

theorem final_output_once_witness:
  "\<exists>start t. EA_persist ''answer'' # sample_actions = start @ [EA_checkpoint DB_FINALIZATION_EMITTED t, EA_emit ''answer''] \<and>
     marks_of t = (Some ''answer'', True, True) \<and> EA_persist ''answer'' \<in> set start"
proof -
  obtain b1 t1 b2 t2 where acts: "sample_actions =
      [EA_persist ''answer''] @ [EA_checkpoint b1 t1, EA_checkpoint b2 t2, EA_emit ''answer'']"
    using sample_run_emits(2) by auto
  have "crash_history TYPE(unit) sample_env finalizing_state [EA_persist ''answer''] finalizing_state"
    using crashed_history [OF crash_history.started acts] by (simp add: last_checkpoint_def)
  then obtain s where history: "crash_history TYPE(unit) sample_env finalizing_state ([EA_persist ''answer''] @ sample_actions) s"
    using crashed_history [where lost = "[]"] by fastforce
  have "[EA_persist ''answer''] @ sample_actions =
      ([EA_persist ''answer'', EA_persist ''answer'', EA_checkpoint b1 t1] @ [EA_checkpoint b2 t2]) @ EA_emit ''answer'' # []"
    using acts by simp
  from final_output_once [OF sample_laws history this]
  have "b2 = DB_FINALIZATION_EMITTED" "marks_of t2 = (Some ''answer'', True, True)" by auto
  then show ?thesis
    using acts by (intro exI [of _ "[EA_persist ''answer'', EA_persist ''answer'', EA_checkpoint b1 t1]"] exI [of _ t2]) simp
qed

end
