(* ===== verification/Tool_Batch.thy ===== *)
theory Tool_Batch
  imports Tool_Runtime_Props
begin

text \<open>
  When a batch of Tool calls has an outcome: with well-behaved parties and call identifiers that the
  projection leaves as they are, always; with an identifier that the projection has to rewrite, a failed
  call makes the whole batch raise.
\<close>

subsection \<open>Texts that survive\<close>

lemma tight_last: "tight s \<Longrightarrow> s \<noteq> [] \<Longrightarrow> \<not> is_space (last s)"
  by (induction s rule: tight.induct) auto

lemma strip_plain: "plain s \<Longrightarrow> strip s = s"
  by (rule strip_id) (auto simp: plain_def dest: tight_last)

lemma alnum_not_space: "is_alnum c \<or> c \<in> set ''_.:-'' \<Longrightarrow> \<not> is_space c"
  by (auto simp: is_alnum_def is_digit_def digits_def is_space_def)

lemma strip_stable_reason: "stable_reason s \<Longrightarrow> strip s = s"
proof (rule strip_id)
  assume "stable_reason s" and "s \<noteq> []"
  then have "\<not> is_space c" if "c \<in> set s" for c
    using alnum_not_space that unfolding stable_reason_def list_all_iff by blast
  then show "\<not> is_space (hd s) \<and> \<not> is_space (last s)" using \<open>s \<noteq> []\<close> by simp
qed

lemma stable_error_type: "stable_reason (error_type_value t)"
  by (cases t; simp only: error_type_value.simps; code_simp)

subsection \<open>Constructors that do not raise\<close>

lemma reclassify_total:
  "stable_reason r \<Longrightarrow> ToolFailureClassification t r b a m d =
     Inr \<lparr>fc_error_type = t, fc_stable_reason = r, fc_retryable = b, fc_recovery_directive = a,
          fc_safe_message = m, fc_diagnostic_ref = d\<rparr>"
  by (auto simp: ToolFailureClassification_def Let_def strip_stable_reason bindR_Inr_iff stable_reason_def)

lemma classification_total:
  "\<exists>c. classification_from_tool_error e d = Inr c \<and> fc_error_type c = te_type e \<and> fc_retryable c = te_retryable e \<and>
     fc_recovery_directive c = te_recovery e \<and> stable_reason (fc_stable_reason c) \<and> fc_diagnostic_ref c = d"
proof -
  define declared where "declared = (case te_reason e of None \<Rightarrow> error_type_value (te_type e)
    | Some r \<Rightarrow> if r = [] then error_type_value (te_type e) else r)"
  define r where "r = (if stable_reason declared then declared else error_type_value (te_type e))"
  have "stable_reason r" by (simp add: r_def stable_error_type)
  moreover have "classification_from_tool_error e d =
      ToolFailureClassification (te_type e) r (te_retryable e) (te_recovery e) (Some (te_message e)) d"
    by (simp add: classification_from_tool_error_def Let_def r_def declared_def)
  ultimately show ?thesis by (simp add: reclassify_total)
qed

definition accepted_call :: "'w tool_runtime \<Rightarrow> tool_call \<Rightarrow> bool" where
  "accepted_call rt call \<longleftrightarrow> (\<forall>t \<in> {tk_id call, tk_name call}.
     plain t \<and> t \<noteq> [] \<and> length t \<le> fp_max_identifier_chars (rt_projector rt))"

lemma accepted_strip: "accepted_call rt call \<Longrightarrow> strip (tk_id call) \<noteq> [] \<and> strip (tk_name call) \<noteq> []"
  by (simp add: accepted_call_def strip_plain)

definition projector_ok :: "failure_projector \<Rightarrow> bool" where
  "projector_ok fp \<longleftrightarrow> 1 \<le> fp_max_identifier_chars fp \<and> 1 \<le> fp_max_reason_chars fp \<and> 1 \<le> fp_max_message_chars fp"

text \<open>An execution whose failure, if any, has a view that the outcome accepts.\<close>

definition presentable :: "'w tool_runtime \<Rightarrow> tool_call \<Rightarrow> call_execution \<Rightarrow> bool" where
  "presentable rt call x \<longleftrightarrow> execution_of call x \<and>
     (\<forall>f. ce_failure x = Some f \<longrightarrow> (\<exists>v. project (rt_projector rt) f True = Inr v \<and>
        sv_call_id v = tk_id call \<and> sv_tool_name v = tk_name call \<and> view_matches f v))"

lemma presentable_identity:
  "presentable rt call x \<Longrightarrow> tr_call_id (ce_result x) = tk_id call \<and> tr_tool_name (ce_result x) = tk_name call"
  by (auto simp: presentable_def execution_of_def failed_execution_def)

lemma project_total:
  assumes "accepted_call rt call" and "projector_ok (rt_projector rt)" and "if_call_id f = tk_id call"
    and "if_tool_name f = tk_name call" and "InternalToolFailure f = Inr f"
  shows "\<exists>v. project (rt_projector rt) f True = Inr v \<and>
    sv_call_id v = tk_id call \<and> sv_tool_name v = tk_name call \<and> view_matches f v"
proof -
  have types: "error_type_value t \<noteq> []" for t using stable_error_type [of t] by (simp add: stable_reason_def)
  have ids: "bounded_text (fp_max_identifier_chars (rt_projector rt)) d (tk_id call) = tk_id call"
    "bounded_text (fp_max_identifier_chars (rt_projector rt)) d (tk_name call) = tk_name call" for d
    using assms(1) by (simp_all add: accepted_call_def bounded_text_plain)
  show ?thesis
    using assms ids bounded_text_nonempty [OF _ types]
    by (auto simp: project_def Let_def SafeToolFailureView_def bindR_Inr_iff view_matches_def projector_ok_def
        InternalToolFailure_def accepted_call_def)
qed

lemma refuse_total:
  assumes call: "accepted_call rt call" and projector: "projector_ok (rt_projector rt)"
    and "fingerprint_ok rq" "fingerprint_ok (rf_effective rf)" "0 \<le> rf_attempts rf" "0 \<le> d"
    and "case rf_failure_id rf of None \<Rightarrow> True | Some i \<Rightarrow> strip i \<noteq> []"
  shows "\<exists>x. refuse call (Inr e) d profile rq rf = Inr x \<and> presentable rt call x"
proof -
  obtain r where r: "failed (tk_id call) (tk_name call) e (rf_attempts rf) d (rf_arguments rf) (rf_repair_safe rf) = Inr r"
    using accepted_strip [OF call] assms(5,6) by (auto simp: failed_def ToolResult_def bindR_Inr_iff)
  obtain c where c: "classification_from_tool_error e (rf_diagnostic rf) = Inr c" "stable_reason (fc_stable_reason c)"
    using classification_total by blast
  have "\<exists>f. internal_failure r profile rq (rf_effective rf) (rf_exhausted rf) (rf_diagnostic rf) (rf_failure_id rf)
      (rf_declared rf) = Inr f \<and> InternalToolFailure f = Inr f"
    using failed_result [OF r] c accepted_strip [OF call] assms(3-7)
    by (auto simp: internal_failure_def reclassify_total InternalToolFailure_def bindR_Inr_iff)
  then obtain f where f: "internal_failure r profile rq (rf_effective rf) (rf_exhausted rf) (rf_diagnostic rf)
      (rf_failure_id rf) (rf_declared rf) = Inr f" "InternalToolFailure f = Inr f" by blast
  have x: "refuse call (Inr e) d profile rq rf = Inr \<lparr>ce_result = r, ce_failure = Some f\<rparr>"
    by (simp add: refuse_def r f)
  then have "presentable rt call \<lparr>ce_result = r, ce_failure = Some f\<rparr>"
    using refuse_failed [OF x] project_total [OF call projector, of f] f(2)
    by (auto simp: presentable_def execution_of_def failed_execution_def)
  then show ?thesis using x by blast
qed

subsection \<open>Well-behaved parties\<close>

text \<open>
  Nothing is cancelled, no clock goes back, the argument hash is canonical, argument validation raises
  only the exceptions the runtime expects, a classifier answers with accepted classifications, and the
  retry policy allows an attempt.  Tools and authorizers may fail and raise as they like.
\<close>

definition tool_behaves :: "'a sched_scheme tool \<Rightarrow> bool" where
  "tool_behaves tool \<longleftrightarrow>
     (\<forall>t a c w. fst (tl_invoke tool t a c w) \<noteq> Inl TX_cancelled \<and> now w \<le> now (snd (tl_invoke tool t a c w))) \<and>
     (\<forall>a. case tl_validate tool a of V_raise e \<Rightarrow> False | _ \<Rightarrow> True) \<and>
     (\<forall>classifier e. tl_failure_classifier tool = Some classifier \<longrightarrow>
        (case classifier e of H_raise e' \<Rightarrow> e' \<noteq> TX_cancelled | H_value c \<Rightarrow> stable_reason (fc_stable_reason c)
         | _ \<Rightarrow> True)) \<and>
     (\<forall>mapper e. tl_error_mapper tool = Some mapper \<longrightarrow> mapper e \<noteq> H_raise TX_cancelled)"

definition runtime_behaves :: "'a sched_scheme env \<Rightarrow> 'a sched_scheme tool_runtime \<Rightarrow> bool" where
  "runtime_behaves E rt \<longleftrightarrow>
     (\<forall>name tool. get_tool (rt_registry rt) name = Some tool \<longrightarrow> tool_behaves tool) \<and>
     (\<forall>tool a c w. fst (rt_authorize rt tool a c w) \<noteq> Inl TX_cancelled) \<and>
     (\<forall>capture d w. rt_reporter rt = Some capture \<longrightarrow> fst (capture d w) \<noteq> Inl TX_cancelled) \<and>
     services_keep (\<lambda>u v. now u \<le> now v) rt \<and> (\<forall>w. now w \<le> now (await E w)) \<and>
     (\<forall>a. fingerprint_ok (rt_fingerprint rt a)) \<and> 1 \<le> ry_max_attempts (rt_retry rt) \<and>
     projector_ok (rt_projector rt)"

lemma behaves_capture:
  assumes "runtime_behaves E rt"
  obtains i w1 where "capture_diagnostic rt d w = (Inr i, w1)"
    "case i of None \<Rightarrow> True | Some s \<Rightarrow> strip s \<noteq> []" "now w \<le> now w1"
proof -
  have keep: "services_keep (\<lambda>u v. now u \<le> now v) rt" using assms by (simp add: runtime_behaves_def)
  have "\<exists>i. fst (capture_diagnostic rt d w) = Inr i \<and> (case i of None \<Rightarrow> True | Some s \<Rightarrow> strip s \<noteq> [])"
  proof (cases "rt_reporter rt")
    case None
    then show ?thesis by (simp add: capture_diagnostic_def)
  next
    case (Some capture)
    obtain a w' where a: "capture d w = (a, w')" by fastforce
    then have "a \<noteq> Inl TX_cancelled" using assms Some unfolding runtime_behaves_def by (metis fst_conv)
    then show ?thesis using Some a
      by (cases a; cases "projr a") (auto simp: capture_diagnostic_def split: sum.split)
  qed
  then show ?thesis using that capture_keeps [OF keep, of w d] by (metis prod.collapse)
qed

lemma as_error_total: "\<lbrakk>\<And>r. reason = Some r \<Longrightarrow> strip r \<noteq> []\<rbrakk> \<Longrightarrow> \<exists>e. ToolError t m b d reason a = Inr e"
  by (auto simp: ToolError_def bindR_Inr_iff split: option.split)

lemma reason_error_total: "strip r \<noteq> [] \<Longrightarrow> \<exists>e. ToolError t m b d (Some r) a = Inr e"
  by (simp add: ToolError_def)

lemma classify_total:
  assumes "tool_behaves tool" and "e \<noteq> TX_cancelled"
  shows "\<exists>ct. classify_error tool e timeout profile = Inr ct"
proof -
  have reasons: "strip ''uncancellable_timeout'' \<noteq> []" "strip ''failure_classifier_failed'' \<noteq> []"
    "strip ''invalid_failure_classifier_result'' \<noteq> []" "strip ''error_mapper_failed'' \<noteq> []"
    "strip ''invalid_error_mapper_result'' \<noteq> []" "strip ''tool_timeout'' \<noteq> []"
    by code_simp+
  have ok: "\<exists>ct. classified err b e op cat = Inr ct" if "\<exists>x. err = Inr x" for err b e op cat
    using that by (auto simp: classified_def)
  have raised: "\<exists>x. execution_error m d r = Inr x" if "strip r \<noteq> []" for m d r
    using that unfolding execution_error_def by (rule reason_error_total)
  have converted: "\<exists>x. tool_error_from_classification c = Inr x" if "stable_reason (fc_stable_reason c)" for c
    using that strip_stable_reason [OF that] unfolding tool_error_from_classification_def
    by (intro as_error_total) (auto simp: stable_reason_def)
  have hook1: "\<exists>ct. r = Inr ct" if "classify_by_classifier tool e = Some r" for r
    using that assms ok raised reasons converted unfolding classify_by_classifier_def tool_behaves_def
    by (fastforce split: option.splits hook.splits if_splits)
  have hook2: "\<exists>ct. r = Inr ct" if "classify_by_mapper tool e = Some r" for r
    using that assms ok raised reasons unfolding classify_by_mapper_def tool_behaves_def
    by (fastforce split: option.splits hook.splits if_splits)
  have timeouts: "\<exists>x. ToolError TIMEOUT m b d (Some r) a = Inr x" if "strip r \<noteq> []" for m b d r a
    using that by (rule reason_error_total)
  have unexpected: "\<exists>x. ToolError EXECUTION_ERROR m b d None a = Inr x" for m b d a
    by (rule as_error_total) simp
  show ?thesis
    using ok timeouts reasons(1,6) unexpected hook1 hook2 unfolding classify_error_def Let_def
    by (cases e) (auto split: option.split)
qed

subsection \<open>Calls that end with a result\<close>

lemma final_failure_total:
  assumes behaves: "runtime_behaves E rt" and call: "accepted_call rt call" and hashes: "fingerprint_ok rq" "fingerprint_ok ef"
    and "0 \<le> attempt" and "started \<le> now w"
  shows "\<exists>x w'. final_failure rt call c arguments profile rq ef started attempt exhausted e ct w = (Inr x, w') \<and>
    presentable rt call x \<and> now w \<le> now w'"
proof -
  obtain cl where cl: "classification_from_tool_error (ct_error ct) None = Inr cl" using classification_total by blast
  define d where "d = \<lparr>dr_exception = ct_diagnostic_error ct, dr_context = c, dr_call = call,
      dr_operation = ct_diagnostic_operation ct, dr_category = ct_diagnostic_category ct,
      dr_code = fc_stable_reason cl, dr_retryable = fc_retryable cl, dr_attempt = Some attempt\<rparr>"
  obtain i w1 where i: "capture_diagnostic rt d w = (Inr i, w1)"
    "case i of None \<Rightarrow> True | Some s \<Rightarrow> strip s \<noteq> []" "now w \<le> now w1"
    using behaves_capture [OF behaves] by blast
  let ?rf = "(plain_refusal (sf_changed_argument_repair_safe profile))
      \<lparr>rf_attempts := attempt, rf_arguments := Some arguments, rf_effective := ef, rf_exhausted := exhausted,
       rf_diagnostic := Some (case i of None \<Rightarrow> exn_name e | Some i \<Rightarrow> i), rf_failure_id := i,
       rf_declared := ct_safe_message_declared ct\<rparr>"
  have "0 \<le> seconds_since w1 started" using assms(6) i(3) by (simp add: seconds_since_def)
  then have "\<exists>x. refuse call (Inr (ct_error ct)) (seconds_since w1 started) profile rq ?rf = Inr x \<and>
      presentable rt call x"
    by (intro refuse_total call) (use behaves hashes assms(5) i(2) in \<open>simp_all add: runtime_behaves_def\<close>)
  then obtain x where x: "refuse call (Inr (ct_error ct)) (seconds_since w1 started) profile rq ?rf = Inr x"
    "presentable rt call x" by blast
  have "final_failure rt call c arguments profile rq ef started attempt exhausted e ct w = (Inr x, w1)"
    using x(1) i(1) by (simp add: final_failure_def cl ofR_def bindP_run readP_def d_def [symmetric])
  then show ?thesis using x(2) i(3) by blast
qed

lemma accept_value_total:
  assumes "accepted_call rt call" and "projector_ok (rt_projector rt)" and hashes: "fingerprint_ok rq" "fingerprint_ok ef"
    and "0 \<le> attempt" and "0 \<le> d"
  shows "\<exists>x. accept_value rt tool call arguments profile rq ef attempt d v = Inr x \<and> presentable rt call x"
proof -
  let ?safe = "sf_changed_argument_repair_safe profile"
  have "\<exists>r. succeeded (tk_id call) (tk_name call) v attempt d (Some arguments) ?safe = Inr r"
    using accepted_strip [OF assms(1)] assms(5,6) by (auto simp: succeeded_def ToolResult_def bindR_Inr_iff)
  then obtain r where r: "succeeded (tk_id call) (tk_name call) v attempt d (Some arguments) ?safe = Inr r" by blast
  then have fine: "presentable rt call \<lparr>ce_result = r, ce_failure = None\<rparr>"
    using succeeded_result [OF r] by (simp add: presentable_def execution_of_def)
  have "strip ''result_too_large'' \<noteq> []" by code_simp
  then have large: "\<exists>e. ToolError RESULT_TOO_LARGE m False details (if ?safe then Some ''result_too_large'' else None) a = Inr e"
    for m details a by (intro as_error_total) (auto split: if_splits)
  have "\<exists>x. refuse call (ToolError RESULT_TOO_LARGE m False details (if ?safe then Some ''result_too_large'' else None) a)
      d profile rq ((plain_refusal ?safe)\<lparr>rf_attempts := attempt, rf_arguments := Some arguments, rf_effective := ef\<rparr>) =
      Inr x \<and> presentable rt call x" for m details a
  proof -
    obtain e where e: "ToolError RESULT_TOO_LARGE m False details
        (if ?safe then Some ''result_too_large'' else None) a = Inr e" using large by blast
    show ?thesis unfolding e
      by (intro refuse_total assms(1,2) hashes(1)) (use hashes(2) assms(5,6) in \<open>simp_all add: plain_refusal_def\<close>)
  qed
  then show ?thesis using r fine by (auto simp: accept_value_def Let_def split: option.split)
qed

lemma attempt_loop_total:
  assumes behaves: "runtime_behaves E rt" and tool: "tool_behaves tool" and call: "accepted_call rt call"
    and hashes: "fingerprint_ok rq" "fingerprint_ok ef"
  shows "started \<le> now w \<Longrightarrow> 1 \<le> attempt \<Longrightarrow> attempt \<le> attempts \<Longrightarrow> int n = attempts - attempt + 1 \<Longrightarrow>
    \<exists>x w'. attempt_loop E n rt tool call c arguments profile rq ef started timeout attempts attempt w = (Inr x, w') \<and>
      presentable rt call x \<and> now w \<le> now w'"
proof (induction n arbitrary: attempt w)
  case (Suc n)
  define ac where "ac = c\<lparr>tc_tool_call_id := Some (tk_id call), tc_attempt := attempt\<rparr>"
  have ac: "for_call (tk_id call) attempt c = Inr ac" using Suc.prems(2) by (simp add: for_call_def ac_def)
  obtain a w1 where invoke: "tl_invoke tool timeout arguments ac w = (a, w1)" by fastforce
  have w1: "now w \<le> now w1" and alive: "a \<noteq> Inl TX_cancelled"
    using tool invoke unfolding tool_behaves_def by (metis snd_conv, metis fst_conv)
  have "0 \<le> seconds_since w1 started" using w1 Suc.prems(1) by (simp add: seconds_since_def)
  then have accept: "\<exists>x. accept_value rt tool call arguments profile rq ef attempt (seconds_since w1 started) v = Inr x \<and>
      presentable rt call x" for v
    by (intro accept_value_total call hashes) (use behaves Suc.prems(2) in \<open>auto simp: runtime_behaves_def\<close>)
  show ?case
  proof (cases a)
    case (Inr v)
    then obtain x where "accept_value rt tool call arguments profile rq ef attempt (seconds_since w1 started) v = Inr x"
      "presentable rt call x" using accept by blast
    then show ?thesis using Inr invoke ac w1 by (simp add: bindP_run ofR_def attempt_once_def)
  next
    case (Inl e)
    have e: "e \<noteq> TX_cancelled" using alive Inl by blast
    obtain ct where ct: "classify_error tool e timeout profile = Inr ct" using classify_total [OF tool e] by blast
    have once: "attempt_once rt tool call ac arguments profile rq ef started timeout attempt w = (Inl e, w1)"
      using Inl invoke by (simp add: attempt_once_def)
    show ?thesis
    proof (cases "retry_safe profile (ct_error ct) \<and> attempt < attempts")
      case True
      define w2 where "w2 = (if delay_for (rt_retry rt) attempt \<noteq> 0 then await E w1 else w1)"
      have w2: "now w1 \<le> now w2" using behaves by (simp add: w2_def runtime_behaves_def)
      obtain x w' where "attempt_loop E n rt tool call c arguments profile rq ef started timeout attempts (attempt + 1) w2 =
          (Inr x, w')" "presentable rt call x" "now w2 \<le> now w'"
        using Suc.IH [of w2 "attempt + 1"] Suc.prems True w1 w2 by auto
      then show ?thesis using ac once e ct True w1 w2
        by (simp add: bindP_run ofR_def modifyP_def ret_def w2_def split: if_splits)
    next
      case False
      let ?last = "retry_safe profile (ct_error ct) \<and> attempts \<le> attempt"
      have "\<exists>x w'. final_failure rt call ac arguments profile rq ef started attempt ?last e ct w1 = (Inr x, w') \<and>
          presentable rt call x \<and> now w1 \<le> now w'"
        by (rule final_failure_total [OF behaves call hashes]) (use Suc.prems w1 in auto)
      then show ?thesis using ac once e ct False w1 by (force simp: bindP_run ofR_def)
    qed
  qed
qed auto

lemma authorized_total:
  assumes behaves: "runtime_behaves E rt" and call: "accepted_call rt call" and hashes: "fingerprint_ok rq" "fingerprint_ok ef"
    and "started \<le> now w"
    and invoke: "\<And>w'. started \<le> now w' \<Longrightarrow> \<exists>x w''. invoke w' = (Inr x, w'') \<and> presentable rt call x \<and> now w' \<le> now w''"
  shows "\<exists>x w'. authorized rt tool call c arguments profile rq ef started invoke w = (Inr x, w') \<and> presentable rt call x \<and>
    now w \<le> now w'"
proof -
  obtain r w1 where auth: "rt_authorize rt tool arguments c w = (r, w1)" by fastforce
  have w1: "now w \<le> now w1" and alive: "r \<noteq> Inl TX_cancelled"
    using behaves auth unfolding runtime_behaves_def services_keep_def by (metis snd_conv, metis fst_conv)
  have reasons: "strip ''authorization_failed'' \<noteq> []" "strip ''invalid_authorization_decision'' \<noteq> []"
    "strip ''authorization_denied'' \<noteq> []" by code_simp+
  have refusal: "\<exists>x. refuse call (unauthorized m reason) (seconds_since u started) profile rq rf = Inr x \<and> presentable rt call x"
    if reason: "strip reason \<noteq> []" and fields: "rf_effective rf = ef" "rf_attempts rf = 0" "started \<le> now u"
      "case rf_failure_id rf of None \<Rightarrow> True | Some i \<Rightarrow> strip i \<noteq> []" for m reason u rf
  proof -
    obtain e where e: "unauthorized m reason = Inr e"
      using reason reason_error_total unfolding unauthorized_def by blast
    show ?thesis unfolding e
      by (intro refuse_total call hashes(1))
        (use behaves reason fields hashes(2) in \<open>simp_all add: runtime_behaves_def seconds_since_def\<close>)
  qed
  show ?thesis
  proof (cases r)
    case (Inl e)
    define d where "d = \<lparr>dr_exception = e, dr_context = c, dr_call = call, dr_operation = ''authorize'',
      dr_category = ''tool_authorization'', dr_code = ''authorization_backend_failed'', dr_retryable = False,
      dr_attempt = None\<rparr>"
    obtain i w2 where i: "capture_diagnostic rt d w1 = (Inr i, w2)" "case i of None \<Rightarrow> True | Some s \<Rightarrow> strip s \<noteq> []"
      "now w1 \<le> now w2" using behaves_capture [OF behaves] by blast
    obtain x where "refuse call (unauthorized ''tool authorization failed'' ''authorization_failed'')
        (seconds_since w2 started) profile rq
        ((plain_refusal (sf_changed_argument_repair_safe profile))\<lparr>rf_effective := ef,
          rf_diagnostic := Some (case i of None \<Rightarrow> exn_name e | Some i \<Rightarrow> i), rf_failure_id := i\<rparr>) = Inr x"
      "presentable rt call x"
      using refusal [OF reasons(1), of "(plain_refusal (sf_changed_argument_repair_safe profile))\<lparr>rf_effective := ef,
          rf_diagnostic := Some (case i of None \<Rightarrow> exn_name e | Some i \<Rightarrow> i), rf_failure_id := i\<rparr>" w2]
        i assms(5) w1 by (auto simp: plain_refusal_def)
    then show ?thesis using auth Inl alive i w1
      by (auto simp: authorized_def Let_def bindP_run readP_def ofR_def d_def)
  next
    case (Inr a)
    show ?thesis
    proof (cases "allows a")
      case True
      then show ?thesis
        using invoke [of w1] w1 assms(5) auth Inr authorized_allowed [of rt tool arguments c w a] by fastforce
    next
      case False
      let ?rf = "(plain_refusal (sf_changed_argument_repair_safe profile))\<lparr>rf_effective := ef\<rparr>"
      have "started \<le> now w1" using assms(5) w1 by simp
      then show ?thesis
        using refusal [OF reasons(2), of ?rf w1] refusal [OF reasons(3), of "?rf\<lparr>rf_declared := True\<rparr>" w1] False auth Inr w1
        by (cases a) (auto simp: authorized_def Let_def bindP_run readP_def ofR_def allows_def plain_refusal_def)
    qed
  qed
qed

lemma execute_one_total:
  assumes behaves: "runtime_behaves E rt" and call: "accepted_call rt call"
  shows "\<exists>x w'. execute_one E rt call c constraint w = (Inr x, w') \<and> presentable rt call x"
proof -
  let ?rq = "rt_fingerprint rt (tk_arguments call)"
  have hash: "fingerprint_ok (rt_fingerprint rt a)" for a using behaves by (simp add: runtime_behaves_def)
  have projector: "projector_ok (rt_projector rt)" using behaves by (simp add: runtime_behaves_def)
  have early: "\<exists>x. refuse call (ToolError t m False details (Some reason) a) 0 profile ?rq rf = Inr x \<and> presentable rt call x"
    if reason: "strip reason \<noteq> []" and fields: "rf_effective rf = None" "rf_attempts rf = 0" "rf_failure_id rf = None"
    for t m details reason a profile rf
  proof -
    obtain e where e: "ToolError t m False details (Some reason) a = Inr e"
      using reason_error_total [OF reason] by blast
    show ?thesis unfolding e
      by (intro refuse_total call projector hash) (simp_all add: fields fingerprint_ok_def)
  qed
  have reasons: "strip ''unknown_tool'' \<noteq> []" "strip ''tool_repair_not_safe'' \<noteq> []" "strip ''invalid_arguments'' \<noteq> []"
    "strip ''unchanged_repair_arguments'' \<noteq> []" by code_simp+
  show ?thesis
  proof (cases "get_tool (rt_registry rt) (tk_name call)")
    case None
    then show ?thesis using early [OF reasons(1)] by (auto simp: execute_one_def Let_def plain_refusal_def)
  next
    case (Some tool)
    have tool: "tool_behaves tool" using behaves Some unfolding runtime_behaves_def by blast
    let ?p = "resolve_tool_safety_profile tool" and ?c = "scoped_tool_context tool call c"
    show ?thesis
    proof (cases "constraint \<noteq> None \<and> \<not> sf_changed_argument_repair_safe ?p")
      case True
      then show ?thesis using Some early [OF reasons(2)] by (auto simp: execute_one_def Let_def plain_refusal_def)
    next
      case False
      show ?thesis
      proof (cases "tl_validate tool (tk_arguments call)")
        case (V_ok arguments)
        let ?ef = "rt_fingerprint rt arguments"
        define n where "n = (if sf_same_call_retry_safe ?p then ry_max_attempts (rt_retry rt) else 1)"
        have unchanged: "\<exists>x. unchanged_effective_arguments call arguments ?p ?rq ?ef 0 b = Inr x \<and> presentable rt call x" for b
        proof -
          obtain e where e: "ToolError INVALID_ARGUMENTS ''tool repair must change the effective arguments'' False []
              (Some ''unchanged_repair_arguments'') (Some REPAIR_CALL) = Inr e"
            using reason_error_total [OF reasons(4)] by blast
          show ?thesis unfolding unchanged_effective_arguments_def e
            by (intro refuse_total call projector hash) (simp_all add: plain_refusal_def hash)
        qed
        have n: "1 \<le> n" using behaves by (simp add: runtime_behaves_def n_def)
        have "\<exists>x w''. attempt_loop E (nat n) rt tool call ?c arguments ?p ?rq ?ef (now w) timeout n 1 w' =
            (Inr x, w'') \<and> presentable rt call x \<and> now w' \<le> now w''" if "now w \<le> now w'" for w' timeout
          by (intro attempt_loop_total [OF behaves tool call] hash that) (use n in auto)
        then have run: "\<exists>x w'. authorized rt tool call ?c arguments ?p ?rq ?ef (now w)
            (attempt_loop E (nat n) rt tool call ?c arguments ?p ?rq ?ef (now w) timeout n 1) w = (Inr x, w') \<and>
            presentable rt call x \<and> now w \<le> now w'" for timeout
          by (rule authorized_total [OF behaves call hash hash order.refl])
        have "\<exists>x w'. execute_validated E rt tool call ?c constraint arguments ?p ?rq (now w) w = (Inr x, w') \<and>
            presentable rt call x"
          unfolding execute_validated_def Let_def n_def [symmetric]
          using run unchanged by (simp add: bindP_run readP_def ofR_def seconds_since_def) meson
        then show ?thesis using Some False V_ok by (auto simp: execute_one_def Let_def)
      next
        case (V_invalid errors)
        then show ?thesis using Some False early [OF reasons(3)]
          by (auto simp: execute_one_def Let_def plain_refusal_def)
      next
        case (V_rejected name)
        then show ?thesis using Some False early [OF reasons(3)]
          by (auto simp: execute_one_def Let_def plain_refusal_def)
      next
        case (V_raise e)
        have "case tl_validate tool (tk_arguments call) of V_raise e \<Rightarrow> False | _ \<Rightarrow> True"
          using tool by (simp add: tool_behaves_def)
        then show ?thesis by (simp add: V_raise)
      qed
    qed
  qed
qed

subsection \<open>Batches with an outcome\<close>

lemma views_total:
  assumes "list_all2 (presentable rt) calls xs"
  shows "\<exists>views. mapR (\<lambda>f. project (rt_projector rt) f True) (List.map_filter ce_failure xs) = Inr views \<and>
    length views = length (List.map_filter ce_failure xs) \<and>
    length (List.map_filter ce_failure xs) = length (filter (\<lambda>r. \<not> tr_success r) (map ce_result xs)) \<and>
    (\<forall>(r, f, v) \<in> set (zip (filter (\<lambda>r. \<not> tr_success r) (map ce_result xs))
        (zip (List.map_filter ce_failure xs) views)).
      (tr_call_id r, tr_tool_name r) = (if_call_id f, if_tool_name f) \<and>
      (tr_call_id r, tr_tool_name r) = (sv_call_id v, sv_tool_name v) \<and> view_matches f v)"
  using assms
proof (induction rule: list_all2_induct)
  case Nil
  then show ?case by (simp add: List.map_filter_simps)
next
  case (Cons call calls x xs)
  obtain views where views: "mapR (\<lambda>f. project (rt_projector rt) f True) (List.map_filter ce_failure xs) = Inr views"
    using Cons.IH by blast
  show ?case
  proof (cases "ce_failure x")
    case None
    then have "tr_success (ce_result x)" using Cons.hyps(1)
      by (auto simp: presentable_def execution_of_def failed_execution_def)
    then show ?thesis using None Cons.IH by (simp add: List.map_filter_simps)
  next
    case (Some f)
    then obtain v where v: "project (rt_projector rt) f True = Inr v" "sv_call_id v = tk_id call"
      "sv_tool_name v = tk_name call" "view_matches f v" and "failed_execution call x"
      using Cons.hyps(1) by (auto simp: presentable_def execution_of_def)
    then have x: "\<not> tr_success (ce_result x)" "tr_call_id (ce_result x) = tk_id call"
      "tr_tool_name (ce_result x) = tk_name call" "if_call_id f = tk_id call" "if_tool_name f = tk_name call"
      using Some by (auto simp: failed_execution_def)
    show ?thesis
      by (rule exI [of _ "v # views"]) (use views v x Some Cons.IH in \<open>auto simp: List.map_filter_simps\<close>)
  qed
qed

lemma batch_outcome_total:
  assumes "list_all2 (presentable rt) calls xs"
  shows "\<exists>b. batch_outcome rt calls xs = Inr b \<and> ob_calls b = calls \<and> ob_results b = map ce_result xs"
proof -
  let ?failures = "List.map_filter ce_failure xs"
  obtain views where views: "mapR (\<lambda>f. project (rt_projector rt) f True) ?failures = Inr views"
    "length views = length ?failures" "length ?failures = length (filter (\<lambda>r. \<not> tr_success r) (map ce_result xs))"
    and zipped: "\<forall>(r, f, v) \<in> set (zip (filter (\<lambda>r. \<not> tr_success r) (map ce_result xs)) (zip ?failures views)).
      (tr_call_id r, tr_tool_name r) = (if_call_id f, if_tool_name f) \<and>
      (tr_call_id r, tr_tool_name r) = (sv_call_id v, sv_tool_name v) \<and> view_matches f v"
    using views_total [OF assms] by blast
  define b where "b = \<lparr>ob_calls = calls, ob_results = map ce_result xs, ob_failures = ?failures, ob_views = views\<rparr>"
  have identity: "\<forall>(call, r) \<in> set (zip calls (map ce_result xs)). tr_call_id r = tk_id call \<and> tr_tool_name r = tk_name call"
    using assms by (auto simp: list_all2_conv_all_nth in_set_zip) (metis presentable_identity)+
  have "ToolBatchOutcome b = Inr b"
    using views(2,3) identity zipped list_all2_lengthD [OF assms]
    unfolding ToolBatchOutcome_def Let_def bindR_Inr_iff
    by (simp add: b_def ball_Un split_def del: filter_map) metis
  then show ?thesis using views(1) by (simp add: batch_outcome_def Let_def b_def)
qed

lemma in_order_total:
  assumes "\<And>x w. x \<in> set xs \<Longrightarrow> \<exists>y w'. f x w = (Inr y, w') \<and> P x y"
  shows "\<exists>ys w'. in_order f xs w = (Inr ys, w') \<and> list_all2 P xs ys"
  using assms
proof (induction xs arbitrary: w)
  case (Cons x xs)
  obtain y w1 where y: "f x w = (Inr y, w1)" "P x y" using Cons.prems by fastforce
  obtain ys w' where "in_order f xs w1 = (Inr ys, w')" "list_all2 P xs ys" using Cons by fastforce
  then show ?case using y by (auto simp: bindP_run ret_def)
qed (simp add: ret_def)

lemma constraint_error_reason:
  "repair_constraint_error rt calls k = Some failure \<Longrightarrow> strip (fst failure) \<noteq> []"
proof -
  have "strip ''invalid_repair_call_count'' \<noteq> []" "strip ''different_repair_tool'' \<noteq> []"
    "strip ''reused_tool_call_id'' \<noteq> []" "strip ''invalid_arguments'' \<noteq> []"
    "strip ''unchanged_repair_arguments'' \<noteq> []" by code_simp+
  then show "repair_constraint_error rt calls k = Some failure \<Longrightarrow> strip (fst failure) \<noteq> []"
    by (auto simp: repair_constraint_error_def Let_def split: option.splits if_splits)
qed

lemma repair_rejection_total:
  assumes behaves: "runtime_behaves E rt" and call: "accepted_call rt call" and "strip (fst failure) \<noteq> []"
  shows "\<exists>x. repair_rejection rt call failure = Inr x \<and> presentable rt call x"
proof -
  obtain e where e: "ToolError INVALID_ARGUMENTS (snd failure) False [] (Some (fst failure)) (Some REPAIR_CALL) = Inr e"
    using reason_error_total [OF assms(3)] by blast
  show ?thesis unfolding repair_rejection_def Let_def e
    by (intro refuse_total call) (use behaves in \<open>simp_all add: runtime_behaves_def plain_refusal_def fingerprint_ok_def\<close>)
qed

lemma mapR_total:
  "\<forall>x \<in> set xs. \<exists>y. f x = Inr y \<and> P x y \<Longrightarrow> \<exists>ys. mapR f xs = Inr ys \<and> list_all2 P xs ys"
  by (induction xs) auto

text \<open>
  C39.  With well-behaved parties, a batch of calls whose identifiers are short, printable and
  single-spaced always has an outcome, whatever the Tools raise and the authorizer decides: one result
  for each call, in order, under the identity of its call.
\<close>

theorem tool_batch_has_outcome:
  assumes behaves: "runtime_behaves E rt" and calls: "\<forall>call \<in> set calls. accepted_call rt call"
    and "constraint = None \<or> calls \<noteq> []"
  shows "\<exists>b w'. execute_many E rt calls c constraint w = (Inr b, w') \<and> ob_calls b = calls \<and>
    list_all2 (\<lambda>call r. tr_call_id r = tk_id call \<and> tr_tool_name r = tk_name call) calls (ob_results b)"
proof -
  have outcome: "\<exists>b. batch_outcome rt calls xs = Inr b \<and> ob_calls b = calls \<and>
      list_all2 (\<lambda>call r. tr_call_id r = tk_id call \<and> tr_tool_name r = tk_name call) calls (ob_results b)"
    if xs: "list_all2 (presentable rt) calls xs" for xs
    using batch_outcome_total [OF xs] xs
    by (auto simp: list_all2_map2 elim!: list_all2_mono dest: presentable_identity)
  show ?thesis
  proof (cases "repair_constraint_error rt calls constraint")
    case (Some failure)
    then have "calls \<noteq> []" using assms(3) by (auto simp: repair_constraint_error_def)
    moreover obtain xs where "mapR (\<lambda>call. repair_rejection rt call failure) calls = Inr xs" "list_all2 (presentable rt) calls xs"
      using mapR_total [of calls "\<lambda>call. repair_rejection rt call failure" "presentable rt"] calls
        repair_rejection_total [OF behaves _ constraint_error_reason [OF Some]] by blast
    ultimately show ?thesis using outcome [of xs] Some by (auto simp: execute_many_def bindP_run ofR_def)
  next
    case None
    obtain xs w' where "in_order (\<lambda>call. execute_one E rt call c constraint) calls w = (Inr xs, w')"
      "list_all2 (presentable rt) calls xs"
      using in_order_total [of calls "\<lambda>call. execute_one E rt call c constraint" "presentable rt" w] calls
        execute_one_total [OF behaves] by blast
    then show ?thesis using outcome [of xs] None by (auto simp: execute_many_def bindP_run ofR_def)
  qed
qed

text \<open>
  C40.  Without the bound on identifiers this fails: the projection rewrites a long or unprintable call ID,
  the outcome compares the rewritten ID with the one of the result, and the batch raises.  A call of an
  unknown Tool is enough.
\<close>

theorem rewritten_call_id_raises:
  assumes "get_tool (rt_registry rt) (tk_name call) = None" and "projector_ok (rt_projector rt)"
    and "fingerprint_ok (rt_fingerprint rt (tk_arguments call))"
    and "strip (tk_id call) \<noteq> []" and "strip (tk_name call) \<noteq> []"
    and "bounded_text (fp_max_identifier_chars (rt_projector rt)) ''unknown_call'' (tk_id call) \<noteq> tk_id call"
  shows "execute_many E rt [call] c None w =
    (Inl (ValueError ''Tool failure view identity does not match its result''), w)"
proof -
  let ?rq = "rt_fingerprint rt (tk_arguments call)"
  have "strip ''unknown_tool'' \<noteq> []" by code_simp
  then obtain e where e: "ToolError NOT_FOUND (''unknown tool: '' @ tk_name call) False [] (Some ''unknown_tool'')
      (Some RA_FAIL) = Inr e" using reason_error_total by blast
  obtain r where r: "failed (tk_id call) (tk_name call) e 0 0 None False = Inr r"
    using assms(4,5) by (auto simp: failed_def ToolResult_def bindR_Inr_iff)
  obtain cl where cl: "classification_from_tool_error e None = Inr cl" "stable_reason (fc_stable_reason cl)"
    using classification_total by blast
  obtain f where f: "internal_failure r unsafe_profile ?rq None False None None False = Inr f"
    and f_ok: "InternalToolFailure f = Inr f"
    using failed_result [OF r] cl assms(3-5)
    by (auto simp: internal_failure_def reclassify_total InternalToolFailure_def bindR_Inr_iff fingerprint_ok_def)
  have ids: "\<not> tr_success r" "tr_call_id r = tk_id call" "tr_tool_name r = tk_name call"
    "if_call_id f = tk_id call" "if_tool_name f = tk_name call"
    using failed_result [OF r] internal_failure_identity [OF f] by auto
  have one: "execute_one E rt call c None w = (Inr \<lparr>ce_result = r, ce_failure = Some f\<rparr>, w)"
    using assms(1) e r f by (simp add: execute_one_def Let_def refuse_def plain_refusal_def)
  have types: "error_type_value t \<noteq> []" for t using stable_error_type [of t] by (simp add: stable_reason_def)
  obtain v where v: "project (rt_projector rt) f True = Inr v"
    "sv_call_id v = bounded_text (fp_max_identifier_chars (rt_projector rt)) ''unknown_call'' (tk_id call)"
    using f_ok assms(2) bounded_text_nonempty [OF _ types] bounded_text_nonempty ids
    by (auto simp: project_def Let_def SafeToolFailureView_def bindR_Inr_iff projector_ok_def InternalToolFailure_def)
  have "batch_outcome rt [call] [\<lparr>ce_result = r, ce_failure = Some f\<rparr>] =
      Inl (ValueError ''Tool failure view identity does not match its result'')"
    using v ids assms(6) by (simp add: batch_outcome_def List.map_filter_simps ToolBatchOutcome_def all_ok.simps
      bindR_def require_def)
  then show ?thesis using one by (simp add: execute_many_plain ret_def bindP_run)
qed

end
