(* ===== verification/Tool_Recovery_Props.thy ===== *)
theory Tool_Recovery_Props
  imports Tool_Recovery Tool_Batch
begin

text \<open>
  When the controller repairs a failed call, that repairs stay within their budget, that a decision is
  always made, and what the constraint of a repair means for the next batch.
\<close>

subsection \<open>The kinds of a decision\<close>

lemma ToolRecoveryDecision_id: "ToolRecoveryDecision d = Inr d' \<Longrightarrow> d' = d"
  by (auto simp: ToolRecoveryDecision_def bindR_Inr_iff)

lemma plain_decision_kind: "plain_decision k reason view = Inr d \<Longrightarrow> rd_kind d = k \<and> rd_constraint d = None"
  by (auto simp: plain_decision_def dest: ToolRecoveryDecision_id)

text \<open>Everything but a repair leaves the counters and the seen IDs alone and drops the active calls.\<close>

definition settles :: "recovery_state \<Rightarrow> recovery_decision res \<times> recovery_state \<Rightarrow> bool" where
  "settles s out \<longleftrightarrow> (case out of (r, s') \<Rightarrow>
     (case r of Inl _ \<Rightarrow> True | Inr d \<Rightarrow> rd_kind d \<noteq> K_REPAIR \<and> rd_constraint d = None) \<and>
     rs_repair_count_by_step s' = rs_repair_count_by_step s \<and> rs_total_repairs s' = rs_total_repairs s \<and>
     rs_seen_call_ids s' = rs_seen_call_ids s \<and> rs_active_calls s' = [] \<and>
     rs_pending_failure s' = rs_pending_failure s)"

lemma settles_replan: "settles s (replan_decision view reason s)"
  and settles_terminal: "settles s (terminal_decision view reason s)"
  by (auto simp: settles_def replan_decision_def terminal_decision_def dest: plain_decision_kind split: sum.split)

lemma settles_fallback: "settles s (fallback_decision cfg view reason s)"
  by (simp add: fallback_decision_def settles_replan settles_terminal)

lemmas settling = settles_replan settles_terminal settles_fallback

lemma settles_kind: "settles s (Inr d, s') \<Longrightarrow> rd_kind d \<noteq> K_REPAIR"
  by (simp add: settles_def)

text \<open>A single failure is settled, or it meets every condition of a repair.\<close>

definition repairable ::
  "recovery_config \<Rightarrow> internal_tool_failure \<Rightarrow> string \<Rightarrow> int \<Rightarrow> recovery_state \<Rightarrow> string \<Rightarrow> string \<Rightarrow> bool" where
  "repairable cfg f step_id max_attempts s requested effective \<longleftrightarrow>
     fc_recovery_directive (if_classification f) = Some REPAIR_CALL \<and> rg_allow_same_step_repair cfg \<and>
     (rg_require_repair_safe cfg \<longrightarrow> sf_changed_argument_repair_safe (if_safety_profile f)) \<and>
     dget_or (rs_repair_count_by_step s) step_id 0 < max_attempts \<and>
     dget (rs_active_calls s) (if_call_id f) = Some \<lparr>ac_tool_name = if_tool_name f, ac_fingerprint = requested\<rparr> \<and>
     if_requested_arguments_fingerprint f = Some requested \<and> if_effective_arguments_fingerprint f = Some effective"

lemma decide_single_cases:
  obtains (settled) "settles s (decide_single cfg f view step_id max_attempts s)"
  | (repaired) requested effective where "repairable cfg f step_id max_attempts s requested effective"
      "decide_single cfg f view step_id max_attempts s =
        repair_decision f view step_id requested effective (dget_or (rs_repair_count_by_step s) step_id 0) s"
proof (cases "\<exists>requested effective. repairable cfg f step_id max_attempts s requested effective")
  case True
  then obtain requested effective where r: "repairable cfg f step_id max_attempts s requested effective" by blast
  then show ?thesis
    by (intro repaired [OF r]) (auto simp: repairable_def decide_single_def Let_def)
next
  case False
  have "settles s (decide_single cfg f view step_id max_attempts s)"
    using False unfolding repairable_def decide_single_def Let_def
    by (auto simp: settling split: option.split tool_recovery_action.split)
  then show ?thesis by (rule settled)
qed

definition noted :: "internal_tool_failure \<Rightarrow> safe_failure_view \<Rightarrow> string \<Rightarrow> recovery_state \<Rightarrow> recovery_state" where
  "noted f view step_id s = s\<lparr>rs_pending_failure := Some (dset ''repair_safe''
     (PBool (sf_changed_argument_repair_safe (if_safety_profile f)))
     (dset ''step_id'' (PStr step_id) (view_to_dict view)))\<rparr>"

lemma noted_frame [simp]:
  "rs_repair_count_by_step (noted f view i s) = rs_repair_count_by_step s"
  "rs_total_repairs (noted f view i s) = rs_total_repairs s"
  "rs_seen_call_ids (noted f view i s) = rs_seen_call_ids s"
  "rs_active_calls (noted f view i s) = rs_active_calls s"
  by (simp_all add: noted_def)

lemma decide_cases:
  obtains (error) e where "decide fp cfg outcome step_id max_attempts s = (Inl e, s)"
  | (continue) "failure_count outcome = 0" "decide fp cfg outcome step_id max_attempts s =
      (plain_decision K_CONTINUE ''Tool batch completed'' None,
       s\<lparr>rs_active_calls := [], rs_pending_failure := None, rs_terminal_failure := None\<rparr>)"
  | (settled) f view where "failure_count outcome \<noteq> 0" "project fp f (rg_safe_message cfg) = Inr view"
      "settles (noted f view step_id s) (decide fp cfg outcome step_id max_attempts s)"
  | (repaired) f view requested effective where
      "failure_count outcome = 1" "length (ob_results outcome) = 1" "hd (ob_failures outcome) = f" "ob_failures outcome \<noteq> []"
      "project fp f (rg_safe_message cfg) = Inr view"
      "repairable cfg f step_id max_attempts s requested effective"
      "decide fp cfg outcome step_id max_attempts s = repair_decision f view step_id requested effective
        (dget_or (rs_repair_count_by_step s) step_id 0) (noted f view step_id s)"
proof -
  note finish = settled and mend = repaired
  note run = decide_def [of fp cfg outcome step_id max_attempts s]
  consider (bad) "strip step_id = [] \<or> max_attempts < 0"
    | (good) "strip step_id \<noteq> []" "0 \<le> max_attempts" "failure_count outcome = 0"
    | (empty) "strip step_id \<noteq> []" "0 \<le> max_attempts" "failure_count outcome \<noteq> 0" "ob_failures outcome = []"
    | (view) f fs r where "strip step_id \<noteq> []" "0 \<le> max_attempts" "failure_count outcome \<noteq> 0"
        "ob_failures outcome = f # fs" "project fp f (rg_safe_message cfg) = r"
    by (cases "strip step_id = [] \<or> max_attempts < 0"; cases "failure_count outcome = 0";
      cases "ob_failures outcome") (blast | fastforce)+
  then show ?thesis
  proof cases
    case bad
    then have "\<exists>e. decide fp cfg outcome step_id max_attempts s = (Inl e, s)" by (auto simp: run)
    then show ?thesis using error by blast
  next
    case good
    then show ?thesis by (intro continue) (simp_all add: run)
  next
    case empty
    then show ?thesis by (intro error) (simp add: run)
  next
    case (view f fs r)
    show ?thesis
    proof (cases r)
      case (Inl e)
      then show ?thesis using view by (intro error) (simp add: run)
    next
      case (Inr v)
      let ?s = "noted f v step_id s"
      have run': "decide fp cfg outcome step_id max_attempts s =
          (if partial_success outcome
           then terminal_decision v ''Tool batch partially succeeded; automatic recovery is unsafe'' ?s
           else if failure_count outcome \<noteq> 1 \<or> length (ob_results outcome) \<noteq> 1
           then if Some RA_FAIL \<in> set (directives outcome)
             then terminal_decision v ''Tool recovery action requires failure'' ?s
             else if Some RA_REPLAN \<in> set (directives outcome)
             then replan_decision v ''Tool recovery action requires replanning'' ?s
             else fallback_decision cfg v
               ''Tool batches with multiple failures cannot be repaired inside one step'' ?s
           else decide_single cfg f v step_id max_attempts ?s)"
        using run view Inr by (simp add: noted_def)
      show ?thesis
      proof (cases "\<not> partial_success outcome \<and> failure_count outcome = 1 \<and> length (ob_results outcome) = 1")
        case False
        then have "settles ?s (decide fp cfg outcome step_id max_attempts s)" by (auto simp: run' settling)
        then show ?thesis using settled view Inr by blast
      next
        case True
        then have single: "decide fp cfg outcome step_id max_attempts s = decide_single cfg f v step_id max_attempts ?s"
          by (simp add: run')
        show ?thesis
        proof (cases rule: decide_single_cases [where cfg = cfg and f = f and view = v and step_id = step_id and
            max_attempts = max_attempts and s = ?s])
          case settled
          then show ?thesis using finish view Inr single by simp
        next
          case (repaired requested effective)
          then show ?thesis
            using mend [of f v requested effective] view Inr single True by (simp add: repairable_def)
        qed
      qed
    qed
  qed
qed

lemma repair_decision_out:
  "repair_decision f view i rq ef n s = (r, s') \<Longrightarrow>
     s' = s\<lparr>rs_repair_count_by_step := dset i (n + 1) (rs_repair_count_by_step s),
       rs_total_repairs := rs_total_repairs s + 1, rs_active_calls := []\<rparr> \<and>
     (\<forall>d. r = Inr d \<longrightarrow> rd_kind d = K_REPAIR \<and> rd_repair_attempt d = n + 1 \<and> rd_failure d = Some view \<and>
        rd_constraint d = Some \<lparr>rp_failed_call_id = strip (if_call_id f), rp_expected_tool_name = strip (if_tool_name f),
          rp_seen_call_ids = insert (if_call_id f) (set (rs_seen_call_ids s)),
          rp_previous_requested_fingerprint = rq, rp_previous_effective_fingerprint = ef\<rparr>)"
  by (auto simp: repair_decision_def Let_def bindR_Inr_iff ToolRepairConstraint_def dest!: ToolRecoveryDecision_id)

lemma decide_counts:
  assumes run: "decide fp cfg outcome step_id max_attempts s = (r, s')"
  shows "(rs_repair_count_by_step s' = rs_repair_count_by_step s \<and> rs_total_repairs s' = rs_total_repairs s \<and>
      (\<forall>d. r = Inr d \<longrightarrow> rd_kind d \<noteq> K_REPAIR \<and> rd_constraint d = None)) \<or>
    (\<exists>f requested effective n. n = dget_or (rs_repair_count_by_step s) step_id 0 \<and> n < max_attempts \<and>
      length (ob_results outcome) = 1 \<and> success_count outcome = 0 \<and> ob_failures outcome \<noteq> [] \<and> hd (ob_failures outcome) = f \<and>
      repairable cfg f step_id max_attempts s requested effective \<and>
      rs_repair_count_by_step s' = dset step_id (n + 1) (rs_repair_count_by_step s) \<and>
      rs_total_repairs s' = rs_total_repairs s + 1 \<and> rs_active_calls s' = [] \<and>
      rs_seen_call_ids s' = rs_seen_call_ids s \<and>
      (\<forall>d. r = Inr d \<longrightarrow> rd_kind d = K_REPAIR \<and> rd_repair_attempt d = n + 1 \<and>
        rd_constraint d = Some \<lparr>rp_failed_call_id = strip (if_call_id f), rp_expected_tool_name = strip (if_tool_name f),
          rp_seen_call_ids = insert (if_call_id f) (set (rs_seen_call_ids s)),
          rp_previous_requested_fingerprint = requested, rp_previous_effective_fingerprint = effective\<rparr>))"
proof (cases rule: decide_cases [of fp cfg outcome step_id max_attempts s])
  case (error e)
  then show ?thesis using run by auto
next
  case continue
  then show ?thesis using run by (auto dest: plain_decision_kind)
next
  case (settled f view)
  then show ?thesis using run by (auto simp: settles_def)
next
  case (repaired f view requested effective)
  let ?n = "dget_or (rs_repair_count_by_step s) step_id 0"
  have none: "success_count outcome = 0" using repaired(1,2) by (simp add: failure_count_def)
  have less: "?n < max_attempts" using repaired(6) by (simp add: repairable_def)
  show ?thesis
    using repair_decision_out [of f view step_id requested effective ?n "noted f view step_id s" r s'] repaired none less run
    by (intro disjI2 exI [of _ f] exI [of _ requested] exI [of _ effective] exI [of _ ?n] conjI) auto
qed

text \<open>
  The counters of repairs move only with a repair: a decision leaves every count and the total as
  they are, or it repairs the single failure of a batch of one call, whose classification asks for a
  repair, which the configuration enables and, if it has to be, the Tool declares safe, whose recorded
  invocation is the failed one, and whose step still has repairs left; it then counts one, and the constraint names the
  failed call, its Tool, both fingerprints and every call ID seen.
\<close>

theorem decide_repairs_soundly:
  assumes run: "decide fp cfg outcome step_id max_attempts s = (r, s')"
  shows "(rs_repair_count_by_step s' = rs_repair_count_by_step s \<and> rs_total_repairs s' = rs_total_repairs s \<and>
      (\<forall>d. r = Inr d \<longrightarrow> rd_kind d \<noteq> K_REPAIR \<and> rd_constraint d = None)) \<or>
    (\<exists>f requested effective n. n = dget_or (rs_repair_count_by_step s) step_id 0 \<and> n < max_attempts \<and>
      length (ob_results outcome) = 1 \<and> success_count outcome = 0 \<and> ob_failures outcome \<noteq> [] \<and> hd (ob_failures outcome) = f \<and>
      repairable cfg f step_id max_attempts s requested effective \<and>
      rs_repair_count_by_step s' = dset step_id (n + 1) (rs_repair_count_by_step s) \<and>
      rs_total_repairs s' = rs_total_repairs s + 1 \<and> rs_active_calls s' = [] \<and>
      rs_seen_call_ids s' = rs_seen_call_ids s \<and>
      (\<forall>d. r = Inr d \<longrightarrow> rd_kind d = K_REPAIR \<and> rd_repair_attempt d = n + 1 \<and>
        rd_constraint d = Some \<lparr>rp_failed_call_id = strip (if_call_id f), rp_expected_tool_name = strip (if_tool_name f),
          rp_seen_call_ids = insert (if_call_id f) (set (rs_seen_call_ids s)),
          rp_previous_requested_fingerprint = requested, rp_previous_effective_fingerprint = effective\<rparr>))"
  using assms by (rule decide_counts)

subsection \<open>The budget of repairs\<close>

inductive recovery_run ::
  "((string, pyval) dict \<Rightarrow> string res) \<Rightarrow> failure_projector \<Rightarrow> recovery_config \<Rightarrow> int \<Rightarrow> recovery_state \<Rightarrow>
   recovery_state \<Rightarrow> bool"
  for fingerprint fp cfg budget s0 where
  started: "recovery_run fingerprint fp cfg budget s0 s0"
| requested: "recovery_run fingerprint fp cfg budget s0 s \<Longrightarrow>
    recovery_run fingerprint fp cfg budget s0 (snd (record_requested_calls fingerprint calls s))"
| decided: "recovery_run fingerprint fp cfg budget s0 s \<Longrightarrow> max_attempts \<le> budget \<Longrightarrow>
    recovery_run fingerprint fp cfg budget s0 (snd (decide fp cfg outcome step_id max_attempts s))"

text \<open>
  C23.  However requests and decisions alternate, a step is never repaired more often than the budget
  allows, and the total is the sum of the repairs of the steps.
\<close>

theorem repair_budget_kept:
  assumes "recovery_run fingerprint fp cfg budget s0 s" and "rs_repair_count_by_step s0 = []"
    and "rs_total_repairs s0 = 0" and "0 \<le> budget"
  shows "(\<forall>(i, n) \<in> set (rs_repair_count_by_step s). 1 \<le> n \<and> n \<le> budget) \<and>
    rs_total_repairs s = sum_list (map snd (rs_repair_count_by_step s))"
  using assms
proof (induction rule: recovery_run.induct)
  case started
  then show ?case by simp
next
  case (requested s calls)
  then show ?case by (simp add: record_requested_calls_def Let_def split: sum.split)
next
  case (decided s max_attempts outcome step_id)
  let ?counts = "rs_repair_count_by_step s" and ?s' = "snd (decide fp cfg outcome step_id max_attempts s)"
  let ?n = "dget_or ?counts step_id 0"
  have ih: "\<forall>(i, n) \<in> set ?counts. 1 \<le> n \<and> n \<le> budget" "rs_total_repairs s = sum_list (map snd ?counts)"
    using decided by auto
  have "0 \<le> ?n" using ih(1) by (auto split: option.split dest!: map_of_SomeD)
  consider (same) "rs_repair_count_by_step ?s' = ?counts" "rs_total_repairs ?s' = rs_total_repairs s"
    | (more) "?n < max_attempts" "rs_repair_count_by_step ?s' = dset step_id (?n + 1) ?counts"
        "rs_total_repairs ?s' = rs_total_repairs s + 1"
    using decide_counts [OF surjective_pairing, of fp cfg outcome step_id max_attempts s] by auto
  then show ?case
  proof cases
    case same
    then show ?thesis using ih by simp
  next
    case more
    have "1 \<le> n \<and> n \<le> budget" if "(i, n) \<in> set (dset step_id (?n + 1) ?counts)" for i n
      using that set_dset_subset [of step_id "?n + 1" ?counts] ih(1) more(1) decided.hyps(2) \<open>0 \<le> ?n\<close> by auto
    then show ?thesis using more ih(2) by (auto simp: sum_dset split: option.splits)
  qed
qed

subsection \<open>A decision is always made\<close>

lemma plain_decision_total: "strip reason \<noteq> [] \<Longrightarrow> k \<noteq> K_REPAIR \<Longrightarrow> \<exists>d. plain_decision k reason view = Inr d \<and> rd_kind d = k"
  by (auto simp: plain_decision_def ToolRecoveryDecision_def bindR_Inr_iff)

definition decides :: "recovery_decision_kind set \<Rightarrow> recovery_decision res \<times> recovery_state \<Rightarrow> bool" where
  "decides kinds out \<longleftrightarrow> (\<exists>d. fst out = Inr d \<and> rd_kind d \<in> kinds)"

lemma decides_mono: "decides K out \<Longrightarrow> K \<subseteq> K' \<Longrightarrow> decides K' out"
  by (auto simp: decides_def)

lemma failure_count_filter: "failure_count b = length (filter (\<lambda>r. \<not> tr_success r) (ob_results b))"
proof -
  have "length (filter tr_success (ob_results b)) + length (filter (\<lambda>r. \<not> tr_success r) (ob_results b)) =
      length (ob_results b)" by (rule sum_length_filter_compl)
  then show ?thesis unfolding failure_count_def success_count_def by linarith
qed

lemma settling_decides:
  "strip reason \<noteq> [] \<Longrightarrow> decides {K_REPLAN} (replan_decision view reason s)"
  "strip reason \<noteq> [] \<Longrightarrow> decides {K_FAIL} (terminal_decision view reason s)"
  "strip reason \<noteq> [] \<Longrightarrow> decides {K_REPLAN, K_FAIL} (fallback_decision cfg view reason s)"
  using plain_decision_total [of reason]
  by (auto simp: decides_def replan_decision_def terminal_decision_def fallback_decision_def)

lemma repair_decides:
  assumes "InternalToolFailure f = Inr f" and "\<forall>i \<in> set (rs_seen_call_ids s). strip i \<noteq> []" and "0 \<le> n"
    and "if_requested_arguments_fingerprint f = Some rq" "if_effective_arguments_fingerprint f = Some ef"
  shows "decides {K_REPAIR} (repair_decision f view i rq ef n s)"
proof -
  have "strip ''Repair the failed Tool call with changed arguments'' \<noteq> []" by code_simp
  then show ?thesis
    using assms by (auto simp: decides_def repair_decision_def Let_def ToolRepairConstraint_def InternalToolFailure_def
      bindR_Inr_iff ToolRecoveryDecision_def fingerprint_ok_def)
qed

text \<open>
  Recovery fails closed and never raises: for every outcome of a batch the controller makes a
  decision; it goes on exactly when nothing failed, and fails, without repair or replanning, when a
  part of the batch succeeded or some failure says that it must.
\<close>

theorem recovery_always_decides:
  assumes outcome: "ToolBatchOutcome outcome = Inr outcome" and failures: "\<forall>f \<in> set (ob_failures outcome). InternalToolFailure f = Inr f"
    and "projector_ok fp" and step: "strip step_id \<noteq> []" "0 \<le> max_attempts"
    and state: "\<forall>i \<in> set (rs_seen_call_ids s). strip i \<noteq> []" "\<forall>(i, n) \<in> set (rs_repair_count_by_step s). 0 \<le> n"
  shows "\<exists>d s'. decide fp cfg outcome step_id max_attempts s = (Inr d, s') \<and>
    (rd_kind d = K_CONTINUE \<longleftrightarrow> failure_count outcome = 0) \<and>
    (partial_success outcome \<or> Some RA_FAIL \<in> set (directives outcome) \<longrightarrow> rd_kind d = K_FAIL)"
proof (cases "failure_count outcome = 0")
  case True
  have "strip ''Tool batch completed'' \<noteq> []" by code_simp
  moreover have "length (ob_failures outcome) = 0"
    using True outcome unfolding failure_count_filter by (simp add: ToolBatchOutcome_def Let_def bindR_Inr_iff)
  then have "directives outcome = []" by (simp add: directives_def)
  ultimately show ?thesis
    using True step plain_decision_total [of "''Tool batch completed''" K_CONTINUE None]
    by (auto simp: decide_def partial_success_def)
next
  case False
  have "length (ob_failures outcome) \<noteq> 0"
    using False outcome unfolding failure_count_filter by (simp add: ToolBatchOutcome_def Let_def bindR_Inr_iff)
  then obtain f fs where f: "ob_failures outcome = f # fs" by (cases "ob_failures outcome") auto
  have types: "error_type_value t \<noteq> []" for t using stable_error_type [of t] by (simp add: stable_reason_def)
  have "\<exists>view. project fp f b = Inr view" for b
    using failures f bounded_text_nonempty [OF _ types] bounded_text_nonempty assms(3)
    by (auto simp: project_def Let_def SafeToolFailureView_def bindR_Inr_iff projector_ok_def InternalToolFailure_def)
  then obtain view where view: "project fp f (rg_safe_message cfg) = Inr view" by blast
  have ok: "decides kinds (decide fp cfg outcome step_id max_attempts s) \<Longrightarrow> kinds \<subseteq> {K_REPAIR, K_REPLAN, K_FAIL} \<Longrightarrow>
      (partial_success outcome \<or> Some RA_FAIL \<in> set (directives outcome) \<Longrightarrow> kinds \<subseteq> {K_FAIL}) \<Longrightarrow> ?thesis" for kinds
    using False by (cases "decide fp cfg outcome step_id max_attempts s") (fastforce simp: decides_def)
  have reasons: "strip ''Tool batch partially succeeded; automatic recovery is unsafe'' \<noteq> []"
    "strip ''Tool recovery action requires failure'' \<noteq> []" "strip ''Tool recovery action requires replanning'' \<noteq> []"
    "strip ''Tool batches with multiple failures cannot be repaired inside one step'' \<noteq> []"
    "strip ''ToolRuntime exhausted same-call retry'' \<noteq> []" "strip ''Tool failure has no same-step recovery action'' \<noteq> []"
    "strip ''Same-step Tool repair is not enabled'' \<noteq> []" "strip ''tool repair budget exhausted'' \<noteq> []"
    "strip ''Tool failure is not safe for changed-argument repair'' \<noteq> []"
    "strip ''Tool repair cannot verify the failed invocation'' \<noteq> []"
    "strip ''Tool repair requires requested and effective argument fingerprints'' \<noteq> []" by code_simp+
  note settle = settling_decides(1) [OF reasons(3)] settling_decides(2) [OF reasons(1)] settling_decides(2) [OF reasons(2)]
    settling_decides(3) [OF reasons(4)] settling_decides(3) [OF reasons(5)] settling_decides(3) [OF reasons(6)]
    settling_decides(3) [OF reasons(7)] settling_decides(3) [OF reasons(8)] settling_decides(3) [OF reasons(9)]
    settling_decides(3) [OF reasons(10)] settling_decides(3) [OF reasons(11)]
  let ?s = "noted f view step_id s"
  have run: "decide fp cfg outcome step_id max_attempts s =
      (if partial_success outcome
       then terminal_decision view ''Tool batch partially succeeded; automatic recovery is unsafe'' ?s
       else if failure_count outcome \<noteq> 1 \<or> length (ob_results outcome) \<noteq> 1
       then if Some RA_FAIL \<in> set (directives outcome)
         then terminal_decision view ''Tool recovery action requires failure'' ?s
         else if Some RA_REPLAN \<in> set (directives outcome)
         then replan_decision view ''Tool recovery action requires replanning'' ?s
         else fallback_decision cfg view
           ''Tool batches with multiple failures cannot be repaired inside one step'' ?s
       else decide_single cfg f view step_id max_attempts ?s)"
    using step False f view by (simp add: decide_def noted_def)
  show ?thesis
  proof (cases "\<not> partial_success outcome \<and> failure_count outcome = 1 \<and> length (ob_results outcome) = 1")
    case multiple: False
    have "decides (if partial_success outcome \<or> Some RA_FAIL \<in> set (directives outcome) then {K_FAIL} else {K_REPLAN, K_FAIL})
        (decide fp cfg outcome step_id max_attempts s)"
      using multiple settle by (auto simp: run intro: decides_mono)
    then show ?thesis by (rule ok) auto
  next
    case single: True
    then have "length (ob_failures outcome) = 1"
      using outcome unfolding failure_count_filter by (simp add: ToolBatchOutcome_def Let_def bindR_Inr_iff)
    then have "fs = []" using f by simp
    then have directives: "set (directives outcome) = {fc_recovery_directive (if_classification f)}"
      by (simp add: directives_def f)
    have counts: "0 \<le> n" if "dget (rs_repair_count_by_step s) step_id = Some n" for n
      using state(2) that by (auto dest!: map_of_SomeD)
    have repair: "decides {K_REPAIR} (repair_decision f view step_id rq ef n ?s)"
      if "if_requested_arguments_fingerprint f = Some rq" "if_effective_arguments_fingerprint f = Some ef" "0 \<le> n" for rq ef n
      by (intro repair_decides) (use failures f state(1) that in auto)
    let ?K = "{K_REPAIR, K_REPLAN, K_FAIL}"
    have fallback: "decides ?K (fallback_decision cfg view reason ?s)" if "strip reason \<noteq> []" for reason
      by (rule decides_mono [OF settling_decides(3) [OF that]]) auto
    have replan: "decides ?K (replan_decision view reason ?s)" if "strip reason \<noteq> []" for reason
      by (rule decides_mono [OF settling_decides(1) [OF that]]) auto
    have repairs: "decides ?K (repair_decision f view step_id rq ef n ?s)"
      if "if_requested_arguments_fingerprint f = Some rq" "if_effective_arguments_fingerprint f = Some ef" "0 \<le> n" for rq ef n
      by (rule decides_mono [OF repair [OF that]]) auto
    have "decides (if fc_recovery_directive (if_classification f) = Some RA_FAIL then {K_FAIL} else ?K)
        (decide_single cfg f view step_id max_attempts ?s)"
      using settle(3) fallback [OF reasons(5)] fallback [OF reasons(6)] fallback [OF reasons(7)] fallback [OF reasons(8)]
        fallback [OF reasons(9)] fallback [OF reasons(10)] fallback [OF reasons(11)] replan [OF reasons(3)] repairs counts
      unfolding decide_single_def Let_def
      by (simp split: option.split tool_recovery_action.split)
    then have "decides (if Some RA_FAIL \<in> set (directives outcome) then {K_FAIL} else {K_REPAIR, K_REPLAN, K_FAIL})
        (decide fp cfg outcome step_id max_attempts s)"
      using single by (simp add: run directives eq_commute)
    then show ?thesis by (rule ok) (use single in auto)
  qed
qed

subsection \<open>The batch after a repair decision\<close>

text \<open>
  C22.  A repair never repeats the call it repairs: the batch that runs under the constraint of a decision
  has an effect only if it is one call of the failed call's Tool, under an ID that is not the failed one
  nor any other seen before, with other requested arguments and, after validation, other effective
  arguments than the failed invocation, and the Tool is declared safe for that.
\<close>

theorem repair_never_repeats:
  assumes decision: "decide fp cfg outcome step_id max_attempts s = (Inr d, s')" "rd_constraint d = Some k"
    and run: "execute_many E rt calls c (Some k) w = (r, w')"
    and effect: "w' \<noteq> w \<or> (\<exists>b. r = Inr b \<and> 0 < success_count b)"
  shows "\<exists>f call tool arguments. hd (ob_failures outcome) = f \<and> calls = [call] \<and> tk_name call = strip (if_tool_name f) \<and>
    tk_id call \<notin> {if_call_id f, strip (if_call_id f)} \<union> set (rs_seen_call_ids s) \<and>
    rt_fingerprint rt (tk_arguments call) \<noteq> if_requested_arguments_fingerprint f \<and>
    get_tool (rt_registry rt) (tk_name call) = Some tool \<and>
    sf_changed_argument_repair_safe (resolve_tool_safety_profile tool) \<and>
    tl_validate tool (tk_arguments call) = V_ok arguments \<and>
    rt_fingerprint rt arguments \<noteq> if_effective_arguments_fingerprint f"
proof -
  obtain f requested effective where f: "hd (ob_failures outcome) = f"
    "repairable cfg f step_id max_attempts s requested effective"
    "k = \<lparr>rp_failed_call_id = strip (if_call_id f), rp_expected_tool_name = strip (if_tool_name f),
      rp_seen_call_ids = insert (if_call_id f) (set (rs_seen_call_ids s)),
      rp_previous_requested_fingerprint = requested, rp_previous_effective_fingerprint = effective\<rparr>"
    using decide_counts [OF decision(1)] decision(2) by auto
  then show ?thesis
    using constraint_enforced [OF run effect] by (auto simp: repairable_def)
qed

end
