(* ===== verification/Tool_Samples.thy ===== *)
theory Tool_Samples
  imports Tool_Batch Tool_Recovery_Props
begin

text \<open>
  A runtime with one Tool that fails the first time and then answers, on a world that counts its
  invocations; the properties of the Tool runtime are applied to it.
\<close>

record demo_world = sched +
  dw_calls :: int

definition demo_hash :: "(string, pyval) dict \<Rightarrow> string option" where
  "demo_hash arguments = Some (''sha256:'' @ replicate 64 (if arguments = [] then CHR ''a'' else CHR ''b''))"

definition demo_tool :: "demo_world tool" where
  "demo_tool = \<lparr>tl_name = ''echo'', tl_safety_profile = None, tl_idempotent = True, tl_repair_safe = True,
     tl_timeout_retry_safe = False, tl_timeout_seconds = None, tl_max_result_bytes = None, tl_delegated = False,
     tl_validate = V_ok,
     tl_invoke = (\<lambda>t a c w. (if dw_calls w = 0 then Inl (TX_other ''OSError'' ''busy'') else Inr (PDict a),
       w\<lparr>dw_calls := dw_calls w + 1\<rparr>)),
     tl_failure_classifier = None, tl_error_mapper = None\<rparr>"

definition demo_runtime :: "bool \<Rightarrow> demo_world tool_runtime" where
  "demo_runtime allow = \<lparr>rt_registry = \<lparr>tg_tools = [(''echo'', demo_tool)], tg_frozen = True\<rparr>,
     rt_authorize = (\<lambda>tool a c w. (Inr (AA_bool allow), w)),
     rt_retry = \<lparr>ry_max_attempts = 3, ry_initial_delay = 1/5, ry_max_delay = 2, ry_backoff_factor = 2\<rparr>,
     rt_projector = default_projector, rt_reporter = None, rt_default_timeout_seconds = Some 30,
     rt_max_result_bytes = None, rt_fingerprint = demo_hash, rt_serialized_size = (\<lambda>_. 2)\<rparr>"

definition demo_start :: "int \<Rightarrow> demo_world" where
  "demo_start n = \<lparr>tick = 0, now = 0, dw_calls = n\<rparr>"

definition demo_context :: tool_context where
  "demo_context = \<lparr>tc_run_id = ''run'', tc_session_id = None, tc_user_context = [], tc_metadata = [],
     tc_tool_call_id = None, tc_attempt = 1\<rparr>"

definition demo_call :: "string \<Rightarrow> tool_call" where
  "demo_call i = \<lparr>tk_id = i, tk_name = ''echo'', tk_arguments = [(''text'', PStr ''hi'')]\<rparr>"

lemma demo_tools: "get_tool (rt_registry (demo_runtime allow)) name = Some tool \<Longrightarrow> tool = demo_tool"
  by (auto simp: demo_runtime_def get_tool_def split: if_splits)

lemma demo_services: "(\<And>w. R w w) \<Longrightarrow> (\<And>u v w. R u v \<Longrightarrow> R v w \<Longrightarrow> R u w) \<Longrightarrow> services_keep R (demo_runtime allow)"
  by (auto simp: services_keep_def demo_runtime_def reflp_def transp_def)

lemma demo_counts: "counts_invocations dw_calls quiet (demo_runtime allow)"
  by (auto simp: counts_invocations_def demo_tool_def intro!: demo_services dest!: demo_tools)

lemma demo_behaves: "runtime_behaves quiet (demo_runtime allow)"
proof -
  have "fingerprint_ok (demo_hash a)" for a
    by (simp add: demo_hash_def fingerprint_ok_def is_tool_argument_fingerprint_def list_all_iff)
  then show ?thesis
    unfolding runtime_behaves_def
    by (auto simp: tool_behaves_def projector_ok_def default_projector_def demo_tool_def demo_runtime_def
        services_keep_def reflp_def transp_def get_tool_def split: if_splits)
qed

theorem tool_invocations_counted_witness:
  "dw_calls (snd (execute_many quiet (demo_runtime True) [demo_call ''c1''] demo_context None (demo_start 0))) \<le> 3"
  using tool_invocations_counted [where count = dw_calls and E = quiet and rt = "demo_runtime True" and
      calls = "[demo_call ''c1'']" and c = demo_context and constraint = None and w = "demo_start 0",
      OF demo_counts surjective_pairing]
  by (simp add: demo_start_def demo_call_def invocation_limit_def demo_runtime_def get_tool_def demo_tool_def
      resolve_tool_safety_profile_def)

text \<open>The same Tool in a world with a log, and an authorizer that allows one of two calls.\<close>

record logged_world = sched +
  lw_events :: "tool_event list"

definition logged_tool :: "logged_world tool" where
  "logged_tool = \<lparr>tl_name = ''echo'', tl_safety_profile = None, tl_idempotent = True, tl_repair_safe = True,
     tl_timeout_retry_safe = False, tl_timeout_seconds = None, tl_max_result_bytes = None, tl_delegated = False,
     tl_validate = V_ok,
     tl_invoke = (\<lambda>t a c w. (Inr (PDict a), w\<lparr>lw_events := lw_events w @ [Invoked ''echo'' a c]\<rparr>)),
     tl_failure_classifier = None, tl_error_mapper = None\<rparr>"

definition logged_runtime :: "logged_world tool_runtime" where
  "logged_runtime = \<lparr>rt_registry = \<lparr>tg_tools = [(''echo'', logged_tool)], tg_frozen = True\<rparr>,
     rt_authorize = (\<lambda>tool a c w. let yes = (tc_tool_call_id c = Some ''c1'') in
       (Inr (AA_bool yes), w\<lparr>lw_events := lw_events w @ [Asked (tl_name tool) a c yes]\<rparr>)),
     rt_retry = \<lparr>ry_max_attempts = 3, ry_initial_delay = 1/5, ry_max_delay = 2, ry_backoff_factor = 2\<rparr>,
     rt_projector = default_projector, rt_reporter = None, rt_default_timeout_seconds = Some 30,
     rt_max_result_bytes = None, rt_fingerprint = demo_hash, rt_serialized_size = (\<lambda>_. 2)\<rparr>"

definition logged_start :: logged_world where
  "logged_start = \<lparr>tick = 0, now = 0, lw_events = []\<rparr>"

lemma logged_runtime_logs: "logs_events lw_events quiet logged_runtime"
  by (auto simp: logs_events_def logged_runtime_def logged_tool_def get_tool_def answers_yes_def allows_def Let_def split: if_splits)

theorem unauthorized_tool_not_invoked_witness:
  "\<exists>first second. lw_events (snd (execute_many quiet logged_runtime [demo_call ''c1'', demo_call ''c2''] demo_context None logged_start)) =
      first @ second \<and> approved first \<and> call_events logged_runtime demo_context (demo_call ''c2'') second"
proof -
  let ?run = "execute_many quiet logged_runtime [demo_call ''c1'', demo_call ''c2''] demo_context None logged_start"
  have "case fst ?run of Inl e \<Rightarrow> False | Inr b \<Rightarrow> tr_success (ob_results b ! 0)" by code_simp
  then obtain b where b: "fst ?run = Inr b" "tr_success (ob_results b ! 0)" by (auto split: sum.splits)
  obtain eventss where events: "lw_events (snd ?run) = lw_events logged_start @ concat eventss"
      "list_all2 (call_events logged_runtime demo_context) (take (length eventss) [demo_call ''c1'', demo_call ''c2'']) eventss"
      "length eventss = 2" "\<forall>i < 2. tr_success (ob_results b ! i) \<longrightarrow> approved (eventss ! i)"
    using unauthorized_tool_not_invoked [OF logged_runtime_logs surjective_pairing, of "[demo_call ''c1'', demo_call ''c2'']" demo_context None logged_start] b(1)
    by (auto simp: numeral_2_eq_2)
  obtain first second where two: "eventss = [first, second]" using events(3) by (auto simp: length_Suc_conv numeral_2_eq_2)
  have "approved (eventss ! 0)" using events(4) b(2) by simp
  then show ?thesis using events(1,2) unfolding two by (intro exI [of _ first] exI [of _ second]) (simp add: logged_start_def)
qed

definition demo_constraint :: repair_constraint where
  "demo_constraint = \<lparr>rp_failed_call_id = ''c1'', rp_expected_tool_name = ''echo'', rp_seen_call_ids = {''c0''},
     rp_previous_requested_fingerprint = ''sha256:'' @ replicate 64 CHR ''a'',
     rp_previous_effective_fingerprint = ''sha256:'' @ replicate 64 CHR ''a''\<rparr>"

theorem repair_constraint_enforced_witness:
  "tk_id (demo_call ''c2'') \<notin> insert (rp_failed_call_id demo_constraint) (rp_seen_call_ids demo_constraint)"
proof -
  have "dw_calls (snd (execute_many quiet (demo_runtime True) [demo_call ''c2''] demo_context (Some demo_constraint)
      (demo_start 1))) = 2"
    by code_simp
  then have "snd (execute_many quiet (demo_runtime True) [demo_call ''c2''] demo_context (Some demo_constraint)
      (demo_start 1)) \<noteq> demo_start 1" by (auto simp: demo_start_def)
  then show ?thesis
    using repair_constraint_enforced [where E = quiet and rt = "demo_runtime True" and calls = "[demo_call ''c2'']" and
      c = demo_context and k = demo_constraint and w = "demo_start 1", OF surjective_pairing] by auto
qed

definition demo_failure :: internal_tool_failure where
  "demo_failure = \<lparr>if_call_id = replicate 300 CHR ''x'', if_tool_name = ''echo'',
     if_classification = \<lparr>fc_error_type = EXECUTION_ERROR, fc_stable_reason = ''busy'', fc_retryable = True,
       fc_recovery_directive = None, fc_safe_message = Some ''try  again'', fc_diagnostic_ref = None\<rparr>,
     if_safety_profile = unsafe_profile, if_requested_arguments_fingerprint = None,
     if_effective_arguments_fingerprint = None, if_attempts = 1, if_same_call_retry_exhausted = False,
     if_diagnostic_ref = None, if_failure_id = None\<rparr>"

theorem projection_bounded_witness:
  "length (sv_call_id (projr (project default_projector demo_failure True))) \<le> 256"
proof -
  have "\<not> isl (project default_projector demo_failure True)" by code_simp
  then have "project default_projector demo_failure True = Inr (projr (project default_projector demo_failure True))"
    by (cases "project default_projector demo_failure True") auto
  then show ?thesis using projection_bounded [of default_projector demo_failure True]
    by (simp add: default_projector_def)
qed

theorem tool_batch_has_outcome_witness:
  "\<exists>b. fst (execute_many quiet (demo_runtime True) [demo_call ''c1''] demo_context None (demo_start 0)) = Inr b \<and>
     length (ob_results b) = 1"
proof -
  have "accepted_call (demo_runtime True) (demo_call ''c1'')"
    unfolding accepted_call_def by (simp add: demo_call_def demo_runtime_def default_projector_def plain_def) code_simp
  then show ?thesis
    using tool_batch_has_outcome [OF demo_behaves, of "[demo_call ''c1'']" True None demo_context "demo_start 0"]
    by (auto dest: list_all2_lengthD)
qed

theorem rewritten_call_id_raises_witness:
  "fst (execute_many quiet (demo_runtime True)
      [\<lparr>tk_id = ''two  blanks'', tk_name = ''missing'', tk_arguments = []\<rparr>] demo_context None (demo_start 0)) =
    Inl (ValueError ''Tool failure view identity does not match its result'')"
proof -
  have texts: "strip ''two  blanks'' \<noteq> []" "strip ''missing'' \<noteq> []"
    "bounded_text 256 ''unknown_call'' ''two  blanks'' \<noteq> ''two  blanks''" by code_simp+
  show ?thesis
    by (subst rewritten_call_id_raises)
      (use texts demo_behaves [of True] in \<open>auto simp: runtime_behaves_def get_tool_def demo_runtime_def default_projector_def\<close>)
qed

subsection \<open>Recovery\<close>

definition hash_a :: string where "hash_a = ''sha256:'' @ replicate 64 CHR ''a''"

definition demo_broken :: internal_tool_failure where
  "demo_broken = \<lparr>if_call_id = ''c1'', if_tool_name = ''echo'',
     if_classification = \<lparr>fc_error_type = INVALID_ARGUMENTS, fc_stable_reason = ''invalid_arguments'', fc_retryable = False,
       fc_recovery_directive = Some REPAIR_CALL, fc_safe_message = None, fc_diagnostic_ref = None\<rparr>,
     if_safety_profile = resolve_tool_safety_profile demo_tool, if_requested_arguments_fingerprint = Some hash_a,
     if_effective_arguments_fingerprint = Some hash_a, if_attempts = 1, if_same_call_retry_exhausted = False,
     if_diagnostic_ref = None, if_failure_id = None\<rparr>"

definition demo_outcome :: tool_batch_outcome where
  "demo_outcome = \<lparr>ob_calls = [\<lparr>tk_id = ''c1'', tk_name = ''echo'', tk_arguments = []\<rparr>],
     ob_results = [\<lparr>tr_call_id = ''c1'', tr_tool_name = ''echo'', tr_success = False, tr_value = PNone,
       tr_error = Some \<lparr>te_type = INVALID_ARGUMENTS, te_message = ''no'', te_retryable = False, te_details = [],
         te_reason = None, te_recovery = Some REPAIR_CALL\<rparr>,
       tr_attempts = 1, tr_duration_seconds = 0, tr_invocation_arguments = None, tr_repair_safe = True\<rparr>],
     ob_failures = [demo_broken],
     ob_views = [\<lparr>sv_error_type = INVALID_ARGUMENTS, sv_view_reason = ''invalid_arguments'', sv_recovery = Some REPAIR_CALL,
       sv_retryable = False, sv_call_id = ''c1'', sv_tool_name = ''echo'',
       sv_requested_arguments_fingerprint = Some hash_a, sv_effective_arguments_fingerprint = Some hash_a,
       sv_message = None\<rparr>]\<rparr>"

definition demo_config :: recovery_config where
  "demo_config = \<lparr>rg_fallback = FB_replan, rg_allow_same_step_repair = True, rg_require_repair_safe = True,
     rg_safe_message = False\<rparr>"

definition demo_recovery :: recovery_state where
  "demo_recovery = \<lparr>rs_active_calls = [(''c1'', \<lparr>ac_tool_name = ''echo'', ac_fingerprint = hash_a\<rparr>)],
     rs_seen_call_ids = [''c1''], rs_pending_failure = None, rs_repair_count_by_step = [], rs_total_repairs = 0,
     rs_terminal_failure = None\<rparr>"

abbreviation "demo_decision \<equiv> decide default_projector demo_config demo_outcome ''step'' 2 demo_recovery"

lemma demo_repairs: "\<not> isl (fst demo_decision)" "rd_kind (projr (fst demo_decision)) = K_REPAIR"
  by code_simp+

lemma demo_decision_run: obtains d s' where "demo_decision = (Inr d, s')" and "rd_kind d = K_REPAIR"
  using demo_repairs by (cases demo_decision; cases "fst demo_decision") auto

theorem decide_repairs_soundly_witness:
  "rs_total_repairs (snd demo_decision) = 1"
proof -
  obtain d s' where run: "demo_decision = (Inr d, s')" and kind: "rd_kind d = K_REPAIR" by (rule demo_decision_run)
  then show ?thesis using decide_repairs_soundly [OF run] by (auto simp: demo_recovery_def)
qed

definition demo_idle :: recovery_state where
  "demo_idle = \<lparr>rs_active_calls = [], rs_seen_call_ids = [], rs_pending_failure = None, rs_repair_count_by_step = [],
     rs_total_repairs = 0, rs_terminal_failure = None\<rparr>"

theorem repair_budget_kept_witness:
  "let s1 = snd (record_requested_calls (\<lambda>_. Inr hash_a) [\<lparr>tk_id = ''c1'', tk_name = ''echo'', tk_arguments = []\<rparr>] demo_idle);
       s2 = snd (decide default_projector demo_config demo_outcome ''step'' 1 s1)
   in (\<forall>(i, n) \<in> set (rs_repair_count_by_step s2). 1 \<le> n \<and> n \<le> 1) \<and>
     rs_total_repairs s2 = sum_list (map snd (rs_repair_count_by_step s2))"
proof -
  let ?s1 = "snd (record_requested_calls (\<lambda>_. Inr hash_a) [\<lparr>tk_id = ''c1'', tk_name = ''echo'', tk_arguments = []\<rparr>] demo_idle)"
  let ?s2 = "snd (decide default_projector demo_config demo_outcome ''step'' 1 ?s1)"
  have "recovery_run (\<lambda>_. Inr hash_a) default_projector demo_config 1 demo_idle ?s2"
    by (intro recovery_run.intros order.refl)
  from repair_budget_kept [OF this] show ?thesis by (simp add: demo_idle_def)
qed

lemma demo_outcome_accepted: "ToolBatchOutcome demo_outcome = Inr demo_outcome"
  by (simp add: ToolBatchOutcome_def Let_def bindR_Inr_iff demo_outcome_def demo_broken_def view_matches_def)

lemma demo_broken_accepted: "InternalToolFailure demo_broken = Inr demo_broken"
proof -
  have "strip ''c1'' \<noteq> []" "strip ''echo'' \<noteq> []" by code_simp+
  then show ?thesis
    by (simp add: InternalToolFailure_def bindR_Inr_iff demo_broken_def fingerprint_ok_def hash_a_def
      is_tool_argument_fingerprint_def list_all_iff)
qed

theorem recovery_always_decides_witness:
  "\<exists>d. fst demo_decision = Inr d \<and> rd_kind d \<noteq> K_CONTINUE"
proof -
  have "strip ''step'' \<noteq> []" "strip ''c1'' \<noteq> []" by code_simp+
  moreover have "failure_count demo_outcome = 1"
    by (simp add: failure_count_def success_count_def demo_outcome_def)
  moreover have "\<forall>f \<in> set (ob_failures demo_outcome). InternalToolFailure f = Inr f"
    using demo_broken_accepted by (simp add: demo_outcome_def)
  ultimately show ?thesis
    using recovery_always_decides [OF demo_outcome_accepted, of default_projector "''step''" 2 demo_recovery demo_config]
    by (auto simp: projector_ok_def default_projector_def demo_recovery_def)
qed

theorem repair_never_repeats_witness:
  "\<exists>d k. fst demo_decision = Inr d \<and> rd_constraint d = Some k \<and>
     tk_id (demo_call ''c2'') \<notin> set (rs_seen_call_ids demo_recovery) \<and>
     snd (execute_many quiet (demo_runtime True) [demo_call ''c2''] demo_context (Some k) (demo_start 1)) \<noteq> demo_start 1"
proof -
  have effect: "case fst demo_decision of Inl _ \<Rightarrow> False | Inr d \<Rightarrow> (case rd_constraint d of None \<Rightarrow> False
      | Some k \<Rightarrow> dw_calls (snd (execute_many quiet (demo_runtime True) [demo_call ''c2''] demo_context (Some k)
          (demo_start 1))) = 2)"
    by code_simp
  obtain d s' where run: "demo_decision = (Inr d, s')" by (rule demo_decision_run)
  have demo_start: "dw_calls (demo_start 1) = 1" by (simp add: demo_start_def)
  obtain k where k: "rd_constraint d = Some k"
    and changed: "snd (execute_many quiet (demo_runtime True) [demo_call ''c2''] demo_context (Some k) (demo_start 1)) \<noteq>
      demo_start 1"
    using effect run demo_start by (cases "rd_constraint d") (simp, fastforce)
  then show ?thesis
    using repair_never_repeats [OF run k surjective_pairing disjI1, OF changed] run by auto
qed

end
