(* ===== verification/Memory_Values.thy ===== *)
theory Memory_Values
  imports Tool_Values
begin

text \<open>
  Conversation messages (\<^verbatim>\<open>moduagent/messages.py\<close>), token budgets (\<^verbatim>\<open>moduagent/memory/token.py\<close>),
  the requests and results of a memory policy (\<^verbatim>\<open>moduagent/memory/base.py\<close>), and the division of a
  conversation into complete turns with the check of its Tool blocks
  (\<^verbatim>\<open>moduagent/memory/policies.py\<close>).
\<close>

subsection \<open>Messages\<close>

datatype message_role = MR_system | MR_user | MR_assistant | MR_tool

record chat_message =
  ms_role :: message_role
  ms_content :: "string option"
  ms_tool_calls :: "tool_call list"
  ms_tool_call_id :: "string option"
  ms_name :: "string option"
  ms_metadata :: "(string, pyval) dict"

fun role_value :: "message_role \<Rightarrow> string" where
  "role_value MR_system = ''system''"
| "role_value MR_user = ''user''"
| "role_value MR_assistant = ''assistant''"
| "role_value MR_tool = ''tool''"

definition system_message :: "string \<Rightarrow> chat_message" where
  "system_message content = \<lparr>ms_role = MR_system, ms_content = Some content, ms_tool_calls = [], ms_tool_call_id = None,
     ms_name = None, ms_metadata = []\<rparr>"

definition user_message :: "string \<Rightarrow> chat_message" where
  "user_message content = (system_message content)\<lparr>ms_role := MR_user\<rparr>"

definition tool_call_to_dict :: "tool_call \<Rightarrow> pyval" where
  "tool_call_to_dict c = PDict [(''id'', PStr (tk_id c)), (''name'', PStr (tk_name c)), (''arguments'', PDict (tk_arguments c))]"

text \<open>\<^verbatim>\<open>Message.to_dict\<close>: empty parts are left out.\<close>

definition text_entry :: "string \<Rightarrow> string option \<Rightarrow> (string, pyval) dict" where
  "text_entry k t = (case t of Some (c # cs) \<Rightarrow> [(k, PStr (c # cs))] | _ \<Rightarrow> [])"

definition message_to_dict :: "chat_message \<Rightarrow> pyval" where
  "message_to_dict m = PDict ([(''role'', PStr (role_value (ms_role m))),
       (''content'', case ms_content m of None \<Rightarrow> PNone | Some t \<Rightarrow> PStr t)] @
     (if ms_tool_calls m = [] then [] else [(''tool_calls'', PList (map tool_call_to_dict (ms_tool_calls m)))]) @
     text_entry ''tool_call_id'' (ms_tool_call_id m) @ text_entry ''name'' (ms_name m) @
     (if ms_metadata m = [] then [] else [(''metadata'', PDict (ms_metadata m))]))"

record usage =
  us_input_tokens :: int
  us_output_tokens :: int
  us_total_tokens :: int
  us_provider :: "(string, pyval) dict"

definition no_usage :: usage where
  "no_usage = \<lparr>us_input_tokens = 0, us_output_tokens = 0, us_total_tokens = 0, us_provider = []\<rparr>"

definition plus_usage :: "usage \<Rightarrow> usage \<Rightarrow> usage" where
  "plus_usage u v = \<lparr>us_input_tokens = us_input_tokens u + us_input_tokens v,
     us_output_tokens = us_output_tokens u + us_output_tokens v,
     us_total_tokens = us_total_tokens u + us_total_tokens v, us_provider = []\<rparr>"

record chat_request =
  cq_messages :: "chat_message list"
  cq_tools :: "string list"
  cq_output_schema :: "pyval option"
  cq_options :: "(string, pyval) dict"

subsection \<open>Budgets, requests, results\<close>

record token_budget =
  tb_context_window_tokens :: int
  tb_reserved_output_tokens :: int
  tb_safety_margin_tokens :: int

definition input_tokens :: "token_budget \<Rightarrow> int" where
  "input_tokens b = tb_context_window_tokens b - tb_reserved_output_tokens b - tb_safety_margin_tokens b"

definition TokenBudget :: "token_budget \<Rightarrow> token_budget res" where
  "TokenBudget b = bindR (all_ok
     [require (1 \<le> tb_context_window_tokens b) (ValueError ''context_window_tokens must be at least 1''),
      require (0 \<le> tb_reserved_output_tokens b) (ValueError ''reserved_output_tokens cannot be negative''),
      require (0 \<le> tb_safety_margin_tokens b) (ValueError ''safety_margin_tokens cannot be negative''),
      require (1 \<le> input_tokens b) (ValueError (''reserved_output_tokens and safety_margin_tokens must leave '' @
        ''at least one input token''))]) (\<lambda>_. Inr b)"

datatype memory_phase = MP_plan | MP_act | MP_step_result | MP_verify | MP_finalize

fun memory_phase_value :: "memory_phase \<Rightarrow> string" where
  "memory_phase_value MP_plan = ''plan''"
| "memory_phase_value MP_act = ''act''"
| "memory_phase_value MP_step_result = ''step_result''"
| "memory_phase_value MP_verify = ''verify''"
| "memory_phase_value MP_finalize = ''finalize''"

record memory_request =
  mq_session_id :: string
  mq_phase :: memory_phase
  mq_model_request :: chat_request
  mq_protected_from :: int
  mq_has_gateway :: bool

definition MemoryRequest :: "memory_request \<Rightarrow> memory_request res" where
  "MemoryRequest q = bindR (require (0 \<le> mq_protected_from q) (ValueError ''protected_from cannot be negative'')) (\<lambda>_. Inr q)"

record memory_result =
  mo_messages :: "chat_message list"
  mo_usage :: usage
  mo_original_tokens :: int
  mo_selected_tokens :: int
  mo_summarized_messages :: int
  mo_dropped_messages :: int
  mo_metadata :: "(string, pyval) dict"

definition MemoryResult :: "memory_result \<Rightarrow> memory_result res" where
  "MemoryResult r = bindR (all_ok
     [require (0 \<le> mo_original_tokens r) (ValueError ''original_tokens cannot be negative''),
      require (0 \<le> mo_selected_tokens r) (ValueError ''selected_tokens cannot be negative''),
      require (0 \<le> mo_summarized_messages r) (ValueError ''summarized_messages cannot be negative''),
      require (0 \<le> mo_dropped_messages r) (ValueError ''dropped_messages cannot be negative'')]) (\<lambda>_. Inr r)"

datatype bound_kind = BK_turns | BK_tokens

record memory_context_bound =
  bd_kind :: bound_kind
  bd_limit :: int

definition MemoryContextBound :: "bound_kind \<Rightarrow> int \<Rightarrow> memory_context_bound res" where
  "MemoryContextBound kind limit = bindR (require (0 \<le> limit)
     (ValueError ''memory context bound limit must be a non-negative integer'')) (\<lambda>_. Inr \<lparr>bd_kind = kind, bd_limit = limit\<rparr>)"

subsection \<open>Tool blocks\<close>

text \<open>\<^verbatim>\<open>MemoryIntegrityError\<close> with the index of the message.\<close>

definition integrity_error :: "string \<Rightarrow> nat \<Rightarrow> exn" where
  "integrity_error text1 index = DetailedException ''MemoryIntegrityError'' text1 [int index]"

text \<open>The results that follow the calls of an assistant: the error, or what was seen and the rest.\<close>

fun tool_block :: "(string, string) dict \<Rightarrow> string list \<Rightarrow> chat_message list \<Rightarrow> nat \<Rightarrow>
    (string list \<times> chat_message list \<times> nat) res" where
  "tool_block expected seen [] position = Inr (seen, [], position)"
| "tool_block expected seen (result # rest) position =
     (if ms_role result \<noteq> MR_tool then Inr (seen, result # rest, position)
      else case ms_tool_call_id result of
        None \<Rightarrow> Inl (integrity_error ''Tool result identifier does not match its Tool Call'' position)
      | Some i \<Rightarrow> (case dget expected i of
          None \<Rightarrow> Inl (integrity_error ''Tool result identifier does not match its Tool Call'' position)
        | Some called \<Rightarrow>
            if i \<in> set seen
            then Inl (integrity_error ''Tool result identifier does not match its Tool Call'' position)
            else if ms_name result \<noteq> None \<and> ms_name result \<noteq> Some called
            then Inl (integrity_error ''Tool result name does not match its Tool Call'' position)
            else tool_block expected (i # seen) rest (position + 1)))"

lemma tool_block_length: "tool_block expected seen ms position = Inr (seen', rest, position') \<Longrightarrow> length rest \<le> length ms"
  by (induction expected seen ms position rule: tool_block.induct) (force split: if_splits option.splits)+

function tool_integrity_error :: "chat_message list \<Rightarrow> nat \<Rightarrow> exn option" where
  "tool_integrity_error [] index = None"
| "tool_integrity_error (m # ms) index =
     (if ms_role m = MR_tool then Some (integrity_error ''Tool result has no preceding assistant Tool Call'' index)
      else if ms_role m \<noteq> MR_assistant \<or> ms_tool_calls m = [] then tool_integrity_error ms (index + 1)
      else let ids = map tk_id (ms_tool_calls m) in
        if [] \<in> set ids \<or> \<not> distinct ids
        then Some (integrity_error ''assistant Tool Call identifiers must be non-empty and unique'' index)
        else case tool_block (map (\<lambda>c. (tk_id c, tk_name c)) (ms_tool_calls m)) [] ms (index + 1) of
          Inl e \<Rightarrow> Some e
        | Inr (seen, rest, position) \<Rightarrow>
            if set seen \<noteq> set ids then Some (integrity_error ''assistant Tool Call is missing a Tool result'' index)
            else tool_integrity_error rest position)"
  by pat_completeness auto

termination
  by (relation "measure (\<lambda>(ms, index). length ms)") (auto dest!: tool_block_length)

subsection \<open>Turns\<close>

record conversation_parts =
  cp_system :: "chat_message list"
  cp_history_turns :: "chat_message list list"
  cp_protected :: "chat_message list"
  cp_invalid_messages :: nat
  cp_invalid_turns :: nat

text \<open>A turn starts with a message of the user; what comes before the first one is orphaned.\<close>

fun split_turns :: "chat_message list \<Rightarrow> chat_message list \<Rightarrow> chat_message list \<times> chat_message list list" where
  "split_turns current [] = ([], if current = [] then [] else [current])"
| "split_turns current (m # ms) =
     (if ms_role m = MR_user
      then case split_turns [m] ms of (orphaned, turns) \<Rightarrow> (orphaned, (if current = [] then [] else [current]) @ turns)
      else if current \<noteq> [] then split_turns (current @ [m]) ms
      else case split_turns [] ms of (orphaned, turns) \<Rightarrow> (m # orphaned, turns))"

text \<open>The turns after the last one whose Tool blocks are damaged.\<close>

definition intact :: "chat_message list \<Rightarrow> bool" where
  "intact turn \<longleftrightarrow> tool_integrity_error turn 0 = None"

definition valid_suffix :: "chat_message list list \<Rightarrow> chat_message list list" where
  "valid_suffix turns = rev (takeWhile intact (rev turns))"

definition conversation_parts_of :: "memory_request \<Rightarrow> conversation_parts res" where
  "conversation_parts_of q =
     (let messages = cq_messages (mq_model_request q); n = nat (mq_protected_from q) in
      if int (length messages) < mq_protected_from q then Inl (ValueError ''protected_from exceeds the message count'')
      else let historical = take n messages; protected = drop n messages in
        case tool_integrity_error protected n of
          Some e \<Rightarrow> Inl e
        | None \<Rightarrow>
            let system = takeWhile (\<lambda>m. ms_role m = MR_system) historical;
                (orphaned, turns) = split_turns [] (drop (length system) historical);
                history = valid_suffix turns;
                excluded = take (length turns - length history) turns in
            Inr \<lparr>cp_system = system, cp_history_turns = history, cp_protected = protected,
              cp_invalid_messages = length orphaned + length (concat excluded),
              cp_invalid_turns = of_bool (orphaned \<noteq> []) + length excluded\<rparr>)"

definition compose_view :: "conversation_parts \<Rightarrow> chat_message list list \<Rightarrow> chat_message option \<Rightarrow> chat_message list" where
  "compose_view parts turns summary = cp_system parts @ (case summary of None \<Rightarrow> [] | Some m \<Rightarrow> [m]) @ concat turns @ cp_protected parts"

end
