(* ===== verification/Memory_Policies.thy ===== *)
theory Memory_Policies
  imports Memory_Values
begin

text \<open>
  The conversation memory policies (\<^verbatim>\<open>moduagent/memory/policies.py\<close>): the full conversation, the recent turns, and
  the turns that fit a token budget, with a summary of the others.  The token counter and the summarizer are
  parameters; the memo of the counts of one preparation and the in-memory store of summaries
  (\<^verbatim>\<open>moduagent/memory/state.py\<close>) are part of the state.  The keyed digest of a request in the memo is the
  request itself, and the digest of a prefix of messages is a parameter.
\<close>

subsection \<open>Summaries\<close>

record summary_result =
  sm_summary :: string
  sm_usage :: usage

definition SummaryResult :: "summary_result \<Rightarrow> summary_result res" where
  "SummaryResult r = bindR (require (strip (sm_summary r) \<noteq> []) (ValueError ''summary cannot be empty'')) (\<lambda>_. Inr r)"

record memory_snapshot =
  sp_summary :: string
  sp_covered_message_count :: nat
  sp_covered_prefix_digest :: string
  sp_policy_fingerprint :: string

definition MemorySnapshot :: "memory_snapshot \<Rightarrow> memory_snapshot res" where
  "MemorySnapshot s = bindR (all_ok
     [require (strip (sp_summary s) \<noteq> []) (ValueError ''summary cannot be empty''),
      require (1 \<le> sp_covered_message_count s) (ValueError ''covered_message_count must be at least 1''),
      require (sp_covered_prefix_digest s \<noteq> []) (ValueError ''covered_prefix_digest cannot be empty''),
      require (sp_policy_fingerprint s \<noteq> []) (ValueError ''policy_fingerprint cannot be empty'')]) (\<lambda>_. Inr s)"

definition summary_message :: "string \<Rightarrow> chat_message" where
  "summary_message text1 = \<lparr>ms_role = MR_assistant,
     ms_content = Some (''Summary of earlier conversation:'' @ [CHR 0x0A] @ text1), ms_tool_calls = [],
     ms_tool_call_id = None, ms_name = None, ms_metadata = [(''moduagent.memory'', PStr ''summary'')]\<rparr>"

subsection \<open>The full conversation and the recent turns\<close>

definition full_prepare :: "memory_request \<Rightarrow> memory_result res" where
  "full_prepare q =
     (if int (length (cq_messages (mq_model_request q))) < mq_protected_from q
      then Inl (ValueError ''protected_from exceeds the message count'')
      else MemoryResult \<lparr>mo_messages = cq_messages (mq_model_request q), mo_usage = no_usage, mo_original_tokens = 0,
        mo_selected_tokens = 0, mo_summarized_messages = 0, mo_dropped_messages = 0, mo_metadata = []\<rparr>)"

definition RecentTurns :: "int \<Rightarrow> int res" where
  "RecentTurns max_turns = bindR (require (0 \<le> max_turns) (ValueError ''max_turns cannot be negative'')) (\<lambda>_. Inr max_turns)"

definition last_turns :: "int \<Rightarrow> 'a list \<Rightarrow> 'a list" where
  "last_turns n turns = (if n = 0 then [] else drop (length turns - nat n) turns)"

definition recent_prepare :: "int \<Rightarrow> memory_request \<Rightarrow> memory_result res" where
  "recent_prepare max_turns q = bindR (conversation_parts_of q) (\<lambda>parts.
     let turns = last_turns max_turns (cp_history_turns parts) in
     MemoryResult \<lparr>mo_messages = compose_view parts turns None, mo_usage = no_usage, mo_original_tokens = 0,
       mo_selected_tokens = 0, mo_summarized_messages = 0,
       mo_dropped_messages = int (length (concat (cp_history_turns parts))) - int (length (concat turns)) +
         int (cp_invalid_messages parts),
       mo_metadata = [(''phase'', PStr (memory_phase_value (mq_phase q))),
         (''selected_history_turns'', PInt (int (length turns))),
         (''dropped_history_turns'', PInt (int (length (cp_history_turns parts)) - int (length turns))),
         (''invalid_history_turns'', PInt (int (cp_invalid_turns parts)))]\<rparr>)"

subsection \<open>The token budget\<close>

record 'w preparation =
  pr_counts :: "(chat_request, int) dict"
  pr_snapshots :: "(string, memory_snapshot) dict"
  pr_usage :: usage
  pr_cache_hit :: bool
  pr_world :: 'w

record 'w token_policy =
  tp_budget :: token_budget
  tp_count :: "chat_request \<Rightarrow> 'w \<Rightarrow> int res \<times> 'w"
  tp_summarize :: "(bool \<Rightarrow> chat_message list \<Rightarrow> string option \<Rightarrow> 'w \<Rightarrow> summary_result res \<times> 'w) option"
  tp_has_store :: bool
  tp_max_history_turns :: "int option"
  tp_fingerprint :: string
  tp_digest :: "chat_message list \<Rightarrow> string"
  tp_terminal :: "exn \<Rightarrow> bool"

text \<open>The constructor makes an in-memory store for a summarizer that is given none.\<close>

definition TokenBudgetPolicy :: "'w token_policy \<Rightarrow> 'w token_policy res" where
  "TokenBudgetPolicy p = bindR (all_ok
     [require (case tp_max_history_turns p of None \<Rightarrow> True | Some n \<Rightarrow> 0 \<le> n)
        (ValueError ''max_history_turns cannot be negative''),
      require (tp_has_store p \<longrightarrow> tp_summarize p \<noteq> None) (ValueError ''state_store requires a summarizer'')])
     (\<lambda>_. Inr (p\<lparr>tp_has_store := (tp_summarize p \<noteq> None)\<rparr>))"

abbreviation limit_of :: "'w token_policy \<Rightarrow> int" where
  "limit_of p \<equiv> input_tokens (tp_budget p)"

definition with_world :: "('w \<Rightarrow> 'a res \<times> 'w) \<Rightarrow> ('w preparation, 'a) prog" where
  "with_world f = (\<lambda>s. case f (pr_world s) of (x, w) \<Rightarrow> (x, s\<lparr>pr_world := w\<rparr>))"

definition count_request :: "'w token_policy \<Rightarrow> chat_request \<Rightarrow> ('w preparation, int) prog" where
  "count_request p request = (\<lambda>s. case dget (pr_counts s) request of
     Some n \<Rightarrow> (Inr n, s)
   | None \<Rightarrow> bindP (with_world (tp_count p request)) (\<lambda>n.
       bindP (modifyP (\<lambda>s. s\<lparr>pr_counts := dset request n (pr_counts s)\<rparr>)) (\<lambda>_. ret n)) s)"

definition count_view :: "'w token_policy \<Rightarrow> memory_request \<Rightarrow> chat_message list \<Rightarrow> ('w preparation, int) prog" where
  "count_view p q messages = count_request p ((mq_model_request q)\<lparr>cq_messages := messages\<rparr>)"

text \<open>The smallest prefix to remove, by bisection; the counts of suffixes are taken to be monotone.\<close>

function suffix_search :: "'w token_policy \<Rightarrow> memory_request \<Rightarrow> conversation_parts \<Rightarrow> chat_message list list \<Rightarrow>
    nat \<Rightarrow> nat \<Rightarrow> ('w preparation, nat) prog" where
  "suffix_search p q parts turns low high =
     (if low < high
      then bindP (count_view p q (compose_view parts (drop ((low + high) div 2) turns) None)) (\<lambda>tokens.
        if tokens \<le> limit_of p then suffix_search p q parts turns low ((low + high) div 2)
        else suffix_search p q parts turns ((low + high) div 2 + 1) high)
      else ret low)"
  by pat_completeness auto

termination
  by (relation "measure (\<lambda>(p, q, parts, turns, low, high). high - low)") auto

declare suffix_search.simps [simp del]

definition allowed_turns :: "'w token_policy \<Rightarrow> conversation_parts \<Rightarrow> chat_message list list" where
  "allowed_turns p parts = (case tp_max_history_turns p of None \<Rightarrow> cp_history_turns parts
     | Some n \<Rightarrow> last_turns n (cp_history_turns parts))"

definition select_turns :: "'w token_policy \<Rightarrow> memory_request \<Rightarrow> conversation_parts \<Rightarrow> int \<Rightarrow>
    ('w preparation, chat_message list list \<times> int) prog" where
  "select_turns p q parts original_tokens =
     (let selected = allowed_turns p parts; view = compose_view parts selected None in
      bindP (if view = cq_messages (mq_model_request q) then ret original_tokens else count_view p q view) (\<lambda>tokens.
      if selected \<noteq> [] \<and> limit_of p < tokens
      then bindP (suffix_search p q parts selected 1 (length selected)) (\<lambda>low.
        bindP (count_view p q (compose_view parts (drop low selected) None)) (\<lambda>tokens.
        ret (drop low selected, tokens)))
      else ret (selected, tokens)))"

definition raise_overflow :: "'w token_policy \<Rightarrow> memory_request \<Rightarrow> chat_message list \<Rightarrow> int \<Rightarrow> ('w preparation, 'a) prog" where
  "raise_overflow p q messages required =
     (let request = (mq_model_request q)\<lparr>cq_messages := messages\<rparr> in
      bindP (count_request p (request\<lparr>cq_tools := [], cq_output_schema := None\<rparr>)) (\<lambda>message_tokens.
      bindP (count_request p (request\<lparr>cq_output_schema := None\<rparr>)) (\<lambda>messages_and_tools.
      raise (DetailedException ''ConversationMemoryOverflowError'' ''protected conversation input exceeds the token budget''
        [required, limit_of p, message_tokens, max 0 (messages_and_tools - message_tokens),
         max 0 (required - messages_and_tools)]))))"

text \<open>\<^verbatim>\<open>_summary\<close>: a stored summary of a prefix of the messages is continued, or returned as it is.\<close>

definition reusable_snapshot :: "'w token_policy \<Rightarrow> chat_message list \<Rightarrow> memory_snapshot option \<Rightarrow> memory_snapshot option" where
  "reusable_snapshot p messages snapshot = (case snapshot of None \<Rightarrow> None
   | Some s \<Rightarrow> if sp_policy_fingerprint s = tp_fingerprint p \<and> sp_covered_message_count s \<le> length messages \<and>
       tp_digest p (take (sp_covered_message_count s) messages) = sp_covered_prefix_digest s then Some s else None)"

definition summarize_turns :: "'w token_policy \<Rightarrow> memory_request \<Rightarrow> chat_message list list \<Rightarrow>
    ('w preparation, chat_message \<times> usage \<times> bool) prog" where
  "summarize_turns p q turns = (case tp_summarize p of
     None \<Rightarrow> raise (RuntimeError ''summarizer is not configured'')
   | Some summarize \<Rightarrow>
       let messages = concat turns in
       bindP (readP (\<lambda>s. if tp_has_store p then dget (pr_snapshots s) (mq_session_id q) else None)) (\<lambda>snapshot.
       let reused = reusable_snapshot p messages snapshot;
           new_messages = (case reused of None \<Rightarrow> messages | Some s \<Rightarrow> drop (sp_covered_message_count s) messages) in
       if reused \<noteq> None \<and> new_messages = [] then ret (summary_message (sp_summary (the reused)), no_usage, True)
       else bindP (with_world (summarize (mq_has_gateway q) new_messages (map_option sp_summary reused))) (\<lambda>result.
         bindP (if tp_has_store p
           then bindP (ofR (MemorySnapshot \<lparr>sp_summary = sm_summary result, sp_covered_message_count = length messages,
               sp_covered_prefix_digest = tp_digest p messages, sp_policy_fingerprint = tp_fingerprint p\<rparr>)) (\<lambda>snapshot.
             modifyP (\<lambda>s. s\<lparr>pr_snapshots := dset (mq_session_id q) snapshot (pr_snapshots s)\<rparr>))
           else ret ()) (\<lambda>_.
         ret (summary_message (sm_summary result), sm_usage result, False)))))"

text \<open>The turns given up for the summary: \<open>k\<close> of all turns are excluded, \<open>ts\<close> are left.\<close>

fun fit_summary :: "'w token_policy \<Rightarrow> memory_request \<Rightarrow> conversation_parts \<Rightarrow> nat \<Rightarrow> chat_message list list \<Rightarrow>
    chat_message \<Rightarrow> int \<Rightarrow> ('w preparation, (chat_message \<times> chat_message list list \<times> int) option) prog" where
  "fit_summary p q parts k [] summary tokens =
     ret (if tokens \<le> limit_of p then Some (summary, [], tokens) else None)"
| "fit_summary p q parts k (t # ts) summary tokens =
     (if tokens \<le> limit_of p then ret (Some (summary, t # ts, tokens))
      else bindP (summarize_turns p q (take (Suc k) (cp_history_turns parts))) (\<lambda>(summary, extra, hit).
        bindP (modifyP (\<lambda>s. s\<lparr>pr_usage := plus_usage (pr_usage s) extra, pr_cache_hit := hit\<rparr>)) (\<lambda>_.
        bindP (count_view p q (compose_view parts ts (Some summary))) (\<lambda>tokens.
        fit_summary p q parts (Suc k) ts summary tokens))))"

definition try_summary :: "'w token_policy \<Rightarrow> memory_request \<Rightarrow> conversation_parts \<Rightarrow> chat_message list list \<Rightarrow>
    ('w preparation, (chat_message \<times> chat_message list list \<times> int) option) prog" where
  "try_summary p q parts selected =
     (let k = length (cp_history_turns parts) - length selected in
      bindP (summarize_turns p q (take k (cp_history_turns parts))) (\<lambda>(summary, used, hit).
      bindP (modifyP (\<lambda>s. s\<lparr>pr_usage := used, pr_cache_hit := hit\<rparr>)) (\<lambda>_.
      bindP (count_view p q (compose_view parts selected (Some summary))) (\<lambda>tokens.
      fit_summary p q parts k selected summary tokens))))"

text \<open>Failures of the model protocol and of the guard of a run are no failures of an optional summary.\<close>

definition summary_failure_raised :: "'w token_policy \<Rightarrow> exn \<Rightarrow> bool" where
  "summary_failure_raised p e \<longleftrightarrow> \<not> is_exception e \<or> exn_class e \<in> {''ModelProtocolError'', ''ModelOutputIncompleteError'',
     ''ModelGuardTripped'', ''ModelTurnBudgetExceeded'', ''ModelNoProgressError''} \<or> tp_terminal p e"

definition optional_summary :: "'w token_policy \<Rightarrow> memory_request \<Rightarrow> conversation_parts \<Rightarrow> chat_message list list \<Rightarrow>
    ('w preparation, (chat_message \<times> chat_message list list \<times> int) option \<times> string option) prog" where
  "optional_summary p q parts selected =
     (if tp_summarize p = None \<or> length (cp_history_turns parts) \<le> length selected then ret (None, None)
      else catchP (bindP (try_summary p q parts selected) (\<lambda>fitted. ret (fitted, None)))
        (\<lambda>e. if summary_failure_raised p e then raise e else ret (None, Some (exn_class e))))"

text \<open>The end of \<^verbatim>\<open>prepare\<close>: the result of a selection, with the summary if there is one.\<close>

definition view_result :: "'w token_policy \<Rightarrow> memory_request \<Rightarrow> conversation_parts \<Rightarrow> int \<Rightarrow> chat_message option \<Rightarrow>
    chat_message list list \<Rightarrow> int \<Rightarrow> string option \<Rightarrow> usage \<times> bool \<Rightarrow> memory_result res" where
  "view_result p q parts original_tokens summary selected tokens summary_error used_hit =
     (let turns = cp_history_turns parts;
          excluded = take (length turns - length selected) turns;
          summarized = (if summary = None then 0 else length (concat excluded)) in
      MemoryResult \<lparr>mo_messages = compose_view parts selected summary, mo_usage = fst used_hit,
       mo_original_tokens = original_tokens, mo_selected_tokens = tokens,
       mo_summarized_messages = int summarized,
       mo_dropped_messages = int (length (concat turns)) - int (length (concat selected)) - int summarized +
         int (cp_invalid_messages parts),
       mo_metadata = [(''phase'', PStr (memory_phase_value (mq_phase q))), (''budget_tokens'', PInt (limit_of p)),
         (''selected_history_turns'', PInt (int (length selected))),
         (''invalid_history_turns'', PInt (int (cp_invalid_turns parts))), (''cache_hit'', PBool (snd used_hit))] @
         (case summary_error of None \<Rightarrow> [] | Some name \<Rightarrow> [(''summary_error'', PStr name)])\<rparr>)"

definition finish_view :: "'w token_policy \<Rightarrow> memory_request \<Rightarrow> conversation_parts \<Rightarrow> int \<Rightarrow> chat_message list list \<Rightarrow> int \<Rightarrow>
    ('w preparation, memory_result) prog" where
  "finish_view p q parts original_tokens selected tokens =
     (if limit_of p < tokens then raise_overflow p q (compose_view parts [] None) tokens
      else bindP (optional_summary p q parts selected) (\<lambda>(fitted, summary_error).
        bindP (readP (\<lambda>s. (pr_usage s, pr_cache_hit s))) (\<lambda>used_hit.
        ofR (case fitted of
            None \<Rightarrow> view_result p q parts original_tokens None selected tokens summary_error used_hit
          | Some (m, ts, n) \<Rightarrow> view_result p q parts original_tokens (Some m) ts n summary_error used_hit))))"

definition token_prepare :: "'w token_policy \<Rightarrow> memory_request \<Rightarrow> ('w preparation, memory_result) prog" where
  "token_prepare p q =
     bindP (modifyP (\<lambda>s. s\<lparr>pr_counts := [], pr_usage := no_usage, pr_cache_hit := False\<rparr>)) (\<lambda>_.
     bindP (ofR (conversation_parts_of q)) (\<lambda>parts.
     bindP (count_request p (mq_model_request q)) (\<lambda>original_tokens.
     bindP (select_turns p q parts original_tokens) (\<lambda>(selected, tokens).
     finish_view p q parts original_tokens selected tokens))))"

end
