(* ===== verification/Memory_Views.thy ===== *)
theory Memory_Views
  imports Memory_Policies
begin

text \<open>
  What a view of a conversation is made of: the division into turns loses nothing, Tool blocks are complete
  in every part, and parts whose Tool blocks are complete have a complete composition.
\<close>

subsection \<open>Tool blocks\<close>

lemma tool_block_shift:
  "tool_block expected seen ms i = Inr (seen', rest, i') \<Longrightarrow> \<exists>j'. tool_block expected seen ms j = Inr (seen', rest, j')"
proof (induction expected seen ms i arbitrary: j rule: tool_block.induct)
  case (2 expected seen result ms position)
  show ?case
  proof (cases "ms_role result = MR_tool")
    case True
    then obtain c called where c: "ms_tool_call_id result = Some c" "dget expected c = Some called" "c \<notin> set seen"
        "ms_name result = None \<or> ms_name result = Some called"
        "tool_block expected (c # seen) ms (position + 1) = Inr (seen', rest, i')"
      using 2(2) by (auto split: option.splits if_splits)
    then have "\<exists>j'. tool_block expected (c # seen) ms (j + 1) = Inr (seen', rest, j')"
      using 2(1) [of c called "j + 1"] True by auto
    then show ?thesis using True c by auto
  qed (use 2(2) in auto)
qed simp

lemma tool_block_shift_cases:
  obtains (error) e1 e2 where "tool_block expected seen ms i = Inl e1" "tool_block expected seen ms j = Inl e2"
  | (result) seen' rest i' j' where "tool_block expected seen ms i = Inr (seen', rest, i')"
      "tool_block expected seen ms j = Inr (seen', rest, j')"
proof (cases "tool_block expected seen ms i")
  case (Inl e)
  then have "tool_block expected seen ms j \<noteq> Inr x" for x
    using tool_block_shift [of expected seen ms j _ _ _ i] by (cases x) fastforce
  then show thesis using Inl error by (cases "tool_block expected seen ms j") auto
next
  case (Inr x)
  then show thesis using tool_block_shift [of expected seen ms i _ _ _ j] result by (cases x) blast
qed

lemma tool_integrity_shift: "tool_integrity_error ms i = None \<longleftrightarrow> tool_integrity_error ms j = None"
proof (induction ms i arbitrary: j rule: tool_integrity_error.induct)
  case (2 m ms i)
  let ?ids = "map tk_id (ms_tool_calls m)" and ?expected = "map (\<lambda>c. (tk_id c, tk_name c)) (ms_tool_calls m)"
  show ?case
  proof (cases "ms_role m = MR_tool \<or> ms_role m \<noteq> MR_assistant \<or> ms_tool_calls m = [] \<or> [] \<in> set ?ids \<or> \<not> distinct ?ids")
    case True
    then show ?thesis using 2(1) [of "j + 1"] by (auto simp: Let_def)
  next
    case False
    show ?thesis
    proof (cases rule: tool_block_shift_cases [of ?expected "[]" ms "i + 1" "j + 1"])
      case error
      then show ?thesis using False by (simp add: Let_def)
    next
      case (result seen rest i' j')
      have "tool_integrity_error rest i' = None \<longleftrightarrow> tool_integrity_error rest j' = None" if "set seen = set ?ids"
        using 2(2) [of ?ids "(seen, rest, i')" seen "(rest, i')" rest i' j'] False result that by auto
      then show ?thesis using False result by (simp add: Let_def)
    qed
  qed
qed simp

lemma tool_integrity_intact: "tool_integrity_error ms i = None \<longleftrightarrow> intact ms"
  unfolding intact_def by (rule tool_integrity_shift)

lemma tool_block_append:
  assumes "tool_block expected seen ms i = Inr (seen', rest, i')" and "ys = [] \<or> ms_role (hd ys) \<noteq> MR_tool"
  shows "tool_block expected seen (ms @ ys) i = Inr (seen', rest @ ys, i')"
  using assms
proof (induction expected seen ms i rule: tool_block.induct)
  case (1 expected seen i)
  then show ?case by (cases ys) auto
qed (auto split: if_splits option.splits)

lemma intact_append:
  assumes "intact xs" and "intact ys"
  shows "intact (xs @ ys)"
proof -
  have start: "ys = [] \<or> ms_role (hd ys) \<noteq> MR_tool" using assms(2) by (cases ys) (auto simp: intact_def)
  have "tool_integrity_error (xs @ ys) i = None" if "tool_integrity_error xs i = None" for i
    using that
  proof (induction xs i rule: tool_integrity_error.induct)
    case (1 i)
    then show ?case using assms(2) by (simp add: tool_integrity_intact)
  next
    case (2 m ms i)
    let ?ids = "map tk_id (ms_tool_calls m)" and ?expected = "map (\<lambda>c. (tk_id c, tk_name c)) (ms_tool_calls m)"
    show ?case
    proof (cases "ms_role m \<noteq> MR_assistant \<or> ms_tool_calls m = []")
      case True
      then show ?thesis using 2(1,3) by (auto split: if_splits)
    next
      case False
      obtain seen rest i' where block: "tool_block ?expected [] ms (i + 1) = Inr (seen, rest, i')" "set seen = set ?ids"
          "[] \<notin> set ?ids" "distinct ?ids" "tool_integrity_error rest i' = None"
        using 2(3) False by (auto simp: Let_def split: if_splits sum.splits prod.splits)
      have "tool_integrity_error (rest @ ys) i' = None"
        using 2(2) [of ?ids "(seen, rest, i')" seen "(rest, i')" rest i'] False block by auto
      then show ?thesis using False block tool_block_append [OF block(1) start] by (simp add: Let_def)
    qed
  qed
  then show ?thesis using assms(1) by (simp add: intact_def)
qed

lemma intact_plain [simp]: "list_all (\<lambda>m. ms_role m \<noteq> MR_tool \<and> (ms_role m = MR_assistant \<longrightarrow> ms_tool_calls m = [])) ms \<Longrightarrow> intact ms"
proof -
  have "list_all (\<lambda>m. ms_role m \<noteq> MR_tool \<and> (ms_role m = MR_assistant \<longrightarrow> ms_tool_calls m = [])) ms \<Longrightarrow>
    tool_integrity_error ms i = None" for i
    by (induction ms arbitrary: i) auto
  then show "list_all (\<lambda>m. ms_role m \<noteq> MR_tool \<and> (ms_role m = MR_assistant \<longrightarrow> ms_tool_calls m = [])) ms \<Longrightarrow> intact ms"
    by (simp add: intact_def)
qed

lemma intact_concat: "\<forall>t \<in> set turns. intact t \<Longrightarrow> intact (concat turns)"
  by (induction turns) (auto intro: intact_append)

subsection \<open>Turns\<close>

definition starts_with_user :: "chat_message list \<Rightarrow> bool" where
  "starts_with_user turn \<longleftrightarrow> turn \<noteq> [] \<and> ms_role (hd turn) = MR_user"

lemma split_turns_parts:
  assumes "split_turns current ms = (orphaned, turns)" and "current = [] \<or> starts_with_user current"
  shows "orphaned @ concat turns = current @ ms \<and> (\<forall>t \<in> set turns. starts_with_user t) \<and> (current \<noteq> [] \<longrightarrow> orphaned = [])"
  using assms
proof (induction current ms arbitrary: orphaned turns rule: split_turns.induct)
  case (1 current)
  then show ?case by (auto split: if_splits)
next
  case (2 current m ms)
  show ?case
  proof (cases "ms_role m = MR_user")
    case True
    obtain o1 t1 where rest: "split_turns [m] ms = (o1, t1)" by fastforce
    have "o1 @ concat t1 = m # ms \<and> (\<forall>t \<in> set t1. starts_with_user t) \<and> o1 = []"
      using 2(1) [OF True rest] True by (auto simp: starts_with_user_def)
    then show ?thesis using 2(4,5) True rest by (auto split: if_splits)
  next
    case False
    show ?thesis
    proof (cases "current = []")
      case True
      obtain o1 t1 where rest: "split_turns [] ms = (o1, t1)" by fastforce
      then show ?thesis using 2(3) [OF False _ rest] 2(4) True False by auto
    next
      case current: False
      then have "starts_with_user (current @ [m])" using 2(5) by (auto simp: starts_with_user_def)
      then show ?thesis using 2(2) [OF False current] 2(4) False current by auto
    qed
  qed
qed

lemma valid_suffix_parts:
  "\<exists>excluded. turns = excluded @ valid_suffix turns \<and> (\<forall>t \<in> set (valid_suffix turns). intact t) \<and>
     excluded = take (length turns - length (valid_suffix turns)) turns"
proof -
  have "turns = rev (dropWhile intact (rev turns)) @ valid_suffix turns"
    unfolding valid_suffix_def by (metis rev_append rev_rev_ident takeWhile_dropWhile_id)
  moreover have "\<forall>t \<in> set (valid_suffix turns). intact t" by (auto simp: valid_suffix_def dest: set_takeWhileD)
  moreover have "excluded = take (length turns - length (valid_suffix turns)) turns"
    if "turns = excluded @ valid_suffix turns" for excluded
    using that by (metis append_eq_conv_conj diff_add_inverse2 length_append)
  ultimately show ?thesis by blast
qed

subsection \<open>Parts\<close>

text \<open>Nothing of a conversation is lost in its parts, and every part is intact.\<close>

lemma conversation_parts_spec:
  assumes "conversation_parts_of q = Inr parts"
  shows "\<exists>gone. cq_messages (mq_model_request q) = cp_system parts @ gone @ concat (cp_history_turns parts) @ cp_protected parts \<and>
    length gone = cp_invalid_messages parts \<and> cp_protected parts = drop (nat (mq_protected_from q)) (cq_messages (mq_model_request q)) \<and>
    cp_system parts = takeWhile (\<lambda>m. ms_role m = MR_system) (take (nat (mq_protected_from q)) (cq_messages (mq_model_request q))) \<and>
    (\<forall>t \<in> set (cp_history_turns parts). intact t \<and> starts_with_user t) \<and>
    intact (cp_protected parts)"
proof -
  let ?ms = "cq_messages (mq_model_request q)" and ?n = "nat (mq_protected_from q)"
  let ?system = "takeWhile (\<lambda>m. ms_role m = MR_system) (take ?n ?ms)"
  obtain orphaned turns where split: "split_turns [] (drop (length ?system) (take ?n ?ms)) = (orphaned, turns)" by fastforce
  have protected: "tool_integrity_error (drop ?n ?ms) ?n = None"
    and parts: "cp_system parts = ?system" "cp_history_turns parts = valid_suffix turns" "cp_protected parts = drop ?n ?ms"
      "cp_invalid_messages parts = length orphaned + length (concat (take (length turns - length (valid_suffix turns)) turns))"
    using assms split by (auto simp: conversation_parts_of_def Let_def split: if_splits option.splits)
  obtain excluded where excluded: "turns = excluded @ valid_suffix turns" "\<forall>t \<in> set (valid_suffix turns). intact t"
      "excluded = take (length turns - length (valid_suffix turns)) turns"
    using valid_suffix_parts by blast
  have turns: "orphaned @ concat turns = drop (length ?system) (take ?n ?ms)" "\<forall>t \<in> set turns. starts_with_user t"
    using split_turns_parts [OF split] by auto
  have "?ms = ?system @ drop (length ?system) (take ?n ?ms) @ drop ?n ?ms"
    by (metis append.assoc append_take_drop_id dropWhile_eq_drop takeWhile_dropWhile_id)
  also have "\<dots> = ?system @ (orphaned @ concat excluded) @ concat (valid_suffix turns) @ drop ?n ?ms"
    using turns(1) arg_cong [OF excluded(1), of concat] by simp
  finally have "?ms = cp_system parts @ (orphaned @ concat excluded) @ concat (cp_history_turns parts) @ cp_protected parts"
    using parts by simp
  moreover have "length (orphaned @ concat excluded) = cp_invalid_messages parts" using parts(4) excluded(3) by simp
  moreover have "\<forall>t \<in> set (cp_history_turns parts). starts_with_user t"
    using turns(2) parts(2) excluded(1) by (metis Un_iff set_append)
  moreover have "\<forall>t \<in> set (cp_history_turns parts). intact t" "intact (cp_protected parts)"
    using parts(2,3) excluded(2) protected by (simp_all add: tool_integrity_intact)
  ultimately show ?thesis using parts(1,3) by blast
qed

lemma summary_message_intact [simp]: "intact [summary_message text1]"
  by (simp add: summary_message_def)

lemma composed_view_intact:
  assumes "conversation_parts_of q = Inr parts" and "set turns \<subseteq> set (cp_history_turns parts)"
    and "summary = None \<or> (\<exists>text1. summary = Some (summary_message text1))"
  shows "intact (compose_view parts turns summary)"
proof -
  have "cp_system parts = takeWhile (\<lambda>m. ms_role m = MR_system) (take (nat (mq_protected_from q)) (cq_messages (mq_model_request q)))"
    and spec: "\<forall>t \<in> set (cp_history_turns parts). intact t" "intact (cp_protected parts)"
    using conversation_parts_spec [OF assms(1)] by blast+
  then have "\<forall>m \<in> set (cp_system parts). ms_role m = MR_system" by (metis set_takeWhileD)
  then have "intact (cp_system parts)" by (intro intact_plain) (auto simp: list_all_iff)
  moreover have "intact (case summary of None \<Rightarrow> [] | Some m \<Rightarrow> [m])" using assms(3) by (auto simp: intact_plain [of "[]", simplified])
  moreover have "intact (concat turns)" using spec(1) assms(2) by (intro intact_concat) auto
  ultimately show ?thesis using spec(2) unfolding compose_view_def by (intro intact_append)
qed

end
