(* ===== verification/Memory_Props.thy ===== *)
theory Memory_Props
  imports Memory_Views Program_Logic
begin

text \<open>
  What the memory policies promise: a view of the conversation is sound and fits its budget, it keeps as many
  recent turns as fit, a summary in it stands for exactly the turns it replaces, and a summary that fails
  costs no turn.
\<close>

subsection \<open>Summaries\<close>

text \<open>
  A text summarizes messages when the summarizer made it of them, at once or continuing an older summary of a
  first part of them.
\<close>

inductive summarizes :: "'w token_policy \<Rightarrow> chat_message list \<Rightarrow> string \<Rightarrow> bool" for p where
  fresh: "tp_summarize p = Some f \<Longrightarrow> f g ms None w = (Inr r, w') \<Longrightarrow> summarizes p ms (sm_summary r)"
| continued: "summarizes p ms old \<Longrightarrow> tp_summarize p = Some f \<Longrightarrow> f g new (Some old) w = (Inr r, w') \<Longrightarrow>
    summarizes p (ms @ new) (sm_summary r)"

text \<open>Every stored summary of the policy is one of the messages whose digest it carries.\<close>

definition summaries_ok :: "'w token_policy \<Rightarrow> chat_message list set \<Rightarrow> (string, memory_snapshot) dict \<Rightarrow> bool" where
  "summaries_ok p known_lists snapshots \<longleftrightarrow> (\<forall>s \<in> snd ` set snapshots. sp_policy_fingerprint s = tp_fingerprint p \<longrightarrow>
     (\<exists>ms \<in> known_lists. sp_covered_prefix_digest s = tp_digest p ms \<and> sp_covered_message_count s = length ms \<and> summarizes p ms (sp_summary s)))"

lemma summaries_ok_set:
  assumes "summaries_ok p known_lists snapshots" and "ms \<in> known_lists"
    and "sp_covered_prefix_digest s = tp_digest p ms" "sp_covered_message_count s = length ms" "summarizes p ms (sp_summary s)"
  shows "summaries_ok p known_lists (dset i s snapshots)"
proof -
  have "snd ` set (dset i s snapshots) \<subseteq> insert s (snd ` set snapshots)" using set_dset_subset [of i s snapshots] by auto
  then show ?thesis using assms unfolding summaries_ok_def by blast
qed

text \<open>The facts that hold of a state of a preparation: the counts taken so far, and its stored summaries, for lists of
  messages \<open>h\<close> whose digests do not collide; without them nothing is said of summaries.\<close>

definition sound :: "'w token_policy \<Rightarrow> chat_message list set option \<Rightarrow> (chat_request \<times> int) set \<Rightarrow> 'w preparation \<Rightarrow> bool" where
  "sound p h counted s \<longleftrightarrow> (\<forall>known_lists. h = Some known_lists \<longrightarrow> summaries_ok p known_lists (pr_snapshots s)) \<and> (\<forall>(r, n) \<in> counted. dget (pr_counts s) r = Some n)"

lemma sound_mono: "sound p h counted s \<Longrightarrow> counted' \<subseteq> counted \<Longrightarrow> sound p h counted' s"
  by (auto simp: sound_def)

lemma summary_message_eq [simp]: "summary_message a = summary_message b \<longleftrightarrow> a = b"
  by (simp add: summary_message_def)

abbreviation sound_triple ::
    "'w token_policy \<Rightarrow> chat_message list set option \<Rightarrow> (chat_request \<times> int) set \<Rightarrow> ('w preparation, 'a) prog \<Rightarrow> ('a \<Rightarrow> 'w preparation \<Rightarrow> bool) \<Rightarrow> bool" where
  "sound_triple p h counted \<equiv> triple (sound p h counted) (sound p h counted)"

abbreviation view_request :: "memory_request \<Rightarrow> chat_message list \<Rightarrow> chat_request" where
  "view_request q view \<equiv> (mq_model_request q)\<lparr>cq_messages := view\<rparr>"

lemma count_request_sound: "sound_triple p h counted (count_request p r) (\<lambda>n. sound p h (insert (r, n) counted))"
  by (rule tripleI)
    (auto simp: count_request_def with_world_def bindP_run modifyP_def ret_def sound_def dget_dset
      split: option.splits prod.splits sum.splits if_splits)

lemma sound_count:
  assumes "\<And>n. sound_triple p h (insert (view_request q view, n) counted) (k n) Q"
  shows "sound_triple p h counted (bindP (count_view p q view) k) Q"
  unfolding count_view_def
proof (rule triple_bind [OF count_request_sound])
  fix n
  show "triple (sound p h counted) (sound p h (insert (view_request q view, n) counted)) (k n) Q"
    using assms [of n] unfolding triple_def
    by (fastforce split: sum.splits elim: sound_mono [OF _ subset_insertI])
qed

lemma sound_count_any:
  assumes "\<And>n counted. sound_triple p h counted (k n) (\<lambda>_. sound p h counted)"
  shows "sound_triple p h counted (bindP (count_view p q view) k) (\<lambda>_. sound p h counted)"
  by (intro sound_count triple_post [OF assms]) (auto elim: sound_mono)

lemma suffix_search_sound:
  "sound_triple p h counted (suffix_search p q parts turns low high) (\<lambda>_. sound p h counted)"
proof (induction p q parts turns low high arbitrary: counted rule: suffix_search.induct)
  case (1 p q parts turns low high)
  show ?case
    unfolding suffix_search.simps [of p q parts turns low high]
    by (intro triple_if sound_count_any 1) (auto intro: triple_ret)
qed

lemma allowed_suffix: "\<exists>k. allowed_turns p parts = drop k (cp_history_turns parts)"
  by (auto simp: allowed_turns_def last_turns_def split: option.split intro: exI [of _ 0] exI [of _ "length (cp_history_turns parts)"])

lemma select_turns_sound:
  assumes original: "(mq_model_request q, original) \<in> counted"
  shows "sound_triple p h counted (select_turns p q parts original) (\<lambda>(selected, n) s.
    sound p h (insert (view_request q (compose_view parts selected None), n) counted) s \<and>
    (\<exists>k. selected = drop k (cp_history_turns parts)))"
proof -
  let ?view = "compose_view parts (allowed_turns p parts) None"
  have first: "sound_triple p h counted
      (bindP (if ?view = cq_messages (mq_model_request q) then ret original else count_view p q ?view) k) Q"
    if k: "\<And>n. sound_triple p h (insert (view_request q ?view, n) counted) (k n) Q" for k Q
  proof (cases "?view = cq_messages (mq_model_request q)")
    case True
    have "insert (view_request q ?view, original) counted = counted" using original True by (auto simp: insert_absorb)
    then show ?thesis using k [of original] True by simp
  qed (simp add: sound_count k)
  show ?thesis
    unfolding select_turns_def Let_def using allowed_suffix [of p parts]
    by (intro first triple_if triple_bind [OF suffix_search_sound] sound_count triple_ret) (auto elim: sound_mono)
qed

text \<open>The digests tell apart the prefixes of the turns, and every list the stored summaries are about.\<close>

definition collision_free :: "'w token_policy \<Rightarrow> chat_message list list \<Rightarrow> chat_message list set option \<Rightarrow> bool" where
  "collision_free p turns h \<longleftrightarrow> (\<forall>known_lists. h = Some known_lists \<longrightarrow>
     inj_on (tp_digest p) known_lists \<and> (\<forall>n k. take n (concat (take k turns)) \<in> known_lists))"

lemma collision_freeD:
  assumes "collision_free p turns (Some known_lists)"
  shows "inj_on (tp_digest p) known_lists" "take n (concat turns) \<in> known_lists" "concat turns \<in> known_lists"
proof -
  have all: "take n (concat (take k turns)) \<in> known_lists" for n k using assms by (simp add: collision_free_def)
  show "take n (concat turns) \<in> known_lists" by (metis all order_refl take_all)
  show "concat turns \<in> known_lists" by (metis all order_refl take_all)
  show "inj_on (tp_digest p) known_lists" using assms by (simp add: collision_free_def)
qed

lemma collision_free_take: "collision_free p turns h \<Longrightarrow> collision_free p (take k turns) h"
  by (auto simp: collision_free_def)

lemma summarize_turns_sound:
  assumes injective: "collision_free p turns h"
  shows "sound_triple p h counted (summarize_turns p q turns) (\<lambda>(m, u, hit) s. sound p h counted s \<and>
    (\<exists>text1. m = summary_message text1 \<and> (h \<noteq> None \<longrightarrow> summarizes p (concat turns) text1)))"
proof (cases "tp_summarize p")
  case None
  then show ?thesis by (auto simp: summarize_turns_def intro!: triple_raise elim: sound_mono)
next
  case (Some f)
  let ?ms = "concat turns"
  let ?stored = "\<lambda>s. if tp_has_store p then dget (pr_snapshots s) (mq_session_id q) else None"
  have reused: "summarizes p (take (sp_covered_message_count old) ?ms) (sp_summary old)"
    if some: "h \<noteq> None" and state: "sound p h counted s" "reusable_snapshot p ?ms (?stored s) = Some old" for s old
  proof -
    obtain known_lists where h: "h = Some known_lists" using some by blast
    have old: "old \<in> snd ` set (pr_snapshots s)" "sp_policy_fingerprint old = tp_fingerprint p"
        "tp_digest p (take (sp_covered_message_count old) ?ms) = sp_covered_prefix_digest old"
      using state(2) by (auto simp: reusable_snapshot_def image_iff split: option.splits if_splits dest!: map_of_SomeD) force+
    then obtain ms where "sp_covered_prefix_digest old = tp_digest p ms" "summarizes p ms (sp_summary old)" "ms \<in> known_lists"
      using h state(1) by (auto simp: sound_def summaries_ok_def)
    moreover from this have "ms = take (sp_covered_message_count old) ?ms"
      using old(3) collision_freeD [of p turns known_lists] injective h by (auto dest: inj_onD)
    ultimately show ?thesis by simp
  qed
  show ?thesis
    unfolding summarize_turns_def Let_def Some option.case
  proof (rule triple_read)
    fix snapshot
    let ?reused = "reusable_snapshot p ?ms snapshot"
    let ?new = "case ?reused of None \<Rightarrow> ?ms | Some old \<Rightarrow> drop (sp_covered_message_count old) ?ms"
    let ?P = "\<lambda>s. sound p h counted s \<and> ?stored s = snapshot"
    have whole: "summarizes p ?ms text1"
      if "h \<noteq> None" "?P s" "f g ?new (map_option sp_summary ?reused) w = (Inr r, w')" "text1 = sm_summary r" for s g w r w' text1
    proof (cases ?reused)
      case None
      then show ?thesis using that Some by (auto intro: summarizes.fresh)
    next
      case old: (Some old)
      then have "summarizes p (take (sp_covered_message_count old) ?ms @ ?new) (sm_summary r)"
        using reused [OF that(1), of s old] that by (intro summarizes.continued [OF _ Some, where g = g and w = w and w' = w']) auto
      then show ?thesis using old that(4) by simp
    qed
    show "triple (sound p h counted) ?P
       (if ?reused \<noteq> None \<and> ?new = [] then ret (summary_message (sp_summary (the ?reused)), no_usage, True)
        else bindP (with_world (f (mq_has_gateway q) ?new (map_option sp_summary ?reused))) (\<lambda>result.
         bindP (if tp_has_store p
           then bindP (ofR (MemorySnapshot \<lparr>sp_summary = sm_summary result, sp_covered_message_count = length ?ms,
               sp_covered_prefix_digest = tp_digest p ?ms, sp_policy_fingerprint = tp_fingerprint p\<rparr>)) (\<lambda>snapshot.
             modifyP (\<lambda>s. s\<lparr>pr_snapshots := dset (mq_session_id q) snapshot (pr_snapshots s)\<rparr>))
           else ret ()) (\<lambda>_. ret (summary_message (sm_summary result), sm_usage result, False))))
       (\<lambda>(m, u, hit) s. sound p h counted s \<and> (\<exists>text1. m = summary_message text1 \<and> (h \<noteq> None \<longrightarrow> summarizes p ?ms text1)))"
    proof (rule triple_if, goal_cases)
      case 1
      then obtain old where old: "?reused = Some old" "length ?ms \<le> sp_covered_message_count old" by auto
      have "h \<noteq> None \<longrightarrow> summarizes p ?ms (sp_summary old)" if "?P s" for s
        using reused [of s old] that old by auto
      then show ?case using old by (intro triple_ret) auto
    next
      case 2
      show ?case
      proof (rule triple_bind [where R = "\<lambda>r s. sound p h counted s \<and> (h \<noteq> None \<longrightarrow> summarizes p ?ms (sm_summary r))"])
        show "triple (sound p h counted) ?P (with_world (f (mq_has_gateway q) ?new (map_option sp_summary ?reused)))
            (\<lambda>r s. sound p h counted s \<and> (h \<noteq> None \<longrightarrow> summarizes p ?ms (sm_summary r)))"
        proof (rule tripleI)
          fix s out s'
          assume s: "?P s" and run: "with_world (f (mq_has_gateway q) ?new (map_option sp_summary ?reused)) s = (out, s')"
          obtain w where w: "f (mq_has_gateway q) ?new (map_option sp_summary ?reused) (pr_world s) = (out, w)" "s' = s\<lparr>pr_world := w\<rparr>"
            using run by (auto simp: with_world_def split: prod.splits)
          show "case out of Inl e \<Rightarrow> sound p h counted s' | Inr r \<Rightarrow> sound p h counted s' \<and> (h \<noteq> None \<longrightarrow> summarizes p ?ms (sm_summary r))"
            using whole [OF _ s, of "mq_has_gateway q" "pr_world s"] s w by (auto simp: sound_def split: sum.split)
        qed
        show "triple (sound p h counted) (\<lambda>s. sound p h counted s \<and> (h \<noteq> None \<longrightarrow> summarizes p ?ms (sm_summary r)))
          (bindP (if tp_has_store p
             then bindP (ofR (MemorySnapshot \<lparr>sp_summary = sm_summary r, sp_covered_message_count = length ?ms,
                 sp_covered_prefix_digest = tp_digest p ?ms, sp_policy_fingerprint = tp_fingerprint p\<rparr>)) (\<lambda>snapshot.
               modifyP (\<lambda>s. s\<lparr>pr_snapshots := dset (mq_session_id q) snapshot (pr_snapshots s)\<rparr>))
             else ret ()) (\<lambda>_. ret (summary_message (sm_summary r), sm_usage r, False)))
          (\<lambda>(m, u, hit) s. sound p h counted s \<and> (\<exists>text1. m = summary_message text1 \<and> (h \<noteq> None \<longrightarrow> summarizes p ?ms text1)))" for r
        proof (rule tripleI)
          let ?new_snapshot = "\<lparr>sp_summary = sm_summary r, sp_covered_message_count = length ?ms,
            sp_covered_prefix_digest = tp_digest p ?ms, sp_policy_fingerprint = tp_fingerprint p\<rparr>"
          fix s out s'
          assume s: "sound p h counted s \<and> (h \<noteq> None \<longrightarrow> summarizes p ?ms (sm_summary r))"
            and run: "bindP (if tp_has_store p
             then bindP (ofR (MemorySnapshot ?new_snapshot)) (\<lambda>snapshot.
               modifyP (\<lambda>s. s\<lparr>pr_snapshots := dset (mq_session_id q) snapshot (pr_snapshots s)\<rparr>))
             else ret ()) (\<lambda>_. ret (summary_message (sm_summary r), sm_usage r, False)) s = (out, s')"
          have "summaries_ok p known_lists (dset (mq_session_id q) ?new_snapshot (pr_snapshots s))" if "h = Some known_lists" for known_lists
            using s that collision_freeD(3) [OF injective [unfolded that]]
            by (intro summaries_ok_set [where ms = ?ms]) (auto simp: sound_def)
          then have kept: "sound p h counted (s\<lparr>pr_snapshots := dset (mq_session_id q) ?new_snapshot (pr_snapshots s)\<rparr>)"
            using s by (simp add: sound_def)
          have "MemorySnapshot ?new_snapshot = Inr x \<Longrightarrow> x = ?new_snapshot" for x by (auto simp: MemorySnapshot_def bindR_Inr_iff)
          then show "case out of Inl e \<Rightarrow> sound p h counted s' | Inr x \<Rightarrow> (case x of (m, u, hit) \<Rightarrow>
              \<lambda>s. sound p h counted s \<and> (\<exists>text1. m = summary_message text1 \<and> (h \<noteq> None \<longrightarrow> summarizes p ?ms text1))) s'"
            using run s kept by (cases "MemorySnapshot ?new_snapshot") (auto simp: bindP_run ret_def ofR_def modifyP_def split: if_splits)
        qed
      qed
    qed
  qed
qed

text \<open>What a summary that fits gives: a summary of the turns before the ones it is put in front of.\<close>

definition fitted_ok :: "'w token_policy \<Rightarrow> memory_request \<Rightarrow> conversation_parts \<Rightarrow> chat_message list set option \<Rightarrow> chat_message list list \<Rightarrow>
    (chat_message \<times> chat_message list list \<times> int) option \<Rightarrow> 'w preparation \<Rightarrow> bool" where
  "fitted_ok p q parts h selected fitted s \<longleftrightarrow> (case fitted of None \<Rightarrow> True | Some (m, ts, n) \<Rightarrow>
     (\<exists>k. ts = drop k selected) \<and> n \<le> limit_of p \<and>
     dget (pr_counts s) (view_request q (compose_view parts ts (Some m))) = Some n \<and>
     (\<exists>text1. m = summary_message text1 \<and>
       (h \<noteq> None \<longrightarrow> summarizes p (concat (take (length (cp_history_turns parts) - length ts) (cp_history_turns parts))) text1)))"

lemma fit_summary_sound:
  assumes injective: "collision_free p (cp_history_turns parts) h"
    and "k + length selected = length (cp_history_turns parts)"
    and "\<exists>text1. summary = summary_message text1 \<and> (h \<noteq> None \<longrightarrow> summarizes p (concat (take k (cp_history_turns parts))) text1)"
    and "(view_request q (compose_view parts selected (Some summary)), tokens) \<in> counted"
  shows "sound_triple p h counted (fit_summary p q parts k selected summary tokens)
    (\<lambda>fitted s. sound p h counted s \<and> fitted_ok p q parts h selected fitted s)"
  using assms(2-)
proof (induction selected arbitrary: k summary tokens counted)
  case Nil
  then show ?case by (auto intro!: triple_ret simp: fitted_ok_def sound_def)
next
  case (Cons t ts)
  have k: "length (cp_history_turns parts) - Suc (length ts) = k" using Cons.prems(1) by simp
  have fits: "fitted_ok p q parts h (t # ts) (Some (summary, t # ts, tokens)) s"
    if "sound p h counted s" "tokens \<le> limit_of p" for s
    using that Cons.prems(2,3) by (auto simp: fitted_ok_def sound_def k intro: exI [of _ 0])
  have smaller: "fitted_ok p q parts h ts fitted s \<Longrightarrow> fitted_ok p q parts h (t # ts) fitted s" for fitted s
    by (auto simp: fitted_ok_def split: option.splits) (metis drop_Suc_Cons)+
  have "sound_triple p h counted (bindP (summarize_turns p q (take (Suc k) (cp_history_turns parts))) (\<lambda>(summary, extra, hit).
        bindP (modifyP (\<lambda>s. s\<lparr>pr_usage := plus_usage (pr_usage s) extra, pr_cache_hit := hit\<rparr>)) (\<lambda>_.
        bindP (count_view p q (compose_view parts ts (Some summary))) (\<lambda>tokens.
        fit_summary p q parts (Suc k) ts summary tokens))))
      (\<lambda>fitted s. sound p h counted s \<and> fitted_ok p q parts h (t # ts) fitted s)"
  proof (rule triple_bind [OF summarize_turns_sound [OF collision_free_take [OF injective]]], clarify)
    fix summary extra hit
    let ?made = "\<exists>text1. summary = summary_message text1 \<and> (h \<noteq> None \<longrightarrow> summarizes p (concat (take (Suc k) (cp_history_turns parts))) text1)"
    show "triple (sound p h counted) (\<lambda>s. sound p h counted s \<and> ?made)
      (bindP (modifyP (\<lambda>s. s\<lparr>pr_usage := plus_usage (pr_usage s) extra, pr_cache_hit := hit\<rparr>)) (\<lambda>_.
        bindP (count_view p q (compose_view parts ts (Some summary))) (\<lambda>tokens.
        fit_summary p q parts (Suc k) ts summary tokens)))
      (\<lambda>fitted s. sound p h counted s \<and> fitted_ok p q parts h (t # ts) fitted s)"
    proof (rule triple_assume [where C = ?made], blast, rule triple_bind [where R = "\<lambda>_. sound p h counted"])
      assume made: ?made
      show "sound_triple p h counted (bindP (count_view p q (compose_view parts ts (Some summary))) (\<lambda>tokens.
          fit_summary p q parts (Suc k) ts summary tokens))
        (\<lambda>fitted s. sound p h counted s \<and> fitted_ok p q parts h (t # ts) fitted s)" for u :: unit
        by (rule sound_count, rule triple_post, rule Cons.IH)
          (use Cons.prems(1) made smaller in \<open>auto elim: sound_mono\<close>)
    qed (auto intro!: tripleI simp: modifyP_def sound_def)
  qed
  then show ?case by (auto intro!: triple_if triple_ret simp: fits)
qed

lemma try_summary_sound:
  assumes injective: "collision_free p (cp_history_turns parts) h" and selected: "selected = drop j (cp_history_turns parts)"
  shows "sound_triple p h counted (try_summary p q parts selected)
    (\<lambda>fitted s. sound p h counted s \<and> fitted_ok p q parts h selected fitted s)"
  unfolding try_summary_def Let_def
proof (rule triple_bind [OF summarize_turns_sound [OF collision_free_take [OF injective]]], clarify)
  let ?k = "length (cp_history_turns parts) - length selected"
  fix summary used hit
  let ?made = "\<exists>text1. summary = summary_message text1 \<and> (h \<noteq> None \<longrightarrow> summarizes p (concat (take ?k (cp_history_turns parts))) text1)"
  show "triple (sound p h counted) (\<lambda>s. sound p h counted s \<and> ?made)
    (bindP (modifyP (\<lambda>s. s\<lparr>pr_usage := used, pr_cache_hit := hit\<rparr>)) (\<lambda>_.
      bindP (count_view p q (compose_view parts selected (Some summary))) (fit_summary p q parts ?k selected summary)))
    (\<lambda>fitted s. sound p h counted s \<and> fitted_ok p q parts h selected fitted s)"
  proof (rule triple_assume [where C = ?made], blast, rule triple_bind [where R = "\<lambda>_. sound p h counted"])
    assume made: ?made
    have "?k + length selected = length (cp_history_turns parts)" by (simp add: selected)
    then show "sound_triple p h counted
        (bindP (count_view p q (compose_view parts selected (Some summary))) (fit_summary p q parts ?k selected summary))
      (\<lambda>fitted s. sound p h counted s \<and> fitted_ok p q parts h selected fitted s)" for u :: unit
      using made by (intro sound_count triple_post [OF fit_summary_sound [OF injective]]) (auto elim: sound_mono)
  qed (auto intro!: tripleI simp: modifyP_def sound_def)
qed

lemma optional_summary_sound:
  assumes injective: "collision_free p (cp_history_turns parts) h" and selected: "selected = drop j (cp_history_turns parts)"
  shows "sound_triple p h counted (optional_summary p q parts selected)
    (\<lambda>(fitted, error) s. sound p h counted s \<and> fitted_ok p q parts h selected fitted s)"
proof (rule tripleI)
  fix s out s'
  assume s: "sound p h counted s" and run: "optional_summary p q parts selected s = (out, s')"
  obtain o1 s1 where tried: "try_summary p q parts selected s = (o1, s1)" by fastforce
  show "case out of Inl e \<Rightarrow> sound p h counted s' | Inr x \<Rightarrow>
      (case x of (fitted, error) \<Rightarrow> \<lambda>s. sound p h counted s \<and> fitted_ok p q parts h selected fitted s) s'"
    using tripleD [OF try_summary_sound [OF assms, of counted q] s tried] run tried s
    by (cases o1)
      (auto simp: optional_summary_def catchP_def bindP_run ret_def raise_def fitted_ok_def split: if_splits)
qed

subsection \<open>Preparations\<close>

text \<open>What a prepared view is: \<open>k\<close> turns are left out, and a summary may stand for them.\<close>

definition prepared :: "'w token_policy \<Rightarrow> memory_request \<Rightarrow> conversation_parts \<Rightarrow> chat_message list set option \<Rightarrow> nat \<Rightarrow>
    string option \<Rightarrow> memory_result \<Rightarrow> 'w preparation \<Rightarrow> bool" where
  "prepared p q parts h k text1 r s \<longleftrightarrow>
     mo_messages r = compose_view parts (drop k (cp_history_turns parts)) (map_option summary_message text1) \<and>
     mo_selected_tokens r \<le> limit_of p \<and>
     dget (pr_counts s) (view_request q (mo_messages r)) = Some (mo_selected_tokens r) \<and>
     mo_summarized_messages r = (if text1 = None then 0 else int (length (concat (take k (cp_history_turns parts))))) \<and>
     mo_summarized_messages r + mo_dropped_messages r =
       int (cp_invalid_messages parts + length (concat (take k (cp_history_turns parts)))) \<and>
     (\<forall>t. text1 = Some t \<longrightarrow> h \<noteq> None \<longrightarrow> summarizes p (concat (take k (cp_history_turns parts))) t)"

lemma raise_overflow_sound: "sound_triple p h counted (raise_overflow p q ms required) Q"
  unfolding raise_overflow_def Let_def
  by (rule triple_bind [OF count_request_sound], rule triple_raised,
      rule triple_bind [OF count_request_sound], rule triple_raise) (auto elim: sound_mono)

lemma result_prepared:
  assumes selected: "selected = drop k (cp_history_turns parts)"
    and summary: "\<forall>t. made = Some t \<longrightarrow> h \<noteq> None \<longrightarrow>
      summarizes p (concat (take (length (cp_history_turns parts) - length selected) (cp_history_turns parts))) t"
    and counted: "dget (pr_counts s) (view_request q (compose_view parts selected (map_option summary_message made))) = Some tokens"
      "tokens \<le> limit_of p"
    and result: "view_result p q parts original (map_option summary_message made) selected tokens error used_hit = Inr r"
  shows "\<exists>k. prepared p q parts h k made r s"
proof -
  let ?turns = "cp_history_turns parts"
  let ?k = "min k (length ?turns)"
  have k: "selected = drop ?k ?turns" "length ?turns - length selected = ?k" using selected by (auto simp: min_def)
  have "concat ?turns = concat (take ?k ?turns) @ concat selected"
    by (metis append_take_drop_id concat_append k(1))
  then have "length (concat ?turns) = length (concat (take ?k ?turns)) + length (concat selected)" by simp
  moreover have "mo_messages r = compose_view parts selected (map_option summary_message made)" "mo_selected_tokens r = tokens"
    "mo_summarized_messages r = int (if made = None then 0 else length (concat (take ?k ?turns)))"
    "mo_dropped_messages r = int (length (concat ?turns)) - int (length (concat selected)) - mo_summarized_messages r +
       int (cp_invalid_messages parts)"
    using result k(2) by (auto simp: view_result_def Let_def MemoryResult_def bindR_Inr_iff)
  ultimately have "prepared p q parts h ?k made r s"
    using summary counted k unfolding prepared_def by simp
  then show ?thesis by blast
qed

lemma finish_view_sound:
  assumes injective: "collision_free p (cp_history_turns parts) h" and selected: "selected = drop k (cp_history_turns parts)"
    and counted: "(view_request q (compose_view parts selected None), tokens) \<in> counted"
  shows "sound_triple p h counted (finish_view p q parts original selected tokens)
    (\<lambda>r s. sound p h {} s \<and> (\<exists>k text1. prepared p q parts h k text1 r s))"
  unfolding finish_view_def
proof (intro triple_if raise_overflow_sound)
  assume fits: "\<not> limit_of p < tokens"
  show "sound_triple p h counted (bindP (optional_summary p q parts selected) (\<lambda>(fitted, summary_error).
        bindP (readP (\<lambda>s. (pr_usage s, pr_cache_hit s))) (\<lambda>used_hit.
        ofR (case fitted of
            None \<Rightarrow> view_result p q parts original None selected tokens summary_error used_hit
          | Some (m, ts, n) \<Rightarrow> view_result p q parts original (Some m) ts n summary_error used_hit))))
      (\<lambda>r s. sound p h {} s \<and> (\<exists>k text1. prepared p q parts h k text1 r s))"
  proof (rule triple_bind [OF optional_summary_sound [OF injective selected]], clarify, rule triple_read_any, rule tripleI)
    fix fitted error used_hit s out s'
    assume s: "sound p h counted s \<and> fitted_ok p q parts h selected fitted s"
      and run: "ofR (case fitted of
            None \<Rightarrow> view_result p q parts original None selected tokens error used_hit
          | Some (m, ts, n) \<Rightarrow> view_result p q parts original (Some m) ts n error used_hit) s = (out, s')"
    have "\<exists>k text1. prepared p q parts h k text1 r s" if "out = Inr r" for r
    proof (cases fitted)
      case None
      have "dget (pr_counts s) (view_request q (compose_view parts selected (map_option summary_message None))) = Some tokens"
        using s counted by (auto simp: sound_def)
      moreover have "view_result p q parts original (map_option summary_message None) selected tokens error used_hit = Inr r"
        using run that None by (simp add: ofR_def)
      ultimately have "\<exists>k. prepared p q parts h k None r s"
        by (intro result_prepared [OF selected, where made = None]) (use fits in auto)
      then show ?thesis by blast
    next
      case (Some x)
      then obtain m ts n where x: "fitted = Some (m, ts, n)" by (cases x) auto
      then obtain j text1 where m: "ts = drop j selected" "n \<le> limit_of p" "m = summary_message text1"
          "dget (pr_counts s) (view_request q (compose_view parts ts (Some m))) = Some n"
          "h \<noteq> None \<longrightarrow> summarizes p (concat (take (length (cp_history_turns parts) - length ts) (cp_history_turns parts))) text1"
        using s by (auto simp: fitted_ok_def)
      have "view_result p q parts original (Some m) ts n error used_hit = Inr r" using run that x by (simp add: ofR_def)
      then show ?thesis
        using result_prepared [of ts "j + k" parts "Some text1" h p s q n original error used_hit r] m selected by auto
    qed
    then show "case out of Inl e \<Rightarrow> sound p h counted s'
        | Inr r \<Rightarrow> sound p h {} s' \<and> (\<exists>k text1. prepared p q parts h k text1 r s')"
      using s run by (auto simp: ofR_def split: sum.split elim: sound_mono)
  qed
qed

lemma token_prepare_sound:
  assumes injective: "\<And>parts. conversation_parts_of q = Inr parts \<Longrightarrow> collision_free p (cp_history_turns parts) h"
  shows "triple (sound p h {}) (sound p h {}) (token_prepare p q) (\<lambda>r s. sound p h {} s \<and>
    (\<exists>parts k text1. conversation_parts_of q = Inr parts \<and> prepared p q parts h k text1 r s))"
  unfolding token_prepare_def
proof (rule triple_bind [where R = "\<lambda>_. sound p h {}"])
  show "sound_triple p h {} (modifyP (\<lambda>s. s\<lparr>pr_counts := [], pr_usage := no_usage, pr_cache_hit := False\<rparr>)) (\<lambda>_. sound p h {})"
    by (rule tripleI) (auto simp: modifyP_def sound_def)
  note weaken = sound_mono [OF _ empty_subsetI]
  have finish: "triple (sound p h {}) (sound p h (insert (view_request q (compose_view parts selected None), tokens) counted))
      (finish_view p q parts original selected tokens)
      (\<lambda>r s. sound p h {} s \<and> (\<exists>parts k text1. conversation_parts_of q = Inr parts \<and> prepared p q parts h k text1 r s))"
    if "selected = drop k (cp_history_turns parts)" and parts: "conversation_parts_of q = Inr parts"
    for selected tokens counted original k parts
    by (rule triple_post [OF triple_raised [OF finish_view_sound [OF injective [OF parts] that(1), of q tokens] weaken]])
      (use parts in auto)
  have counted: "sound_triple p h {} (bindP (count_request p (mq_model_request q)) (\<lambda>original.
      bindP (select_turns p q parts original) (\<lambda>(selected, tokens). finish_view p q parts original selected tokens)))
    (\<lambda>r s. sound p h {} s \<and> (\<exists>parts k text1. conversation_parts_of q = Inr parts \<and> prepared p q parts h k text1 r s))"
    if parts: "conversation_parts_of q = Inr parts" for parts
  proof (rule triple_bind [OF count_request_sound], rule triple_bind [OF triple_raised [OF select_turns_sound [OF insertI1] weaken]],
      assumption, clarify)
    fix original selected and tokens :: int
    let ?F = "insert (view_request q (compose_view parts selected None), tokens) {(mq_model_request q, original)}"
    show "triple (sound p h {}) (\<lambda>s. sound p h ?F s \<and> (\<exists>k. selected = drop k (cp_history_turns parts)))
      (finish_view p q parts original selected tokens)
      (\<lambda>r s. sound p h {} s \<and> (\<exists>parts k text1. conversation_parts_of q = Inr parts \<and> prepared p q parts h k text1 r s))"
    proof (rule triple_assume [where C = "\<exists>k. selected = drop k (cp_history_turns parts)"], blast, elim exE)
      fix k assume "selected = drop k (cp_history_turns parts)"
      then show ?thesis by (rule triple_pre [OF finish [OF _ parts]]) blast
    qed
  qed
  show "sound_triple p h {} (bindP (ofR (conversation_parts_of q)) (\<lambda>parts. bindP (count_request p (mq_model_request q)) (\<lambda>original.
      bindP (select_turns p q parts original) (\<lambda>(selected, tokens). finish_view p q parts original selected tokens))))
    (\<lambda>r s. sound p h {} s \<and> (\<exists>parts k text1. conversation_parts_of q = Inr parts \<and> prepared p q parts h k text1 r s))" for u :: unit
    by (rule triple_ofR, assumption, rule counted)
qed

lemma token_prepare_run:
  assumes "token_prepare p q s = (Inr r, s')"
  shows "\<exists>parts k text1. conversation_parts_of q = Inr parts \<and> prepared p q parts None k text1 r s'"
  using tripleD [OF token_prepare_sound [where h = None], of q p s "Inr r" s'] assms
  by (auto simp: collision_free_def sound_def)

text \<open>
  C24.  A view that the token policy prepares keeps what it must and breaks nothing: all the system messages that the request
  starts with before its protected ones, and all its protected messages, are there, in front and at the end; between them come complete turns,
  the last ones of the conversation without a gap, and at most one summary before them; in the whole view every
  Tool result has its call and every call its results; and the messages that are left out are counted, each as
  summarized or as dropped.
\<close>

theorem prepared_view_sound:
  assumes "token_prepare p q s = (Inr r, s')"
    and "system = takeWhile (\<lambda>m. ms_role m = MR_system) (take (nat (mq_protected_from q)) (cq_messages (mq_model_request q)))"
  shows "\<exists>gone kept note. cq_messages (mq_model_request q) =
      system @ gone @ kept @ drop (nat (mq_protected_from q)) (cq_messages (mq_model_request q)) \<and>
    mo_messages r = system @ note @ kept @ drop (nat (mq_protected_from q)) (cq_messages (mq_model_request q)) \<and>
    (note = [] \<or> (\<exists>text1. note = [summary_message text1])) \<and> (kept \<noteq> [] \<longrightarrow> ms_role (hd kept) = MR_user) \<and>
    tool_integrity_error (mo_messages r) 0 = None \<and>
    mo_summarized_messages r + mo_dropped_messages r = int (length gone) \<and> (note = [] \<longrightarrow> mo_summarized_messages r = 0)"
proof -
  obtain parts k text1 where parts: "conversation_parts_of q = Inr parts" and prepared: "prepared p q parts None k text1 r s'"
    using token_prepare_run [OF assms(1)] by blast
  let ?turns = "cp_history_turns parts" and ?note = "case text1 of None \<Rightarrow> [] | Some t \<Rightarrow> [summary_message t]"
  obtain gone where gone: "cq_messages (mq_model_request q) = cp_system parts @ gone @ concat ?turns @ cp_protected parts"
      "length gone = cp_invalid_messages parts" "cp_protected parts = drop (nat (mq_protected_from q)) (cq_messages (mq_model_request q))"
      "cp_system parts = system" "\<forall>t \<in> set ?turns. intact t \<and> starts_with_user t"
    using conversation_parts_spec [OF parts] unfolding assms(2) by blast
  have view: "mo_messages r = cp_system parts @ ?note @ concat (drop k ?turns) @ cp_protected parts"
    using prepared by (auto simp: prepared_def compose_view_def split: option.split)
  have "concat ?turns = concat (take k ?turns) @ concat (drop k ?turns)" by (metis append_take_drop_id concat_append)
  then have "cq_messages (mq_model_request q) = cp_system parts @ (gone @ concat (take k ?turns)) @ concat (drop k ?turns) @ cp_protected parts"
    using gone(1) by simp
  moreover have "ms_role (hd (concat (drop k ?turns))) = MR_user" if "concat (drop k ?turns) \<noteq> []"
  proof (cases "drop k ?turns")
    case (Cons t ts)
    then have "t \<in> set ?turns" by (metis in_set_dropD list.set_intros(1))
    then show ?thesis using gone(5) Cons by (auto simp: starts_with_user_def)
  qed (use that in simp)
  moreover have "tool_integrity_error (mo_messages r) 0 = None"
    using composed_view_intact [OF parts set_drop_subset, of "map_option summary_message text1" k] prepared
    by (cases text1) (auto simp: prepared_def intact_def)
  moreover have "mo_summarized_messages r + mo_dropped_messages r = int (length (gone @ concat (take k ?turns)))"
    "?note = [] \<longrightarrow> mo_summarized_messages r = 0"
    using prepared gone(2) by (auto simp: prepared_def split: option.splits)
  moreover have "?note = [] \<or> (\<exists>t. ?note = [summary_message t])" by (simp split: option.split)
  ultimately show ?thesis using view gone(3,4) by (metis (no_types, lifting))
qed

text \<open>
  C26.  A view never exceeds the token budget: the policy raises, or the count that the token counter gave for
  exactly the messages of the view is the one it reports and is within the input tokens of the budget, with a
  summary or without.
\<close>

theorem prepared_view_fits:
  assumes "token_prepare p q s = (Inr r, s')"
  shows "mo_selected_tokens r \<le> input_tokens (tp_budget p) \<and>
    dget (pr_counts s') ((mq_model_request q)\<lparr>cq_messages := mo_messages r\<rparr>) = Some (mo_selected_tokens r)"
  using token_prepare_run [OF assms] by (auto simp: prepared_def)

subsection \<open>Summaries over many preparations\<close>

fun prepare_all :: "'w token_policy \<Rightarrow> memory_request list \<Rightarrow> 'w preparation \<Rightarrow> (memory_request \<times> memory_result res) list" where
  "prepare_all p [] s = []"
| "prepare_all p (q # qs) s = (case token_prepare p q s of (out, s') \<Rightarrow> (q, out) # prepare_all p qs s')"

text \<open>The lists of messages whose digests a preparation may compare.\<close>

definition prefixes_of :: "memory_request \<Rightarrow> chat_message list set" where
  "prefixes_of q = (case conversation_parts_of q of Inl e \<Rightarrow> {}
     | Inr parts \<Rightarrow> {take n (concat (take k (cp_history_turns parts))) | n k. True})"

lemma prepare_all_summaries:
  assumes "inj_on (tp_digest p) known_lists" and "\<forall>q \<in> set qs. prefixes_of q \<subseteq> known_lists"
    and "summaries_ok p known_lists (pr_snapshots s)" and "(q, Inr r) \<in> set (prepare_all p qs s)"
  shows "\<exists>parts k text1 s'. conversation_parts_of q = Inr parts \<and> prepared p q parts (Some known_lists) k text1 r s'"
  using assms(2-)
proof (induction qs arbitrary: s)
  case (Cons q1 qs)
  obtain out s1 where run: "token_prepare p q1 s = (out, s1)" by fastforce
  have "collision_free p (cp_history_turns parts) (Some known_lists)" if "conversation_parts_of q1 = Inr parts" for parts
    using assms(1) Cons.prems(1) that by (auto simp: collision_free_def prefixes_of_def)
  then have sound: "case out of Inl e \<Rightarrow> sound p (Some known_lists) {} s1 | Inr r \<Rightarrow> sound p (Some known_lists) {} s1 \<and>
      (\<exists>parts k text1. conversation_parts_of q1 = Inr parts \<and> prepared p q1 parts (Some known_lists) k text1 r s1)"
    by (intro tripleD [OF token_prepare_sound _ run]) (use Cons.prems(2) in \<open>auto simp: sound_def\<close>)
  then have "summaries_ok p known_lists (pr_snapshots s1)" by (auto simp: sound_def split: sum.splits)
  moreover have "(q, Inr r) = (q1, out) \<or> (q, Inr r) \<in> set (prepare_all p qs s1)" using Cons.prems(3) run by auto
  ultimately show ?case
  proof (elim disjE)
    assume "(q, Inr r) = (q1, out)"
    then have "q = q1" "out = Inr r" by auto
    then show ?thesis using sound by simp blast
  qed (use Cons.IH [of s1] Cons.prems(1) in auto)
qed simp

text \<open>
  C25.  A summary stands for exactly the turns it replaces: over any sequence of preparations, of any sessions,
  that share a store of summaries, a summary in a view was made of all the complete turns that come before the
  ones kept, message by message and in order, at once or by continuing a stored summary of a first part of them,
  provided the digests of the prefixes that occur do not collide.
\<close>

theorem summary_stands_for_turns:
  assumes "inj_on (tp_digest p) (\<Union>q \<in> set qs. prefixes_of q)" and "pr_snapshots s = []"
    and "(q, Inr r) \<in> set (prepare_all p qs s)"
  shows "\<exists>parts k. conversation_parts_of q = Inr parts \<and>
    (mo_messages r = compose_view parts (drop k (cp_history_turns parts)) None \<and> mo_summarized_messages r = 0 \<or>
     (\<exists>text1. mo_messages r = compose_view parts (drop k (cp_history_turns parts)) (Some (summary_message text1)) \<and>
       summarizes p (concat (take k (cp_history_turns parts))) text1 \<and>
       mo_summarized_messages r = int (length (concat (take k (cp_history_turns parts))))))"
proof -
  have "summaries_ok p (\<Union>q \<in> set qs. prefixes_of q) (pr_snapshots s)" using assms(2) by (simp add: summaries_ok_def)
  then obtain parts k text1 s' where "conversation_parts_of q = Inr parts"
      "prepared p q parts (Some (\<Union>q \<in> set qs. prefixes_of q)) k text1 r s'"
    using prepare_all_summaries [OF assms(1) _ _ assms(3)] by blast
  then show ?thesis unfolding prepared_def by (cases text1) fastforce+
qed

subsection \<open>Counters that always give the same count\<close>

text \<open>\<open>tokens\<close> gives the count of every request; a count in the memo is one of those.\<close>

definition exact_counter :: "'w token_policy \<Rightarrow> (chat_request \<Rightarrow> int) \<Rightarrow> bool" where
  "exact_counter p tokens \<longleftrightarrow> (\<forall>r w. fst (tp_count p r w) = Inr (tokens r))"

definition exact_memo :: "(chat_request \<Rightarrow> int) \<Rightarrow> 'w preparation \<Rightarrow> bool" where
  "exact_memo tokens s \<longleftrightarrow> (\<forall>r n. dget (pr_counts s) r = Some n \<longrightarrow> n = tokens r)"

abbreviation returns :: "(chat_request \<Rightarrow> int) \<Rightarrow> ('w preparation, 'a) prog \<Rightarrow> 'a \<Rightarrow> bool" where
  "returns tokens m x \<equiv> triple (\<lambda>_. False) (exact_memo tokens) m (\<lambda>y s. exact_memo tokens s \<and> y = x)"

lemma count_request_exact: "exact_counter p tokens \<Longrightarrow> returns tokens (count_request p r) (tokens r)"
  by (rule tripleI)
    (auto simp: count_request_def with_world_def bindP_run modifyP_def ret_def exact_memo_def exact_counter_def dget_dset
      split: option.splits prod.splits sum.splits if_splits dest: spec [of _ r], (metis fst_conv old.sum.exhaust sum.inject sum.distinct)+)

text \<open>The bisection, as a function of what fits.\<close>

function bisect :: "(nat \<Rightarrow> bool) \<Rightarrow> nat \<Rightarrow> nat \<Rightarrow> nat" where
  "bisect fits low high =
     (if low < high then if fits ((low + high) div 2) then bisect fits low ((low + high) div 2)
        else bisect fits ((low + high) div 2 + 1) high
      else low)"
  by pat_completeness auto

termination
  by (relation "measure (\<lambda>(fits, low, high). high - low)") auto

declare bisect.simps [simp del]

lemma bisect_least:
  assumes "\<forall>i j. i \<le> j \<longrightarrow> fits i \<longrightarrow> fits j"
  shows "low \<le> bisect fits low high \<and> (low \<le> high \<longrightarrow> bisect fits low high \<le> high) \<and>
    (bisect fits low high < high \<longrightarrow> fits (bisect fits low high)) \<and> (\<forall>k. low \<le> k \<and> k < bisect fits low high \<longrightarrow> \<not> fits k)"
  using assms
proof (induction fits low high rule: bisect.induct)
  case (1 fits low high)
  let ?m = "(low + high) div 2"
  show ?case
  proof (cases "low < high")
    case True
    then have m: "low \<le> ?m" "?m < high" by auto
    show ?thesis
    proof (cases "fits ?m")
      case fits: True
      let ?b = "bisect fits low ?m"
      have "bisect fits low high = ?b" using True fits by (simp add: bisect.simps [of fits low high])
      moreover have "low \<le> ?b" "?b \<le> ?m" "?b < ?m \<longrightarrow> fits ?b" "\<forall>k. low \<le> k \<and> k < ?b \<longrightarrow> \<not> fits k"
        using 1(1) [OF True fits 1(3)] m(1) by blast+
      moreover from this have "fits ?b" using fits by (cases "?b = ?m") auto
      ultimately show ?thesis using m by auto
    next
      case False
      let ?b = "bisect fits (?m + 1) high"
      have "bisect fits low high = ?b" using True False by (simp add: bisect.simps [of fits low high])
      moreover have "?m + 1 \<le> ?b" "?b \<le> high" "?b < high \<longrightarrow> fits ?b" "\<forall>k. ?m + 1 \<le> k \<and> k < ?b \<longrightarrow> \<not> fits k"
        using 1(2) [OF True False 1(3)] m(2) by auto
      moreover have "\<not> fits k" if "k \<le> ?m" for k using False 1(3) that by blast
      moreover from this have "\<not> fits k" if "k < ?b" for k using calculation(5) that by (cases "k \<le> ?m") auto
      ultimately show ?thesis using m by auto
    qed
  next
    case False
    then have "bisect fits low high = low" by (simp add: bisect.simps [of fits low high])
    then show ?thesis using False by auto
  qed
qed

definition chosen_turns :: "(chat_request \<Rightarrow> int) \<Rightarrow> 'w token_policy \<Rightarrow> memory_request \<Rightarrow> conversation_parts \<Rightarrow> chat_message list list" where
  "chosen_turns tokens p q parts =
     (let allowed = allowed_turns p parts; fits = (\<lambda>ts. tokens (view_request q (compose_view parts ts None)) \<le> limit_of p) in
      if allowed \<noteq> [] \<and> \<not> fits allowed then drop (bisect (\<lambda>k. fits (drop k allowed)) 1 (length allowed)) allowed
      else allowed)"

lemma returns_bind: "returns tokens m x \<Longrightarrow> returns tokens (k x) y \<Longrightarrow> returns tokens (bindP m k) y"
  by (rule triple_bind) (auto simp: triple_def)

lemma returns_ret: "returns tokens (ret x) x"
  by (rule triple_ret) simp

lemma count_view_exact:
  "exact_counter p tokens \<Longrightarrow> returns tokens (count_view p q view) (tokens (view_request q view))"
  unfolding count_view_def by (rule count_request_exact)

lemma suffix_search_exact:
  assumes "exact_counter p tokens"
  shows "returns tokens (suffix_search p q parts turns low high)
    (bisect (\<lambda>k. tokens (view_request q (compose_view parts (drop k turns) None)) \<le> limit_of p) low high)"
  using assms
proof (induction p q parts turns low high rule: suffix_search.induct)
  case (1 p q parts turns low high)
  let ?fits = "\<lambda>k. tokens (view_request q (compose_view parts (drop k turns) None)) \<le> limit_of p"
  show ?case
    unfolding suffix_search.simps [of p q parts turns low high] bisect.simps [of ?fits low high]
    using 1 by (auto intro!: returns_bind [OF count_view_exact] returns_ret)
qed

lemma select_turns_exact:
  assumes exact: "exact_counter p tokens"
  shows "returns tokens (select_turns p q parts (tokens (mq_model_request q)))
    (chosen_turns tokens p q parts, tokens (view_request q (compose_view parts (chosen_turns tokens p q parts) None)))"
proof -
  let ?view = "compose_view parts (allowed_turns p parts) None"
  have first: "returns tokens (if ?view = cq_messages (mq_model_request q) then ret (tokens (mq_model_request q)) else count_view p q ?view)
      (tokens (view_request q ?view))"
    using returns_ret [of tokens "tokens (mq_model_request q)"] count_view_exact [OF exact] by auto
  show ?thesis
    unfolding select_turns_def Let_def
    by (rule returns_bind [OF first])
      (auto simp: chosen_turns_def Let_def not_le intro!: returns_bind [OF suffix_search_exact [OF exact]]
        returns_bind [OF count_view_exact [OF exact]] returns_ret)
qed

lemma token_prepare_exact:
  assumes exact: "exact_counter p tokens" and parts: "conversation_parts_of q = Inr parts"
  shows "\<exists>s1. token_prepare p q s = finish_view p q parts (tokens (mq_model_request q)) (chosen_turns tokens p q parts)
    (tokens (view_request q (compose_view parts (chosen_turns tokens p q parts) None))) s1"
proof -
  let ?s = "s\<lparr>pr_counts := [], pr_usage := no_usage, pr_cache_hit := False\<rparr>"
  have s: "exact_memo tokens ?s" by (simp add: exact_memo_def)
  obtain o2 s2 where first: "count_request p (mq_model_request q) ?s = (o2, s2)" by fastforce
  then have o2: "o2 = Inr (tokens (mq_model_request q))" "exact_memo tokens s2"
    using tripleD [OF count_request_exact [OF exact] s first] by (auto split: sum.splits)
  obtain o3 s3 where second: "select_turns p q parts (tokens (mq_model_request q)) s2 = (o3, s3)" by fastforce
  then have "o3 = Inr (chosen_turns tokens p q parts, tokens (view_request q (compose_view parts (chosen_turns tokens p q parts) None)))"
    using tripleD [OF select_turns_exact [OF exact] o2(2) second] by (auto split: sum.splits)
  then show ?thesis
    using first second o2(1) by (auto simp: token_prepare_def bindP_run modifyP_def ofR_def parts)
qed

lemma view_result_shape:
  assumes "selected = drop k (cp_history_turns parts)"
  shows "view_result p q parts original None selected tokens error used_hit = Inr r \<Longrightarrow>
      0 \<le> original \<and> 0 \<le> tokens \<and> mo_messages r = compose_view parts selected None"
    and "0 \<le> original \<Longrightarrow> 0 \<le> tokens \<Longrightarrow>
      \<exists>r. view_result p q parts original None selected tokens error used_hit = Inr r \<and> mo_messages r = compose_view parts selected None"
proof -
  have "concat (cp_history_turns parts) = concat (take k (cp_history_turns parts)) @ concat selected"
    unfolding assms by (metis append_take_drop_id concat_append)
  then have "length (concat selected) \<le> length (concat (cp_history_turns parts))" by simp
  then show "view_result p q parts original None selected tokens error used_hit = Inr r \<Longrightarrow>
      0 \<le> original \<and> 0 \<le> tokens \<and> mo_messages r = compose_view parts selected None"
    and "0 \<le> original \<Longrightarrow> 0 \<le> tokens \<Longrightarrow>
      \<exists>r. view_result p q parts original None selected tokens error used_hit = Inr r \<and> mo_messages r = compose_view parts selected None"
    by (auto simp: view_result_def Let_def MemoryResult_def bindR_Inr_iff)
qed

lemma chosen_suffix: "\<exists>k. chosen_turns tokens p q parts = drop k (cp_history_turns parts)"
  using allowed_suffix [of p parts] by (auto simp: chosen_turns_def Let_def)

lemma count_request_total: "exact_counter p tokens \<Longrightarrow> \<exists>n s'. count_request p r s = (Inr n, s')"
proof -
  assume "exact_counter p tokens"
  then have "fst (tp_count p r (pr_world s)) = Inr (tokens r)" by (simp add: exact_counter_def)
  then show ?thesis
    by (cases "tp_count p r (pr_world s)")
      (auto simp: count_request_def with_world_def bindP_run modifyP_def ret_def split: option.split)
qed

lemma raise_overflow_run:
  assumes "exact_counter p tokens"
  shows "\<exists>ns s'. raise_overflow p q ms required s = (Inl (DetailedException ''ConversationMemoryOverflowError''
    ''protected conversation input exceeds the token budget'' ns), s')"
proof -
  let ?r = "(mq_model_request q)\<lparr>cq_messages := ms\<rparr>"
  obtain n s1 where "count_request p (?r\<lparr>cq_tools := [], cq_output_schema := None\<rparr>) s = (Inr n, s1)"
    using count_request_total [OF assms] by blast
  moreover obtain n2 s2 where "count_request p (?r\<lparr>cq_output_schema := None\<rparr>) s1 = (Inr n2, s2)" using count_request_total [OF assms] by blast
  ultimately show ?thesis by (simp add: raise_overflow_def Let_def bindP_run raise_def)
qed

lemma finish_overflow:
  assumes "exact_counter p tokens" and "limit_of p < n"
  shows "\<exists>ns s'. finish_view p q parts original selected n s = (Inl (DetailedException ''ConversationMemoryOverflowError''
    ''protected conversation input exceeds the token budget'' ns), s')"
  using assms(2) raise_overflow_run [OF assms(1)] by (simp add: finish_view_def)

text \<open>The reference: the first suffix that fits, from the longest on.\<close>

fun fitting_suffix :: "('a list \<Rightarrow> bool) \<Rightarrow> 'a list \<Rightarrow> 'a list" where
  "fitting_suffix fits [] = []"
| "fitting_suffix fits (t # ts) = (if fits (t # ts) then t # ts else fitting_suffix fits ts)"

lemma fitting_suffix_drop:
  assumes "k \<le> length ts" and "\<forall>j < k. \<not> fits (drop j ts)" and "k < length ts \<longrightarrow> fits (drop k ts)"
  shows "fitting_suffix fits ts = drop k ts"
  using assms
proof (induction ts arbitrary: k)
  case (Cons t ts)
  show ?case
  proof (cases k)
    case (Suc i)
    have "\<forall>j < i. \<not> fits (drop j ts)" using Cons.prems(2) Suc by auto
    moreover have "\<not> fits (t # ts)" using Cons.prems(2) Suc by (auto dest: spec [of _ 0])
    ultimately show ?thesis using Cons.IH [of i] Cons.prems(1,3) Suc by simp
  qed (use Cons.prems in auto)
qed simp

lemma chosen_fitting:
  assumes monotone: "\<forall>k. tokens (view_request q (compose_view parts (drop (Suc k) (cp_history_turns parts)) None)) \<le>
      tokens (view_request q (compose_view parts (drop k (cp_history_turns parts)) None))"
  shows "chosen_turns tokens p q parts =
    fitting_suffix (\<lambda>ts. tokens (view_request q (compose_view parts ts None)) \<le> limit_of p) (allowed_turns p parts)"
proof -
  let ?count = "\<lambda>k. tokens (view_request q (compose_view parts (drop k (cp_history_turns parts)) None))"
  let ?fits = "\<lambda>ts. tokens (view_request q (compose_view parts ts None)) \<le> limit_of p"
  obtain n where n: "allowed_turns p parts = drop n (cp_history_turns parts)" using allowed_suffix by blast
  let ?k = "bisect (\<lambda>k. ?fits (drop k (allowed_turns p parts))) 1 (length (allowed_turns p parts))"
  have "?count j \<le> ?count i" if "i \<le> j" for i j using lift_Suc_antimono_le [of ?count] monotone that by simp
  then have "\<forall>i j. i \<le> j \<longrightarrow> ?fits (drop i (allowed_turns p parts)) \<longrightarrow> ?fits (drop j (allowed_turns p parts))"
    unfolding n drop_drop by (meson add_le_cancel_right order_trans)
  from bisect_least [OF this, of 1 "length (allowed_turns p parts)"]
  have "\<not> ?fits (allowed_turns p parts) \<Longrightarrow> allowed_turns p parts \<noteq> [] \<Longrightarrow>
      ?k \<le> length (allowed_turns p parts) \<and> (\<forall>j < ?k. \<not> ?fits (drop j (allowed_turns p parts))) \<and>
      (?k < length (allowed_turns p parts) \<longrightarrow> ?fits (drop ?k (allowed_turns p parts)))"
    by (metis One_nat_def Suc_leI drop0 length_greater_0_conv not_gr_zero)
  then show ?thesis
    using fitting_suffix_drop [of ?k "allowed_turns p parts" ?fits] fitting_suffix_drop [of 0 "allowed_turns p parts" ?fits]
    by (cases "allowed_turns p parts = []") (auto simp: chosen_turns_def Let_def)
qed

text \<open>
  C27.  Without a summarizer the policy keeps as many recent turns as fit: for a counter that gives every request
  its count, one that does not grow when the oldest turn is left out, the bisection finds what trying
  the suffixes of the allowed turns one after another, longest first, would find; and the policy
  raises the overflow exactly when not even the view without any turn fits.
\<close>

theorem most_recent_turns_kept:
  assumes exact: "exact_counter p tokens" and counts: "\<forall>r. 0 \<le> tokens r" and alone: "tp_summarize p = None"
    and parts: "conversation_parts_of q = Inr parts"
    and monotone: "\<forall>k. tokens ((mq_model_request q)\<lparr>cq_messages := compose_view parts (drop (Suc k) (cp_history_turns parts)) None\<rparr>) \<le>
      tokens ((mq_model_request q)\<lparr>cq_messages := compose_view parts (drop k (cp_history_turns parts)) None\<rparr>)"
  defines "fits \<equiv> \<lambda>ts. tokens ((mq_model_request q)\<lparr>cq_messages := compose_view parts ts None\<rparr>) \<le> input_tokens (tp_budget p)"
  shows "if fits (fitting_suffix fits (allowed_turns p parts))
    then \<exists>r. fst (token_prepare p q s) = Inr r \<and>
      mo_messages r = compose_view parts (fitting_suffix fits (allowed_turns p parts)) None
    else \<exists>ns. fst (token_prepare p q s) = Inl (DetailedException ''ConversationMemoryOverflowError''
      ''protected conversation input exceeds the token budget'' ns)"
proof -
  let ?chosen = "chosen_turns tokens p q parts"
  have chosen: "?chosen = fitting_suffix fits (allowed_turns p parts)"
    using chosen_fitting [OF monotone, of p] by (simp add: fits_def)
  obtain s1 where run: "token_prepare p q s = finish_view p q parts (tokens (mq_model_request q)) ?chosen
      (tokens (view_request q (compose_view parts ?chosen None))) s1"
    using token_prepare_exact [OF exact parts] by blast
  obtain k where k: "?chosen = drop k (cp_history_turns parts)" using chosen_suffix by blast
  show ?thesis
  proof (cases "fits ?chosen")
    case True
    obtain r where "view_result p q parts (tokens (mq_model_request q)) None ?chosen
        (tokens (view_request q (compose_view parts ?chosen None))) None (pr_usage s1, pr_cache_hit s1) = Inr r"
        "mo_messages r = compose_view parts ?chosen None"
      using view_result_shape(2) [OF k, of "tokens (mq_model_request q)" "tokens (view_request q (compose_view parts ?chosen None))"]
        counts by blast
    then show ?thesis
      using True run alone unfolding chosen [symmetric]
      by (simp add: fits_def finish_view_def optional_summary_def ret_def readP_def ofR_def bindP_run not_less)
  next
    case False
    then show ?thesis
      using run finish_overflow [OF exact, of "tokens (view_request q (compose_view parts ?chosen None))" q parts
        "tokens (mq_model_request q)" ?chosen s1] unfolding chosen [symmetric] by (auto simp: fits_def)
  qed
qed

text \<open>
  C29.  An optional summary costs no turn: for a counter that gives every request its count, a view with no
  summary in it, because the summarizer failed or its summaries did not fit, has the messages of the view that
  the policy without a summarizer prepares.
\<close>

theorem failed_summary_costs_nothing:
  assumes exact: "exact_counter p tokens" and run: "token_prepare p q s = (Inr r, s')"
  shows "(\<exists>parts ts text1. mo_messages r = compose_view parts ts (Some (summary_message text1))) \<or>
    (\<exists>r0. fst (token_prepare (p\<lparr>tp_summarize := None, tp_has_store := False\<rparr>) q s0) = Inr r0 \<and> mo_messages r0 = mo_messages r)"
proof -
  let ?p0 = "p\<lparr>tp_summarize := None, tp_has_store := False\<rparr>"
  obtain parts where parts: "conversation_parts_of q = Inr parts" using token_prepare_run [OF run] by blast
  let ?chosen = "chosen_turns tokens p q parts"
  let ?n = "tokens (mq_model_request q)" and ?m = "tokens (view_request q (compose_view parts ?chosen None))"
  have exact0: "exact_counter ?p0 tokens" using exact by (simp add: exact_counter_def)
  have same: "chosen_turns tokens ?p0 q parts = ?chosen" by (simp add: chosen_turns_def allowed_turns_def)
  obtain s1 where s1: "token_prepare p q s = finish_view p q parts ?n ?chosen ?m s1"
    using token_prepare_exact [OF exact parts] by blast
  obtain s2 where s2: "token_prepare ?p0 q s0 = finish_view ?p0 q parts ?n ?chosen ?m s2"
    using token_prepare_exact [OF exact0 parts] unfolding same by blast
  obtain k where k: "?chosen = drop k (cp_history_turns parts)" using chosen_suffix by blast
  have fits: "\<not> limit_of p < ?m" using run finish_overflow [OF exact, of ?m q parts ?n ?chosen s1] s1 by auto
  obtain fitted error s3 where tried: "optional_summary p q parts ?chosen s1 = (Inr (fitted, error), s3)"
    using run s1 fits by (cases "optional_summary p q parts ?chosen s1") (auto simp: finish_view_def bindP_run split: sum.splits)
  have result: "(case fitted of None \<Rightarrow> view_result p q parts ?n None ?chosen ?m error (pr_usage s3, pr_cache_hit s3)
      | Some (m, ts, n) \<Rightarrow> view_result p q parts ?n (Some m) ts n error (pr_usage s3, pr_cache_hit s3)) = Inr r"
    using run s1 fits tried by (auto simp: finish_view_def bindP_run readP_def ofR_def)
  show ?thesis
  proof (cases fitted)
    case None
    then have r: "0 \<le> ?n" "0 \<le> ?m" "mo_messages r = compose_view parts ?chosen None"
      using view_result_shape(1) [OF k, of p q ?n ?m error "(pr_usage s3, pr_cache_hit s3)" r] result by simp_all
    then obtain r0 where "view_result ?p0 q parts ?n None ?chosen ?m None (pr_usage s2, pr_cache_hit s2) = Inr r0"
        "mo_messages r0 = compose_view parts ?chosen None"
      using view_result_shape(2) [OF k] by blast
    then show ?thesis
      using s2 fits r(3) by (auto simp: finish_view_def optional_summary_def ret_def readP_def ofR_def bindP_run)
  next
    case (Some x)
    have "fitted_ok p q parts None ?chosen fitted s3"
      using tripleD [OF optional_summary_sound [where h = None and counted = "{}", OF _ k] _ tried]
      by (auto simp: collision_free_def sound_def)
    then obtain ts n text1 where fitted: "fitted = Some (summary_message text1, ts, n)"
      using Some by (cases x) (auto simp: fitted_ok_def)
    then have "view_result p q parts ?n (Some (summary_message text1)) ts n error (pr_usage s3, pr_cache_hit s3) = Inr r"
      using result by simp
    then have "mo_messages r = compose_view parts ts (Some (summary_message text1))"
      by (auto simp: view_result_def Let_def MemoryResult_def bindR_Inr_iff)
    then show ?thesis by blast
  qed
qed

end
