(* ===== verification/Memory_Summarizer.thy ===== *)
theory Memory_Summarizer
  imports Memory_Policies
begin

text \<open>
  The summarizer over a model (\<^verbatim>\<open>ModelConversationSummarizer\<close> of \<^verbatim>\<open>moduagent/memory/summarizer.py\<close>): the
  serialized messages are folded into one summary, in requests that each fit a number of input tokens; a
  message that does not fit alone is cut into fragments.  The model, the token counter and the JSON encoder are
  parameters.  The lists of the requests sent and of the accepted answers are not in the program; only the theorems
  read them.
\<close>

record summary_reply =
  sy_content :: "string option"
  sy_tool_calls :: "tool_call list"
  sy_finish_reason :: "string option"
  sy_usage :: usage

record 'w summarizer =
  sz_complete :: "bool \<Rightarrow> chat_request \<Rightarrow> 'w \<Rightarrow> summary_reply res \<times> 'w"
  sz_count :: "chat_request \<Rightarrow> 'w \<Rightarrow> int res \<times> 'w"
  sz_max_input_tokens :: int
  sz_max_output_tokens :: int
  sz_instructions :: string
  sz_model_options :: "(string, pyval) dict"
  sz_json :: "pyval \<Rightarrow> string"

definition ModelConversationSummarizer :: "'w summarizer \<Rightarrow> 'w summarizer res" where
  "ModelConversationSummarizer z = bindR (all_ok
     [require (1 \<le> sz_max_input_tokens z) (ValueError ''max_input_tokens must be at least 1''),
      require (1 \<le> sz_max_output_tokens z) (ValueError ''max_output_tokens must be at least 1''),
      require (strip (sz_instructions z) \<noteq> []) (ValueError ''instructions cannot be empty'')]) (\<lambda>_.
     Inr (z\<lparr>sz_model_options := (if dget (sz_model_options z) ''max_tokens'' = None
       then dset ''max_tokens'' (PInt (sz_max_output_tokens z)) (sz_model_options z) else sz_model_options z)\<rparr>))"

record 'w summary_run =
  sq_sent :: "(string option \<times> string list) list"
  sq_answers :: "string list"
  sq_world :: 'w

definition summary_request :: "'w summarizer \<Rightarrow> string option \<Rightarrow> string list \<Rightarrow> chat_request" where
  "summary_request z previous records = \<lparr>cq_messages = [system_message (sz_instructions z),
     user_message (''Summarize the following JSON data. Record fragments may split '' @
       ''one large message; treat them as consecutive source data.'' @ [CHR 0x0A] @
       sz_json z (PDict [(''previous_summary'', case previous of None \<Rightarrow> PNone | Some t \<Rightarrow> PStr t),
         (''conversation_record_fragments'', PList (map PStr records))]))],
     cq_tools = [], cq_output_schema = None, cq_options = sz_model_options z\<rparr>"

definition serve_summary :: "('w \<Rightarrow> 'a res \<times> 'w) \<Rightarrow> ('w summary_run, 'a) prog" where
  "serve_summary f = (\<lambda>s. case f (sq_world s) of (x, w) \<Rightarrow> (x, s\<lparr>sq_world := w\<rparr>))"

definition fits_input :: "'w summarizer \<Rightarrow> string option \<Rightarrow> string list \<Rightarrow> ('w summary_run, bool) prog" where
  "fits_input z previous records = bindP (serve_summary (sz_count z (summary_request z previous records))) (\<lambda>count.
     if count < 0 then raise (ValueError ''token counter returned a negative count'')
     else ret (count \<le> sz_max_input_tokens z))"

text \<open>As many whole records as fit after those of the batch.\<close>

fun collect_batch :: "'w summarizer \<Rightarrow> string option \<Rightarrow> string list \<Rightarrow> string list \<Rightarrow> ('w summary_run, string list) prog" where
  "collect_batch z previous batch [] = ret batch"
| "collect_batch z previous batch (record1 # records) = bindP (fits_input z previous (batch @ [record1])) (\<lambda>fits.
     if fits then collect_batch z previous (batch @ [record1]) records else ret batch)"

function largest_prefix :: "'w summarizer \<Rightarrow> string option \<Rightarrow> string \<Rightarrow> int \<Rightarrow> int \<Rightarrow> int \<Rightarrow> ('w summary_run, int) prog" where
  "largest_prefix z previous record1 low high best =
     (if low \<le> high
      then bindP (fits_input z previous [take (nat ((low + high) div 2)) record1]) (\<lambda>fits.
        if fits then largest_prefix z previous record1 ((low + high) div 2 + 1) high ((low + high) div 2)
        else largest_prefix z previous record1 low ((low + high) div 2 - 1) best)
      else ret best)"
  by pat_completeness auto

termination
  by (relation "measure (\<lambda>(z, previous, record1, low, high, best). nat (high - low + 1))") auto

declare largest_prefix.simps [simp del]

definition protocol_error :: "string \<Rightarrow> exn" where
  "protocol_error text1 = DetailedException ''ModelProtocolError'' text1 []"

text \<open>One request to the model, and the checks of its reply.\<close>

definition ask_summary :: "'w summarizer \<Rightarrow> bool \<Rightarrow> string option \<Rightarrow> string list \<Rightarrow> ('w summary_run, string \<times> usage) prog" where
  "ask_summary z gateway previous batch =
     bindP (modifyP (\<lambda>s. s\<lparr>sq_sent := sq_sent s @ [(previous, batch)]\<rparr>)) (\<lambda>_.
     bindP (serve_summary (sz_complete z gateway (summary_request z previous batch))) (\<lambda>reply.
     let reason = lower (case sy_finish_reason reply of None \<Rightarrow> [] | Some t \<Rightarrow> t);
         content = strip (case sy_content reply of None \<Rightarrow> [] | Some t \<Rightarrow> t) in
     if reason \<in> {''timeout'', ''length'', ''max_tokens''}
     then raise (DetailedException ''ModelOutputIncompleteError'' reason [])
     else if sy_tool_calls reply \<noteq> [] then raise (protocol_error ''conversation summarizer returned Tool Calls'')
     else if content = [] then raise (protocol_error ''conversation summarizer returned an empty summary'')
     else bindP (modifyP (\<lambda>s. s\<lparr>sq_answers := sq_answers s @ [content]\<rparr>)) (\<lambda>_. ret (content, sy_usage reply))))"

text \<open>Every round of the fold takes away at least one character or one record.\<close>

definition text_left :: "string list \<Rightarrow> nat" where
  "text_left records = sum_list (map (\<lambda>r. Suc (length r)) records)"

lemma text_left_simps [simp]: "text_left [] = 0" "text_left (r # rs) = Suc (length r) + text_left rs"
  by (simp_all add: text_left_def)

lemma text_left_drop: "text_left (drop n rs) \<le> text_left rs"
proof (induction rs arbitrary: n)
  case (Cons r rs)
  then show ?case by (cases n) (auto intro: le_trans [OF Cons.IH])
qed simp

function fold_records :: "'w summarizer \<Rightarrow> bool \<Rightarrow> string option \<Rightarrow> usage \<Rightarrow> string list \<Rightarrow>
    ('w summary_run, string option \<times> usage) prog" where
  "fold_records z gateway summary used records =
     (if records = [] then ret (summary, used)
      else bindP (collect_batch z summary [] records) (\<lambda>batch.
        if batch = []
        then bindP (largest_prefix z summary (hd records) 1 (int (length (hd records))) 0) (\<lambda>size1.
          if size1 < 1
          then raise (RuntimeError ''summary instructions and previous summary exceed max_input_tokens'')
          else bindP (ask_summary z gateway summary [take (nat size1) (hd records)]) (\<lambda>(content, u).
            if drop (nat size1) (hd records) = [] then fold_records z gateway (Some content) (plus_usage used u) (tl records)
            else fold_records z gateway (Some content) (plus_usage used u) (drop (nat size1) (hd records) # tl records)))
        else bindP (ask_summary z gateway summary batch) (\<lambda>(content, u).
          fold_records z gateway (Some content) (plus_usage used u) (drop (length batch) records))))"
  by pat_completeness auto

termination
proof (relation "measure (\<lambda>(z, gateway, summary, used, records). text_left records)", goal_cases)
  case (4 z gateway summary used records batch)
  then obtain r rs n where "records = r # rs" "length batch = Suc n" by (cases records; cases batch) auto
  then show ?case using text_left_drop [of n rs] by simp
qed (auto simp: neq_Nil_conv)

declare fold_records.simps [simp del]

definition summarize_with_model :: "'w summarizer \<Rightarrow> bool \<Rightarrow> chat_message list \<Rightarrow> string option \<Rightarrow>
    ('w summary_run, summary_result) prog" where
  "summarize_with_model z gateway messages previous =
     (if messages = []
      then (case previous of
          None \<Rightarrow> raise (ValueError ''messages cannot be empty without a previous summary'')
        | Some t \<Rightarrow> if strip t = [] then raise (ValueError ''messages cannot be empty without a previous summary'')
            else ofR (SummaryResult \<lparr>sm_summary = strip t, sm_usage = no_usage\<rparr>))
      else bindP (fold_records z gateway (case previous of None \<Rightarrow> None | Some t \<Rightarrow> if t = [] then None else Some (strip t))
          no_usage (map (\<lambda>m. sz_json z (message_to_dict m)) messages)) (\<lambda>(summary, used). case summary of
          None \<Rightarrow> raise (protocol_error ''conversation summarizer produced no summary'')
        | Some t \<Rightarrow> ofR (SummaryResult \<lparr>sm_summary = t, sm_usage = used\<rparr>)))"

text \<open>The summarizer as the policy calls it.\<close>

definition model_summarize :: "'w summarizer \<Rightarrow> bool \<Rightarrow> chat_message list \<Rightarrow> string option \<Rightarrow> 'w \<Rightarrow> summary_result res \<times> 'w" where
  "model_summarize z gateway messages previous w =
     (case summarize_with_model z gateway messages previous \<lparr>sq_sent = [], sq_answers = [], sq_world = w\<rparr> of (out, s) \<Rightarrow> (out, sq_world s))"

end
