(* ===== verification/Memory_Summarizer_Props.thy ===== *)
theory Memory_Summarizer_Props
  imports Memory_Summarizer Program_Logic
begin

text \<open>
  What the summarizer promises: all of the conversation goes into the summary, once and in order; no request
  exceeds the input tokens; and it ends with a summary when the model answers.
\<close>

subsection \<open>Everything is folded\<close>

text \<open>A division of records into batches of whole records and fragments of single ones.\<close>

inductive splits :: "string list \<Rightarrow> string list list \<Rightarrow> bool" where
  done_all: "splits [] []"
| whole: "batch \<noteq> [] \<Longrightarrow> splits rest batches \<Longrightarrow> splits (batch @ rest) (batch # batches)"
| fragment: "a \<noteq> [] \<Longrightarrow> b \<noteq> [] \<Longrightarrow> splits (b # rest) batches \<Longrightarrow> splits ((a @ b) # rest) ([a] # batches)"

lemma splits_concat: "splits records batches \<Longrightarrow> concat (concat batches) = concat records"
  by (induction rule: splits.induct) auto

lemma serve_summary_run:
  "serve_summary f s = (out, s') \<Longrightarrow> sq_sent s' = sq_sent s \<and> sq_answers s' = sq_answers s \<and> fst (f (sq_world s)) = out"
  by (auto simp: serve_summary_def split: prod.splits)

lemma fits_input_run:
  "fits_input z previous batch s = (out, s') \<Longrightarrow> sq_sent s' = sq_sent s \<and> sq_answers s' = sq_answers s"
  by (auto simp: fits_input_def bindP_run raise_def ret_def dest: serve_summary_run split: prod.splits sum.splits if_splits)

lemma collect_batch_run:
  "collect_batch z previous batch records s = (out, s') \<Longrightarrow> sq_sent s' = sq_sent s \<and> sq_answers s' = sq_answers s \<and>
     (\<forall>taken. out = Inr taken \<longrightarrow> (\<exists>n. taken = batch @ take n records))"
proof (induction records arbitrary: batch s)
  case Nil
  then show ?case by (auto simp: ret_def)
next
  case (Cons r rs)
  obtain o1 s1 where fits: "fits_input z previous (batch @ [r]) s = (o1, s1)" by fastforce
  note kept = fits_input_run [OF fits]
  consider (raised) e where "o1 = Inl e" "out = Inl e" "s' = s1" | (stop) "o1 = Inr False" "out = Inr batch" "s' = s1"
    | (more) "o1 = Inr True" "collect_batch z previous (batch @ [r]) rs s1 = (out, s')"
    using Cons.prems fits by (auto simp: bindP_run ret_def split: sum.splits if_splits)
  then show ?case
  proof cases
    case stop
    then show ?thesis using kept by (auto intro: exI [of _ 0])
  next
    case more
    have "\<exists>n. (batch @ [r]) @ take m rs = batch @ take n (r # rs)" for m by (rule exI [of _ "Suc m"]) simp
    then show ?thesis using Cons.IH [OF more(2)] kept by auto
  qed (use kept in auto)
qed

lemma largest_prefix_run:
  "largest_prefix z previous r low high best s = (out, s') \<Longrightarrow> sq_sent s' = sq_sent s \<and> sq_answers s' = sq_answers s"
proof (induction z previous r low high best arbitrary: s rule: largest_prefix.induct)
  case (1 z previous r low high best)
  show ?case
  proof (cases "low \<le> high")
    case True
    obtain o1 s1 where fits: "fits_input z previous [take (nat ((low + high) div 2)) r] s = (o1, s1)" by fastforce
    note kept = fits_input_run [OF fits]
    show ?thesis
      using 1(3) 1(1) [OF True] 1(2) [OF True] True fits kept
      by (cases o1) (auto simp: largest_prefix.simps [of z previous r low high best] bindP_run split: if_splits)
  qed (use 1(3) in \<open>simp add: largest_prefix.simps [of z previous r low high best] ret_def\<close>)
qed

lemma ask_summary_run:
  assumes "ask_summary z gateway previous batch s = (out, s')"
  shows "sq_sent s' = sq_sent s @ [(previous, batch)] \<and>
    (\<forall>content u. out = Inr (content, u) \<longrightarrow> sq_answers s' = sq_answers s @ [content] \<and> strip content \<noteq> [])"
  using assms
  by (auto simp: ask_summary_def Let_def bindP_run modifyP_def raise_def ret_def
      dest!: serve_summary_run split: prod.splits sum.splits if_splits)

text \<open>What a run of the fold adds to the two lists: each request continues the answer before it.\<close>

definition folded :: "string option \<Rightarrow> string list \<Rightarrow> (string option \<times> string list) list \<Rightarrow> string list \<Rightarrow> string option \<Rightarrow> bool" where
  "folded summary records sent answers final \<longleftrightarrow> splits records (map snd sent) \<and>
     map fst sent = butlast (summary # map Some answers) \<and> length sent = length answers \<and>
     final = last (summary # map Some answers) \<and> (\<forall>t \<in> set answers. strip t \<noteq> [])"

lemma folded_step:
  assumes "folded (Some content) rest sent answers final" and "strip content \<noteq> []"
    and "splits rest (map snd sent) \<Longrightarrow> splits records (batch # map snd sent)"
  shows "folded summary records ((summary, batch) # sent) (content # answers) final"
  using assms by (auto simp: folded_def)

lemma fold_records_run:
  assumes "fold_records z gateway summary used records s = (Inr (final, used'), s')"
  shows "\<exists>sent answers. sq_sent s' = sq_sent s @ sent \<and> sq_answers s' = sq_answers s @ answers \<and>
    folded summary records sent answers final"
  using assms
proof (induction z gateway summary used records arbitrary: s rule: fold_records.induct)
  case (1 z gateway summary used records)
  show ?case
  proof (cases "records = []")
    case True
    then have "s' = s" "final = summary"
      using 1(4) by (simp_all add: fold_records.simps [of z gateway summary used "[]"] ret_def)
    then show ?thesis using True by (intro exI [of _ "[]"]) (simp add: folded_def splits.done_all)
  next
    case False
    let ?r = "hd records" and ?rs = "tl records"
    have records: "records = ?r # ?rs" using False by simp
    note unfold = fold_records.simps [of z gateway summary used records]
    obtain o1 s1 where o1: "collect_batch z summary [] records s = (o1, s1)" by fastforce
    then obtain batch where batch: "o1 = Inr batch" using 1(4) False
      by (cases o1) (auto simp: unfold bindP_run)
    then obtain n where n: "batch = take n records" "sq_sent s1 = sq_sent s" "sq_answers s1 = sq_answers s"
      using collect_batch_run [OF o1] by auto
    have next_round: ?thesis
      if ask: "ask_summary z gateway summary sent1 s2 = (Inr (content, u), s3)" and before: "sq_sent s2 = sq_sent s" "sq_answers s2 = sq_answers s"
        and rest: "\<exists>sent answers. sq_sent s' = sq_sent s3 @ sent \<and> sq_answers s' = sq_answers s3 @ answers \<and>
          folded (Some content) left sent answers final"
        and split: "\<And>bs. splits left bs \<Longrightarrow> splits records (sent1 # bs)" for sent1 s2 content u s3 left
    proof -
      obtain sent answers where more: "sq_sent s' = sq_sent s3 @ sent" "sq_answers s' = sq_answers s3 @ answers"
          "folded (Some content) left sent answers final" using rest by blast
      have "sq_sent s3 = sq_sent s @ [(summary, sent1)]" "sq_answers s3 = sq_answers s @ [content]" "strip content \<noteq> []"
        using ask_summary_run [OF ask] before by auto
      then show ?thesis
        using more folded_step [OF more(3), of records sent1 summary] split by (auto intro!: exI [of _ "(summary, sent1) # sent"])
    qed
    show ?thesis
    proof (cases "batch = []")
      case empty: True
      obtain o2 s2 where o2: "largest_prefix z summary ?r 1 (int (length ?r)) 0 s1 = (o2, s2)" by fastforce
      then obtain size1 where size1: "o2 = Inr size1" "1 \<le> size1"
        using 1(4) False o1 batch empty by (cases o2) (auto simp: unfold bindP_run raise_def split: if_splits)
      obtain content u s3 where ask: "ask_summary z gateway summary [take (nat size1) ?r] s2 = (Inr (content, u), s3)"
        using 1(4) False o1 batch empty o2 size1
        by (cases "ask_summary z gateway summary [take (nat size1) ?r] s2") (auto simp: unfold bindP_run split: sum.splits)
      have before: "sq_sent s2 = sq_sent s" "sq_answers s2 = sq_answers s" using largest_prefix_run [OF o2] n by auto
      have large: "\<not> size1 < 1" using size1(2) by simp
      show ?thesis
      proof (cases "drop (nat size1) ?r = []")
        case True
        then have "take (nat size1) ?r = ?r" by simp
        then have "splits ?rs bs \<Longrightarrow> splits records ([take (nat size1) ?r] # bs)" for bs
          using splits.whole [of "[?r]" ?rs bs] records by simp
        moreover have "fold_records z gateway (Some content) (plus_usage used u) ?rs s3 = (Inr (final, used'), s')"
          using 1(4) False o1 batch empty o2 size1 ask True by (auto simp: unfold bindP_run split: if_splits)
        ultimately show ?thesis
          using 1(1) [OF False empty, of size1 content u s3] size1 True
          by (intro next_round [OF ask before, of ?rs]) auto
      next
        case rest: False
        then have "?r \<noteq> []" by auto
        then have "splits (drop (nat size1) ?r # ?rs) bs \<Longrightarrow> splits records ([take (nat size1) ?r] # bs)" for bs
          using splits.fragment [of "take (nat size1) ?r" "drop (nat size1) ?r" ?rs bs] rest size1(2) records by auto
        moreover have "fold_records z gateway (Some content) (plus_usage used u) (drop (nat size1) ?r # ?rs) s3 = (Inr (final, used'), s')"
          using 1(4) False o1 batch empty o2 size1 ask rest by (auto simp: unfold bindP_run split: if_splits)
        ultimately show ?thesis
          using 1(2) [OF False empty, of size1 content u s3] size1 rest
          by (intro next_round [OF ask before, of "drop (nat size1) ?r # ?rs"]) auto
      qed
    next
      case filled: False
      obtain content u s2 where ask: "ask_summary z gateway summary batch s1 = (Inr (content, u), s2)"
        using 1(4) False o1 batch filled
        by (cases "ask_summary z gateway summary batch s1")
          (auto simp: unfold bindP_run split: sum.splits)
      have "fold_records z gateway (Some content) (plus_usage used u) (drop (length batch) records) s2 = (Inr (final, used'), s')"
        using 1(4) False o1 batch filled ask by (auto simp: unfold bindP_run)
      moreover have "splits (drop (length batch) records) bs \<Longrightarrow> splits records (batch # bs)" for bs
        using splits.whole [OF filled, of "drop (length batch) records" bs] n(1) by (simp add: min_def split: if_splits)
      ultimately show ?thesis
        using 1(3) [OF False filled, of content u s2] by (intro next_round [OF ask n(2,3)]) auto
    qed
  qed
qed

text \<open>
  C28.  The whole conversation goes into a summary: the serialized messages are divided into batches of whole
  records and fragments of single ones, all of them, once and in order; the first request carries the
  previous summary, every other one the answer to the request before, and the last answer is the summary.
\<close>

theorem summary_folds_everything:
  assumes "summarize_with_model z gateway messages previous \<lparr>sq_sent = [], sq_answers = [], sq_world = w\<rparr> = (Inr r, s')"
    and "messages \<noteq> []"
  shows "splits (map (\<lambda>m. sz_json z (message_to_dict m)) messages) (map snd (sq_sent s')) \<and>
    map fst (sq_sent s') = butlast ((if previous \<in> {None, Some []} then None else Some (strip (the previous))) #
      map Some (sq_answers s')) \<and> sq_answers s' \<noteq> [] \<and> sm_summary r = last (sq_answers s')"
proof -
  let ?records = "map (\<lambda>m. sz_json z (message_to_dict m)) messages"
  let ?first = "case previous of None \<Rightarrow> None | Some t \<Rightarrow> if t = [] then None else Some (strip t)"
  obtain t u where fold: "fold_records z gateway ?first no_usage ?records \<lparr>sq_sent = [], sq_answers = [], sq_world = w\<rparr> = (Inr (Some t, u), s')"
      and r: "sm_summary r = t"
    using assms by (auto simp: summarize_with_model_def bindP_run raise_def ofR_def SummaryResult_def bindR_Inr_iff
      split: prod.splits sum.splits option.splits)
  then have folded: "folded ?first ?records (sq_sent s') (sq_answers s') (Some t)"
    using fold_records_run [OF fold] by auto
  have "sq_sent s' \<noteq> []" using folded assms(2) by (auto simp: folded_def elim: splits.cases)
  then have "sq_answers s' \<noteq> []" using folded by (auto simp: folded_def)
  moreover have "?first = (if previous \<in> {None, Some []} then None else Some (strip (the previous)))"
    by (auto split: option.split)
  ultimately show ?thesis using folded r unfolding folded_def by (auto simp: last_map)
qed

subsection \<open>Every request fits\<close>

definition exact_input :: "'w summarizer \<Rightarrow> (chat_request \<Rightarrow> int) \<Rightarrow> bool" where
  "exact_input z tokens \<longleftrightarrow> (\<forall>r w. fst (sz_count z r w) = Inr (tokens r))"

abbreviation fits :: "'w summarizer \<Rightarrow> (chat_request \<Rightarrow> int) \<Rightarrow> string option \<Rightarrow> string list \<Rightarrow> bool" where
  "fits z tokens previous batch \<equiv> tokens (summary_request z previous batch) \<le> sz_max_input_tokens z"

definition all_fit :: "'w summarizer \<Rightarrow> (chat_request \<Rightarrow> int) \<Rightarrow> 'w summary_run \<Rightarrow> bool" where
  "all_fit z tokens s \<longleftrightarrow> (\<forall>(previous, batch) \<in> set (sq_sent s). fits z tokens previous batch)"

abbreviation fit_triple :: "'w summarizer \<Rightarrow> (chat_request \<Rightarrow> int) \<Rightarrow> ('w summary_run, 'a) prog \<Rightarrow> ('a \<Rightarrow> bool) \<Rightarrow> bool" where
  "fit_triple z tokens m ok \<equiv> triple (all_fit z tokens) (all_fit z tokens) m (\<lambda>x s. all_fit z tokens s \<and> ok x)"

lemma fit_bind:
  assumes "fit_triple z tokens m ok" and "\<And>x. ok x \<Longrightarrow> fit_triple z tokens (k x) ok'"
  shows "fit_triple z tokens (bindP m k) ok'"
  by (rule triple_bind [OF assms(1)], rule triple_assume, erule conjunct2, rule triple_pre [OF assms(2)]) auto

lemma fits_input_fit:
  assumes "exact_input z tokens"
  shows "fit_triple z tokens (fits_input z previous batch) (\<lambda>b. b \<longrightarrow> fits z tokens previous batch)"
proof (rule tripleI)
  fix s out s' assume s: "all_fit z tokens s" and run: "fits_input z previous batch s = (out, s')"
  have "out = Inr True \<Longrightarrow> fits z tokens previous batch"
    using run assms by (auto simp: fits_input_def bindP_run raise_def ret_def exact_input_def
      dest!: serve_summary_run split: prod.splits sum.splits if_splits)
  then show "case out of Inl e \<Rightarrow> all_fit z tokens s' | Inr b \<Rightarrow> all_fit z tokens s' \<and> (b \<longrightarrow> fits z tokens previous batch)"
    using s fits_input_run [OF run] by (auto simp: all_fit_def split: sum.split)
qed

lemma collect_batch_fit:
  "exact_input z tokens \<Longrightarrow> batch = [] \<or> fits z tokens previous batch \<Longrightarrow>
     fit_triple z tokens (collect_batch z previous batch records) (\<lambda>b. b = [] \<or> fits z tokens previous b)"
  by (induction records arbitrary: batch) (auto intro!: triple_ret fit_bind [OF fits_input_fit] triple_if)

lemma largest_prefix_fit:
  "exact_input z tokens \<Longrightarrow> best < 1 \<or> fits z tokens previous [take (nat best) r] \<Longrightarrow>
     fit_triple z tokens (largest_prefix z previous r low high best) (\<lambda>n. n < 1 \<or> fits z tokens previous [take (nat n) r])"
proof (induction z previous r low high best rule: largest_prefix.induct)
  case (1 z previous r low high best)
  show ?case
    unfolding largest_prefix.simps [of z previous r low high best]
    using 1 by (auto intro!: triple_ret fit_bind [OF fits_input_fit] triple_if)
qed

lemma ask_summary_fit:
  assumes "fits z tokens previous batch"
    and "\<And>content u. triple (all_fit z tokens) (all_fit z tokens) (k content u) (\<lambda>_. all_fit z tokens)"
  shows "triple (all_fit z tokens) (all_fit z tokens) (bindP (ask_summary z gateway previous batch) (\<lambda>(content, u). k content u))
    (\<lambda>_. all_fit z tokens)"
proof (rule triple_bind [where R = "\<lambda>_. all_fit z tokens"])
  show "triple (all_fit z tokens) (all_fit z tokens) (ask_summary z gateway previous batch) (\<lambda>_. all_fit z tokens)"
    by (rule tripleI) (use assms(1) in \<open>auto simp: all_fit_def dest!: ask_summary_run split: sum.split\<close>)
qed (simp add: assms(2) split: prod.split)

lemma fit_known:
  assumes "fit_triple z tokens m ok"
    and "\<And>x. ok x \<Longrightarrow> triple (all_fit z tokens) (all_fit z tokens) (k x) (\<lambda>_. all_fit z tokens)"
  shows "triple (all_fit z tokens) (all_fit z tokens) (bindP m k) (\<lambda>_. all_fit z tokens)"
  by (rule triple_bind [OF assms(1)], rule triple_assume, erule conjunct2, rule triple_pre [OF assms(2)]) auto

lemma fold_records_fit:
  "exact_input z tokens \<Longrightarrow>
     triple (all_fit z tokens) (all_fit z tokens) (fold_records z gateway summary used records) (\<lambda>_. all_fit z tokens)"
proof (induction z gateway summary used records rule: fold_records.induct)
  case (1 z gateway summary used records)
  show ?case
    unfolding fold_records.simps [of z gateway summary used records]
  proof (rule triple_if [OF triple_ret fit_known [OF collect_batch_fit [OF 1(4)]]], assumption, simp)
    fix batch
    assume more: "records \<noteq> []" and batch: "batch = [] \<or> fits z tokens summary batch"
    have prefix: "fit_triple z tokens (largest_prefix z summary (hd records) 1 (int (length (hd records))) 0)
        (\<lambda>n. n < 1 \<or> fits z tokens summary [take (nat n) (hd records)])"
      by (rule largest_prefix_fit [OF 1(4)]) simp
    show "triple (all_fit z tokens) (all_fit z tokens)
      (if batch = [] then bindP (largest_prefix z summary (hd records) 1 (int (length (hd records))) 0) (\<lambda>size1.
          if size1 < 1 then raise (RuntimeError ''summary instructions and previous summary exceed max_input_tokens'')
          else bindP (ask_summary z gateway summary [take (nat size1) (hd records)]) (\<lambda>(content, u).
            if drop (nat size1) (hd records) = [] then fold_records z gateway (Some content) (plus_usage used u) (tl records)
            else fold_records z gateway (Some content) (plus_usage used u) (drop (nat size1) (hd records) # tl records)))
        else bindP (ask_summary z gateway summary batch) (\<lambda>(content, u).
          fold_records z gateway (Some content) (plus_usage used u) (drop (length batch) records))) (\<lambda>_. all_fit z tokens)"
      by (rule triple_if [OF fit_known [OF prefix] ask_summary_fit], rule triple_if [OF triple_raise ask_summary_fit])
        (use more batch 1 in \<open>auto intro: triple_if\<close>)
  qed
qed

text \<open>
  No request of the summarizer exceeds its input tokens: for a counter that gives every request its count,
  every request that was sent, also in a run that ends with an exception, is within the maximum.
\<close>

theorem summary_requests_fit:
  assumes "exact_input z tokens"
    and "summarize_with_model z gateway messages previous \<lparr>sq_sent = [], sq_answers = [], sq_world = w\<rparr> = (out, s')"
  shows "\<forall>(carried, batch) \<in> set (sq_sent s'). tokens (summary_request z carried batch) \<le> sz_max_input_tokens z"
proof -
  have finish: "triple (all_fit z tokens) (all_fit z tokens) (ofR x) (\<lambda>_. all_fit z tokens)" for x :: "summary_result res"
    by (rule tripleI) (auto simp: ofR_def split: sum.split)
  have "triple (all_fit z tokens) (all_fit z tokens) (summarize_with_model z gateway messages previous) (\<lambda>_. all_fit z tokens)"
    unfolding summarize_with_model_def
    by (intro triple_if triple_option triple_bind [OF fold_records_fit [OF assms(1)]] triple_raise finish)
      (auto intro!: triple_option triple_raise finish split: prod.split)
  from tripleD [OF this _ assms(2)] show ?thesis by (auto simp: all_fit_def split: sum.splits)
qed

subsection \<open>A summary is made\<close>

definition acceptable :: "summary_reply \<Rightarrow> bool" where
  "acceptable reply \<longleftrightarrow> lower (case sy_finish_reason reply of None \<Rightarrow> [] | Some t \<Rightarrow> t) \<notin> {''timeout'', ''length'', ''max_tokens''} \<and>
     sy_tool_calls reply = [] \<and> strip (case sy_content reply of None \<Rightarrow> [] | Some t \<Rightarrow> t) \<noteq> []"

text \<open>The model always answers, with a text of at most \<open>n\<close> characters; and such a text, or none, is carried.\<close>

definition answers_within :: "nat \<Rightarrow> 'w summarizer \<Rightarrow> bool" where
  "answers_within n z \<longleftrightarrow> (\<forall>gateway r w. case fst (sz_complete z gateway r w) of Inl e \<Rightarrow> False
     | Inr reply \<Rightarrow> acceptable reply \<and> length (strip (case sy_content reply of None \<Rightarrow> [] | Some t \<Rightarrow> t)) \<le> n)"

definition carries_within :: "nat \<Rightarrow> string option \<Rightarrow> bool" where
  "carries_within n carried \<longleftrightarrow> (case carried of None \<Rightarrow> True | Some t \<Rightarrow> length t \<le> n)"

lemma fits_input_total:
  assumes "exact_input z tokens" and "\<forall>r. 0 \<le> tokens r"
  shows "\<exists>s'. fits_input z previous batch s = (Inr (fits z tokens previous batch), s')"
proof -
  have "fst (sz_count z (summary_request z previous batch) (sq_world s)) = Inr (tokens (summary_request z previous batch))"
    using assms(1) by (simp add: exact_input_def)
  then show ?thesis
    using assms(2) by (cases "sz_count z (summary_request z previous batch) (sq_world s)")
      (auto simp: fits_input_def serve_summary_def bindP_run raise_def ret_def not_less)
qed

lemma collect_batch_total:
  assumes "exact_input z tokens" and "\<forall>r. 0 \<le> tokens r"
  shows "\<exists>b s'. collect_batch z previous batch records s = (Inr b, s')"
proof (induction records arbitrary: batch s)
  case (Cons r rs)
  obtain s1 where "fits_input z previous (batch @ [r]) s = (Inr (fits z tokens previous (batch @ [r])), s1)"
    using fits_input_total [OF assms] by blast
  then show ?case using Cons.IH [of "batch @ [r]" s1] by (auto simp: bindP_run ret_def)
qed (simp add: ret_def)

lemma largest_prefix_total:
  assumes "exact_input z tokens" and "\<forall>r. 0 \<le> tokens r" and "1 \<le> low"
    and "1 \<le> best \<or> low = 1 \<and> low \<le> high \<and> fits z tokens previous [take 1 r]"
  shows "\<exists>n s'. largest_prefix z previous r low high best s = (Inr n, s') \<and> 1 \<le> n"
  using assms
proof (induction z previous r low high best arbitrary: s rule: largest_prefix.induct)
  case (1 z previous r low high best)
  show ?case
  proof (cases "low \<le> high")
    case True
    let ?m = "(low + high) div 2"
    let ?fits = "fits z tokens previous [take (nat ?m) r]"
    obtain s1 where s1: "fits_input z previous [take (nat ?m) r] s = (Inr ?fits, s1)"
      using fits_input_total [OF 1(3,4)] by blast
    have m: "low \<le> ?m" "?m \<le> high" using True by auto
    show ?thesis
    proof (cases ?fits)
      case fit: True
      then show ?thesis
        using 1(1) [OF True fit 1(3,4), of s1] 1(5) m s1 True
        by (simp add: largest_prefix.simps [of z previous r low high best] bindP_run)
    next
      case False
      have "1 \<le> best \<or> low = 1 \<and> low \<le> ?m - 1 \<and> fits z tokens previous [take 1 r]"
        using 1(6) False m by (cases "?m = 1") auto
      then show ?thesis
        using 1(2) [OF True False 1(3,4,5), of s1] s1 True False
        by (simp add: largest_prefix.simps [of z previous r low high best] bindP_run)
    qed
  qed (use 1(5,6) in \<open>auto simp: largest_prefix.simps [of z previous r low high best] ret_def\<close>)
qed

lemma ask_summary_total:
  assumes "answers_within n z"
  shows "\<exists>content u s'. ask_summary z gateway previous batch s = (Inr (content, u), s') \<and> length content \<le> n"
proof -
  let ?s = "s\<lparr>sq_sent := sq_sent s @ [(previous, batch)]\<rparr>"
  obtain out w where run: "sz_complete z gateway (summary_request z previous batch) (sq_world s) = (out, w)" by fastforce
  have "case fst (sz_complete z gateway (summary_request z previous batch) (sq_world s)) of Inl e \<Rightarrow> False
     | Inr reply \<Rightarrow> acceptable reply \<and> length (strip (case sy_content reply of None \<Rightarrow> [] | Some t \<Rightarrow> t)) \<le> n"
    using assms by (simp add: answers_within_def)
  then obtain reply where "out = Inr reply" "acceptable reply"
      "length (strip (case sy_content reply of None \<Rightarrow> [] | Some t \<Rightarrow> t)) \<le> n"
    by (simp add: run split: sum.splits)
  then show ?thesis
    using run by (auto simp: ask_summary_def Let_def bindP_run modifyP_def serve_summary_def ret_def acceptable_def)
qed

lemma fold_records_total:
  assumes "exact_input z tokens" and "\<forall>r. 0 \<le> tokens r" and "answers_within n z"
    and "\<forall>previous c. carries_within n previous \<longrightarrow> fits z tokens previous [[c]]"
    and "[] \<notin> set records" and "carries_within n summary"
  shows "\<exists>out s'. fold_records z gateway summary used records s = (Inr out, s')"
  using assms
proof (induction z gateway summary used records arbitrary: s rule: fold_records.induct)
  case (1 z gateway summary used records)
  note unfold = fold_records.simps [of z gateway summary used records]
  show ?case
  proof (cases "records = []")
    case True
    then show ?thesis by (simp add: fold_records.simps [of z gateway summary used "[]"] ret_def)
  next
    case False
    let ?r = "hd records" and ?rs = "tl records"
    obtain batch s1 where batch: "collect_batch z summary [] records s = (Inr batch, s1)"
      using collect_batch_total [OF 1(4,5)] by blast
    have left: "[] \<notin> set (drop k records)" "[] \<notin> set ?rs" for k
      using 1(8) by (auto dest: in_set_dropD list.set_sel(2) [OF False])
    have carry: "carries_within n (Some content)" if "length content \<le> n" for content
      using that by (simp add: carries_within_def)
    show ?thesis
    proof (cases "batch = []")
      case empty: True
      obtain c cs where r: "?r = c # cs" using 1(8) False by (cases ?r) (metis hd_in_set, blast)
      have "(1::int) \<le> 0 \<or> (1::int) = 1 \<and> 1 \<le> int (length ?r) \<and> fits z tokens summary [take 1 ?r]" using 1(7,9) r by simp
      then obtain size1 s2 where size1: "largest_prefix z summary ?r 1 (int (length ?r)) 0 s1 = (Inr size1, s2)" "1 \<le> size1"
        using largest_prefix_total [OF 1(4,5) order.refl] by blast
      obtain content u s3 where ask: "ask_summary z gateway summary [take (nat size1) ?r] s2 = (Inr (content, u), s3)"
          "length content \<le> n"
        using ask_summary_total [OF 1(6)] by blast
      have large: "\<not> size1 < 1" using size1(2) by simp
      show ?thesis
      proof (cases "drop (nat size1) ?r = []")
        case True
        obtain out s4 where "fold_records z gateway (Some content) (plus_usage used u) ?rs s3 = (Inr out, s4)"
          using 1(1) [OF False empty large True 1(4-7) left(2) carry [OF ask(2)], of u s3] by (metis surj_pair)
        then show ?thesis using True batch empty size1 ask(1) False by (simp add: unfold bindP_run)
      next
        case more: False
        obtain out s4 where "fold_records z gateway (Some content) (plus_usage used u) (drop (nat size1) ?r # ?rs) s3 = (Inr out, s4)"
          using 1(2) [OF False empty large more 1(4-7) _ carry [OF ask(2)], of u s3] left(2) more by (metis set_ConsD surj_pair)
        then show ?thesis using more batch empty size1 ask(1) False by (simp add: unfold bindP_run)
      qed
    next
      case filled: False
      obtain content u s2 where ask: "ask_summary z gateway summary batch s1 = (Inr (content, u), s2)" "length content \<le> n"
        using ask_summary_total [OF 1(6)] by blast
      show ?thesis
        using 1(3) [OF False filled 1(4-7) left(1) carry [OF ask(2)], of u s2] batch filled ask(1) False
        by (auto simp: unfold bindP_run)
    qed
  qed
qed

text \<open>
  C30.  The summarizer comes to an end with a summary: when the model always answers with a complete text of at most \<open>n\<close>
  characters, beside a summary of at most \<open>n\<close> characters there is room for one character, the earlier
  summary is no longer than that, the counter gives every request its count and no serialized message is empty, it returns,
  and the last accepted answer is the summary.
\<close>

theorem summary_is_made:
  assumes "exact_input z tokens" and "\<forall>r. 0 \<le> tokens r" and "answers_within n z"
    and "\<forall>carried c. carries_within n carried \<longrightarrow> tokens (summary_request z carried [[c]]) \<le> sz_max_input_tokens z"
    and "carries_within n (map_option strip previous)"
    and "\<forall>m \<in> set messages. sz_json z (message_to_dict m) \<noteq> []" and "messages \<noteq> []"
  shows "\<exists>r s'. summarize_with_model z gateway messages previous \<lparr>sq_sent = [], sq_answers = [], sq_world = w\<rparr> = (Inr r, s') \<and>
    sq_answers s' \<noteq> [] \<and> sm_summary r = last (sq_answers s')"
proof -
  let ?records = "map (\<lambda>m. sz_json z (message_to_dict m)) messages" and ?s = "\<lparr>sq_sent = [], sq_answers = [], sq_world = w\<rparr>"
  let ?first = "case previous of None \<Rightarrow> None | Some t \<Rightarrow> if t = [] then None else Some (strip t)"
  have "[] \<notin> set ?records"
    using assms(6) by (metis (mono_tags, lifting) image_iff list.set_map)
  moreover have "carries_within n ?first" using assms(5) by (cases previous) (auto simp: carries_within_def)
  ultimately have "\<exists>y s'. fold_records z gateway ?first no_usage ?records ?s = (Inr y, s')"
    by (rule fold_records_total [OF assms(1-4)])
  then obtain final u s' where fold: "fold_records z gateway ?first no_usage ?records ?s = (Inr (final, u), s')"
    by (metis surj_pair)
  then have folded: "folded ?first ?records (sq_sent s') (sq_answers s') final"
    using fold_records_run [OF fold] by auto
  then have "sq_sent s' \<noteq> []" using assms(7) by (auto simp: folded_def elim: splits.cases)
  then have answers: "sq_answers s' \<noteq> []" "final = Some (last (sq_answers s'))"
    using folded by (auto simp: folded_def last_map)
  then have "strip (last (sq_answers s')) \<noteq> []"
    using folded last_in_set [OF answers(1)] by (simp add: folded_def)
  note answers = answers this
  show ?thesis
    using answers fold assms(7) by (simp add: summarize_with_model_def bindP_run ofR_def SummaryResult_def)
qed

end
