(* ===== verification/Memory_Samples.thy ===== *)
theory Memory_Samples
  imports Memory_Props Memory_Summarizer_Props
begin

text \<open>
  A short conversation of two turns and a new question, prepared for budgets that hold less than all of it; a
  summarizer that answers, and one that fails; the theorems on memory at these runs.
\<close>

subsection \<open>Policies\<close>

definition assistant_text :: "string \<Rightarrow> chat_message" where
  "assistant_text content = (system_message content)\<lparr>ms_role := MR_assistant\<rparr>"

definition talk :: "memory_request" where
  "talk = \<lparr>mq_session_id = ''session'', mq_phase = MP_act,
     mq_model_request = \<lparr>cq_messages = [system_message ''s'', user_message ''a'', assistant_text ''b'', user_message ''c'',
         assistant_text ''d'', user_message ''e''], cq_tools = [], cq_output_schema = None, cq_options = []\<rparr>,
     mq_protected_from = 5, mq_has_gateway = False\<rparr>"

definition message_count :: "chat_request \<Rightarrow> int" where
  "message_count r = int (length (cq_messages r))"

definition short_summary :: "bool \<Rightarrow> chat_message list \<Rightarrow> string option \<Rightarrow> unit \<Rightarrow> summary_result res \<times> unit" where
  "short_summary gateway messages previous w =
     (Inr \<lparr>sm_summary = (case previous of None \<Rightarrow> [] | Some t \<Rightarrow> t) @ concat (map (\<lambda>m. the (ms_content m)) messages),
        sm_usage = no_usage\<rparr>, w)"

definition no_summary :: "bool \<Rightarrow> chat_message list \<Rightarrow> string option \<Rightarrow> unit \<Rightarrow> summary_result res \<times> unit" where
  "no_summary gateway messages previous w = (Inl (RuntimeError ''no model''), w)"

definition talk_policy :: "int \<Rightarrow> (bool \<Rightarrow> chat_message list \<Rightarrow> string option \<Rightarrow> unit \<Rightarrow> summary_result res \<times> unit) option \<Rightarrow>
    unit token_policy" where
  "talk_policy window summarize = \<lparr>
     tp_budget = \<lparr>tb_context_window_tokens = window, tb_reserved_output_tokens = 1, tb_safety_margin_tokens = 1\<rparr>,
     tp_count = (\<lambda>r w. (Inr (message_count r), w)), tp_summarize = summarize, tp_has_store = summarize \<noteq> None,
     tp_max_history_turns = None, tp_fingerprint = ''policy'',
     tp_digest = (\<lambda>ms. ''digest of '' @ concat (map (\<lambda>m. the (ms_content m)) ms)), tp_terminal = (\<lambda>_. False)\<rparr>"

definition empty_preparation :: "unit preparation" where
  "empty_preparation = \<lparr>pr_counts = [], pr_snapshots = [], pr_usage = no_usage, pr_cache_hit = False, pr_world = ()\<rparr>"

definition talk_result :: "chat_message list \<Rightarrow> int \<Rightarrow> int \<Rightarrow> int \<Rightarrow> (string, pyval) dict \<Rightarrow> memory_result" where
  "talk_result messages tokens summarized dropped metadata = \<lparr>mo_messages = messages, mo_usage = no_usage,
     mo_original_tokens = 6, mo_selected_tokens = tokens, mo_summarized_messages = summarized, mo_dropped_messages = dropped,
     mo_metadata = metadata\<rparr>"

definition summarized_talk :: memory_result where
  "summarized_talk = talk_result [system_message ''s'', summary_message ''abcd'', user_message ''e''] 3 4 0
     [(''phase'', PStr ''act''), (''budget_tokens'', PInt 4), (''selected_history_turns'', PInt 0),
      (''invalid_history_turns'', PInt 0), (''cache_hit'', PBool False)]"

definition shortened_talk :: memory_result where
  "shortened_talk = talk_result [system_message ''s'', user_message ''c'', assistant_text ''d'', user_message ''e''] 4 0 2
     [(''phase'', PStr ''act''), (''budget_tokens'', PInt 4), (''selected_history_turns'', PInt 1),
      (''invalid_history_turns'', PInt 0), (''cache_hit'', PBool False), (''summary_error'', PStr ''RuntimeError'')]"

lemma talk_summarized:
  "token_prepare (talk_policy 6 (Some short_summary)) talk empty_preparation =
     (Inr summarized_talk, snd (token_prepare (talk_policy 6 (Some short_summary)) talk empty_preparation))"
proof -
  have "fst (token_prepare (talk_policy 6 (Some short_summary)) talk empty_preparation) = Inr summarized_talk" by code_simp
  then show ?thesis by (simp add: prod_eq_iff)
qed

lemma talk_shortened:
  "token_prepare (talk_policy 6 (Some no_summary)) talk empty_preparation =
     (Inr shortened_talk, snd (token_prepare (talk_policy 6 (Some no_summary)) talk empty_preparation))"
proof -
  have "fst (token_prepare (talk_policy 6 (Some no_summary)) talk empty_preparation) = Inr shortened_talk" by code_simp
  then show ?thesis by (simp add: prod_eq_iff)
qed

subsection \<open>The theorems at these runs\<close>

theorem prepared_view_sound_witness:
  "hd (mo_messages summarized_talk) = system_message ''s'' \<and> tool_integrity_error (mo_messages summarized_talk) 0 = None \<and>
   mo_summarized_messages summarized_talk + mo_dropped_messages summarized_talk = 4"
proof -
  have system: "[system_message ''s''] =
      takeWhile (\<lambda>m. ms_role m = MR_system) (take (nat (mq_protected_from talk)) (cq_messages (mq_model_request talk)))"
    by code_simp
  obtain gone kept summary where
    "mo_messages summarized_talk =
      [system_message ''s''] @ summary @ kept @ drop (nat (mq_protected_from talk)) (cq_messages (mq_model_request talk))"
    "tool_integrity_error (mo_messages summarized_talk) 0 = None"
    using prepared_view_sound [OF talk_summarized system] by blast
  then show ?thesis by (simp add: summarized_talk_def talk_result_def)
qed

theorem prepared_view_fits_witness:
  "mo_selected_tokens shortened_talk \<le> 4 \<and>
   dget (pr_counts (snd (token_prepare (talk_policy 6 (Some no_summary)) talk empty_preparation)))
     ((mq_model_request talk)\<lparr>cq_messages := mo_messages shortened_talk\<rparr>) = Some 4"
  using prepared_view_fits [OF talk_shortened]
  by (simp add: input_tokens_def talk_policy_def shortened_talk_def talk_result_def)

theorem failed_summary_costs_nothing_witness:
  "\<exists>r. fst (token_prepare ((talk_policy 6 (Some no_summary))\<lparr>tp_summarize := None, tp_has_store := False\<rparr>) talk
      empty_preparation) = Inr r \<and> mo_messages r = mo_messages shortened_talk"
proof -
  have "exact_counter (talk_policy 6 (Some no_summary)) message_count"
    by (simp add: exact_counter_def talk_policy_def)
  note at_talk = failed_summary_costs_nothing [OF this talk_shortened, of empty_preparation]
  have "\<forall>m \<in> set (mo_messages shortened_talk). ms_metadata m = []"
    by code_simp
  then have "mo_messages shortened_talk \<noteq> compose_view parts ts (Some (summary_message content))" for parts ts content
    by (auto simp: compose_view_def summary_message_def)
  then show ?thesis using at_talk by blast
qed

subsection \<open>The turns that are kept, and the summaries\<close>

lemma talk_parts: "conversation_parts_of talk = Inr \<lparr>cp_system = [system_message ''s''],
    cp_history_turns = [[user_message ''a'', assistant_text ''b''], [user_message ''c'', assistant_text ''d'']],
    cp_protected = [user_message ''e''], cp_invalid_messages = 0, cp_invalid_turns = 0\<rparr>"
  by code_simp

lemma talk_policy_facts: "tp_summarize (talk_policy window summarize) = summarize"
    "limit_of (talk_policy window summarize) = window - 2"
    "allowed_turns (talk_policy window summarize) parts = cp_history_turns parts"
    "0 \<le> message_count r"
  by (simp_all add: talk_policy_def input_tokens_def allowed_turns_def message_count_def)

theorem most_recent_turns_kept_witness:
  "\<exists>r. fst (token_prepare (talk_policy 6 None) talk empty_preparation) = Inr r \<and>
     mo_messages r = [system_message ''s'', user_message ''c'', assistant_text ''d'', user_message ''e'']"
proof -
  let ?parts = "projr (conversation_parts_of talk)"
  have counter: "exact_counter (talk_policy 6 None) message_count" by (simp add: exact_counter_def talk_policy_def)
  have parts: "conversation_parts_of talk = Inr ?parts" by (simp add: talk_parts)
  have "\<forall>k. message_count ((mq_model_request talk)\<lparr>cq_messages := compose_view ?parts (drop (Suc k) (cp_history_turns ?parts)) None\<rparr>) \<le>
      message_count ((mq_model_request talk)\<lparr>cq_messages := compose_view ?parts (drop k (cp_history_turns ?parts)) None\<rparr>)"
    by (simp add: talk_parts message_count_def compose_view_def drop_Cons split: nat.split)
  from most_recent_turns_kept [OF counter _ _ parts this, of empty_preparation]
  show ?thesis by (simp add: talk_policy_facts talk_parts message_count_def compose_view_def)
qed

definition longer_talk :: memory_request where
  "longer_talk = talk\<lparr>mq_model_request := (mq_model_request talk)\<lparr>cq_messages := cq_messages (mq_model_request talk) @
     [assistant_text ''f'', user_message ''g'']\<rparr>, mq_protected_from := 7\<rparr>"

lemma longer_talk_parts: "conversation_parts_of longer_talk = Inr \<lparr>cp_system = [system_message ''s''],
    cp_history_turns = [[user_message ''a'', assistant_text ''b''], [user_message ''c'', assistant_text ''d''],
      [user_message ''e'', assistant_text ''f'']],
    cp_protected = [user_message ''g''], cp_invalid_messages = 0, cp_invalid_turns = 0\<rparr>"
  by code_simp

definition contents :: "chat_message list \<Rightarrow> string" where
  "contents ms = concat (map (\<lambda>m. the (ms_content m)) ms)"

lemma contents_length: "(\<And>m. m \<in> set ms \<Longrightarrow> length (the (ms_content m)) = 1) \<Longrightarrow> length (contents ms) = length ms"
  by (induction ms) (simp_all add: contents_def)

lemma contents_inj:
  assumes "\<And>m. m \<in> set xs \<Longrightarrow> length (the (ms_content m)) = 1"
  shows "inj_on contents {take n xs | n. True}"
proof (rule inj_onI)
  fix x y assume "x \<in> {take n xs | n. True}" "y \<in> {take n xs | n. True}" and eq: "contents x = contents y"
  then obtain n k where xy: "x = take n xs" "y = take k xs" by blast
  have "length (contents (take i xs)) = length (take i xs)" for i
    by (rule contents_length) (meson assms in_set_takeD)
  then have "min (length xs) n = min (length xs) k" using eq xy by (metis length_take)
  then show "x = y" using xy by (auto simp: min_def split: if_splits)
qed

lemma digest_inj: "inj_on contents A \<Longrightarrow> inj_on (tp_digest (talk_policy window summarize)) A"
  by (simp add: inj_on_def talk_policy_def contents_def)

lemma talk_prefixes: "prefixes_of talk \<union> prefixes_of longer_talk \<subseteq>
    {take n [user_message ''a'', assistant_text ''b'', user_message ''c'', assistant_text ''d'', user_message ''e'', assistant_text ''f''] | n. True}"
  (is "_ \<subseteq> {take n ?all | n. True}")
proof -
  have "\<exists>m. concat (take k [[user_message ''a'', assistant_text ''b''], [user_message ''c'', assistant_text ''d'']]) = take m ?all"
    "\<exists>m. concat (take k [[user_message ''a'', assistant_text ''b''], [user_message ''c'', assistant_text ''d''],
      [user_message ''e'', assistant_text ''f'']]) = take m ?all" for k
    by (rule exI [of _ "min 4 (2 * k)"], simp add: take_Cons split: nat.split)
      (rule exI [of _ "2 * k"], simp add: take_Cons split: nat.split)
  then show ?thesis
    unfolding prefixes_of_def talk_parts longer_talk_parts by (auto, (metis take_take)+)
qed

lemma both_talks: "map snd (prepare_all (talk_policy 6 (Some short_summary)) [talk, longer_talk] empty_preparation) =
    [Inr summarized_talk, Inr (summarized_talk\<lparr>mo_messages := [system_message ''s'', summary_message ''abcdef'', user_message ''g''],
       mo_original_tokens := 8, mo_summarized_messages := 6\<rparr>)]"
  by code_simp

theorem summary_stands_for_turns_witness:
  "summarizes (talk_policy 6 (Some short_summary)) [user_message ''a'', assistant_text ''b'', user_message ''c'',
     assistant_text ''d'', user_message ''e'', assistant_text ''f''] ''abcdef''"
proof -
  let ?p = "talk_policy 6 (Some short_summary)" and ?r = "summarized_talk\<lparr>mo_messages := [system_message ''s'',
    summary_message ''abcdef'', user_message ''g''], mo_original_tokens := 8, mo_summarized_messages := 6\<rparr>"
  have inj: "inj_on (tp_digest ?p) (\<Union>q \<in> set [talk, longer_talk]. prefixes_of q)"
    by (intro digest_inj inj_on_subset [OF contents_inj]) (use talk_prefixes in \<open>auto simp: assistant_text_def user_message_def system_message_def\<close>)
  have "(longer_talk, Inr ?r) \<in> set (prepare_all ?p [talk, longer_talk] empty_preparation)"
    using both_talks by (auto split: prod.splits)
  from summary_stands_for_turns [OF inj _ this]
  obtain k content where "mo_summarized_messages ?r = int (length (concat (take k (cp_history_turns (projr (conversation_parts_of longer_talk))))))"
    "mo_messages ?r = compose_view (projr (conversation_parts_of longer_talk)) (drop k (cp_history_turns (projr (conversation_parts_of longer_talk))))
       (Some (summary_message content))"
    "summarizes ?p (concat (take k (cp_history_turns (projr (conversation_parts_of longer_talk))))) content"
    by (auto simp: empty_preparation_def longer_talk_parts)
  moreover have "k = 0 \<or> k = 1 \<or> k = 2 \<or> 3 \<le> k" by arith
  ultimately show ?thesis
    by (auto simp: longer_talk_parts summarized_talk_def talk_result_def compose_view_def summary_message_def)
qed

subsection \<open>A model that summarizes\<close>

text \<open>An encoder that keeps the texts of a value, the previous summary first, and a counter of all characters of a request.\<close>

definition plain_json :: "pyval \<Rightarrow> string" where
  "plain_json v = (case v of PDict d \<Rightarrow>
     (case dget d ''conversation_record_fragments'' of
        Some (PList fragments) \<Rightarrow> (case dget d ''previous_summary'' of Some (PStr t) \<Rightarrow> t | _ \<Rightarrow> []) @
          concat (map (\<lambda>f. case f of PStr t \<Rightarrow> t | _ \<Rightarrow> []) fragments)
      | _ \<Rightarrow> (case dget d ''content'' of Some (PStr t) \<Rightarrow> t | _ \<Rightarrow> [])) | _ \<Rightarrow> [])"

definition data_size :: "chat_request \<Rightarrow> int" where
  "data_size r = sum_list (map (\<lambda>m. int (length (the (ms_content m)))) (cq_messages r))"

definition small_model :: "unit summarizer" where
  "small_model = \<lparr>sz_complete = (\<lambda>_ _ w. (Inr \<lparr>sy_content = Some '' sum '', sy_tool_calls = [], sy_finish_reason = Some ''stop'',
       sy_usage = no_usage\<rparr>, w)),
     sz_count = (\<lambda>r w. (Inr (data_size r), w)), sz_max_input_tokens = 135, sz_max_output_tokens = 10,
     sz_instructions = ''summarize'', sz_model_options = [], sz_json = plain_json\<rparr>"

definition fresh_run :: "unit summary_run" where
  "fresh_run = \<lparr>sq_sent = [], sq_answers = [], sq_world = ()\<rparr>"

definition long_messages :: "chat_message list" where
  "long_messages = [user_message ''abcde'', assistant_text ''f'']"

definition two_requests :: "unit summary_run" where
  "two_requests = \<lparr>sq_sent = [(Some ''old'', [''abc'']), (Some ''sum'', [''de'', ''f''])], sq_answers = [''sum'', ''sum''], sq_world = ()\<rparr>"

lemma small_model_run: "summarize_with_model small_model False long_messages (Some ''old'') fresh_run =
    (Inr \<lparr>sm_summary = ''sum'', sm_usage = no_usage\<rparr>, two_requests)"
  by code_simp

lemma small_model_counts: "exact_input small_model data_size"
  by (simp add: exact_input_def small_model_def)

theorem summary_folds_everything_witness:
  "splits (map (\<lambda>m. plain_json (message_to_dict m)) long_messages) [[''abc''], [''de'', ''f'']]"
  using summary_folds_everything [OF small_model_run [unfolded fresh_run_def]]
  by (simp add: two_requests_def long_messages_def) (simp add: small_model_def)

theorem summary_requests_fit_witness:
  "data_size (summary_request small_model (Some ''sum'') [''de'', ''f'']) \<le> 135"
  using summary_requests_fit [OF small_model_counts small_model_run [unfolded fresh_run_def]]
  by (simp add: two_requests_def) (simp add: small_model_def)

theorem summary_is_made_witness:
  "\<exists>r s'. summarize_with_model small_model True long_messages (Some ''old'') \<lparr>sq_sent = [], sq_answers = [], sq_world = ()\<rparr> = (Inr r, s') \<and>
     sq_answers s' \<noteq> [] \<and> sm_summary r = last (sq_answers s')"
proof -
  have "lower ''stop'' \<notin> {''timeout'', ''length'', ''max_tokens''}" "strip '' sum '' = ''sum''"
    by code_simp+
  then have "answers_within 5 small_model"
    by (simp add: answers_within_def acceptable_def small_model_def)
  moreover have "\<forall>carried c. carries_within 5 carried \<longrightarrow>
      data_size (summary_request small_model carried [[c]]) \<le> sz_max_input_tokens small_model"
    by (auto simp: carries_within_def data_size_def summary_request_def small_model_def user_message_def system_message_def
        plain_json_def split: option.splits)
  moreover have "carries_within 5 (map_option strip (Some ''old''))" by code_simp
  moreover have "\<forall>m \<in> set long_messages. sz_json small_model (message_to_dict m) \<noteq> []" "long_messages \<noteq> []"
    by code_simp+
  moreover have "\<forall>r. 0 \<le> data_size r" by (auto simp: data_size_def intro!: sum_list_nonneg)
  ultimately show ?thesis
    using summary_is_made [OF small_model_counts, of 5 "Some ''old''" long_messages True "()"] by simp
qed

end
