(* ===== verification/Model_Guard.thy ===== *)
theory Model_Guard
  imports Tool_Values
begin

text \<open>
  The circuit breaker of the model turns of a run (\<^verbatim>\<open>moduagent/runtime/model_guard.py\<close>): it bounds the number
  of attempts and trips when the model gives the same answer to the same state several times in a row.  It keeps digests and
  counters only.  The JSON encoder, SHA-256 and the keyed digest are parameters; a salt is the text of its 32
  bytes in hexadecimal, and the random source of a reset is the salt it is given.
\<close>

subsection \<open>State and failures\<close>

datatype trip_reason = TR_model_turn_budget | TR_no_progress

fun trip_reason_value :: "trip_reason \<Rightarrow> string" where
  "trip_reason_value TR_model_turn_budget = ''model_turn_budget''"
| "trip_reason_value TR_no_progress = ''no_progress''"

record guard_snapshot =
  gs_model_turns :: int
  gs_max_model_turns :: int
  gs_no_progress_model_turns :: int
  gs_no_progress_model_turn_threshold :: int
  gs_trip_reason :: "trip_reason option"

definition guard_tripped :: "guard_snapshot \<Rightarrow> bool" where
  "guard_tripped s \<longleftrightarrow> gs_trip_reason s \<noteq> None"

definition remaining_model_turns :: "guard_snapshot \<Rightarrow> int" where
  "remaining_model_turns s = max 0 (gs_max_model_turns s - gs_model_turns s)"

definition guard_error :: "string \<Rightarrow> string \<Rightarrow> guard_snapshot \<Rightarrow> exn" where
  "guard_error name text1 s = DetailedException name text1
     [gs_model_turns s, gs_max_model_turns s, gs_no_progress_model_turns s, gs_no_progress_model_turn_threshold s]"

definition turn_budget_exceeded :: "guard_snapshot \<Rightarrow> exn" where
  "turn_budget_exceeded = guard_error ''ModelTurnBudgetExceeded'' ''model turn budget exhausted''"

definition no_progress_error :: "guard_snapshot \<Rightarrow> exn" where
  "no_progress_error = guard_error ''ModelNoProgressError'' ''model execution made no semantic progress''"

record circuit_breaker =
  cb_max_model_turns :: int
  cb_threshold :: int
  cb_model_turns :: int
  cb_no_progress_model_turns :: int
  cb_pending_state_digest :: "string option"
  cb_last_observation_digest :: "string option"
  cb_salt :: string
  cb_trip_reason :: "trip_reason option"

definition guard_snapshot_of :: "circuit_breaker \<Rightarrow> guard_snapshot" where
  "guard_snapshot_of g = \<lparr>gs_model_turns = cb_model_turns g, gs_max_model_turns = cb_max_model_turns g,
     gs_no_progress_model_turns = cb_no_progress_model_turns g, gs_no_progress_model_turn_threshold = cb_threshold g,
     gs_trip_reason = cb_trip_reason g\<rparr>"

subsection \<open>Checks of values\<close>

definition validate_positive_integer :: "pyval \<Rightarrow> string \<Rightarrow> int res" where
  "validate_positive_integer v field = (case v of
     PInt n \<Rightarrow> if n < 1 then Inl (ValueError (field @ '' must be at least 1'')) else Inr n
   | _ \<Rightarrow> Inl (TypeError (field @ '' must be an integer'')))"

definition non_negative_integer :: "pyval \<Rightarrow> string \<Rightarrow> int res" where
  "non_negative_integer v field = (case v of
     PInt n \<Rightarrow> if n < 0 then Inl (ValueError (field @ '' cannot be negative'')) else Inr n
   | _ \<Rightarrow> Inl (TypeError (field @ '' must be an integer'')))"

definition hex_digest :: "string \<Rightarrow> bool" where
  "hex_digest t \<longleftrightarrow> length t = 64 \<and> list_all (\<lambda>c. c \<in> set ''0123456789abcdef'') t"

definition is_sha256_digest :: "pyval \<Rightarrow> bool" where
  "is_sha256_digest v = (case v of PStr t \<Rightarrow> hex_digest t | _ \<Rightarrow> False)"

subsection \<open>Digests\<close>

lemma mapR_cong [fundef_cong]: "xs = ys \<Longrightarrow> (\<And>x. x \<in> set ys \<Longrightarrow> f x = g x) \<Longrightarrow> mapR f xs = mapR g ys"
  by (induction ys arbitrary: xs) (auto split: sum.splits)

text \<open>A value that is not finite has no fingerprint; the other JSON values are their own normal form.\<close>

function normalize_json_value :: "string \<Rightarrow> pyval \<Rightarrow> pyval res" where
  "normalize_json_value field PNonFinite = Inl (TypeError (field @ '' must contain finite JSON values''))"
| "normalize_json_value field (PDict d) =
     bindR (mapR (\<lambda>(k, v). bindR (normalize_json_value field v) (\<lambda>u. Inr (k, u))) d) (\<lambda>d'. Inr (PDict d'))"
| "normalize_json_value field (PList vs) = bindR (mapR (normalize_json_value field) vs) (\<lambda>us. Inr (PList us))"
| "normalize_json_value field PNone = Inr PNone"
| "normalize_json_value field (PBool b) = Inr (PBool b)"
| "normalize_json_value field (PInt n) = Inr (PInt n)"
| "normalize_json_value field (PFloat x) = Inr (PFloat x)"
| "normalize_json_value field (PStr t) = Inr (PStr t)"
  by pat_completeness auto

termination
  by (relation "measure (\<lambda>(field, v). size v)")
    (force simp: less_Suc_eq_le intro: order.trans [OF _ size_list_estimation'])+

record guard_hashes =
  gh_json :: "pyval \<Rightarrow> string"
  gh_sha256 :: "string \<Rightarrow> string"
  gh_hmac :: "string \<Rightarrow> string \<Rightarrow> string"

definition canonical_json :: "guard_hashes \<Rightarrow> string \<Rightarrow> pyval \<Rightarrow> string res" where
  "canonical_json h field v = bindR (normalize_json_value field v) (\<lambda>n. Inr (gh_json h n))"

definition fingerprint_json_value :: "guard_hashes \<Rightarrow> string \<Rightarrow> pyval \<Rightarrow> string res" where
  "fingerprint_json_value h field v = bindR (canonical_json h field v) (\<lambda>t. Inr (gh_sha256 h t))"

record guarded_response =
  gr_content :: "string option"
  gr_message_tool_calls :: "tool_call list"
  gr_tool_calls :: "tool_call list"
  gr_finish_reason :: "string option"

definition optional_str :: "string option \<Rightarrow> pyval" where
  "optional_str t = (case t of None \<Rightarrow> PNone | Some s \<Rightarrow> PStr s)"

definition semantic_response :: "guarded_response \<Rightarrow> pyval" where
  "semantic_response r = PDict [(''content'', optional_str (gr_content r)), (''finish_reason'', optional_str (gr_finish_reason r)),
     (''tool_calls'', PList (map (\<lambda>c. PDict [(''name'', PStr (tk_name c)), (''arguments'', PDict (tk_arguments c))])
       (if gr_tool_calls r \<noteq> [] then gr_tool_calls r else gr_message_tool_calls r)))]"

definition model_response_fingerprint :: "guard_hashes \<Rightarrow> guarded_response \<Rightarrow> string res" where
  "model_response_fingerprint h r = fingerprint_json_value h ''response'' (semantic_response r)"

subsection \<open>Construction\<close>

definition guard_reset :: "string \<Rightarrow> circuit_breaker \<Rightarrow> circuit_breaker" where
  "guard_reset salt g = g\<lparr>cb_salt := salt, cb_model_turns := 0, cb_no_progress_model_turns := 0,
     cb_pending_state_digest := None, cb_last_observation_digest := None, cb_trip_reason := None\<rparr>"

definition NoProgressCircuitBreaker :: "pyval \<Rightarrow> pyval \<Rightarrow> string \<Rightarrow> circuit_breaker res" where
  "NoProgressCircuitBreaker max_model_turns threshold salt =
     bindR (validate_positive_integer max_model_turns ''max_model_turns'') (\<lambda>m.
     bindR (validate_positive_integer threshold ''no_progress_model_turn_threshold'') (\<lambda>t.
     bindR (require (2 \<le> t) (ValueError ''no_progress_model_turn_threshold must be at least 2'')) (\<lambda>_.
     Inr (guard_reset salt \<lparr>cb_max_model_turns = m, cb_threshold = t, cb_model_turns = 0, cb_no_progress_model_turns = 0,
       cb_pending_state_digest = None, cb_last_observation_digest = None, cb_salt = [], cb_trip_reason = None\<rparr>))))"

subsection \<open>Durable state\<close>

definition state_version :: pyval where
  "state_version = PInt 2"

definition guard_to_state :: "circuit_breaker \<Rightarrow> pyval" where
  "guard_to_state g = PDict [(''version'', state_version), (''model_turns'', PInt (cb_model_turns g)),
     (''no_progress_model_turns'', PInt (cb_no_progress_model_turns g)), (''salt'', PStr (cb_salt g)),
     (''last_observation_digest'', optional_str (cb_last_observation_digest g)),
     (''trip_reason'', optional_str (map_option trip_reason_value (cb_trip_reason g)))]"

definition entry_of :: "(string, pyval) dict \<Rightarrow> string \<Rightarrow> pyval" where
  "entry_of d k = (case dget d k of None \<Rightarrow> PNone | Some v \<Rightarrow> v)"

text \<open>An integer equals a float of the same value.\<close>

definition is_state_version :: "pyval \<Rightarrow> bool" where
  "is_state_version v \<longleftrightarrow> v = state_version \<or> v = PFloat 2"

definition read_trip_reason :: "pyval \<Rightarrow> trip_reason option res" where
  "read_trip_reason v = (if v = PNone then Inr None
     else if v = PStr ''model_turn_budget'' then Inr (Some TR_model_turn_budget)
     else if v = PStr ''no_progress'' then Inr (Some TR_no_progress)
     else Inl (ValueError ''model guard trip reason is invalid''))"

definition str_of :: "pyval \<Rightarrow> string option" where
  "str_of v = (case v of PStr t \<Rightarrow> Some t | _ \<Rightarrow> None)"

definition guard_from_state :: "pyval \<Rightarrow> pyval \<Rightarrow> pyval \<Rightarrow> string \<Rightarrow> circuit_breaker res" where
  "guard_from_state state max_model_turns threshold fresh_salt = (case state of
     PDict d \<Rightarrow>
       bindR (require (is_state_version (entry_of d ''version'')) (ValueError ''unsupported model guard state version'')) (\<lambda>_.
       bindR (NoProgressCircuitBreaker max_model_turns threshold fresh_salt) (\<lambda>g.
       bindR (non_negative_integer (entry_of d ''model_turns'') ''model_turns'') (\<lambda>model_turns.
       bindR (non_negative_integer (entry_of d ''no_progress_model_turns'') ''no_progress_model_turns'') (\<lambda>no_progress.
       bindR (all_ok
         [require (model_turns \<le> cb_max_model_turns g) (ValueError ''model guard state exceeds max_model_turns''),
          require (no_progress \<le> cb_threshold g) (ValueError ''model guard state exceeds no_progress_model_turn_threshold''),
          require (no_progress \<le> model_turns) (ValueError ''model guard no_progress_model_turns exceeds model_turns''),
          require (is_sha256_digest (entry_of d ''salt'')) (ValueError ''model guard salt is invalid''),
          require (entry_of d ''last_observation_digest'' \<noteq> PNone \<longrightarrow> is_sha256_digest (entry_of d ''last_observation_digest''))
            (ValueError ''model guard observation digest is invalid''),
          require ((no_progress = 0) = (entry_of d ''last_observation_digest'' = PNone))
            (ValueError ''model guard observation count and digest are inconsistent'')]) (\<lambda>_.
       bindR (read_trip_reason (entry_of d ''trip_reason'')) (\<lambda>reason.
       bindR (all_ok
         [require (reason = Some TR_model_turn_budget \<longrightarrow> cb_max_model_turns g \<le> model_turns)
            (ValueError ''model turn budget trip has an invalid count''),
          require (reason = Some TR_no_progress \<longrightarrow> cb_threshold g \<le> no_progress)
            (ValueError ''no-progress trip has an invalid count'')]) (\<lambda>_.
       Inr (g\<lparr>cb_model_turns := model_turns, cb_no_progress_model_turns := no_progress,
         cb_last_observation_digest := str_of (entry_of d ''last_observation_digest''), cb_pending_state_digest := None,
         cb_salt := the (str_of (entry_of d ''salt'')), cb_trip_reason := reason\<rparr>))))))))
   | _ \<Rightarrow> Inl (TypeError ''model guard state must be a mapping''))"

subsection \<open>Operations\<close>

definition snapshot_now :: "(circuit_breaker, guard_snapshot) prog" where
  "snapshot_now = readP guard_snapshot_of"

definition raise_if_tripped :: "(circuit_breaker, unit) prog" where
  "raise_if_tripped = (\<lambda>g. case cb_trip_reason g of
     Some TR_model_turn_budget \<Rightarrow> raise (turn_budget_exceeded (guard_snapshot_of g)) g
   | Some TR_no_progress \<Rightarrow> raise (no_progress_error (guard_snapshot_of g)) g
   | None \<Rightarrow> ret () g)"

definition trip :: "trip_reason \<Rightarrow> (guard_snapshot \<Rightarrow> exn) \<Rightarrow> (circuit_breaker, 'a) prog" where
  "trip reason error = bindP (modifyP (\<lambda>g. g\<lparr>cb_trip_reason := Some reason\<rparr>)) (\<lambda>_.
     bindP snapshot_now (\<lambda>s. raise (error s)))"

definition is_mapping :: "pyval \<Rightarrow> bool" where
  "is_mapping v = (case v of PDict _ \<Rightarrow> True | _ \<Rightarrow> False)"

definition before_model_attempt :: "guard_hashes \<Rightarrow> pyval \<Rightarrow> (circuit_breaker, guard_snapshot) prog" where
  "before_model_attempt h semantic_state = bindP raise_if_tripped (\<lambda>_.
     bindP (ofR (require (is_mapping semantic_state) (TypeError ''semantic_state must be a mapping''))) (\<lambda>_.
     bindP (readP (\<lambda>g. g)) (\<lambda>g.
     if cb_pending_state_digest g \<noteq> None
     then raise (RuntimeError ''previous model attempt requires a response or abandonment'')
     else if cb_max_model_turns g \<le> cb_model_turns g
     then trip TR_model_turn_budget turn_budget_exceeded
     else bindP (ofR (fingerprint_json_value h ''semantic_state'' semantic_state)) (\<lambda>digest.
       bindP (modifyP (\<lambda>g. g\<lparr>cb_model_turns := cb_model_turns g + 1, cb_pending_state_digest := Some digest\<rparr>)) (\<lambda>_.
       snapshot_now)))))"

definition observe_model_response :: "guard_hashes \<Rightarrow> guarded_response \<Rightarrow> (circuit_breaker, guard_snapshot) prog" where
  "observe_model_response h response = bindP raise_if_tripped (\<lambda>_.
     bindP (readP (\<lambda>g. g)) (\<lambda>g. case cb_pending_state_digest g of
       None \<Rightarrow> raise (RuntimeError ''model response has no matching attempt'')
     | Some state_digest \<Rightarrow>
         bindP (ofR (model_response_fingerprint h response)) (\<lambda>response_digest.
         let observation = gh_hmac h (cb_salt g) (state_digest @ [CHR 0x00] @ response_digest) in
         bindP (modifyP (\<lambda>g. g\<lparr>cb_pending_state_digest := None\<rparr>)) (\<lambda>_.
         bindP (modifyP (\<lambda>g. if Some observation = cb_last_observation_digest g
           then g\<lparr>cb_no_progress_model_turns := cb_no_progress_model_turns g + 1\<rparr>
           else g\<lparr>cb_last_observation_digest := Some observation, cb_no_progress_model_turns := 1\<rparr>)) (\<lambda>_.
         bindP (readP (\<lambda>g. g)) (\<lambda>g.
         if cb_threshold g \<le> cb_no_progress_model_turns g then trip TR_no_progress no_progress_error
         else snapshot_now))))))"

definition abandon_model_attempt :: "(circuit_breaker, guard_snapshot) prog" where
  "abandon_model_attempt = bindP (modifyP (\<lambda>g. g\<lparr>cb_pending_state_digest := None\<rparr>)) (\<lambda>_. snapshot_now)"

definition mark_progress :: "(circuit_breaker, guard_snapshot) prog" where
  "mark_progress = bindP (modifyP (\<lambda>g. g\<lparr>cb_last_observation_digest := None, cb_no_progress_model_turns := 0,
     cb_trip_reason := (if cb_trip_reason g = Some TR_no_progress then None else cb_trip_reason g)\<rparr>)) (\<lambda>_. snapshot_now)"

definition reset_guard :: "string \<Rightarrow> (circuit_breaker, guard_snapshot) prog" where
  "reset_guard salt = bindP (modifyP (guard_reset salt)) (\<lambda>_. snapshot_now)"

text \<open>The calls a run can make of its breaker.\<close>

datatype guard_call = GC_before pyval | GC_observe guarded_response | GC_abandon | GC_progress | GC_reset string

fun guard_step :: "guard_hashes \<Rightarrow> guard_call \<Rightarrow> (circuit_breaker, guard_snapshot) prog" where
  "guard_step h (GC_before v) = before_model_attempt h v"
| "guard_step h (GC_observe r) = observe_model_response h r"
| "guard_step h GC_abandon = abandon_model_attempt"
| "guard_step h GC_progress = mark_progress"
| "guard_step h (GC_reset salt) = reset_guard salt"

fun guard_run :: "guard_hashes \<Rightarrow> guard_call list \<Rightarrow> circuit_breaker \<Rightarrow> guard_snapshot res list \<times> circuit_breaker" where
  "guard_run h [] g = ([], g)"
| "guard_run h (c # cs) g = (case guard_step h c g of (out, g1) \<Rightarrow>
     case guard_run h cs g1 of (outs, g2) \<Rightarrow> (out # outs, g2))"

end
