(* ===== verification/Model_Guard_Props.thy ===== *)
theory Model_Guard_Props
  imports Model_Guard
begin

text \<open>
  The circuit breaker bounds the turns of a run, survives a checkpoint in every state it can reach, and decides as
  a machine that keeps the observations themselves and not their digests.
\<close>

subsection \<open>The invariant of a breaker\<close>

definition hashes_ok :: "guard_hashes \<Rightarrow> bool" where
  "hashes_ok h \<longleftrightarrow> (\<forall>t. hex_digest (gh_sha256 h t)) \<and> (\<forall>salt t. hex_digest (gh_hmac h salt t))"

definition guard_ok :: "circuit_breaker \<Rightarrow> bool" where
  "guard_ok g \<longleftrightarrow> 1 \<le> cb_max_model_turns g \<and> 2 \<le> cb_threshold g \<and> 0 \<le> cb_no_progress_model_turns g \<and>
     cb_no_progress_model_turns g \<le> cb_model_turns g \<and>
     (cb_pending_state_digest g \<noteq> None \<longrightarrow> cb_no_progress_model_turns g < cb_model_turns g) \<and>
     cb_model_turns g \<le> cb_max_model_turns g \<and> cb_no_progress_model_turns g \<le> cb_threshold g \<and>
     (cb_no_progress_model_turns g = 0 \<longleftrightarrow> cb_last_observation_digest g = None) \<and>
     (\<forall>d. cb_last_observation_digest g = Some d \<longrightarrow> hex_digest d) \<and> hex_digest (cb_salt g) \<and>
     (cb_trip_reason g = Some TR_model_turn_budget \<longrightarrow> cb_model_turns g = cb_max_model_turns g) \<and>
     (cb_trip_reason g = Some TR_no_progress \<longleftrightarrow> cb_no_progress_model_turns g = cb_threshold g)"

lemmas guard_programs = before_model_attempt_def observe_model_response_def abandon_model_attempt_def mark_progress_def
  reset_guard_def raise_if_tripped_def trip_def snapshot_now_def

lemma new_guard:
  assumes "NoProgressCircuitBreaker (PInt m) (PInt t) salt = Inr g"
  shows "1 \<le> m \<and> 2 \<le> t \<and> g = guard_reset salt \<lparr>cb_max_model_turns = m, cb_threshold = t, cb_model_turns = 0,
    cb_no_progress_model_turns = 0, cb_pending_state_digest = None, cb_last_observation_digest = None, cb_salt = [], cb_trip_reason = None\<rparr>"
  using assms by (auto simp: NoProgressCircuitBreaker_def validate_positive_integer_def bindR_Inr_iff split: if_splits)

lemma new_guard_ok: "NoProgressCircuitBreaker (PInt m) (PInt t) salt = Inr g \<Longrightarrow> hex_digest salt \<Longrightarrow> guard_ok g"
  by (drule new_guard) (auto simp: guard_ok_def guard_reset_def)

text \<open>What an attempt and a response do, as one case distinction each.\<close>

lemma before_run: "before_model_attempt h v g =
    (if cb_trip_reason g = Some TR_model_turn_budget then (Inl (turn_budget_exceeded (guard_snapshot_of g)), g)
     else if cb_trip_reason g = Some TR_no_progress then (Inl (no_progress_error (guard_snapshot_of g)), g)
     else if \<not> is_mapping v then (Inl (TypeError ''semantic_state must be a mapping''), g)
     else if cb_pending_state_digest g \<noteq> None
     then (Inl (RuntimeError ''previous model attempt requires a response or abandonment''), g)
     else if cb_max_model_turns g \<le> cb_model_turns g
     then (let g' = g\<lparr>cb_trip_reason := Some TR_model_turn_budget\<rparr> in (Inl (turn_budget_exceeded (guard_snapshot_of g')), g'))
     else case fingerprint_json_value h ''semantic_state'' v of Inl e \<Rightarrow> (Inl e, g)
       | Inr digest \<Rightarrow> (let g' = g\<lparr>cb_model_turns := cb_model_turns g + 1, cb_pending_state_digest := Some digest\<rparr> in
           (Inr (guard_snapshot_of g'), g')))"
  by (auto simp: guard_programs run_simps require_def Let_def split: option.splits trip_reason.splits sum.splits)

definition counted :: "string \<Rightarrow> circuit_breaker \<Rightarrow> circuit_breaker" where
  "counted observation g = (if Some observation = cb_last_observation_digest g
     then g\<lparr>cb_pending_state_digest := None, cb_no_progress_model_turns := cb_no_progress_model_turns g + 1\<rparr>
     else g\<lparr>cb_pending_state_digest := None, cb_last_observation_digest := Some observation, cb_no_progress_model_turns := 1\<rparr>)"

lemma observe_run: "observe_model_response h r g =
    (if cb_trip_reason g = Some TR_model_turn_budget then (Inl (turn_budget_exceeded (guard_snapshot_of g)), g)
     else if cb_trip_reason g = Some TR_no_progress then (Inl (no_progress_error (guard_snapshot_of g)), g)
     else case cb_pending_state_digest g of
       None \<Rightarrow> (Inl (RuntimeError ''model response has no matching attempt''), g)
     | Some digest \<Rightarrow> (case model_response_fingerprint h r of Inl e \<Rightarrow> (Inl e, g)
       | Inr response_digest \<Rightarrow>
         (let g' = counted (gh_hmac h (cb_salt g) (digest @ [CHR 0x00] @ response_digest)) g in
          if cb_threshold g \<le> cb_no_progress_model_turns g'
          then (let g2 = g'\<lparr>cb_trip_reason := Some TR_no_progress\<rparr> in (Inl (no_progress_error (guard_snapshot_of g2)), g2))
          else (Inr (guard_snapshot_of g'), g'))))"
  by (auto simp: guard_programs run_simps Let_def counted_def split: option.splits trip_reason.splits sum.splits)

lemma other_runs:
  "abandon_model_attempt g = (let g' = g\<lparr>cb_pending_state_digest := None\<rparr> in (Inr (guard_snapshot_of g'), g'))"
  "mark_progress g = (let g' = g\<lparr>cb_last_observation_digest := None, cb_no_progress_model_turns := 0,
     cb_trip_reason := (if cb_trip_reason g = Some TR_no_progress then None else cb_trip_reason g)\<rparr> in (Inr (guard_snapshot_of g'), g'))"
  "reset_guard salt g = (let g' = guard_reset salt g in (Inr (guard_snapshot_of g'), g'))"
  by (simp_all add: guard_programs run_simps Let_def)

lemma guard_step_limits: "guard_step h c g = (out, g') \<Longrightarrow> cb_max_model_turns g' = cb_max_model_turns g \<and> cb_threshold g' = cb_threshold g"
  by (cases c) (auto simp: before_run observe_run other_runs counted_def guard_reset_def Let_def split: if_splits sum.splits option.splits)

lemma fingerprint_hex: "fingerprint_json_value h field v = Inr d \<Longrightarrow> hashes_ok h \<Longrightarrow> hex_digest d"
  by (auto simp: fingerprint_json_value_def bindR_Inr_iff hashes_ok_def)

lemma guard_step_ok:
  assumes ok: "guard_ok g" and hashes: "hashes_ok h" and salt: "\<forall>salt. c = GC_reset salt \<longrightarrow> hex_digest salt"
    and step: "guard_step h c g = (out, g')"
  shows "guard_ok g'"
proof (cases c)
  case (GC_before v)
  show ?thesis
    using step ok unfolding GC_before guard_step.simps before_run
    by (auto simp: guard_ok_def Let_def split: if_splits sum.splits)
next
  case (GC_observe r)
  show ?thesis
    using step ok hashes unfolding GC_observe guard_step.simps observe_run
    by (auto simp: guard_ok_def hashes_ok_def counted_def Let_def split: if_splits sum.splits option.splits)
next
  case GC_abandon
  have "g' = g\<lparr>cb_pending_state_digest := None\<rparr>" using step by (simp add: GC_abandon other_runs Let_def)
  then show ?thesis using ok by (simp add: guard_ok_def)
next
  case GC_progress
  have "g' = g\<lparr>cb_last_observation_digest := None, cb_no_progress_model_turns := 0,
     cb_trip_reason := (if cb_trip_reason g = Some TR_no_progress then None else cb_trip_reason g)\<rparr>"
    using step by (simp add: GC_progress other_runs Let_def)
  then show ?thesis using ok by (auto simp: guard_ok_def)
next
  case (GC_reset salt1)
  have "g' = guard_reset salt1 g" using step by (simp add: GC_reset other_runs Let_def)
  then show ?thesis using ok salt GC_reset by (simp add: guard_ok_def guard_reset_def)
qed

lemma guard_run_ok:
  assumes "guard_ok g" and "hashes_ok h" and "\<forall>salt. GC_reset salt \<in> set cs \<longrightarrow> hex_digest salt" and "guard_run h cs g = (outs, g')"
  shows "guard_ok g' \<and> cb_max_model_turns g' = cb_max_model_turns g \<and> cb_threshold g' = cb_threshold g"
  using assms
proof (induction cs arbitrary: g outs)
  case (Cons c cs)
  obtain out g1 where one: "guard_step h c g = (out, g1)" by fastforce
  obtain outs1 where rest: "guard_run h cs g1 = (outs1, g')" using Cons.prems(4) one by (auto split: prod.splits)
  have "guard_ok g1" using guard_step_ok [OF Cons.prems(1,2) _ one] Cons.prems(3) by auto
  from Cons.IH [OF this Cons.prems(2) _ rest] show ?case
    using Cons.prems(3) guard_step_limits [OF one] by auto
qed auto

subsection \<open>The durable state\<close>

lemma read_trip_reason_value [simp]: "read_trip_reason (optional_str (map_option trip_reason_value r)) = Inr r"
  by (cases r; cases "the r") (auto simp: read_trip_reason_def optional_str_def)

lemma optional_str_simps [simp]: "optional_str x = PNone \<longleftrightarrow> x = None" "str_of (optional_str x) = x"
  "is_sha256_digest (optional_str x) \<longleftrightarrow> (\<exists>t. x = Some t \<and> hex_digest t)" "is_sha256_digest (PStr t) \<longleftrightarrow> hex_digest t"
  "str_of (PStr t) = Some t"
  by (auto simp: optional_str_def str_of_def is_sha256_digest_def split: option.splits)

lemma guard_ok_reloads:
  assumes "guard_ok g"
  shows "guard_from_state (guard_to_state g) (PInt (cb_max_model_turns g)) (PInt (cb_threshold g)) salt =
    Inr (g\<lparr>cb_pending_state_digest := None\<rparr>)"
proof -
  have "0 \<le> cb_model_turns g"
    using assms by (auto simp: guard_ok_def)
  then show ?thesis
    using assms
    by (auto simp: guard_from_state_def guard_to_state_def guard_ok_def entry_of_def is_state_version_def NoProgressCircuitBreaker_def
        validate_positive_integer_def non_negative_integer_def guard_reset_def all_ok.simps)
qed

text \<open>C32. Whatever calls a run has made of its breaker, the state it writes to a checkpoint restores this very breaker;
  only an attempt without its response is forgotten.\<close>

theorem guard_state_round_trip:
  assumes "hashes_ok h" and "NoProgressCircuitBreaker (PInt m) (PInt t) salt = Inr g0" and "hex_digest salt"
    and "\<forall>salt'. GC_reset salt' \<in> set cs \<longrightarrow> hex_digest salt'" and "guard_run h cs g0 = (outs, g)"
  shows "guard_from_state (guard_to_state g) (PInt m) (PInt t) fresh_salt = Inr (g\<lparr>cb_pending_state_digest := None\<rparr>)"
proof -
  have "cb_max_model_turns g0 = m" "cb_threshold g0 = t"
    using new_guard [OF assms(2)] by (auto simp: guard_reset_def)
  then show ?thesis
    using guard_run_ok [OF new_guard_ok [OF assms(2,3)] assms(1,4,5)] guard_ok_reloads [of g] by auto
qed

subsection \<open>The bound on the turns\<close>

definition admitted :: "guard_call \<Rightarrow> guard_snapshot res \<Rightarrow> nat" where
  "admitted c out = (case c of GC_before v \<Rightarrow> of_bool (\<exists>s. out = Inr s) | _ \<Rightarrow> 0)"

lemma guard_step_counts:
  assumes "guard_step h c g = (out, g')" and "\<forall>salt. c \<noteq> GC_reset salt"
  shows "cb_model_turns g' = cb_model_turns g + int (admitted c out)"
  using assms
  by (cases c) (auto simp: before_run observe_run other_runs counted_def Let_def admitted_def split: if_splits sum.splits option.splits)

lemma guard_step_capped:
  assumes "guard_step h c g = (out, g')" and "cb_model_turns g \<le> cb_max_model_turns g" and "\<forall>salt. c \<noteq> GC_reset salt"
  shows "cb_model_turns g' \<le> cb_max_model_turns g'"
  using assms
  by (cases c) (auto simp: before_run observe_run other_runs counted_def Let_def split: if_splits sum.splits option.splits)

lemma guard_run_counts:
  assumes "guard_run h cs g = (outs, g')" and "\<forall>salt. GC_reset salt \<notin> set cs" and "cb_model_turns g \<le> cb_max_model_turns g"
  shows "cb_model_turns g + int (sum_list (map2 admitted cs outs)) = cb_model_turns g' \<and> cb_model_turns g' \<le> cb_max_model_turns g"
  using assms
proof (induction cs arbitrary: g outs)
  case (Cons c cs)
  obtain out g1 where one: "guard_step h c g = (out, g1)" by fastforce
  obtain outs1 where rest: "guard_run h cs g1 = (outs1, g')" "outs = out # outs1" using Cons.prems(1) one by (auto split: prod.splits)
  have no_reset: "\<forall>salt. c \<noteq> GC_reset salt" "\<forall>salt. GC_reset salt \<notin> set cs" using Cons.prems(2) by auto
  from Cons.IH [OF rest(1) no_reset(2) guard_step_capped [OF one Cons.prems(3) no_reset(1)]] show ?case
    using guard_step_counts [OF one no_reset(1)] guard_step_limits [OF one] rest(2) by auto
qed auto

text \<open>
  However attempts, responses, failures and marks of progress follow each other, a run without a reset is let
  through to the model at most as often as its budget allows.\<close>

theorem guard_bounds_turns:
  assumes "NoProgressCircuitBreaker (PInt m) (PInt t) salt = Inr g" and "\<forall>salt'. GC_reset salt' \<notin> set cs"
  shows "int (sum_list (map2 admitted cs (fst (guard_run h cs g)))) \<le> m"
proof -
  have "cb_model_turns g = 0" "cb_max_model_turns g = m" "1 \<le> m"
    using new_guard [OF assms(1)] by (auto simp: guard_reset_def)
  moreover obtain outs g1 where "guard_run h cs g = (outs, g1)" by fastforce
  ultimately show ?thesis
    using guard_run_counts [OF _ assms(2), of h g outs g1] by simp
qed

subsection \<open>A breaker that keeps what it observes\<close>

text \<open>
  The specification: the canonical texts of state and response of every completed attempt since the last progress,
  newest first, in place of a digest and a counter.
\<close>

record guard_spec =
  gk_turns :: int
  gk_open :: "string option"
  gk_seen :: "(string \<times> string) list"
  gk_exhausted :: bool

datatype verdict = V_ok | V_turn_budget | V_no_progress | V_rejected

definition fresh_spec :: guard_spec where
  "fresh_spec = \<lparr>gk_turns = 0, gk_open = None, gk_seen = [], gk_exhausted = False\<rparr>"

fun repeats :: "'a list \<Rightarrow> nat" where
  "repeats [] = 0"
| "repeats (x # xs) = Suc (length (takeWhile ((=) x) xs))"

definition stalled :: "int \<Rightarrow> guard_spec \<Rightarrow> bool" where
  "stalled t k \<longleftrightarrow> t \<le> int (repeats (gk_seen k))"

fun spec_step :: "guard_hashes \<Rightarrow> int \<Rightarrow> int \<Rightarrow> guard_call \<Rightarrow> guard_spec \<Rightarrow> verdict \<times> guard_spec" where
  "spec_step h m t GC_abandon k = (V_ok, k\<lparr>gk_open := None\<rparr>)"
| "spec_step h m t GC_progress k = (V_ok, k\<lparr>gk_seen := []\<rparr>)"
| "spec_step h m t (GC_reset salt) k = (V_ok, fresh_spec)"
| "spec_step h m t (GC_before v) k =
     (if gk_exhausted k then (V_turn_budget, k) else if stalled t k then (V_no_progress, k)
      else if \<not> is_mapping v \<or> gk_open k \<noteq> None then (V_rejected, k)
      else if m \<le> gk_turns k then (V_turn_budget, k\<lparr>gk_exhausted := True\<rparr>)
      else case canonical_json h ''semantic_state'' v of Inl e \<Rightarrow> (V_rejected, k)
        | Inr content \<Rightarrow> (V_ok, k\<lparr>gk_turns := gk_turns k + 1, gk_open := Some content\<rparr>))"
| "spec_step h m t (GC_observe r) k =
     (if gk_exhausted k then (V_turn_budget, k) else if stalled t k then (V_no_progress, k)
      else case (gk_open k, canonical_json h ''response'' (semantic_response r)) of
        (Some content, Inr answer) \<Rightarrow> let k' = k\<lparr>gk_open := None, gk_seen := (content, answer) # gk_seen k\<rparr> in
          (if stalled t k' then V_no_progress else V_ok, k')
      | _ \<Rightarrow> (V_rejected, k))"

fun spec_run :: "guard_hashes \<Rightarrow> int \<Rightarrow> int \<Rightarrow> guard_call list \<Rightarrow> guard_spec \<Rightarrow> verdict list" where
  "spec_run h m t [] k = []"
| "spec_run h m t (c # cs) k = (case spec_step h m t c k of (v, k') \<Rightarrow> v # spec_run h m t cs k')"

definition verdict_of :: "guard_snapshot res \<Rightarrow> verdict" where
  "verdict_of out = (case out of Inr s \<Rightarrow> V_ok
     | Inl e \<Rightarrow> if exn_class e = ''ModelTurnBudgetExceeded'' then V_turn_budget
         else if exn_class e = ''ModelNoProgressError'' then V_no_progress else V_rejected)"

text \<open>The texts a run digests, and what it takes for their digests not to collide.\<close>

definition texts_of :: "guard_hashes \<Rightarrow> guard_call list \<Rightarrow> string set" where
  "texts_of h cs = {content. \<exists>v. GC_before v \<in> set cs \<and> canonical_json h ''semantic_state'' v = Inr content} \<union>
     {content. \<exists>r. GC_observe r \<in> set cs \<and> canonical_json h ''response'' (semantic_response r) = Inr content}"

definition observation_text :: "guard_hashes \<Rightarrow> string \<times> string \<Rightarrow> string" where
  "observation_text h o1 = gh_sha256 h (fst o1) @ [CHR 0x00] @ gh_sha256 h (snd o1)"

definition distinct_digests :: "guard_hashes \<Rightarrow> string set \<Rightarrow> bool" where
  "distinct_digests h texts \<longleftrightarrow> inj_on (gh_sha256 h) texts \<and>
     (\<forall>salt. inj_on (gh_hmac h salt) (observation_text h ` (texts \<times> texts)))"

lemma observation_inj:
  assumes "hashes_ok h" and "distinct_digests h texts" and "o1 \<in> texts \<times> texts" "o2 \<in> texts \<times> texts"
  shows "gh_hmac h salt (observation_text h o1) = gh_hmac h salt (observation_text h o2) \<longleftrightarrow> o1 = o2"
proof
  assume "gh_hmac h salt (observation_text h o1) = gh_hmac h salt (observation_text h o2)"
  then have "observation_text h o1 = observation_text h o2"
    using assms(2-4) by (auto simp: distinct_digests_def dest!: inj_onD)
  moreover have "length (gh_sha256 h content) = 64" for content
    using assms(1) by (simp add: hashes_ok_def hex_digest_def)
  ultimately show "o1 = o2"
    using assms(2-4) by (auto simp: observation_text_def distinct_digests_def dest: inj_onD)
qed simp

text \<open>The relation between a breaker and its specification.\<close>

definition observation_digest :: "guard_hashes \<Rightarrow> string \<Rightarrow> string \<times> string \<Rightarrow> string" where
  "observation_digest h salt o1 = gh_hmac h salt (observation_text h o1)"

definition newest_digest :: "guard_hashes \<Rightarrow> string \<Rightarrow> (string \<times> string) list \<Rightarrow> string option" where
  "newest_digest h salt seen = (case seen of [] \<Rightarrow> None | o1 # _ \<Rightarrow> Some (observation_digest h salt o1))"

lemma newest_digest_simps [simp]:
  "newest_digest h salt [] = None" "newest_digest h salt (o1 # seen) = Some (observation_digest h salt o1)"
  by (simp_all add: newest_digest_def)

definition tracks :: "guard_hashes \<Rightarrow> circuit_breaker \<Rightarrow> guard_spec \<Rightarrow> bool" where
  "tracks h g k \<longleftrightarrow> gk_turns k = cb_model_turns g \<and> cb_pending_state_digest g = map_option (gh_sha256 h) (gk_open k) \<and>
     cb_last_observation_digest g = newest_digest h (cb_salt g) (gk_seen k) \<and>
     cb_no_progress_model_turns g = int (repeats (gk_seen k)) \<and>
     cb_trip_reason g = (if gk_exhausted k then Some TR_model_turn_budget
       else if stalled (cb_threshold g) k then Some TR_no_progress else None)"

definition inside :: "string set \<Rightarrow> guard_spec \<Rightarrow> bool" where
  "inside texts k \<longleftrightarrow> set_option (gk_open k) \<subseteq> texts \<and> set (gk_seen k) \<subseteq> texts \<times> texts"

lemma verdict_simps [simp]:
  "verdict_of (Inr s) = V_ok" "verdict_of (Inl (turn_budget_exceeded s)) = V_turn_budget"
  "verdict_of (Inl (no_progress_error s)) = V_no_progress" "verdict_of (Inl (TypeError t)) = V_rejected"
  "verdict_of (Inl (RuntimeError t)) = V_rejected"
  by (simp_all add: verdict_of_def turn_budget_exceeded_def no_progress_error_def guard_error_def)

lemma mapR_error: "mapR f xs = Inl e \<Longrightarrow> \<exists>x \<in> set xs. f x = Inl e"
  by (induction xs) (auto split: sum.splits)

lemma normalize_error: "normalize_json_value field v = Inl e \<Longrightarrow> \<exists>t. e = TypeError t"
proof (induction field v arbitrary: e rule: normalize_json_value.induct)
  case (2 field d)
  then show ?case by (fastforce simp: bindR_Inl_iff dest!: mapR_error)
next
  case (3 field vs)
  then show ?case by (fastforce simp: bindR_Inl_iff dest!: mapR_error)
qed auto

lemma canonical_error: "canonical_json h field v = Inl e \<Longrightarrow> verdict_of (Inl e) = V_rejected"
  by (auto simp: canonical_json_def bindR_Inl_iff dest!: normalize_error)

lemma fingerprint_cases:
  "fingerprint_json_value h field v = (case canonical_json h field v of Inl e \<Rightarrow> Inl e | Inr content \<Rightarrow> Inr (gh_sha256 h content))"
  by (simp add: fingerprint_json_value_def bindR_def split: sum.splits)

lemma repeats_Cons: "repeats (o1 # os) = (case os of [] \<Rightarrow> 1 | o2 # _ \<Rightarrow> if o2 = o1 then Suc (repeats os) else 1)"
  by (cases os) auto

lemma counted_tracks:
  assumes "tracks h g k" and "inside texts k" and "hashes_ok h" "distinct_digests h texts" and "o1 \<in> texts \<times> texts"
    and "\<not> gk_exhausted k" and t: "cb_threshold g = t"
  defines "k' \<equiv> k\<lparr>gk_open := None, gk_seen := o1 # gk_seen k\<rparr>"
    and "g' \<equiv> counted (observation_digest h (cb_salt g) o1) g"
  shows "tracks h (if t \<le> cb_no_progress_model_turns g' then g'\<lparr>cb_trip_reason := Some TR_no_progress\<rparr> else g'\<lparr>cb_trip_reason := None\<rparr>) k' \<and>
    (t \<le> cb_no_progress_model_turns g' \<longleftrightarrow> stalled t k')"
proof -
  have same: "observation_digest h salt o1 = observation_digest h salt o2 \<longleftrightarrow> o1 = o2" if "o2 \<in> set (gk_seen k)" for o2 salt
    using observation_inj [OF assms(3,4,5), of o2 salt] that assms(2) by (auto simp: inside_def observation_digest_def)
  have "cb_no_progress_model_turns g' = int (repeats (gk_seen k'))"
    using assms(1) same by (cases "gk_seen k") (auto simp: tracks_def g'_def k'_def counted_def repeats_Cons simp del: repeats.simps(2))
  moreover have "cb_last_observation_digest g' = Some (observation_digest h (cb_salt g') o1)"
    using assms(1) same by (cases "gk_seen k") (auto simp: tracks_def g'_def counted_def)
  moreover have "cb_model_turns g' = cb_model_turns g" "cb_pending_state_digest g' = None" "cb_threshold g' = t"
    using t by (auto simp: g'_def counted_def)
  ultimately show ?thesis
    using assms(1,6) t by (auto simp: tracks_def k'_def stalled_def)
qed

lemma before_tracks:
  assumes "tracks h g k" and "cb_threshold g = t"
    and "before_model_attempt h v g = (out, g')" "spec_step h (cb_max_model_turns g) t (GC_before v) k = (verdict, k')"
  shows "tracks h g' k' \<and> verdict_of out = verdict"
proof (cases "canonical_json h ''semantic_state'' v")
  case (Inl e)
  then show ?thesis
    using assms canonical_error [OF Inl]
    by (auto simp: before_run tracks_def stalled_def fingerprint_cases Let_def split: if_splits)
next
  case (Inr content)
  then show ?thesis
    using assms by (auto simp: before_run tracks_def stalled_def fingerprint_cases Let_def split: if_splits)
qed

lemma observe_tracks:
  assumes "tracks h g k" and "cb_threshold g = t" and "inside texts k" and "hashes_ok h" "distinct_digests h texts"
    and "\<And>answer. canonical_json h ''response'' (semantic_response r) = Inr answer \<Longrightarrow> answer \<in> texts"
    and "observe_model_response h r g = (out, g')" "spec_step h m t (GC_observe r) k = (verdict, k')"
  shows "tracks h g' k' \<and> verdict_of out = verdict"
proof (cases "gk_exhausted k \<or> stalled t k \<or> gk_open k = None")
  case True
  then show ?thesis
    using assms(1,2,7,8) by (auto simp: observe_run tracks_def split: if_splits option.splits)
next
  case False
  then obtain content where going: "\<not> gk_exhausted k" "\<not> stalled t k" "gk_open k = Some content" by auto
  then have open1: "cb_trip_reason g = None" "cb_pending_state_digest g = Some (gh_sha256 h content)" "content \<in> texts"
    using assms(1,2,3) by (auto simp: tracks_def inside_def)
  show ?thesis
  proof (cases "canonical_json h ''response'' (semantic_response r)")
    case (Inl e)
    then show ?thesis
      using assms(1,7,8) going open1 canonical_error [OF Inl]
      by (auto simp: observe_run model_response_fingerprint_def fingerprint_cases)
  next
    case (Inr answer)
    then have pair: "(content, answer) \<in> texts \<times> texts" using assms(6) open1 by simp
    note counted_tracks [OF assms(1,3,4,5) pair going(1) assms(2)]
    moreover have "(counted d g)\<lparr>cb_trip_reason := None\<rparr> = counted d g" for d
      using open1(1) by (simp add: counted_def)
    ultimately show ?thesis
      using assms(2,7,8) going open1 Inr
      by (auto simp: observe_run model_response_fingerprint_def fingerprint_cases observation_digest_def observation_text_def
          Let_def split: if_splits)
  qed
qed

lemma step_tracks:
  assumes tracks: "tracks h g k" and "cb_threshold g = t" "cb_max_model_turns g = m" and "inside texts k" and "hashes_ok h"
    and "distinct_digests h texts" and texts: "texts_of h [c] \<subseteq> texts" and "1 \<le> t"
    and step: "guard_step h c g = (out, g')" and spec: "spec_step h m t c k = (verdict, k')"
  shows "tracks h g' k' \<and> verdict_of out = verdict \<and> inside texts k'"
proof -
  have "inside texts k'"
    using spec texts \<open>inside texts k\<close>
    by (cases c) (auto simp: inside_def fresh_spec_def texts_of_def Let_def split: if_splits sum.splits option.splits)
  moreover have "tracks h g' k' \<and> verdict_of out = verdict"
  proof (cases c)
    case (GC_before v)
    then show ?thesis using before_tracks [OF tracks assms(2)] step spec assms(3) by simp
  next
    case (GC_observe r)
    then show ?thesis
      using observe_tracks [OF tracks assms(2,4,5,6), of r] step spec texts by (auto simp: texts_of_def)
  next
    case GC_abandon
    then show ?thesis using tracks step spec by (auto simp: other_runs tracks_def stalled_def Let_def)
  next
    case GC_progress
    then show ?thesis using tracks step spec assms(2,8) by (auto simp: other_runs tracks_def stalled_def Let_def)
  next
    case (GC_reset salt)
    then show ?thesis
      using tracks step spec assms(2,8) by (auto simp: other_runs tracks_def stalled_def fresh_spec_def guard_reset_def Let_def)
  qed
  ultimately show ?thesis by simp
qed

lemma texts_of_Cons: "texts_of h (c # cs) = texts_of h [c] \<union> texts_of h cs"
  by (auto simp: texts_of_def)

lemma run_tracks:
  assumes "tracks h g k" and "cb_threshold g = t" "cb_max_model_turns g = m" and "inside texts k" and "hashes_ok h"
    and "distinct_digests h texts" and "texts_of h cs \<subseteq> texts" and "1 \<le> t"
  shows "map verdict_of (fst (guard_run h cs g)) = spec_run h m t cs k"
  using assms
proof (induction cs arbitrary: g k)
  case (Cons c cs)
  obtain out g1 where one: "guard_step h c g = (out, g1)" by fastforce
  obtain verdict k1 where spec: "spec_step h m t c k = (verdict, k1)" by fastforce
  have texts: "texts_of h [c] \<subseteq> texts" "texts_of h cs \<subseteq> texts" using Cons.prems(7) texts_of_Cons [of h c cs] by auto
  note stepped = step_tracks [OF Cons.prems(1-6) texts(1) Cons.prems(8) one spec]
  from Cons.IH [of g1 k1] have "map verdict_of (fst (guard_run h cs g1)) = spec_run h m t cs k1"
    using stepped guard_step_limits [OF one] Cons.prems texts(2) by simp
  then show ?case using one spec stepped by (auto split: prod.splits)
qed simp

text \<open>C31. The breaker answers every sequence of calls as the machine that keeps the observations themselves: it refuses an
  attempt beyond the budget, and it trips exactly when the last \<^verbatim>\<open>threshold\<close> completed attempts since the last
  progress had the same state and the same response.\<close>

theorem guard_meets_spec:
  assumes "NoProgressCircuitBreaker (PInt m) (PInt t) salt = Inr g" and "hashes_ok h" and "distinct_digests h (texts_of h cs)"
  shows "map verdict_of (fst (guard_run h cs g)) = spec_run h m t cs fresh_spec"
proof -
  note new = new_guard [OF assms(1)]
  show ?thesis
  proof (rule run_tracks [OF _ _ _ _ assms(2,3) order.refl])
    show "tracks h g fresh_spec" using new by (auto simp: tracks_def fresh_spec_def guard_reset_def stalled_def)
  qed (use new in \<open>auto simp: guard_reset_def inside_def fresh_spec_def\<close>)
qed

end
