(* ===== verification/Model_Guard_Samples.thy ===== *)
theory Model_Guard_Samples
  imports Model_Guard_Props
begin

text \<open>
  A run that asks the same question and gets the same answer three times, with one failed attempt in between; the
  theorems on the breaker at this run.
\<close>

definition hex_chars :: string where
  "hex_chars = ''0123456789abcdef''"

definition hex_of :: "char \<Rightarrow> char" where
  "hex_of c = (if c \<in> set hex_chars then c else CHR ''0'')"

definition zeros :: "nat \<Rightarrow> string" where
  "zeros n = replicate n (CHR ''0'')"

lemma zeros_simps [simp]: "length (zeros n) = n" "c \<in> set (zeros n) \<longleftrightarrow> n \<noteq> 0 \<and> c = CHR ''0''"
  by (auto simp: zeros_def)

definition toy_hashes :: guard_hashes where
  "toy_hashes = \<lparr>gh_json = (\<lambda>v. case v of PDict ((_, PStr t) # _) \<Rightarrow> t | _ \<Rightarrow> []),
     gh_sha256 = (\<lambda>t. zeros 63 @ [hex_of (hex_chars ! (length t mod 16))]),
     gh_hmac = (\<lambda>salt t. zeros 62 @ [hex_of (t ! 63), hex_of (t ! 128)])\<rparr>"

lemma hex_of_hex: "hex_of c \<in> set hex_chars"
  by (simp add: hex_of_def hex_chars_def)

lemma toy_hashes_ok: "hashes_ok toy_hashes"
  using hex_of_hex by (auto simp: hashes_ok_def toy_hashes_def hex_digest_def hex_chars_def list_all_iff)

definition same_answer :: guarded_response where
  "same_answer = \<lparr>gr_content = Some ''same'', gr_message_tool_calls = [], gr_tool_calls = [], gr_finish_reason = Some ''stop''\<rparr>"

definition ask :: guard_call where
  "ask = GC_before (PDict [(''phase'', PStr ''ask'')])"

definition repeated_calls :: "guard_call list" where
  "repeated_calls = [ask, GC_observe same_answer, ask, GC_abandon, ask, GC_observe same_answer, ask, GC_observe same_answer]"

definition zero_salt :: string where
  "zero_salt = replicate 64 (CHR ''0'')"

definition toy_breaker :: "int \<Rightarrow> circuit_breaker" where
  "toy_breaker turns = guard_reset zero_salt \<lparr>cb_max_model_turns = turns, cb_threshold = 3, cb_model_turns = 0,
     cb_no_progress_model_turns = 0, cb_pending_state_digest = None, cb_last_observation_digest = None, cb_salt = [],
     cb_trip_reason = None\<rparr>"

lemma toy_breaker_new: "1 \<le> turns \<Longrightarrow> NoProgressCircuitBreaker (PInt turns) (PInt 3) zero_salt = Inr (toy_breaker turns)"
  by (simp add: NoProgressCircuitBreaker_def validate_positive_integer_def toy_breaker_def)

lemma repeated_texts: "texts_of toy_hashes repeated_calls = {''ask'', ''same''}"
proof -
  have "canonical_json toy_hashes ''semantic_state'' (PDict [(''phase'', PStr ''ask'')]) = Inr ''ask''"
    "canonical_json toy_hashes ''response'' (semantic_response same_answer) = Inr ''same''"
    by (simp_all add: canonical_json_def toy_hashes_def semantic_response_def same_answer_def optional_str_def)
  then show ?thesis by (auto simp: texts_of_def repeated_calls_def ask_def)
qed

lemma toy_sha: "gh_sha256 toy_hashes t = zeros 63 @ [hex_of (hex_chars ! (length t mod 16))]"
  by (simp add: toy_hashes_def)

lemma digits:
  assumes "length xs = 63" and "length ys = 63"
  shows "(xs @ x # s # ys @ [y]) ! 63 = x \<and> (xs @ x # s # ys @ [y]) ! 128 = y"
proof -
  have "(xs @ x # s # ys @ [y]) ! length xs = x" by (rule nth_append_length)
  moreover have "((xs @ x # s # ys) @ y # []) ! length (xs @ x # s # ys) = y" by (rule nth_append_length)
  ultimately show ?thesis using assms by simp
qed

lemma toy_hmac: "gh_hmac toy_hashes salt (observation_text toy_hashes (t, u)) =
    zeros 62 @ [hex_of (hex_of (hex_chars ! (length t mod 16))), hex_of (hex_of (hex_chars ! (length u mod 16)))]"
  using digits [of "zeros 63" "zeros 63"] unfolding observation_text_def fst_conv snd_conv toy_sha by (simp add: toy_hashes_def)

lemma toy_digits: "hex_of (hex_chars ! 3) = CHR ''3''" "hex_of (hex_chars ! 4) = CHR ''4''" "hex_of (CHR ''3'') = CHR ''3''"
    "hex_of (CHR ''4'') = CHR ''4''"
  by code_simp+

lemma repeated_distinct: "distinct_digests toy_hashes (texts_of toy_hashes repeated_calls)"
proof -
  have "gh_sha256 toy_hashes ''ask'' \<noteq> gh_sha256 toy_hashes ''same''"
    by (simp add: toy_sha toy_digits)
  then have "inj_on (gh_sha256 toy_hashes) {''ask'', ''same''}" by auto
  moreover have same: "o1 = o2" if "gh_hmac toy_hashes salt (observation_text toy_hashes o1) = gh_hmac toy_hashes salt (observation_text toy_hashes o2)"
    "o1 \<in> {''ask'', ''same''} \<times> {''ask'', ''same''}" "o2 \<in> {''ask'', ''same''} \<times> {''ask'', ''same''}" for salt o1 o2
    using that by (auto simp: toy_hmac toy_digits)
  moreover have "inj_on (gh_hmac toy_hashes salt) (observation_text toy_hashes ` ({''ask'', ''same''} \<times> {''ask'', ''same''}))" for salt
  proof (rule inj_onI, elim imageE)
    fix x y o1 o2
    assume "gh_hmac toy_hashes salt x = gh_hmac toy_hashes salt y" and x: "x = observation_text toy_hashes o1"
      and y: "y = observation_text toy_hashes o2" and "o1 \<in> {''ask'', ''same''} \<times> {''ask'', ''same''}" "o2 \<in> {''ask'', ''same''} \<times> {''ask'', ''same''}"
    then have "o1 = o2" by (intro same [of salt]) (simp_all only:)
    then show "x = y" using x y by (simp only:)
  qed
  ultimately show ?thesis
    unfolding distinct_digests_def repeated_texts by (simp only: simp_thms)
qed

theorem guard_meets_spec_witness:
  "map verdict_of (fst (guard_run toy_hashes repeated_calls (toy_breaker 9))) =
     [V_ok, V_ok, V_ok, V_ok, V_ok, V_ok, V_ok, V_no_progress]"
proof -
  have "spec_run toy_hashes 9 3 repeated_calls fresh_spec = [V_ok, V_ok, V_ok, V_ok, V_ok, V_ok, V_ok, V_no_progress]"
    by code_simp
  then show ?thesis
    using guard_meets_spec [OF toy_breaker_new toy_hashes_ok repeated_distinct, of 9] by simp
qed

theorem guard_state_round_trip_witness:
  "guard_from_state (guard_to_state (snd (guard_run toy_hashes (take 7 repeated_calls) (toy_breaker 9)))) (PInt 9) (PInt 3) [] =
     Inr ((snd (guard_run toy_hashes (take 7 repeated_calls) (toy_breaker 9)))\<lparr>cb_pending_state_digest := None\<rparr>)"
proof (rule guard_state_round_trip [OF toy_hashes_ok toy_breaker_new])
  show "hex_digest zero_salt" by code_simp
  show "\<forall>salt. GC_reset salt \<in> set (take 7 repeated_calls) \<longrightarrow> hex_digest salt"
    by (simp add: repeated_calls_def ask_def)
  show "guard_run toy_hashes (take 7 repeated_calls) (toy_breaker 9) =
      (fst (guard_run toy_hashes (take 7 repeated_calls) (toy_breaker 9)),
       snd (guard_run toy_hashes (take 7 repeated_calls) (toy_breaker 9)))" by (rule prod.collapse [symmetric])
qed simp

theorem guard_bounds_turns_witness:
  "int (sum_list (map2 admitted [ask, GC_abandon, ask, GC_abandon, ask] (fst (guard_run toy_hashes
     [ask, GC_abandon, ask, GC_abandon, ask] (toy_breaker 2))))) \<le> 2"
  by (rule guard_bounds_turns [OF toy_breaker_new]) (simp_all add: ask_def)

end
