(* ===== verification/Conversation_Store.thy ===== *)
theory Conversation_Store
  imports Memory_Values
begin

text \<open>
  The in-memory store of conversations (\<^verbatim>\<open>InMemoryConversationStore\<close> of
  \<^verbatim>\<open>moduagent/persistence/conversation.py\<close>): sessions of encoded messages with a time to live, a capacity in sessions
  and bytes, eviction of the least recently used session, appends that happen once, and pages.  Every operation holds
  the lock, so it is one state change; the clock it reads under the lock is its argument \<open>t\<close>.  The JSON encoder and parser and SHA-256
  are parameters.
\<close>

subsection \<open>Messages and their rows\<close>

text \<open>A field that is not of its declared type is outside the model: \<^verbatim>\<open>untyped field\<close>.\<close>

definition optional_text_field :: "(string, pyval) dict \<Rightarrow> string \<Rightarrow> string option res" where
  "optional_text_field d k = (case dget d k of None \<Rightarrow> Inr None | Some PNone \<Rightarrow> Inr None | Some (PStr t) \<Rightarrow> Inr (Some t)
     | _ \<Rightarrow> Inl (OtherException ''untyped field''))"

definition mapping_field :: "(string, pyval) dict \<Rightarrow> string \<Rightarrow> (string, pyval) dict res" where
  "mapping_field d k = (case dget d k of None \<Rightarrow> Inr [] | Some (PDict e) \<Rightarrow> Inr e
     | _ \<Rightarrow> Inl (OtherException ''untyped field''))"

definition required_field :: "(string, pyval) dict \<Rightarrow> string \<Rightarrow> pyval res" where
  "required_field d k = (case dget d k of None \<Rightarrow> Inl (OtherException ''KeyError'') | Some v \<Rightarrow> Inr v)"

definition tool_call_from_dict :: "(pyval \<Rightarrow> string) \<Rightarrow> pyval \<Rightarrow> tool_call res" where
  "tool_call_from_dict text_of v = (case v of
     PDict d \<Rightarrow> bindR (required_field d ''id'') (\<lambda>i. bindR (required_field d ''name'') (\<lambda>n.
       bindR (mapping_field d ''arguments'') (\<lambda>a.
       Inr \<lparr>tk_id = text_of i, tk_name = text_of n, tk_arguments = a\<rparr>)))
   | _ \<Rightarrow> Inl (TypeError ''tool call''))"

definition role_of_text :: "string \<Rightarrow> message_role res" where
  "role_of_text t = (case filter (\<lambda>r. role_value r = t) [MR_system, MR_user, MR_assistant, MR_tool] of
     [] \<Rightarrow> Inl (ValueError (t @ '' is not a valid MessageRole'')) | r # _ \<Rightarrow> Inr r)"

definition message_from_dict :: "(pyval \<Rightarrow> string) \<Rightarrow> pyval \<Rightarrow> chat_message res" where
  "message_from_dict text_of v = (case v of
     PDict d \<Rightarrow> bindR (required_field d ''role'') (\<lambda>role_field.
       bindR (role_of_text (text_of role_field)) (\<lambda>role.
       bindR (optional_text_field d ''content'') (\<lambda>content.
       bindR (case dget d ''tool_calls'' of None \<Rightarrow> Inr [] | Some (PList vs) \<Rightarrow> mapR (tool_call_from_dict text_of) vs
         | _ \<Rightarrow> Inl (OtherException ''untyped field'')) (\<lambda>calls.
       bindR (optional_text_field d ''tool_call_id'') (\<lambda>call_id.
       bindR (optional_text_field d ''name'') (\<lambda>name.
       bindR (mapping_field d ''metadata'') (\<lambda>metadata.
       Inr \<lparr>ms_role = role, ms_content = content, ms_tool_calls = calls, ms_tool_call_id = call_id, ms_name = name,
         ms_metadata = metadata\<rparr>)))))))
   | _ \<Rightarrow> Inl (TypeError ''message''))"

record conversation_codec =
  cd_dumps :: "pyval \<Rightarrow> string"
  cd_canonical :: "pyval \<Rightarrow> string"
  cd_loads :: "string \<Rightarrow> pyval res"
  cd_text :: "pyval \<Rightarrow> string"
  cd_sha256 :: "string \<Rightarrow> string"

definition encode_message_row :: "conversation_codec \<Rightarrow> chat_message \<Rightarrow> string" where
  "encode_message_row cd m = cd_dumps cd (message_to_dict m)"

definition decode_message_row :: "conversation_codec \<Rightarrow> string \<Rightarrow> chat_message res" where
  "decode_message_row cd row = bindR (cd_loads cd row) (\<lambda>v. case v of
     PDict _ \<Rightarrow> message_from_dict (cd_text cd) v | _ \<Rightarrow> Inl (ValueError ''stored message must be a JSON object''))"

text \<open>The length of the UTF-8 form of a text of Latin-1 characters.\<close>

definition utf8_length :: "string \<Rightarrow> int" where
  "utf8_length t = sum_list (map (\<lambda>c. if (of_char c :: nat) < 128 then 1 else 2) t)"

definition message_rows_size :: "string list \<Rightarrow> int" where
  "message_rows_size rows = sum_list (map utf8_length rows)"

fun join_rows :: "string list \<Rightarrow> string" where
  "join_rows [] = []"
| "join_rows [r] = r"
| "join_rows (r # rs) = r @ '','' @ join_rows rs"

definition message_rows_digest :: "conversation_codec \<Rightarrow> string list \<Rightarrow> string" where
  "message_rows_digest cd rows = ''sha256:'' @ cd_sha256 cd
     ([CHR ''{'', CHR 0x22] @ ''version'' @ [CHR 0x22] @ '':1,'' @ [CHR 0x22] @ ''messages'' @ [CHR 0x22] @ '':['' @
      join_rows rows @ '']}'')"

subsection \<open>Pages\<close>

definition store_identifier :: "string \<Rightarrow> string \<Rightarrow> unit res" where
  "store_identifier value1 name = require (strip value1 \<noteq> []) (ValueError (name @ '' cannot be empty''))"

record sequenced_message =
  qm_sequence :: int
  qm_message_id :: string
  qm_message :: chat_message

definition SequencedMessage :: "sequenced_message \<Rightarrow> sequenced_message res" where
  "SequencedMessage m = bindR (require (1 \<le> qm_sequence m) (ValueError ''message sequence must be a positive integer'')) (\<lambda>_.
     bindR (store_identifier (qm_message_id m) ''message_id'') (\<lambda>_. Inr m))"

record conversation_page =
  pg_items :: "sequenced_message list"
  pg_after_sequence :: int
  pg_next_sequence :: int
  pg_has_more :: bool

definition validate_after_sequence :: "int \<Rightarrow> unit res" where
  "validate_after_sequence n = require (0 \<le> n) (ValueError ''after_sequence must be a non-negative integer'')"

definition validate_page_request :: "int \<Rightarrow> int \<Rightarrow> unit res" where
  "validate_page_request after_sequence limit = bindR (validate_after_sequence after_sequence) (\<lambda>_.
     require (1 \<le> limit \<and> limit \<le> 10000) (ValueError ''limit must be between 1 and 10000''))"

definition ConversationPage :: "conversation_page \<Rightarrow> conversation_page res" where
  "ConversationPage p = (let actual = map qm_sequence (pg_items p) in
     bindR (validate_after_sequence (pg_after_sequence p)) (\<lambda>_.
     bindR (require (0 \<le> pg_next_sequence p) (ValueError ''next_sequence cannot be negative'')) (\<lambda>_.
     bindR (require (actual = map (\<lambda>i. pg_after_sequence p + 1 + int i) [0..<length (pg_items p)])
       (ValueError ''ConversationPage sequences must be contiguous'')) (\<lambda>_.
     bindR (require (pg_next_sequence p = (if actual = [] then pg_after_sequence p else last actual))
       (ValueError ''next_sequence must equal the last returned sequence'')) (\<lambda>_. Inr p)))))"

definition source_message_id :: "conversation_codec \<Rightarrow> string \<Rightarrow> int \<Rightarrow> chat_message \<Rightarrow> string" where
  "source_message_id cd session_id sequence1 m = ''msg-v1:'' @ cd_sha256 cd
     (session_id @ [CHR 0x00] @ decimal (nat sequence1) @ [CHR 0x00] @ cd_canonical cd (message_to_dict m))"

fun number_messages :: "conversation_codec \<Rightarrow> string \<Rightarrow> int \<Rightarrow> chat_message list \<Rightarrow> sequenced_message list res" where
  "number_messages cd session_id sequence1 [] = Inr []"
| "number_messages cd session_id sequence1 (m # ms) =
     bindR (SequencedMessage \<lparr>qm_sequence = sequence1, qm_message_id = source_message_id cd session_id sequence1 m, qm_message = m\<rparr>) (\<lambda>q.
     bindR (number_messages cd session_id (sequence1 + 1) ms) (\<lambda>qs. Inr (q # qs)))"

definition conversation_page_of :: "conversation_codec \<Rightarrow> string list \<Rightarrow> string \<Rightarrow> int \<Rightarrow> bool \<Rightarrow> conversation_page res" where
  "conversation_page_of cd rows session_id after_sequence has_more =
     bindR (mapR (decode_message_row cd) rows) (\<lambda>messages.
     bindR (number_messages cd session_id (after_sequence + 1) messages) (\<lambda>items.
     ConversationPage \<lparr>pg_items = items, pg_after_sequence = after_sequence,
       pg_next_sequence = (if items = [] then after_sequence else qm_sequence (last items)), pg_has_more = has_more\<rparr>))"

subsection \<open>The state\<close>

record store_limits =
  sl_ttl_seconds :: "rat option"
  sl_max_sessions :: "int option"
  sl_max_total_bytes :: "int option"
  sl_sweep_interval :: rat

record conversation_store =
  cs_messages :: "(string, string list) dict"
  cs_idempotency :: "(string, (string, string) dict) dict"
  cs_expires_at :: "(string, rat) dict"
  cs_session_bytes :: "(string, int) dict"
  cs_total_bytes :: int
  cs_last_access :: "(string, int) dict"
  cs_access_sequence :: int
  cs_next_sweep_at :: rat

definition InMemoryConversationStore :: "store_limits \<Rightarrow> rat \<Rightarrow> conversation_store res" where
  "InMemoryConversationStore l t = bindR (all_ok
     [require (case sl_ttl_seconds l of None \<Rightarrow> True | Some x \<Rightarrow> 0 < x) (ValueError ''ttl_seconds must be positive''),
      require (case sl_max_sessions l of None \<Rightarrow> True | Some n \<Rightarrow> 1 \<le> n) (ValueError ''max_sessions must be a positive integer''),
      require (case sl_max_total_bytes l of None \<Rightarrow> True | Some n \<Rightarrow> 1 \<le> n) (ValueError ''max_total_bytes must be a positive integer''),
      require (0 < sl_sweep_interval l) (ValueError ''ttl_sweep_interval_seconds must be positive'')]) (\<lambda>_.
     Inr \<lparr>cs_messages = [], cs_idempotency = [], cs_expires_at = [], cs_session_bytes = [], cs_total_bytes = 0,
       cs_last_access = [], cs_access_sequence = 0, cs_next_sweep_at = t\<rparr>)"

definition delete_session :: "string \<Rightarrow> conversation_store \<Rightarrow> conversation_store" where
  "delete_session i s = s\<lparr>cs_messages := AList.delete i (cs_messages s), cs_idempotency := AList.delete i (cs_idempotency s),
     cs_expires_at := AList.delete i (cs_expires_at s), cs_last_access := AList.delete i (cs_last_access s),
     cs_session_bytes := AList.delete i (cs_session_bytes s),
     cs_total_bytes := max 0 (cs_total_bytes s - dget_or (cs_session_bytes s) i 0)\<rparr>"

definition expired_sessions :: "rat \<Rightarrow> conversation_store \<Rightarrow> string list" where
  "expired_sessions t s = map fst (filter (\<lambda>(i, e). e \<le> t) (cs_expires_at s))"

definition sweep_sessions :: "rat \<Rightarrow> conversation_store \<Rightarrow> conversation_store" where
  "sweep_sessions t s = fold delete_session (expired_sessions t s) s"

definition sweep_if_due :: "store_limits \<Rightarrow> rat \<Rightarrow> conversation_store \<Rightarrow> conversation_store" where
  "sweep_if_due l t s = (if sl_ttl_seconds l = None \<or> t < cs_next_sweep_at s then s
     else (sweep_sessions t s)\<lparr>cs_next_sweep_at := t + sl_sweep_interval l\<rparr>)"

definition evict_if_expired :: "string \<Rightarrow> rat \<Rightarrow> conversation_store \<Rightarrow> conversation_store" where
  "evict_if_expired i t s = (case dget (cs_expires_at s) i of None \<Rightarrow> s
     | Some e \<Rightarrow> if e \<le> t then delete_session i s else s)"

definition refresh_expiry :: "store_limits \<Rightarrow> string \<Rightarrow> rat \<Rightarrow> conversation_store \<Rightarrow> conversation_store" where
  "refresh_expiry l i t s = (case sl_ttl_seconds l of None \<Rightarrow> s
     | Some ttl \<Rightarrow> s\<lparr>cs_expires_at := dset i (t + ttl) (cs_expires_at s)\<rparr>)"

definition touch_session :: "string \<Rightarrow> conversation_store \<Rightarrow> conversation_store" where
  "touch_session i s = s\<lparr>cs_access_sequence := cs_access_sequence s + 1,
     cs_last_access := dset i (cs_access_sequence s + 1) (cs_last_access s)\<rparr>"

definition record_added_bytes :: "string \<Rightarrow> int \<Rightarrow> conversation_store \<Rightarrow> conversation_store" where
  "record_added_bytes i n s = s\<lparr>cs_session_bytes := dset i (dget_or (cs_session_bytes s) i 0 + n) (cs_session_bytes s),
     cs_total_bytes := cs_total_bytes s + n\<rparr>"

definition capacity_error :: "string \<Rightarrow> exn" where
  "capacity_error text1 = DetailedException ''ConversationStoreCapacityError'' text1 []"

definition cursor_error :: exn where
  "cursor_error = DetailedException ''ConversationCursorError'' ''conversation cursor is beyond the current session'' []"

definition ensure_session_fits :: "store_limits \<Rightarrow> string \<Rightarrow> int \<Rightarrow> (conversation_store, unit) prog" where
  "ensure_session_fits l i n = (\<lambda>s. case sl_max_total_bytes l of None \<Rightarrow> (Inr (), s)
     | Some limit \<Rightarrow> if limit < dget_or (cs_session_bytes s) i 0 + n
         then (Inl (capacity_error ''conversation session exceeds max_total_bytes''), s) else (Inr (), s))"

definition capacity_exceeded :: "store_limits \<Rightarrow> conversation_store \<Rightarrow> bool" where
  "capacity_exceeded l s \<longleftrightarrow> (case sl_max_sessions l of None \<Rightarrow> False | Some n \<Rightarrow> n < int (length (cs_messages s))) \<or>
     (case sl_max_total_bytes l of None \<Rightarrow> False | Some n \<Rightarrow> n < cs_total_bytes s)"

text \<open>\<^verbatim>\<open>min\<close> with a key: the first of the least.\<close>

fun least_by :: "('a \<Rightarrow> int) \<Rightarrow> 'a list \<Rightarrow> 'a option" where
  "least_by f [] = None"
| "least_by f (x # xs) = (case least_by f xs of None \<Rightarrow> Some x | Some y \<Rightarrow> if f y < f x then Some y else Some x)"

lemma least_by_in: "least_by f xs = Some x \<Longrightarrow> x \<in> set xs"
  by (induction xs arbitrary: x) (auto split: option.splits if_splits)

definition eviction_victim :: "string \<Rightarrow> conversation_store \<Rightarrow> string option" where
  "eviction_victim protected1 s = least_by (\<lambda>i. dget_or (cs_last_access s) i 0)
     (filter (\<lambda>i. i \<noteq> protected1) (map fst (cs_messages s)))"

lemma length_delete: "k \<in> set (map fst d) \<Longrightarrow> length (AList.delete k d) < length d"
proof (induction d)
  case (Cons e d)
  then show ?case by (cases "fst e = k") (simp_all add: length_delete_le less_Suc_eq_le)
qed simp

function evict_sessions :: "store_limits \<Rightarrow> string \<Rightarrow> (conversation_store, unit) prog" where
  "evict_sessions l protected1 s =
     (if capacity_exceeded l s
      then (case eviction_victim protected1 s of
          None \<Rightarrow> (Inl (capacity_error ''conversation store cannot satisfy configured capacity''), s)
        | Some victim \<Rightarrow> evict_sessions l protected1 (delete_session victim s))
      else (Inr (), s))"
  by pat_completeness auto

termination
proof (relation "measure (\<lambda>(l, protected1, s). length (cs_messages s))", goal_cases)
  case (2 l protected1 s victim)
  then show ?case
    by (auto simp: eviction_victim_def delete_session_def dest!: least_by_in intro!: length_delete [simplified])
qed simp

declare evict_sessions.simps [simp del]

definition enforce_capacity :: "store_limits \<Rightarrow> string \<Rightarrow> rat \<Rightarrow> (conversation_store, unit) prog" where
  "enforce_capacity l protected1 t = (\<lambda>s.
     evict_sessions l protected1 (if capacity_exceeded l s then sweep_sessions t s else s))"

subsection \<open>Operations\<close>

definition freshen :: "store_limits \<Rightarrow> string \<Rightarrow> rat \<Rightarrow> (conversation_store, unit) prog" where
  "freshen l i t = modifyP (\<lambda>s. evict_if_expired i t (sweep_if_due l t s))"

definition store_load_messages :: "store_limits \<Rightarrow> conversation_codec \<Rightarrow> rat \<Rightarrow> string \<Rightarrow> (conversation_store, chat_message list) prog" where
  "store_load_messages l cd t i = bindP (ofR (store_identifier i ''session_id'')) (\<lambda>_. bindP (freshen l i t) (\<lambda>_.
     bindP (readP (\<lambda>s. dget (cs_messages s) i)) (\<lambda>found. case found of
       None \<Rightarrow> ret []
     | Some rows \<Rightarrow> bindP (modifyP (touch_session i)) (\<lambda>_. ofR (mapR (decode_message_row cd) rows)))))"

definition store_load_tail :: "store_limits \<Rightarrow> conversation_codec \<Rightarrow> rat \<Rightarrow> string \<Rightarrow> int \<Rightarrow> int \<Rightarrow>
    (conversation_store, conversation_page) prog" where
  "store_load_tail l cd t i after_sequence limit = bindP (ofR (store_identifier i ''session_id'')) (\<lambda>_.
     bindP (ofR (validate_page_request after_sequence limit)) (\<lambda>_. bindP (freshen l i t) (\<lambda>_.
     bindP (readP (\<lambda>s. dget (cs_messages s) i)) (\<lambda>found. case found of
       None \<Rightarrow> if after_sequence \<noteq> 0 then raise cursor_error else ofR (conversation_page_of cd [] i after_sequence False)
     | Some rows \<Rightarrow>
         if int (length rows) < after_sequence then raise cursor_error
         else bindP (modifyP (touch_session i)) (\<lambda>_.
           let selected = take (nat limit) (drop (nat after_sequence) rows) in
           ofR (conversation_page_of cd selected i after_sequence (after_sequence + int (length selected) < int (length rows))))))))"

text \<open>What both kinds of append do to a session that has room.\<close>

definition add_rows :: "string \<Rightarrow> string list \<Rightarrow> conversation_store \<Rightarrow> conversation_store" where
  "add_rows i rows s = s\<lparr>cs_messages := dset i (dget_or (cs_messages s) i [] @ rows) (cs_messages s)\<rparr>"

definition settle_append :: "store_limits \<Rightarrow> rat \<Rightarrow> string \<Rightarrow> int \<Rightarrow> (conversation_store, unit) prog" where
  "settle_append l t i n = bindP (modifyP (\<lambda>s. refresh_expiry l i t (touch_session i (record_added_bytes i n s)))) (\<lambda>_.
     enforce_capacity l i t)"

definition store_append :: "store_limits \<Rightarrow> conversation_codec \<Rightarrow> rat \<Rightarrow> string \<Rightarrow> chat_message list \<Rightarrow> (conversation_store, unit) prog" where
  "store_append l cd t i messages = bindP (ofR (store_identifier i ''session_id'')) (\<lambda>_.
     if messages = [] then ret ()
     else let rows = map (encode_message_row cd) messages; n = message_rows_size rows in
       bindP (freshen l i t) (\<lambda>_. bindP (ensure_session_fits l i n) (\<lambda>_.
       bindP (modifyP (add_rows i rows)) (\<lambda>_. settle_append l t i n))))"

definition store_append_once :: "store_limits \<Rightarrow> conversation_codec \<Rightarrow> rat \<Rightarrow> string \<Rightarrow> string \<Rightarrow> chat_message list \<Rightarrow>
    (conversation_store, bool) prog" where
  "store_append_once l cd t i key messages = bindP (ofR (store_identifier i ''session_id'')) (\<lambda>_.
     bindP (ofR (store_identifier key ''idempotency_key'')) (\<lambda>_.
     if messages = [] then ret False
     else let rows = map (encode_message_row cd) messages; n = message_rows_size rows; digest = message_rows_digest cd rows in
       bindP (freshen l i t) (\<lambda>_.
       bindP (readP (\<lambda>s. dget (dget_or (cs_idempotency s) i []) key)) (\<lambda>existing. case existing of
         Some d \<Rightarrow>
           if d \<noteq> digest then raise (ValueError ''idempotency key was reused with different messages'')
           else bindP (modifyP (\<lambda>s. if dget (cs_messages s) i = None then s else touch_session i s)) (\<lambda>_. ret False)
       | None \<Rightarrow>
           bindP (ensure_session_fits l i n) (\<lambda>_.
           bindP (modifyP (add_rows i rows)) (\<lambda>_.
           bindP (modifyP (\<lambda>s. s\<lparr>cs_idempotency := dset i (dset key digest (dget_or (cs_idempotency s) i [])) (cs_idempotency s)\<rparr>)) (\<lambda>_.
           bindP (settle_append l t i n) (\<lambda>_. ret True))))))))"

definition store_clear :: "string \<Rightarrow> (conversation_store, unit) prog" where
  "store_clear i = bindP (ofR (store_identifier i ''session_id'')) (\<lambda>_. modifyP (delete_session i))"

definition store_sweep_expired :: "store_limits \<Rightarrow> rat \<Rightarrow> (conversation_store, int) prog" where
  "store_sweep_expired l t = bindP (readP (\<lambda>s. int (length (expired_sessions t s)))) (\<lambda>removed.
     bindP (modifyP (\<lambda>s. (sweep_sessions t s)\<lparr>cs_next_sweep_at := t + sl_sweep_interval l\<rparr>)) (\<lambda>_. ret removed))"

definition store_stats :: "store_limits \<Rightarrow> rat \<Rightarrow> (conversation_store, int \<times> int) prog" where
  "store_stats l t = bindP (modifyP (sweep_if_due l t)) (\<lambda>_.
     readP (\<lambda>s. (int (length (cs_messages s)), cs_total_bytes s)))"

end
