(* ===== verification/Conversation_Store_Props.thy ===== *)
theory Conversation_Store_Props
  imports Conversation_Store
begin

text \<open>
  What the in-memory store of conversations promises: its dictionaries stay in step, it never exceeds its capacity,
  an append is never lost and evicts the least recently used sessions only, a keyed append happens once, and pages
  cover a session.
\<close>

subsection \<open>The invariant\<close>

definition limits_ok :: "store_limits \<Rightarrow> bool" where
  "limits_ok l \<longleftrightarrow> (\<forall>x. sl_ttl_seconds l = Some x \<longrightarrow> 0 < x) \<and> (\<forall>n. sl_max_sessions l = Some n \<longrightarrow> 1 \<le> n)"

definition in_step :: "store_limits \<Rightarrow> conversation_store \<Rightarrow> bool" where
  "in_step l s \<longleftrightarrow> dwf (cs_messages s) \<and> dwf (cs_idempotency s) \<and> dwf (cs_expires_at s) \<and> dwf (cs_session_bytes s) \<and> dwf (cs_last_access s) \<and>
     (\<forall>i. dget (cs_session_bytes s) i = map_option message_rows_size (dget (cs_messages s) i)) \<and>
     (\<forall>i. dget (cs_last_access s) i = None \<longleftrightarrow> dget (cs_messages s) i = None) \<and>
     (\<forall>i. dget (cs_messages s) i = None \<longrightarrow> dget (cs_idempotency s) i = None) \<and>
     (\<forall>i. dget (cs_expires_at s) i = None \<longleftrightarrow> sl_ttl_seconds l = None \<or> dget (cs_messages s) i = None) \<and>
     cs_total_bytes s = sum_list (map snd (cs_session_bytes s)) \<and>
     (\<forall>i v. dget (cs_last_access s) i = Some v \<longrightarrow> v \<le> cs_access_sequence s) \<and>
     (\<forall>i j v. dget (cs_last_access s) i = Some v \<longrightarrow> dget (cs_last_access s) j = Some v \<longrightarrow> i = j)"

definition store_ok :: "store_limits \<Rightarrow> conversation_store \<Rightarrow> bool" where
  "store_ok l s \<longleftrightarrow> in_step l s \<and> \<not> capacity_exceeded l s"

lemma utf8_length_pos: "0 \<le> utf8_length t"
  by (induction t) (auto simp: utf8_length_def)

lemma message_rows_size_pos: "0 \<le> message_rows_size rows"
  by (induction rows) (auto simp: message_rows_size_def utf8_length_pos)

lemma message_rows_size_append: "message_rows_size (xs @ ys) = message_rows_size xs + message_rows_size ys"
  by (simp add: message_rows_size_def)

lemma dget_delete: "map_of (AList.delete k d) i = (if i = k then None else map_of d i)"
  by (simp add: delete_conv')

lemma sum_delete:
  fixes d :: "('k \<times> int) list"
  shows "dwf d \<Longrightarrow> sum_list (map snd (AList.delete k d)) = sum_list (map snd d) - dget_or d k 0"
proof (induction d)
  case (Cons e d)
  then show ?case
    by (cases "fst e = k") (auto simp: delete_id [of k d] map_of_eq_None_iff [THEN iffD2] split: option.splits)
qed simp

lemma sum_nonneg:
  fixes d :: "('k \<times> int) list"
  shows "dwf d \<Longrightarrow> (\<And>k n. map_of d k = Some n \<Longrightarrow> 0 \<le> n) \<Longrightarrow> 0 \<le> sum_list (map snd d)"
  by (rule sum_list_nonneg) auto

lemma session_bytes_pos: "in_step l s \<Longrightarrow> dget (cs_session_bytes s) i = Some n \<Longrightarrow> 0 \<le> n"
  by (auto simp: in_step_def message_rows_size_pos)

lemma delete_in_step:
  assumes "in_step l s"
  shows "in_step l (delete_session i s)"
proof -
  have "0 \<le> sum_list (map snd (AList.delete i (cs_session_bytes s)))"
    using assms session_bytes_pos [OF assms]
    by (intro sum_nonneg) (auto simp: in_step_def dget_delete distinct_delete split: if_splits)
  then show ?thesis
    using assms by (auto simp: in_step_def delete_session_def dget_delete distinct_delete sum_delete)
qed

lemma deletes_in_step: "in_step l s \<Longrightarrow> in_step l (fold delete_session xs s)"
  by (induction xs arbitrary: s) (auto simp: delete_in_step)

lemma dget_deletes:
  "dget (cs_messages (fold delete_session xs s)) i = (if i \<in> set xs then None else dget (cs_messages s) i)"
  "dget (cs_idempotency (fold delete_session xs s)) i = (if i \<in> set xs then None else dget (cs_idempotency s) i)"
  "dget (cs_last_access (fold delete_session xs s)) i = (if i \<in> set xs then None else dget (cs_last_access s) i)"
  "dget (cs_session_bytes (fold delete_session xs s)) i = (if i \<in> set xs then None else dget (cs_session_bytes s) i)"
  "dget (cs_expires_at (fold delete_session xs s)) i = (if i \<in> set xs then None else dget (cs_expires_at s) i)"
  by (induction xs arbitrary: s) (auto simp: delete_session_def dget_delete)

subsection \<open>Removals\<close>

definition expired_at :: "rat \<Rightarrow> conversation_store \<Rightarrow> string \<Rightarrow> bool" where
  "expired_at t s i \<longleftrightarrow> (case dget (cs_expires_at s) i of None \<Rightarrow> False | Some e \<Rightarrow> e \<le> t)"

lemma expired_at_iff: "expired_at t s i \<longleftrightarrow> (\<exists>e. dget (cs_expires_at s) i = Some e \<and> e \<le> t)"
  by (simp add: expired_at_def split: option.split)

definition live_rows :: "rat \<Rightarrow> conversation_store \<Rightarrow> string \<Rightarrow> string list option" where
  "live_rows t s i = (if expired_at t s i then None else dget (cs_messages s) i)"

text \<open>The sessions \<open>gone\<close> are removed, and nothing else is changed but the time of the next sweep.\<close>

definition pruned :: "string set \<Rightarrow> conversation_store \<Rightarrow> conversation_store \<Rightarrow> bool" where
  "pruned gone s s' \<longleftrightarrow> cs_access_sequence s' = cs_access_sequence s \<and> (\<forall>i.
     dget (cs_messages s') i = (if i \<in> gone then None else dget (cs_messages s) i) \<and>
     dget (cs_idempotency s') i = (if i \<in> gone then None else dget (cs_idempotency s) i) \<and>
     dget (cs_last_access s') i = (if i \<in> gone then None else dget (cs_last_access s) i) \<and>
     dget (cs_session_bytes s') i = (if i \<in> gone then None else dget (cs_session_bytes s) i) \<and>
     dget (cs_expires_at s') i = (if i \<in> gone then None else dget (cs_expires_at s) i))"

lemma pruned_refl: "pruned {} s s"
  by (simp add: pruned_def)

lemma pruned_trans: "pruned gone s s' \<Longrightarrow> pruned further s' s'' \<Longrightarrow> pruned (gone \<union> further) s s''"
  by (auto simp: pruned_def)

lemma access_deletes: "cs_access_sequence (fold delete_session xs s) = cs_access_sequence s"
  by (induction xs arbitrary: s) (auto simp: delete_session_def)

lemma pruned_deletes: "pruned (set xs) s (fold delete_session xs s)"
  by (auto simp: pruned_def dget_deletes access_deletes)

lemma pruned_delete: "pruned {i} s (delete_session i s)"
  using pruned_deletes [of "[i]" s] by simp

lemma expired_sessions_iff: "dwf (cs_expires_at s) \<Longrightarrow> i \<in> set (expired_sessions t s) \<longleftrightarrow> expired_at t s i"
  by (force simp: expired_sessions_def expired_at_iff dest: map_of_SomeD)

lemma sweep_pruned:
  assumes "in_step l s"
  shows "in_step l (sweep_sessions t s) \<and> pruned {i. expired_at t s i} s (sweep_sessions t s)"
proof -
  have "set (expired_sessions t s) = {i. expired_at t s i}"
    using assms expired_sessions_iff [of s _ t] by (auto simp: in_step_def)
  then show ?thesis
    using pruned_deletes [of "expired_sessions t s" s] deletes_in_step [OF assms] by (simp add: sweep_sessions_def)
qed

lemma next_sweep_simps [simp]:
  "in_step l (s\<lparr>cs_next_sweep_at := x\<rparr>) \<longleftrightarrow> in_step l s" "pruned gone s (s'\<lparr>cs_next_sweep_at := x\<rparr>) \<longleftrightarrow> pruned gone s s'"
  by (simp_all add: in_step_def pruned_def)

lemma sweep_if_due_pruned:
  assumes "in_step l s"
  shows "\<exists>gone \<subseteq> {i. expired_at t s i}. in_step l (sweep_if_due l t s) \<and> pruned gone s (sweep_if_due l t s)"
proof (cases "sl_ttl_seconds l = None \<or> t < cs_next_sweep_at s")
  case True
  then show ?thesis using assms pruned_refl by (auto simp: sweep_if_due_def)
next
  case False
  then show ?thesis
    using sweep_pruned [OF assms, of t] by (intro exI [of _ "{i. expired_at t s i}"]) (auto simp: sweep_if_due_def)
qed

definition freshened :: "store_limits \<Rightarrow> string \<Rightarrow> rat \<Rightarrow> conversation_store \<Rightarrow> conversation_store" where
  "freshened l i t s = evict_if_expired i t (sweep_if_due l t s)"

lemma freshened_pruned:
  assumes "in_step l s"
  obtains gone where "gone \<subseteq> {j. expired_at t s j}" "expired_at t s i \<longrightarrow> i \<in> gone" "in_step l (freshened l i t s)"
    "pruned gone s (freshened l i t s)"
proof -
  obtain gone where gone: "gone \<subseteq> {j. expired_at t s j}" "in_step l (sweep_if_due l t s)" "pruned gone s (sweep_if_due l t s)"
    using sweep_if_due_pruned [OF assms] by blast
  show thesis
  proof (cases "expired_at t (sweep_if_due l t s) i")
    case True
    then have eq: "freshened l i t s = delete_session i (sweep_if_due l t s)"
      by (auto simp: freshened_def evict_if_expired_def expired_at_iff)
    show ?thesis
    proof (rule that [of "gone \<union> {i}"])
      show "gone \<union> {i} \<subseteq> {j. expired_at t s j}"
        using gone True by (auto simp: pruned_def expired_at_iff split: if_splits)
      show "pruned (gone \<union> {i}) s (freshened l i t s)"
        unfolding eq by (rule pruned_trans [OF gone(3) pruned_delete])
    qed (simp_all add: eq delete_in_step gone)
  next
    case False
    then have eq: "freshened l i t s = sweep_if_due l t s"
      by (auto simp: freshened_def evict_if_expired_def expired_at_iff split: option.splits)
    show ?thesis
    proof (rule that [of gone])
      show "expired_at t s i \<longrightarrow> i \<in> gone"
        using False gone(3) by (auto simp: pruned_def expired_at_iff split: if_splits)
    qed (use gone eq in simp_all)
  qed
qed

subsection \<open>Capacity\<close>

lemma length_by_dget:
  assumes "dwf d" and "dwf d'" and "\<And>k. dget d' k \<noteq> None \<Longrightarrow> dget d k \<noteq> None"
  shows "length d' \<le> length d"
proof -
  have "fst ` set d' \<subseteq> fst ` set d" using assms(3) by (metis domI dom_map_of_conv_image_fst domIff subsetI)
  then have "card (fst ` set d') \<le> card (fst ` set d)" by (simp add: card_mono)
  then show ?thesis using assms(1,2) distinct_card [of "map fst d"] distinct_card [of "map fst d'"] by simp
qed

lemma sum_by_dget:
  fixes d :: "('k \<times> int) list"
  assumes "dwf d" and "dwf d'" and "\<And>k n. dget d k = Some n \<Longrightarrow> 0 \<le> n" and "\<And>k. dget d' k = None \<or> dget d' k = dget d k"
  shows "sum_list (map snd d') \<le> sum_list (map snd d)"
proof -
  have sum1: "sum_list (map snd e) = (\<Sum>k \<in> fst ` set e. the (dget e k))" if "dwf e" for e :: "('k \<times> int) list"
    using that
  proof (induction e)
    case (Cons x e)
    then have "(\<Sum>k \<in> fst ` set e. the (dget (x # e) k)) = (\<Sum>k \<in> fst ` set e. the (dget e k))"
      by (intro sum.cong) (auto simp: image_iff)
    then show ?case using Cons by simp
  qed simp
  have keys: "fst ` set d' \<subseteq> fst ` set d" using assms(4) by (metis dom_map_of_conv_image_fst domIff subsetI)
  have "(\<Sum>k \<in> fst ` set d'. the (dget d' k)) = (\<Sum>k \<in> fst ` set d'. the (dget d k))"
  proof (rule sum.cong)
    fix k assume "k \<in> fst ` set d'"
    then obtain n where "dget d' k = Some n" by (auto simp: dom_map_of_conv_image_fst [symmetric])
    then show "the (dget d' k) = the (dget d k)" using assms(4) [of k] by auto
  qed simp
  also have "\<dots> \<le> (\<Sum>k \<in> fst ` set d. the (dget d k))"
    using keys assms(3) by (intro sum_mono2) (auto simp: dom_map_of_conv_image_fst [symmetric] finite_dom_map_of dest!: domD)
  finally show ?thesis using sum1 [OF assms(1)] sum1 [OF assms(2)] by simp
qed

lemma pruned_fits:
  assumes "in_step l s" "in_step l s'" "pruned gone s s'" and "\<not> capacity_exceeded l s"
  shows "\<not> capacity_exceeded l s'"
proof -
  have "length (cs_messages s') \<le> length (cs_messages s)"
    using assms(1-3) by (intro length_by_dget) (auto simp: in_step_def pruned_def split: if_splits)
  moreover have "cs_total_bytes s' \<le> cs_total_bytes s"
  proof -
    have "sum_list (map snd (cs_session_bytes s')) \<le> sum_list (map snd (cs_session_bytes s))"
      using assms(1-3) session_bytes_pos [OF assms(1)] by (intro sum_by_dget) (auto simp: in_step_def pruned_def)
    then show ?thesis using assms(1,2) by (simp add: in_step_def)
  qed
  ultimately show ?thesis using assms(4) by (auto simp: capacity_exceeded_def split: option.splits)
qed

text \<open>An evicted session is not the protected one, and was used before every other one that stays.\<close>

definition evicts :: "string \<Rightarrow> string set \<Rightarrow> conversation_store \<Rightarrow> bool" where
  "evicts p gone s \<longleftrightarrow> p \<notin> gone \<and> (\<forall>i \<in> gone. dget (cs_messages s) i \<noteq> None \<longrightarrow> (\<forall>j. j \<notin> gone \<longrightarrow> j \<noteq> p \<longrightarrow>
     dget (cs_messages s) j \<noteq> None \<longrightarrow> the (dget (cs_last_access s) i) < the (dget (cs_last_access s) j)))"

lemma least_by_None: "least_by f xs = None \<longleftrightarrow> xs = []"
  by (cases xs) (auto split: option.splits)

lemma least_by_le: "least_by f xs = Some x \<Longrightarrow> y \<in> set xs \<Longrightarrow> f x \<le> f y"
proof (induction xs arbitrary: x)
  case (Cons z zs)
  show ?case
  proof (cases "least_by f zs")
    case None
    then show ?thesis using Cons.prems by (simp add: least_by_None)
  next
    case (Some u)
    then show ?thesis using Cons.prems Cons.IH [OF Some] by (auto split: if_splits)
  qed
qed simp

lemma victim_oldest:
  assumes "in_step l s" and "eviction_victim p s = Some v"
  shows "v \<noteq> p \<and> dget (cs_messages s) v \<noteq> None \<and> (\<forall>j. j \<noteq> p \<longrightarrow> j \<noteq> v \<longrightarrow> dget (cs_messages s) j \<noteq> None \<longrightarrow>
    the (dget (cs_last_access s) v) < the (dget (cs_last_access s) j))"
proof -
  have "v \<in> set (filter (\<lambda>i. i \<noteq> p) (map fst (cs_messages s)))"
    using least_by_in assms(2) unfolding eviction_victim_def by fast
  then have v: "v \<noteq> p" "dget (cs_messages s) v \<noteq> None"
    by (auto simp: map_of_eq_None_iff)
  moreover have "the (dget (cs_last_access s) v) < the (dget (cs_last_access s) j)"
    if j: "j \<noteq> p" "j \<noteq> v" "dget (cs_messages s) j \<noteq> None" for j
  proof -
    have "j \<in> set (filter (\<lambda>i. i \<noteq> p) (map fst (cs_messages s)))"
      using j by (auto simp: map_of_eq_None_iff)
    then have "dget_or (cs_last_access s) v 0 \<le> dget_or (cs_last_access s) j 0"
      using assms(2) least_by_le unfolding eviction_victim_def by fast
    moreover obtain a b where "dget (cs_last_access s) v = Some a" "dget (cs_last_access s) j = Some b"
      using assms(1) v(2) j(3) unfolding in_step_def by (metis not_None_eq)
    moreover from this have "a \<noteq> b" using assms(1) j(2) unfolding in_step_def by metis
    ultimately show ?thesis by simp
  qed
  ultimately show ?thesis by blast
qed

text \<open>A session alone in the store fits, when its own size does.\<close>

lemma alone_fits:
  assumes "in_step l s" and "limits_ok l" and "eviction_victim p s = None"
    and "\<And>n. sl_max_total_bytes l = Some n \<Longrightarrow> dget_or (cs_session_bytes s) p 0 \<le> n"
  shows "\<not> capacity_exceeded l s"
proof -
  have keys: "dget (cs_messages s) j = None" if "j \<noteq> p" for j
    using assms(3) that by (auto simp: eviction_victim_def least_by_None filter_empty_conv map_of_eq_None_iff)
  then have "fst ` set (cs_messages s) \<subseteq> {p}" by (force simp: map_of_eq_None_iff)
  then have "card (fst ` set (cs_messages s)) \<le> 1" using card_mono [of "{p}"] by fastforce
  then have "length (cs_messages s) \<le> 1"
    using assms(1) distinct_card [of "map fst (cs_messages s)"] by (simp add: in_step_def)
  moreover have "cs_total_bytes s \<le> dget_or (cs_session_bytes s) p 0"
  proof -
    have none: "dget (cs_session_bytes s) k = None" if "k \<noteq> p" for k
      using keys [OF that] assms(1) by (simp add: in_step_def)
    have "0 \<le> dget_or (cs_session_bytes s) p 0"
      using session_bytes_pos [OF assms(1), of p] by (cases "dget (cs_session_bytes s) p") auto
    then have "sum_list (map snd (cs_session_bytes s)) \<le> sum_list (map snd [(p, dget_or (cs_session_bytes s) p 0)])"
    proof (intro sum_by_dget)
      show "dget (cs_session_bytes s) k = None \<or> dget (cs_session_bytes s) k = dget [(p, dget_or (cs_session_bytes s) p 0)] k" for k
        using none [of k] by (cases "k = p"; cases "dget (cs_session_bytes s) p") auto
    qed (use assms(1) in \<open>auto simp: in_step_def split: if_splits\<close>)
    then show ?thesis using assms(1) by (simp add: in_step_def)
  qed
  ultimately show ?thesis
    using assms(2,4) by (force simp: capacity_exceeded_def limits_ok_def split: option.splits)
qed

lemma evict_spec:
  assumes "in_step l s" and "limits_ok l" and "\<And>n. sl_max_total_bytes l = Some n \<Longrightarrow> dget_or (cs_session_bytes s) p 0 \<le> n"
  shows "\<exists>s' gone. evict_sessions l p s = (Inr (), s') \<and> in_step l s' \<and> \<not> capacity_exceeded l s' \<and> pruned gone s s' \<and> evicts p gone s \<and>
    (gone \<noteq> {} \<longrightarrow> capacity_exceeded l s)"
  using assms
proof (induction l p s rule: evict_sessions.induct)
  case (1 l p s)
  show ?case
  proof (cases "capacity_exceeded l s")
    case False
    then show ?thesis
      using 1(2) pruned_refl [of s] by (intro exI [of _ s] exI [of _ "{}"]) (simp add: evict_sessions.simps [of l p s] evicts_def)
  next
    case True
    then obtain v where v: "eviction_victim p s = Some v" using alone_fits [OF 1(2,3) _ 1(4)] by (cases "eviction_victim p s") auto
    note oldest = victim_oldest [OF 1(2) v]
    have bytes: "dget_or (cs_session_bytes (delete_session v s)) p 0 = dget_or (cs_session_bytes s) p 0"
      using oldest by (auto simp: delete_session_def dget_delete)
    obtain s' gone where rest: "evict_sessions l p (delete_session v s) = (Inr (), s')" "in_step l s'" "\<not> capacity_exceeded l s'"
      "pruned gone (delete_session v s) s'" "evicts p gone (delete_session v s)"
      using 1(1) [OF True v delete_in_step [OF 1(2)] 1(3)] 1(4) bytes by auto
    have "pruned ({v} \<union> gone) s s'" by (rule pruned_trans [OF pruned_delete rest(4)])
    moreover have "evicts p ({v} \<union> gone) s"
      unfolding evicts_def
    proof (intro conjI ballI impI allI)
      fix i j assume i: "i \<in> {v} \<union> gone" "dget (cs_messages s) i \<noteq> None" and j: "j \<notin> {v} \<union> gone" "j \<noteq> p" "dget (cs_messages s) j \<noteq> None"
      show "the (dget (cs_last_access s) i) < the (dget (cs_last_access s) j)"
      proof (cases "i = v")
        case False
        have "dget (cs_messages (delete_session v s)) k = dget (cs_messages s) k"
          "dget (cs_last_access (delete_session v s)) k = dget (cs_last_access s) k" if "k \<noteq> v" for k
          using that by (simp_all add: delete_session_def dget_delete)
        then show ?thesis using rest(5) False i j unfolding evicts_def by (metis Un_iff insertI1 singletonD)
      qed (use oldest j in blast)
    qed (use rest(5) oldest in \<open>auto simp: evicts_def\<close>)
    ultimately show ?thesis
      using rest True v by (intro exI [of _ s'] exI [of _ "{v} \<union> gone"]) (simp add: evict_sessions.simps [of l p s])
  qed
qed

text \<open>The live sessions that give way to the append to \<open>i\<close> were used before all that stay.\<close>

definition makes_room :: "rat \<Rightarrow> string \<Rightarrow> string set \<Rightarrow> conversation_store \<Rightarrow> bool" where
  "makes_room t i gone s \<longleftrightarrow> (\<forall>j k. j \<in> gone \<longrightarrow> j \<noteq> i \<longrightarrow> live_rows t s j \<noteq> None \<longrightarrow> k \<notin> gone \<longrightarrow> k \<noteq> i \<longrightarrow>
     dget (cs_messages s) k \<noteq> None \<longrightarrow> the (dget (cs_last_access s) j) < the (dget (cs_last_access s) k))"

lemma enforce_spec:
  assumes "in_step l s" and "limits_ok l" and "\<not> expired_at t s i"
    and size: "\<And>n. sl_max_total_bytes l = Some n \<Longrightarrow> dget_or (cs_session_bytes s) i 0 \<le> n"
  shows "\<exists>s' gone. enforce_capacity l i t s = (Inr (), s') \<and> in_step l s' \<and> \<not> capacity_exceeded l s' \<and> pruned gone s s' \<and>
    i \<notin> gone \<and> makes_room t i gone s"
proof (cases "capacity_exceeded l s")
  case False
  then show ?thesis
    using assms(1) pruned_refl [of s]
    by (intro exI [of _ s] exI [of _ "{}"]) (simp add: enforce_capacity_def evict_sessions.simps [of l i s] makes_room_def)
next
  case True
  let ?swept = "sweep_sessions t s" and ?expired = "{j. expired_at t s j}"
  have swept: "in_step l ?swept" "pruned ?expired s ?swept" using sweep_pruned [OF assms(1)] by auto
  have "dget_or (cs_session_bytes ?swept) i 0 = dget_or (cs_session_bytes s) i 0"
    using swept(2) assms(3) by (simp add: pruned_def)
  then obtain s' gone where rest: "evict_sessions l i ?swept = (Inr (), s')" "in_step l s'" "\<not> capacity_exceeded l s'"
    "pruned gone ?swept s'" "evicts i gone ?swept"
    using evict_spec [OF swept(1) assms(2), of i] size by auto
  have "pruned (?expired \<union> gone) s s'" by (rule pruned_trans [OF swept(2) rest(4)])
  moreover have "makes_room t i (?expired \<union> gone) s"
    unfolding makes_room_def
  proof (intro allI impI)
    have same: "dget (cs_messages ?swept) k = dget (cs_messages s) k" "dget (cs_last_access ?swept) k = dget (cs_last_access s) k"
      if "\<not> expired_at t s k" for k
      using swept(2) that by (simp_all add: pruned_def)
    fix j k assume "j \<in> ?expired \<union> gone" and live: "live_rows t s j \<noteq> None" and k: "k \<notin> ?expired \<union> gone" "k \<noteq> i" "dget (cs_messages s) k \<noteq> None"
    then have "j \<in> gone" "\<not> expired_at t s j" "dget (cs_messages s) j \<noteq> None" by (auto simp: live_rows_def split: if_splits)
    then show "the (dget (cs_last_access s) j) < the (dget (cs_last_access s) k)"
      using rest(5) k same [of j] same [of k] unfolding evicts_def by (metis UnI1 UnI2 mem_Collect_eq)
  qed
  moreover have "i \<notin> ?expired \<union> gone" using rest(5) assms(3) by (simp add: evicts_def)
  ultimately show ?thesis
    using rest True by (intro exI [of _ s'] exI [of _ "?expired \<union> gone"]) (simp add: enforce_capacity_def)
qed

subsection \<open>Appends\<close>

definition grown :: "store_limits \<Rightarrow> rat \<Rightarrow> string \<Rightarrow> string list \<Rightarrow> conversation_store \<Rightarrow> conversation_store" where
  "grown l t i rows s = refresh_expiry l i t (touch_session i (record_added_bytes i (message_rows_size rows) (add_rows i rows s)))"

lemmas grown_defs = grown_def touch_session_def record_added_bytes_def add_rows_def

lemma refresh_fields [simp]:
  "cs_messages (refresh_expiry l i t s) = cs_messages s" "cs_idempotency (refresh_expiry l i t s) = cs_idempotency s"
  "cs_session_bytes (refresh_expiry l i t s) = cs_session_bytes s" "cs_total_bytes (refresh_expiry l i t s) = cs_total_bytes s"
  "cs_last_access (refresh_expiry l i t s) = cs_last_access s" "cs_access_sequence (refresh_expiry l i t s) = cs_access_sequence s"
  by (simp_all add: refresh_expiry_def split: option.splits)

lemma grown_fields:
  "cs_messages (grown l t i rows s) = dset i (dget_or (cs_messages s) i [] @ rows) (cs_messages s)"
  "cs_idempotency (grown l t i rows s) = cs_idempotency s"
  "cs_session_bytes (grown l t i rows s) = dset i (dget_or (cs_session_bytes s) i 0 + message_rows_size rows) (cs_session_bytes s)"
  "cs_total_bytes (grown l t i rows s) = cs_total_bytes s + message_rows_size rows"
  "cs_last_access (grown l t i rows s) = dset i (cs_access_sequence s + 1) (cs_last_access s)"
  "cs_access_sequence (grown l t i rows s) = cs_access_sequence s + 1"
  "cs_expires_at (grown l t i rows s) = (case sl_ttl_seconds l of None \<Rightarrow> cs_expires_at s | Some ttl \<Rightarrow> dset i (t + ttl) (cs_expires_at s))"
  by (simp_all add: grown_defs) (simp add: refresh_expiry_def split: option.splits)

lemma fresh_access:
  assumes "in_step l s" and "dget (cs_last_access s) j = Some v"
  shows "v < cs_access_sequence s + 1"
  using assms by (auto simp: in_step_def)

lemma grown_in_step:
  assumes "in_step l s"
  shows "in_step l (grown l t i rows s)"
proof -
  have bytes: "dget_or (cs_session_bytes s) i 0 = message_rows_size (dget_or (cs_messages s) i [])"
    using assms by (cases "dget (cs_messages s) i") (auto simp: in_step_def message_rows_size_def)
  show ?thesis
    unfolding in_step_def
  proof (intro conjI allI impI)
    show "dwf (cs_expires_at (grown l t i rows s))"
      using assms by (simp add: grown_fields in_step_def split: option.splits)
    show "dget (cs_session_bytes (grown l t i rows s)) j = map_option message_rows_size (dget (cs_messages (grown l t i rows s)) j)" for j
      using assms bytes by (simp add: grown_fields dget_dset in_step_def message_rows_size_append)
    show "dget (cs_expires_at (grown l t i rows s)) j = None \<longleftrightarrow> sl_ttl_seconds l = None \<or> dget (cs_messages (grown l t i rows s)) j = None" for j
      using assms by (simp add: grown_fields dget_dset in_step_def split: option.splits)
    show "cs_total_bytes (grown l t i rows s) = sum_list (map snd (cs_session_bytes (grown l t i rows s)))"
      using assms by (simp add: grown_fields sum_dset in_step_def split: option.splits)
    show "v \<le> cs_access_sequence (grown l t i rows s)" if "dget (cs_last_access (grown l t i rows s)) j = Some v" for j v
      using that fresh_access [OF assms, of j v] by (auto simp: grown_fields dget_dset split: if_splits)
    show "j = k" if same: "dget (cs_last_access (grown l t i rows s)) j = Some v" "dget (cs_last_access (grown l t i rows s)) k = Some v" for j k v
    proof -
      have "dget (cs_last_access s) j = Some v \<Longrightarrow> dget (cs_last_access s) k = Some v \<Longrightarrow> j = k"
        using assms unfolding in_step_def by blast
      then show ?thesis
        using same fresh_access [OF assms, of j v] fresh_access [OF assms, of k v]
        by (auto simp: grown_fields dget_dset split: if_splits)
    qed
  qed (use assms in \<open>auto simp: grown_fields dget_dset in_step_def split: if_splits\<close>)
qed

definition too_large :: "store_limits \<Rightarrow> conversation_store \<Rightarrow> string \<Rightarrow> string list \<Rightarrow> bool" where
  "too_large l s i rows \<longleftrightarrow> (\<exists>n. sl_max_total_bytes l = Some n \<and> n < dget_or (cs_session_bytes s) i 0 + message_rows_size rows)"

lemma ensure_run: "ensure_session_fits l i (message_rows_size rows) s =
    (if too_large l s i rows then (Inl (capacity_error ''conversation session exceeds max_total_bytes''), s) else (Inr (), s))"
  by (auto simp: ensure_session_fits_def too_large_def split: option.splits)

lemma append_run: "store_append l cd t i messages s =
    (if strip i = [] then (Inl (ValueError ''session_id cannot be empty''), s) else if messages = [] then (Inr (), s)
     else let rows = map (encode_message_row cd) messages; s0 = freshened l i t s in
       if too_large l s0 i rows then (Inl (capacity_error ''conversation session exceeds max_total_bytes''), s0)
       else enforce_capacity l i t (grown l t i rows s0))"
  by (simp add: store_append_def store_identifier_def freshen_def freshened_def bindP_run ofR_def ret_def modifyP_def ensure_run
      settle_append_def grown_def Let_def require_def split: prod.splits sum.splits)

definition keyed :: "string \<Rightarrow> string \<Rightarrow> string \<Rightarrow> conversation_store \<Rightarrow> conversation_store" where
  "keyed i key digest s = s\<lparr>cs_idempotency := dset i (dset key digest (dget_or (cs_idempotency s) i [])) (cs_idempotency s)\<rparr>"

lemma append_once_run: "store_append_once l cd t i key messages s =
    (if strip i = [] then (Inl (ValueError ''session_id cannot be empty''), s)
     else if strip key = [] then (Inl (ValueError ''idempotency_key cannot be empty''), s) else if messages = [] then (Inr False, s)
     else let rows = map (encode_message_row cd) messages; digest = message_rows_digest cd rows; s0 = freshened l i t s in
       case dget (dget_or (cs_idempotency s0) i []) key of
         Some d \<Rightarrow> if d \<noteq> digest then (Inl (ValueError ''idempotency key was reused with different messages''), s0)
           else (Inr False, if dget (cs_messages s0) i = None then s0 else touch_session i s0)
       | None \<Rightarrow> if too_large l s0 i rows then (Inl (capacity_error ''conversation session exceeds max_total_bytes''), s0)
           else (case enforce_capacity l i t (keyed i key digest (grown l t i rows s0)) of
             (Inl e, s') \<Rightarrow> (Inl e, s') | (Inr u, s') \<Rightarrow> (Inr True, s')))"
proof -
  have "refresh_expiry l i t (touch_session i (record_added_bytes i n (keyed i key d (add_rows i rows s0)))) =
      keyed i key d (refresh_expiry l i t (touch_session i (record_added_bytes i n (add_rows i rows s0))))" for n d rows s0
    by (simp add: keyed_def refresh_expiry_def touch_session_def record_added_bytes_def add_rows_def split: option.splits)
  then show ?thesis
    by (auto simp: store_append_once_def store_identifier_def freshen_def freshened_def bindP_run ofR_def ret_def modifyP_def readP_def
        ensure_run settle_append_def grown_def keyed_def raise_def Let_def require_def split: prod.splits sum.splits option.splits)
qed

lemma keyed_in_step: "in_step l s \<Longrightarrow> dget (cs_messages s) i \<noteq> None \<Longrightarrow> in_step l (keyed i key d s)"
  by (auto simp: in_step_def keyed_def dget_dset)

lemma freshened_live: "in_step l s \<Longrightarrow> \<not> expired_at t (freshened l i t s) i"
  by (rule freshened_pruned [of l s t i]) (auto simp: pruned_def expired_at_iff split: if_splits)

lemma append_settles:
  assumes "in_step l s" and "limits_ok l" and "\<not> expired_at t s i" and "\<not> too_large l s i rows"
    and a: "a = grown l t i rows s \<or> a = keyed i key d (grown l t i rows s)"
  shows "\<exists>s' gone. enforce_capacity l i t a = (Inr (), s') \<and> in_step l s' \<and> \<not> capacity_exceeded l s' \<and> pruned gone a s' \<and>
    i \<notin> gone \<and> makes_room t i gone a \<and> \<not> expired_at t s' i"
proof -
  have present: "dget (cs_messages (grown l t i rows s)) i \<noteq> None" by (simp add: grown_fields dget_dset)
  have "in_step l a" using a keyed_in_step [OF grown_in_step [OF assms(1)] present] grown_in_step [OF assms(1)] by auto
  moreover have live: "\<not> expired_at t a i"
  proof -
    have "cs_expires_at a = cs_expires_at (grown l t i rows s)" using a by (auto simp: keyed_def)
    then show ?thesis
      using assms(2,3) by (cases "sl_ttl_seconds l") (auto simp: expired_at_iff grown_fields dget_dset limits_ok_def)
  qed
  moreover have "cs_session_bytes a = cs_session_bytes (grown l t i rows s)" using a by (auto simp: keyed_def)
  then have "dget_or (cs_session_bytes a) i 0 \<le> n" if "sl_max_total_bytes l = Some n" for n
    using assms(4) that by (simp add: too_large_def grown_fields dget_dset)
  ultimately obtain s' gone where "enforce_capacity l i t a = (Inr (), s')" "in_step l s'" "\<not> capacity_exceeded l s'" "pruned gone a s'"
    "i \<notin> gone" "makes_room t i gone a"
    using enforce_spec [OF _ assms(2), of a t i] by blast
  then show ?thesis
    using live by (intro exI [of _ s'] exI [of _ gone]) (auto simp: pruned_def expired_at_iff split: if_splits)
qed

subsection \<open>Every operation\<close>

lemma touch_in_step:
  assumes "in_step l s" and "dget (cs_messages s) i \<noteq> None"
  shows "in_step l (touch_session i s)"
  unfolding in_step_def
proof (intro conjI allI impI)
  show "v \<le> cs_access_sequence (touch_session i s)" if "dget (cs_last_access (touch_session i s)) j = Some v" for j v
    using that fresh_access [OF assms(1), of j v] by (auto simp: touch_session_def dget_dset split: if_splits)
  show "j = k" if same: "dget (cs_last_access (touch_session i s)) j = Some v" "dget (cs_last_access (touch_session i s)) k = Some v" for j k v
  proof -
    have "dget (cs_last_access s) j = Some v \<Longrightarrow> dget (cs_last_access s) k = Some v \<Longrightarrow> j = k"
      using assms unfolding in_step_def by blast
    then show ?thesis
      using same fresh_access [OF assms(1), of j v] fresh_access [OF assms(1), of k v]
      by (auto simp: touch_session_def dget_dset split: if_splits)
  qed
qed (use assms in \<open>auto simp: touch_session_def dget_dset in_step_def\<close>)

lemma capacity_simps [simp]:
  "capacity_exceeded l (touch_session i s) \<longleftrightarrow> capacity_exceeded l s"
  "capacity_exceeded l (s\<lparr>cs_next_sweep_at := x\<rparr>) \<longleftrightarrow> capacity_exceeded l s"
  by (simp_all add: capacity_exceeded_def touch_session_def split: option.splits)

lemma touch_ok: "store_ok l s \<Longrightarrow> dget (cs_messages s) i \<noteq> None \<Longrightarrow> store_ok l (touch_session i s)"
  using touch_in_step [of l s i] by (simp add: store_ok_def)

lemma freshened_ok:
  assumes "store_ok l s"
  shows "store_ok l (freshened l i t s)"
proof -
  have "in_step l s" using assms by (simp add: store_ok_def)
  then show ?thesis
    by (rule freshened_pruned [of l s t i]) (use assms pruned_fits in \<open>auto simp: store_ok_def\<close>)
qed

datatype store_call = SC_load rat string | SC_tail rat string int int | SC_append rat string "chat_message list"
  | SC_append_once rat string string "chat_message list" | SC_clear string | SC_sweep rat | SC_stats rat

fun store_step :: "store_limits \<Rightarrow> conversation_codec \<Rightarrow> store_call \<Rightarrow> conversation_store \<Rightarrow> conversation_store" where
  "store_step l cd (SC_load t i) s = snd (store_load_messages l cd t i s)"
| "store_step l cd (SC_tail t i n limit) s = snd (store_load_tail l cd t i n limit s)"
| "store_step l cd (SC_append t i ms) s = snd (store_append l cd t i ms s)"
| "store_step l cd (SC_append_once t i key ms) s = snd (store_append_once l cd t i key ms s)"
| "store_step l cd (SC_clear i) s = snd (store_clear i s)"
| "store_step l cd (SC_sweep t) s = snd (store_sweep_expired l t s)"
| "store_step l cd (SC_stats t) s = snd (store_stats l t s)"

lemma load_run: "snd (store_load_messages l cd t i s) = (if strip i = [] then s else let s0 = freshened l i t s in
    if dget (cs_messages s0) i = None then s0 else touch_session i s0)"
  by (auto simp: store_load_messages_def store_identifier_def freshen_def freshened_def bindP_run ofR_def ret_def modifyP_def readP_def
      Let_def require_def split: option.splits sum.splits)

lemma tail_run: "store_load_tail l cd t i n limit s = (if strip i = [] then (Inl (ValueError ''session_id cannot be empty''), s)
    else case validate_page_request n limit of Inl e \<Rightarrow> (Inl e, s) | Inr u \<Rightarrow> let s0 = freshened l i t s in
    case dget (cs_messages s0) i of
      None \<Rightarrow> if n \<noteq> 0 then (Inl cursor_error, s0) else (conversation_page_of cd [] i n False, s0)
    | Some rows \<Rightarrow> if int (length rows) < n then (Inl cursor_error, s0)
        else let selected = take (nat limit) (drop (nat n) rows) in
          (conversation_page_of cd selected i n (n + int (length selected) < int (length rows)), touch_session i s0))"
  by (auto simp: store_load_tail_def store_identifier_def freshen_def freshened_def bindP_run ofR_def ret_def modifyP_def readP_def
      raise_def Let_def require_def split: option.splits sum.splits)

lemma append_ok:
  assumes "store_ok l s" and "limits_ok l"
  shows "store_ok l (snd (store_append l cd t i ms s)) \<and> store_ok l (snd (store_append_once l cd t i key ms s))"
proof -
  let ?s0 = "freshened l i t s" and ?rows = "map (encode_message_row cd) ms"
  have ok: "store_ok l ?s0" "in_step l ?s0" using freshened_ok [OF assms(1), of i t] by (auto simp: store_ok_def)
  have live: "\<not> expired_at t ?s0 i" using assms(1) freshened_live by (auto simp: store_ok_def)
  have fitted: "\<exists>s'. enforce_capacity l i t a = (Inr (), s') \<and> store_ok l s'"
    if "\<not> too_large l ?s0 i ?rows" "a = grown l t i ?rows ?s0 \<or> a = keyed i key d (grown l t i ?rows ?s0)" for a d
    using append_settles [OF ok(2) assms(2) live that] by (auto simp: store_ok_def)
  have "store_ok l (snd (store_append l cd t i ms s))"
    using ok(1) assms(1) fitted [of "grown l t i ?rows ?s0"] by (auto simp: append_run Let_def)
  moreover have "store_ok l (snd (store_append_once l cd t i key ms s))"
    using ok(1) assms(1) fitted [of "keyed i key (message_rows_digest cd ?rows) (grown l t i ?rows ?s0)" "message_rows_digest cd ?rows"] touch_ok
    by (auto simp: append_once_run Let_def split: option.splits)
  ultimately show ?thesis by simp
qed

lemma sweep_ok: "store_ok l s \<Longrightarrow> store_ok l (sweep_sessions t s)"
  using sweep_pruned [of l s t] pruned_fits [of l s "sweep_sessions t s"] by (auto simp: store_ok_def)

lemma next_sweep_ok [simp]: "store_ok l (s\<lparr>cs_next_sweep_at := x\<rparr>) \<longleftrightarrow> store_ok l s"
  by (simp add: store_ok_def)

lemma delete_ok: "store_ok l s \<Longrightarrow> store_ok l (delete_session i s)"
  using delete_in_step [of l s i] pruned_fits [OF _ _ pruned_delete, of l s i] by (auto simp: store_ok_def)

lemma store_step_ok:
  assumes "store_ok l s" and "limits_ok l"
  shows "store_ok l (store_step l cd c s)"
proof (cases c)
  case (SC_load t i)
  then show ?thesis using assms(1) freshened_ok [OF assms(1)] touch_ok by (auto simp: load_run Let_def)
next
  case (SC_tail t i n limit)
  then show ?thesis
    using assms(1) freshened_ok [OF assms(1)] touch_ok by (auto simp: tail_run Let_def split: sum.splits option.splits)
next
  case (SC_clear i)
  then show ?thesis
    using assms(1) delete_ok by (auto simp: store_clear_def store_identifier_def bindP_run ofR_def modifyP_def require_def)
next
  case (SC_sweep t)
  then show ?thesis
    using assms(1) sweep_ok by (simp add: store_sweep_expired_def bindP_run modifyP_def readP_def ret_def)
next
  case (SC_stats t)
  then show ?thesis
    using assms(1) sweep_ok by (simp add: store_stats_def sweep_if_due_def bindP_run modifyP_def readP_def)
qed (use append_ok [OF assms] in simp_all)

lemma store_steps_ok: "store_ok l s \<Longrightarrow> limits_ok l \<Longrightarrow> store_ok l (fold (store_step l cd) cs s)"
  by (induction cs arbitrary: s) (simp_all add: store_step_ok)

lemma new_store_ok: "InMemoryConversationStore l t = Inr s \<Longrightarrow> store_ok l s \<and> limits_ok l"
  by (auto simp: InMemoryConversationStore_def bindR_Inr_iff store_ok_def in_step_def limits_ok_def capacity_exceeded_def split: option.splits)

text \<open>C33. Whatever calls a store has answered, at whatever times: the sessions with recorded bytes and with a
  last access are exactly the sessions it holds, so are the sessions with an expiry when there is a time to live (none has one otherwise), and
  only they have idempotency keys; the bytes recorded for each session and in total are those of the rows it holds;
  no two sessions have the same last access, and none is after the current one; and neither limit of the capacity is exceeded.\<close>

theorem store_stays_bounded:
  assumes "InMemoryConversationStore l t = Inr s0" and s: "s = fold (store_step l cd) cs s0"
  shows "(\<forall>n. sl_max_sessions l = Some n \<longrightarrow> int (length (cs_messages s)) \<le> n) \<and>
    (\<forall>n. sl_max_total_bytes l = Some n \<longrightarrow> cs_total_bytes s \<le> n) \<and>
    cs_total_bytes s = sum_list (map (\<lambda>(i, rows). message_rows_size rows) (cs_messages s)) \<and>
    (\<forall>i. dget (cs_session_bytes s) i = map_option message_rows_size (dget (cs_messages s) i)) \<and>
    dom (map_of (cs_last_access s)) = dom (map_of (cs_messages s)) \<and>
    dom (map_of (cs_expires_at s)) = (if sl_ttl_seconds l = None then {} else dom (map_of (cs_messages s))) \<and>
    dom (map_of (cs_idempotency s)) \<subseteq> dom (map_of (cs_messages s)) \<and>
    inj_on (\<lambda>i. the (dget (cs_last_access s) i)) (dom (map_of (cs_messages s))) \<and>
    (\<forall>i v. dget (cs_last_access s) i = Some v \<longrightarrow> v \<le> cs_access_sequence s)"
proof -
  have ok: "store_ok l s" using store_steps_ok new_store_ok [OF assms(1)] by (simp add: s)
  let ?sizes = "map (\<lambda>(i, rows). (i, message_rows_size rows)) (cs_messages s)"
  have same: "dget ?sizes k = dget (cs_session_bytes s) k" for k
    using ok by (simp add: store_ok_def in_step_def map_of_map)
  have dwf: "dwf ?sizes" "dwf (cs_session_bytes s)"
    using ok by (simp_all add: store_ok_def in_step_def comp_def case_prod_unfold)
  have pos: "0 \<le> n" if "dget (cs_session_bytes s) k = Some n" for k n
    using ok session_bytes_pos that by (auto simp: store_ok_def)
  have "sum_list (map snd ?sizes) = sum_list (map snd (cs_session_bytes s))"
  proof (rule antisym)
    show "sum_list (map snd ?sizes) \<le> sum_list (map snd (cs_session_bytes s))"
      by (rule sum_by_dget) (use dwf pos same in \<open>simp_all only: simp_thms\<close>)
    show "sum_list (map snd (cs_session_bytes s)) \<le> sum_list (map snd ?sizes)"
      by (rule sum_by_dget) (use dwf pos same in \<open>simp_all only: simp_thms\<close>)
  qed
  then have "cs_total_bytes s = sum_list (map (\<lambda>(i, rows). message_rows_size rows) (cs_messages s))"
    using ok by (simp add: store_ok_def in_step_def case_prod_unfold comp_def)
  moreover have "inj_on (\<lambda>i. the (dget (cs_last_access s) i)) (dom (map_of (cs_messages s)))"
    using ok unfolding store_ok_def in_step_def by (intro inj_onI) (metis domIff option.collapse)
  moreover have "dom (map_of (cs_last_access s)) = dom (map_of (cs_messages s))"
    using ok unfolding store_ok_def in_step_def dom_def by (elim conjE) (simp only:)
  moreover have "dom (map_of (cs_idempotency s)) \<subseteq> dom (map_of (cs_messages s))"
    using ok unfolding store_ok_def in_step_def dom_def by (elim conjE, intro Collect_mono) (simp only: imp_conv_disj not_not, metis)
  moreover have "dom (map_of (cs_expires_at s)) = (if sl_ttl_seconds l = None then {} else dom (map_of (cs_messages s)))"
    using ok unfolding store_ok_def in_step_def dom_def by (elim conjE) (simp only: de_Morgan_disj split: if_split, simp)
  moreover have "\<forall>i. dget (cs_session_bytes s) i = map_option message_rows_size (dget (cs_messages s) i)"
    using ok unfolding store_ok_def in_step_def by (elim conjE)
  moreover have "\<forall>i v. dget (cs_last_access s) i = Some v \<longrightarrow> v \<le> cs_access_sequence s"
    using ok unfolding store_ok_def in_step_def by (elim conjE)
  ultimately show ?thesis
    using ok by (auto simp: store_ok_def capacity_exceeded_def)
qed

subsection \<open>An append and what it costs\<close>

definition kept_rows :: "rat \<Rightarrow> conversation_store \<Rightarrow> string \<Rightarrow> string list" where
  "kept_rows t s i = (case live_rows t s i of None \<Rightarrow> [] | Some rows \<Rightarrow> rows)"

lemma freshened_rows:
  assumes "in_step l s"
  shows "dget_or (cs_messages (freshened l i t s)) i [] = kept_rows t s i \<and>
    dget_or (cs_session_bytes (freshened l i t s)) i 0 = message_rows_size (kept_rows t s i)"
proof (rule freshened_pruned [OF assms, of t i])
  fix gone assume gone: "gone \<subseteq> {j. expired_at t s j}" "expired_at t s i \<longrightarrow> i \<in> gone" and step: "in_step l (freshened l i t s)"
    and pruned: "pruned gone s (freshened l i t s)"
  have "dget (cs_messages (freshened l i t s)) i = live_rows t s i"
    using gone pruned by (auto simp: pruned_def live_rows_def)
  moreover have "dget (cs_session_bytes (freshened l i t s)) i = map_option message_rows_size (dget (cs_messages (freshened l i t s)) i)"
    using step by (simp add: in_step_def)
  ultimately show ?thesis by (simp add: kept_rows_def message_rows_size_def split: option.split)
qed

text \<open>C34. An append to a live or new session either does not fit into the store alone, is refused, and takes no live session
  away, or its rows follow the live rows of the session; then every other session is untouched or gone, and a live one that is
  gone was used before every other one that stays.\<close>

theorem append_keeps_recent:
  assumes "store_ok l s" and "limits_ok l" and "strip i \<noteq> []" and "messages \<noteq> []"
    and rows: "rows = map (encode_message_row cd) messages"
  shows "if \<exists>n. sl_max_total_bytes l = Some n \<and> n < message_rows_size (kept_rows t s i @ rows)
    then \<exists>s'. store_append l cd t i messages s = (Inl (capacity_error ''conversation session exceeds max_total_bytes''), s') \<and>
      (\<forall>j. live_rows t s' j = live_rows t s j)
    else \<exists>s' gone. store_append l cd t i messages s = (Inr (), s') \<and> live_rows t s' i = Some (kept_rows t s i @ rows) \<and>
      (\<forall>j. j \<noteq> i \<longrightarrow> dget (cs_messages s') j = (if j \<in> gone then None else dget (cs_messages s) j)) \<and> makes_room t i gone s"
proof -
  let ?s0 = "freshened l i t s"
  have step: "in_step l s" using assms(1) by (simp add: store_ok_def)
  obtain g0 where g0: "g0 \<subseteq> {j. expired_at t s j}" "expired_at t s i \<longrightarrow> i \<in> g0" "in_step l ?s0" "pruned g0 s ?s0"
    using freshened_pruned [OF step, of t i] by blast
  note fresh = freshened_rows [OF step, of i t]
  have large: "too_large l ?s0 i rows \<longleftrightarrow> (\<exists>n. sl_max_total_bytes l = Some n \<and> n < message_rows_size (kept_rows t s i @ rows))"
    using fresh by (simp add: too_large_def message_rows_size_append)
  show ?thesis
  proof (cases "too_large l ?s0 i rows")
    case True
    have "live_rows t ?s0 j = live_rows t s j" for j
      using g0 by (auto simp: live_rows_def pruned_def expired_at_iff split: if_splits)
    then show ?thesis using True large assms(3,4) rows by (auto simp: append_run Let_def)
  next
    case False
    let ?a = "grown l t i rows ?s0"
    obtain s' g1 where s': "enforce_capacity l i t ?a = (Inr (), s')" "pruned g1 ?a s'" "i \<notin> g1" "makes_room t i g1 ?a" "\<not> expired_at t s' i"
      using append_settles [OF g0(3) assms(2) freshened_live [OF step] False, of ?a] by blast
    have other: "dget (cs_messages ?a) j = dget (cs_messages ?s0) j" "dget (cs_last_access ?a) j = dget (cs_last_access ?s0) j"
      "dget (cs_expires_at ?a) j = dget (cs_expires_at ?s0) j" if "j \<noteq> i" for j
      using that by (simp_all add: grown_fields dget_dset split: option.splits)
    have "dget (cs_messages s') i = Some (kept_rows t s i @ rows)"
      using s'(2,3) fresh by (simp add: pruned_def grown_fields dget_dset)
    moreover have "dget (cs_messages s') j = (if j \<in> g0 \<union> g1 then None else dget (cs_messages s) j)" if "j \<noteq> i" for j
      using s'(2) g0(4) other [OF that] by (simp add: pruned_def)
    moreover have "makes_room t i (g0 \<union> g1) s"
      unfolding makes_room_def
    proof (intro allI impI)
      fix j k assume j: "j \<in> g0 \<union> g1" "j \<noteq> i" "live_rows t s j \<noteq> None" and k: "k \<notin> g0 \<union> g1" "k \<noteq> i" "dget (cs_messages s) k \<noteq> None"
      have "j \<notin> g0" using j(3) g0(1) by (auto simp: live_rows_def)
      then have "j \<in> g1" "live_rows t ?a j = live_rows t s j" "dget (cs_last_access ?a) j = dget (cs_last_access s) j"
        using j(1) g0(4) other [OF j(2)] by (auto simp: live_rows_def expired_at_iff pruned_def)
      moreover have "dget (cs_messages ?a) k = dget (cs_messages s) k" "dget (cs_last_access ?a) k = dget (cs_last_access s) k"
        using k(1) g0(4) other [OF k(2)] by (simp_all add: pruned_def)
      ultimately show "the (dget (cs_last_access s) j) < the (dget (cs_last_access s) k)"
        using s'(4) j k unfolding makes_room_def by (metis UnI2)
    qed
    ultimately show ?thesis
      using False large assms(3,4) rows s'(1,5) by (auto simp: append_run Let_def live_rows_def)
  qed
qed

subsection \<open>Appends that happen once\<close>

definition recorded :: "conversation_store \<Rightarrow> string \<Rightarrow> string \<Rightarrow> string \<Rightarrow> bool" where
  "recorded s i key d \<longleftrightarrow> dget (dget_or (cs_idempotency s) i []) key = Some d"

lemma recorded_simps [simp]:
  "recorded (touch_session j s) i key d \<longleftrightarrow> recorded s i key d"
  "recorded (grown l t j rows s) i key d \<longleftrightarrow> recorded s i key d"
  "recorded (s\<lparr>cs_next_sweep_at := x\<rparr>) i key d \<longleftrightarrow> recorded s i key d"
  by (simp_all add: recorded_def touch_session_def grown_fields)

lemma recorded_keyed: "recorded (keyed j key' d' s) i key d \<longleftrightarrow> (if j = i \<and> key' = key then d' = d else recorded s i key d)"
  by (auto simp: recorded_def keyed_def dget_dset)

lemma recorded_pruned: "pruned gone s s' \<Longrightarrow> i \<notin> gone \<Longrightarrow> recorded s' i key d \<longleftrightarrow> recorded s i key d"
  by (simp add: recorded_def pruned_def)

lemma recorded_freshened:
  assumes "in_step l s" and "live_rows t s i \<noteq> None"
  shows "(recorded (freshened l j t s) i key d \<longleftrightarrow> recorded s i key d) \<and> dget (cs_messages (freshened l j t s)) i = live_rows t s i"
proof (rule freshened_pruned [OF assms(1), of t j])
  fix gone assume "gone \<subseteq> {j. expired_at t s j}" "pruned gone s (freshened l j t s)"
  moreover have "\<not> expired_at t s i" using assms(2) by (auto simp: live_rows_def)
  ultimately show ?thesis
    using recorded_pruned [of gone s "freshened l j t s" i] by (auto simp: pruned_def live_rows_def)
qed

fun live_for :: "store_call \<Rightarrow> conversation_store \<Rightarrow> string \<Rightarrow> bool" where
  "live_for (SC_load t j) s i \<longleftrightarrow> live_rows t s i \<noteq> None"
| "live_for (SC_tail t j n limit) s i \<longleftrightarrow> live_rows t s i \<noteq> None"
| "live_for (SC_append t j ms) s i \<longleftrightarrow> live_rows t s i \<noteq> None"
| "live_for (SC_append_once t j key ms) s i \<longleftrightarrow> live_rows t s i \<noteq> None"
| "live_for (SC_clear j) s i \<longleftrightarrow> dget (cs_messages s) i \<noteq> None"
| "live_for (SC_sweep t) s i \<longleftrightarrow> live_rows t s i \<noteq> None"
| "live_for (SC_stats t) s i \<longleftrightarrow> live_rows t s i \<noteq> None"

text \<open>The session is live for every call, and no call evicts or clears it.\<close>

fun kept_through :: "store_limits \<Rightarrow> conversation_codec \<Rightarrow> string \<Rightarrow> store_call list \<Rightarrow> conversation_store \<Rightarrow> bool" where
  "kept_through l cd i [] s \<longleftrightarrow> True"
| "kept_through l cd i (c # cs) s \<longleftrightarrow> live_for c s i \<and> dget (cs_messages (store_step l cd c s)) i \<noteq> None \<and>
     kept_through l cd i cs (store_step l cd c s)"

lemma recorded_enforced:
  assumes "in_step l s" and "limits_ok l" and "\<not> expired_at t s j" and "\<not> too_large l s j rows"
    and "a = grown l t j rows s \<or> a = keyed j key' d' (grown l t j rows s)" and "recorded a i key d"
    and "enforce_capacity l j t a = (out, s')" and "dget (cs_messages s') i \<noteq> None"
  shows "recorded s' i key d"
proof -
  obtain gone where "pruned gone a s'" using append_settles [OF assms(1-5)] assms(7) by auto
  then show ?thesis using assms(6,8) recorded_pruned [of gone a s' i] by (auto simp: pruned_def split: if_splits)
qed

lemma step_recorded:
  assumes ok: "store_ok l s" and limits: "limits_ok l" and recorded: "recorded s i key d" and live: "live_for c s i"
    and present: "dget (cs_messages (store_step l cd c s)) i \<noteq> None"
  shows "recorded (store_step l cd c s) i key d"
proof -
  have step: "in_step l s" using ok by (simp add: store_ok_def)
  note fresh = recorded_freshened [OF step, of _ i _ key d]
  have fresh_step: "in_step l (freshened l j t s)" for j t using freshened_ok [OF ok] by (simp add: store_ok_def)
  have swept: "recorded (sweep_sessions t s) i key d" if "live_rows t s i \<noteq> None" for t
    using recorded_pruned [of "{j. expired_at t s j}" s "sweep_sessions t s" i key d] sweep_pruned [OF step, of t] recorded that
    by (auto simp: live_rows_def split: if_splits)
  note enforced = recorded_enforced [OF fresh_step limits freshened_live [OF step]]
  show ?thesis
  proof (cases c)
    case (SC_load t j)
    then show ?thesis using fresh [of t j] recorded live by (auto simp: load_run Let_def)
  next
    case (SC_tail t j n limit)
    then show ?thesis using fresh [of t j] recorded live by (auto simp: tail_run Let_def split: sum.splits option.splits)
  next
    case (SC_append t j ms)
    let ?a = "grown l t j (map (encode_message_row cd) ms) (freshened l j t s)"
    obtain out s' where "enforce_capacity l j t ?a = (out, s')" by fastforce
    then show ?thesis
      using SC_append fresh [of t j] recorded live present enforced [of j t "map (encode_message_row cd) ms" ?a _ _ i key d out s']
      by (auto simp: append_run Let_def)
  next
    case (SC_append_once t j key' ms)
    let ?d = "message_rows_digest cd (map (encode_message_row cd) ms)"
    let ?a = "keyed j key' ?d (grown l t j (map (encode_message_row cd) ms) (freshened l j t s))"
    obtain out s' where run: "enforce_capacity l j t ?a = (out, s')" by fastforce
    have "recorded ?a i key d" if "dget (dget_or (cs_idempotency (freshened l j t s)) j []) key' = None"
    proof -
      have before: "recorded (freshened l j t s) i key d" using fresh [of t j] recorded live SC_append_once by simp
      then have "\<not> (j = i \<and> key' = key)" using that by (auto simp: recorded_def)
      then show ?thesis using before by (auto simp: recorded_keyed)
    qed
    then show ?thesis
      using SC_append_once fresh [of t j] recorded live present run
        enforced [of j t "map (encode_message_row cd) ms" ?a key' ?d i key d out s']
      by (auto simp: append_once_run Let_def split: option.splits sum.splits if_splits)
  next
    case (SC_clear j)
    then show ?thesis
      using recorded present
      by (auto simp: store_clear_def store_identifier_def bindP_run ofR_def modifyP_def require_def recorded_def delete_session_def
          dget_delete split: if_splits)
  next
    case (SC_sweep t)
    then show ?thesis
      using live swept [of t] by (simp add: store_sweep_expired_def bindP_run modifyP_def readP_def ret_def)
  next
    case (SC_stats t)
    then show ?thesis
      using live recorded swept [of t] by (simp add: store_stats_def sweep_if_due_def bindP_run modifyP_def readP_def)
  qed
qed

lemma kept_recorded:
  "store_ok l s \<Longrightarrow> limits_ok l \<Longrightarrow> recorded s i key d \<Longrightarrow> kept_through l cd i cs s \<Longrightarrow> recorded (fold (store_step l cd) cs s) i key d"
  by (induction cs arbitrary: s) (auto intro: step_recorded store_step_ok)

lemma once_records:
  assumes "store_ok l s" and "limits_ok l" and "messages \<noteq> []" and run: "store_append_once l cd t i key messages s = (Inr b, s')"
  shows "recorded s' i key (message_rows_digest cd (map (encode_message_row cd) messages)) \<and> strip i \<noteq> [] \<and> strip key \<noteq> []"
proof -
  let ?rows = "map (encode_message_row cd) messages" and ?s0 = "freshened l i t s"
  let ?d = "message_rows_digest cd ?rows" and ?a = "keyed i key (message_rows_digest cd ?rows) (grown l t i ?rows ?s0)"
  have ids: "strip i \<noteq> []" "strip key \<noteq> []" using run by (auto simp: append_once_run split: if_splits)
  have step: "in_step l s" "in_step l ?s0" using assms(1) freshened_ok [OF assms(1)] by (auto simp: store_ok_def)
  have "recorded s' i key ?d"
  proof (cases "dget (dget_or (cs_idempotency ?s0) i []) key")
    case None
    then have fits1: "\<not> too_large l ?s0 i ?rows" using run ids assms(3) by (auto simp: append_once_run Let_def)
    obtain s1 gone where "enforce_capacity l i t ?a = (Inr (), s1)" "pruned gone ?a s1" "i \<notin> gone"
      using append_settles [OF step(2) assms(2) freshened_live [OF step(1)] fits1, of ?a] by blast
    then have "s' = s1" "recorded s1 i key ?d \<longleftrightarrow> recorded ?a i key ?d"
      using run ids assms(3) None fits1 recorded_pruned [of gone ?a s1 i] by (auto simp: append_once_run Let_def)
    then show ?thesis by (simp add: recorded_keyed)
  next
    case (Some d)
    then have "d = ?d" "s' = ?s0 \<or> s' = touch_session i ?s0"
      using run ids assms(3) by (auto simp: append_once_run Let_def split: if_splits)
    then show ?thesis using Some by (auto simp: recorded_def touch_session_def)
  qed
  then show ?thesis using ids by simp
qed

text \<open>C35. After a keyed append, whatever the store is asked as long as the session stays, the same append again changes no row
  and says so, and other messages under the key are refused.\<close>

theorem append_once_once:
  assumes "store_ok l s" and "limits_ok l" and "messages \<noteq> []"
    and "store_append_once l cd t i key messages s = (Inr b, s1)" and "kept_through l cd i cs s1"
    and s2: "s2 = fold (store_step l cd) cs s1" and live: "live_rows t' s2 i = Some rows"
  shows "(\<exists>s3. store_append_once l cd t' i key messages s2 = (Inr False, s3) \<and> dget (cs_messages s3) i = Some rows) \<and>
    (\<forall>other. other \<noteq> [] \<and> message_rows_digest cd (map (encode_message_row cd) other) \<noteq>
        message_rows_digest cd (map (encode_message_row cd) messages) \<longrightarrow>
      fst (store_append_once l cd t' i key other s2) = Inl (ValueError ''idempotency key was reused with different messages''))"
proof -
  let ?d = "message_rows_digest cd (map (encode_message_row cd) messages)"
  note first = once_records [OF assms(1-4)]
  have s1: "store_ok l s1" using append_ok [OF assms(1,2), of cd t i messages key] assms(4) by simp
  have "recorded s2 i key ?d" unfolding s2 using kept_recorded [OF s1 assms(2) _ assms(5)] first by simp
  moreover have "in_step l s2" using store_steps_ok [OF s1 assms(2)] by (simp add: s2 store_ok_def)
  ultimately have "recorded (freshened l i t' s2) i key ?d" "dget (cs_messages (freshened l i t' s2)) i = Some rows"
    using recorded_freshened [of l s2 t' i i key ?d] live by auto
  then show ?thesis
    using first assms(3) by (auto simp: append_once_run recorded_def Let_def touch_session_def)
qed

end
