(* ===== verification/Conversation_Pages.thy ===== *)
theory Conversation_Pages
  imports Conversation_Store_Props
begin

text \<open>
  Messages survive their encoding, and the pages of a session, followed from the first to the last, are its messages.
\<close>

subsection \<open>Messages and their dictionaries\<close>

definition plain_message :: "chat_message \<Rightarrow> bool" where
  "plain_message m \<longleftrightarrow> ms_tool_call_id m \<noteq> Some [] \<and> ms_name m \<noteq> Some []"

lemma role_round_trip: "role_of_text (role_value r) = Inr r"
  by (cases r) (simp_all add: role_of_text_def)

lemma mapR_map: "(\<And>x. x \<in> set xs \<Longrightarrow> f (g x) = Inr x) \<Longrightarrow> mapR f (map g xs) = Inr xs"
  by (induction xs) auto

lemma tool_call_round_trip: "(\<And>t. text_of (PStr t) = t) \<Longrightarrow> tool_call_from_dict text_of (tool_call_to_dict c) = Inr c"
  by (simp add: tool_call_from_dict_def tool_call_to_dict_def required_field_def mapping_field_def)

text \<open>A message whose call identifier and name are not empty strings is the message read from its dictionary.\<close>

lemma message_round_trip:
  assumes "\<And>t. text_of (PStr t) = t" and "plain_message m"
  shows "message_from_dict text_of (message_to_dict m) = Inr m"
proof -
  have calls: "mapR (tool_call_from_dict text_of) (map tool_call_to_dict (ms_tool_calls m)) = Inr (ms_tool_calls m)"
    by (rule mapR_map) (rule tool_call_round_trip [OF assms(1)])
  have ids: "ms_tool_call_id m = None \<or> (\<exists>c cs. ms_tool_call_id m = Some (c # cs))" "ms_name m = None \<or> (\<exists>c cs. ms_name m = Some (c # cs))"
    using assms(2) unfolding plain_message_def by (metis list.exhaust not_None_eq)+
  show ?thesis
    using ids calls
    by (cases "ms_content m"; cases "ms_tool_calls m = []"; cases "ms_metadata m = []")
      (auto simp: message_from_dict_def message_to_dict_def required_field_def optional_text_field_def mapping_field_def text_entry_def
        role_round_trip assms(1))
qed

text \<open>The codec gives back what it has encoded.\<close>

definition encodes_back :: "conversation_codec \<Rightarrow> chat_message \<Rightarrow> bool" where
  "encodes_back cd m \<longleftrightarrow> cd_loads cd (cd_dumps cd (message_to_dict m)) = Inr (message_to_dict m) \<and> (\<forall>t. cd_text cd (PStr t) = t) \<and>
     plain_message m"

lemma row_round_trip: "encodes_back cd m \<Longrightarrow> decode_message_row cd (encode_message_row cd m) = Inr m"
  using message_round_trip [of "cd_text cd" m]
  by (simp add: encodes_back_def decode_message_row_def encode_message_row_def message_to_dict_def)

subsection \<open>Pages\<close>

lemma message_id_nonblank: "strip (source_message_id cd i n m) \<noteq> []"
proof -
  obtain rest where eq: "source_message_id cd i n m = CHR ''m'' # rest" by (simp add: source_message_id_def)
  have "lstrip (CHR ''m'' # rest) = CHR ''m'' # rest" by (simp add: lstrip_def is_space_def)
  moreover have "lstrip (rev rest @ [CHR ''m'']) \<noteq> []" by (auto simp: lstrip_def is_space_def)
  ultimately show ?thesis unfolding eq by (simp add: strip_def)
qed

lemma numbered:
  assumes "1 \<le> n"
  shows "\<exists>qs. number_messages cd i n ms = Inr qs \<and> map qm_message qs = ms \<and> map qm_sequence qs = map (\<lambda>k. n + int k) [0..<length ms]"
  using assms
proof (induction ms arbitrary: n)
  case (Cons m ms)
  have "1 \<le> n + 1" using Cons.prems by simp
  from Cons.IH [OF this] obtain qs where qs: "number_messages cd i (n + 1) ms = Inr qs" "map qm_message qs = ms"
    "map qm_sequence qs = map (\<lambda>k. n + 1 + int k) [0..<length ms]" by blast
  have "map (\<lambda>k. n + int k) [0..<length (m # ms)] = n # map (\<lambda>k. n + 1 + int k) [0..<length ms]"
    by (simp add: upt_conv_Cons map_Suc_upt [symmetric] comp_def del: upt_Suc)
  then show ?case
    using qs Cons.prems message_id_nonblank [of cd i n m]
    by (simp add: SequencedMessage_def store_identifier_def)
qed simp

lemma page_spec:
  assumes "\<And>m. m \<in> set ms \<Longrightarrow> encodes_back cd m" and "0 \<le> n"
  shows "\<exists>p. conversation_page_of cd (map (encode_message_row cd) ms) i n more1 = Inr p \<and> map qm_message (pg_items p) = ms \<and>
    map qm_sequence (pg_items p) = map (\<lambda>k. n + 1 + int k) [0..<length ms] \<and> pg_next_sequence p = n + int (length ms) \<and> pg_has_more p = more1"
proof -
  have rows: "mapR (decode_message_row cd) (map (encode_message_row cd) ms) = Inr ms"
    using assms(1) row_round_trip by (intro mapR_map) blast
  obtain qs where qs: "number_messages cd i (n + 1) ms = Inr qs" "map qm_message qs = ms"
    "map qm_sequence qs = map (\<lambda>k. n + 1 + int k) [0..<length ms]" using numbered [of "n + 1" cd i ms] assms(2) by auto
  have len: "length qs = length ms" using qs(2) by (metis length_map)
  have final: "qm_sequence (last qs) = n + int (length ms)" if "ms \<noteq> []"
  proof -
    have "qs \<noteq> []" using len that by auto
    then have "qm_sequence (last qs) = last (map (\<lambda>k. n + 1 + int k) [0..<length ms])"
      using qs(3) by (metis last_map)
    then show ?thesis using that by (cases ms) (simp_all add: last_map)
  qed
  let ?page = "\<lparr>pg_items = qs, pg_after_sequence = n, pg_next_sequence = (if qs = [] then n else qm_sequence (last qs)), pg_has_more = more1\<rparr>"
  have next1: "pg_next_sequence ?page = n + int (length ms)" using final len by (cases ms) auto
  have numbers: "map qm_sequence qs = map (\<lambda>k. n + 1 + int k) [0..<length qs]" using qs(3) len by simp
  have "ConversationPage ?page = Inr ?page"
  proof (cases "qs = []")
    case True
    then show ?thesis using assms(2) by (simp add: ConversationPage_def validate_after_sequence_def)
  next
    case False
    then have "last (map (\<lambda>k. n + 1 + int k) [0..<length qs]) = qm_sequence (last qs)"
      using numbers by (metis last_map)
    then show ?thesis
      using assms(2) False numbers next1 by (simp add: ConversationPage_def validate_after_sequence_def)
  qed
  then show ?thesis
    using rows qs next1 by (intro exI [of _ ?page]) (simp add: conversation_page_of_def)
qed

lemma tail_page:
  assumes "in_step l s" and "live_rows t s i = Some (map (encode_message_row cd) ms)" and "\<And>m. m \<in> set ms \<Longrightarrow> encodes_back cd m"
    and "strip i \<noteq> []" and "0 \<le> n" "n \<le> int (length ms)" and "1 \<le> limit" "limit \<le> 10000"
  shows "\<exists>p s'. store_load_tail l cd t i n limit s = (Inr p, s') \<and> live_rows t s' i = live_rows t s i \<and> in_step l s' \<and>
    map qm_message (pg_items p) = take (nat limit) (drop (nat n) ms) \<and>
    pg_next_sequence p = n + int (length (pg_items p)) \<and> (pg_has_more p \<longleftrightarrow> pg_next_sequence p < int (length ms))"
proof -
  let ?rows = "map (encode_message_row cd) ms" and ?s0 = "freshened l i t s"
  let ?page = "take (nat limit) (drop (nat n) ms)"
  have found: "dget (cs_messages ?s0) i = Some ?rows"
    using recorded_freshened [OF assms(1), of t i i] assms(2) by simp
  have step: "in_step l ?s0" by (rule freshened_pruned [OF assms(1), of t i])
  have rows: "take (nat limit) (drop (nat n) ?rows) = map (encode_message_row cd) ?page" by (simp add: take_map drop_map)
  have good: "encodes_back cd m" if "m \<in> set ?page" for m using assms(3) that by (meson in_set_dropD in_set_takeD)
  obtain p where p: "conversation_page_of cd (map (encode_message_row cd) ?page) i n (n + int (length ?page) < int (length ms)) = Inr p"
    "map qm_message (pg_items p) = ?page" "pg_next_sequence p = n + int (length ?page)"
    "pg_has_more p = (n + int (length ?page) < int (length ms))"
    using page_spec [OF good assms(5)] by blast
  have "store_load_tail l cd t i n limit s = (Inr p, touch_session i ?s0)"
    using p(1) assms(4-8) found rows
    by (simp add: tail_run validate_page_request_def validate_after_sequence_def Let_def del: length_take)
  moreover have "live_rows t (touch_session i ?s0) i = live_rows t s i"
    using found freshened_live [OF assms(1), of t i] assms(2) by (simp add: live_rows_def expired_at_iff touch_session_def)
  moreover have "in_step l (touch_session i ?s0)" using touch_in_step [OF step] found by simp
  moreover have "length (pg_items p) = length ?page" using p(2) by (metis length_map)
  ultimately show ?thesis using p by auto
qed

text \<open>A reader follows the pages from a cursor while there is more.\<close>

fun read_pages :: "nat \<Rightarrow> store_limits \<Rightarrow> conversation_codec \<Rightarrow> rat \<Rightarrow> string \<Rightarrow> int \<Rightarrow> int \<Rightarrow> (conversation_store, chat_message list) prog" where
  "read_pages 0 l cd t i n limit = raise FuelOut"
| "read_pages (Suc fuel) l cd t i n limit = bindP (store_load_tail l cd t i n limit) (\<lambda>p.
     if pg_has_more p then bindP (read_pages fuel l cd t i (pg_next_sequence p) limit) (\<lambda>ms. ret (map qm_message (pg_items p) @ ms))
     else ret (map qm_message (pg_items p)))"

lemma read_pages_spec:
  assumes "in_step l s" and "live_rows t s i = Some (map (encode_message_row cd) ms)" and "\<And>m. m \<in> set ms \<Longrightarrow> encodes_back cd m"
    and "strip i \<noteq> []" and "0 \<le> n" "n \<le> int (length ms)" and "1 \<le> limit" "limit \<le> 10000" and "int (length ms) - n < int fuel"
  shows "fst (read_pages fuel l cd t i n limit s) = Inr (drop (nat n) ms)"
  using assms
proof (induction fuel arbitrary: n s)
  case (Suc fuel)
  obtain p s' where p: "store_load_tail l cd t i n limit s = (Inr p, s')" "live_rows t s' i = live_rows t s i" "in_step l s'"
    "map qm_message (pg_items p) = take (nat limit) (drop (nat n) ms)" "pg_next_sequence p = n + int (length (pg_items p))"
    "pg_has_more p \<longleftrightarrow> pg_next_sequence p < int (length ms)"
    using tail_page [OF Suc.prems(1-8)] by blast
  have len: "length (pg_items p) = min (nat limit) (length ms - nat n)"
    using arg_cong [OF p(4), of length] by (simp add: min.commute)
  show ?case
  proof (cases "pg_has_more p")
    case True
    then have lt: "pg_next_sequence p < int (length ms)" using p(6) by simp
    then have progress: "length (pg_items p) = nat limit" "0 < length (pg_items p)"
      using len p(5) Suc.prems(5-7) by (auto simp: min_def split: if_splits)
    have "fst (read_pages fuel l cd t i (pg_next_sequence p) limit s') = Inr (drop (nat (pg_next_sequence p)) ms)"
      using Suc.IH [OF p(3), of "pg_next_sequence p"] Suc.prems p(2,5) lt progress by simp
    moreover have "take (nat limit) (drop (nat n) ms) @ drop (nat (pg_next_sequence p)) ms = drop (nat n) ms"
    proof -
      have "nat (pg_next_sequence p) = nat limit + nat n" using p(5) progress Suc.prems(5) by simp
      then show ?thesis by (metis append_take_drop_id drop_drop)
    qed
    ultimately show ?thesis using True p(1,4) by (auto simp: bindP_run ret_def split: prod.split sum.splits)
  next
    case False
    then have "length ms - nat n \<le> nat limit" using p(5,6) len Suc.prems(5,6) by (auto simp: min_def split: if_splits)
    then show ?thesis using False p(1,4) by (simp add: bindP_run ret_def)
  qed
qed simp

text \<open>C36. Pages of any size, followed from the first, give the messages of the session, each once and in order.\<close>

theorem pages_cover_session:
  assumes "store_ok l s" and "live_rows t s i = Some (map (encode_message_row cd) ms)" and "\<And>m. m \<in> set ms \<Longrightarrow> encodes_back cd m"
    and "strip i \<noteq> []" and "1 \<le> limit" "limit \<le> 10000"
  shows "fst (read_pages (Suc (length ms)) l cd t i 0 limit s) = Inr ms"
  using read_pages_spec [of l s t i cd ms 0 limit "Suc (length ms)"] assms by (simp add: store_ok_def)

end
