(* ===== verification/Conversation_Samples.thy ===== *)
theory Conversation_Samples
  imports Conversation_Pages
begin

text \<open>
  A store of at most two sessions with a time to live, and the theorems on it at a few calls.
\<close>

definition small_limits :: store_limits where
  "small_limits = \<lparr>sl_ttl_seconds = Some 100, sl_max_sessions = Some 2, sl_max_total_bytes = Some 20, sl_sweep_interval = 60\<rparr>"

definition toy_codec :: conversation_codec where
  "toy_codec = \<lparr>cd_dumps = (\<lambda>v. case v of PDict (_ # (_, PStr t) # _) \<Rightarrow> t | _ \<Rightarrow> []), cd_canonical = (\<lambda>v. []),
     cd_loads = (\<lambda>row. Inr (message_to_dict (user_message row))), cd_text = (\<lambda>v. case v of PStr t \<Rightarrow> t | _ \<Rightarrow> []),
     cd_sha256 = (\<lambda>t. t)\<rparr>"

definition empty_store :: conversation_store where
  "empty_store = \<lparr>cs_messages = [], cs_idempotency = [], cs_expires_at = [], cs_session_bytes = [], cs_total_bytes = 0,
     cs_last_access = [], cs_access_sequence = 0, cs_next_sweep_at = 0\<rparr>"

lemma empty_store_new: "InMemoryConversationStore small_limits 0 = Inr empty_store"
  by (simp add: InMemoryConversationStore_def small_limits_def empty_store_def all_ok.simps)

definition user_messages :: "string list \<Rightarrow> chat_message list" where
  "user_messages = map user_message"

lemma user_messages_back: "m \<in> set (user_messages ts) \<Longrightarrow> encodes_back toy_codec m"
  by (auto simp: user_messages_def encodes_back_def toy_codec_def message_to_dict_def user_message_def system_message_def plain_message_def)

definition three_sessions :: "store_call list" where
  "three_sessions = [SC_append 1 ''a'' (user_messages [''hello'']), SC_append 2 ''b'' (user_messages [''good'', ''day'']),
     SC_load 3 ''a'', SC_append 4 ''c'' (user_messages [''bye''])]"

definition busy_store :: conversation_store where
  "busy_store = fold (store_step small_limits toy_codec) (take 3 three_sessions) empty_store"

lemma busy_store_ok: "store_ok small_limits busy_store \<and> limits_ok small_limits"
  unfolding busy_store_def using store_steps_ok new_store_ok [OF empty_store_new] by blast

theorem store_stays_bounded_witness:
  "int (length (cs_messages (fold (store_step small_limits toy_codec) three_sessions empty_store))) \<le> 2 \<and>
   cs_total_bytes (fold (store_step small_limits toy_codec) three_sessions empty_store) \<le> 20"
proof -
  have "sl_max_sessions small_limits = Some 2" "sl_max_total_bytes small_limits = Some 20" by (simp_all add: small_limits_def)
  then show ?thesis using store_stays_bounded [OF empty_store_new refl, of toy_codec three_sessions] by simp
qed

theorem append_keeps_recent_witness:
  "\<exists>s'. store_append small_limits toy_codec 4 ''c'' (user_messages [''bye'']) busy_store = (Inr (), s') \<and>
     live_rows 4 s' ''c'' = Some [''bye''] \<and> (dget (cs_messages s') ''b'' = None \<or> dget (cs_messages s') ''b'' = Some [''good'', ''day''])"
proof -
  have facts: "strip ''c'' \<noteq> []" "user_messages [''bye''] \<noteq> []" "kept_rows 4 busy_store ''c'' = []"
    "map (encode_message_row toy_codec) (user_messages [''bye'']) = [''bye'']" "message_rows_size [''bye''] = 3"
    "dget (cs_messages busy_store) ''b'' = Some [''good'', ''day'']"
    by code_simp+
  show ?thesis
    using append_keeps_recent [OF conjunct1 [OF busy_store_ok] conjunct2 [OF busy_store_ok] facts(1,2) refl, where cd = toy_codec and t = 4] facts
    by (auto simp: small_limits_def)
qed

definition once_calls :: "store_call list" where
  "once_calls = [SC_append 2 ''b'' (user_messages [''good'']), SC_append 3 ''a'' (user_messages [''more'']), SC_sweep 4]"

theorem append_once_once_witness:
  "\<exists>s3. store_append_once small_limits toy_codec 5 ''a'' ''run-1'' (user_messages [''hello''])
      (fold (store_step small_limits toy_codec) once_calls (snd (store_append_once small_limits toy_codec 1 ''a'' ''run-1''
        (user_messages [''hello'']) empty_store))) = (Inr False, s3) \<and> dget (cs_messages s3) ''a'' = Some [''hello'', ''more'']"
proof -
  let ?s1 = "snd (store_append_once small_limits toy_codec 1 ''a'' ''run-1'' (user_messages [''hello'']) empty_store)"
  let ?s2 = "fold (store_step small_limits toy_codec) once_calls ?s1"
  have first: "store_append_once small_limits toy_codec 1 ''a'' ''run-1'' (user_messages [''hello'']) empty_store = (Inr True, ?s1)"
  proof -
    have "fst (store_append_once small_limits toy_codec 1 ''a'' ''run-1'' (user_messages [''hello'']) empty_store) = Inr True" by code_simp
    then show ?thesis by (metis prod.collapse)
  qed
  have kept: "kept_through small_limits toy_codec ''a'' once_calls ?s1" by code_simp
  have live: "live_rows 5 ?s2 ''a'' = Some [''hello'', ''more'']" by code_simp
  have "user_messages [''hello''] \<noteq> []" by code_simp
  from append_once_once [OF conjunct1 [OF new_store_ok [OF empty_store_new]] conjunct2 [OF new_store_ok [OF empty_store_new]]
      this first kept refl live]
  show ?thesis by blast
qed

theorem pages_cover_session_witness:
  "fst (read_pages 3 small_limits toy_codec 4 ''b'' 0 1 busy_store) = Inr (user_messages [''good'', ''day''])"
proof -
  have facts: "live_rows 4 busy_store ''b'' = Some (map (encode_message_row toy_codec) (user_messages [''good'', ''day'']))" "strip ''b'' \<noteq> []"
    by code_simp+
  have "length (user_messages [''good'', ''day'']) = 2" by code_simp
  then show ?thesis
    using pages_cover_session [OF conjunct1 [OF busy_store_ok] facts(1) user_messages_back facts(2), where limit = 1]
    by (simp add: numeral_3_eq_3 numeral_2_eq_2)
qed

end
