(* ===== verification/Spec2Isabelle.thy ===== *)
theory Spec2Isabelle
  imports Budget_Props Agent_Registry Delegation_Guards Receipts Delegation_Ids Delegation_Invoker
    Coordinator_Samples Plan_Engine_Samples Tool_Samples Memory_Samples Model_Guard_Samples Conversation_Samples
begin

text \<open>
  A verification library for \<^verbatim>\<open>moduagent\<close> (\<^verbatim>\<open>src/moduagent/\<close>), a Python runtime for
  agents that follow a plan, call Tools, delegate to other agents and keep their conversation within a token budget.

  \<^bold>\<open>The program.\<close>  A run of an agent is driven by an execution engine.  The plan engine asks its policy what to
  do next, calls a model within the bounds of a circuit breaker and of a memory policy, executes Tool calls, recovers from
  their failures and finalizes an answer, with a checkpoint after each durable boundary.  A Tool may delegate to
  another agent: the delegation coordinator authorizes the delegation, claims a receipt for it, reserves a lease of the
  budget that all runs of an execution group share, invokes the endpoint of the callee, and settles receipt and lease.  Agents
  are found in a registry of versioned definitions.

  \<^bold>\<open>Theories and the code they model.\<close>  All paths are below \<^verbatim>\<open>src/moduagent/\<close>.  A \<^verbatim>\<open>_Props\<close> theory proves what its
  component promises, a \<^verbatim>\<open>_Samples\<close> theory applies the theorems to concrete runs.

  \<^item> \<^theory_text>\<open>Prelude\<close>: exceptions, results, programs, dictionaries, dynamic values, suspension points.
    \<^theory_text>\<open>Program_Logic\<close>: pre- and postconditions, with one for the exit by an exception.
    \<^theory_text>\<open>Safe_Programs\<close>: programs that keep a relation and raise only stable failures.
  \<^item> \<^theory_text>\<open>Agent_Refs\<close>, \<^theory_text>\<open>Agent_Definitions\<close>, \<^theory_text>\<open>Agent_Registry\<close>: \<^verbatim>\<open>definitions/models.py\<close>,
    \<^verbatim>\<open>definitions/registry.py\<close>, \<^verbatim>\<open>config.py\<close> (run limits).  The registry is one state; each operation
    holds its lock and is one step.
  \<^item> \<^theory_text>\<open>Delegation_Models\<close>, \<^theory_text>\<open>Delegation_Guards\<close>, \<^theory_text>\<open>Delegation_Ids\<close>, \<^theory_text>\<open>Delegation_Invoker\<close>:
    \<^verbatim>\<open>delegation/models.py\<close>, \<^verbatim>\<open>guards.py\<close>, \<^verbatim>\<open>sessions.py\<close>, \<^verbatim>\<open>events.py\<close>, the invoker of
    \<^verbatim>\<open>delegation/registry.py\<close>.
  \<^item> \<^theory_text>\<open>Cas_Store\<close>: the contract of the revisioned stores, as the locales \<^verbatim>\<open>versioned_store\<close> and
    \<^verbatim>\<open>cas_store\<close>.  \<^theory_text>\<open>Budget_State\<close>, \<^theory_text>\<open>Budget_Steps\<close>, \<^theory_text>\<open>Budget_Ledger\<close>,
    \<^theory_text>\<open>Budget_Props\<close>: \<^verbatim>\<open>delegation/budget.py\<close>.  \<^theory_text>\<open>Receipts\<close>:
    \<^verbatim>\<open>delegation/receipts.py\<close>.  Both stores interpret the contract.
  \<^item> \<^theory_text>\<open>Coordinator_Model\<close>, \<^theory_text>\<open>Coordinator\<close>, \<^theory_text>\<open>Coordinator_Safety\<close>,
    \<^theory_text>\<open>Coordinator_Props\<close>: \<^verbatim>\<open>delegation/coordinator.py\<close>.
  \<^item> \<^theory_text>\<open>Tool_Values\<close>, \<^theory_text>\<open>Tool_Failures\<close>, \<^theory_text>\<open>Tool_Runtime\<close>, \<^theory_text>\<open>Tool_Batch\<close>:
    \<^verbatim>\<open>tools/base.py\<close>, \<^verbatim>\<open>arguments.py\<close>, \<^verbatim>\<open>registry.py\<close>, \<^verbatim>\<open>auth.py\<close>, \<^verbatim>\<open>failure.py\<close>,
    \<^verbatim>\<open>runtime.py\<close>.  \<^theory_text>\<open>Tool_Recovery\<close>: \<^verbatim>\<open>execution/planning/recovery.py\<close>.
  \<^item> \<^theory_text>\<open>Plan_Model\<close>, \<^theory_text>\<open>Plan_Execution\<close>, \<^theory_text>\<open>Plan_Codec\<close>, \<^theory_text>\<open>Plan_Policy\<close>
    with \<^theory_text>\<open>Plan_Policy_Runs\<close> and \<^theory_text>\<open>Plan_Policy_Frames\<close>: plans, the execution state, their
    dictionaries and the strict policy of \<^verbatim>\<open>decision/planning.py\<close>.
  \<^item> \<^theory_text>\<open>Plan_Engine_State\<close>, \<^theory_text>\<open>Plan_State_Codec\<close>: \<^verbatim>\<open>execution/planning/state.py\<close>.
    \<^theory_text>\<open>Plan_Engine\<close>, \<^theory_text>\<open>Plan_Engine_Logic\<close>, \<^theory_text>\<open>Plan_Engine_Final\<close>:
    \<^verbatim>\<open>execution/planning/engine.py\<close> with \<^verbatim>\<open>execution/base.py\<close> and \<^verbatim>\<open>execution/state.py\<close>.
  \<^item> \<^theory_text>\<open>Memory_Values\<close>, \<^theory_text>\<open>Memory_Policies\<close>, \<^theory_text>\<open>Memory_Views\<close>,
    \<^theory_text>\<open>Memory_Summarizer\<close>: \<^verbatim>\<open>messages.py\<close>, \<^verbatim>\<open>memory/base.py\<close>, \<^verbatim>\<open>token.py\<close> (budgets),
    \<^verbatim>\<open>policies.py\<close>, \<^verbatim>\<open>state.py\<close>, \<^verbatim>\<open>summarizer.py\<close>.
  \<^item> \<^theory_text>\<open>Model_Guard\<close>: \<^verbatim>\<open>runtime/model_guard.py\<close>.
  \<^item> \<^theory_text>\<open>Conversation_Store\<close>, \<^theory_text>\<open>Conversation_Pages\<close>: the in-memory store of
    \<^verbatim>\<open>persistence/conversation.py\<close>, and the dictionary form of messages.

  \<^bold>\<open>Conventions.\<close>  A dataclass is a record with the prefix of its fields, its \<^verbatim>\<open>__post_init__\<close> a function of the
  name of the class (or \<open>check_\<close>) that returns the value or the error raised.  A fallible function returns a \<^typ>\<open>'a res\<close>,
  a method that changes state is a program \<^typ>\<open>('s, 'a) prog\<close>, which returns the state also when it raises; an
  exception is an \<^typ>\<open>exn\<close> with its message where the program reads it.  A dictionary is an association list in insertion
  order, a value of type \<^verbatim>\<open>Any\<close> a \<^typ>\<open>pyval\<close>, a time the number of microseconds since the epoch.  Python's integers are
  \<^typ>\<open>int\<close>.  An \<^verbatim>\<open>await\<close> in the delegation components lets other tasks change the shared stores, by steps of
  their protocols only; in the Tool, plan and memory components the services awaited are functions on a world \<open>'w\<close>.

  \<^bold>\<open>Parameters.\<close>  What is not in the repository is an argument: SHA-256, HMAC and the canonical JSON text, \<^verbatim>\<open>str\<close> and
  \<^verbatim>\<open>int\<close> of dynamic values, random identifiers, the model, the tokenizer, the endpoints of agents, the Tools and
  the hooks of an application, the authorizer, the storage of checkpoints.  Theorems that need more of them say so in a named
  hypothesis: digests that do not collide on the values of the run (\<^verbatim>\<open>distinct_digests\<close>, \<^verbatim>\<open>inj_on\<close>), a token counter that
  answers (\<^verbatim>\<open>exact_counter\<close>, \<^verbatim>\<open>exact_input\<close>) and is monotone in the turns, a model that answers
  within a length (\<^verbatim>\<open>answers_within\<close>), an authorizer and Tools that write what they are asked into a log (\<^verbatim>\<open>logs_events\<close>), conversions that agree with the values they convert (\<^verbatim>\<open>coercions_ok\<close>), parties that do not
  write to the stores behind the program's back.  Each such theorem is applied in a witness to concrete parameters.

  \<^bold>\<open>What the lemmas show.\<close>
  \<^item> Delegation: the limits of an execution group hold however the calls of several tasks interleave; a cancelled group
    stays closed; a reservation returns by the deadline; a final receipt never changes, however reads,
    compare-and-swaps and claims are interleaved; a settled delegation reaches no
    endpoint again and a denied one reaches none; the caller sees stable failures only.
  \<^item> Registry: a reference that has resolved always resolves to the same definition and fingerprint.
  \<^item> Plans: the constructor accepts exactly the well-ordered plans; every transition and every operation of the policy leaves a
    state that reloads; committed results survive replans, which are bounded; a run of the policy ends; state, checkpoint and migration
    agree with each other.
  \<^item> The engine: the actions of every run, in the order they are taken, follow the protocol of the finalization, and the final answer
    is emitted at most once however often the run crashes and resumes from its last checkpoint.
  \<^item> Tools: every invocation follows a question to the authorizer about exactly this call and its yes, and there are at most as many as the policy allows; a repair runs nothing but a new call of the failed
    Tool; a batch has an outcome, except where a finding says otherwise.
  \<^item> Memory: a prepared view is sound and fits; it keeps the most recent turns that fit, as a linear search would; a summary stands
    for exactly the turns it replaces, and a failed one costs no turn; the summarizer folds every character of the
    conversation, in requests that fit, and ends.
  \<^item> The circuit breaker: it implements a machine that keeps the observations themselves, bounds the model turns, and its
    durable state restores it.
  \<^item> The conversation store: its five dictionaries stay in step and within the limits; an append is never lost and evicts
    the least recently used sessions only; a keyed append happens once; the pages of a session are its messages.

  \<^bold>\<open>Bounds and fuel.\<close>  The polling loop of a reservation takes a number of rounds; a theorem of \<^theory_text>\<open>Budget_Props\<close> shows that the
  microseconds to the deadline are enough.  The depth-first search of a plan takes the number of its steps and one more,
  which \<^theory_text>\<open>Plan_Props\<close> shows never to run out.  The compare-and-swap loops have the source's own number of
  attempts.  The loop of the engine takes fuel and returns \<^term>\<open>Inr None\<close> without it; the theorems on the engine hold for every
  fuel, since they are about the actions taken, and \<^theory_text>\<open>Plan_Policy_Runs\<close> shows that the turns of the policy
  come to an end.  Every other loop is structural recursion or has a termination proof.

  \<^bold>\<open>Not modelled.\<close>
  \<^item> In the modelled components: the interleaving inside a parallel batch of Tools, the handles of asyncio tasks and their
    cancellation, the texts of prompts, the model-backed plan generator and the policy of releases before 0.2, the
    normalization of application objects to JSON, token counters.
  \<^item> The standard engine (a Tool loop without a plan), the runtime and the run coordinator (the wiring of a run around
    an engine, effects on services), the sources of Tools and the Tool of a delegation (introspection of signatures).
  \<^item> The other stores of \<^verbatim>\<open>persistence/\<close>, context memory, skills, model clients, observability, composition, command line, examples and
    benchmarks: SQL, files, HTTP, queues and configuration.
\<close>

end
